(* ===== verification/Prelude.thy ===== *)
theory Prelude
  imports
    Complex_Main
    "HOL-Library.Char_ord"
    "HOL-Library.List_Lexorder"
    "HOL-Library.Product_Lexorder"
begin

text \<open>
  Shared vocabulary of the development: the pieces of Python and of its standard library that the
  components use, as executable functions, and the generic lemmas about them.

  Strings are lists of characters (code points up to 255).  Floats are exact rationals (type
  \<^typ>\<open>rat\<close>): a decimal literal of the source denotes that decimal, and the error of binary
  floating point is not modelled; infinities and NaN are not values.  Instants
  (\<open>datetime\<close>, all in UTC) are rational seconds since the epoch, so \<open>(a - b).total_seconds()\<close>
  is \<open>a - b\<close>.  Python sets are finite HOL sets given by a list, dicts are association lists with
  distinct keys in insertion order.
\<close>

named_theorems exec_simps \<open>unfoldings that let a closed term of the model compute\<close>
named_theorems result_simps \<open>how results of fallible operations are taken apart\<close>

type_synonym float64 = rat
type_synonym instant = rat

section \<open>Fallible computations\<close>

text \<open>A Python function that may raise returns \<open>Inl e\<close> for the exception, \<open>Inr v\<close> for a value.\<close>

definition bindE :: "'e + 'a \<Rightarrow> ('a \<Rightarrow> 'e + 'b) \<Rightarrow> 'e + 'b" where
  "bindE r f = (case r of Inl e \<Rightarrow> Inl e | Inr v \<Rightarrow> f v)"

lemma bindE_simps [simp]:
  "bindE (Inl e) f = Inl e"
  "bindE (Inr v) f = f v"
  by (simp_all add: bindE_def)

lemma bindE_Inr_iff [result_simps]: "bindE r f = Inr w \<longleftrightarrow> (\<exists>v. r = Inr v \<and> f v = Inr w)"
  by (cases r) auto

lemma bindE_Inl_iff [result_simps]:
  "bindE r f = Inl e \<longleftrightarrow> r = Inl e \<or> (\<exists>v. r = Inr v \<and> f v = Inl e)"
  by (cases r) auto

fun mapE :: "('a \<Rightarrow> 'e + 'b) \<Rightarrow> 'a list \<Rightarrow> 'e + 'b list" where
  "mapE f [] = Inr []"
| "mapE f (x # xs) = bindE (f x) (\<lambda>y. bindE (mapE f xs) (\<lambda>ys. Inr (y # ys)))"

lemma mapE_Inr_length: "mapE f xs = Inr ys \<Longrightarrow> length ys = length xs"
  by (induction xs arbitrary: ys) (auto simp: result_simps)

lemma mapE_Inr_nth:
  "mapE f xs = Inr ys \<Longrightarrow> i < length xs \<Longrightarrow> f (xs ! i) = Inr (ys ! i)"
  by (induction xs arbitrary: ys i) (auto simp: result_simps nth_Cons split: nat.splits)

section \<open>Strings\<close>

text \<open>\<open>str.strip\<close> removes the characters for which \<open>str.isspace\<close> holds.\<close>

definition py_space :: "char \<Rightarrow> bool" where
  "py_space c = (let n = (of_char c :: nat) in
     (9 \<le> n \<and> n \<le> 13) \<or> (28 \<le> n \<and> n \<le> 32) \<or> n = 133 \<or> n = 160)"

definition py_strip :: "string \<Rightarrow> string" where
  "py_strip s = rev (dropWhile py_space (rev (dropWhile py_space s)))"

definition rstrip_char :: "char \<Rightarrow> string \<Rightarrow> string" where
  "rstrip_char c s = rev (dropWhile (\<lambda>x. x = c) (rev s))"

definition startswith :: "string \<Rightarrow> string \<Rightarrow> bool" where
  "startswith s p \<longleftrightarrow> take (length p) s = p"

definition endswith :: "string \<Rightarrow> string \<Rightarrow> bool" where
  "endswith s p \<longleftrightarrow> startswith (rev s) (rev p)"

fun contains_sub :: "string \<Rightarrow> string \<Rightarrow> bool" where
  "contains_sub [] p = (p = [])"
| "contains_sub (c # s) p = (startswith (c # s) p \<or> contains_sub s p)"

definition lower_char :: "char \<Rightarrow> char" where
  "lower_char c = (let n = (of_char c :: nat) in
     if (65 \<le> n \<and> n \<le> 90) \<or> (192 \<le> n \<and> n \<le> 222 \<and> n \<noteq> 215) then char_of (n + 32) else c)"

definition py_lower :: "string \<Rightarrow> string" where
  "py_lower s = map lower_char s"

fun join :: "string \<Rightarrow> string list \<Rightarrow> string" where
  "join sep [] = []"
| "join sep [x] = x"
| "join sep (x # xs) = x @ sep @ join sep xs"

fun nat_str :: "nat \<Rightarrow> string" where
  "nat_str n = (if n < 10 then [char_of (48 + n)] else nat_str (n div 10) @ [char_of (48 + n mod 10)])"

declare nat_str.simps [simp del]

definition int_str :: "int \<Rightarrow> string" where
  "int_str i = (if i < 0 then ''-'' @ nat_str (nat (- i)) else nat_str (nat i))"

text \<open>The format \<open>:+d\<close> always writes the sign.\<close>

definition signed_str :: "int \<Rightarrow> string" where
  "signed_str i = (if i < 0 then int_str i else ''+'' @ int_str i)"

definition squote :: "string \<Rightarrow> string" where "squote s = CHR 0x27 # s @ [CHR 0x27]"

definition fstr :: "string list \<Rightarrow> string" where "fstr parts = concat parts"

lemma startswith_append [simp]: "startswith (p @ s) p"
  by (simp add: startswith_def)

lemma startswith_iff: "startswith s p \<longleftrightarrow> (\<exists>t. s = p @ t)"
proof
  assume "startswith s p"
  then have "s = p @ drop (length p) s" by (metis append_take_drop_id startswith_def)
  then show "\<exists>t. s = p @ t" ..
qed auto

lemma startswith_Nil [simp]: "startswith s []"
  by (simp add: startswith_def)

lemma py_strip_Nil [simp]: "py_strip [] = []"
  by (simp add: py_strip_def)

lemma strip_head:
  assumes "py_strip s = c # t"
  shows "\<not> py_space c"
proof -
  let ?u = "dropWhile py_space s"
  have sub: "?u = py_strip s @ rev (takeWhile py_space (rev ?u))"
    unfolding py_strip_def
    by (metis rev_append rev_rev_ident takeWhile_dropWhile_id)
  then have "?u \<noteq> []" and "hd ?u = c" using assms by (metis append_Cons list.distinct(1), metis append_Cons list.sel(1))
  then show ?thesis using hd_dropWhile by metis
qed

lemma py_strip_idem [simp]: "py_strip (py_strip s) = py_strip s"
proof (cases "py_strip s")
  case Nil
  then show ?thesis by simp
next
  case (Cons c t)
  have "dropWhile py_space (py_strip s) = py_strip s"
    using Cons strip_head [OF Cons] by simp
  then have "py_strip (py_strip s) = rev (dropWhile py_space (rev (py_strip s)))"
    by (simp add: py_strip_def)
  also have "\<dots> = py_strip s"
    by (simp add: py_strip_def dropWhile_idem)
  finally show ?thesis .
qed

section \<open>Lists, dicts and searches\<close>

text \<open>\<open>list(dict.fromkeys(xs))\<close> keeps the first occurrence of every element.\<close>

fun uniq_acc :: "'a list \<Rightarrow> 'a list \<Rightarrow> 'a list" where
  "uniq_acc seen [] = []"
| "uniq_acc seen (x # xs) =
     (if x \<in> set seen then uniq_acc seen xs else x # uniq_acc (x # seen) xs)"

definition uniq :: "'a list \<Rightarrow> 'a list" where
  "uniq xs = uniq_acc [] xs"

lemma set_uniq_acc: "set (uniq_acc seen xs) = set xs - set seen"
  by (induction seen xs rule: uniq_acc.induct) auto

lemma distinct_uniq_acc: "distinct (uniq_acc seen xs)"
  by (induction seen xs rule: uniq_acc.induct) (auto simp: set_uniq_acc)

lemma set_uniq [simp]: "set (uniq xs) = set xs"
  by (simp add: uniq_def set_uniq_acc)

lemma distinct_uniq [simp]: "distinct (uniq xs)"
  by (simp add: uniq_def distinct_uniq_acc)

lemma uniq_Nil_iff [simp]: "uniq xs = [] \<longleftrightarrow> xs = []"
  by (metis set_empty set_uniq)

text \<open>\<open>sorted(s)\<close> of a set given by a list of its elements.\<close>

definition sorted_set :: "'a::linorder list \<Rightarrow> 'a list" where
  "sorted_set xs = sort (uniq xs)"

lemma set_sorted_set [simp]: "set (sorted_set xs) = set xs"
  by (simp add: sorted_set_def)

lemma sorted_sorted_set [simp]: "sorted (sorted_set xs)" "distinct (sorted_set xs)"
  by (simp_all add: sorted_set_def)

lemma sorted_set_Nil_iff [simp]: "sorted_set xs = [] \<longleftrightarrow> xs = []"
  by (metis set_empty set_sorted_set)

text \<open>A dict is an association list: \<open>d[k] = v\<close> overwrites in place or appends.\<close>

fun dict_put :: "'k \<Rightarrow> 'v \<Rightarrow> ('k \<times> 'v) list \<Rightarrow> ('k \<times> 'v) list" where
  "dict_put k v [] = [(k, v)]"
| "dict_put k v ((k', v') # d) = (if k' = k then (k, v) # d else (k', v') # dict_put k v d)"

definition dict_pop :: "'k \<Rightarrow> ('k \<times> 'v) list \<Rightarrow> ('k \<times> 'v) list" where
  "dict_pop k d = filter (\<lambda>kv. fst kv \<noteq> k) d"

definition dict_of :: "('k \<times> 'v) list \<Rightarrow> ('k \<times> 'v) list" where
  "dict_of kvs = foldl (\<lambda>d kv. dict_put (fst kv) (snd kv) d) [] kvs"

lemma map_of_dict_put [simp]: "map_of (dict_put k v d) = (map_of d)(k \<mapsto> v)"
  by (induction d) (auto simp: fun_eq_iff)

lemma keys_dict_put [simp]: "fst ` set (dict_put k v d) = insert k (fst ` set d)"
  by (simp add: dom_map_of_conv_image_fst [symmetric])

lemma distinct_dict_put [simp]:
  "distinct (map fst d) \<Longrightarrow> distinct (map fst (dict_put k v d))"
proof (induction d)
  case (Cons kv d)
  have "set (map fst (dict_put k v d)) = insert k (set (map fst d))" by simp
  with Cons show ?case by (cases kv) (auto simp del: set_map)
qed simp

lemma map_of_dict_pop [simp]: "map_of (dict_pop k d) = (map_of d)(k := None)"
  by (induction d) (auto simp: dict_pop_def fun_eq_iff)

lemma set_dict_pop: "set (dict_pop k d) = {kv \<in> set d. fst kv \<noteq> k}"
  by (auto simp: dict_pop_def)

lemma distinct_dict_pop [simp]: "distinct (map fst d) \<Longrightarrow> distinct (map fst (dict_pop k d))"
  by (induction d) (auto simp: dict_pop_def)

lemma map_of_foldl_dict_put:
  "map_of (foldl (\<lambda>d kv. dict_put (fst kv) (snd kv) d) d0 kvs) = map_of d0 ++ map_of (rev kvs)"
  by (induction kvs arbitrary: d0) (auto simp: fun_eq_iff map_add_def split: option.splits)

lemma map_of_dict_of: "map_of (dict_of kvs) = map_of (rev kvs)"
  by (simp add: dict_of_def map_of_foldl_dict_put)

lemma distinct_dict_of [simp]: "distinct (map fst (dict_of kvs))"
proof -
  have "distinct (map fst d0) \<Longrightarrow>
      distinct (map fst (foldl (\<lambda>d kv. dict_put (fst kv) (snd kv) d) d0 kvs))" for d0
    by (induction kvs arbitrary: d0) auto
  then show ?thesis by (simp add: dict_of_def)
qed

lemma find_Some_set: "find P xs = Some x \<Longrightarrow> x \<in> set xs \<and> P x"
  by (induction xs) (auto split: if_splits)

lemma find_None_set: "find P xs = None \<Longrightarrow> x \<in> set xs \<Longrightarrow> \<not> P x"
  by (induction xs) (auto split: if_splits)

text \<open>\<open>min(xs, key=f)\<close> returns the first element with the least key.\<close>

fun min_by :: "('a \<Rightarrow> 'k::linorder) \<Rightarrow> 'a \<Rightarrow> 'a list \<Rightarrow> 'a" where
  "min_by f x [] = x"
| "min_by f x (y # ys) = (if f y < f x then min_by f y ys else min_by f x ys)"

fun max_by :: "('a \<Rightarrow> 'k::linorder) \<Rightarrow> 'a \<Rightarrow> 'a list \<Rightarrow> 'a" where
  "max_by f x [] = x"
| "max_by f x (y # ys) = (if f x < f y then max_by f y ys else max_by f x ys)"

lemma min_by_in: "min_by f x ys \<in> insert x (set ys)"
  by (induction ys arbitrary: x) auto

lemma min_by_le: "z \<in> insert x (set ys) \<Longrightarrow> f (min_by f x ys) \<le> f z"
proof (induction ys arbitrary: x z)
  case (Cons y ys)
  have "f (min_by f y ys) \<le> f y" "f (min_by f x ys) \<le> f x" by (auto intro: Cons.IH)
  moreover have "z \<noteq> x \<Longrightarrow> z \<noteq> y \<Longrightarrow> f (min_by f x ys) \<le> f z \<and> f (min_by f y ys) \<le> f z"
    using Cons by auto
  ultimately show ?case
    by (cases "z = x"; cases "z = y") (auto simp: not_less intro: order_trans less_imp_le)
qed simp

lemma max_by_in: "max_by f x ys \<in> insert x (set ys)"
  by (induction ys arbitrary: x) auto

lemma max_by_ge: "z \<in> insert x (set ys) \<Longrightarrow> f z \<le> f (max_by f x ys)"
proof (induction ys arbitrary: x z)
  case (Cons y ys)
  have "f y \<le> f (max_by f y ys)" "f x \<le> f (max_by f x ys)" by (auto intro: Cons.IH)
  moreover have "z \<noteq> x \<Longrightarrow> z \<noteq> y \<Longrightarrow> f z \<le> f (max_by f x ys) \<and> f z \<le> f (max_by f y ys)"
    using Cons by auto
  ultimately show ?case
    by (cases "z = x"; cases "z = y") (auto simp: not_less intro: order_trans less_imp_le)
qed simp

section \<open>Numbers\<close>

text \<open>\<open>min(max(x, 0.0), 1.0)\<close> and \<open>round(x, 4)\<close> (ties to the even digit).\<close>

definition clamp01 :: "rat \<Rightarrow> rat" where
  "clamp01 x = min (max x 0) 1"

definition round_half_even :: "rat \<Rightarrow> int" where
  "round_half_even x = (let n = \<lfloor>x\<rfloor>; r = x - of_int n in
     if r < 1 / 2 then n else if 1 / 2 < r then n + 1 else if even n then n else n + 1)"

definition py_round :: "nat \<Rightarrow> rat \<Rightarrow> rat" where
  "py_round d x = of_int (round_half_even (x * 10 ^ d)) / 10 ^ d"

text \<open>\<open>int(x)\<close> truncates towards zero.\<close>

definition py_int :: "rat \<Rightarrow> int" where
  "py_int x = (if x < 0 then \<lceil>x\<rceil> else \<lfloor>x\<rfloor>)"

lemma clamp01_bounds [simp]: "0 \<le> clamp01 x" "clamp01 x \<le> 1"
  by (simp_all add: clamp01_def)

lemma clamp01_mono: "x \<le> y \<Longrightarrow> clamp01 x \<le> clamp01 y"
  by (auto simp: clamp01_def)

lemma clamp01_id: "0 \<le> x \<Longrightarrow> x \<le> 1 \<Longrightarrow> clamp01 x = x"
  by (simp add: clamp01_def)

lemma round_half_even_of_int [simp]: "round_half_even (of_int n) = n"
  by (simp add: round_half_even_def)

lemma round_half_even_near: "\<bar>of_int (round_half_even x) - x\<bar> \<le> 1 / 2"
proof -
  have "of_int \<lfloor>x\<rfloor> \<le> x" "x < of_int \<lfloor>x\<rfloor> + 1" by linarith+
  then show ?thesis by (auto simp: round_half_even_def Let_def)
qed

lemma round_half_even_mono: "x \<le> y \<Longrightarrow> round_half_even x \<le> round_half_even y"
proof (rule ccontr)
  assume le: "x \<le> y" and "\<not> round_half_even x \<le> round_half_even y"
  then have lt: "round_half_even y + 1 \<le> round_half_even x" by simp
  have fl: "\<lfloor>x\<rfloor> \<le> \<lfloor>y\<rfloor>" using le by (rule floor_mono)
  have "round_half_even x \<le> \<lfloor>x\<rfloor> + 1" "\<lfloor>y\<rfloor> \<le> round_half_even y"
    by (simp_all add: round_half_even_def Let_def)
  with lt fl have eq: "\<lfloor>x\<rfloor> = \<lfloor>y\<rfloor>" by linarith
  with lt le show False
    by (simp add: round_half_even_def Let_def split: if_splits)
qed

lemma py_round_mono: "x \<le> y \<Longrightarrow> py_round d x \<le> py_round d y"
  by (simp add: py_round_def divide_right_mono round_half_even_mono)

lemma py_round_grid: "x * 10 ^ d = of_int n \<Longrightarrow> py_round d x = x"
  by (simp add: py_round_def field_simps)

lemma py_round_0 [simp]: "py_round d 0 = 0"
  by (rule py_round_grid [where n = 0]) simp

lemma py_round_1 [simp]: "py_round d 1 = 1"
  by (rule py_round_grid [where n = "10 ^ d"]) simp

lemma py_round_unit: "0 \<le> x \<Longrightarrow> x \<le> 1 \<Longrightarrow> 0 \<le> py_round d x \<and> py_round d x \<le> 1"
  using py_round_mono [of 0 x d] py_round_mono [of x 1 d] by simp

lemma py_round_idem [simp]: "py_round d (py_round d x) = py_round d x"
  by (rule py_round_grid [where n = "round_half_even (x * 10 ^ d)"]) (simp add: py_round_def)

section \<open>Transitive closure by a work list\<close>

text \<open>
  Four places of the source compute a transitive closure the same way: a queue, \<open>pop(0)\<close>, skip
  what was visited, append the neighbours found in a dict.
\<close>

definition succs :: "('a \<times> 'a list) list \<Rightarrow> 'a \<Rightarrow> 'a list" where
  "succs d x = (case map_of d x of None \<Rightarrow> [] | Some ys \<Rightarrow> ys)"

lemma succs_not_key: "x \<notin> fst ` set d \<Longrightarrow> succs d x = []"
  by (simp add: succs_def map_of_eq_None_iff [THEN iffD2])

function closure_loop :: "('a \<times> 'a list) list \<Rightarrow> 'a list \<Rightarrow> 'a list \<Rightarrow> 'a list" where
  "closure_loop d [] visited = visited"
| "closure_loop d (x # queue) visited =
     (if x \<in> set visited then closure_loop d queue visited
      else closure_loop d (queue @ succs d x) (x # visited))"
  by pat_completeness auto
termination
proof (relation "measures [\<lambda>(d, queue, visited). card (fst ` set d - set visited),
                           \<lambda>(d, queue, visited). length queue]", goal_cases)
  case 1
  show ?case by simp
next
  case (2 d x queue visited)
  then show ?case by simp
next
  case (3 d x queue visited)
  show ?case
  proof (cases "x \<in> fst ` set d")
    case True
    with 3 have "fst ` set d - set (x # visited) \<subset> fst ` set d - set visited" by auto
    then have "card (fst ` set d - set (x # visited)) < card (fst ` set d - set visited)"
      by (intro psubset_card_mono) auto
    then show ?thesis by simp
  next
    case False
    then have "fst ` set d - set (x # visited) = fst ` set d - set visited" by auto
    moreover have "queue @ succs d x = queue" using succs_not_key [OF False] by simp
    ultimately show ?thesis by (simp only: in_measures prod.case list.size) simp
  qed
qed

definition edge_rel :: "('a \<times> 'a list) list \<Rightarrow> ('a \<times> 'a) set" where
  "edge_rel d = {(x, y). y \<in> set (succs d x)}"

lemma edge_rel_iff [simp]: "(x, y) \<in> edge_rel d \<longleftrightarrow> y \<in> set (succs d x)"
  by (simp add: edge_rel_def)

lemma closure_loop_visited: "set visited \<subseteq> set (closure_loop d queue visited)"
  by (induction d queue visited rule: closure_loop.induct) auto

lemma closure_loop_queue: "set queue \<subseteq> set (closure_loop d queue visited)"
proof (induction d queue visited rule: closure_loop.induct)
  case (2 d x queue visited)
  have "x \<in> set visited \<Longrightarrow> x \<in> set (closure_loop d queue visited)"
    using closure_loop_visited by fastforce
  moreover have "x \<in> set (closure_loop d (queue @ succs d x) (x # visited))"
    using closure_loop_visited [of "x # visited" d "queue @ succs d x"] by auto
  ultimately show ?case using 2 by auto
qed simp

lemma closure_loop_sound:
  "set (closure_loop d queue visited) \<subseteq> set visited \<union> (edge_rel d)\<^sup>* `` set queue"
proof (induction d queue visited rule: closure_loop.induct)
  case (2 d x queue visited)
  have step: "(edge_rel d)\<^sup>* `` set (succs d x) \<subseteq> (edge_rel d)\<^sup>* `` {x}"
    by (auto intro: converse_rtrancl_into_rtrancl)
  show ?case
  proof (cases "x \<in> set visited")
    case True
    with 2 show ?thesis by auto
  next
    case False
    with 2(2) step show ?thesis by (fastforce simp: Image_Un)
  qed
qed simp

lemma closure_loop_closed:
  "edge_rel d `` set visited \<subseteq> set visited \<union> set queue \<Longrightarrow>
   edge_rel d `` set (closure_loop d queue visited) \<subseteq> set (closure_loop d queue visited)"
proof (induction d queue visited rule: closure_loop.induct)
  case (2 d x queue visited)
  show ?case
  proof (cases "x \<in> set visited")
    case True
    with 2 show ?thesis by (simp add: insert_absorb)
  next
    case False
    moreover have "edge_rel d `` set (x # visited) \<subseteq> set (x # visited) \<union> set (queue @ succs d x)"
      using 2(3) by auto
    ultimately show ?thesis using 2(2) by simp
  qed
qed auto

lemma closed_Image_rtrancl: "r `` X \<subseteq> X \<Longrightarrow> r\<^sup>* `` X = X"
  by (metis Image_closed_trancl)

theorem closure_loop_eq: "set (closure_loop d queue []) = (edge_rel d)\<^sup>* `` set queue"
proof
  show "set (closure_loop d queue []) \<subseteq> (edge_rel d)\<^sup>* `` set queue"
    using closure_loop_sound [of d queue "[]"] by simp
  have "(edge_rel d)\<^sup>* `` set queue \<subseteq> (edge_rel d)\<^sup>* `` set (closure_loop d queue [])"
    using closure_loop_queue [of queue d "[]"] by (rule Image_mono [OF subset_refl])
  also have "\<dots> = set (closure_loop d queue [])"
    by (rule closed_Image_rtrancl) (rule closure_loop_closed, simp)
  finally show "(edge_rel d)\<^sup>* `` set queue \<subseteq> set (closure_loop d queue [])" .
qed

lemma closure_from_succs:
  "set (closure_loop d (succs d x) []) = {y. (x, y) \<in> (edge_rel d)\<^sup>+}"
proof -
  have "{y. (x, y) \<in> (edge_rel d)\<^sup>+} = (edge_rel d)\<^sup>* `` set (succs d x)"
    by (auto simp: trancl_unfold_left relcomp_unfold Image_iff)
  then show ?thesis by (simp add: closure_loop_eq)
qed

end
