(* ===== verification/Contracts.thy ===== *)
theory Contracts
  imports Prelude
begin

text \<open>
  The data contracts of \<^verbatim>\<open>src/understudy/contracts/\<close>: the enumerations, the remediation plan, the
  incident context, the rehearsal evidence, the kernel's facts and verdict, the twin handle and the
  run record.  Each pydantic model is a record with the source's fields (prefixed where two
  models share a field name); the plan is recursive and so is a datatype with selectors.
\<close>

section \<open>Enumerations (enums.py)\<close>

datatype ActionType =
    ROLLBACK_DEPLOY | RESTART_WORKLOAD | SCALE_WORKLOAD | DISABLE_FLAG | REVERT_CONFIG | NO_ACTION

fun action_value :: "ActionType \<Rightarrow> string" where
  "action_value ROLLBACK_DEPLOY = ''rollback_deploy''"
| "action_value RESTART_WORKLOAD = ''restart_workload''"
| "action_value SCALE_WORKLOAD = ''scale_workload''"
| "action_value DISABLE_FLAG = ''disable_flag''"
| "action_value REVERT_CONFIG = ''revert_config''"
| "action_value NO_ACTION = ''no_action''"

datatype FailureClass =
    BAD_DEPLOY | RESOURCE_EXHAUSTION | DEPENDENCY_DEGRADATION | CONFIG_DRIFT

datatype KernelVerdictType = PASS | VETO | UNCERTAIN

datatype TournamentOutcome = DECIDED | AMBIGUOUS | NO_VIABLE_CANDIDATE

datatype RunOutcome = EXECUTED | ESCALATED | FAILED

datatype InvariantTier = PROOF | RUNTIME

section \<open>Remediation plans (plan.py)\<close>

datatype ResourceKind = Deployment | ConfigMap | Secret

fun kind_value :: "ResourceKind \<Rightarrow> string" where
  "kind_value Deployment = ''Deployment''"
| "kind_value ConfigMap = ''ConfigMap''"
| "kind_value Secret = ''Secret''"

record ResourceRef =
  ref_namespace :: string
  ref_kind :: ResourceKind
  ref_name :: string

record ActionParams =
  workload :: string
  target_commit :: "string option"
  replica_delta :: "int option"
  flag_name :: "string option"
  config_key :: "string option"
  config_value :: "string option"

datatype PlanOrigin = Planner | Playbook | Shadow

datatype RemediationPlan = RemediationPlan
  (plan_id: string)
  (candidate_index: int)
  (action: ActionType)
  (params: ActionParams)
  (target_resources: "ResourceRef list")
  (declared_blast_set: "string list")
  (inverse: "RemediationPlan option")
  (rationale: string)
  (origin: PlanOrigin)
  (playbook_id: "string option")

text \<open>\<open>model_copy(update={...})\<close> on the fields the code updates.\<close>

fun with_params :: "ActionParams \<Rightarrow> RemediationPlan \<Rightarrow> RemediationPlan" where
  "with_params x (RemediationPlan i c a p t b v r g k) = RemediationPlan i c a x t b v r g k"

fun with_inverse :: "RemediationPlan option \<Rightarrow> RemediationPlan \<Rightarrow> RemediationPlan" where
  "with_inverse x (RemediationPlan i c a p t b v r g k) = RemediationPlan i c a p t b x r g k"

fun with_id_index :: "string \<Rightarrow> int \<Rightarrow> RemediationPlan \<Rightarrow> RemediationPlan" where
  "with_id_index n m (RemediationPlan i c a p t b v r g k) = RemediationPlan n m a p t b v r g k"

fun with_index :: "int \<Rightarrow> RemediationPlan \<Rightarrow> RemediationPlan" where
  "with_index m (RemediationPlan i c a p t b v r g k) = RemediationPlan i m a p t b v r g k"

fun with_targets :: "ResourceRef list \<Rightarrow> RemediationPlan \<Rightarrow> RemediationPlan" where
  "with_targets x (RemediationPlan i c a p t b v r g k) = RemediationPlan i c a p x b v r g k"

fun with_origin :: "PlanOrigin \<Rightarrow> string option \<Rightarrow> RemediationPlan \<Rightarrow> RemediationPlan" where
  "with_origin x y (RemediationPlan i c a p t b v r g k) = RemediationPlan i c a p t b v r x y"

lemma with_params_sel [simp]:
  "plan_id (with_params x p) = plan_id p" "candidate_index (with_params x p) = candidate_index p"
  "action (with_params x p) = action p" "params (with_params x p) = x"
  "target_resources (with_params x p) = target_resources p"
  "declared_blast_set (with_params x p) = declared_blast_set p"
  "inverse (with_params x p) = inverse p" "rationale (with_params x p) = rationale p"
  "origin (with_params x p) = origin p" "playbook_id (with_params x p) = playbook_id p"
  by (cases p; simp)+

lemma with_inverse_sel [simp]:
  "plan_id (with_inverse x p) = plan_id p" "candidate_index (with_inverse x p) = candidate_index p"
  "action (with_inverse x p) = action p" "params (with_inverse x p) = params p"
  "target_resources (with_inverse x p) = target_resources p"
  "declared_blast_set (with_inverse x p) = declared_blast_set p"
  "inverse (with_inverse x p) = x" "rationale (with_inverse x p) = rationale p"
  "origin (with_inverse x p) = origin p" "playbook_id (with_inverse x p) = playbook_id p"
  by (cases p; simp)+

lemma with_id_index_sel [simp]:
  "plan_id (with_id_index n m p) = n" "candidate_index (with_id_index n m p) = m"
  "action (with_id_index n m p) = action p" "params (with_id_index n m p) = params p"
  "target_resources (with_id_index n m p) = target_resources p"
  "declared_blast_set (with_id_index n m p) = declared_blast_set p"
  "inverse (with_id_index n m p) = inverse p" "rationale (with_id_index n m p) = rationale p"
  "origin (with_id_index n m p) = origin p" "playbook_id (with_id_index n m p) = playbook_id p"
  by (cases p; simp)+

lemma with_index_sel [simp]:
  "plan_id (with_index m p) = plan_id p" "candidate_index (with_index m p) = m"
  "action (with_index m p) = action p" "params (with_index m p) = params p"
  "target_resources (with_index m p) = target_resources p"
  "declared_blast_set (with_index m p) = declared_blast_set p"
  "inverse (with_index m p) = inverse p" "rationale (with_index m p) = rationale p"
  "origin (with_index m p) = origin p" "playbook_id (with_index m p) = playbook_id p"
  by (cases p; simp)+

lemma with_targets_sel [simp]:
  "plan_id (with_targets x p) = plan_id p" "candidate_index (with_targets x p) = candidate_index p"
  "action (with_targets x p) = action p" "params (with_targets x p) = params p"
  "target_resources (with_targets x p) = x"
  "declared_blast_set (with_targets x p) = declared_blast_set p"
  "inverse (with_targets x p) = inverse p" "rationale (with_targets x p) = rationale p"
  "origin (with_targets x p) = origin p" "playbook_id (with_targets x p) = playbook_id p"
  by (cases p; simp)+

lemma with_origin_sel [simp]:
  "plan_id (with_origin x y p) = plan_id p" "candidate_index (with_origin x y p) = candidate_index p"
  "action (with_origin x y p) = action p" "params (with_origin x y p) = params p"
  "target_resources (with_origin x y p) = target_resources p"
  "declared_blast_set (with_origin x y p) = declared_blast_set p"
  "inverse (with_origin x y p) = inverse p" "rationale (with_origin x y p) = rationale p"
  "origin (with_origin x y p) = x" "playbook_id (with_origin x y p) = y"
  by (cases p; simp)+

section \<open>Values of facts and of raw payloads\<close>

text \<open>
  The Python values a \<open>Fact\<close> may hold.  \<open>PColl\<close> stands for a set, frozenset, list or tuple
  (the kernel only ever iterates over them or turns them into sets), \<open>PDict\<close> for a dict with
  string keys.
\<close>

datatype PyVal =
    PNone
  | PInt int
  | PBool bool
  | PFloat rat
  | PStr string
  | PDatetime instant
  | PRef ResourceRef
  | PColl "PyVal list"
  | PDict "(string \<times> PyVal) list"

section \<open>Incidents (incident.py)\<close>

record MetricPoint =
  mp_timestamp :: instant
  mp_value :: rat

record MetricSeries =
  metric_name :: string
  series_labels :: "(string \<times> string) list"
  series_points :: "MetricPoint list"

record MetricWindow =
  mw_service :: string
  mw_start_time :: instant
  mw_end_time :: instant
  mw_series :: "MetricSeries list"
  mw_p99_latency_ms :: "rat option"
  mw_error_rate :: "rat option"
  mw_request_count :: int

record DependencyEdge =
  edge_source :: string
  edge_target :: string

record DependencyGraphSnapshot =
  snap_nodes :: "string list"
  snap_edges :: "DependencyEdge list"
  snap_observed_at :: instant

datatype AlertSourceName = PagerdutyAlert | SyntheticAlert

datatype Severity = Critical | ErrorSeverity | Warning

record Alert =
  alert_id :: string
  alert_source :: AlertSourceName
  alert_title :: string
  alert_service :: string
  alert_severity :: Severity
  alert_fired_at :: instant
  alert_raw :: "(string \<times> PyVal) list"

record ErrorSignature =
  sig_fingerprint :: string
  sig_message :: string
  sig_service :: string
  sig_count :: int
  sig_first_seen :: instant
  sig_last_seen :: instant

record DeployRef =
  commit_sha :: string
  image_digests :: "(string \<times> string) list"
  deployed_at :: instant
  pr_number :: "int option"
  contains_migration :: bool

record IncidentContext =
  ctx_incident_id :: string
  ctx_alert :: Alert
  ctx_signatures :: "ErrorSignature list"
  ctx_metrics_window :: MetricWindow
  recent_deploys :: "DeployRef list"
  dependency_graph :: DependencyGraphSnapshot
  inferred_failure_class :: "FailureClass option"
  gathered_at :: instant

section \<open>Twins (twin.py)\<close>

datatype TwinState = Forking | Ready | Applied | Observing | TornDown | TwinFailed

record TwinHandle =
  twin_id :: string
  twin_incident_id :: string
  twin_candidate_index :: int
  twin_namespace :: string
  twin_database :: string
  forked_from_snapshot_at :: instant
  ready_at :: "instant option"
  twin_state :: TwinState

record MirrorStats =
  ms_twin_id :: string
  ms_delivered :: int
  ms_dropped :: int

definition drop_ratio :: "MirrorStats \<Rightarrow> rat" where
  "drop_ratio s = (let total = ms_delivered s + ms_dropped s in
     if 0 < total then of_int (ms_dropped s) / of_int total else 0)"

lemma drop_ratio_unit:
  "0 \<le> ms_delivered s \<Longrightarrow> 0 \<le> ms_dropped s \<Longrightarrow> 0 \<le> drop_ratio s \<and> drop_ratio s \<le> 1"
  by (auto simp: drop_ratio_def Let_def field_simps)

section \<open>Rehearsal evidence and scores (evidence.py)\<close>

record ProbeSample =
  ps_at :: instant
  ps_healthy :: bool
  ps_p99_latency_ms :: rat
  ps_error_rate :: rat

record CandidateEvidence =
  ev_plan_id :: string
  ev_twin_id :: string
  ev_applied_at :: instant
  ev_probes :: "ProbeSample list"
  ev_recovered :: bool
  ev_recovery_seconds :: "rat option"
  ev_observed_blast_set :: "string list"
  ev_downstream_error_delta :: rat
  ev_invariant_violations :: "string list"
  ev_mirror_stats :: MirrorStats
  evidence_complete :: bool

record CandidateScore =
  cs_plan_id :: string
  composite :: rat
  components :: "(string \<times> rat) list"
  disqualified :: bool
  disqualification_reason :: "string option"

record TournamentResult =
  tr_incident_id :: string
  tr_outcome :: TournamentOutcome
  tr_scores :: "CandidateScore list"
  llm_ranking :: "string list option"
  llm_agreement :: "bool option"
  winner_plan_id :: "string option"
  runner_up_plan_id :: "string option"
  margin :: "rat option"
  decided_at :: instant

section \<open>Kernel facts and verdicts (kernel.py)\<close>

datatype FactSource = SrcK8s | SrcGithub | SrcTournament | SrcConfig | SrcGraph | SrcStore | SrcPlan

record Fact =
  fact_name :: string
  fact_value :: PyVal
  fact_source :: FactSource
  fact_observed_at :: instant

record InvariantResult =
  ir_invariant_id :: string
  ir_tier :: InvariantTier
  ir_satisfied :: "bool option"
  ir_unsat_core :: "string list option"
  ir_reason :: string

record KernelVerdict =
  kv_incident_id :: string
  kv_plan_id :: string
  verdict :: KernelVerdictType
  kv_results :: "InvariantResult list"
  kv_missing_facts :: "string list"
  solver_ms :: rat
  human_reason :: string
  evaluated_at :: "instant option"

section \<open>Run records (run.py)\<close>

datatype ProdOutcome = Resolved | NotResolved | Worsened

record RunRecord =
  run_id :: string
  run_incident_id :: string
  run_scenario_id :: "string option"
  run_started_at :: instant
  run_finished_at :: "instant option"
  run_outcome :: RunOutcome
  run_context :: IncidentContext
  run_plans :: "RemediationPlan list"
  run_evidence :: "CandidateEvidence list"
  run_tournament :: "TournamentResult option"
  run_verdict :: "KernelVerdict option"
  prod_applied_plan_id :: "string option"
  run_prod_outcome :: "ProdOutcome option"
  run_escalation_reason :: "string option"

end
