(* ===== verification/Smt.thy ===== *)
theory Smt
  imports Prelude
begin

text \<open>
  The SMT interface of the safety kernel.  Z3 itself is not part of the repository: what the code
  builds is the expression tree below (the z3py constructors that \<^verbatim>\<open>kernel/dsl.py\<close> and
  \<^verbatim>\<open>kernel/invariants/\<close> call), \<open>zeval\<close> is the SMT-LIB meaning of those constructors, and the
  solver is a parameter of type \<open>Solver\<close> about which only its documented contract
  \<open>solver_sound\<close> is ever assumed.  \<open>pin_solver\<close> is a concrete procedure that meets the contract;
  the witnesses run it.
\<close>

section \<open>Expressions and their meaning\<close>

datatype ZSort = IntS | BoolS | RealS | StringS

datatype ZExpr =
    ZConst ZSort string
  | ZIntVal int
  | ZRealVal rat
  | ZStringVal string
  | ZBoolVal bool
  | ZAdd ZExpr ZExpr
  | ZEq ZExpr ZExpr
  | ZNe ZExpr ZExpr
  | ZLe ZExpr ZExpr
  | ZGe ZExpr ZExpr
  | ZNot ZExpr
  | ZAnd "ZExpr list"
  | ZOr "ZExpr list"

datatype ZValue = VInt int | VReal rat | VString string | VBool bool

record ZModel =
  m_int :: "string \<Rightarrow> int"
  m_bool :: "string \<Rightarrow> bool"
  m_real :: "string \<Rightarrow> rat"
  m_string :: "string \<Rightarrow> string"

fun zconst :: "ZModel \<Rightarrow> ZSort \<Rightarrow> string \<Rightarrow> ZValue" where
  "zconst m IntS n = VInt (m_int m n)"
| "zconst m BoolS n = VBool (m_bool m n)"
| "zconst m RealS n = VReal (m_real m n)"
| "zconst m StringS n = VString (m_string m n)"

fun zadd :: "ZValue \<Rightarrow> ZValue \<Rightarrow> ZValue" where
  "zadd (VInt a) (VInt b) = VInt (a + b)"
| "zadd (VReal a) (VReal b) = VReal (a + b)"
| "zadd _ _ = VInt 0"

fun zle :: "ZValue \<Rightarrow> ZValue \<Rightarrow> bool" where
  "zle (VInt a) (VInt b) = (a \<le> b)"
| "zle (VReal a) (VReal b) = (a \<le> b)"
| "zle _ _ = False"

fun zeval :: "ZModel \<Rightarrow> ZExpr \<Rightarrow> ZValue" where
  "zeval m (ZConst s n) = zconst m s n"
| "zeval m (ZIntVal i) = VInt i"
| "zeval m (ZRealVal r) = VReal r"
| "zeval m (ZStringVal s) = VString s"
| "zeval m (ZBoolVal b) = VBool b"
| "zeval m (ZAdd a b) = zadd (zeval m a) (zeval m b)"
| "zeval m (ZEq a b) = VBool (zeval m a = zeval m b)"
| "zeval m (ZNe a b) = VBool (zeval m a \<noteq> zeval m b)"
| "zeval m (ZLe a b) = VBool (zle (zeval m a) (zeval m b))"
| "zeval m (ZGe a b) = VBool (zle (zeval m b) (zeval m a))"
| "zeval m (ZNot a) = VBool (zeval m a \<noteq> VBool True)"
| "zeval m (ZAnd as) = VBool (\<forall>a \<in> set as. zeval m a = VBool True)"
| "zeval m (ZOr as) = VBool (\<exists>a \<in> set as. zeval m a = VBool True)"

definition holds :: "ZModel \<Rightarrow> ZExpr \<Rightarrow> bool" where
  "holds m e \<longleftrightarrow> zeval m e = VBool True"

lemma holds_simps [simp]:
  "holds m (ZBoolVal v) \<longleftrightarrow> v"
  "holds m (ZConst BoolS n) \<longleftrightarrow> m_bool m n"
  "holds m (ZEq a b) \<longleftrightarrow> zeval m a = zeval m b"
  "holds m (ZNe a b) \<longleftrightarrow> zeval m a \<noteq> zeval m b"
  "holds m (ZLe a b) \<longleftrightarrow> zle (zeval m a) (zeval m b)"
  "holds m (ZGe a b) \<longleftrightarrow> zle (zeval m b) (zeval m a)"
  "holds m (ZNot a) \<longleftrightarrow> \<not> holds m a"
  "holds m (ZAnd as) \<longleftrightarrow> (\<forall>a \<in> set as. holds m a)"
  "holds m (ZOr as) \<longleftrightarrow> (\<exists>a \<in> set as. holds m a)"
  by (auto simp: holds_def)

section \<open>The solver's contract\<close>

datatype CheckResult = Unsat | Sat ZModel | Unknown string

text \<open>A solver gets its timeout in milliseconds and the assertions on its stack.\<close>

type_synonym Solver = "int \<Rightarrow> ZExpr list \<Rightarrow> CheckResult"

text \<open>
  What Z3 documents: \<open>unsat\<close> is only answered when no interpretation satisfies all assertions,
  and the model that comes with \<open>sat\<close> satisfies every one of them.
\<close>

definition solver_sound :: "Solver \<Rightarrow> bool" where
  "solver_sound check \<longleftrightarrow>
     (\<forall>t fs. check t fs = Unsat \<longrightarrow> \<not> (\<exists>m. \<forall>f \<in> set fs. holds m f)) \<and>
     (\<forall>t fs m. check t fs = Sat m \<longrightarrow> (\<forall>f \<in> set fs. holds m f))"

text \<open>A solver that never gives up: no timeout, no undecided problem.\<close>

definition solver_decides :: "Solver \<Rightarrow> bool" where
  "solver_decides check \<longleftrightarrow> (\<forall>t fs r. check t fs \<noteq> Unknown r)"

lemma solver_soundD_unsat:
  "solver_sound check \<Longrightarrow> check t fs = Unsat \<Longrightarrow> \<forall>f \<in> set fs. holds m f \<Longrightarrow> False"
  unfolding solver_sound_def by blast

lemma solver_soundD_sat:
  "solver_sound check \<Longrightarrow> check t fs = Sat m \<Longrightarrow> f \<in> set fs \<Longrightarrow> holds m f"
  unfolding solver_sound_def by blast

section \<open>A reference solver\<close>

text \<open>
  The kernel asserts an equality between each constant and a value.  A problem in which every
  constant is bound that way has at most one interpretation that matters: the one read off the
  equalities.
\<close>

fun pin_int :: "ZExpr list \<Rightarrow> string \<Rightarrow> int option" where
  "pin_int [] n = None"
| "pin_int (ZEq (ZConst IntS n') (ZIntVal v) # fs) n =
     (if n' = n then Some v else pin_int fs n)"
| "pin_int (f # fs) n = pin_int fs n"

fun pin_bool :: "ZExpr list \<Rightarrow> string \<Rightarrow> bool option" where
  "pin_bool [] n = None"
| "pin_bool (ZEq (ZConst BoolS n') (ZBoolVal v) # fs) n =
     (if n' = n then Some v else pin_bool fs n)"
| "pin_bool (f # fs) n = pin_bool fs n"

fun pin_real :: "ZExpr list \<Rightarrow> string \<Rightarrow> rat option" where
  "pin_real [] n = None"
| "pin_real (ZEq (ZConst RealS n') (ZRealVal v) # fs) n =
     (if n' = n then Some v else pin_real fs n)"
| "pin_real (f # fs) n = pin_real fs n"

fun pin_string :: "ZExpr list \<Rightarrow> string \<Rightarrow> string option" where
  "pin_string [] n = None"
| "pin_string (ZEq (ZConst StringS n') (ZStringVal v) # fs) n =
     (if n' = n then Some v else pin_string fs n)"
| "pin_string (f # fs) n = pin_string fs n"

fun consts_of :: "ZExpr \<Rightarrow> (ZSort \<times> string) list" where
  "consts_of (ZConst s n) = [(s, n)]"
| "consts_of (ZAdd a b) = consts_of a @ consts_of b"
| "consts_of (ZEq a b) = consts_of a @ consts_of b"
| "consts_of (ZNe a b) = consts_of a @ consts_of b"
| "consts_of (ZLe a b) = consts_of a @ consts_of b"
| "consts_of (ZGe a b) = consts_of a @ consts_of b"
| "consts_of (ZNot a) = consts_of a"
| "consts_of (ZAnd as) = concat (map consts_of as)"
| "consts_of (ZOr as) = concat (map consts_of as)"
| "consts_of _ = []"

fun is_pinned :: "ZExpr list \<Rightarrow> ZSort \<times> string \<Rightarrow> bool" where
  "is_pinned fs (IntS, n) = (pin_int fs n \<noteq> None)"
| "is_pinned fs (BoolS, n) = (pin_bool fs n \<noteq> None)"
| "is_pinned fs (RealS, n) = (pin_real fs n \<noteq> None)"
| "is_pinned fs (StringS, n) = (pin_string fs n \<noteq> None)"

definition pin_model :: "ZExpr list \<Rightarrow> ZModel" where
  "pin_model fs = \<lparr>
     m_int = (\<lambda>n. case pin_int fs n of None \<Rightarrow> 0 | Some v \<Rightarrow> v),
     m_bool = (\<lambda>n. case pin_bool fs n of None \<Rightarrow> False | Some v \<Rightarrow> v),
     m_real = (\<lambda>n. case pin_real fs n of None \<Rightarrow> 0 | Some v \<Rightarrow> v),
     m_string = (\<lambda>n. case pin_string fs n of None \<Rightarrow> [] | Some v \<Rightarrow> v)\<rparr>"

definition pin_solver :: Solver where
  "pin_solver timeout fs =
     (if list_all (holds (pin_model fs)) fs then Sat (pin_model fs)
      else if list_all (is_pinned fs) (concat (map consts_of fs)) then Unsat
      else Unknown ''incomplete'')"

lemma pin_int_holds: "\<forall>f \<in> set fs. holds m f \<Longrightarrow> pin_int fs n = Some v \<Longrightarrow> m_int m n = v"
  by (induction fs n rule: pin_int.induct) (auto split: if_splits)

lemma pin_bool_holds: "\<forall>f \<in> set fs. holds m f \<Longrightarrow> pin_bool fs n = Some v \<Longrightarrow> m_bool m n = v"
  by (induction fs n rule: pin_bool.induct) (auto split: if_splits)

lemma pin_real_holds: "\<forall>f \<in> set fs. holds m f \<Longrightarrow> pin_real fs n = Some v \<Longrightarrow> m_real m n = v"
  by (induction fs n rule: pin_real.induct) (auto split: if_splits)

lemma pin_string_holds:
  "\<forall>f \<in> set fs. holds m f \<Longrightarrow> pin_string fs n = Some v \<Longrightarrow> m_string m n = v"
  by (induction fs n rule: pin_string.induct) (auto split: if_splits)

lemma pinned_const_eq:
  assumes "\<forall>f \<in> set fs. holds m f" and "is_pinned fs (s, n)"
  shows "zconst m s n = zconst (pin_model fs) s n"
  using assms
  by (cases s) (auto simp: pin_model_def dest: pin_int_holds pin_bool_holds pin_real_holds
      pin_string_holds)

lemma zeval_cong_consts:
  "(\<And>s n. (s, n) \<in> set (consts_of e) \<Longrightarrow> zconst m s n = zconst m' s n) \<Longrightarrow> zeval m e = zeval m' e"
proof (induction e)
  case (ZAnd as)
  then have "\<And>a. a \<in> set as \<Longrightarrow> zeval m a = zeval m' a" by auto
  then show ?case by simp
next
  case (ZOr as)
  then have "\<And>a. a \<in> set as \<Longrightarrow> zeval m a = zeval m' a" by auto
  then show ?case by simp
qed (simp_all; metis)+

lemma pin_solver_unsat:
  assumes "pin_solver t fs = Unsat"
  shows "\<not> (\<forall>f \<in> set fs. holds m f)"
proof
  assume all: "\<forall>f \<in> set fs. holds m f"
  from assms have pins: "\<forall>f \<in> set fs. \<forall>c \<in> set (consts_of f). is_pinned fs c"
    and some: "\<exists>f \<in> set fs. \<not> holds (pin_model fs) f"
    by (auto simp: pin_solver_def list_all_iff split: if_splits)
  have "zeval m f = zeval (pin_model fs) f" if "f \<in> set fs" for f
    using that pins all by (intro zeval_cong_consts pinned_const_eq) auto
  with all some show False by (simp add: holds_def)
qed

lemma pin_solver_sound: "solver_sound pin_solver"
  unfolding solver_sound_def
proof (intro conjI allI impI ballI)
  fix t fs
  assume "pin_solver t fs = Unsat"
  then show "\<not> (\<exists>m. \<forall>f \<in> set fs. holds m f)" using pin_solver_unsat by blast
next
  fix t fs m f
  assume "pin_solver t fs = Sat m" and "f \<in> set fs"
  then show "holds m f" by (auto simp: pin_solver_def list_all_iff split: if_splits)
qed

text \<open>A solver that is both sound and never gives up exists.\<close>

definition ideal_solver :: Solver where
  "ideal_solver timeout fs =
     (if \<exists>m. \<forall>f \<in> set fs. holds m f then Sat (SOME m. \<forall>f \<in> set fs. holds m f) else Unsat)"

lemma ideal_solver_sound: "solver_sound ideal_solver"
proof -
  have "\<forall>f \<in> set fs. holds (SOME m. \<forall>f \<in> set fs. holds m f) f" if "\<forall>f \<in> set fs. holds m f" for m fs
    using that by (rule someI)
  then show ?thesis unfolding solver_sound_def ideal_solver_def by (auto split: if_splits)
qed

lemma ideal_solver_decides: "solver_decides ideal_solver"
  by (simp add: solver_decides_def ideal_solver_def)

end
