(* ===== verification/KernelDsl.thy ===== *)
theory KernelDsl
  imports Contracts Smt
begin

text \<open>
  \<^verbatim>\<open>kernel/dsl.py\<close>: the evaluation context an invariant is built in.  A context is a record that
  every accessor takes and returns (\<open>'a kop\<close>), so that the constants and equalities an accessor
  registers, and the missing names it remembers, survive a later \<open>MissingFact\<close> as they do in
  Python.

  What the code takes from the Python library and is not modelled to the letter (parsing and
  printing of ISO timestamps, \<open>str\<close> of values that are neither strings, integers, booleans nor
  \<open>None\<close>, fixed-point formatting of floats) is the record \<open>PyStd\<close>, a parameter.
\<close>

section \<open>Python values\<close>

record PyStd =
  std_fromisoformat :: "string \<Rightarrow> instant option"
  std_isoformat :: "instant \<Rightarrow> string"
  std_repr :: "PyVal \<Rightarrow> string"
  std_fixed :: "nat \<Rightarrow> rat \<Rightarrow> string"

fun py_str :: "PyStd \<Rightarrow> PyVal \<Rightarrow> string" where
  "py_str std (PStr s) = s"
| "py_str std (PInt i) = int_str i"
| "py_str std (PBool b) = (if b then ''True'' else ''False'')"
| "py_str std PNone = ''None''"
| "py_str std v = std_repr std v"

fun py_truthy :: "PyVal \<Rightarrow> bool" where
  "py_truthy PNone = False"
| "py_truthy (PInt i) = (i \<noteq> 0)"
| "py_truthy (PBool b) = b"
| "py_truthy (PFloat r) = (r \<noteq> 0)"
| "py_truthy (PStr s) = (s \<noteq> [])"
| "py_truthy (PDatetime t) = True"
| "py_truthy (PRef r) = True"
| "py_truthy (PColl vs) = (vs \<noteq> [])"
| "py_truthy (PDict d) = (d \<noteq> [])"

text \<open>\<open>set(xs)\<close> raises \<open>TypeError\<close> on an element that is a dict or a list.\<close>

fun py_hashable :: "PyVal \<Rightarrow> bool" where
  "py_hashable (PColl _) = False"
| "py_hashable (PDict _) = False"
| "py_hashable _ = True"

datatype KernelExc =
    MissingFact "string list"
  | FactTypeError string string
  | UnhashableElement string
  | BadIsoFormat string
  | NotImplemented

section \<open>The context\<close>

record KernelContext =
  kc_std :: PyStd
  kc_plan :: RemediationPlan
  kc_facts :: "(string \<times> Fact) list"
  kc_constants :: "(string \<times> ZExpr) list"
  kc_assertions :: "ZExpr list"
  kc_missing_accessed :: "string list"

definition kernel_context :: "PyStd \<Rightarrow> RemediationPlan \<Rightarrow> Fact list \<Rightarrow> KernelContext" where
  "kernel_context std p fs = \<lparr>
     kc_std = std, kc_plan = p,
     kc_facts = dict_of (map (\<lambda>f. (fact_name f, f)) fs),
     kc_constants = [], kc_assertions = [], kc_missing_accessed = []\<rparr>"

definition missing_facts :: "KernelContext \<Rightarrow> string list" where
  "missing_facts ctx = uniq (kc_missing_accessed ctx)"

text \<open>The pattern \<^verbatim>\<open>^([a-zA-Z0-9_]+)\[([a-zA-Z0-9_-]+)\]$\<close>; \<open>$\<close> also matches before a final newline.\<close>

definition word_char :: "char \<Rightarrow> bool" where
  "word_char c = (let n = (of_char c :: nat) in
     (97 \<le> n \<and> n \<le> 122) \<or> (65 \<le> n \<and> n \<le> 90) \<or> (48 \<le> n \<and> n \<le> 57) \<or> n = 95)"

definition key_char :: "char \<Rightarrow> bool" where
  "key_char c \<longleftrightarrow> word_char c \<or> c = CHR ''-''"

definition parse_subscript :: "string \<Rightarrow> (string \<times> string) option" where
  "parse_subscript s =
     (let base = takeWhile word_char s; rest = dropWhile word_char s in
      case rest of
        [] \<Rightarrow> None
      | c # rest' \<Rightarrow>
          let key = takeWhile key_char rest'; tail = dropWhile key_char rest' in
          if c = CHR ''['' \<and> base \<noteq> [] \<and> key \<noteq> [] \<and> (tail = '']'' \<or> tail = '']'' @ [CHR 0x0A])
          then Some (base, key) else None)"

definition subscript :: "string \<Rightarrow> string \<Rightarrow> string" where
  "subscript base key = base @ ''['' @ key @ '']''"

text \<open>The fall-back of \<open>has_fact\<close> and \<open>get_fact\<close>: a key inside a fact that holds a mapping.\<close>

definition nested_fact :: "KernelContext \<Rightarrow> string \<Rightarrow> Fact option" where
  "nested_fact ctx name =
     (case parse_subscript name of
        None \<Rightarrow> None
      | Some (base, key) \<Rightarrow>
          (case map_of (kc_facts ctx) base of
             None \<Rightarrow> None
           | Some f \<Rightarrow>
               (case fact_value f of
                  PDict d \<Rightarrow>
                    (case map_of d key of
                       None \<Rightarrow> None
                     | Some v \<Rightarrow> Some \<lparr>fact_name = name, fact_value = v,
                                 fact_source = fact_source f,
                                 fact_observed_at = fact_observed_at f\<rparr>)
                | _ \<Rightarrow> None)))"

definition lookup_fact :: "KernelContext \<Rightarrow> string \<Rightarrow> Fact option" where
  "lookup_fact ctx name =
     (case map_of (kc_facts ctx) name of Some f \<Rightarrow> Some f | None \<Rightarrow> nested_fact ctx name)"

definition has_fact :: "KernelContext \<Rightarrow> string \<Rightarrow> bool" where
  "has_fact ctx name \<longleftrightarrow> lookup_fact ctx name \<noteq> None"

section \<open>Operations on a context\<close>

type_synonym 'a kop = "KernelContext \<Rightarrow> (KernelExc + 'a) \<times> KernelContext"

definition kret :: "'a \<Rightarrow> 'a kop" where
  "kret v ctx = (Inr v, ctx)"

definition kraise :: "KernelExc \<Rightarrow> 'a kop" where
  "kraise e ctx = (Inl e, ctx)"

definition klift :: "KernelExc + 'a \<Rightarrow> 'a kop" where
  "klift r ctx = (r, ctx)"

definition kbind :: "'a kop \<Rightarrow> ('a \<Rightarrow> 'b kop) \<Rightarrow> 'b kop" where
  "kbind op f ctx = (case op ctx of (Inl e, ctx') \<Rightarrow> (Inl e, ctx') | (Inr v, ctx') \<Rightarrow> f v ctx')"

fun kmap :: "('a \<Rightarrow> 'b kop) \<Rightarrow> 'a list \<Rightarrow> 'b list kop" where
  "kmap f [] = kret []"
| "kmap f (x # xs) = kbind (f x) (\<lambda>y. kbind (kmap f xs) (\<lambda>ys. kret (y # ys)))"

lemma kret_iff [result_simps]: "kret v ctx = (r, c) \<longleftrightarrow> r = Inr v \<and> c = ctx"
  by (auto simp: kret_def)

lemma kraise_iff [result_simps]: "kraise e ctx = (r, c) \<longleftrightarrow> r = Inl e \<and> c = ctx"
  by (auto simp: kraise_def)

lemma klift_iff [result_simps]: "klift q ctx = (r, c) \<longleftrightarrow> r = q \<and> c = ctx"
  by (auto simp: klift_def)

lemma kbind_Inr_iff [result_simps]:
  "kbind op f ctx = (Inr w, c) \<longleftrightarrow> (\<exists>v c'. op ctx = (Inr v, c') \<and> f v c' = (Inr w, c))"
  by (auto simp: kbind_def split: prod.splits sum.splits)

lemma kbind_Inl_iff [result_simps]:
  "kbind op f ctx = (Inl e, c) \<longleftrightarrow>
     op ctx = (Inl e, c) \<or> (\<exists>v c'. op ctx = (Inr v, c') \<and> f v c' = (Inl e, c))"
  by (auto simp: kbind_def split: prod.splits sum.splits)

definition get_fact :: "string \<Rightarrow> Fact kop" where
  "get_fact name ctx =
     (case lookup_fact ctx name of
        Some f \<Rightarrow> (Inr f, ctx)
      | None \<Rightarrow> (Inl (MissingFact [name]),
                 ctx\<lparr>kc_missing_accessed := kc_missing_accessed ctx @ [name]\<rparr>))"

definition get_raw :: "string \<Rightarrow> PyVal kop" where
  "get_raw name = kbind (get_fact name) (\<lambda>f. kret (fact_value f))"

definition get_int :: "string \<Rightarrow> int kop" where
  "get_int name = kbind (get_raw name) (\<lambda>v.
     case v of PInt i \<Rightarrow> kret i | _ \<Rightarrow> kraise (FactTypeError name ''int''))"

definition get_bool :: "string \<Rightarrow> bool kop" where
  "get_bool name = kbind (get_raw name) (\<lambda>v.
     case v of PBool b \<Rightarrow> kret b | _ \<Rightarrow> kraise (FactTypeError name ''bool''))"

definition get_float :: "string \<Rightarrow> rat kop" where
  "get_float name = kbind (get_raw name) (\<lambda>v.
     case v of PInt i \<Rightarrow> kret (of_int i) | PFloat r \<Rightarrow> kret r
     | _ \<Rightarrow> kraise (FactTypeError name ''float/int''))"

definition get_str :: "string \<Rightarrow> string kop" where
  "get_str name = kbind (get_raw name) (\<lambda>v.
     case v of PStr s \<Rightarrow> kret s | _ \<Rightarrow> kraise (FactTypeError name ''str''))"

definition get_datetime :: "string \<Rightarrow> instant kop" where
  "get_datetime name = kbind (get_raw name) (\<lambda>v ctx.
     case v of
       PDatetime t \<Rightarrow> kret t ctx
     | PStr s \<Rightarrow>
         (case std_fromisoformat (kc_std ctx) s of
            Some t \<Rightarrow> kret t ctx | None \<Rightarrow> kraise (BadIsoFormat s) ctx)
     | _ \<Rightarrow> kraise (FactTypeError name ''datetime or ISO-8601 str'') ctx)"

text \<open>The set is returned as the list of its distinct elements.\<close>

definition get_set :: "string \<Rightarrow> PyVal list kop" where
  "get_set name = kbind (get_raw name) (\<lambda>v.
     case v of
       PColl vs \<Rightarrow> (if list_all py_hashable vs then kret (uniq vs)
                   else kraise (UnhashableElement name))
     | _ \<Rightarrow> kraise (FactTypeError name ''set/collection''))"

definition register_const :: "string \<Rightarrow> ZSort \<Rightarrow> ZExpr \<Rightarrow> ZExpr kop" where
  "register_const name s lit ctx =
     (case map_of (kc_constants ctx) name of
        Some c \<Rightarrow> (Inr c, ctx)
      | None \<Rightarrow> (Inr (ZConst s name),
          ctx\<lparr>kc_constants := kc_constants ctx @ [(name, ZConst s name)],
              kc_assertions := kc_assertions ctx @ [ZEq (ZConst s name) lit]\<rparr>))"

definition kc_int :: "string \<Rightarrow> ZExpr kop" where
  "kc_int name = kbind (get_int name) (\<lambda>v. register_const name IntS (ZIntVal v))"

definition kc_bool :: "string \<Rightarrow> ZExpr kop" where
  "kc_bool name = kbind (get_bool name) (\<lambda>v. register_const name BoolS (ZBoolVal v))"

definition kc_real :: "string \<Rightarrow> ZExpr kop" where
  "kc_real name = kbind (get_float name) (\<lambda>v. register_const name RealS (ZRealVal v))"

definition kc_string :: "string \<Rightarrow> ZExpr kop" where
  "kc_string name = kbind (get_str name) (\<lambda>v. register_const name StringS (ZStringVal v))"

definition kc_datetime :: "string \<Rightarrow> ZExpr kop" where
  "kc_datetime name = kbind (get_datetime name) (\<lambda>t. register_const name RealS (ZRealVal t))"

definition check_required_facts :: "KernelContext \<Rightarrow> string list \<Rightarrow> string list" where
  "check_required_facts ctx names = filter (\<lambda>n. \<not> has_fact ctx n) names"

definition require_facts :: "string list \<Rightarrow> unit kop" where
  "require_facts names ctx =
     (let missing = check_required_facts ctx names in
      if missing = [] then (Inr (), ctx)
      else (Inl (MissingFact missing),
            ctx\<lparr>kc_missing_accessed := foldl (\<lambda>acc m. if m \<in> set acc then acc else acc @ [m])
                  (kc_missing_accessed ctx) missing\<rparr>))"

section \<open>The facts a context holds never change\<close>

definition same_view :: "KernelContext \<Rightarrow> KernelContext \<Rightarrow> bool" where
  "same_view c c' \<longleftrightarrow> kc_facts c' = kc_facts c \<and> kc_plan c' = kc_plan c \<and> kc_std c' = kc_std c"

lemma same_view_refl [simp]: "same_view c c"
  by (simp add: same_view_def)

lemma same_view_trans: "same_view a b \<Longrightarrow> same_view b c \<Longrightarrow> same_view a c"
  by (simp add: same_view_def)

lemma lookup_fact_same_view:
  assumes "same_view c c'"
  shows "lookup_fact c' n = lookup_fact c n"
proof -
  have "nested_fact c' n = nested_fact c n"
    using assms by (simp add: nested_fact_def same_view_def cong: option.case_cong)
  then show ?thesis using assms by (simp add: lookup_fact_def same_view_def cong: option.case_cong)
qed

lemma has_fact_same_view: "same_view c c' \<Longrightarrow> has_fact c' n = has_fact c n"
  by (simp add: has_fact_def lookup_fact_same_view)

section \<open>What the facts say, without the state\<close>

text \<open>The value an accessor reads, as a function of the context alone.\<close>

definition fact_val :: "KernelContext \<Rightarrow> string \<Rightarrow> PyVal option" where
  "fact_val ctx name = map_option fact_value (lookup_fact ctx name)"

definition int_fact :: "KernelContext \<Rightarrow> string \<Rightarrow> int option" where
  "int_fact ctx name = (case fact_val ctx name of Some (PInt i) \<Rightarrow> Some i | _ \<Rightarrow> None)"

definition bool_fact :: "KernelContext \<Rightarrow> string \<Rightarrow> bool option" where
  "bool_fact ctx name = (case fact_val ctx name of Some (PBool b) \<Rightarrow> Some b | _ \<Rightarrow> None)"

definition float_fact :: "KernelContext \<Rightarrow> string \<Rightarrow> rat option" where
  "float_fact ctx name = (case fact_val ctx name of
     Some (PInt i) \<Rightarrow> Some (of_int i) | Some (PFloat r) \<Rightarrow> Some r | _ \<Rightarrow> None)"

definition str_fact :: "KernelContext \<Rightarrow> string \<Rightarrow> string option" where
  "str_fact ctx name = (case fact_val ctx name of Some (PStr s) \<Rightarrow> Some s | _ \<Rightarrow> None)"

definition datetime_fact :: "KernelContext \<Rightarrow> string \<Rightarrow> instant option" where
  "datetime_fact ctx name = (case fact_val ctx name of
     Some (PDatetime t) \<Rightarrow> Some t
   | Some (PStr s) \<Rightarrow> std_fromisoformat (kc_std ctx) s | _ \<Rightarrow> None)"

definition set_fact :: "KernelContext \<Rightarrow> string \<Rightarrow> PyVal list option" where
  "set_fact ctx name = (case fact_val ctx name of
     Some (PColl vs) \<Rightarrow> if list_all py_hashable vs then Some (uniq vs) else None | _ \<Rightarrow> None)"

lemma fact_val_same_view:
  assumes "same_view c c'"
  shows "fact_val c' n = fact_val c n" "int_fact c' n = int_fact c n"
    "bool_fact c' n = bool_fact c n" "float_fact c' n = float_fact c n"
    "str_fact c' n = str_fact c n" "datetime_fact c' n = datetime_fact c n"
    "set_fact c' n = set_fact c n"
proof -
  show v: "fact_val c' n = fact_val c n"
    using assms by (simp add: fact_val_def lookup_fact_same_view)
  show "int_fact c' n = int_fact c n" "bool_fact c' n = bool_fact c n"
    "float_fact c' n = float_fact c n" "str_fact c' n = str_fact c n"
    "set_fact c' n = set_fact c n"
    by (simp_all add: int_fact_def bool_fact_def float_fact_def str_fact_def set_fact_def v)
  have "kc_std c' = kc_std c" using assms by (simp add: same_view_def)
  then show "datetime_fact c' n = datetime_fact c n"
    by (simp add: datetime_fact_def v cong: option.case_cong PyVal.case_cong)
qed

lemma get_raw_Inr: "get_raw n c = (Inr v, c') \<longleftrightarrow> fact_val c n = Some v \<and> c' = c"
  by (auto simp: get_raw_def get_fact_def fact_val_def result_simps split: option.splits)

lemma get_raw_Inl: "get_raw n c = (Inl e, c') \<Longrightarrow> fact_val c n = None"
  by (auto simp: get_raw_def get_fact_def fact_val_def result_simps split: option.splits)

lemma get_Inr:
  "get_int n c = (Inr i, c') \<longleftrightarrow> int_fact c n = Some i \<and> c' = c"
  "get_bool n c = (Inr b, c') \<longleftrightarrow> bool_fact c n = Some b \<and> c' = c"
  "get_float n c = (Inr r, c') \<longleftrightarrow> float_fact c n = Some r \<and> c' = c"
  "get_str n c = (Inr s, c') \<longleftrightarrow> str_fact c n = Some s \<and> c' = c"
  "get_datetime n c = (Inr t, c') \<longleftrightarrow> datetime_fact c n = Some t \<and> c' = c"
  "get_set n c = (Inr vs, c') \<longleftrightarrow> set_fact c n = Some vs \<and> c' = c"
  by (auto simp: get_int_def get_bool_def get_float_def get_str_def get_datetime_def get_set_def
      int_fact_def bool_fact_def float_fact_def str_fact_def datetime_fact_def set_fact_def
      result_simps get_raw_Inr split: option.splits PyVal.splits if_splits)

text \<open>
  An operation that raises \<open>MissingFact\<close> has recorded the names it reports, and no operation
  forgets a recorded name: the discipline \<open>verify\<close> relies on to answer UNCERTAIN.
\<close>

definition records_missing :: "'a kop \<Rightarrow> bool" where
  "records_missing op \<longleftrightarrow> (\<forall>c r c'. op c = (r, c') \<longrightarrow>
     same_view c c' \<and> set (kc_missing_accessed c) \<subseteq> set (kc_missing_accessed c') \<and>
     (\<forall>ns. r = Inl (MissingFact ns) \<longrightarrow>
        ns \<noteq> [] \<and> set ns \<subseteq> set (kc_missing_accessed c') \<and> (\<forall>n \<in> set ns. \<not> has_fact c n)) \<and>
     (\<forall>v. r = Inr v \<longrightarrow> kc_missing_accessed c' = kc_missing_accessed c))"

lemma records_missing_kret [intro]: "records_missing (kret v)"
  by (auto simp: records_missing_def kret_def)

lemma records_missing_kraise [intro]: "\<forall>ns. e \<noteq> MissingFact ns \<Longrightarrow> records_missing (kraise e)"
  by (auto simp: records_missing_def kraise_def)

lemma records_missing_kbind [intro]:
  assumes op: "records_missing op" and f: "\<And>v. records_missing (f v)"
  shows "records_missing (kbind op f)"
  unfolding records_missing_def
proof (intro allI impI)
  fix c r c'
  assume run: "kbind op f c = (r, c')"
  obtain q d where q: "op c = (q, d)" by fastforce
  note 1 = op [unfolded records_missing_def, rule_format, OF q]
  show "same_view c c' \<and> set (kc_missing_accessed c) \<subseteq> set (kc_missing_accessed c') \<and>
     (\<forall>ns. r = Inl (MissingFact ns) \<longrightarrow>
        ns \<noteq> [] \<and> set ns \<subseteq> set (kc_missing_accessed c') \<and> (\<forall>n \<in> set ns. \<not> has_fact c n)) \<and>
     (\<forall>v. r = Inr v \<longrightarrow> kc_missing_accessed c' = kc_missing_accessed c)"
  proof (cases q)
    case (Inl e)
    with run q have "r = Inl e" "c' = d" by (auto simp: kbind_def)
    with 1 Inl show ?thesis by auto
  next
    case (Inr v)
    with run q have "f v d = (r, c')" by (simp add: kbind_def)
    note 2 = f [unfolded records_missing_def, rule_format, OF this]
    from 1 Inr have "same_view c d" "kc_missing_accessed d = kc_missing_accessed c" by auto
    with 2 show ?thesis by (auto intro: same_view_trans simp: has_fact_same_view)
  qed
qed

lemma records_missing_get_fact [intro]: "records_missing (get_fact n)"
  by (auto simp: records_missing_def get_fact_def has_fact_def same_view_def split: option.splits)

lemma records_missing_get [intro]:
  "records_missing (get_raw n)" "records_missing (get_int n)" "records_missing (get_bool n)"
  "records_missing (get_float n)" "records_missing (get_str n)" "records_missing (get_set n)"
proof -
  show r: "records_missing (get_raw n)" unfolding get_raw_def by auto
  show "records_missing (get_int n)" unfolding get_int_def
    by (rule records_missing_kbind [OF r]) (auto split: PyVal.splits)
  show "records_missing (get_bool n)" unfolding get_bool_def
    by (rule records_missing_kbind [OF r]) (auto split: PyVal.splits)
  show "records_missing (get_float n)" unfolding get_float_def
    by (rule records_missing_kbind [OF r]) (auto split: PyVal.splits)
  show "records_missing (get_str n)" unfolding get_str_def
    by (rule records_missing_kbind [OF r]) (auto split: PyVal.splits)
  show "records_missing (get_set n)" unfolding get_set_def
    by (rule records_missing_kbind [OF r]) (auto split: PyVal.splits)
qed

lemma records_missing_get_datetime [intro]: "records_missing (get_datetime n)"
  unfolding get_datetime_def
proof (rule records_missing_kbind)
  fix v
  show "records_missing (\<lambda>ctx. case v of
       PDatetime t \<Rightarrow> kret t ctx
     | PStr s \<Rightarrow> (case std_fromisoformat (kc_std ctx) s of
            Some t \<Rightarrow> kret t ctx | None \<Rightarrow> kraise (BadIsoFormat s) ctx)
     | _ \<Rightarrow> kraise (FactTypeError n ''datetime or ISO-8601 str'') ctx)"
    by (auto simp: records_missing_def kret_def kraise_def split: PyVal.splits option.splits)
qed auto

lemma records_missing_register [intro]: "records_missing (register_const n s l)"
  by (auto simp: records_missing_def register_const_def same_view_def split: option.splits)

lemma records_missing_kc [intro]:
  "records_missing (kc_int n)" "records_missing (kc_bool n)" "records_missing (kc_real n)"
  "records_missing (kc_string n)" "records_missing (kc_datetime n)"
  unfolding kc_int_def kc_bool_def kc_real_def kc_string_def kc_datetime_def
  by (rule records_missing_kbind, auto)+

lemma records_missing_kmap [intro]:
  "(\<And>x. records_missing (f x)) \<Longrightarrow> records_missing (kmap f xs)"
  by (induction xs) auto

lemma records_missing_same_view: "records_missing op \<Longrightarrow> op c = (r, c') \<Longrightarrow> same_view c c'"
  unfolding records_missing_def by blast

section \<open>Constants stand for the values of their facts\<close>

text \<open>The sort each fact name is asked for in, by the part before the bracket.\<close>

definition base_name :: "string \<Rightarrow> string" where
  "base_name n = takeWhile (\<lambda>c. c \<noteq> CHR ''['') n"

definition sort_of_name :: "string \<Rightarrow> ZSort" where
  "sort_of_name n = (let b = base_name n in
     if b = ''authorized_namespace'' then StringS
     else if b = ''target_contains_migration'' \<or> b = ''plan_has_inverse'' then BoolS
     else if b = ''last_migration_commit_time'' \<or> b = ''rollback_target_commit_time''
       \<or> b = ''evidence_age_seconds'' \<or> b = ''max_drop_ratio'' then RealS
     else IntS)"

definition pinned_to :: "KernelContext \<Rightarrow> string \<Rightarrow> ZExpr \<Rightarrow> bool" where
  "pinned_to ctx n lit \<longleftrightarrow>
     (case sort_of_name n of
        IntS \<Rightarrow> (\<exists>i. int_fact ctx n = Some i \<and> lit = ZIntVal i)
      | BoolS \<Rightarrow> (\<exists>b. bool_fact ctx n = Some b \<and> lit = ZBoolVal b)
      | StringS \<Rightarrow> (\<exists>s. str_fact ctx n = Some s \<and> lit = ZStringVal s)
      | RealS \<Rightarrow> (\<exists>r. (if base_name n = ''last_migration_commit_time''
                         \<or> base_name n = ''rollback_target_commit_time''
                       then datetime_fact ctx n else float_fact ctx n) = Some r
                   \<and> lit = ZRealVal r))"

text \<open>Every constant is the canonical one and an assertion equates it with the fact's value.\<close>

definition ctx_pinned :: "KernelContext \<Rightarrow> bool" where
  "ctx_pinned ctx \<longleftrightarrow> (\<forall>n e. (n, e) \<in> set (kc_constants ctx) \<longrightarrow>
     e = ZConst (sort_of_name n) n \<and>
     (\<exists>lit. pinned_to ctx n lit \<and> ZEq (ZConst (sort_of_name n) n) lit \<in> set (kc_assertions ctx))) \<and>
   (\<forall>a \<in> set (kc_assertions ctx). \<exists>n lit. a = ZEq (ZConst (sort_of_name n) n) lit \<and> pinned_to ctx n lit)"

lemma ctx_pinned_init [simp]: "ctx_pinned (kernel_context std p fs)"
  by (simp add: ctx_pinned_def kernel_context_def)

lemma pinned_to_same_view: "same_view c c' \<Longrightarrow> pinned_to c' n lit = pinned_to c n lit"
  by (simp add: pinned_to_def fact_val_same_view split: ZSort.split)

lemma ctx_pinned_cong:
  assumes "ctx_pinned c" "same_view c c'" "kc_constants c' = kc_constants c"
    "kc_assertions c' = kc_assertions c"
  shows "ctx_pinned c'"
proof -
  have p: "pinned_to c' = pinned_to c"
    by (intro ext) (rule pinned_to_same_view [OF assms(2)])
  show ?thesis using assms(1) unfolding ctx_pinned_def p assms(3,4) .
qed

text \<open>\<open>keeps_pinned op\<close>: the operation keeps the discipline and only adds assertions.\<close>

definition keeps_pinned :: "'a kop \<Rightarrow> bool" where
  "keeps_pinned op \<longleftrightarrow> (\<forall>c r c'. op c = (r, c') \<longrightarrow> ctx_pinned c \<longrightarrow>
     ctx_pinned c' \<and> same_view c c' \<and> set (kc_assertions c) \<subseteq> set (kc_assertions c'))"

lemma keeps_pinnedD:
  "keeps_pinned op \<Longrightarrow> op c = (r, c') \<Longrightarrow> ctx_pinned c \<Longrightarrow>
   ctx_pinned c' \<and> same_view c c' \<and> set (kc_assertions c) \<subseteq> set (kc_assertions c')"
  unfolding keeps_pinned_def by blast

lemma keeps_pinned_kret [intro]: "keeps_pinned (kret v)"
  by (auto simp: keeps_pinned_def kret_def)

lemma keeps_pinned_kraise [intro]: "keeps_pinned (kraise e)"
  by (auto simp: keeps_pinned_def kraise_def)

lemma keeps_pinned_klift [intro]: "keeps_pinned (klift e)"
  by (auto simp: keeps_pinned_def klift_def)

lemma keeps_pinned_kbind [intro]:
  assumes "keeps_pinned op" and "\<And>v. keeps_pinned (f v)"
  shows "keeps_pinned (kbind op f)"
  unfolding keeps_pinned_def
proof (intro allI impI)
  fix c r c'
  assume run: "kbind op f c = (r, c')" and pin: "ctx_pinned c"
  obtain q d where q: "op c = (q, d)" by fastforce
  note 1 = keeps_pinnedD [OF assms(1) q pin]
  show "ctx_pinned c' \<and> same_view c c' \<and> set (kc_assertions c) \<subseteq> set (kc_assertions c')"
  proof (cases q)
    case (Inl e)
    with run q 1 show ?thesis by (simp add: kbind_def)
  next
    case (Inr v)
    with run q have "f v d = (r, c')" by (simp add: kbind_def)
    with 1 keeps_pinnedD [OF assms(2) this] show ?thesis by (auto intro: same_view_trans)
  qed
qed

lemma keeps_pinned_get_fact [intro]: "keeps_pinned (get_fact n)"
  by (auto simp: keeps_pinned_def get_fact_def same_view_def split: option.splits
      elim!: ctx_pinned_cong)

lemma keeps_pinned_get [intro]:
  "keeps_pinned (get_raw n)" "keeps_pinned (get_int n)" "keeps_pinned (get_bool n)"
  "keeps_pinned (get_float n)" "keeps_pinned (get_str n)" "keeps_pinned (get_set n)"
proof -
  show r: "keeps_pinned (get_raw n)" unfolding get_raw_def by auto
  show "keeps_pinned (get_int n)" unfolding get_int_def
    by (rule keeps_pinned_kbind [OF r]) (auto split: PyVal.splits)
  show "keeps_pinned (get_bool n)" unfolding get_bool_def
    by (rule keeps_pinned_kbind [OF r]) (auto split: PyVal.splits)
  show "keeps_pinned (get_float n)" unfolding get_float_def
    by (rule keeps_pinned_kbind [OF r]) (auto split: PyVal.splits)
  show "keeps_pinned (get_str n)" unfolding get_str_def
    by (rule keeps_pinned_kbind [OF r]) (auto split: PyVal.splits)
  show "keeps_pinned (get_set n)" unfolding get_set_def
    by (rule keeps_pinned_kbind [OF r]) (auto split: PyVal.splits)
qed

lemma keeps_pinned_get_datetime [intro]: "keeps_pinned (get_datetime n)"
  unfolding get_datetime_def
proof (rule keeps_pinned_kbind)
  fix v
  show "keeps_pinned (\<lambda>ctx. case v of
       PDatetime t \<Rightarrow> kret t ctx
     | PStr s \<Rightarrow> (case std_fromisoformat (kc_std ctx) s of
            Some t \<Rightarrow> kret t ctx | None \<Rightarrow> kraise (BadIsoFormat s) ctx)
     | _ \<Rightarrow> kraise (FactTypeError n ''datetime or ISO-8601 str'') ctx)"
    by (auto simp: keeps_pinned_def kret_def kraise_def split: PyVal.splits option.splits)
qed auto

lemma register_const_pinned:
  assumes pin: "ctx_pinned c" and lit: "pinned_to c n lit"
    and reg: "register_const n (sort_of_name n) lit c = (r, c')"
  shows "ctx_pinned c' \<and> same_view c c' \<and> set (kc_assertions c) \<subseteq> set (kc_assertions c') \<and>
    r = Inr (ZConst (sort_of_name n) n) \<and>
    (\<exists>l. pinned_to c n l \<and> ZEq (ZConst (sort_of_name n) n) l \<in> set (kc_assertions c'))"
proof (cases "map_of (kc_constants c) n")
  case None
  with reg have r: "r = Inr (ZConst (sort_of_name n) n)"
    and c': "c' = c\<lparr>kc_constants := kc_constants c @ [(n, ZConst (sort_of_name n) n)],
              kc_assertions := kc_assertions c @ [ZEq (ZConst (sort_of_name n) n) lit]\<rparr>"
    by (auto simp: register_const_def)
  have sv: "same_view c c'" by (simp add: c' same_view_def)
  have "ctx_pinned c'"
    using pin lit unfolding ctx_pinned_def pinned_to_same_view [OF sv]
    by (auto simp: c')
  with r sv lit show ?thesis by (auto simp: c')
next
  case (Some e)
  with reg have "r = Inr e" and c': "c' = c" by (auto simp: register_const_def)
  moreover have "(n, e) \<in> set (kc_constants c)" using Some by (rule map_of_SomeD)
  ultimately show ?thesis using pin by (auto simp: ctx_pinned_def)
qed

text \<open>What an accessor \<open>ctx.int(name)\<close> etc. leaves behind: the constant evaluates to the fact.\<close>

definition reads_as :: "KernelContext \<Rightarrow> string \<Rightarrow> (KernelExc + ZExpr) \<Rightarrow> KernelContext \<Rightarrow> bool" where
  "reads_as c n r c' \<longleftrightarrow>
     ctx_pinned c' \<and> same_view c c' \<and> set (kc_assertions c) \<subseteq> set (kc_assertions c') \<and>
     (\<forall>e. r = Inr e \<longrightarrow> (\<exists>l. pinned_to c n l \<and>
        (\<forall>m. (\<forall>a \<in> set (kc_assertions c'). holds m a) \<longrightarrow> zeval m e = zeval m l)))"

lemma kbind_register_pinned:
  assumes pin: "ctx_pinned c"
    and run: "kbind op (\<lambda>v. register_const n (sort_of_name n) (lit v)) c = (r, c')"
    and op: "keeps_pinned op"
    and val: "\<And>v d. op c = (Inr v, d) \<Longrightarrow> d = c \<and> pinned_to c n (lit v)"
  shows "reads_as c n r c'"
proof -
  obtain q d where q: "op c = (q, d)" by fastforce
  show ?thesis
  proof (cases q)
    case (Inl e)
    with run q keeps_pinnedD [OF op q pin] show ?thesis by (auto simp: kbind_def reads_as_def)
  next
    case (Inr v)
    with q val have d: "d = c" and p: "pinned_to c n (lit v)" by auto
    from run q Inr d have "register_const n (sort_of_name n) (lit v) c = (r, c')"
      by (simp add: kbind_def)
    note reg = register_const_pinned [OF pin p this]
    then obtain l where l: "pinned_to c n l" "ZEq (ZConst (sort_of_name n) n) l \<in> set (kc_assertions c')"
      by blast
    have "\<forall>m. (\<forall>a \<in> set (kc_assertions c'). holds m a) \<longrightarrow>
        zeval m (ZConst (sort_of_name n) n) = zeval m l"
      using l(2) holds_simps(3) by blast
    with reg l(1) show ?thesis unfolding reads_as_def by blast
  qed
qed

definition time_names :: "string set" where
  "time_names = {''last_migration_commit_time'', ''rollback_target_commit_time''}"

definition real_names :: "string set" where
  "real_names = {''evidence_age_seconds'', ''max_drop_ratio''}"

lemma sort_real: "base_name n \<in> time_names \<union> real_names \<Longrightarrow> sort_of_name n = RealS"
  by (auto simp: sort_of_name_def Let_def time_names_def real_names_def)

lemma pinned_to_iff:
  "sort_of_name n = IntS \<Longrightarrow> pinned_to c n l \<longleftrightarrow> (\<exists>i. int_fact c n = Some i \<and> l = ZIntVal i)"
  "sort_of_name n = BoolS \<Longrightarrow> pinned_to c n l \<longleftrightarrow> (\<exists>b. bool_fact c n = Some b \<and> l = ZBoolVal b)"
  "sort_of_name n = StringS \<Longrightarrow>
     pinned_to c n l \<longleftrightarrow> (\<exists>s. str_fact c n = Some s \<and> l = ZStringVal s)"
  by (simp_all add: pinned_to_def)

lemma pinned_to_time:
  assumes "base_name n \<in> time_names"
  shows "pinned_to c n l \<longleftrightarrow> (\<exists>r. datetime_fact c n = Some r \<and> l = ZRealVal r)"
proof -
  have "base_name n = ''last_migration_commit_time'' \<or> base_name n = ''rollback_target_commit_time''"
    using assms by (auto simp: time_names_def)
  moreover have "sort_of_name n = RealS" using assms by (simp add: sort_real)
  ultimately show ?thesis unfolding pinned_to_def by (simp only: ZSort.case if_True)
qed

lemma pinned_to_real:
  assumes "base_name n \<in> real_names"
  shows "pinned_to c n l \<longleftrightarrow> (\<exists>r. float_fact c n = Some r \<and> l = ZRealVal r)"
proof -
  have "\<not> (base_name n = ''last_migration_commit_time'' \<or> base_name n = ''rollback_target_commit_time'')"
    using assms by (auto simp: real_names_def)
  moreover have "sort_of_name n = RealS" using assms by (simp add: sort_real)
  ultimately show ?thesis unfolding pinned_to_def by (simp only: ZSort.case if_False)
qed

lemma kc_reads:
  assumes "ctx_pinned c"
  shows "sort_of_name n = IntS \<Longrightarrow> kc_int n c = (r, c') \<Longrightarrow> reads_as c n r c'"
    and "sort_of_name n = BoolS \<Longrightarrow> kc_bool n c = (r, c') \<Longrightarrow> reads_as c n r c'"
    and "sort_of_name n = StringS \<Longrightarrow> kc_string n c = (r, c') \<Longrightarrow> reads_as c n r c'"
    and "base_name n \<in> time_names \<Longrightarrow> kc_datetime n c = (r, c') \<Longrightarrow> reads_as c n r c'"
    and "base_name n \<in> real_names \<Longrightarrow> kc_real n c = (r, c') \<Longrightarrow> reads_as c n r c'"
proof -
  assume s: "sort_of_name n = IntS" and run: "kc_int n c = (r, c')"
  show "reads_as c n r c'"
    by (rule kbind_register_pinned [OF assms, where op = "get_int n" and lit = ZIntVal])
      (use s run in \<open>auto simp: kc_int_def get_Inr pinned_to_iff\<close>)
next
  assume s: "sort_of_name n = BoolS" and run: "kc_bool n c = (r, c')"
  show "reads_as c n r c'"
    by (rule kbind_register_pinned [OF assms, where op = "get_bool n" and lit = ZBoolVal])
      (use s run in \<open>auto simp: kc_bool_def get_Inr pinned_to_iff\<close>)
next
  assume s: "sort_of_name n = StringS" and run: "kc_string n c = (r, c')"
  show "reads_as c n r c'"
    by (rule kbind_register_pinned [OF assms, where op = "get_str n" and lit = ZStringVal])
      (use s run in \<open>auto simp: kc_string_def get_Inr pinned_to_iff\<close>)
next
  assume b: "base_name n \<in> time_names" and run: "kc_datetime n c = (r, c')"
  then have s: "sort_of_name n = RealS" by (simp add: sort_real)
  show "reads_as c n r c'"
    by (rule kbind_register_pinned [OF assms, where op = "get_datetime n" and lit = ZRealVal])
      (use b s run in \<open>auto simp: kc_datetime_def get_Inr pinned_to_time\<close>)
next
  assume b: "base_name n \<in> real_names" and run: "kc_real n c = (r, c')"
  then have s: "sort_of_name n = RealS" by (simp add: sort_real)
  show "reads_as c n r c'"
    by (rule kbind_register_pinned [OF assms, where op = "get_float n" and lit = ZRealVal])
      (use b s run in \<open>auto simp: kc_real_def get_Inr pinned_to_real\<close>)
qed

lemma base_name_subscript [simp]:
  "CHR ''['' \<notin> set b \<Longrightarrow> base_name (subscript b k) = b"
  "CHR ''['' \<notin> set b \<Longrightarrow> base_name b = b"
proof -
  assume b: "CHR ''['' \<notin> set b"
  show "base_name (subscript b k) = b"
    using b unfolding base_name_def subscript_def by (subst takeWhile_append2) auto
  show "base_name b = b"
    using b unfolding base_name_def by (subst takeWhile_eq_all_conv) auto
qed

end
