(* ===== verification/Invariants.thy ===== *)
theory Invariants
  imports KernelDsl
begin

text \<open>
  \<^verbatim>\<open>kernel/invariants/k01 .. k10\<close>: the ten safety invariants, each a \<open>build\<close> function from a context
  to the formula the solver is asked about.  The locale \<open>proof_invariant\<close> states what
  \<open>verify\<close> relies on; every PROOF-tier invariant interprets it with a specification written
  directly over the facts and the plan.
\<close>

section \<open>The contract of a PROOF invariant\<close>

definition models :: "ZModel \<Rightarrow> KernelContext \<Rightarrow> bool" where
  "models m c \<longleftrightarrow> (\<forall>a \<in> set (kc_assertions c). holds m a)"

text \<open>The interpretation that gives each constant the value of its fact.\<close>

definition fact_model :: "KernelContext \<Rightarrow> ZModel" where
  "fact_model c = \<lparr>
     m_int = (\<lambda>n. case int_fact c n of Some i \<Rightarrow> i | None \<Rightarrow> 0),
     m_bool = (\<lambda>n. case bool_fact c n of Some b \<Rightarrow> b | None \<Rightarrow> False),
     m_real = (\<lambda>n. case (if base_name n = ''last_migration_commit_time''
                         \<or> base_name n = ''rollback_target_commit_time''
                       then datetime_fact c n else float_fact c n) of Some r \<Rightarrow> r | None \<Rightarrow> 0),
     m_string = (\<lambda>n. case str_fact c n of Some s \<Rightarrow> s | None \<Rightarrow> [])\<rparr>"

lemma fact_model_pinned:
  "pinned_to c n lit \<Longrightarrow> zeval (fact_model c) (ZConst (sort_of_name n) n) = zeval (fact_model c) lit"
  by (cases "sort_of_name n") (auto simp: pinned_to_def fact_model_def)

lemma models_fact_model: "ctx_pinned c \<Longrightarrow> models (fact_model c) c"
  unfolding models_def ctx_pinned_def by (metis fact_model_pinned holds_simps(3))

lemma models_mono: "set (kc_assertions c) \<subseteq> set (kc_assertions d) \<Longrightarrow> models m d \<Longrightarrow> models m c"
  unfolding models_def by blast

text \<open>
  \<open>build\<close> keeps the context's discipline, and the formula it returns is true in every
  interpretation of the asserted facts exactly when the specification is.
\<close>

locale proof_invariant =
  fixes build :: "ZExpr kop"
    and spec :: "KernelContext \<Rightarrow> bool"
  assumes records: "records_missing build"
    and keeps: "keeps_pinned build"
    and view: "same_view c d \<Longrightarrow> spec d = spec c"
    and meaning: "ctx_pinned c \<Longrightarrow> build c = (Inr f, d) \<Longrightarrow> models m d \<Longrightarrow> holds m f = spec c"
begin

lemma unsat_spec:
  assumes "ctx_pinned c" "build c = (Inr f, d)" "solver_sound check"
    and "check t (kc_assertions d @ [ZNot f]) = Unsat"
  shows "spec c"
proof (rule ccontr)
  assume no: "\<not> spec c"
  have d: "ctx_pinned d" using keeps_pinnedD [OF keeps assms(2,1)] by simp
  then have m: "models (fact_model d) d" by (rule models_fact_model)
  then have "\<not> holds (fact_model d) f" using meaning [OF assms(1,2)] no by blast
  with m have "\<forall>a \<in> set (kc_assertions d @ [ZNot f]). holds (fact_model d) a"
    by (auto simp: models_def)
  with assms(3,4) show False by (rule solver_soundD_unsat)
qed

lemma sat_not_spec:
  assumes "ctx_pinned c" "build c = (Inr f, d)" "solver_sound check"
    and "check t (kc_assertions d @ [ZNot f]) = Sat m"
  shows "\<not> spec c"
proof -
  have "\<forall>a \<in> set (kc_assertions d @ [ZNot f]). holds m a"
    using solver_soundD_sat [OF assms(3,4)] by blast
  then have "models m d" "\<not> holds m f" by (auto simp: models_def)
  with meaning [OF assms(1,2)] show ?thesis by blast
qed

end

section \<open>Reading a fact inside a build function\<close>

lemma kbind_reads:
  assumes pin: "ctx_pinned c" and run: "kbind op k c = (Inr f, d)"
    and op: "\<And>r c'. op c = (r, c') \<Longrightarrow> reads_as c n r c'"
    and k: "\<And>e. keeps_pinned (k e)"
  obtains e c' l where "k e c' = (Inr f, d)" "ctx_pinned c'" "same_view c c'"
    "pinned_to c n l" "\<And>m. models m d \<Longrightarrow> zeval m e = zeval m l"
proof -
  from run obtain e c' where o: "op c = (Inr e, c')" and ke: "k e c' = (Inr f, d)"
    by (auto simp: kbind_Inr_iff)
  from op [OF o] obtain l where l: "ctx_pinned c'" "same_view c c'" "pinned_to c n l"
    "\<And>m. models m c' \<Longrightarrow> zeval m e = zeval m l"
    unfolding reads_as_def models_def by blast
  have "set (kc_assertions c') \<subseteq> set (kc_assertions d)"
    using keeps_pinnedD [OF k ke l(1)] by simp
  then have "\<And>m. models m d \<Longrightarrow> zeval m e = zeval m l" using l(4) models_mono by blast
  with ke l show thesis using that by blast
qed

lemma reads_keeps_pinned:
  assumes "\<And>c r c'. ctx_pinned c \<Longrightarrow> op c = (r, c') \<Longrightarrow> reads_as c n r c'"
  shows "keeps_pinned op"
  using assms unfolding keeps_pinned_def reads_as_def by blast

lemma keeps_pinned_kc [intro]:
  "sort_of_name n = IntS \<Longrightarrow> keeps_pinned (kc_int n)"
  "sort_of_name n = BoolS \<Longrightarrow> keeps_pinned (kc_bool n)"
  "sort_of_name n = StringS \<Longrightarrow> keeps_pinned (kc_string n)"
  "base_name n \<in> time_names \<Longrightarrow> keeps_pinned (kc_datetime n)"
  "base_name n \<in> real_names \<Longrightarrow> keeps_pinned (kc_real n)"
  by (rule reads_keeps_pinned, erule (1) kc_reads, assumption)+

lemma keeps_pinned_kmap [intro]: "(\<And>x. keeps_pinned (f x)) \<Longrightarrow> keeps_pinned (kmap f xs)"
  by (induction xs) auto

definition conj_of :: "ZExpr list \<Rightarrow> ZExpr" where
  "conj_of conds = (if length conds = 1 then hd conds else ZAnd conds)"

lemma holds_conj_of [simp]: "holds m (conj_of conds) \<longleftrightarrow> (\<forall>a \<in> set conds. holds m a)"
  by (cases conds) (auto simp: conj_of_def)

section \<open>A calculus for the meaning of a build function\<close>

text \<open>
  \<open>yields c0 op P\<close>: whatever context with the facts of \<open>c0\<close> the operation runs in, a result \<open>f\<close> it
  returns satisfies \<open>P m f\<close> in every interpretation \<open>m\<close> of the assertions it leaves.
\<close>

definition yields :: "KernelContext \<Rightarrow> 'a kop \<Rightarrow> (ZModel \<Rightarrow> 'a \<Rightarrow> bool) \<Rightarrow> bool" where
  "yields c0 op P \<longleftrightarrow> keeps_pinned op \<and> (\<forall>c f d m. ctx_pinned c \<longrightarrow> same_view c0 c \<longrightarrow>
     op c = (Inr f, d) \<longrightarrow> models m d \<longrightarrow> P m f)"

lemma yieldsD:
  "yields c op P \<Longrightarrow> ctx_pinned c \<Longrightarrow> op c = (Inr f, d) \<Longrightarrow> models m d \<Longrightarrow> P m f"
  unfolding yields_def by (metis same_view_refl)

lemma yieldsI:
  assumes "keeps_pinned op"
    and "\<And>c f d m. ctx_pinned c \<Longrightarrow> same_view c0 c \<Longrightarrow> op c = (Inr f, d) \<Longrightarrow> models m d \<Longrightarrow> P m f"
  shows "yields c0 op P"
  using assms unfolding yields_def by blast

lemma yields_kret: "(\<And>m. P m v) \<Longrightarrow> yields c0 (kret v) P"
  by (rule yieldsI) (auto simp: result_simps)

lemma yields_kraise: "yields c0 (kraise e) P"
  by (rule yieldsI) (auto simp: result_simps)

lemma yields_weaken: "yields c0 op P \<Longrightarrow> (\<And>m f. P m f \<Longrightarrow> Q m f) \<Longrightarrow> yields c0 op Q"
  unfolding yields_def by blast

text \<open>An operation that does not change the context on success, followed by another.\<close>

lemma yields_pure:
  assumes "keeps_pinned op" "\<And>v. keeps_pinned (k v)"
    and "\<And>c v d. same_view c0 c \<Longrightarrow> op c = (Inr v, d) \<Longrightarrow> d = c \<and> yields c0 (k v) P"
  shows "yields c0 (kbind op k) P"
proof (rule yieldsI)
  show "keeps_pinned (kbind op k)" using assms by blast
  fix c f d m
  assume pin: "ctx_pinned c" "same_view c0 c" and run: "kbind op k c = (Inr f, d)" and m: "models m d"
  from run obtain v c' where "op c = (Inr v, c')" "k v c' = (Inr f, d)" by (auto simp: kbind_Inr_iff)
  with assms(3) [OF pin(2)] pin m show "P m f" unfolding yields_def by blast
qed

lemma yields_const_view:
  assumes keep: "keeps_pinned op"
    and op: "\<And>c r c'. ctx_pinned c \<Longrightarrow> same_view c0 c \<Longrightarrow> op c = (r, c') \<Longrightarrow> reads_as c n r c'"
    and k: "\<And>e. keeps_pinned (k e)"
    and rest: "\<And>e l. pinned_to c0 n l \<Longrightarrow> yields c0 (k e) (\<lambda>m f. zeval m e = zeval m l \<longrightarrow> P m f)"
  shows "yields c0 (kbind op k) P"
proof (rule yieldsI)
  show "keeps_pinned (kbind op k)" using keep k by blast
  fix c f d m
  assume pin: "ctx_pinned c" and view: "same_view c0 c" and run: "kbind op k c = (Inr f, d)"
    and m: "models m d"
  obtain e c' l where 1: "k e c' = (Inr f, d)" "ctx_pinned c'" "same_view c c'" "pinned_to c n l"
    "zeval m e = zeval m l"
    using kbind_reads [OF pin run op [OF pin view] k] m by metis
  have "pinned_to c0 n l" using 1(4) pinned_to_same_view [OF view] by simp
  note r = rest [OF this, of e]
  have "same_view c0 c'" using view 1(3) by (rule same_view_trans)
  with r 1 m show "P m f" unfolding yields_def by blast
qed

lemma yields_const:
  assumes op: "\<And>c r c'. ctx_pinned c \<Longrightarrow> op c = (r, c') \<Longrightarrow> reads_as c n r c'"
    and k: "\<And>e. keeps_pinned (k e)"
    and rest: "\<And>e l. pinned_to c0 n l \<Longrightarrow> yields c0 (k e) (\<lambda>m f. zeval m e = zeval m l \<longrightarrow> P m f)"
  shows "yields c0 (kbind op k) P"
  by (rule yields_const_view [OF reads_keeps_pinned [OF op] op k rest])

lemma yields_int:
  assumes "sort_of_name n = IntS" "\<And>e. keeps_pinned (k e)"
    and "\<And>e i. int_fact c0 n = Some i \<Longrightarrow> yields c0 (k e) (\<lambda>m f. zeval m e = VInt i \<longrightarrow> P m f)"
  shows "yields c0 (kbind (kc_int n) k) P"
  by (rule yields_const [OF kc_reads(1) [OF _ assms(1)] assms(2)])
    (use assms(3) in \<open>auto simp: pinned_to_iff(1) [OF assms(1)]\<close>)

lemma yields_bool:
  assumes "sort_of_name n = BoolS" "\<And>e. keeps_pinned (k e)"
    and "\<And>e b. bool_fact c0 n = Some b \<Longrightarrow> yields c0 (k e) (\<lambda>m f. zeval m e = VBool b \<longrightarrow> P m f)"
  shows "yields c0 (kbind (kc_bool n) k) P"
  by (rule yields_const [OF kc_reads(2) [OF _ assms(1)] assms(2)])
    (use assms(3) in \<open>auto simp: pinned_to_iff(2) [OF assms(1)]\<close>)

lemma yields_string:
  assumes "sort_of_name n = StringS" "\<And>e. keeps_pinned (k e)"
    and "\<And>e s. str_fact c0 n = Some s \<Longrightarrow> yields c0 (k e) (\<lambda>m f. zeval m e = VString s \<longrightarrow> P m f)"
  shows "yields c0 (kbind (kc_string n) k) P"
  by (rule yields_const [OF kc_reads(3) [OF _ assms(1)] assms(2)])
    (use assms(3) in \<open>auto simp: pinned_to_iff(3) [OF assms(1)]\<close>)

lemma yields_datetime:
  assumes "base_name n \<in> time_names" "\<And>e. keeps_pinned (k e)"
    and "\<And>e t. datetime_fact c0 n = Some t \<Longrightarrow>
      yields c0 (k e) (\<lambda>m f. zeval m e = VReal t \<longrightarrow> P m f)"
  shows "yields c0 (kbind (kc_datetime n) k) P"
  by (rule yields_const [OF kc_reads(4) [OF _ assms(1)] assms(2)])
    (use assms(3) in \<open>auto simp: pinned_to_time [OF assms(1)]\<close>)

lemma yields_real:
  assumes "base_name n \<in> real_names" "\<And>e. keeps_pinned (k e)"
    and "\<And>e t. float_fact c0 n = Some t \<Longrightarrow>
      yields c0 (k e) (\<lambda>m f. zeval m e = VReal t \<longrightarrow> P m f)"
  shows "yields c0 (kbind (kc_real n) k) P"
  by (rule yields_const [OF kc_reads(5) [OF _ assms(1)] assms(2)])
    (use assms(3) in \<open>auto simp: pinned_to_real [OF assms(1)]\<close>)

lemma yields_get_set:
  assumes "\<And>v. keeps_pinned (k v)" "\<And>vs. set_fact c0 n = Some vs \<Longrightarrow> yields c0 (k vs) P"
  shows "yields c0 (kbind (get_set n) k) P"
  by (rule yields_pure) (use assms in \<open>auto simp: get_Inr fact_val_same_view\<close>)

lemma yields_get_raw:
  assumes "\<And>v. keeps_pinned (k v)" "\<And>v. fact_val c0 n = Some v \<Longrightarrow> yields c0 (k v) P"
  shows "yields c0 (kbind (get_raw n) k) P"
  by (rule yields_pure) (use assms in \<open>auto simp: get_raw_Inr fact_val_same_view\<close>)

section \<open>K1: replica floor\<close>

definition affected_services :: "RemediationPlan \<Rightarrow> string list" where
  "affected_services p = sorted_set (
     (if workload (params p) \<noteq> [] then [workload (params p)] else []) @
     map ref_name (filter (\<lambda>t. ref_kind t = Deployment) (target_resources p)))"

definition k1_restarts :: "RemediationPlan \<Rightarrow> string \<Rightarrow> bool" where
  "k1_restarts p svc \<longleftrightarrow> action p = RESTART_WORKLOAD \<and>
     (workload (params p) = svc \<or>
      (\<exists>t \<in> set (target_resources p). ref_kind t = Deployment \<and> ref_name t = svc))"

definition k1_deltas :: "string \<Rightarrow> (int \<times> int) kop" where
  "k1_deltas svc c =
     (let p = kc_plan c in
      if action p = SCALE_WORKLOAD \<and> workload (params p) = svc then
        (let d = (case replica_delta (params p) of Some d \<Rightarrow> d | None \<Rightarrow> 0) in kret (d, d) c)
      else if k1_restarts p svc then
        (if has_fact c (subscript ''max_unavailable'' svc)
         then kbind (get_int (subscript ''max_unavailable'' svc)) (\<lambda>u. kret (0, - u)) c
         else kret (0, -1) c)
      else kret (0, 0) c)"

definition k1_condition :: "string \<Rightarrow> ZExpr kop" where
  "k1_condition svc =
     kbind (kc_int (subscript ''min_replicas'' svc)) (\<lambda>min_reps.
     kbind (kc_int (subscript ''replicas'' svc)) (\<lambda>reps.
     kbind (kc_int (subscript ''healthy_replicas'' svc)) (\<lambda>healthy_reps.
     kbind (k1_deltas svc) (\<lambda>(delta_replicas, delta_healthy).
     kret (ZAnd [ZGe (ZAdd reps (ZIntVal delta_replicas)) min_reps,
                 ZGe (ZAdd healthy_reps (ZIntVal delta_healthy)) min_reps])))))"

definition k1_build :: "ZExpr kop" where
  "k1_build c =
     (let services = affected_services (kc_plan c) in
      if services = [] then kret (ZBoolVal True) c
      else kbind (kmap k1_condition services) (\<lambda>conds. kret (conj_of conds)) c)"

definition k1_delta_spec :: "KernelContext \<Rightarrow> string \<Rightarrow> int \<times> int" where
  "k1_delta_spec c svc =
     (let p = kc_plan c in
      if action p = SCALE_WORKLOAD \<and> workload (params p) = svc then
        (let d = (case replica_delta (params p) of Some d \<Rightarrow> d | None \<Rightarrow> 0) in (d, d))
      else if k1_restarts p svc then
        (0, case int_fact c (subscript ''max_unavailable'' svc) of Some u \<Rightarrow> - u | None \<Rightarrow> -1)
      else (0, 0))"

definition k1_floor_kept :: "KernelContext \<Rightarrow> string \<Rightarrow> bool" where
  "k1_floor_kept c svc =
     (case (int_fact c (subscript ''min_replicas'' svc), int_fact c (subscript ''replicas'' svc),
            int_fact c (subscript ''healthy_replicas'' svc)) of
        (Some mn, Some reps, Some healthy) \<Rightarrow>
          mn \<le> reps + fst (k1_delta_spec c svc) \<and> mn \<le> healthy + snd (k1_delta_spec c svc)
      | _ \<Rightarrow> False)"

definition k1_spec :: "KernelContext \<Rightarrow> bool" where
  "k1_spec c \<longleftrightarrow> (\<forall>svc \<in> set (affected_services (kc_plan c)). k1_floor_kept c svc)"

lemma k1_deltas_Inr:
  assumes "k1_deltas svc c = (Inr v, c')" shows "v = k1_delta_spec c svc \<and> c' = c"
  using assms
  by (auto simp: k1_deltas_def k1_delta_spec_def Let_def result_simps get_Inr has_fact_def
      int_fact_def fact_val_def split: if_splits option.splits)

lemma k1_deltas_ok: "keeps_pinned (k1_deltas svc)" "records_missing (k1_deltas svc)"
proof -
  have k: "keeps_pinned (kbind (get_int n) (\<lambda>u. kret (0::int, - u)))" for n by auto
  have r: "records_missing (kbind (get_int n) (\<lambda>u. kret (0::int, - u)))" for n by auto
  show "keeps_pinned (k1_deltas svc)"
    unfolding keeps_pinned_def k1_deltas_def Let_def
    using k [unfolded keeps_pinned_def] by (auto simp: kret_def)
  show "records_missing (k1_deltas svc)"
    unfolding records_missing_def k1_deltas_def Let_def
    using r [unfolded records_missing_def] by (auto simp: kret_def)
qed

lemma k1_sorts [simp]:
  "sort_of_name (subscript ''min_replicas'' svc) = IntS"
  "sort_of_name (subscript ''replicas'' svc) = IntS"
  "sort_of_name (subscript ''healthy_replicas'' svc) = IntS"
  by (simp_all add: sort_of_name_def Let_def)

lemma k1_condition_ok: "keeps_pinned (k1_condition svc)" "records_missing (k1_condition svc)"
  unfolding k1_condition_def
  by (intro keeps_pinned_kbind keeps_pinned_kc records_missing_kbind records_missing_kc
      k1_sorts k1_deltas_ok; clarsimp intro!: keeps_pinned_kret records_missing_kret simp del: One_nat_def)+

lemma same_view_k1:
  assumes "same_view c d"
  shows "k1_delta_spec d svc = k1_delta_spec c svc" "k1_floor_kept d svc = k1_floor_kept c svc"
proof -
  have p: "kc_plan d = kc_plan c" using assms by (simp add: same_view_def)
  show 1: "k1_delta_spec d svc = k1_delta_spec c svc"
    unfolding k1_delta_spec_def p fact_val_same_view [OF assms] ..
  show "k1_floor_kept d svc = k1_floor_kept c svc"
    unfolding k1_floor_kept_def 1 fact_val_same_view [OF assms] ..
qed

lemma k1_condition_yields:
  "yields c (k1_condition svc) (\<lambda>m f. holds m f = k1_floor_kept c svc)"
proof -
  have tail: "yields c (kbind (k1_deltas svc) (\<lambda>(dr, dh).
       kret (ZAnd [ZGe (ZAdd reps (ZIntVal dr)) mn, ZGe (ZAdd healthy (ZIntVal dh)) mn])))
     (\<lambda>m f. zeval m healthy = VInt ih \<longrightarrow> zeval m reps = VInt ir \<longrightarrow> zeval m mn = VInt im \<longrightarrow>
        holds m f = k1_floor_kept c svc)"
    if "int_fact c (subscript ''min_replicas'' svc) = Some im"
      "int_fact c (subscript ''replicas'' svc) = Some ir"
      "int_fact c (subscript ''healthy_replicas'' svc) = Some ih" for reps mn healthy ir im ih
  proof (rule yields_pure [OF k1_deltas_ok(1)])
    fix c' v d
    assume view: "same_view c c'" and run: "k1_deltas svc c' = (Inr v, d)"
    have v: "v = k1_delta_spec c svc" and d: "d = c'"
      using k1_deltas_Inr [OF run] same_view_k1(1) [OF view] by simp_all
    show "d = c' \<and> yields c (case v of (dr, dh) \<Rightarrow>
       kret (ZAnd [ZGe (ZAdd reps (ZIntVal dr)) mn, ZGe (ZAdd healthy (ZIntVal dh)) mn]))
     (\<lambda>m f. zeval m healthy = VInt ih \<longrightarrow> zeval m reps = VInt ir \<longrightarrow> zeval m mn = VInt im \<longrightarrow>
        holds m f = k1_floor_kept c svc)"
      using d that by (auto simp: v k1_floor_kept_def split: prod.split intro!: yields_kret)
  qed (auto split: prod.split)
  show ?thesis unfolding k1_condition_def
    by (intro yields_int k1_sorts tail keeps_pinned_kbind keeps_pinned_kc k1_deltas_ok)
      (auto split: prod.split)
qed

lemma kmap_meaning:
  assumes view: "\<And>x c d. same_view c d \<Longrightarrow> P d x = P c x"
    and g: "\<And>c x. yields c (g x) (\<lambda>m f. holds m f = P c x)"
    and "ctx_pinned c" "kmap g xs c = (Inr fs, d)" "models m d"
  shows "(\<forall>f \<in> set fs. holds m f) = (\<forall>x \<in> set xs. P c x)"
  using assms(3-)
proof (induction xs arbitrary: c fs)
  case Nil
  then show ?case by (simp add: result_simps)
next
  case (Cons x xs)
  from Cons.prems obtain f c1 fs' where 1: "g x c = (Inr f, c1)" and 2: "kmap g xs c1 = (Inr fs', d)"
    and fs: "fs = f # fs'" by (auto simp: result_simps)
  have keep: "keeps_pinned (g x)" for x using g unfolding yields_def by blast
  note k1 = keeps_pinnedD [OF keep 1 Cons.prems(1)]
  have "keeps_pinned (kmap g xs)" using keep by auto
  from keeps_pinnedD [OF this 2] k1 have "set (kc_assertions c1) \<subseteq> set (kc_assertions d)" by simp
  then have "models m c1" using Cons.prems(3) models_mono by blast
  from yieldsD [OF g Cons.prems(1) 1 this] have "holds m f = P c x" .
  moreover have "(\<forall>f \<in> set fs'. holds m f) = (\<forall>x \<in> set xs. P c1 x)"
    using Cons.IH [OF _ 2 Cons.prems(3)] k1 by simp
  moreover have "P c1 y = P c y" for y using view k1 by blast
  ultimately show ?case by (simp add: fs)
qed

lemma same_view_plan: "same_view c d \<Longrightarrow> kc_plan d = kc_plan c"
  by (simp add: same_view_def)

lemma same_view_std: "same_view c d \<Longrightarrow> kc_std d = kc_std c"
  by (simp add: same_view_def)

interpretation k1: proof_invariant k1_build k1_spec
proof
  have 1: "records_missing (kbind (kmap k1_condition xs) (\<lambda>cs. kret (conj_of cs)))" for xs
    using k1_condition_ok by blast
  have 2: "keeps_pinned (kbind (kmap k1_condition xs) (\<lambda>cs. kret (conj_of cs)))" for xs
    using k1_condition_ok by blast
  show "records_missing k1_build"
    unfolding records_missing_def k1_build_def Let_def
    using 1 [unfolded records_missing_def] by (auto simp: kret_def)
  show "keeps_pinned k1_build"
    unfolding keeps_pinned_def k1_build_def Let_def
    using 2 [unfolded keeps_pinned_def] by (auto simp: kret_def)
  show "same_view c d \<Longrightarrow> k1_spec d = k1_spec c" for c d
    by (simp add: k1_spec_def same_view_k1 same_view_plan)
  fix c f d m
  assume pin: "ctx_pinned c" and run: "k1_build c = (Inr f, d)" and m: "models m d"
  show "holds m f = k1_spec c"
  proof (cases "affected_services (kc_plan c) = []")
    case True
    with run show ?thesis by (simp add: k1_build_def k1_spec_def result_simps)
  next
    case False
    with run obtain fs where "kmap k1_condition (affected_services (kc_plan c)) c = (Inr fs, d)"
      and f: "f = conj_of fs" by (auto simp: k1_build_def Let_def result_simps)
    from kmap_meaning [where P = k1_floor_kept, OF same_view_k1(2) k1_condition_yields pin this(1) m]
    show ?thesis by (simp add: f k1_spec_def)
  qed
qed

section \<open>K2: namespace scope\<close>

definition target_namespaces :: "PyStd \<Rightarrow> RemediationPlan \<Rightarrow> PyVal list \<Rightarrow> string list" where
  "target_namespaces std p raw = map (py_str std) raw @
     filter (\<lambda>ns. ns \<noteq> []) (map ref_namespace (target_resources p))"

definition k2_formula :: "ZExpr \<Rightarrow> PyVal list \<Rightarrow> PyStd \<Rightarrow> RemediationPlan \<Rightarrow> ZExpr" where
  "k2_formula auth_ns raw std p =
     (let targets = sorted_set (target_namespaces std p raw) in
      if targets = [] then ZBoolVal True
      else conj_of (map (\<lambda>ns. ZEq (ZStringVal ns) auth_ns) targets))"

definition k2_build :: "ZExpr kop" where
  "k2_build =
     kbind (kc_string ''authorized_namespace'') (\<lambda>auth_ns.
     kbind (get_set ''plan_target_namespaces'') (\<lambda>raw ctx.
       kret (k2_formula auth_ns raw (kc_std ctx) (kc_plan ctx)) ctx))"

definition k2_spec :: "KernelContext \<Rightarrow> bool" where
  "k2_spec c \<longleftrightarrow> (\<exists>auth raw. str_fact c ''authorized_namespace'' = Some auth \<and>
     set_fact c ''plan_target_namespaces'' = Some raw \<and>
     (\<forall>ns \<in> set (target_namespaces (kc_std c) (kc_plan c) raw). ns = auth))"

text \<open>A last step that only looks at the plan and the library: no accessor, no error.\<close>

lemma final_ok [intro]:
  "keeps_pinned (\<lambda>ctx. kret (g (kc_std ctx) (kc_plan ctx)) ctx)"
  "records_missing (\<lambda>ctx. kret (g (kc_std ctx) (kc_plan ctx)) ctx)"
  by (auto simp: keeps_pinned_def records_missing_def kret_def)

lemma yields_final:
  assumes "\<And>m. P m (g (kc_std c0) (kc_plan c0))"
  shows "yields c0 (\<lambda>ctx. kret (g (kc_std ctx) (kc_plan ctx)) ctx) P"
  by (rule yieldsI) (use assms in \<open>auto simp: result_simps same_view_def\<close>)

lemma k2_sort [simp]: "sort_of_name ''authorized_namespace'' = StringS"
  by (simp add: sort_of_name_def Let_def)

lemma proof_invariantI:
  assumes "records_missing build" and "\<And>c d. same_view c d \<Longrightarrow> spec d = spec c"
    and y: "\<And>c. yields c build (\<lambda>m f. holds m f = spec c)"
  shows "proof_invariant build spec"
proof
  show "keeps_pinned build" using y unfolding yields_def by blast
  show "ctx_pinned c \<Longrightarrow> build c = (Inr f, d) \<Longrightarrow> models m d \<Longrightarrow> holds m f = spec c" for c f d m
    using yieldsD [OF y] .
qed (use assms in auto)

interpretation k2: proof_invariant k2_build k2_spec
proof (rule proof_invariantI)
  show "records_missing k2_build" unfolding k2_build_def by auto
  show "same_view c d \<Longrightarrow> k2_spec d = k2_spec c" for c d
    by (simp add: k2_spec_def fact_val_same_view same_view_plan same_view_std)
  show "yields c k2_build (\<lambda>m f. holds m f = k2_spec c)" for c
    unfolding k2_build_def
    by (intro yields_string yields_get_set keeps_pinned_kbind keeps_pinned_get final_ok k2_sort
        yields_final) (auto simp: k2_spec_def k2_formula_def Let_def simp flip: set_empty)
qed

section \<open>K3: migration boundary\<close>

text \<open>\<open>if target_commit and ctx.has_fact(f"{base}[{target_commit}]")\<close> picks the name to read.\<close>

definition k3_name :: "KernelContext \<Rightarrow> string \<Rightarrow> string" where
  "k3_name ctx base =
     (case target_commit (params (kc_plan ctx)) of
        Some tc \<Rightarrow> (if tc \<noteq> [] \<and> has_fact ctx (subscript base tc) then subscript base tc else base)
      | None \<Rightarrow> base)"

definition k3_target_time :: "ZExpr kop" where
  "k3_target_time ctx = kc_datetime (k3_name ctx ''rollback_target_commit_time'') ctx"

definition k3_has_migration :: "ZExpr kop" where
  "k3_has_migration ctx = kc_bool (k3_name ctx ''target_contains_migration'') ctx"

definition k3_build :: "ZExpr kop" where
  "k3_build ctx =
     (if action (kc_plan ctx) \<noteq> ROLLBACK_DEPLOY then kret (ZBoolVal True) ctx
      else
        kbind (kc_datetime ''last_migration_commit_time'') (\<lambda>last_migration.
        kbind k3_target_time (\<lambda>target_time.
        kbind k3_has_migration (\<lambda>has_migration.
        kret (ZAnd [ZGe target_time last_migration, ZNot has_migration])))) ctx)"

definition k3_spec :: "KernelContext \<Rightarrow> bool" where
  "k3_spec c \<longleftrightarrow> (action (kc_plan c) = ROLLBACK_DEPLOY \<longrightarrow>
     (\<exists>last target. datetime_fact c ''last_migration_commit_time'' = Some last \<and>
        datetime_fact c (k3_name c ''rollback_target_commit_time'') = Some target \<and>
        last \<le> target \<and>
        bool_fact c (k3_name c ''target_contains_migration'') = Some False))"

lemma k3_name_cases: "k3_name c b = b \<or> (\<exists>tc. k3_name c b = subscript b tc)"
  by (auto simp: k3_name_def split: option.splits)

lemma k3_name_same_view: "same_view c d \<Longrightarrow> k3_name d b = k3_name c b"
  unfolding k3_name_def by (simp only: has_fact_same_view same_view_plan)

lemma k3_names [simp]:
  "base_name (k3_name c ''rollback_target_commit_time'') \<in> time_names"
  "base_name ''last_migration_commit_time'' \<in> time_names"
  "sort_of_name (k3_name c ''target_contains_migration'') = BoolS"
proof -
  show "base_name (k3_name c ''rollback_target_commit_time'') \<in> time_names"
    using k3_name_cases [of c "''rollback_target_commit_time''"] by (auto simp: time_names_def)
  show "base_name ''last_migration_commit_time'' \<in> time_names"
    by (simp add: time_names_def)
  show "sort_of_name (k3_name c ''target_contains_migration'') = BoolS"
    using k3_name_cases [of c "''target_contains_migration''"]
    by (auto simp: sort_of_name_def Let_def)
qed

text \<open>An operation that first looks at the plan or the facts to choose what to do.\<close>

lemma keeps_pinned_choose:
  "(\<And>c. keeps_pinned (op c)) \<Longrightarrow> keeps_pinned (\<lambda>ctx. op ctx ctx)"
  unfolding keeps_pinned_def by blast

lemma records_missing_choose:
  "(\<And>c. records_missing (op c)) \<Longrightarrow> records_missing (\<lambda>ctx. op ctx ctx)"
  unfolding records_missing_def by blast

lemma yields_choose:
  assumes "\<And>c. keeps_pinned (op c)" "\<And>c. same_view c0 c \<Longrightarrow> yields c0 (op c) P"
  shows "yields c0 (\<lambda>ctx. op ctx ctx) P"
  using assms unfolding yields_def keeps_pinned_def by blast

lemma keeps_if [intro]:
  assumes "keeps_pinned a" "keeps_pinned b"
  shows "keeps_pinned (\<lambda>ctx. if P ctx then a ctx else b ctx)"
  unfolding keeps_pinned_def
proof (intro allI impI)
  fix c r c'
  assume "(if P c then a c else b c) = (r, c')" "ctx_pinned c"
  then show "ctx_pinned c' \<and> same_view c c' \<and> set (kc_assertions c) \<subseteq> set (kc_assertions c')"
    using keeps_pinnedD [OF assms(1)] keeps_pinnedD [OF assms(2)] by (cases "P c") simp_all
qed

lemma records_if [intro]:
  assumes "records_missing a" "records_missing b"
  shows "records_missing (\<lambda>ctx. if P ctx then a ctx else b ctx)"
  unfolding records_missing_def
proof (intro allI, rule impI)
  fix c r c'
  assume run: "(if P c then a c else b c) = (r, c')"
  show "same_view c c' \<and> set (kc_missing_accessed c) \<subseteq> set (kc_missing_accessed c') \<and>
     (\<forall>ns. r = Inl (MissingFact ns) \<longrightarrow>
        ns \<noteq> [] \<and> set ns \<subseteq> set (kc_missing_accessed c') \<and> (\<forall>n \<in> set ns. \<not> has_fact c n)) \<and>
     (\<forall>v. r = Inr v \<longrightarrow> kc_missing_accessed c' = kc_missing_accessed c)"
  proof (cases "P c")
    case True
    with run have "a c = (r, c')" by simp
    with assms(1) show ?thesis unfolding records_missing_def by blast
  next
    case False
    with run have "b c = (r, c')" by simp
    with assms(2) show ?thesis unfolding records_missing_def by blast
  qed
qed

lemma yields_if:
  assumes "\<And>c. same_view c0 c \<Longrightarrow> P c = P c0"
    and "P c0 \<Longrightarrow> yields c0 a Q" "\<not> P c0 \<Longrightarrow> yields c0 b Q"
    and "keeps_pinned a" "keeps_pinned b"
  shows "yields c0 (\<lambda>ctx. if P ctx then a ctx else b ctx) Q"
proof (rule yieldsI)
  show "keeps_pinned (\<lambda>ctx. if P ctx then a ctx else b ctx)" using assms(4,5) by (rule keeps_if)
  fix c f d m
  assume c: "ctx_pinned c" "same_view c0 c" and run: "(if P c then a c else b c) = (Inr f, d)"
    and m: "models m d"
  show "Q m f"
  proof (cases "P c")
    case True
    then have "P c0" using assms(1) [OF c(2)] by simp
    from assms(2) [OF this] have y: "yields c0 a Q" .
    from True run have "a c = (Inr f, d)" by simp
    with y c m show ?thesis unfolding yields_def by blast
  next
    case False
    then have "\<not> P c0" using assms(1) [OF c(2)] by simp
    from assms(3) [OF this] have y: "yields c0 b Q" .
    from False run have "b c = (Inr f, d)" by simp
    with y c m show ?thesis unfolding yields_def by blast
  qed
qed

lemma k3_ok [intro]:
  "keeps_pinned k3_target_time" "keeps_pinned k3_has_migration"
  "records_missing k3_target_time" "records_missing k3_has_migration"
proof -
  show "keeps_pinned k3_target_time" unfolding k3_target_time_def
    by (rule keeps_pinned_choose) (rule keeps_pinned_kc, rule k3_names)
  show "keeps_pinned k3_has_migration" unfolding k3_has_migration_def
    by (rule keeps_pinned_choose) (rule keeps_pinned_kc, rule k3_names)
  show "records_missing k3_target_time" unfolding k3_target_time_def
    by (rule records_missing_choose) (rule records_missing_kc)
  show "records_missing k3_has_migration" unfolding k3_has_migration_def
    by (rule records_missing_choose) (rule records_missing_kc)
qed

lemma yields_k3_target_time:
  assumes "\<And>e. keeps_pinned (k e)"
    and "\<And>e t. datetime_fact c (k3_name c ''rollback_target_commit_time'') = Some t \<Longrightarrow>
      yields c (k e) (\<lambda>m f. zeval m e = VReal t \<longrightarrow> P m f)"
  shows "yields c (kbind k3_target_time k) P"
proof (rule yields_const_view [where n = "k3_name c ''rollback_target_commit_time''"])
  show "reads_as d (k3_name c ''rollback_target_commit_time'') r d'"
    if "ctx_pinned d" "same_view c d" "k3_target_time d = (r, d')" for d r d'
    using kc_reads(4) [OF that(1) k3_names(1)] that(3) unfolding k3_target_time_def
    by (simp add: k3_name_same_view [OF that(2)])
qed (use assms in \<open>auto simp: pinned_to_time\<close>)

lemma yields_k3_has_migration:
  assumes "\<And>e. keeps_pinned (k e)"
    and "\<And>e b. bool_fact c (k3_name c ''target_contains_migration'') = Some b \<Longrightarrow>
      yields c (k e) (\<lambda>m f. zeval m e = VBool b \<longrightarrow> P m f)"
  shows "yields c (kbind k3_has_migration k) P"
proof (rule yields_const_view [where n = "k3_name c ''target_contains_migration''"])
  show "reads_as d (k3_name c ''target_contains_migration'') r d'"
    if "ctx_pinned d" "same_view c d" "k3_has_migration d = (r, d')" for d r d'
    using kc_reads(2) [OF that(1) k3_names(3)] that(3) unfolding k3_has_migration_def
    by (simp add: k3_name_same_view [OF that(2)])
qed (use assms in \<open>auto simp: pinned_to_iff\<close>)

interpretation k3: proof_invariant k3_build k3_spec
proof (rule proof_invariantI)
  show "records_missing k3_build"
    unfolding k3_build_def by (intro records_if records_missing_kbind records_missing_kc k3_ok
        records_missing_kret)
  show "same_view c d \<Longrightarrow> k3_spec d = k3_spec c" for c d
    by (simp add: k3_spec_def fact_val_same_view same_view_plan k3_name_same_view)
  show "yields c k3_build (\<lambda>m f. holds m f = k3_spec c)" for c
    unfolding k3_build_def
    by (intro yields_if yields_kret yields_datetime yields_k3_target_time yields_k3_has_migration
        keeps_pinned_kbind keeps_pinned_kc k3_ok keeps_pinned_kret k3_names)
      (auto simp: same_view_plan k3_spec_def holds_def)
qed

section \<open>K7: production mutation budget\<close>

definition k7_build :: "ZExpr kop" where
  "k7_build ctx =
     (if action (kc_plan ctx) = NO_ACTION then kret (ZBoolVal True) ctx
      else
        kbind (kc_int ''prod_mutations_in_window'') (\<lambda>mutations.
        kbind (kc_int ''mutation_budget'') (\<lambda>budget.
        kret (ZLe (ZAdd mutations (ZIntVal 1)) budget))) ctx)"

definition k7_spec :: "KernelContext \<Rightarrow> bool" where
  "k7_spec c \<longleftrightarrow> (action (kc_plan c) \<noteq> NO_ACTION \<longrightarrow>
     (\<exists>used budget. int_fact c ''prod_mutations_in_window'' = Some used \<and>
        int_fact c ''mutation_budget'' = Some budget \<and> used + 1 \<le> budget))"

lemma k78_sorts [simp]:
  "sort_of_name ''prod_mutations_in_window'' = IntS" "sort_of_name ''mutation_budget'' = IntS"
  "sort_of_name ''probe_sample_count'' = IntS"
  "base_name ''evidence_age_seconds'' \<in> real_names" "base_name ''max_drop_ratio'' \<in> real_names"
  by (simp_all add: sort_of_name_def Let_def real_names_def)

interpretation k7: proof_invariant k7_build k7_spec
proof (rule proof_invariantI)
  show "records_missing k7_build" unfolding k7_build_def
    by (intro records_if records_missing_kbind records_missing_kc records_missing_kret)
  show "same_view c d \<Longrightarrow> k7_spec d = k7_spec c" for c d
    by (simp add: k7_spec_def fact_val_same_view same_view_plan)
  show "yields c k7_build (\<lambda>m f. holds m f = k7_spec c)" for c
    unfolding k7_build_def
    by (intro yields_if yields_kret yields_int keeps_pinned_kbind keeps_pinned_kc
        keeps_pinned_kret k78_sorts) (auto simp: same_view_plan k7_spec_def)
qed

section \<open>K8: evidence sufficiency and freshness\<close>

definition DEFAULT_MAX_EVIDENCE_AGE :: rat where "DEFAULT_MAX_EVIDENCE_AGE = 300"
definition DEFAULT_MIN_PROBE_SAMPLES :: int where "DEFAULT_MIN_PROBE_SAMPLES = 60"
definition DEFAULT_MIRROR_DROP_CEILING :: rat where "DEFAULT_MIRROR_DROP_CEILING = 1 / 20"

definition k8_build :: "rat \<Rightarrow> int \<Rightarrow> rat \<Rightarrow> ZExpr kop" where
  "k8_build max_age min_samples drop_ceiling =
     kbind (kc_real ''evidence_age_seconds'') (\<lambda>evidence_age.
     kbind (kc_int ''probe_sample_count'') (\<lambda>sample_count.
     kbind (kc_real ''max_drop_ratio'') (\<lambda>drop.
     kret (ZAnd [ZLe evidence_age (ZRealVal max_age), ZGe sample_count (ZIntVal min_samples),
                 ZLe drop (ZRealVal drop_ceiling)]))))"

definition k8_spec :: "rat \<Rightarrow> int \<Rightarrow> rat \<Rightarrow> KernelContext \<Rightarrow> bool" where
  "k8_spec max_age min_samples drop_ceiling c \<longleftrightarrow>
     (\<exists>age samples drop. float_fact c ''evidence_age_seconds'' = Some age \<and>
        int_fact c ''probe_sample_count'' = Some samples \<and>
        float_fact c ''max_drop_ratio'' = Some drop \<and>
        age \<le> max_age \<and> min_samples \<le> samples \<and> drop \<le> drop_ceiling)"

lemma k8_proof_invariant: "proof_invariant (k8_build age n r) (k8_spec age n r)"
proof (rule proof_invariantI)
  show "records_missing (k8_build age n r)" unfolding k8_build_def
    by (intro records_missing_kbind records_missing_kc records_missing_kret)
  show "same_view c d \<Longrightarrow> k8_spec age n r d = k8_spec age n r c" for c d
    by (simp add: k8_spec_def fact_val_same_view)
  show "yields c (k8_build age n r) (\<lambda>m f. holds m f = k8_spec age n r c)" for c
    unfolding k8_build_def
    by (intro yields_kret yields_int yields_real keeps_pinned_kbind keeps_pinned_kc
        keeps_pinned_kret k78_sorts) (auto simp: k8_spec_def)
qed

interpretation k8: proof_invariant
  "k8_build DEFAULT_MAX_EVIDENCE_AGE DEFAULT_MIN_PROBE_SAMPLES DEFAULT_MIRROR_DROP_CEILING"
  "k8_spec DEFAULT_MAX_EVIDENCE_AGE DEFAULT_MIN_PROBE_SAMPLES DEFAULT_MIRROR_DROP_CEILING"
  by (rule k8_proof_invariant)

section \<open>Set comparisons spelled out for the solver\<close>

text \<open>\<open>z3.Or([StringVal(x) == StringVal(y) for y in sorted(ys)])\<close>, \<open>False\<close> for no \<open>y\<close>.\<close>

definition member_formula :: "string list \<Rightarrow> string \<Rightarrow> ZExpr" where
  "member_formula ys x =
     (if ys = [] then ZBoolVal False
      else ZOr (map (\<lambda>y. ZEq (ZStringVal x) (ZStringVal y)) (sorted_set ys)))"

definition subset_formulas :: "string list \<Rightarrow> string list \<Rightarrow> ZExpr list" where
  "subset_formulas xs ys = map (member_formula ys) (sorted_set xs)"

lemma holds_member [simp]: "holds m (member_formula ys x) \<longleftrightarrow> x \<in> set ys"
  by (auto simp: member_formula_def)

lemma holds_subset [simp]:
  "(\<forall>f \<in> set (subset_formulas xs ys). holds m f) \<longleftrightarrow> set xs \<subseteq> set ys"
  by (auto simp: subset_formulas_def)

lemma subset_formulas_Nil [simp]: "subset_formulas xs ys = [] \<longleftrightarrow> xs = []"
  by (simp add: subset_formulas_def)

section \<open>K9: reversibility\<close>

definition slashed :: "string \<Rightarrow> string \<Rightarrow> string \<Rightarrow> string" where
  "slashed kind ns name = kind @ ''/'' @ ns @ ''/'' @ name"

definition ref_canonical :: "ResourceRef \<Rightarrow> string" where
  "ref_canonical r = slashed (kind_value (ref_kind r)) (ref_namespace r) (ref_name r)"

fun k9_canonical_target :: "PyStd \<Rightarrow> PyVal \<Rightarrow> string" where
  "k9_canonical_target std (PRef r) = ref_canonical r"
| "k9_canonical_target std v = py_str std v"

definition k9_plan_targets :: "PyStd \<Rightarrow> RemediationPlan \<Rightarrow> PyVal list \<Rightarrow> string list" where
  "k9_plan_targets std p raw =
     map (k9_canonical_target std) raw @ map ref_canonical (target_resources p)"

definition k9_inverse_targets :: "PyStd \<Rightarrow> RemediationPlan \<Rightarrow> PyVal list \<Rightarrow> string list" where
  "k9_inverse_targets std p raw =
     map (k9_canonical_target std) raw @
     (case inverse p of None \<Rightarrow> [] | Some q \<Rightarrow> map ref_canonical (target_resources q))"

definition k9_formula ::
    "ZExpr \<Rightarrow> PyVal list \<Rightarrow> PyVal list \<Rightarrow> PyStd \<Rightarrow> RemediationPlan \<Rightarrow> ZExpr" where
  "k9_formula has_inverse raw_plan raw_inv std p =
     (let plan_targets = k9_plan_targets std p raw_plan;
          inv_targets = k9_inverse_targets std p raw_inv in
      ZAnd ([has_inverse,
             ZEq (ZIntVal (int (length (uniq inv_targets))))
                 (ZIntVal (int (length (uniq plan_targets))))] @
            subset_formulas plan_targets inv_targets @
            subset_formulas inv_targets plan_targets))"

definition k9_build :: "ZExpr kop" where
  "k9_build ctx =
     (if action (kc_plan ctx) = NO_ACTION then kret (ZBoolVal True) ctx
      else
        kbind (kc_bool ''plan_has_inverse'') (\<lambda>has_inverse.
        kbind (get_set ''plan_targets'') (\<lambda>raw_plan.
        kbind (get_set ''inverse_targets'') (\<lambda>raw_inv ctx'.
        kret (k9_formula has_inverse raw_plan raw_inv (kc_std ctx') (kc_plan ctx')) ctx'))) ctx)"

definition k9_spec :: "KernelContext \<Rightarrow> bool" where
  "k9_spec c \<longleftrightarrow> (action (kc_plan c) \<noteq> NO_ACTION \<longrightarrow>
     bool_fact c ''plan_has_inverse'' = Some True \<and>
     (\<exists>raw_plan raw_inv. set_fact c ''plan_targets'' = Some raw_plan \<and>
        set_fact c ''inverse_targets'' = Some raw_inv \<and>
        set (k9_plan_targets (kc_std c) (kc_plan c) raw_plan) =
        set (k9_inverse_targets (kc_std c) (kc_plan c) raw_inv)))"

lemma length_uniq: "length (uniq xs) = card (set xs)"
  by (metis distinct_card distinct_uniq set_uniq)

lemma holds_k9_formula:
  "holds m (k9_formula e rp ri std p) \<longleftrightarrow> zeval m e = VBool True \<and>
     set (k9_plan_targets std p rp) = set (k9_inverse_targets std p ri)"
proof -
  have "(\<forall>f \<in> set (subset_formulas xs ys @ subset_formulas ys xs). holds m f) \<longleftrightarrow> set xs = set ys"
    for xs ys by (simp only: set_append ball_Un holds_subset) auto
  then show ?thesis
    by (auto simp: k9_formula_def Let_def length_uniq holds_def [of m e] simp del: set_append)
qed

lemma k9_sort [simp]: "sort_of_name ''plan_has_inverse'' = BoolS"
  by (simp add: sort_of_name_def Let_def)

interpretation k9: proof_invariant k9_build k9_spec
proof (rule proof_invariantI)
  show "records_missing k9_build" unfolding k9_build_def
    by (intro records_if records_missing_kbind records_missing_kc records_missing_get
        records_missing_kret final_ok)
  show "same_view c d \<Longrightarrow> k9_spec d = k9_spec c" for c d
    by (simp add: k9_spec_def fact_val_same_view same_view_plan same_view_std)
  show "yields c k9_build (\<lambda>m f. holds m f = k9_spec c)" for c
    unfolding k9_build_def
    by (intro yields_if yields_kret yields_bool yields_get_set keeps_pinned_kbind keeps_pinned_kc
        keeps_pinned_get keeps_pinned_kret final_ok yields_final k9_sort)
      (auto simp: same_view_plan k9_spec_def holds_k9_formula)
qed

section \<open>K5: single writer\<close>

definition dict_str :: "PyStd \<Rightarrow> (string \<times> PyVal) list \<Rightarrow> string \<Rightarrow> string" where
  "dict_str std d k = (case map_of d k of None \<Rightarrow> [] | Some v \<Rightarrow> py_str std v)"

fun k5_canonical_target :: "PyStd \<Rightarrow> PyVal \<Rightarrow> string" where
  "k5_canonical_target std (PRef r) = ref_canonical r"
| "k5_canonical_target std (PDict d) =
     slashed (dict_str std d ''kind'')
       (case map_of d ''namespace'' of
          None \<Rightarrow> [] | Some v \<Rightarrow> if py_truthy v then py_str std v else [])
       (dict_str std d ''name'')"
| "k5_canonical_target std v = py_str std v"

text \<open>\<open>list(raw) if isinstance(raw, (list, tuple, set, frozenset)) else [raw]\<close>\<close>

definition as_list :: "PyVal \<Rightarrow> PyVal list" where
  "as_list v = (case v of PColl vs \<Rightarrow> vs | _ \<Rightarrow> [v])"

definition k5_plan_targets :: "PyStd \<Rightarrow> RemediationPlan \<Rightarrow> PyVal \<Rightarrow> string list" where
  "k5_plan_targets std p raw =
     map (k5_canonical_target std) (as_list raw) @ map ref_canonical (target_resources p)"

definition k5_in_flight :: "PyStd \<Rightarrow> PyVal \<Rightarrow> string list" where
  "k5_in_flight std raw = map (k5_canonical_target std) (as_list raw)"

definition k5_formula :: "PyVal \<Rightarrow> PyVal \<Rightarrow> PyStd \<Rightarrow> RemediationPlan \<Rightarrow> ZExpr" where
  "k5_formula raw_plan raw_in_flight std p =
     (let plan_targets = sorted_set (k5_plan_targets std p raw_plan);
          in_flight_targets = sorted_set (k5_in_flight std raw_in_flight) in
      if plan_targets = [] \<or> in_flight_targets = [] then ZBoolVal True
      else conj_of (concat (map (\<lambda>q. map (\<lambda>f. ZNe (ZStringVal q) (ZStringVal f)) in_flight_targets)
             plan_targets)))"

definition k5_vacuous :: "KernelContext \<Rightarrow> bool" where
  "k5_vacuous ctx \<longleftrightarrow> action (kc_plan ctx) = NO_ACTION \<and> \<not> has_fact ctx ''plan_targets'' \<and>
     \<not> has_fact ctx ''in_flight_plan_targets'' \<and> target_resources (kc_plan ctx) = []"

definition k5_build :: "ZExpr kop" where
  "k5_build ctx =
     (if k5_vacuous ctx then kret (ZBoolVal True) ctx
      else
        kbind (get_raw ''plan_targets'') (\<lambda>raw_plan.
        kbind (get_raw ''in_flight_plan_targets'') (\<lambda>raw_in_flight ctx'.
        kret (k5_formula raw_plan raw_in_flight (kc_std ctx') (kc_plan ctx')) ctx')) ctx)"

definition k5_spec :: "KernelContext \<Rightarrow> bool" where
  "k5_spec c \<longleftrightarrow> k5_vacuous c \<or>
     (\<exists>raw_plan raw_in_flight. fact_val c ''plan_targets'' = Some raw_plan \<and>
        fact_val c ''in_flight_plan_targets'' = Some raw_in_flight \<and>
        set (k5_plan_targets (kc_std c) (kc_plan c) raw_plan) \<inter>
        set (k5_in_flight (kc_std c) raw_in_flight) = {})"

lemma holds_k5_formula:
  "holds m (k5_formula rp rf std p) \<longleftrightarrow>
     set (k5_plan_targets std p rp) \<inter> set (k5_in_flight std rf) = {}"
  by (auto simp: k5_formula_def Let_def)

lemma k5_vacuous_view: "same_view c d \<Longrightarrow> k5_vacuous d = k5_vacuous c"
  by (simp add: k5_vacuous_def has_fact_same_view same_view_plan)

interpretation k5: proof_invariant k5_build k5_spec
proof (rule proof_invariantI)
  show "records_missing k5_build" unfolding k5_build_def
    by (intro records_if records_missing_kbind records_missing_get records_missing_kret final_ok)
  show "same_view c d \<Longrightarrow> k5_spec d = k5_spec c" for c d
    by (simp add: k5_spec_def fact_val_same_view same_view_plan same_view_std k5_vacuous_view)
  show "yields c k5_build (\<lambda>m f. holds m f = k5_spec c)" for c
    unfolding k5_build_def
    by (intro yields_if yields_kret yields_get_raw keeps_pinned_kbind
        keeps_pinned_get keeps_pinned_kret final_ok yields_final)
      (auto simp: k5_vacuous_view k5_spec_def holds_k5_formula)
qed

section \<open>K4: blast-radius containment\<close>

definition stripped :: "PyStd \<Rightarrow> PyVal list \<Rightarrow> string list" where
  "stripped std vs = map (\<lambda>v. py_strip (py_str std v)) vs"

definition k4_plan_services :: "RemediationPlan \<Rightarrow> string list" where
  "k4_plan_services p =
     (if workload (params p) \<noteq> [] then [py_strip (workload (params p))] else []) @
     map (\<lambda>t. py_strip (ref_name t)) (filter (\<lambda>t. ref_kind t = Deployment) (target_resources p))"

fun k4_fact_service :: "PyStd \<Rightarrow> PyVal \<Rightarrow> string list" where
  "k4_fact_service std (PRef r) = (if ref_kind r = Deployment then [py_strip (ref_name r)] else [])"
| "k4_fact_service std (PDict d) =
     (case map_of d ''name'' of
        Some v \<Rightarrow> if map_of d ''kind'' = Some (PStr ''Deployment'') then [py_strip (py_str std v)] else []
      | None \<Rightarrow> [])"
| "k4_fact_service std _ = []"

definition k4_fact_services :: "KernelContext \<Rightarrow> string list" where
  "k4_fact_services ctx =
     (case fact_val ctx ''plan_targets'' of
        Some v \<Rightarrow> concat (map (k4_fact_service (kc_std ctx)) (as_list v))
      | None \<Rightarrow> [])"

definition k4_targets :: "KernelContext \<Rightarrow> string list" where
  "k4_targets ctx = sorted_set (k4_plan_services (kc_plan ctx) @ k4_fact_services ctx)"

definition k4_dependents :: "string \<Rightarrow> string list kop" where
  "k4_dependents svc = kbind (get_set (subscript ''dependents'' svc)) (\<lambda>deps ctx.
     kret (stripped (kc_std ctx) deps) ctx)"

lemma parse_subscript_shape:
  assumes "parse_subscript n = Some (b, k)"
  shows "n = subscript b k \<or> n = subscript b k @ [CHR 0x0A]"
proof -
  obtain c rest where r: "dropWhile word_char n = c # rest" "c = CHR ''[''"
    and b: "b = takeWhile word_char n" and k: "k = takeWhile key_char rest"
    and t: "dropWhile key_char rest = '']'' \<or> dropWhile key_char rest = '']'' @ [CHR 0x0A]"
    using assms by (auto simp: parse_subscript_def Let_def split: list.splits if_splits)
  have "takeWhile word_char n @ dropWhile word_char n = n"
    "takeWhile key_char rest @ dropWhile key_char rest = rest"
    by (rule takeWhile_dropWhile_id)+
  then have "n = b @ ''['' @ k @ dropWhile key_char rest" unfolding r b k by simp
  with t show ?thesis unfolding subscript_def by (elim disjE) simp_all
qed

lemma finite_facts: "finite {n. has_fact ctx n}"
proof -
  define shapes where "shapes b k = {subscript b k, subscript b k @ [CHR 0x0A]}" for b k
  define inner where "inner f = (case fact_value f of PDict d \<Rightarrow> fst ` set d | _ \<Rightarrow> {})" for f :: Fact
  have fin: "finite (inner f)" for f by (auto simp: inner_def split: PyVal.splits)
  have "{n. has_fact ctx n} \<subseteq> fst ` set (kc_facts ctx) \<union>
      (\<Union>(b, f) \<in> set (kc_facts ctx). \<Union>k \<in> inner f. shapes b k)"
  proof
    fix n assume "n \<in> {n. has_fact ctx n}"
    then have "lookup_fact ctx n \<noteq> None" by (simp add: has_fact_def)
    then consider (direct) f where "map_of (kc_facts ctx) n = Some f"
      | (nested) "nested_fact ctx n \<noteq> None"
      by (auto simp: lookup_fact_def split: option.splits)
    then show "n \<in> fst ` set (kc_facts ctx) \<union>
      (\<Union>(b, f) \<in> set (kc_facts ctx). \<Union>k \<in> inner f. shapes b k)"
    proof cases
      case direct
      then have "(n, f) \<in> set (kc_facts ctx)" by (rule map_of_SomeD)
      then show ?thesis by force
    next
      case nested
      then obtain b k f d v where p: "parse_subscript n = Some (b, k)"
        and f: "map_of (kc_facts ctx) b = Some f" "fact_value f = PDict d" "map_of d k = Some v"
        by (auto simp: nested_fact_def split: option.splits PyVal.splits)
      from f(1) have "(b, f) \<in> set (kc_facts ctx)" by (rule map_of_SomeD)
      moreover from f(3) have "(k, v) \<in> set d" by (rule map_of_SomeD)
      then have "k \<in> inner f" using f(2) by (force simp: inner_def)
      moreover have "n \<in> shapes b k" using parse_subscript_shape [OF p] by (simp add: shapes_def)
      ultimately show ?thesis by fastforce
    qed
  qed
  moreover have "finite (\<Union>(b, f) \<in> set (kc_facts ctx). \<Union>k \<in> inner f. shapes b k)"
    using fin by (auto simp: shapes_def)
  ultimately show ?thesis by (meson finite_UnI finite_imageI finite_set rev_finite_subset)
qed

definition known_dependents :: "KernelContext \<Rightarrow> string set" where
  "known_dependents ctx = {x. has_fact ctx (subscript ''dependents'' x)}"

lemma finite_known_dependents: "finite (known_dependents ctx)"
proof -
  have inj: "inj (subscript ''dependents'')" by (simp add: inj_def subscript_def)
  have "known_dependents ctx = subscript ''dependents'' -` {n. has_fact ctx n}"
    by (auto simp: known_dependents_def)
  with finite_vimageI [OF finite_facts inj] show ?thesis by metis
qed

text \<open>The worklist loop; a dependents fact of the wrong type raises out of it.\<close>

function k4_closure ::
    "KernelContext \<Rightarrow> string list \<Rightarrow> string list \<Rightarrow> string list \<Rightarrow> KernelExc + string list" where
  "k4_closure ctx [] visited reach = Inr reach"
| "k4_closure ctx (cur # queue) visited reach =
     (if cur \<in> set visited then k4_closure ctx queue visited reach
      else if has_fact ctx (subscript ''dependents'' cur) then
        (case fst (k4_dependents cur ctx) of
           Inl e \<Rightarrow> Inl e
         | Inr deps \<Rightarrow> k4_closure ctx
             (queue @ filter (\<lambda>d. d \<notin> set (cur # visited)) deps)
             (cur # visited) (reach @ cur # deps))
      else k4_closure ctx queue (cur # visited) (reach @ [cur]))"
  by pat_completeness auto
termination
proof (relation "measures [\<lambda>(ctx, queue, visited, reach). card (known_dependents ctx - set visited),
                           \<lambda>(ctx, queue, visited, reach). length queue]", goal_cases)
  case (3 ctx cur queue visited reach deps)
  then have "cur \<in> known_dependents ctx - set visited" by (simp add: known_dependents_def)
  then have "card (known_dependents ctx - set (cur # visited)) < card (known_dependents ctx - set visited)"
    by (intro psubset_card_mono) (auto simp: finite_known_dependents)
  then show ?case by simp
next
  case (4 ctx cur queue visited reach)
  then have "known_dependents ctx - set (cur # visited) = known_dependents ctx - set visited"
    by (auto simp: known_dependents_def)
  then show ?case by simp
qed auto

definition k4_vacuous :: "KernelContext \<Rightarrow> bool" where
  "k4_vacuous ctx \<longleftrightarrow> action (kc_plan ctx) = NO_ACTION \<and> \<not> has_fact ctx ''declared_blast_set'' \<and>
     \<not> has_fact ctx ''observed_blast_set'' \<and> declared_blast_set (kc_plan ctx) = []"

definition k4_declared :: "PyStd \<Rightarrow> RemediationPlan \<Rightarrow> PyVal list \<Rightarrow> string list" where
  "k4_declared std p raw = stripped std raw @ map py_strip (declared_blast_set p)"

definition k4_formula :: "PyVal list \<Rightarrow> PyVal list \<Rightarrow> string list \<Rightarrow> PyStd \<Rightarrow> RemediationPlan \<Rightarrow> ZExpr" where
  "k4_formula raw_declared raw_observed reach std p =
     (let conds = subset_formulas (stripped std raw_observed) (k4_declared std p raw_declared) @
                  subset_formulas (k4_declared std p raw_declared) reach in
      if conds = [] then ZBoolVal True else conj_of conds)"

definition k4_reachable :: "string list \<Rightarrow> string list kop" where
  "k4_reachable targets =
     kbind (kmap k4_dependents targets) (\<lambda>direct ctx.
       klift (k4_closure ctx (concat direct) [] (targets @ concat direct)) ctx)"

definition k4_build :: "ZExpr kop" where
  "k4_build ctx =
     (if k4_vacuous ctx then kret (ZBoolVal True) ctx
      else
        kbind (get_set ''declared_blast_set'') (\<lambda>raw_declared.
        kbind (get_set ''observed_blast_set'') (\<lambda>raw_observed.
        kbind (\<lambda>ctx'. k4_reachable (k4_targets ctx') ctx') (\<lambda>reach ctx'.
        kret (k4_formula raw_declared raw_observed reach (kc_std ctx') (kc_plan ctx')) ctx'))) ctx)"

text \<open>The edges the dependents facts give, and the reachable set they span.\<close>

definition dep_edges :: "KernelContext \<Rightarrow> (string \<times> string) set" where
  "dep_edges c = {(a, b). \<exists>vs. set_fact c (subscript ''dependents'' a) = Some vs \<and>
     b \<in> set (stripped (kc_std c) vs)}"

lemma k4_dependents_Inr:
  "k4_dependents x c = (Inr ds, d) \<longleftrightarrow>
     (\<exists>vs. set_fact c (subscript ''dependents'' x) = Some vs \<and> ds = stripped (kc_std c) vs) \<and> d = c"
  by (auto simp: k4_dependents_def result_simps get_Inr)

lemma k4_dependents_edges:
  "fst (k4_dependents x c) = Inr ds \<Longrightarrow> dep_edges c `` {x} = set ds"
  by (cases "k4_dependents x c") (auto simp: k4_dependents_Inr dep_edges_def)

lemma no_fact_no_edges: "\<not> has_fact c (subscript ''dependents'' x) \<Longrightarrow> dep_edges c `` {x} = {}"
  by (auto simp: dep_edges_def has_fact_def set_fact_def fact_val_def)

lemma k4_closure_grows: "k4_closure c queue visited reach = Inr r \<Longrightarrow> set reach \<subseteq> set r"
  by (induction c queue visited reach rule: k4_closure.induct)
    (auto split: if_splits sum.splits)

lemma k4_closure_sound:
  "k4_closure c queue visited reach = Inr r \<Longrightarrow>
   set r \<subseteq> set reach \<union> (dep_edges c)\<^sup>* `` set queue"
proof (induction c queue visited reach rule: k4_closure.induct)
  case (2 c cur queue visited reach)
  show ?case
  proof (cases "cur \<in> set visited")
    case True
    with 2 show ?thesis by auto
  next
    case new: False
    show ?thesis
    proof (cases "has_fact c (subscript ''dependents'' cur)")
      case True
      with new 2(4) obtain ds where ds: "fst (k4_dependents cur c) = Inr ds"
        and run: "k4_closure c (queue @ filter (\<lambda>d. d \<notin> set (cur # visited)) ds) (cur # visited)
          (reach @ cur # ds) = Inr r" by (auto split: sum.splits)
      let ?E = "(dep_edges c)\<^sup>*" and ?new = "set (filter (\<lambda>d. d \<notin> set (cur # visited)) ds)"
      have 1: "set ds \<subseteq> ?E `` {cur}" using k4_dependents_edges [OF ds] by auto
      then have "?E `` set ds \<subseteq> ?E `` {cur}" by (auto intro: rtrancl_trans)
      moreover have "?E `` ?new \<subseteq> ?E `` set ds" by (rule Image_mono) auto
      ultimately have n: "?E `` ?new \<subseteq> ?E `` {cur}" by (rule subset_trans [rotated])
      have 3: "?E `` set (cur # queue) = ?E `` {cur} \<union> ?E `` set queue" by auto
      have 4: "cur \<in> ?E `` {cur}" by auto
      have "set r \<subseteq> set (reach @ cur # ds) \<union> (?E `` set queue \<union> ?E `` ?new)"
        using 2(2) [OF new True ds run] unfolding set_append Image_Un .
      then show ?thesis using 1 n 4 unfolding 3 set_append list.set by blast
    next
      case False
      with new 2(4) have run: "k4_closure c queue (cur # visited) (reach @ [cur]) = Inr r" by simp
      with 2(3) [OF new False run] show ?thesis by auto
    qed
  qed
qed auto

lemma k4_closure_closed:
  assumes "k4_closure c queue visited reach = Inr r"
    and "set visited \<union> set queue \<subseteq> set reach" and "dep_edges c `` set visited \<subseteq> set visited \<union> set queue"
  shows "\<exists>V. set visited \<union> set queue \<subseteq> V \<and> V \<subseteq> set r \<and> dep_edges c `` V \<subseteq> V"
  using assms
proof (induction c queue visited reach rule: k4_closure.induct)
  case (1 c visited reach)
  then show ?case by (intro exI [of _ "set visited"]) auto
next
  case (2 c cur queue visited reach)
  show ?case
  proof (cases "cur \<in> set visited")
    case True
    then show ?thesis using 2(1) [OF True] 2(4-6) by (simp add: insert_absorb)
  next
    case new: False
    show ?thesis
    proof (cases "has_fact c (subscript ''dependents'' cur)")
      case True
      let ?q = "\<lambda>ds. queue @ filter (\<lambda>d. d \<notin> set (cur # visited)) ds"
      from new True 2(4) obtain ds where ds: "fst (k4_dependents cur c) = Inr ds"
        and run: "k4_closure c (?q ds) (cur # visited) (reach @ cur # ds) = Inr r"
        by (auto split: sum.splits)
      have e: "dep_edges c `` set (cur # visited) = set ds \<union> dep_edges c `` set visited"
        using k4_dependents_edges [OF ds] by (auto simp: Image_def)
      have "\<exists>V. set (cur # visited) \<union> set (?q ds) \<subseteq> V \<and> V \<subseteq> set r \<and> dep_edges c `` V \<subseteq> V"
        by (rule 2(2) [OF new True ds run]) (use 2(5,6) e in auto)
      then show ?thesis by auto
    next
      case False
      with new 2(4) have run: "k4_closure c queue (cur # visited) (reach @ [cur]) = Inr r" by simp
      have e: "dep_edges c `` set (cur # visited) = dep_edges c `` set visited"
        using no_fact_no_edges [OF False] by (auto simp: Image_def)
      have "\<exists>V. set (cur # visited) \<union> set queue \<subseteq> V \<and> V \<subseteq> set r \<and> dep_edges c `` V \<subseteq> V"
        by (rule 2(3) [OF new False run]) (use 2(5,6) e in auto)
      then show ?thesis by auto
    qed
  qed
qed

lemma k4_closure_eq:
  assumes "k4_closure c queue [] (base @ queue) = Inr r"
  shows "set r = set base \<union> (dep_edges c)\<^sup>* `` set queue"
proof
  show "set r \<subseteq> set base \<union> (dep_edges c)\<^sup>* `` set queue"
    using k4_closure_sound [OF assms] by auto
  obtain V where V: "set queue \<subseteq> V" "V \<subseteq> set r" "dep_edges c `` V \<subseteq> V"
    using k4_closure_closed [OF assms] by auto
  have "(dep_edges c)\<^sup>* `` set queue \<subseteq> V"
    using Image_mono [OF subset_refl V(1), of "(dep_edges c)\<^sup>*"] closed_Image_rtrancl [OF V(3)] by auto
  then show "set base \<union> (dep_edges c)\<^sup>* `` set queue \<subseteq> set r"
    using V k4_closure_grows [OF assms] by auto
qed

definition k4_spec :: "KernelContext \<Rightarrow> bool" where
  "k4_spec c \<longleftrightarrow> k4_vacuous c \<or>
     (\<exists>raw_declared raw_observed. set_fact c ''declared_blast_set'' = Some raw_declared \<and>
        set_fact c ''observed_blast_set'' = Some raw_observed \<and>
        (\<forall>svc \<in> set (k4_targets c). set_fact c (subscript ''dependents'' svc) \<noteq> None) \<and>
        set (stripped (kc_std c) raw_observed) \<subseteq> set (k4_declared (kc_std c) (kc_plan c) raw_declared) \<and>
        set (k4_declared (kc_std c) (kc_plan c) raw_declared) \<subseteq> (dep_edges c)\<^sup>* `` set (k4_targets c))"

lemma holds_k4_formula:
  "holds m (k4_formula rd ro reach std p) \<longleftrightarrow>
     set (stripped std ro) \<subseteq> set (k4_declared std p rd) \<and> set (k4_declared std p rd) \<subseteq> set reach"
proof -
  have "(\<forall>f \<in> set (subset_formulas xs ys @ subset_formulas ys zs). holds m f) \<longleftrightarrow>
      set xs \<subseteq> set ys \<and> set ys \<subseteq> set zs" for xs ys zs
    by (simp only: set_append ball_Un holds_subset)
  then show ?thesis unfolding k4_formula_def Let_def by (auto simp del: set_append)
qed

lemma same_view_k4:
  assumes "same_view c d"
  shows "dep_edges d = dep_edges c" "k4_targets d = k4_targets c" "k4_vacuous d = k4_vacuous c"
  unfolding dep_edges_def k4_targets_def k4_fact_services_def k4_vacuous_def
    fact_val_same_view [OF assms] has_fact_same_view [OF assms] same_view_plan [OF assms]
    same_view_std [OF assms] by (rule refl)+

lemma kmap_dependents:
  "kmap k4_dependents svcs c = (Inr dss, d) \<Longrightarrow>
   d = c \<and> (\<forall>svc \<in> set svcs. set_fact c (subscript ''dependents'' svc) \<noteq> None) \<and>
   set (concat dss) = dep_edges c `` set svcs"
proof (induction svcs arbitrary: dss)
  case Nil
  then show ?case by (simp add: result_simps)
next
  case (Cons x svcs)
  from Cons.prems obtain ds dss' where 1: "k4_dependents x c = (Inr ds, c)" and dss: "dss = ds # dss'"
    and 2: "kmap k4_dependents svcs c = (Inr dss', d)"
    by (auto simp: result_simps k4_dependents_Inr)
  have "dep_edges c `` {x} = set ds" by (rule k4_dependents_edges) (simp add: 1)
  moreover have "dep_edges c `` set (x # svcs) = dep_edges c `` {x} \<union> dep_edges c `` set svcs" by auto
  ultimately show ?case using Cons.IH [OF 2] 1 by (auto simp: dss k4_dependents_Inr)
qed

lemma k4_reachable_Inr:
  assumes "k4_reachable targets c = (Inr r, d)"
  shows "d = c \<and> (\<forall>svc \<in> set targets. set_fact c (subscript ''dependents'' svc) \<noteq> None) \<and>
    set r = (dep_edges c)\<^sup>* `` set targets"
proof -
  from assms obtain dss c' where 1: "kmap k4_dependents targets c = (Inr dss, c')"
    and 2: "k4_closure c' (concat dss) [] (targets @ concat dss) = Inr r" and d: "d = c'"
    by (auto simp: k4_reachable_def result_simps)
  note direct = kmap_dependents [OF 1]
  have "set r = set targets \<union> (dep_edges c)\<^sup>* `` (dep_edges c `` set targets)"
    using k4_closure_eq [OF 2] direct by simp
  also have "\<dots> = (dep_edges c)\<^sup>* `` set targets"
  proof
    show "set targets \<union> (dep_edges c)\<^sup>* `` (dep_edges c `` set targets) \<subseteq> (dep_edges c)\<^sup>* `` set targets"
      by (auto intro: converse_rtrancl_into_rtrancl)
    show "(dep_edges c)\<^sup>* `` set targets \<subseteq> set targets \<union> (dep_edges c)\<^sup>* `` (dep_edges c `` set targets)"
      by (auto elim: converse_rtranclE)
  qed
  finally show ?thesis using direct d by simp
qed

lemma get_no_missing:
  "has_fact c n \<Longrightarrow> get_set n c = (Inl e, c') \<Longrightarrow> e \<noteq> MissingFact ns"
  by (auto simp: get_set_def get_raw_def get_fact_def has_fact_def result_simps kbind_Inl_iff
      split: option.splits PyVal.splits if_splits)

lemma k4_closure_no_missing:
  "k4_closure c queue visited reach \<noteq> Inl (MissingFact ns)"
proof (induction c queue visited reach rule: k4_closure.induct)
  case (2 c cur queue visited reach)
  have "fst (k4_dependents cur c) \<noteq> Inl (MissingFact ns)" if "has_fact c (subscript ''dependents'' cur)"
  proof
    assume "fst (k4_dependents cur c) = Inl (MissingFact ns)"
    then obtain d where "get_set (subscript ''dependents'' cur) c = (Inl (MissingFact ns), d)"
      by (cases "k4_dependents cur c") (auto simp: k4_dependents_def result_simps)
    with get_no_missing [OF that] show False by blast
  qed
  with 2 show ?case by (auto split: sum.splits)
qed simp

lemma klift_ok [intro]:
  "(\<And>c ns. r c \<noteq> Inl (MissingFact ns)) \<Longrightarrow> records_missing (\<lambda>ctx. klift (r ctx) ctx)"
  "keeps_pinned (\<lambda>ctx. klift (r ctx) ctx)"
  by (auto simp: records_missing_def keeps_pinned_def klift_def)

lemma k4_ok [intro]:
  "records_missing (k4_dependents x)" "keeps_pinned (k4_dependents x)"
  "records_missing (k4_reachable xs)" "keeps_pinned (k4_reachable xs)"
proof -
  show 1: "records_missing (k4_dependents x)" "keeps_pinned (k4_dependents x)" for x
    unfolding k4_dependents_def
    by (intro records_missing_kbind keeps_pinned_kbind records_missing_get keeps_pinned_get final_ok)+
  show "records_missing (k4_reachable xs)" unfolding k4_reachable_def
    by (intro records_missing_kbind records_missing_kmap klift_ok 1 k4_closure_no_missing)
  show "keeps_pinned (k4_reachable xs)" unfolding k4_reachable_def
    by (intro keeps_pinned_kbind keeps_pinned_kmap klift_ok 1)
qed

definition k4_reach :: "string list kop" where
  "k4_reach ctx = k4_reachable (k4_targets ctx) ctx"

lemma k4_reach_ok: "records_missing k4_reach" "keeps_pinned k4_reach"
  unfolding k4_reach_def
  by (rule records_missing_choose keeps_pinned_choose, rule k4_ok)+

lemma yields_k4_reach:
  assumes "\<And>v. keeps_pinned (k v)"
    and "\<And>r. \<forall>svc \<in> set (k4_targets c). set_fact c (subscript ''dependents'' svc) \<noteq> None \<Longrightarrow>
       set r = (dep_edges c)\<^sup>* `` set (k4_targets c) \<Longrightarrow> yields c (k r) P"
  shows "yields c (kbind k4_reach k) P"
proof (rule yields_pure [OF k4_reach_ok(2) assms(1)])
  fix c' v d
  assume view: "same_view c c'" and run: "k4_reach c' = (Inr v, d)"
  from k4_reachable_Inr [OF run [unfolded k4_reach_def]]
  show "d = c' \<and> yields c (k v) P"
    using assms(2) unfolding same_view_k4 [OF view] fact_val_same_view [OF view] by blast
qed

interpretation k4: proof_invariant k4_build k4_spec
proof (rule proof_invariantI)
  show "records_missing k4_build" unfolding k4_build_def k4_reach_def [symmetric, abs_def]
    by (intro records_if records_missing_kbind records_missing_get records_missing_kret final_ok
        k4_reach_ok)
  show "same_view c d \<Longrightarrow> k4_spec d = k4_spec c" for c d
    unfolding k4_spec_def
    by (simp only: same_view_k4 fact_val_same_view same_view_plan same_view_std)
  show "yields c k4_build (\<lambda>m f. holds m f = k4_spec c)" for c
    unfolding k4_build_def k4_reach_def [symmetric, abs_def]
    by (intro yields_if yields_kret yields_get_set yields_k4_reach keeps_pinned_kbind
        keeps_pinned_get keeps_pinned_kret final_ok yields_final k4_reach_ok)
      (auto simp: same_view_k4 k4_spec_def holds_k4_formula)
qed

end
