(* ===== verification/Explain.thy ===== *)
theory Explain
  imports Invariants
begin

text \<open>
  \<^verbatim>\<open>kernel/explain.py\<close>: the prose and the counterexample a veto is reported with, one explainer
  per PROOF invariant, and the record every invariant is (\<open>id\<close>, \<open>name\<close>, \<open>tier\<close>, \<open>statement\<close>,
  \<open>required_facts\<close>, \<open>build\<close>).  The fact readers run in the same context as the build
  functions, so an explainer is an operation on that context too.
\<close>

section \<open>The invariants as values\<close>

record Invariant =
  inv_id :: string
  inv_name :: string
  inv_tier :: InvariantTier
  inv_statement :: string
  inv_required_facts :: "string list"
  inv_build :: "ZExpr kop"

definition nl :: string where "nl = [CHR 0x0A]"

definition K1ReplicaFloor :: Invariant where
  "K1ReplicaFloor = \<lparr>inv_id = ''K1'', inv_name = ''Replica floor'', inv_tier = PROOF,
     inv_statement = fstr [
       ''No plan may leave any service with fewer healthy replicas than its'', nl,
       ''configured minimum, accounting for the plan's own effect.''],
     inv_required_facts = [''replicas[svc]'', ''min_replicas[svc]'', ''healthy_replicas[svc]''],
     inv_build = k1_build\<rparr>"

definition K2NamespaceScope :: Invariant where
  "K2NamespaceScope = \<lparr>inv_id = ''K2'', inv_name = ''Namespace scope'', inv_tier = PROOF,
     inv_statement = fstr [
       ''Every resource a plan mutates lies in the single authorized namespace for'', nl,
       ''its execution context. A plan destined for production touches only `ust-prod`; a plan'', nl,
       ''destined for a twin touches only that twin's namespace.''],
     inv_required_facts = [''plan_target_namespaces'', ''authorized_namespace''],
     inv_build = k2_build\<rparr>"

definition K3MigrationBoundary :: Invariant where
  "K3MigrationBoundary = \<lparr>inv_id = ''K3'', inv_name = ''Migration boundary'', inv_tier = PROOF,
     inv_statement = fstr [
       ''A ROLLBACK_DEPLOY may not target a commit that predates the most recent '',
       ''schema migration, and may not itself be a commit containing a migration.''],
     inv_required_facts = [''last_migration_commit_time'', ''rollback_target_commit_time'',
       ''target_contains_migration''],
     inv_build = k3_build\<rparr>"

definition K4BlastContainment :: Invariant where
  "K4BlastContainment = \<lparr>inv_id = ''K4'', inv_name = ''Blast-radius containment'', inv_tier = PROOF,
     inv_statement = fstr [
       ''A plan's observed blast set must be a subset of its declared blast set, and'', nl,
       ''its declared blast set must be a subset of the dependency-graph reachable set of its'', nl,
       ''targets.''],
     inv_required_facts = [''dependents[svc]'', ''declared_blast_set'', ''observed_blast_set''],
     inv_build = k4_build\<rparr>"

definition K5SingleWriter :: Invariant where
  "K5SingleWriter = \<lparr>inv_id = ''K5'', inv_name = ''Single writer'', inv_tier = PROOF,
     inv_statement = fstr [
       ''No two plans may hold overlapping target resources concurrently, across'', nl,
       ''incident handling and shadow mode.''],
     inv_required_facts = [''plan_targets'', ''in_flight_plan_targets''],
     inv_build = k5_build\<rparr>"

text \<open>The two RUNTIME invariants cannot be built.\<close>

definition runtime_build :: "ZExpr kop" where
  "runtime_build = kraise NotImplemented"

definition K6TwinEgressContainment :: Invariant where
  "K6TwinEgressContainment = \<lparr>inv_id = ''K6'', inv_name = ''Twin egress containment'',
     inv_tier = RUNTIME,
     inv_statement = ''No twin may reach `ust-prod` or the public internet.'',
     inv_required_facts = [''twin_egress_policy_present''],
     inv_build = runtime_build\<rparr>"

definition K7MutationBudget :: Invariant where
  "K7MutationBudget = \<lparr>inv_id = ''K7'', inv_name = ''Production mutation budget'', inv_tier = PROOF,
     inv_statement = fstr [
       ''At most `mutation_budget` (default 3) production mutations in any rolling'', nl,
       ''15-minute window.''],
     inv_required_facts = [''prod_mutations_in_window'', ''mutation_budget''],
     inv_build = k7_build\<rparr>"

definition K8EvidenceSufficiency :: Invariant where
  "K8EvidenceSufficiency = \<lparr>inv_id = ''K8'', inv_name = ''Evidence sufficiency and freshness'',
     inv_tier = PROOF,
     inv_statement = fstr [
       ''A plan may only be cleared on evidence that is fresh, dense, and'', nl, ''high-fidelity.''],
     inv_required_facts = [''evidence_age_seconds'', ''probe_sample_count'', ''max_drop_ratio''],
     inv_build = k8_build DEFAULT_MAX_EVIDENCE_AGE DEFAULT_MIN_PROBE_SAMPLES
       DEFAULT_MIRROR_DROP_CEILING\<rparr>"

definition K9Reversibility :: Invariant where
  "K9Reversibility = \<lparr>inv_id = ''K9'', inv_name = ''Reversibility'', inv_tier = PROOF,
     inv_statement =
       ''Every plan except NO_ACTION declares an inverse whose target set equals its own.'',
     inv_required_facts = [''plan_has_inverse'', ''inverse_targets'', ''plan_targets''],
     inv_build = k9_build\<rparr>"

definition K10ActuationAuthorisation :: Invariant where
  "K10ActuationAuthorisation = \<lparr>inv_id = ''K10'', inv_name = ''Actuation authorisation'',
     inv_tier = RUNTIME,
     inv_statement = fstr [
       ''The actuator applies to `ust-prod` only when it holds a `KernelVerdict` with'', nl,
       ''`verdict == PASS` whose `plan_id` matches the plan it is applying and whose age is under 60'',
       nl, ''seconds.''],
     inv_required_facts = [],
     inv_build = runtime_build\<rparr>"

text \<open>\<^verbatim>\<open>PROOF_INVARIANTS\<close> of verify.py, in canonical order.\<close>

definition PROOF_INVARIANTS :: "Invariant list" where
  "PROOF_INVARIANTS = [K1ReplicaFloor, K2NamespaceScope, K3MigrationBoundary, K4BlastContainment,
     K5SingleWriter, K7MutationBudget, K8EvidenceSufficiency, K9Reversibility]"

section \<open>Reading the solver's model\<close>

text \<open>\<open>as_decimal(5)\<close> cuts after five digits; the trailing question mark is dropped.\<close>

definition decimal5 :: "rat \<Rightarrow> rat" where
  "decimal5 r = (if r < 0 then - of_int \<lfloor>- r * 100000\<rfloor> / 100000 else of_int \<lfloor>r * 100000\<rfloor> / 100000)"

definition model_int :: "ZModel option \<Rightarrow> KernelContext \<Rightarrow> string \<Rightarrow> int \<Rightarrow> int" where
  "model_int m ctx name fallback =
     (case (m, map_of (kc_constants ctx) name) of
        (Some m', Some c) \<Rightarrow> (case zeval m' c of VInt i \<Rightarrow> i | _ \<Rightarrow> fallback)
      | _ \<Rightarrow> fallback)"

definition model_real :: "ZModel option \<Rightarrow> KernelContext \<Rightarrow> string \<Rightarrow> rat \<Rightarrow> rat" where
  "model_real m ctx name fallback =
     (case (m, map_of (kc_constants ctx) name) of
        (Some m', Some c) \<Rightarrow> (case zeval m' c of VReal r \<Rightarrow> decimal5 r | _ \<Rightarrow> fallback)
      | _ \<Rightarrow> fallback)"

section \<open>The explainers\<close>

record Explained =
  ex_failing_facts :: "(string \<times> PyVal) list"
  ex_counterexample :: "(string \<times> PyVal) list"
  ex_unsat_core :: "string list"
  ex_human_reason :: string
  ex_guidance :: string

definition PStrs :: "string list \<Rightarrow> PyVal" where "PStrs xs = PColl (map PStr xs)"

subsection \<open>K1\<close>

record K1Row =
  row_svc :: string
  row_min :: int
  row_reps :: int
  row_healthy :: int
  row_delta :: int

definition row_post_reps :: "K1Row \<Rightarrow> int" where "row_post_reps r = row_reps r + row_delta r"

definition row_post_healthy :: "K1Row \<Rightarrow> int" where
  "row_post_healthy r = row_healthy r + row_delta r"

definition row_fails :: "K1Row \<Rightarrow> bool" where
  "row_fails r \<longleftrightarrow> row_post_reps r < row_min r \<or> row_post_healthy r < row_min r"

definition explain_k1_delta :: "RemediationPlan \<Rightarrow> string \<Rightarrow> int" where
  "explain_k1_delta p svc =
     (if action p = SCALE_WORKLOAD \<and> workload (params p) = svc then
        (case replica_delta (params p) of Some d \<Rightarrow> d | None \<Rightarrow> 0)
      else if action p = RESTART_WORKLOAD then -1 else 0)"

definition k1_row :: "RemediationPlan \<Rightarrow> ZModel option \<Rightarrow> string \<Rightarrow> K1Row kop" where
  "k1_row p m svc =
     kbind (get_int (subscript ''min_replicas'' svc)) (\<lambda>min_raw.
     kbind (get_int (subscript ''replicas'' svc)) (\<lambda>reps_raw.
     kbind (get_int (subscript ''healthy_replicas'' svc)) (\<lambda>healthy_raw ctx.
     kret \<lparr>row_svc = svc,
           row_min = model_int m ctx (subscript ''min_replicas'' svc) min_raw,
           row_reps = model_int m ctx (subscript ''replicas'' svc) reps_raw,
           row_healthy = model_int m ctx (subscript ''healthy_replicas'' svc) healthy_raw,
           row_delta = explain_k1_delta p svc\<rparr> ctx)))"

definition k1_reason :: "K1Row \<Rightarrow> string" where
  "k1_reason r = fstr [''scaling/restarting '', squote (row_svc r),
     '' leaves post-intervention replicas ('', int_str (row_post_reps r),
     '') or healthy replicas ('', int_str (row_post_healthy r),
     '') below minimum floor ('', int_str (row_min r), '')'']"

definition k1_core :: "K1Row \<Rightarrow> string" where
  "k1_core r = fstr [subscript ''healthy_replicas'' (row_svc r), '' ('', int_str (row_post_healthy r),
     '') < '', subscript ''min_replicas'' (row_svc r), '' ('', int_str (row_min r), '')'']"

definition k1_counterexample :: "K1Row \<Rightarrow> string \<times> PyVal" where
  "k1_counterexample r = (row_svc r, PDict [
     (''min_replicas'', PInt (row_min r)),
     (''pre_intervention_replicas'', PInt (row_reps r)),
     (''pre_intervention_healthy'', PInt (row_healthy r)),
     (''post_intervention_replicas'', PInt (row_post_reps r)),
     (''post_intervention_healthy'', PInt (row_post_healthy r)),
     (''post_replicas'', PInt (row_post_reps r)),
     (''post_healthy'', PInt (row_post_healthy r)),
     (''delta'', PInt (row_delta r))])"

definition k1_guidance :: "K1Row \<Rightarrow> string" where
  "k1_guidance r = fstr [''Workload '', squote (row_svc r), '' requires at least '',
     int_str (row_min r), '' healthy replica(s). Action delta ('', int_str (row_delta r),
     '') causes replicas to drop to '', int_str (row_post_healthy r),
     ''. Do not down-scale or rolling-restart during partial outage; adjust replica delta.'']"

definition explain_k1 :: "RemediationPlan \<Rightarrow> ZModel option \<Rightarrow> Explained kop" where
  "explain_k1 p m =
     kbind (kmap (k1_row p m) (affected_services p)) (\<lambda>rows.
       (let failing = filter row_fails rows in
        kret \<lparr>
          ex_failing_facts = concat (map (\<lambda>r. [
             (subscript ''min_replicas'' (row_svc r), PInt (row_min r)),
             (subscript ''replicas'' (row_svc r), PInt (row_reps r)),
             (subscript ''healthy_replicas'' (row_svc r), PInt (row_healthy r))]) rows),
          ex_counterexample = map k1_counterexample failing,
          ex_unsat_core = map k1_core failing,
          ex_human_reason = ''VETO: Invariant K1 violated: '' @ join ''; '' (map k1_reason failing),
          ex_guidance = join '' '' (map k1_guidance failing)\<rparr>))"

subsection \<open>K2\<close>

definition explain_k2 :: "RemediationPlan \<Rightarrow> Explained kop" where
  "explain_k2 p =
     kbind (get_str ''authorized_namespace'') (\<lambda>auth_ns.
     kbind (get_set ''plan_target_namespaces'') (\<lambda>raw ctx.
     (let targets = target_namespaces (kc_std ctx) p raw;
          unauthorized = sorted_set (filter (\<lambda>ns. ns \<noteq> auth_ns) targets);
          unauth_str = join '', '' unauthorized in
      kret \<lparr>
        ex_failing_facts = [(''authorized_namespace'', PStr auth_ns),
          (''plan_target_namespaces'', PStrs (sorted_set targets))],
        ex_counterexample = [(''unauthorized_namespaces'', PStrs unauthorized),
          (''authorized_namespace'', PStr auth_ns)],
        ex_unsat_core = map (\<lambda>ns. fstr [''namespace('', ns, '') != authorized_namespace('', auth_ns, '')''])
          unauthorized,
        ex_human_reason = fstr [''VETO: Invariant K2 violated: plan mutates unauthorized namespace(s): '',
          unauth_str, '', authorized is '', squote auth_ns],
        ex_guidance = fstr [
          ''Remediation plan attempts to mutate resource(s) in unauthorized namespace(s): '',
          squote unauth_str, ''. Automated execution is strictly confined to '', squote auth_ns,
          ''. Ensure plan target resources do not span beyond '', squote auth_ns, ''.'']\<rparr> ctx)))"

subsection \<open>K3\<close>

definition k3_commit :: "RemediationPlan \<Rightarrow> string" where
  "k3_commit p = (case target_commit (params p) of
     Some tc \<Rightarrow> if tc = [] then ''unknown'' else tc | None \<Rightarrow> ''unknown'')"

definition k3_explain_name :: "RemediationPlan \<Rightarrow> KernelContext \<Rightarrow> string \<Rightarrow> string" where
  "k3_explain_name p ctx base =
     (if k3_commit p \<noteq> ''unknown'' \<and> has_fact ctx (subscript base (k3_commit p))
      then subscript base (k3_commit p) else base)"

definition k3_last_commit :: "string kop" where
  "k3_last_commit ctx =
     (if has_fact ctx ''last_migration_commit'' then get_str ''last_migration_commit'' ctx
      else kret ''migration'' ctx)"

definition k3_explain_migration :: "string \<Rightarrow> (string \<times> PyVal) list \<Rightarrow> Explained" where
  "k3_explain_migration tc facts = \<lparr>
     ex_failing_facts = facts @ [(subscript ''target_contains_migration'' tc, PBool True)],
     ex_counterexample = [(''target_commit'', PStr tc), (''target_contains_migration'', PBool True)],
     ex_unsat_core = [fstr [''target_contains_migration('', tc, '') == True'']],
     ex_human_reason = fstr [''VETO: Invariant K3 violated: rollback target commit '', tc,
       '' contains a schema migration''],
     ex_guidance = fstr [''Rollback target commit '', squote tc,
       '' contains database schema migrations. '',
       ''Rolling back directly to a migration commit will cause schema-code mismatch. '',
       ''Revert application code separately from schema migrations.'']\<rparr>"

definition k3_explain_boundary ::
    "string \<Rightarrow> string \<Rightarrow> string \<Rightarrow> string \<Rightarrow> (string \<times> PyVal) list \<Rightarrow> Explained" where
  "k3_explain_boundary tc target_iso last_commit last_iso facts = \<lparr>
     ex_failing_facts = facts @ [(subscript ''rollback_target_commit_time'' tc, PStr target_iso)],
     ex_counterexample = [(''rollback_target_commit'', PStr tc),
       (''rollback_target_commit_time'', PStr target_iso),
       (''last_migration_commit'', PStr last_commit),
       (''last_migration_commit_time'', PStr last_iso)],
     ex_unsat_core = [fstr [''rollback_target_commit_time ('', target_iso,
       '') < last_migration_commit_time ('', last_iso, '')'']],
     ex_human_reason = fstr [''VETO: Invariant K3 violated: rollback target commit '', tc,
       '' deployed at '', target_iso, '' predates schema migration commit '', last_commit, '' at '',
       last_iso],
     ex_guidance = fstr [''Rollback target commit '', squote tc, '' deployed at '', target_iso,
       '' predates migration commit '', squote last_commit, '' ('', last_iso, ''). '',
       ''Rolling application code back past this migration boundary would execute code '',
       ''incompatible with the current database schema. Select a target commit after '',
       last_iso, '' or roll back database migrations first.'']\<rparr>"

definition explain_k3 :: "RemediationPlan \<Rightarrow> Explained kop" where
  "explain_k3 p =
     kbind k3_last_commit (\<lambda>last_commit.
     kbind (get_datetime ''last_migration_commit_time'') (\<lambda>last_time.
     kbind (\<lambda>ctx. get_bool (k3_explain_name p ctx ''target_contains_migration'') ctx) (\<lambda>has_mig ctx.
     (let tc = k3_commit p; last_iso = std_isoformat (kc_std ctx) last_time;
          facts = [(''last_migration_commit'', PStr last_commit),
                   (''last_migration_commit_time'', PStr last_iso)] in
      if has_mig then kret (k3_explain_migration tc facts) ctx
      else kbind (get_datetime (k3_explain_name p ctx ''rollback_target_commit_time'')) (\<lambda>target_time.
        kret (k3_explain_boundary tc (std_isoformat (kc_std ctx) target_time) last_commit last_iso facts))
        ctx))))"

subsection \<open>K4\<close>

definition explain_k4 :: "RemediationPlan \<Rightarrow> Explained kop" where
  "explain_k4 p =
     kbind (get_set ''declared_blast_set'') (\<lambda>declared.
     kbind (get_set ''observed_blast_set'') (\<lambda>observed ctx.
     (let declared_str = map (py_str (kc_std ctx)) declared;
          observed_str = map (py_str (kc_std ctx)) observed;
          unpredicted = sorted_set (filter (\<lambda>s. s \<notin> set declared_str) observed_str);
          facts = [(''declared_blast_set'', PStrs (sorted_set declared_str)),
                   (''observed_blast_set'', PStrs (sorted_set observed_str))] in
      kret (if unpredicted \<noteq> [] then \<lparr>
          ex_failing_facts = facts,
          ex_counterexample = [(''unpredicted_observed_services'', PStrs unpredicted)],
          ex_unsat_core = map (\<lambda>s. fstr [''observed service '', squote s, '' not in declared blast set''])
            unpredicted,
          ex_human_reason = ''VETO: Invariant K4 violated: observed blast set touched unpredicted service(s): ''
            @ join '', '' unpredicted,
          ex_guidance = fstr [''Twin rehearsal affected service(s) ('', join '', '' unpredicted,
            '') not declared in the candidate's blast set. Investigate unanticipated dependencies '',
            ''before actuating.'']\<rparr>
        else \<lparr>
          ex_failing_facts = facts,
          ex_counterexample = [(''declared_blast_set'', PStrs (sorted_set declared_str))],
          ex_unsat_core = [''declared_blast_set not subset of reachable dependents''],
          ex_human_reason = fstr [''VETO: Invariant K4 violated: declared blast set exceeds reachable '',
            ''dependency graph dependents''],
          ex_guidance = fstr [''Declared blast set includes services beyond the reachable dependency '',
            ''graph closure. Verify dependencies.yaml and target service topology.'']\<rparr>) ctx)))"

subsection \<open>K5\<close>

definition raw_or_empty :: "string \<Rightarrow> PyVal kop" where
  "raw_or_empty name ctx = (if has_fact ctx name then get_raw name ctx else kret (PColl []) ctx)"

definition explain_k5 :: "RemediationPlan \<Rightarrow> Explained kop" where
  "explain_k5 p =
     kbind (raw_or_empty ''plan_targets'') (\<lambda>raw_pts.
     kbind (raw_or_empty ''in_flight_plan_targets'') (\<lambda>raw_in_flight ctx.
     (let plan_targets = k5_plan_targets (kc_std ctx) p raw_pts;
          in_flight = k5_in_flight (kc_std ctx) raw_in_flight;
          colliding = sorted_set (filter (\<lambda>t. t \<in> set in_flight) plan_targets);
          col_str = join '', '' colliding in
      kret \<lparr>
        ex_failing_facts = [(''plan_targets'', PStrs (sorted_set plan_targets)),
          (''in_flight_plan_targets'', PStrs (sorted_set in_flight))],
        ex_counterexample = [(''colliding_resources'', PStrs colliding)],
        ex_unsat_core = map (\<lambda>c. fstr [''target '', squote c, '' in in_flight_plan_targets'']) colliding,
        ex_human_reason = fstr [
          ''VETO: Invariant K5 violated: target resource(s) already held by an in-flight execution: '',
          col_str],
        ex_guidance = fstr [''Target resource(s) ('', col_str,
          '') are currently locked by an active remediation or shadow run. '',
          ''Wait for in-flight execution to complete or terminate the conflicting run.'']\<rparr> ctx)))"

subsection \<open>K7\<close>

definition explain_k7 :: "ZModel option \<Rightarrow> Explained kop" where
  "explain_k7 m =
     kbind (get_int ''prod_mutations_in_window'') (\<lambda>mutations_raw.
     kbind (get_int ''mutation_budget'') (\<lambda>budget_raw ctx.
     (let mutations = model_int m ctx ''prod_mutations_in_window'' mutations_raw;
          budget = model_int m ctx ''mutation_budget'' budget_raw in
      kret \<lparr>
        ex_failing_facts = [(''prod_mutations_in_window'', PInt mutations), (''mutation_budget'', PInt budget)],
        ex_counterexample = [(''prod_mutations_in_window'', PInt mutations),
          (''mutation_budget'', PInt budget), (''projected_mutations'', PInt (mutations + 1))],
        ex_unsat_core = [fstr [''prod_mutations_in_window ('', int_str mutations,
          '') + 1 > mutation_budget ('', int_str budget, '')'']],
        ex_human_reason = fstr [''VETO: Invariant K7 violated: production mutations in 15-minute window ('',
          int_str mutations, '' + 1) exceeds mutation budget ('', int_str budget, '')''],
        ex_guidance = fstr [''Production mutation budget of '', int_str budget,
          '' changes per 15-minute window has been reached ('', int_str mutations,
          '' recorded). Automated actuation is halted to prevent remediation thrashing. '',
          ''Investigate root cause or wait for mutation rate window to reset.'']\<rparr> ctx)))"

subsection \<open>K8\<close>

definition k8_issues :: "PyStd \<Rightarrow> rat \<Rightarrow> int \<Rightarrow> rat \<Rightarrow> (string \<times> string \<times> PyVal) list" where
  "k8_issues std age samples dropr =
     (if age > 300 then [(fstr [''evidence age '', std_fixed std 1 age, ''s exceeds 300s limit''],
        ''evidence_age_seconds'', PFloat age)] else []) @
     (if samples < 60 then [(fstr [''probe samples ('', int_str samples, '') below 60 minimum''],
        ''probe_sample_count'', PInt samples)] else []) @
     (if dropr > 1 / 20 then [(fstr [''max drop ratio ('', std_fixed std 3 dropr, '') exceeds 0.05 ceiling''],
        ''max_drop_ratio'', PFloat dropr)] else [])"

definition explain_k8 :: "ZModel option \<Rightarrow> Explained kop" where
  "explain_k8 m =
     kbind (get_float ''evidence_age_seconds'') (\<lambda>age_raw.
     kbind (get_int ''probe_sample_count'') (\<lambda>samples_raw.
     kbind (get_float ''max_drop_ratio'') (\<lambda>drop_raw ctx.
     (let issues = k8_issues (kc_std ctx)
            (model_real m ctx ''evidence_age_seconds'' age_raw)
            (model_int m ctx ''probe_sample_count'' samples_raw)
            (model_real m ctx ''max_drop_ratio'' drop_raw);
          text = join ''; '' (map fst issues) in
      kret \<lparr>
        ex_failing_facts = map snd issues,
        ex_counterexample = map snd issues,
        ex_unsat_core = map fst issues,
        ex_human_reason = ''VETO: Invariant K8 violated: '' @ text,
        ex_guidance = fstr [''Tournament rehearsal evidence failed fidelity criteria: '', text,
          ''. Re-run twin tournament with fresh mirror traffic before applying fix.'']\<rparr> ctx))))"

subsection \<open>K9 and the rest\<close>

definition explain_k9 :: "Explained kop" where
  "explain_k9 =
     kbind (get_bool ''plan_has_inverse'') (\<lambda>has_inverse.
     kbind (raw_or_empty ''inverse_targets'') (\<lambda>raw_inv.
     kbind (raw_or_empty ''plan_targets'') (\<lambda>raw_pts ctx.
     (let inv_targets = sorted_set (k5_in_flight (kc_std ctx) raw_inv);
          plan_targets = sorted_set (k5_in_flight (kc_std ctx) raw_pts);
          facts = [(''plan_has_inverse'', PBool has_inverse), (''inverse_targets'', PStrs inv_targets),
                   (''plan_targets'', PStrs plan_targets)] in
      kret \<lparr>
        ex_failing_facts = facts,
        ex_counterexample = facts,
        ex_unsat_core = [''plan_has_inverse == False or inverse_targets != plan_targets''],
        ex_human_reason = fstr [''VETO: Invariant K9 violated: plan lacks a deterministic inverse or inverse '',
          ''targets do not strictly match plan targets''],
        ex_guidance = fstr [''Plan lacks a valid deterministic inverse or inverse targets do not match '',
          ''plan targets. Automated safety requires every non-trivial plan to be reversible.'']\<rparr> ctx))))"

definition explain_default :: "string \<Rightarrow> string \<Rightarrow> Explained kop" where
  "explain_default ident statement = kret \<lparr>
     ex_failing_facts = [],
     ex_counterexample = [(''invariant_id'', PStr ident), (''statement'', PStr statement)],
     ex_unsat_core = [fstr [ident, '' negation satisfied in solver model'']],
     ex_human_reason = fstr [''VETO: Invariant '', ident, '' violated: '', statement],
     ex_guidance = fstr [''Review invariant '', ident, '' constraint specification.'']\<rparr>"

text \<open>The dispatch through \<^verbatim>\<open>_EXPLAINERS\<close>.\<close>

definition explainer ::
    "string \<Rightarrow> string \<Rightarrow> RemediationPlan \<Rightarrow> ZModel option \<Rightarrow> Explained kop" where
  "explainer ident statement p m =
     (if ident = ''K1'' then explain_k1 p m
      else if ident = ''K2'' then explain_k2 p
      else if ident = ''K3'' then explain_k3 p
      else if ident = ''K4'' then explain_k4 p
      else if ident = ''K5'' then explain_k5 p
      else if ident = ''K7'' then explain_k7 m
      else if ident = ''K8'' then explain_k8 m
      else if ident = ''K9'' then explain_k9
      else explain_default ident statement)"

record VetoExplanation =
  vx_invariant_id :: string
  vx_invariant_name :: string
  vx_tier :: InvariantTier
  vx_statement :: string
  vx_explained :: Explained
  vx_actionable_prose :: string

fun tier_value :: "InvariantTier \<Rightarrow> string" where
  "tier_value PROOF = ''proof''"
| "tier_value RUNTIME = ''runtime''"

definition bullet_lines :: "PyStd \<Rightarrow> (string \<times> PyVal) list \<Rightarrow> string list" where
  "bullet_lines std kvs =
     (if kvs \<noteq> [] then map (\<lambda>(k, v). fstr [''  - '', k, '': '', py_str std v]) kvs
      else [''  - (none recorded)''])"

definition format_actionable_prose ::
    "PyStd \<Rightarrow> string \<Rightarrow> string \<Rightarrow> string \<Rightarrow> InvariantTier \<Rightarrow> Explained \<Rightarrow> string" where
  "format_actionable_prose std ident nam statement tier x = join nl (
     [fstr [''VETO: Invariant '', ident, '' ('', nam, '') Violated''], [], ''Summary:'',
      ''  '' @ ex_human_reason x, [], ''Invariant Definition:'',
      ''  Statement: '' @ py_strip statement, ''  Tier: '' @ tier_value tier, [], ''Failing Facts:''] @
     bullet_lines std (ex_failing_facts x) @ [[], ''Counterexample:''] @
     bullet_lines std (ex_counterexample x) @
     [[], ''Actionable Operator Guidance:'', ''  '' @ ex_guidance x])"

definition explain_parts :: "string \<Rightarrow> string \<Rightarrow> InvariantTier \<Rightarrow> string \<Rightarrow> RemediationPlan \<Rightarrow>
    ZModel option \<Rightarrow> VetoExplanation kop" where
  "explain_parts ident nam tier statement p m =
     kbind (explainer ident statement p m) (\<lambda>x ctx.
       kret \<lparr>vx_invariant_id = ident, vx_invariant_name = nam, vx_tier = tier,
         vx_statement = statement, vx_explained = x,
         vx_actionable_prose =
           format_actionable_prose (kc_std ctx) ident nam statement tier x\<rparr> ctx)"

text \<open>\<open>explain_veto\<close> takes an invariant or the id of one.\<close>

fun explain_veto :: "Invariant + string \<Rightarrow> RemediationPlan \<Rightarrow> ZModel option \<Rightarrow> VetoExplanation kop" where
  "explain_veto (Inl iv) p m =
     explain_parts (inv_id iv) (inv_name iv) (inv_tier iv) (inv_statement iv) p m"
| "explain_veto (Inr ident) p m =
     (case find (\<lambda>i. inv_id i = ident) PROOF_INVARIANTS of
        Some iv \<Rightarrow> explain_parts ident (inv_name iv) (inv_tier iv) (inv_statement iv) p m
      | None \<Rightarrow> explain_parts ident ident PROOF (fstr [''Unknown invariant '', ident, '' violated.'']) p m)"

definition render_veto_reason ::
    "Invariant \<Rightarrow> RemediationPlan \<Rightarrow> ZModel option \<Rightarrow> (string \<times> string list) kop" where
  "render_veto_reason iv p m = kbind (explain_veto (Inl iv) p m) (\<lambda>vx.
     kret (ex_human_reason (vx_explained vx), ex_unsat_core (vx_explained vx)))"

section \<open>Explainers keep the discipline of the context\<close>

text \<open>Both invariants of the context at once.\<close>

definition disciplined :: "'a kop \<Rightarrow> bool" where
  "disciplined op \<longleftrightarrow> records_missing op \<and> keeps_pinned op"

named_theorems disciplined_intros

lemma disciplined_kret [disciplined_intros]: "disciplined (kret v)"
  by (auto simp: disciplined_def)

lemma disciplined_kret_ctx [disciplined_intros]: "disciplined (\<lambda>ctx. kret (g ctx) ctx)"
  by (auto simp: disciplined_def records_missing_def keeps_pinned_def kret_def)

lemma disciplined_kbind [disciplined_intros]:
  "disciplined op \<Longrightarrow> (\<And>v. disciplined (f v)) \<Longrightarrow> disciplined (kbind op f)"
  by (auto simp: disciplined_def)

lemma disciplined_get [disciplined_intros]:
  "disciplined (get_raw n)" "disciplined (get_int n)" "disciplined (get_bool n)"
  "disciplined (get_float n)" "disciplined (get_str n)" "disciplined (get_set n)"
  "disciplined (get_datetime n)"
  by (auto simp: disciplined_def)

lemma disciplined_kmap [disciplined_intros]: "(\<And>x. disciplined (f x)) \<Longrightarrow> disciplined (kmap f xs)"
  by (auto simp: disciplined_def)

lemma disciplined_if [disciplined_intros]:
  "disciplined a \<Longrightarrow> disciplined b \<Longrightarrow> disciplined (\<lambda>ctx. if P ctx then a ctx else b ctx)"
  by (auto simp: disciplined_def)

lemma disciplined_choose:
  "(\<And>c. disciplined (op c)) \<Longrightarrow> disciplined (\<lambda>ctx. op ctx ctx)"
  using records_missing_choose keeps_pinned_choose unfolding disciplined_def by blast

lemma disciplined_raw_or_empty [disciplined_intros]: "disciplined (raw_or_empty n)"
  unfolding raw_or_empty_def by (intro disciplined_intros)

lemma disciplined_k3_last [disciplined_intros]: "disciplined k3_last_commit"
  unfolding k3_last_commit_def by (intro disciplined_intros)

lemma disciplined_k1_row [disciplined_intros]: "disciplined (k1_row p m svc)"
  unfolding k1_row_def by (intro disciplined_intros)

lemma disciplined_explain_k3: "disciplined (explain_k3 p)"
  unfolding explain_k3_def Let_def
proof (intro disciplined_kbind disciplined_k3_last disciplined_get)
  show "disciplined (\<lambda>ctx. get_bool (k3_explain_name p ctx ''target_contains_migration'') ctx)"
    by (rule disciplined_choose) (rule disciplined_get)
qed (rule disciplined_if, rule disciplined_kret_ctx, rule disciplined_choose, intro disciplined_intros)

lemma disciplined_explainer [disciplined_intros]: "disciplined (explainer ident st p m)"
proof -
  have "disciplined (explain_k1 p m)" "disciplined (explain_k2 p)" "disciplined (explain_k4 p)"
    "disciplined (explain_k5 p)" "disciplined (explain_k7 m)" "disciplined (explain_k8 m)"
    "disciplined explain_k9" "disciplined (explain_default ident st)"
    unfolding explain_k1_def explain_k2_def explain_k4_def explain_k5_def explain_k7_def
      explain_k8_def explain_k9_def explain_default_def Let_def
    by (intro disciplined_intros)+
  with disciplined_explain_k3 show ?thesis by (simp add: explainer_def)
qed

lemma disciplined_render: "disciplined (render_veto_reason iv p m)"
  unfolding render_veto_reason_def explain_veto.simps explain_parts_def
  by (intro disciplined_intros)

end
