(* ===== verification/Verify.thy ===== *)
theory Verify
  imports Explain
begin

text \<open>
  \<^verbatim>\<open>kernel/verify.py\<close>: the loop that asks the solver about the negation of each invariant in turn
  and combines the answers into a verdict.  The clock readings and the solver are parameters of
  the run (\<open>VerifyEnv\<close>); the solver's stack holds the context's assertions and the negated formula
  while it is asked, and nothing between two invariants.
\<close>

section \<open>The verification loop\<close>

record VerifyEnv =
  ve_perf :: "nat \<Rightarrow> rat"
  ve_solver :: Solver
  ve_timeout_ms :: int
  ve_plan :: RemediationPlan
  ve_incident_id :: string
  ve_evaluated_at :: instant

text \<open>Milliseconds since the first reading, at the reading numbered \<open>n\<close>.\<close>

definition elapsed_ms :: "VerifyEnv \<Rightarrow> nat \<Rightarrow> rat" where
  "elapsed_ms env n = (ve_perf env n - ve_perf env 0) * 1000"

definition remaining_ms :: "VerifyEnv \<Rightarrow> nat \<Rightarrow> int" where
  "remaining_ms env n = py_int (of_int (ve_timeout_ms env) - elapsed_ms env n)"

definition all_missing :: "string list \<Rightarrow> KernelContext \<Rightarrow> string list" where
  "all_missing missing ctx = sort (uniq (missing @ missing_facts ctx))"

definition add_missing :: "string list \<Rightarrow> string list \<Rightarrow> string list" where
  "add_missing missing ns = foldl (\<lambda>acc m. if m \<in> set acc then acc else acc @ [m]) missing ns"

definition verdict_of :: "VerifyEnv \<Rightarrow> nat \<Rightarrow> KernelVerdictType \<Rightarrow> InvariantResult list \<Rightarrow>
    string list \<Rightarrow> string \<Rightarrow> KernelVerdict" where
  "verdict_of env n v results missing reason = \<lparr>
     kv_incident_id = ve_incident_id env, kv_plan_id = plan_id (ve_plan env), verdict = v,
     kv_results = results, kv_missing_facts = missing, solver_ms = elapsed_ms env n,
     human_reason = reason, evaluated_at = Some (ve_evaluated_at env)\<rparr>"

definition result_of :: "Invariant \<Rightarrow> bool option \<Rightarrow> string list option \<Rightarrow> string \<Rightarrow> InvariantResult" where
  "result_of iv sat core reason = \<lparr>ir_invariant_id = inv_id iv, ir_tier = inv_tier iv,
     ir_satisfied = sat, ir_unsat_core = core, ir_reason = reason\<rparr>"

definition missing_reason :: "string list \<Rightarrow> string" where
  "missing_reason ns = ''UNCERTAIN: Missing required fact(s) for verification: '' @ join '', '' ns"

fun verify_loop :: "VerifyEnv \<Rightarrow> Invariant list \<Rightarrow> nat \<Rightarrow> InvariantResult list \<Rightarrow> string list \<Rightarrow>
    KernelContext \<Rightarrow> KernelExc + KernelVerdict" where
  "verify_loop env [] n results missing ctx = Inr (
     let ms = all_missing missing ctx in
     if ms \<noteq> [] then verdict_of env n UNCERTAIN results ms (missing_reason ms)
     else verdict_of env n PASS results []
       (fstr [''All '', int_str (int (length results)), '' PROOF invariants verified safe by safety kernel.'']))"
| "verify_loop env (iv # ivs) n results missing ctx =
     (let remaining = remaining_ms env n in
      if remaining \<le> 0 then
        Inr (verdict_of env (n + 1) UNCERTAIN results (all_missing missing ctx)
          ''UNCERTAIN: Safety kernel solver timed out (5s ceiling exceeded).'')
      else
        (case inv_build iv ctx of
           (Inl (MissingFact ns), ctx1) \<Rightarrow>
             verify_loop env ivs (n + 1)
               (results @ [result_of iv None None (''Missing required fact(s): '' @ join '', '' ns)])
               (add_missing missing ns) ctx1
         | (Inl e, ctx1) \<Rightarrow> Inl e
         | (Inr f, ctx1) \<Rightarrow>
             (case ve_solver env (max 1 remaining) (kc_assertions ctx1 @ [ZNot f]) of
                Unsat \<Rightarrow>
                  verify_loop env ivs (n + 1)
                    (results @ [result_of iv (Some True) None
                       (fstr [''Proof discharged unsat by solver ('', inv_id iv, '' safe)''])])
                    missing ctx1
              | Sat m \<Rightarrow>
                  (case render_veto_reason iv (ve_plan env) (Some m) ctx1 of
                     (Inl e, ctx2) \<Rightarrow> Inl e
                   | (Inr (reason, core), ctx2) \<Rightarrow>
                       (let results' = results @ [result_of iv (Some False) (Some core) reason] in
                        if all_missing missing ctx2 = [] then
                          Inr (verdict_of env (n + 1) VETO results' [] reason)
                        else verify_loop env ivs (n + 1) results' missing ctx2))
              | Unknown r \<Rightarrow>
                  (let ms = all_missing missing ctx1 in
                   Inr (verdict_of env (n + 1) UNCERTAIN
                     (results @ [result_of iv None None (''Solver returned unknown: '' @ r)]) ms
                     (if ms \<noteq> [] then missing_reason ms
                      else ''UNCERTAIN: Safety kernel solver returned unknown: '' @ r))))))"

text \<open>\<open>verify(plan, facts, ...)\<close>; the first reading of the clock has number 0.\<close>

definition verify :: "PyStd \<Rightarrow> Solver \<Rightarrow> (nat \<Rightarrow> rat) \<Rightarrow> rat \<Rightarrow> Invariant list option \<Rightarrow> string option \<Rightarrow>
    instant \<Rightarrow> RemediationPlan \<Rightarrow> Fact list \<Rightarrow> KernelExc + KernelVerdict" where
  "verify std solver perf timeout_seconds invariants incident_id now p facts =
     verify_loop
       \<lparr>ve_perf = perf, ve_solver = solver, ve_timeout_ms = py_int (timeout_seconds * 1000),
        ve_plan = p,
        ve_incident_id = (case incident_id of Some i \<Rightarrow> if i = [] then ''inc_kernel_verify'' else i
                          | None \<Rightarrow> ''inc_kernel_verify''),
        ve_evaluated_at = now\<rparr>
       (case invariants of Some ivs \<Rightarrow> ivs | None \<Rightarrow> PROOF_INVARIANTS)
       1 [] [] (kernel_context std p facts)"

definition DEFAULT_TIMEOUT_SECONDS :: rat where "DEFAULT_TIMEOUT_SECONDS = 5"

section \<open>The safety condition the kernel decides\<close>

definition proof_specs :: "(KernelContext \<Rightarrow> bool) list" where
  "proof_specs = [k1_spec, k2_spec, k3_spec, k4_spec, k5_spec, k7_spec,
     k8_spec DEFAULT_MAX_EVIDENCE_AGE DEFAULT_MIN_PROBE_SAMPLES DEFAULT_MIRROR_DROP_CEILING, k9_spec]"

text \<open>All eight PROOF invariants hold of the plan and the facts.\<close>

definition plan_safe :: "PyStd \<Rightarrow> RemediationPlan \<Rightarrow> Fact list \<Rightarrow> bool" where
  "plan_safe std p facts \<longleftrightarrow> (\<forall>spec \<in> set proof_specs. spec (kernel_context std p facts))"

definition covers :: "Invariant \<Rightarrow> (KernelContext \<Rightarrow> bool) \<Rightarrow> bool" where
  "covers iv spec \<longleftrightarrow> proof_invariant (inv_build iv) spec"

lemma proof_invariants_cover: "list_all2 covers PROOF_INVARIANTS proof_specs"
  unfolding PROOF_INVARIANTS_def proof_specs_def covers_def
  by (simp add: K1ReplicaFloor_def K2NamespaceScope_def K3MigrationBoundary_def
      K4BlastContainment_def K5SingleWriter_def K7MutationBudget_def K8EvidenceSufficiency_def
      K9Reversibility_def k1.proof_invariant_axioms k2.proof_invariant_axioms
      k3.proof_invariant_axioms k4.proof_invariant_axioms k5.proof_invariant_axioms
      k7.proof_invariant_axioms k8.proof_invariant_axioms k9.proof_invariant_axioms)

section \<open>Steps of the loop\<close>

lemma all_missing_Nil [simp]:
  "all_missing missing ctx = [] \<longleftrightarrow> missing = [] \<and> kc_missing_accessed ctx = []"
proof -
  have "sort xs = [] \<longleftrightarrow> xs = []" for xs :: "string list" by (metis length_0_conv length_sort)
  then show ?thesis by (simp add: all_missing_def missing_facts_def)
qed

lemma set_add_missing [simp]: "set (add_missing missing ns) = set missing \<union> set ns"
proof -
  have "set (foldl (\<lambda>acc m. if m \<in> set acc then acc else acc @ [m]) xs ys) = set xs \<union> set ys"
    for xs ys :: "string list" by (induction ys arbitrary: xs) auto
  then show ?thesis by (simp add: add_missing_def)
qed

lemma add_missing_Nil: "add_missing missing ns = [] \<Longrightarrow> ns = []"
  by (metis Un_empty set_add_missing set_empty)

text \<open>The ways an iteration of the loop can go on to return a verdict.\<close>

lemma verify_loop_ConsE:
  assumes "verify_loop env (iv # ivs) n results missing ctx = Inr v"
  obtains (timeout) "remaining_ms env n \<le> 0" "verdict v = UNCERTAIN"
      "kv_missing_facts v = all_missing missing ctx" "kv_results v = results"
  | (missing) ns ctx1 r where "inv_build iv ctx = (Inl (MissingFact ns), ctx1)" "ir_satisfied r = None"
      "verify_loop env ivs (n + 1) (results @ [r]) (add_missing missing ns) ctx1 = Inr v"
  | (unsat) f ctx1 r where "inv_build iv ctx = (Inr f, ctx1)"
      "ve_solver env (max 1 (remaining_ms env n)) (kc_assertions ctx1 @ [ZNot f]) = Unsat"
      "ir_satisfied r = Some True"
      "verify_loop env ivs (n + 1) (results @ [r]) missing ctx1 = Inr v"
  | (veto) f ctx1 m reason core ctx2 where "inv_build iv ctx = (Inr f, ctx1)"
      "ve_solver env (max 1 (remaining_ms env n)) (kc_assertions ctx1 @ [ZNot f]) = Sat m"
      "render_veto_reason iv (ve_plan env) (Some m) ctx1 = (Inr (reason, core), ctx2)"
      "all_missing missing ctx2 = []"
      "v = verdict_of env (n + 1) VETO (results @ [result_of iv (Some False) (Some core) reason]) [] reason"
  | (violated) f ctx1 m reason core ctx2 r where "inv_build iv ctx = (Inr f, ctx1)"
      "ve_solver env (max 1 (remaining_ms env n)) (kc_assertions ctx1 @ [ZNot f]) = Sat m"
      "render_veto_reason iv (ve_plan env) (Some m) ctx1 = (Inr (reason, core), ctx2)"
      "all_missing missing ctx2 \<noteq> []" "ir_satisfied r = Some False"
      "verify_loop env ivs (n + 1) (results @ [r]) missing ctx2 = Inr v"
  | (unknown) f ctx1 u where "inv_build iv ctx = (Inr f, ctx1)"
      "ve_solver env (max 1 (remaining_ms env n)) (kc_assertions ctx1 @ [ZNot f]) = Unknown u"
      "verdict v = UNCERTAIN" "kv_missing_facts v = all_missing missing ctx1"
proof (cases "remaining_ms env n \<le> 0")
  case True
  with assms show thesis by (intro timeout) (auto simp: verdict_of_def)
next
  case time: False
  obtain b ctx1 where b: "inv_build iv ctx = (b, ctx1)" by fastforce
  show thesis
  proof (cases b)
    case (Inl e)
    with assms b time obtain ns where "e = MissingFact ns" by (cases e) (auto simp: Let_def)
    with assms b time Inl show thesis
      by (intro missing [of ns ctx1 "result_of iv None None (''Missing required fact(s): '' @ join '', '' ns)"])
        (auto simp: result_of_def)
  next
    case (Inr f)
    note b = b [unfolded Inr]
    show thesis
    proof (cases "ve_solver env (max 1 (remaining_ms env n)) (kc_assertions ctx1 @ [ZNot f])")
      case Unsat
      with assms b time show thesis by (intro unsat [OF b Unsat]) (auto simp: result_of_def)
    next
      case (Sat m)
      obtain q ctx2 where q: "render_veto_reason iv (ve_plan env) (Some m) ctx1 = (q, ctx2)" by fastforce
      with assms b time Sat obtain rc where "q = Inr rc" by (cases q) (auto simp: Let_def)
      then obtain reason core where "q = Inr (reason, core)" by (cases rc) simp
      note q = q [unfolded this]
      show thesis
      proof (cases "all_missing missing ctx2 = []")
        case True
        with assms b time Sat q show thesis
          by (intro veto [OF b Sat q]) (simp_all add: Let_def)
      next
        case False
        with assms b time Sat q show thesis
          by (intro violated [OF b Sat q False, of "result_of iv (Some False) (Some core) reason"])
            (simp_all add: Let_def result_of_def split: if_splits)
      qed
    next
      case (Unknown u)
      with assms b time show thesis
        by (intro unknown [OF b Unknown]) (auto simp: Let_def verdict_of_def)
    qed
  qed
qed

lemma covers_pinned:
  assumes "covers iv spec" "inv_build iv ctx = (r, ctx1)" "ctx_pinned ctx" "same_view c0 ctx"
  shows "ctx_pinned ctx1" "same_view c0 ctx1"
proof -
  have "keeps_pinned (inv_build iv)"
    using assms(1) by (simp add: covers_def proof_invariant_def)
  from keeps_pinnedD [OF this assms(2,3)] show "ctx_pinned ctx1" "same_view c0 ctx1"
    using same_view_trans [OF assms(4)] by auto
qed

lemma covers_missing:
  assumes "covers iv spec" "inv_build iv ctx = (r, ctx1)"
  shows "set (kc_missing_accessed ctx) \<subseteq> set (kc_missing_accessed ctx1)"
    and "r = Inl (MissingFact ns) \<Longrightarrow> ns \<noteq> [] \<and> (\<forall>n \<in> set ns. \<not> has_fact ctx n)"
    and "r = Inr f \<Longrightarrow> kc_missing_accessed ctx1 = kc_missing_accessed ctx"
proof -
  have "records_missing (inv_build iv)"
    using assms(1) by (simp add: covers_def proof_invariant_def)
  note r = this [unfolded records_missing_def, rule_format, OF assms(2)]
  show "set (kc_missing_accessed ctx) \<subseteq> set (kc_missing_accessed ctx1)"
    "r = Inl (MissingFact ns) \<Longrightarrow> ns \<noteq> [] \<and> (\<forall>n \<in> set ns. \<not> has_fact ctx n)"
    "r = Inr f \<Longrightarrow> kc_missing_accessed ctx1 = kc_missing_accessed ctx"
    using r by blast+
qed

lemma render_pinned:
  assumes "render_veto_reason iv p m ctx = (r, ctx1)" "ctx_pinned ctx" "same_view c0 ctx"
  shows "ctx_pinned ctx1" "same_view c0 ctx1"
proof -
  have k: "keeps_pinned (render_veto_reason iv p m)"
    using disciplined_render unfolding disciplined_def by blast
  from keeps_pinnedD [OF k assms(1,2)] show "ctx_pinned ctx1" "same_view c0 ctx1"
    using same_view_trans [OF assms(3)] by auto
qed

lemma render_missing:
  assumes "render_veto_reason iv p m ctx = (Inr x, ctx1)"
  shows "kc_missing_accessed ctx1 = kc_missing_accessed ctx"
  using disciplined_render [of iv p m] assms unfolding disciplined_def records_missing_def by blast

lemma covers_unsat:
  assumes "covers iv spec" "ctx_pinned ctx" "same_view c0 ctx" "inv_build iv ctx = (Inr f, ctx1)"
    and "solver_sound check" "check t (kc_assertions ctx1 @ [ZNot f]) = Unsat"
  shows "spec c0"
proof -
  have pi: "proof_invariant (inv_build iv) spec" using assms(1) by (simp add: covers_def)
  have "spec ctx" by (rule proof_invariant.unsat_spec [OF pi assms(2,4,5,6)])
  then show ?thesis using proof_invariant.view [OF pi assms(3)] by simp
qed

lemma covers_sat:
  assumes "covers iv spec" "ctx_pinned ctx" "same_view c0 ctx" "inv_build iv ctx = (Inr f, ctx1)"
    and "solver_sound check" "check t (kc_assertions ctx1 @ [ZNot f]) = Sat m"
  shows "\<not> spec c0"
proof -
  have pi: "proof_invariant (inv_build iv) spec" using assms(1) by (simp add: covers_def)
  have "\<not> spec ctx" by (rule proof_invariant.sat_not_spec [OF pi assms(2,4,5,6)])
  then show ?thesis using proof_invariant.view [OF pi assms(3)] by simp
qed

section \<open>What a verdict means\<close>

lemma verify_loop_pass:
  assumes "solver_sound (ve_solver env)" "list_all2 covers ivs specs" "ctx_pinned ctx" "same_view c0 ctx"
    and "verify_loop env ivs n results missing ctx = Inr v" "verdict v = PASS"
  shows "(\<forall>spec \<in> set specs. spec c0) \<and> missing = [] \<and> kc_missing_accessed ctx = []"
  using assms(2-5)
proof (induction ivs arbitrary: specs n results missing ctx)
  case Nil
  then show ?case using assms(6) by (auto simp: Let_def verdict_of_def split: if_splits)
next
  case (Cons iv ivs)
  from Cons.prems(1) obtain spec specs' where specs: "specs = spec # specs'"
    and cov: "covers iv spec" and covs: "list_all2 covers ivs specs'"
    by (auto simp: list_all2_Cons1)
  from Cons.prems(4) show ?case
  proof (cases rule: verify_loop_ConsE)
    case (missing ns ctx1 r)
    note pin = covers_pinned [OF cov missing(1) Cons.prems(2,3)]
    have "add_missing missing ns = []" using Cons.IH [OF covs pin missing(3)] by simp
    then show ?thesis using covers_missing(2) [OF cov missing(1)] add_missing_Nil by blast
  next
    case (unsat f ctx1 r)
    note pin = covers_pinned [OF cov unsat(1) Cons.prems(2,3)]
    have "spec c0" by (rule covers_unsat [OF cov Cons.prems(2,3) unsat(1) assms(1) unsat(2)])
    moreover have "set specs = insert spec (set specs')" by (simp add: specs)
    ultimately show ?thesis
      using Cons.IH [OF covs pin unsat(4)] covers_missing(3) [OF cov unsat(1)] by auto
  next
    case (violated f ctx1 m reason core ctx2 r)
    note pin = render_pinned [OF violated(3) covers_pinned [OF cov violated(1) Cons.prems(2,3)]]
    show ?thesis using Cons.IH [OF covs pin violated(6)] violated(4) by simp
  qed (use assms(6) in \<open>auto simp: verdict_of_def\<close>)
qed

lemma verify_loop_veto:
  assumes "solver_sound (ve_solver env)" "list_all2 covers ivs specs" "ctx_pinned ctx" "same_view c0 ctx"
    and "verify_loop env ivs n results missing ctx = Inr v" "verdict v = VETO"
  shows "missing = [] \<and> kc_missing_accessed ctx = [] \<and> kv_missing_facts v = [] \<and>
    (\<exists>pre spec post iv rs core. specs = pre @ spec # post \<and> (\<forall>s \<in> set pre. s c0) \<and> \<not> spec c0 \<and>
       iv = ivs ! length pre \<and> length rs = length pre \<and> list_all (\<lambda>r. ir_satisfied r = Some True) rs \<and>
       kv_results v = results @ rs @ [result_of iv (Some False) (Some core) (human_reason v)])"
  using assms(2-5)
proof (induction ivs arbitrary: specs n results missing ctx)
  case Nil
  then show ?case using assms(6) by (auto simp: Let_def verdict_of_def split: if_splits)
next
  case (Cons iv ivs)
  from Cons.prems(1) obtain spec specs' where specs: "specs = spec # specs'"
    and cov: "covers iv spec" and covs: "list_all2 covers ivs specs'"
    by (auto simp: list_all2_Cons1)
  from Cons.prems(4) show ?case
  proof (cases rule: verify_loop_ConsE)
    case (missing ns ctx1 r)
    note pin = covers_pinned [OF cov missing(1) Cons.prems(2,3)]
    have "add_missing missing ns = []" using Cons.IH [OF covs pin missing(3)] by simp
    then show ?thesis using covers_missing(2) [OF cov missing(1)] add_missing_Nil by blast
  next
    case (unsat f ctx1 r)
    note pin = covers_pinned [OF cov unsat(1) Cons.prems(2,3)]
    have s: "spec c0" by (rule covers_unsat [OF cov Cons.prems(2,3) unsat(1) assms(1) unsat(2)])
    from Cons.IH [OF covs pin unsat(4)] obtain pre sp post iv' rs core where
      IH: "missing = []" "kc_missing_accessed ctx1 = []" "kv_missing_facts v = []"
        "specs' = pre @ sp # post" "\<forall>s \<in> set pre. s c0" "\<not> sp c0" "iv' = ivs ! length pre"
        "length rs = length pre" "list_all (\<lambda>r. ir_satisfied r = Some True) rs"
        "kv_results v = (results @ [r]) @ rs @ [result_of iv' (Some False) (Some core) (human_reason v)]"
      by blast
    have "specs = (spec # pre) @ sp # post" using IH(4) specs by simp
    moreover have "\<forall>s \<in> set (spec # pre). s c0" using IH(5) s unfolding list.set by blast
    moreover have "iv' = (iv # ivs) ! length (spec # pre)" using IH(7) by simp
    moreover have "length (r # rs) = length (spec # pre)" using IH(8) by simp
    moreover have "list_all (\<lambda>r. ir_satisfied r = Some True) (r # rs)" using IH(9) unsat(3) by simp
    moreover have "kv_results v = results @ (r # rs) @
        [result_of iv' (Some False) (Some core) (human_reason v)]" using IH(10) by simp
    moreover have "kc_missing_accessed ctx = []"
      using IH(2) covers_missing(3) [OF cov unsat(1)] by simp
    ultimately show ?thesis using IH(1,3,6) by blast
  next
    case (veto f ctx1 m reason core ctx2)
    have s: "\<not> spec c0" by (rule covers_sat [OF cov Cons.prems(2,3) veto(1) assms(1) veto(2)])
    have "kc_missing_accessed ctx = []"
      using veto(4) render_missing [OF veto(3)] covers_missing(3) [OF cov veto(1)] by simp
    moreover have "missing = []" using veto(4) by simp
    moreover have "kv_missing_facts v = []" "human_reason v = reason"
      "kv_results v = results @ [] @ [result_of iv (Some False) (Some core) reason]"
      by (simp_all add: veto(5) verdict_of_def)
    moreover have "specs = [] @ spec # specs'" "iv = (iv # ivs) ! length []" by (simp_all add: specs)
    moreover have "\<forall>s \<in> set ([] :: (KernelContext \<Rightarrow> bool) list). s c0"
      "length ([] :: InvariantResult list) = length ([] :: (KernelContext \<Rightarrow> bool) list)"
      "list_all (\<lambda>r. ir_satisfied r = Some True) []" by simp_all
    ultimately show ?thesis using s by blast
  next
    case (violated f ctx1 m reason core ctx2 r)
    note pin = render_pinned [OF violated(3) covers_pinned [OF cov violated(1) Cons.prems(2,3)]]
    show ?thesis using Cons.IH [OF covs pin violated(6)] violated(4) by simp
  qed (use assms(6) in \<open>auto simp: verdict_of_def\<close>)
qed

text \<open>A verdict with missing facts is UNCERTAIN, whoever asked first.\<close>

lemma verify_loop_missing:
  assumes "verify_loop env ivs n results missing ctx = Inr v" "kv_missing_facts v \<noteq> []"
  shows "verdict v = UNCERTAIN"
  using assms
proof (induction ivs arbitrary: n results missing ctx)
  case Nil
  then show ?case by (auto simp: Let_def verdict_of_def split: if_splits)
next
  case (Cons iv ivs)
  from Cons.prems(1) show ?case
    by (cases rule: verify_loop_ConsE) (use Cons in \<open>auto simp: verdict_of_def\<close>)
qed

section \<open>When every fact is there\<close>

text \<open>\<open>succeeds c0 op\<close>: the operation returns in every context with the facts of \<open>c0\<close>.\<close>

definition succeeds :: "KernelContext \<Rightarrow> 'a kop \<Rightarrow> bool" where
  "succeeds c0 op \<longleftrightarrow> records_missing op \<and> (\<forall>c. same_view c0 c \<longrightarrow> (\<exists>v d. op c = (Inr v, d)))"

lemma succeedsD: "succeeds c0 op \<Longrightarrow> same_view c0 c \<Longrightarrow> \<exists>v d. op c = (Inr v, d)"
  by (simp add: succeeds_def)

named_theorems succeeds_intros

lemma succeeds_kret [succeeds_intros]: "succeeds c0 (kret v)"
  by (auto simp: succeeds_def kret_def)

lemma succeeds_final [succeeds_intros]: "succeeds c0 (\<lambda>ctx. kret (g (kc_std ctx) (kc_plan ctx)) ctx)"
  by (auto simp: succeeds_def kret_def records_missing_def)

lemma succeeds_kbind [succeeds_intros]:
  assumes "succeeds c0 op" "\<And>v. succeeds c0 (k v)"
  shows "succeeds c0 (kbind op k)"
  unfolding succeeds_def
proof (intro conjI allI impI)
  show "records_missing (kbind op k)" using assms unfolding succeeds_def by auto
  fix c assume view: "same_view c0 c"
  obtain v d where 1: "op c = (Inr v, d)" using succeedsD [OF assms(1) view] by blast
  moreover have "records_missing op" using assms(1) by (simp add: succeeds_def)
  then have "same_view c d" using 1 by (rule records_missing_same_view)
  then have "same_view c0 d" by (rule same_view_trans [OF view])
  then obtain w e where "k v d = (Inr w, e)" using succeedsD [OF assms(2)] by blast
  ultimately show "\<exists>w e. kbind op k c = (Inr w, e)" by (auto simp: kbind_def)
qed

lemma succeeds_kmap: "(\<And>x. x \<in> set xs \<Longrightarrow> succeeds c0 (f x)) \<Longrightarrow> succeeds c0 (kmap f xs)"
  by (induction xs) (auto intro: succeeds_intros)

lemma succeeds_if:
  assumes "records_missing a" "records_missing b" "\<And>c. same_view c0 c \<Longrightarrow> P c = P c0"
    and "P c0 \<Longrightarrow> succeeds c0 a" "\<not> P c0 \<Longrightarrow> succeeds c0 b"
  shows "succeeds c0 (\<lambda>ctx. if P ctx then a ctx else b ctx)"
  unfolding succeeds_def
proof (intro conjI allI impI)
  show "records_missing (\<lambda>ctx. if P ctx then a ctx else b ctx)" using assms(1,2) by (rule records_if)
  fix c assume view: "same_view c0 c"
  show "\<exists>v d. (if P c then a c else b c) = (Inr v, d)"
  proof (cases "P c")
    case True
    then have "P c0" using assms(3) [OF view] by simp
    from succeedsD [OF assms(4) [OF this] view] True show ?thesis by simp
  next
    case False
    then have "\<not> P c0" using assms(3) [OF view] by simp
    from succeedsD [OF assms(5) [OF this] view] False show ?thesis by simp
  qed
qed

lemma succeeds_kc [succeeds_intros]:
  "int_fact c0 n \<noteq> None \<Longrightarrow> succeeds c0 (get_int n)"
  "set_fact c0 n \<noteq> None \<Longrightarrow> succeeds c0 (get_set n)"
  "fact_val c0 n \<noteq> None \<Longrightarrow> succeeds c0 (get_raw n)"
  "int_fact c0 n \<noteq> None \<Longrightarrow> succeeds c0 (kc_int n)"
  "bool_fact c0 n \<noteq> None \<Longrightarrow> succeeds c0 (kc_bool n)"
  "str_fact c0 n \<noteq> None \<Longrightarrow> succeeds c0 (kc_string n)"
  "float_fact c0 n \<noteq> None \<Longrightarrow> succeeds c0 (kc_real n)"
  "datetime_fact c0 n \<noteq> None \<Longrightarrow> succeeds c0 (kc_datetime n)"
proof -
  have reg: "succeeds c0 (register_const n s l)" for s l
    by (auto simp: succeeds_def register_const_def split: option.splits)
  have get: "succeeds c0 op" if "records_missing op"
    "\<And>c. same_view c0 c \<Longrightarrow> \<exists>v. op c = (Inr v, c)" for op :: "'x kop"
    using that unfolding succeeds_def by blast
  show int: "int_fact c0 n \<noteq> None \<Longrightarrow> succeeds c0 (get_int n)"
    by (rule get) (auto simp: get_Inr fact_val_same_view)
  show "set_fact c0 n \<noteq> None \<Longrightarrow> succeeds c0 (get_set n)"
    by (rule get) (auto simp: get_Inr fact_val_same_view)
  show "fact_val c0 n \<noteq> None \<Longrightarrow> succeeds c0 (get_raw n)"
    by (rule get) (auto simp: get_raw_Inr fact_val_same_view)
  have bool: "bool_fact c0 n \<noteq> None \<Longrightarrow> succeeds c0 (get_bool n)"
    by (rule get) (auto simp: get_Inr fact_val_same_view)
  have str: "str_fact c0 n \<noteq> None \<Longrightarrow> succeeds c0 (get_str n)"
    by (rule get) (auto simp: get_Inr fact_val_same_view)
  have float: "float_fact c0 n \<noteq> None \<Longrightarrow> succeeds c0 (get_float n)"
    by (rule get) (auto simp: get_Inr fact_val_same_view)
  have time: "datetime_fact c0 n \<noteq> None \<Longrightarrow> succeeds c0 (get_datetime n)"
    by (rule get) (auto simp: get_Inr fact_val_same_view)
  show "int_fact c0 n \<noteq> None \<Longrightarrow> succeeds c0 (kc_int n)"
    unfolding kc_int_def by (rule succeeds_kbind [OF int reg])
  show "bool_fact c0 n \<noteq> None \<Longrightarrow> succeeds c0 (kc_bool n)"
    unfolding kc_bool_def by (rule succeeds_kbind [OF bool reg])
  show "str_fact c0 n \<noteq> None \<Longrightarrow> succeeds c0 (kc_string n)"
    unfolding kc_string_def by (rule succeeds_kbind [OF str reg])
  show "float_fact c0 n \<noteq> None \<Longrightarrow> succeeds c0 (kc_real n)"
    unfolding kc_real_def by (rule succeeds_kbind [OF float reg])
  show "datetime_fact c0 n \<noteq> None \<Longrightarrow> succeeds c0 (kc_datetime n)"
    unfolding kc_datetime_def by (rule succeeds_kbind [OF time reg])
qed

text \<open>
  The facts an invariant reads without requiring them have the type it expects of them.
\<close>

definition optional_facts_typed :: "KernelContext \<Rightarrow> bool" where
  "optional_facts_typed c \<longleftrightarrow>
     (\<forall>svc. has_fact c (subscript ''max_unavailable'' svc) \<longrightarrow>
        int_fact c (subscript ''max_unavailable'' svc) \<noteq> None) \<and>
     (\<forall>svc. has_fact c (subscript ''dependents'' svc) \<longrightarrow>
        set_fact c (subscript ''dependents'' svc) \<noteq> None)"

lemma succeeds_k1:
  assumes "k1_spec c" "optional_facts_typed c" shows "succeeds c k1_build"
proof -
  have deltas: "succeeds c (k1_deltas svc)" for svc
    unfolding succeeds_def
  proof (intro conjI allI impI)
    fix d assume v: "same_view c d"
    show "\<exists>x e. k1_deltas svc d = (Inr x, e)"
    proof (cases "has_fact d (subscript ''max_unavailable'' svc)")
      case True
      then have "int_fact d (subscript ''max_unavailable'' svc) \<noteq> None"
        using assms(2) v by (simp add: optional_facts_typed_def has_fact_same_view fact_val_same_view)
      then obtain u where "get_int (subscript ''max_unavailable'' svc) d = (Inr u, d)"
        by (auto simp: get_Inr)
      then show ?thesis by (auto simp: k1_deltas_def Let_def kbind_def kret_def)
    qed (auto simp: k1_deltas_def Let_def kret_def)
  qed (rule k1_deltas_ok)
  have "succeeds c (k1_condition svc)" if "svc \<in> set (affected_services (kc_plan c))" for svc
  proof -
    have "k1_floor_kept c svc" using assms(1) that by (simp add: k1_spec_def)
    then have "int_fact c (subscript ''min_replicas'' svc) \<noteq> None"
      "int_fact c (subscript ''replicas'' svc) \<noteq> None"
      "int_fact c (subscript ''healthy_replicas'' svc) \<noteq> None"
      by (auto simp: k1_floor_kept_def split: option.splits)
    then show ?thesis unfolding k1_condition_def
      by (auto intro!: succeeds_intros deltas split: prod.split)
  qed
  then have main: "succeeds c (kbind (kmap k1_condition (affected_services (kc_plan c)))
      (\<lambda>conds. kret (conj_of conds)))"
    by (intro succeeds_kbind succeeds_kmap succeeds_kret)
  show ?thesis unfolding succeeds_def
  proof (intro conjI allI impI)
    fix d assume v: "same_view c d"
    from succeedsD [OF main v] show "\<exists>x e. k1_build d = (Inr x, e)"
      by (auto simp: k1_build_def Let_def kret_def same_view_plan [OF v])
  qed (rule k1.records)
qed

lemma succeeds_k2: "k2_spec c \<Longrightarrow> succeeds c k2_build"
  unfolding k2_spec_def k2_build_def by (auto intro!: succeeds_intros)

lemma succeeds_k3:
  assumes "k3_spec c" shows "succeeds c k3_build"
proof -
  have "succeeds c k3_target_time"
    if "datetime_fact c (k3_name c ''rollback_target_commit_time'') \<noteq> None"
    unfolding succeeds_def k3_target_time_def
    using succeedsD [OF succeeds_kc(8) [OF that]] k3_ok(3) [unfolded k3_target_time_def]
    by (simp add: k3_name_same_view)
  moreover have "succeeds c k3_has_migration"
    if "bool_fact c (k3_name c ''target_contains_migration'') \<noteq> None"
    unfolding succeeds_def k3_has_migration_def
    using succeedsD [OF succeeds_kc(5) [OF that]] k3_ok(4) [unfolded k3_has_migration_def]
    by (simp add: k3_name_same_view)
  ultimately show ?thesis
    using assms unfolding k3_build_def k3_spec_def
    by (intro succeeds_if records_missing_kbind records_missing_kc k3_ok records_missing_kret
        succeeds_intros) (auto simp: same_view_plan)
qed

lemma succeeds_k5: "k5_spec c \<Longrightarrow> succeeds c k5_build"
  unfolding k5_build_def k5_spec_def
  by (intro succeeds_if succeeds_intros records_missing_kbind records_missing_get
      records_missing_kret final_ok) (auto simp: k5_vacuous_view)

lemma succeeds_k7: "k7_spec c \<Longrightarrow> succeeds c k7_build"
  unfolding k7_build_def k7_spec_def
  by (intro succeeds_if succeeds_intros records_missing_kbind records_missing_kc
      records_missing_kret) (auto simp: same_view_plan)

lemma succeeds_k8: "k8_spec age n r c \<Longrightarrow> succeeds c (k8_build age n r)"
  unfolding k8_build_def k8_spec_def by (intro succeeds_intros) auto

lemma succeeds_k9: "k9_spec c \<Longrightarrow> succeeds c k9_build"
  unfolding k9_build_def k9_spec_def
  by (intro succeeds_if succeeds_intros records_missing_kbind records_missing_kc records_missing_get
      records_missing_kret final_ok) (auto simp: same_view_plan)

lemma k4_closure_returns:
  "optional_facts_typed c \<Longrightarrow> \<exists>r. k4_closure c queue visited reach = Inr r"
proof (induction c queue visited reach rule: k4_closure.induct)
  case (2 c cur queue visited reach)
  have "\<exists>ds. fst (k4_dependents cur c) = Inr ds" if "has_fact c (subscript ''dependents'' cur)"
  proof -
    obtain vs where "set_fact c (subscript ''dependents'' cur) = Some vs"
      using 2(4) \<open>has_fact c _\<close> unfolding optional_facts_typed_def by blast
    then have "k4_dependents cur c = (Inr (stripped (kc_std c) vs), c)" by (simp add: k4_dependents_Inr)
    then show ?thesis by simp
  qed
  with 2 show ?case by auto
qed simp

lemma succeeds_k4:
  assumes "k4_spec c" "optional_facts_typed c" shows "succeeds c k4_build"
proof -
  have dep: "succeeds c (k4_dependents x)" if "set_fact c (subscript ''dependents'' x) \<noteq> None" for x
    unfolding k4_dependents_def using that by (intro succeeds_intros)
  have typed: "optional_facts_typed d" if "same_view c d" for d
    using assms(2) that by (simp add: optional_facts_typed_def has_fact_same_view fact_val_same_view)
  have close: "succeeds c (\<lambda>ctx. klift (k4_closure ctx q [] r) ctx)" for q r
    unfolding succeeds_def
  proof (intro conjI allI impI)
    show "records_missing (\<lambda>ctx. klift (k4_closure ctx q [] r) ctx)"
      by (rule klift_ok) (rule k4_closure_no_missing)
    show "\<exists>v e. klift (k4_closure d q [] r) d = (Inr v, e)" if "same_view c d" for d
      using k4_closure_returns [OF typed [OF that], of q "[]" r] by (auto simp: klift_def)
  qed
  have reach: "succeeds c k4_reach" if "\<forall>svc \<in> set (k4_targets c).
      set_fact c (subscript ''dependents'' svc) \<noteq> None"
  proof -
    have "succeeds c (k4_reachable (k4_targets c))" unfolding k4_reachable_def
      by (intro succeeds_kbind succeeds_kmap close dep) (use that in blast)
    then show ?thesis unfolding succeeds_def k4_reach_def
      using k4_reach_ok(1) [unfolded k4_reach_def] by (simp add: same_view_k4)
  qed
  show ?thesis
    using assms(1) unfolding k4_build_def k4_spec_def k4_reach_def [symmetric, abs_def]
    by (intro succeeds_if succeeds_intros reach records_missing_kbind records_missing_get
        records_missing_kret final_ok k4_reach_ok) (auto simp: same_view_k4)
qed

lemma proof_invariants_succeed:
  assumes "\<forall>spec \<in> set proof_specs. spec c" "optional_facts_typed c"
  shows "\<forall>iv \<in> set PROOF_INVARIANTS. succeeds c (inv_build iv)"
proof -
  have "k1_spec c" "k2_spec c" "k3_spec c" "k4_spec c" "k5_spec c" "k7_spec c"
    "k8_spec DEFAULT_MAX_EVIDENCE_AGE DEFAULT_MIN_PROBE_SAMPLES DEFAULT_MIRROR_DROP_CEILING c" "k9_spec c"
    using assms(1) by (auto simp: proof_specs_def)
  with assms(2) show ?thesis
    by (simp add: PROOF_INVARIANTS_def K1ReplicaFloor_def K2NamespaceScope_def
        K3MigrationBoundary_def K4BlastContainment_def K5SingleWriter_def K7MutationBudget_def
        K8EvidenceSufficiency_def K9Reversibility_def succeeds_k1 succeeds_k2 succeeds_k3
        succeeds_k4 succeeds_k5 succeeds_k7 succeeds_k8 succeeds_k9)
qed

lemma verify_loop_safe:
  assumes "solver_sound (ve_solver env)" "solver_decides (ve_solver env)"
    and "\<forall>k. remaining_ms env k > 0"
    and "list_all2 covers ivs specs" "\<forall>spec \<in> set specs. spec c0"
    and "\<forall>iv \<in> set ivs. succeeds c0 (inv_build iv)"
    and "ctx_pinned ctx" "same_view c0 ctx" "kc_missing_accessed ctx = []"
  shows "\<exists>v. verify_loop env ivs n results [] ctx = Inr v \<and> verdict v = PASS \<and> kv_missing_facts v = []"
  using assms(4-)
proof (induction ivs arbitrary: specs n results ctx)
  case Nil
  then show ?case by (auto simp: Let_def verdict_of_def all_missing_def missing_facts_def uniq_def)
next
  case (Cons iv ivs)
  from Cons.prems(1) obtain spec specs' where specs: "specs = spec # specs'"
    and cov: "covers iv spec" and covs: "list_all2 covers ivs specs'"
    by (auto simp: list_all2_Cons1)
  have set_specs: "set specs = insert spec (set specs')" by (simp add: specs)
  then have s: "spec c0" and ss: "\<forall>spec \<in> set specs'. spec c0" using Cons.prems(2) by auto
  have "succeeds c0 (inv_build iv)" using Cons.prems(3) by simp
  then obtain f ctx1 where b: "inv_build iv ctx = (Inr f, ctx1)"
    using succeedsD Cons.prems(5) by blast
  note pin = covers_pinned [OF cov b Cons.prems(4,5)]
  have time: "\<not> remaining_ms env n \<le> 0" using assms(3) by (simp add: not_le)
  have unsat: "ve_solver env (max 1 (remaining_ms env n)) (kc_assertions ctx1 @ [ZNot f]) = Unsat"
  proof (cases "ve_solver env (max 1 (remaining_ms env n)) (kc_assertions ctx1 @ [ZNot f])")
    case (Sat m)
    with covers_sat [OF cov Cons.prems(4,5) b assms(1)] s show ?thesis by blast
  next
    case (Unknown u)
    with assms(2) show ?thesis by (simp add: solver_decides_def)
  qed
  have "kc_missing_accessed ctx1 = []" using covers_missing(3) [OF cov b] Cons.prems(6) by simp
  from Cons.IH [OF covs ss _ pin this] Cons.prems(3) b time unsat show ?case by simp
qed

section \<open>Properties of the kernel\<close>

lemma verify_loop_plan:
  "verify_loop env ivs n results missing ctx = Inr v \<Longrightarrow> kv_plan_id v = plan_id (ve_plan env)"
  by (induction env ivs n results missing ctx rule: verify_loop.induct)
    (auto simp: Let_def verdict_of_def
      split: if_splits sum.splits prod.splits KernelExc.splits CheckResult.splits)

lemma verify_pass_safe:
  assumes "solver_sound solver"
    and run: "verify std solver perf secs None inc now p facts = Inr v" and "verdict v = PASS"
  shows "plan_safe std p facts"
proof -
  have "(\<forall>spec \<in> set proof_specs. spec (kernel_context std p facts)) \<and> ([] :: string list) = [] \<and>
      kc_missing_accessed (kernel_context std p facts) = []"
    by (rule verify_loop_pass [OF _ proof_invariants_cover ctx_pinned_init same_view_refl
        run [unfolded verify_def option.case] assms(3)]) (simp add: assms(1))
  then show ?thesis unfolding plan_safe_def by blast
qed

text \<open>C3: a PASS is only given when every one of the eight PROOF invariants holds of the plan and
  the facts, and no fact was missing, whatever the clock and the (sound) solver do.\<close>

theorem kernel_pass_sound:
  assumes "solver_sound solver"
    and "verify std solver perf secs None inc now p facts = Inr v" and "verdict v = PASS"
  shows "plan_safe std p facts \<and> kv_missing_facts v = [] \<and> kv_plan_id v = plan_id p"
proof (intro conjI)
  show "plan_safe std p facts" by (rule verify_pass_safe [OF assms])
  show "kv_missing_facts v = []"
    using verify_loop_missing assms(2,3) unfolding verify_def by fastforce
  show "kv_plan_id v = plan_id p" using verify_loop_plan assms(2) unfolding verify_def by fastforce
qed

definition sample_std :: PyStd where
  "sample_std = \<lparr>std_fromisoformat = (\<lambda>s. None), std_isoformat = (\<lambda>t. ''2026-01-01T00:00:00''),
     std_repr = (\<lambda>v. ''repr''), std_fixed = (\<lambda>n r. ''0.0'')\<rparr>"

definition sample_fact :: "string \<Rightarrow> PyVal \<Rightarrow> Fact" where
  "sample_fact n v = \<lparr>fact_name = n, fact_value = v, fact_source = SrcConfig, fact_observed_at = 0\<rparr>"

definition sample_plan :: "ActionType \<Rightarrow> string \<Rightarrow> ResourceRef list \<Rightarrow> RemediationPlan" where
  "sample_plan act w refs = RemediationPlan ''plan-1'' 0 act
     \<lparr>workload = w, target_commit = None, replica_delta = None, flag_name = None,
      config_key = None, config_value = None\<rparr> refs [] None ''why'' Planner None"

definition sample_facts :: "Fact list" where
  "sample_facts = [
     sample_fact ''authorized_namespace'' (PStr ''ust-prod''),
     sample_fact ''plan_target_namespaces'' (PColl [PStr ''ust-prod'']),
     sample_fact ''evidence_age_seconds'' (PFloat 10),
     sample_fact ''probe_sample_count'' (PInt 60),
     sample_fact ''max_drop_ratio'' (PFloat (1 / 100))]"

lemma sample_run:
  "case verify sample_std pin_solver (\<lambda>n. 0) 5 None None 0 (sample_plan NO_ACTION [] []) sample_facts of
     Inr v \<Rightarrow> verdict v = PASS | Inl e \<Rightarrow> False"
  by code_simp

lemma kernel_pass_sound_witness:
  "plan_safe sample_std (sample_plan NO_ACTION [] []) sample_facts"
proof -
  obtain v where "verify sample_std pin_solver (\<lambda>n. 0) 5 None None 0 (sample_plan NO_ACTION [] [])
      sample_facts = Inr v" "verdict v = PASS"
    using sample_run by (auto split: sum.splits)
  from kernel_pass_sound [OF pin_solver_sound this] show ?thesis by simp
qed

text \<open>C5: a VETO names a violated invariant: the last result is the only one not proved, the
  invariants before it in canonical order hold, the violated one does not, and nothing was missing.\<close>

theorem kernel_veto_sound:
  assumes "solver_sound solver"
    and "verify std solver perf secs None inc now p facts = Inr v" and "verdict v = VETO"
  shows "\<exists>k rs core. k < length PROOF_INVARIANTS \<and>
    (\<forall>i < k. (proof_specs ! i) (kernel_context std p facts)) \<and>
    \<not> (proof_specs ! k) (kernel_context std p facts) \<and>
    list_all (\<lambda>r. ir_satisfied r = Some True) rs \<and> length rs = k \<and>
    kv_results v = rs @ [result_of (PROOF_INVARIANTS ! k) (Some False) (Some core) (human_reason v)] \<and>
    kv_missing_facts v = []"
proof -
  let ?c = "kernel_context std p facts"
  note verify_loop_veto [OF _ proof_invariants_cover ctx_pinned_init same_view_refl
      assms(2) [unfolded verify_def option.case] assms(3)]
  then obtain pre spec post iv rs core where
    1: "proof_specs = pre @ spec # post" "\<forall>s \<in> set pre. s ?c" "\<not> spec ?c"
      "iv = PROOF_INVARIANTS ! length pre" "length rs = length pre"
      "list_all (\<lambda>r. ir_satisfied r = Some True) rs" "kv_missing_facts v = []"
      "kv_results v = rs @ [result_of iv (Some False) (Some core) (human_reason v)]"
    using assms(1) by auto
  have "length pre < length PROOF_INVARIANTS"
    using list_all2_lengthD [OF proof_invariants_cover] arg_cong [OF 1(1), of length] by simp
  moreover have "\<forall>i < length pre. (proof_specs ! i) ?c" by (metis 1(1,2) nth_append nth_mem)
  moreover have "\<not> (proof_specs ! length pre) ?c" by (metis 1(1,3) nth_append_length)
  ultimately show ?thesis using 1 by blast
qed

definition sample_bad_facts :: "Fact list" where
  "sample_bad_facts =
     sample_fact ''authorized_namespace'' (PStr ''ust-twin-1'') # tl sample_facts"

lemma sample_veto_run:
  "case verify sample_std pin_solver (\<lambda>n. 0) 5 None None 0 (sample_plan NO_ACTION [] []) sample_bad_facts of
     Inr v \<Rightarrow> verdict v = VETO | Inl e \<Rightarrow> False"
  by code_simp

lemma kernel_veto_sound_witness:
  "\<exists>k < length PROOF_INVARIANTS. \<not> (proof_specs ! k)
     (kernel_context sample_std (sample_plan NO_ACTION [] []) sample_bad_facts)"
proof -
  obtain v where "verify sample_std pin_solver (\<lambda>n. 0) 5 None None 0 (sample_plan NO_ACTION [] [])
      sample_bad_facts = Inr v" "verdict v = VETO"
    using sample_veto_run by (auto split: sum.splits)
  from kernel_veto_sound [OF pin_solver_sound this] show ?thesis by blast
qed

text \<open>A verdict that lists a missing fact is UNCERTAIN: neither a proof nor a veto is given on
  incomplete facts, even by an unsound solver.\<close>

theorem kernel_missing_uncertain:
  "verify std solver perf secs invs inc now p facts = Inr v \<Longrightarrow> kv_missing_facts v \<noteq> [] \<Longrightarrow>
   verdict v = UNCERTAIN"
  unfolding verify_def by (rule verify_loop_missing)

lemma sample_missing_run:
  "case verify sample_std pin_solver (\<lambda>n. 0) 5 None None 0 (sample_plan NO_ACTION [] []) [] of
     Inr v \<Rightarrow> kv_missing_facts v \<noteq> [] | Inl e \<Rightarrow> False"
  by code_simp

lemma kernel_missing_uncertain_witness:
  "\<exists>v. verify sample_std pin_solver (\<lambda>n. 0) 5 None None 0 (sample_plan NO_ACTION [] []) [] = Inr v \<and>
     verdict v = UNCERTAIN"
proof -
  obtain v where v: "verify sample_std pin_solver (\<lambda>n. 0) 5 None None 0 (sample_plan NO_ACTION [] []) []
      = Inr v" "kv_missing_facts v \<noteq> []"
    using sample_missing_run by (auto split: sum.splits)
  from kernel_missing_uncertain [OF this] v show ?thesis by blast
qed

text \<open>C6: a safe plan passes.  With a sound solver that decides every question, time left at
  every check and the optional facts well typed, \<open>verify\<close> returns, and returns PASS.\<close>

theorem kernel_safe_passes:
  assumes "solver_sound solver" "solver_decides solver"
    and "\<forall>k. (perf k - perf 0) * 1000 + 1 \<le> of_int (py_int (secs * 1000))"
    and "plan_safe std p facts" "optional_facts_typed (kernel_context std p facts)"
  shows "\<exists>v. verify std solver perf secs None inc now p facts = Inr v \<and> verdict v = PASS"
proof -
  let ?c = "kernel_context std p facts"
  have time: "0 < py_int (of_int (py_int (secs * 1000)) - (perf k - perf 0) * 1000)" for k
  proof -
    have "1 \<le> of_int (py_int (secs * 1000)) - (perf k - perf 0) * 1000"
      using assms(3) by (simp add: algebra_simps)
    then show ?thesis by (simp add: py_int_def le_floor_iff)
  qed
  have safe: "\<forall>spec \<in> set proof_specs. spec ?c" using assms(4) by (simp add: plan_safe_def)
  have "kc_missing_accessed ?c = []" by (simp add: kernel_context_def)
  let ?env = "\<lparr>ve_perf = perf, ve_solver = solver, ve_timeout_ms = py_int (secs * 1000), ve_plan = p,
     ve_incident_id = (case inc of None \<Rightarrow> ''inc_kernel_verify''
       | Some i \<Rightarrow> if i = [] then ''inc_kernel_verify'' else i), ve_evaluated_at = now\<rparr>"
  have "\<forall>k. remaining_ms ?env k > 0" using time by (simp add: remaining_ms_def elapsed_ms_def)
  from verify_loop_safe [OF _ _ this proof_invariants_cover safe
      proof_invariants_succeed [OF safe assms(5)] ctx_pinned_init same_view_refl \<open>kc_missing_accessed ?c = []\<close>,
      of 1 "[]"] assms(1,2)
  show ?thesis unfolding verify_def option.case by auto
qed

lemma sample_plan_safe: "plan_safe sample_std (sample_plan NO_ACTION [] []) sample_facts"
proof -
  obtain v where "verify sample_std pin_solver (\<lambda>n. 0) 5 None None 0 (sample_plan NO_ACTION [] [])
      sample_facts = Inr v" "verdict v = PASS"
    using sample_run by (auto split: sum.splits)
  from verify_pass_safe [OF pin_solver_sound this] show ?thesis .
qed

lemma no_subscript_fact:
  assumes "\<forall>f \<in> set facts. CHR ''['' \<notin> set (fact_name f) \<and> (\<forall>d. fact_value f \<noteq> PDict d)"
    and "CHR ''['' \<in> set n"
  shows "\<not> has_fact (kernel_context std p facts) n"
proof -
  have look: "f \<in> set facts \<and> fact_name f = m"
    if "map_of (kc_facts (kernel_context std p facts)) m = Some f" for m f
    using that by (auto simp: kernel_context_def map_of_dict_of dest!: map_of_SomeD)
  have "map_of (kc_facts (kernel_context std p facts)) n = None"
    using look assms by (metis option.exhaust)
  moreover have "nested_fact (kernel_context std p facts) n = None"
    using look assms(1) by (fastforce simp: nested_fact_def split: option.splits PyVal.splits)
  ultimately show ?thesis by (simp add: has_fact_def lookup_fact_def)
qed

lemma sample_optional_facts:
  "optional_facts_typed (kernel_context sample_std (sample_plan NO_ACTION [] []) sample_facts)"
proof -
  have "\<not> has_fact (kernel_context sample_std (sample_plan NO_ACTION [] []) sample_facts) n"
    if "CHR ''['' \<in> set n" for n
    using that by (rule no_subscript_fact [rotated]) (simp add: sample_facts_def sample_fact_def)
  then show ?thesis unfolding optional_facts_typed_def by (simp add: subscript_def)
qed

lemma kernel_safe_passes_witness:
  "\<exists>v. verify sample_std ideal_solver (\<lambda>n. 0) 5 None None 0 (sample_plan NO_ACTION [] []) sample_facts
     = Inr v \<and> verdict v = PASS"
  by (rule kernel_safe_passes [OF ideal_solver_sound ideal_solver_decides _ sample_plan_safe
        sample_optional_facts]) (simp add: py_int_def)

end
