(* ===== verification/Graph.thy ===== *)
theory Graph
  imports Contracts
begin

text \<open>
  \<^verbatim>\<open>graph/service_graph.py\<close> and \<^verbatim>\<open>graph/calculator.py\<close>: the declared service graph, its validation
  (Kahn's algorithm), the closure of dependents, request shares, the comparison with observed
  traffic, and the blast radius.  An edge \<open>(s, t)\<close> says that \<open>s\<close> calls \<open>t\<close>.  A dict is an
  association list, a set a list without a meaning of its order.  Reading the YAML file and its
  schema validation are not modelled: construction starts from the parsed manifest.
\<close>

section \<open>State and construction\<close>

datatype GraphExc =
    UnknownService string
  | EdgeSourceUndeclared string
  | EdgeTargetUndeclared string
  | CyclicDependency int int
  | GraphKeyError

record ServiceGraph =
  sg_nodes :: "string list"
  sg_edges :: "(string \<times> string) list"
  sg_dependencies :: "(string \<times> string list) list"
  sg_dependents :: "(string \<times> string list) list"
  sg_request_shares :: "(string \<times> rat) list"

record ServiceManifest =
  sm_services :: "string list"
  sm_edges :: "(string \<times> string) list"

definition mk_graph :: "string list \<Rightarrow> (string \<times> string) list \<Rightarrow> (string \<times> rat) list \<Rightarrow> ServiceGraph" where
  "mk_graph nodes edges shares =
     (let ns = sorted_set nodes; es = uniq edges;
          ok = filter (\<lambda>(s, d). s \<in> set ns \<and> d \<in> set ns) es in
      \<lparr>sg_nodes = ns, sg_edges = es,
       sg_dependencies = map (\<lambda>n. (n, map snd (filter (\<lambda>(s, d). s = n) ok))) ns,
       sg_dependents = map (\<lambda>n. (n, map fst (filter (\<lambda>(s, d). d = n) ok))) ns,
       sg_request_shares = shares\<rparr>)"

section \<open>Kahn's algorithm\<close>

text \<open>The inner loop: decrement each neighbour, append it to the queue when it reaches zero; a
  neighbour without an entry is a \<open>KeyError\<close>.\<close>

fun relax :: "string list \<Rightarrow> (string \<times> int) list \<Rightarrow> string list \<Rightarrow>
    ((string \<times> int) list \<times> string list) option" where
  "relax [] deg queue = Some (deg, queue)"
| "relax (n # ns) deg queue =
     (case map_of deg n of
        None \<Rightarrow> None
      | Some d \<Rightarrow> relax ns (dict_put n (d - 1) deg) (if d - 1 = 0 then queue @ [n] else queue))"

definition deg_sum :: "(string \<times> int) list \<Rightarrow> nat" where
  "deg_sum deg = sum_list (map (\<lambda>(n, d). nat d) deg)"

lemma deg_sum_put:
  "map_of deg n = Some d \<Longrightarrow> deg_sum (dict_put n (d - 1) deg) + (if d > 0 then 1 else 0) = deg_sum deg"
  by (induction deg) (auto simp: deg_sum_def split: if_splits)

lemma relax_measure:
  "relax ns deg queue = Some (deg', queue') \<Longrightarrow>
   deg_sum deg' + length queue' \<le> deg_sum deg + length queue"
proof (induction ns deg queue rule: relax.induct)
  case (2 n ns deg queue)
  then obtain d where d: "map_of deg n = Some d" by (auto split: option.splits)
  with 2 have "deg_sum deg' + length queue' \<le>
      deg_sum (dict_put n (d - 1) deg) + length (if d - 1 = 0 then queue @ [n] else queue)" by auto
  also have "\<dots> \<le> deg_sum deg + length queue" using deg_sum_put [OF d] by auto
  finally show ?case .
qed simp

text \<open>The outer loop; the list of popped nodes stands for \<open>visited_count\<close>, its length.\<close>

function kahn :: "(string \<times> string list) list \<Rightarrow> (string \<times> int) list \<Rightarrow> string list \<Rightarrow>
    string list \<Rightarrow> string list option" where
  "kahn adj deg [] popped = Some popped"
| "kahn adj deg (node # queue) popped =
     (case map_of adj node of
        None \<Rightarrow> None
      | Some nbrs \<Rightarrow>
          (case relax nbrs deg queue of
             None \<Rightarrow> None
           | Some (deg', queue') \<Rightarrow> kahn adj deg' queue' (popped @ [node])))"
  by pat_completeness auto
termination
  by (relation "measure (\<lambda>(adj, deg, queue, popped). deg_sum deg + length queue)")
    (auto dest: relax_measure)

definition in_degrees :: "string list \<Rightarrow> (string \<times> string) list \<Rightarrow> (string \<times> int) list" where
  "in_degrees names edges =
     map (\<lambda>n. (n, int (length (filter (\<lambda>(s, d). d = n) edges)))) (uniq names)"

definition adjacency_of :: "string list \<Rightarrow> (string \<times> string) list \<Rightarrow> (string \<times> string list) list" where
  "adjacency_of names edges = map (\<lambda>n. (n, map snd (filter (\<lambda>(s, d). s = n) edges))) (uniq names)"

fun check_edges :: "string list \<Rightarrow> (string \<times> string) list \<Rightarrow> GraphExc + unit" where
  "check_edges names [] = Inr ()"
| "check_edges names ((s, t) # es) =
     (if s \<notin> set names then Inl (EdgeSourceUndeclared s)
      else if t \<notin> set names then Inl (EdgeTargetUndeclared t)
      else check_edges names es)"

definition from_manifest :: "ServiceManifest \<Rightarrow> GraphExc + ServiceGraph" where
  "from_manifest m =
     (let names = sm_services m; edges = sm_edges m in
      bindE (check_edges names edges) (\<lambda>_.
        let deg = in_degrees names edges in
        (case kahn (adjacency_of names edges) deg (map fst (filter (\<lambda>(n, d). d = 0) deg)) [] of
           None \<Rightarrow> Inl GraphKeyError
         | Some popped \<Rightarrow>
             (if length popped \<noteq> length names
              then Inl (CyclicDependency (int (length names)) (int (length popped)))
              else Inr (mk_graph names edges [])))))"

subsection \<open>What the loop computes\<close>

definition open_edges :: "(string \<times> string) list \<Rightarrow> string list \<Rightarrow> string \<Rightarrow> nat" where
  "open_edges edges popped n = length (filter (\<lambda>(s, d). d = n \<and> s \<notin> set popped) edges)"

lemma open_edges_0: "open_edges edges popped n = 0 \<longleftrightarrow> (\<forall>s. (s, n) \<in> set edges \<longrightarrow> s \<in> set popped)"
  by (auto simp: open_edges_def filter_empty_conv)

lemma open_edges_step:
  "x \<notin> set popped \<Longrightarrow> open_edges edges popped n =
     open_edges edges (popped @ [x]) n + count_list (map snd (filter (\<lambda>(s, d). s = x) edges)) n"
  by (induction edges) (auto simp: open_edges_def)

lemma relax_result:
  assumes "\<forall>n \<in> set ns. \<exists>d. map_of deg n = Some d \<and> int (count_list ns n) \<le> d"
  shows "\<exists>deg' r. relax ns deg queue = Some (deg', queue @ r) \<and> distinct r \<and>
     set r = {n \<in> set ns. map_of deg n = Some (int (count_list ns n))} \<and>
     (\<forall>n. map_of deg' n = map_option (\<lambda>d. d - int (count_list ns n)) (map_of deg n))"
  using assms
proof (induction ns arbitrary: deg queue)
  case Nil
  then show ?case by (auto simp: option.map_id0 [unfolded id_def] option.map_ident)
next
  case (Cons x ns)
  then obtain d where d: "map_of deg x = Some d" "int (count_list (x # ns) x) \<le> d" by auto
  let ?deg = "dict_put x (d - 1) deg"
  let ?queue = "if d - 1 = 0 then queue @ [x] else queue"
  have "\<forall>n \<in> set ns. \<exists>d'. map_of ?deg n = Some d' \<and> int (count_list ns n) \<le> d'"
    using Cons.prems d by (auto split: if_splits)
  from Cons.IH [OF this, of ?queue] obtain deg' r where
    IH: "relax ns ?deg ?queue = Some (deg', ?queue @ r)" "distinct r"
      "set r = {n \<in> set ns. map_of ?deg n = Some (int (count_list ns n))}"
      "\<forall>n. map_of deg' n = map_option (\<lambda>d. d - int (count_list ns n)) (map_of ?deg n)" by blast
  have zero: "x \<notin> set ns" "x \<notin> set r" if "d - 1 = 0"
  proof -
    have "count_list ns x = 0" using d(2) that by simp
    then show "x \<notin> set ns" by (simp add: count_list_0_iff)
    then show "x \<notin> set r" using IH(3) by auto
  qed
  let ?r = "if d - 1 = 0 then x # r else r"
  have "relax (x # ns) deg queue = Some (deg', queue @ ?r)" using IH(1) d(1) by simp
  moreover have "distinct ?r" using IH(2) zero by auto
  moreover have "set ?r = {n \<in> set (x # ns). map_of deg n = Some (int (count_list (x # ns) n))}"
  proof (intro set_eqI iffI)
    fix n assume "n \<in> set ?r"
    then show "n \<in> {n \<in> set (x # ns). map_of deg n = Some (int (count_list (x # ns) n))}"
      using IH(3) d zero by (cases "n = x") (auto simp: count_list_0_iff split: if_splits)
  next
    fix n assume "n \<in> {n \<in> set (x # ns). map_of deg n = Some (int (count_list (x # ns) n))}"
    then show "n \<in> set ?r"
      using IH(3) d by (cases "n = x"; cases "x \<in> set ns") (auto simp: count_list_0_iff)
  qed
  moreover have "\<forall>n. map_of deg' n = map_option (\<lambda>d. d - int (count_list (x # ns) n)) (map_of deg n)"
    using IH(4) d(1) by auto
  ultimately show ?case by blast
qed

text \<open>The state of the loop: who is popped, who waits, and in which order they came.\<close>

definition kahn_inv :: "string list \<Rightarrow> (string \<times> string) list \<Rightarrow> (string \<times> int) list \<Rightarrow>
    string list \<Rightarrow> string list \<Rightarrow> bool" where
  "kahn_inv names edges deg queue popped \<longleftrightarrow>
     distinct (popped @ queue) \<and> set (popped @ queue) \<subseteq> set names \<and>
     (\<forall>n \<in> set names. map_of deg n = Some (int (open_edges edges popped n))) \<and>
     (\<forall>n \<in> set names. n \<in> set (popped @ queue) \<longleftrightarrow> open_edges edges popped n = 0) \<and>
     (\<forall>i < length popped. \<forall>s. (s, popped ! i) \<in> set edges \<longrightarrow> s \<in> set (take i popped))"

lemma kahn_inv_step:
  assumes inv: "kahn_inv names edges deg (x # queue) popped" and edges: "set edges \<subseteq> set names \<times> set names"
  defines "nbrs \<equiv> map snd (filter (\<lambda>(s, d). s = x) edges)"
  shows "\<exists>deg' r. relax nbrs deg queue = Some (deg', queue @ r) \<and>
    kahn_inv names edges deg' (queue @ r) (popped @ [x])"
proof -
  have dist: "distinct (popped @ x # queue)" and sub: "set (popped @ x # queue) \<subseteq> set names"
    and deg: "\<And>n. n \<in> set names \<Longrightarrow> map_of deg n = Some (int (open_edges edges popped n))"
    and waits: "\<And>n. n \<in> set names \<Longrightarrow> n \<in> set (popped @ x # queue) \<longleftrightarrow> open_edges edges popped n = 0"
    and topo: "\<forall>i < length popped. \<forall>s. (s, popped ! i) \<in> set edges \<longrightarrow> s \<in> set (take i popped)"
    using inv by (auto simp: kahn_inv_def)
  have nbrs: "set nbrs \<subseteq> set names" using edges by (auto simp: nbrs_def)
  have step: "open_edges edges popped n = open_edges edges (popped @ [x]) n + count_list nbrs n" for n
    unfolding nbrs_def by (rule open_edges_step) (use dist in auto)
  have "\<forall>n \<in> set nbrs. \<exists>d. map_of deg n = Some d \<and> int (count_list nbrs n) \<le> d"
    using deg nbrs step by auto
  from relax_result [OF this, of queue] obtain deg' r where
    1: "relax nbrs deg queue = Some (deg', queue @ r)" "distinct r"
      "set r = {n \<in> set nbrs. map_of deg n = Some (int (count_list nbrs n))}"
      "\<forall>n. map_of deg' n = map_option (\<lambda>d. d - int (count_list nbrs n)) (map_of deg n)" by blast
  have r: "n \<in> set r \<longleftrightarrow> n \<in> set nbrs \<and> open_edges edges (popped @ [x]) n = 0" for n
    using 1(3) deg nbrs step by auto
  have pos: "n \<in> set nbrs \<Longrightarrow> 0 < open_edges edges popped n" for n
    using step [of n] by (simp add: count_list_0_iff neq0_conv [symmetric] del: neq0_conv)
  have "kahn_inv names edges deg' (queue @ r) (popped @ [x])"
    unfolding kahn_inv_def
  proof (intro conjI ballI)
    have "set r \<inter> set (popped @ x # queue) = {}"
      using pos r waits nbrs by fastforce
    then show "distinct ((popped @ [x]) @ queue @ r)" using dist 1(2) by auto
    show "set ((popped @ [x]) @ queue @ r) \<subseteq> set names" using sub r nbrs by auto
    fix n assume n: "n \<in> set names"
    show "map_of deg' n = Some (int (open_edges edges (popped @ [x]) n))"
      using 1(4) deg [OF n] step [of n] by simp
    show "n \<in> set ((popped @ [x]) @ queue @ r) \<longleftrightarrow> open_edges edges (popped @ [x]) n = 0"
      using waits [OF n] step [of n] r [of n] count_list_0_iff [of nbrs n] by auto
  next
    have "x \<in> set names" using sub by simp
    then have "open_edges edges popped x = 0" using waits [of x] by simp
    then have "\<forall>s. (s, x) \<in> set edges \<longrightarrow> s \<in> set popped" by (simp add: open_edges_0)
    with topo show "\<forall>i < length (popped @ [x]). \<forall>s. (s, (popped @ [x]) ! i) \<in> set edges \<longrightarrow>
        s \<in> set (take i (popped @ [x]))"
      by (auto simp: nth_append less_Suc_eq)
  qed
  with 1(1) show ?thesis by blast
qed

lemma map_of_map_Pair: "map_of (map (\<lambda>n. (n, f n)) ns) x = (if x \<in> set ns then Some (f x) else None)"
  by (induction ns) auto

lemma kahn_result:
  assumes "kahn_inv names edges deg queue popped" "set edges \<subseteq> set names \<times> set names"
  shows "\<exists>popped' deg'. kahn (adjacency_of names edges) deg queue popped = Some popped' \<and>
    kahn_inv names edges deg' [] popped'"
  using assms(1)
proof (induction "adjacency_of names edges" deg queue popped rule: kahn.induct)
  case (2 deg x queue popped)
  from kahn_inv_step [OF 2(2) assms(2)] obtain deg' r where
    r: "relax (map snd (filter (\<lambda>(s, d). s = x) edges)) deg queue = Some (deg', queue @ r)"
      "kahn_inv names edges deg' (queue @ r) (popped @ [x])" by blast
  have adj: "map_of (adjacency_of names edges) x = Some (map snd (filter (\<lambda>(s, d). s = x) edges))"
    using 2(2) by (simp add: adjacency_of_def map_of_map_Pair kahn_inv_def)
  from 2(1) [OF adj r(1) refl r(2)] adj r(1) show ?case by simp
qed auto

lemma kahn_inv_start:
  "kahn_inv names edges (in_degrees names edges)
     (map fst (filter (\<lambda>(n, d). d = 0) (in_degrees names edges))) []"
proof -
  have "map fst (filter (\<lambda>(n, d). d = 0) (map (\<lambda>n. (n, f n)) ns)) = filter (\<lambda>n. f n = 0) ns"
    for f :: "string \<Rightarrow> int" and ns by (induction ns) auto
  then show ?thesis
    by (auto simp: kahn_inv_def in_degrees_def map_of_map_Pair open_edges_def)
qed

lemma kahn_complete_acyclic:
  assumes "kahn_inv names edges deg [] popped" "set popped = set names" "set edges \<subseteq> set names \<times> set names"
  shows "acyclic (set edges)"
proof -
  define pos where "pos t = length (takeWhile (\<lambda>x. x \<noteq> t) popped)" for t
  have dist: "distinct popped" using assms(1) by (simp add: kahn_inv_def)
  have pos: "pos t < length popped \<and> popped ! pos t = t" if "t \<in> set popped" for t
  proof -
    have "pos t < length popped" unfolding pos_def using that
      by (metis (mono_tags, lifting) length_takeWhile_le nat_less_le set_takeWhileD takeWhile_eq_take take_all order_refl)
    then show ?thesis using nth_length_takeWhile [of "\<lambda>x. x \<noteq> t" popped] by (auto simp: pos_def)
  qed
  have "pos s < pos t" if "(s, t) \<in> set edges" for s t
  proof -
    have t: "t \<in> set popped" "s \<in> set popped" using that assms(2,3) by auto
    have "s \<in> set (take (pos t) popped)"
      using assms(1) pos [OF t(1)] that unfolding kahn_inv_def by metis
    then obtain j where j: "j < pos t" "popped ! j = s" "j < length popped"
      by (auto simp: in_set_conv_nth)
    then have "pos s = j" using pos [OF t(2)] nth_eq_iff_index_eq [OF dist, of "pos s" j] by auto
    with j show ?thesis by simp
  qed
  then have "set edges \<subseteq> measure pos" by auto
  then show ?thesis using wf_acyclic wf_measure wf_subset by blast
qed

lemma kahn_acyclic_complete:
  assumes "kahn_inv names edges deg [] popped" "acyclic (set edges)" "set edges \<subseteq> set names \<times> set names"
  shows "set popped = set names"
proof (rule ccontr)
  assume "set popped \<noteq> set names"
  with assms(1) obtain n0 where n0: "n0 \<in> set names - set popped" by (auto simp: kahn_inv_def)
  have "wf (set edges)" using assms(2) by (intro finite_acyclic_wf) auto
  then obtain n where n: "n \<in> set names - set popped"
    and min: "\<And>s. (s, n) \<in> set edges \<Longrightarrow> s \<notin> set names - set popped"
    using n0 by (rule wfE_min) blast
  have "open_edges edges popped n \<noteq> 0" using n assms(1) by (auto simp: kahn_inv_def)
  then obtain s where "(s, n) \<in> set edges" "s \<notin> set popped" by (auto simp: open_edges_0)
  with min assms(3) show False by auto
qed

lemma check_edges_Inr: "check_edges names es = Inr u \<longleftrightarrow> set es \<subseteq> set names \<times> set names"
  by (induction names es rule: check_edges.induct) auto

lemma from_manifest_cases:
  assumes "set (sm_edges m) \<subseteq> set (sm_services m) \<times> set (sm_services m)"
  obtains popped deg where "kahn_inv (sm_services m) (sm_edges m) deg [] popped"
    "from_manifest m = (if length popped \<noteq> length (sm_services m)
       then Inl (CyclicDependency (int (length (sm_services m))) (int (length popped)))
       else Inr (mk_graph (sm_services m) (sm_edges m) []))"
proof -
  from kahn_result [OF kahn_inv_start assms] obtain popped deg where
    "kahn (adjacency_of (sm_services m) (sm_edges m)) (in_degrees (sm_services m) (sm_edges m))
       (map fst (filter (\<lambda>(n, d). d = 0) (in_degrees (sm_services m) (sm_edges m)))) [] = Some popped"
    and inv: "kahn_inv (sm_services m) (sm_edges m) deg [] popped" by blast
  moreover have "check_edges (sm_services m) (sm_edges m) = Inr ()" using assms by (simp add: check_edges_Inr)
  ultimately have "from_manifest m = (if length popped \<noteq> length (sm_services m)
       then Inl (CyclicDependency (int (length (sm_services m))) (int (length popped)))
       else Inr (mk_graph (sm_services m) (sm_edges m) []))"
    by (simp add: from_manifest_def Let_def)
  with inv that show thesis by blast
qed

text \<open>C8: the manifest loader accepts exactly the acyclic graphs: it returns a graph if and only if
  every edge joins two declared services, no service is declared twice and no dependency cycle
  exists; it never fails on a missing dictionary key.\<close>

theorem from_manifest_iff_dag:
  "((\<exists>g. from_manifest m = Inr g) \<longleftrightarrow>
      set (sm_edges m) \<subseteq> set (sm_services m) \<times> set (sm_services m) \<and> distinct (sm_services m) \<and>
      acyclic (set (sm_edges m))) \<and>
   from_manifest m \<noteq> Inl GraphKeyError"
proof (cases "set (sm_edges m) \<subseteq> set (sm_services m) \<times> set (sm_services m)")
  case False
  then obtain e where e: "check_edges (sm_services m) (sm_edges m) = Inl e"
    using check_edges_Inr [of "sm_services m" "sm_edges m"]
    by (cases "check_edges (sm_services m) (sm_edges m)") auto
  have "check_edges names es \<noteq> Inl GraphKeyError" for names es
    by (induction names es rule: check_edges.induct) auto
  with e False show ?thesis by (auto simp: from_manifest_def)
next
  case True
  then obtain popped deg where inv: "kahn_inv (sm_services m) (sm_edges m) deg [] popped"
    and run: "from_manifest m = (if length popped \<noteq> length (sm_services m)
       then Inl (CyclicDependency (int (length (sm_services m))) (int (length popped)))
       else Inr (mk_graph (sm_services m) (sm_edges m) []))" by (rule from_manifest_cases)
  have dist: "distinct popped" and sub: "set popped \<subseteq> set (sm_services m)"
    using inv by (auto simp: kahn_inv_def)
  have "length popped = length (sm_services m) \<longleftrightarrow>
      set popped = set (sm_services m) \<and> distinct (sm_services m)"
    using dist sub by (metis card_distinct card_length card_mono card_subset_eq distinct_card
        finite_set order_antisym)
  moreover have "set popped = set (sm_services m) \<longleftrightarrow> acyclic (set (sm_edges m))"
    using kahn_complete_acyclic [OF inv _ True] kahn_acyclic_complete [OF inv _ True] by blast
  ultimately show ?thesis using run True by auto
qed

section \<open>Queries\<close>

definition immediate_dependents :: "ServiceGraph \<Rightarrow> string \<Rightarrow> GraphExc + string list" where
  "immediate_dependents g service =
     (case map_of (sg_dependents g) service of
        None \<Rightarrow> Inl (UnknownService service)
      | Some ds \<Rightarrow> Inr ds)"

definition reachable_set :: "ServiceGraph \<Rightarrow> string \<Rightarrow> GraphExc + string list" where
  "reachable_set g service =
     (case map_of (sg_dependents g) service of
        None \<Rightarrow> Inl (UnknownService service)
      | Some ds \<Rightarrow> Inr (closure_loop (sg_dependents g) ds []))"

definition DEFAULT_DEMO_REQUEST_SHARES :: "(string \<times> rat) list" where
  "DEFAULT_DEMO_REQUEST_SHARES = [(''edge-gateway'', 2 / 5), (''auth-service'', 3 / 10),
     (''data-service'', 1 / 5), (''worker'', 1 / 10)]"

definition request_share :: "ServiceGraph \<Rightarrow> string \<Rightarrow> rat" where
  "request_share g service =
     (if service \<notin> set (sg_nodes g) then 0
      else case map_of (sg_request_shares g) service of
        Some r \<Rightarrow> r
      | None \<Rightarrow>
          (case map_of DEFAULT_DEMO_REQUEST_SHARES service of
             Some r \<Rightarrow> r
           | None \<Rightarrow> 1 / of_nat (length (sg_nodes g))))"

definition set_request_shares :: "(string \<times> rat) list \<Rightarrow> ServiceGraph \<Rightarrow> ServiceGraph" where
  "set_request_shares shares g = g\<lparr>sg_request_shares := shares\<rparr>"

definition graph_snapshot :: "instant \<Rightarrow> ServiceGraph \<Rightarrow> DependencyGraphSnapshot" where
  "graph_snapshot now g = \<lparr>snap_nodes = sg_nodes g,
     snap_edges = map (\<lambda>(s, t). \<lparr>edge_source = s, edge_target = t\<rparr>) (sort (sg_edges g)),
     snap_observed_at = now\<rparr>"

subsection \<open>Comparison with observed traffic\<close>

record ObservedTraffic =
  ot_services :: "string list"
  ot_edges :: "(string \<times> string) list"
  ot_request_counts :: "(string \<times> rat) list"
  ot_total_requests :: rat

record CrossCheckReport =
  cc_ok :: bool
  cc_undeclared_services :: "string list"
  cc_undeclared_edges :: "(string \<times> string) list"
  cc_missing_services :: "string list"
  cc_missing_edges :: "(string \<times> string) list"

definition set_minus :: "'a list \<Rightarrow> 'a list \<Rightarrow> 'a list" where
  "set_minus xs ys = filter (\<lambda>x. x \<notin> set ys) (uniq xs)"

lemma set_set_minus [simp]: "set (set_minus xs ys) = set xs - set ys"
  by (auto simp: set_minus_def)

lemma set_minus_Nil [simp]: "set_minus xs ys = [] \<longleftrightarrow> set xs \<subseteq> set ys"
  by (metis Diff_eq_empty_iff set_empty set_set_minus)

text \<open>
  The report and the graph afterwards; \<open>Inl\<close> is the \<open>GraphDiscrepancyError\<close> with the same
  details.  The message is left out of the report.
\<close>

definition cross_check :: "ServiceGraph \<Rightarrow> ObservedTraffic \<Rightarrow> bool \<Rightarrow>
    (CrossCheckReport + CrossCheckReport) \<times> ServiceGraph" where
  "cross_check g observed raise_on_mismatch =
     (let undeclared_services = set_minus (ot_services observed) (sg_nodes g);
          undeclared_edges = set_minus (ot_edges observed) (sg_edges g);
          traffic = ot_total_requests observed > 0;
          missing_services = (if traffic then set_minus (sg_nodes g) (ot_services observed) else []);
          missing_edges = (if traffic then set_minus (sg_edges g) (ot_edges observed) else []);
          ok = undeclared_services = [] \<and> undeclared_edges = [] \<and> missing_services = [] \<and>
               missing_edges = [];
          report = \<lparr>cc_ok = ok, cc_undeclared_services = undeclared_services,
             cc_undeclared_edges = undeclared_edges, cc_missing_services = missing_services,
             cc_missing_edges = missing_edges\<rparr> in
      if \<not> ok then (if raise_on_mismatch then Inl report else Inr report, g)
      else if traffic then
        (Inr report, set_request_shares
          (map (\<lambda>svc. (svc, py_round 4
             ((case map_of (ot_request_counts observed) svc of Some c \<Rightarrow> c | None \<Rightarrow> 0)
              / ot_total_requests observed))) (sg_nodes g)) g)
      else (Inr report, g))"

section \<open>The dependency-graph interface\<close>

text \<open>
  What the blast-radius calculator and the fact extraction ask of a \<open>DependencyGraph\<close>: the closure
  of the immediate dependents, an error exactly for unknown services, and shares that are not
  negative.
\<close>

locale graph_provider =
  fixes wf_graph :: "'g \<Rightarrow> bool"
    and deps :: "'g \<Rightarrow> string \<Rightarrow> GraphExc + string list"
    and reach :: "'g \<Rightarrow> string \<Rightarrow> GraphExc + string list"
    and share :: "'g \<Rightarrow> string \<Rightarrow> rat"
  assumes reach_closure: "wf_graph g \<Longrightarrow> reach g s = Inr rs \<Longrightarrow>
      set rs = {t. (s, t) \<in> {(x, y). \<exists>ds. deps g x = Inr ds \<and> y \<in> set ds}\<^sup>+}"
    and reach_distinct: "wf_graph g \<Longrightarrow> reach g s = Inr rs \<Longrightarrow> distinct rs"
    and reach_unknown: "wf_graph g \<Longrightarrow> (\<exists>e. reach g s = Inl e) \<longleftrightarrow> (\<exists>e. deps g s = Inl e)"
    and share_nonneg: "wf_graph g \<Longrightarrow> 0 \<le> share g s"
begin

definition radius :: "'g \<Rightarrow> string list \<Rightarrow> string list \<Rightarrow> rat" where
  "radius g rs affected = min (max (sum_list (map (share g) (filter (\<lambda>s. s \<in> set affected) rs))) 0) 1"

lemma radius_unit: "0 \<le> radius g rs affected" "radius g rs affected \<le> 1"
  by (auto simp: radius_def)

lemma radius_mono:
  assumes "wf_graph g" "set affected \<subseteq> set affected'"
  shows "radius g rs affected \<le> radius g rs affected'"
proof -
  have "sum_list (map (share g) (filter (\<lambda>s. s \<in> set affected) rs))
      \<le> sum_list (map (share g) (filter (\<lambda>s. s \<in> set affected') rs))"
    using assms share_nonneg [OF assms(1)]
    by (induction rs) (auto intro: add_mono add_increasing subsetD)
  then show ?thesis unfolding radius_def by linarith
qed

lemma radius_0:
  assumes "set rs \<inter> set affected = {}" shows "radius g rs affected = 0"
proof -
  have "filter (\<lambda>s. s \<in> set affected) rs = []" using assms by (auto simp: filter_empty_conv)
  then show ?thesis by (simp add: radius_def)
qed

end

definition shares_ok :: "ServiceGraph \<Rightarrow> bool" where
  "shares_ok g \<longleftrightarrow> (\<forall>(n, r) \<in> set (sg_request_shares g). 0 \<le> r)"

lemma closure_loop_distinct: "distinct visited \<Longrightarrow> distinct (closure_loop d queue visited)"
  by (induction d queue visited rule: closure_loop.induct) auto

lemma reachable_closure:
  assumes "reachable_set g s = Inr rs"
  shows "set rs = {t. (s, t) \<in> {(x, y). \<exists>ds. immediate_dependents g x = Inr ds \<and> y \<in> set ds}\<^sup>+}"
proof -
  have "(\<exists>ds. immediate_dependents g x = Inr ds \<and> y \<in> set ds) \<longleftrightarrow> y \<in> set (succs (sg_dependents g) x)"
    for x y by (cases "map_of (sg_dependents g) x") (auto simp: immediate_dependents_def succs_def)
  then have "{(x, y). \<exists>ds. immediate_dependents g x = Inr ds \<and> y \<in> set ds} = edge_rel (sg_dependents g)"
    by (simp add: edge_rel_def)
  moreover obtain ds where "map_of (sg_dependents g) s = Some ds"
    "rs = closure_loop (sg_dependents g) (succs (sg_dependents g) s) []"
    using assms by (auto simp: reachable_set_def succs_def split: option.splits)
  ultimately show ?thesis by (simp add: closure_from_succs)
qed

lemma map_of_nonneg: "\<forall>(n, r) \<in> set d. 0 \<le> r \<Longrightarrow> map_of d s = Some r \<Longrightarrow> (0 :: rat) \<le> r"
  by (auto dest: map_of_SomeD)

lemma request_share_nonneg:
  assumes "shares_ok g" shows "0 \<le> request_share g s"
proof -
  have "\<forall>(n, r) \<in> set DEFAULT_DEMO_REQUEST_SHARES. 0 \<le> r"
    by (simp add: DEFAULT_DEMO_REQUEST_SHARES_def)
  note demo = map_of_nonneg [OF this]
  note own = map_of_nonneg [OF assms [unfolded shares_ok_def]]
  have unit: "(0 :: rat) \<le> 1 / of_nat n" for n by simp
  show ?thesis
  proof (cases "map_of (sg_request_shares g) s")
    case None
    show ?thesis
      using demo [of s] unit
      by (cases "map_of DEFAULT_DEMO_REQUEST_SHARES s") (simp_all add: request_share_def None)
  next
    case (Some r)
    then show ?thesis using own [OF Some] by (simp add: request_share_def)
  qed
qed

interpretation sdg: graph_provider shares_ok immediate_dependents reachable_set request_share
proof
  show "set rs = {t. (s, t) \<in> {(x, y). \<exists>ds. immediate_dependents g x = Inr ds \<and> y \<in> set ds}\<^sup>+}"
    if "reachable_set g s = Inr rs" for g s rs using that by (rule reachable_closure)
  show "distinct rs" if "reachable_set g s = Inr rs" for g s rs
    using that by (auto simp: reachable_set_def closure_loop_distinct split: option.splits)
  show "(\<exists>e. reachable_set g s = Inl e) \<longleftrightarrow> (\<exists>e. immediate_dependents g s = Inl e)" for g s
    by (auto simp: reachable_set_def immediate_dependents_def split: option.splits)
  show "0 \<le> request_share g s" if "shares_ok g" for g s using that by (rule request_share_nonneg)
qed

section \<open>Blast radius (calculator.py)\<close>

definition blast_calculate :: "ServiceGraph \<Rightarrow> string \<Rightarrow> string list \<Rightarrow> GraphExc + rat" where
  "blast_calculate g target affected = bindE (reachable_set g target) (\<lambda>reachable.
     if affected = [] \<or> reachable = [] then Inr 0
     else Inr (min (max (sum_list (map (request_share g)
       (filter (\<lambda>s. s \<in> set affected) reachable))) 0) 1))"

definition ZERO_BASELINE_ERROR_RATE_FLOOR :: rat where "ZERO_BASELINE_ERROR_RATE_FLOOR = 1 / 100"
definition ZERO_BASELINE_LATENCY_FLOOR_MS :: rat where "ZERO_BASELINE_LATENCY_FLOOR_MS = 1"

definition degraded :: "rat \<Rightarrow> rat \<Rightarrow> rat \<Rightarrow> rat \<Rightarrow> bool" where
  "degraded threshold zero_floor pre post =
     (if pre > 0 then (post - pre) / pre > threshold else post > zero_floor)"

definition or_zero :: "rat option \<Rightarrow> rat" where
  "or_zero x = (case x of None \<Rightarrow> 0 | Some r \<Rightarrow> r)"

definition compute_affected_services :: "(string \<times> MetricWindow) list \<Rightarrow> (string \<times> MetricWindow) list \<Rightarrow>
    rat \<Rightarrow> string list" where
  "compute_affected_services pre post threshold =
     map fst (filter (\<lambda>(service, w).
       case map_of pre service of
         None \<Rightarrow> False
       | Some b \<Rightarrow>
           degraded threshold ZERO_BASELINE_LATENCY_FLOOR_MS (or_zero (mw_p99_latency_ms b)) (or_zero (mw_p99_latency_ms w)) \<or>
           degraded threshold ZERO_BASELINE_ERROR_RATE_FLOOR (or_zero (mw_error_rate b)) (or_zero (mw_error_rate w))) post)"

lemma blast_radius_eq:
  "blast_calculate g target affected = bindE (reachable_set g target) (\<lambda>rs. Inr (sdg.radius g rs affected))"
  by (auto simp: blast_calculate_def sdg.radius_def bindE_def split: sum.splits)

text \<open>\<open>reachable_set\<close> is the transitive closure of the immediate dependents, and fails exactly
  for a service that is not in the graph.\<close>

theorem reachable_set_closure:
  "case reachable_set g s of
     Inl e \<Rightarrow> e = UnknownService s \<and> immediate_dependents g s = Inl (UnknownService s)
   | Inr rs \<Rightarrow> distinct rs \<and>
       set rs = {t. (s, t) \<in> {(x, y). \<exists>ds. immediate_dependents g x = Inr ds \<and> y \<in> set ds}\<^sup>+}"
  using reachable_closure [of g s]
  by (auto simp: reachable_set_def immediate_dependents_def closure_loop_distinct
      split: option.splits sum.splits)

text \<open>The blast radius lies in [0, 1], grows with the set of affected services, and is zero when
  no affected service depends on the target.\<close>

theorem blast_radius_bounds:
  assumes "shares_ok g" "blast_calculate g t affected = Inr r" "blast_calculate g t affected' = Inr r'"
    and "set affected \<subseteq> set affected'"
  shows "0 \<le> r \<and> r' \<le> 1 \<and> r \<le> r' \<and>
    (\<forall>rs. reachable_set g t = Inr rs \<longrightarrow> set rs \<inter> set affected = {} \<longrightarrow> r = 0)"
  using assms sdg.radius_unit sdg.radius_mono sdg.radius_0
  by (auto simp: blast_radius_eq bindE_Inr_iff)

lemma blast_radius_bounds_witness:
  "let g = mk_graph [''a'', ''b'', ''c''] [(''a'', ''b''), (''b'', ''c'')] [] in
   blast_calculate g ''c'' [''a'', ''b''] = Inr (2 / 3) \<and> (1 / 3 :: rat) \<le> 2 / 3"
proof -
  let ?g = "mk_graph [''a'', ''b'', ''c''] [(''a'', ''b''), (''b'', ''c'')] []"
  have 1: "blast_calculate ?g ''c'' [''a''] = Inr (1 / 3)" by code_simp
  have 2: "blast_calculate ?g ''c'' [''a'', ''b''] = Inr (2 / 3)" by code_simp
  have "shares_ok ?g" by code_simp
  from blast_radius_bounds [OF this 1 2] 2 show ?thesis by simp
qed

end
