(* ===== verification/Facts.thy ===== *)
theory Facts
  imports Verify Graph
begin

text \<open>
  \<^verbatim>\<open>kernel/facts.py\<close>: the facts the kernel reasons about, extracted from the plan, the
  configuration, the cluster, the deploy history, the dependency graph, the run store and the
  rehearsal evidence.  The sources are a record of what each returns (\<open>FactSources\<close>); the settings
  and the parsed \<^verbatim>\<open>slo.yaml\<close> are values in it.  Reading files and the JSON dump of facts are not
  modelled.
\<close>

section \<open>Sources\<close>

record K8sSource =
  ks_egress_policy :: "string \<Rightarrow> bool"
  ks_replicas :: "string \<Rightarrow> string \<Rightarrow> (int \<times> int) option"

record FactSources =
  fs_k8s :: "K8sSource option"
  fs_deploy_history :: "DeployRef list option"
  fs_runs :: "(RunRecord list \<times> RunRecord list) option"
  fs_graph :: "ServiceGraph option"
  fs_prod_namespace :: string
  fs_mutation_budget :: "int option"
  fs_mutation_window_minutes :: "int option"
  fs_min_replicas :: "(string \<times> PyVal) list option"

text \<open>\<^verbatim>\<open>WorkloadReaderFactAdapter\<close> over a snapshot of workloads and their desired replicas.\<close>

definition adapter_source :: "(string \<times> int) list \<Rightarrow> bool \<Rightarrow> K8sSource" where
  "adapter_source workloads policy = \<lparr>
     ks_egress_policy = (\<lambda>ns. policy),
     ks_replicas = (\<lambda>ns svc. map_option (\<lambda>r. (r, r)) (map_of workloads svc))\<rparr>"

definition mk_fact :: "instant \<Rightarrow> FactSource \<Rightarrow> string \<Rightarrow> PyVal \<Rightarrow> Fact" where
  "mk_fact now src n v = \<lparr>fact_name = n, fact_value = v, fact_source = src, fact_observed_at = now\<rparr>"

section \<open>The extractors\<close>

definition extract_plan_facts :: "instant \<Rightarrow> RemediationPlan \<Rightarrow> Fact list" where
  "extract_plan_facts now p = [
     mk_fact now SrcPlan ''plan_target_namespaces''
       (PColl (map PStr (uniq (filter (\<lambda>ns. ns \<noteq> []) (map ref_namespace (target_resources p)))))),
     mk_fact now SrcPlan ''plan_targets'' (PColl (map PRef (uniq (target_resources p)))),
     mk_fact now SrcPlan ''declared_blast_set'' (PColl (map PStr (uniq (declared_blast_set p)))),
     mk_fact now SrcPlan ''plan_has_inverse'' (PBool (inverse p \<noteq> None \<or> action p = NO_ACTION)),
     mk_fact now SrcPlan ''inverse_targets''
       (PColl (map PRef (uniq (case inverse p of None \<Rightarrow> [] | Some q \<Rightarrow> target_resources q))))]"

text \<open>\<open>isinstance(count, int)\<close> holds of a boolean too.\<close>

fun py_is_int :: "PyVal \<Rightarrow> bool" where
  "py_is_int (PInt _) = True"
| "py_is_int (PBool _) = True"
| "py_is_int _ = False"

definition extract_config_facts :: "FactSources \<Rightarrow> instant \<Rightarrow> Fact list" where
  "extract_config_facts src now =
     (let mins = (case fs_min_replicas src of None \<Rightarrow> [] | Some d \<Rightarrow> filter (\<lambda>(svc, v). py_is_int v) d) in
      [mk_fact now SrcConfig ''authorized_namespace'' (PStr (fs_prod_namespace src)),
       mk_fact now SrcConfig ''mutation_budget''
         (PInt (case fs_mutation_budget src of Some b \<Rightarrow> b | None \<Rightarrow> 3))] @
      map (\<lambda>(svc, v). mk_fact now SrcConfig (subscript ''min_replicas'' svc) v) mins @
      (if mins \<noteq> [] then [mk_fact now SrcConfig ''min_replicas'' (PDict mins)] else []))"

definition extract_k8s_facts :: "FactSources \<Rightarrow> instant \<Rightarrow> string \<Rightarrow> RemediationPlan \<Rightarrow> Fact list" where
  "extract_k8s_facts src now namespace p =
     (case fs_k8s src of
        None \<Rightarrow> []
      | Some k \<Rightarrow>
          (let found = concat (map (\<lambda>svc. case ks_replicas k namespace svc of
                         None \<Rightarrow> [] | Some (desired, healthy) \<Rightarrow> [(svc, desired, healthy)])
                       (affected_services p)) in
           [mk_fact now SrcK8s ''twin_egress_policy_present'' (PBool (ks_egress_policy k namespace))] @
           concat (map (\<lambda>(svc, desired, healthy). [
             mk_fact now SrcK8s (subscript ''replicas'' svc) (PInt desired),
             mk_fact now SrcK8s (subscript ''healthy_replicas'' svc) (PInt healthy)]) found) @
           (if found \<noteq> [] then
             [mk_fact now SrcK8s ''replicas'' (PDict (map (\<lambda>(svc, d, h). (svc, PInt d)) found)),
              mk_fact now SrcK8s ''healthy_replicas'' (PDict (map (\<lambda>(svc, d, h). (svc, PInt h)) found))]
            else [])))"

definition find_rollback_target :: "string \<Rightarrow> DeployRef list \<Rightarrow> DeployRef option" where
  "find_rollback_target tc deploys = find (\<lambda>d. commit_sha d = tc \<or> startswith (commit_sha d) tc \<or>
     startswith tc (commit_sha d)) deploys"

definition latest_migration :: "DeployRef list \<Rightarrow> DeployRef option" where
  "latest_migration deploys =
     (case filter contains_migration deploys of
        [] \<Rightarrow> None
      | d # ds \<Rightarrow> Some (max_by deployed_at d ds))"

definition rollback_commit :: "RemediationPlan \<Rightarrow> string option" where
  "rollback_commit p =
     (if action p = ROLLBACK_DEPLOY then
        (case target_commit (params p) of
           Some tc \<Rightarrow> if tc \<noteq> [] then Some (py_strip tc) else None
         | None \<Rightarrow> None)
      else None)"

definition extract_github_facts ::
    "FactSources \<Rightarrow> instant \<Rightarrow> RemediationPlan \<Rightarrow> DeployRef list option \<Rightarrow> Fact list" where
  "extract_github_facts src now p recent =
     (case (case recent of Some ds \<Rightarrow> Some ds | None \<Rightarrow> fs_deploy_history src) of
        None \<Rightarrow> []
      | Some deploys \<Rightarrow>
          (case latest_migration deploys of
             None \<Rightarrow> []
           | Some d \<Rightarrow> [mk_fact now SrcGithub ''last_migration_commit_time'' (PDatetime (deployed_at d))]) @
          (case Option.bind (rollback_commit p) (\<lambda>tc. find_rollback_target tc deploys) of
             None \<Rightarrow> []
           | Some d \<Rightarrow>
               [mk_fact now SrcGithub ''rollback_target_commit_time'' (PDatetime (deployed_at d)),
                mk_fact now SrcGithub ''target_contains_migration'' (PBool (contains_migration d))]))"

text \<open>\<open>adjacency.setdefault(e.target, set()).add(e.source)\<close> over the edges of a snapshot.\<close>

fun add_caller :: "DependencyEdge \<Rightarrow> (string \<times> string list) list \<Rightarrow> (string \<times> string list) list" where
  "add_caller e adj =
     (let cs = succs adj (edge_target e) in
      dict_put (edge_target e) (if edge_source e \<in> set cs then cs else cs @ [edge_source e]) adj)"

definition snapshot_adjacency :: "DependencyGraphSnapshot \<Rightarrow> (string \<times> string list) list" where
  "snapshot_adjacency snap = foldl (\<lambda>adj e. add_caller e adj) [] (snap_edges snap)"

definition dependents_of :: "FactSources \<Rightarrow> DependencyGraphSnapshot option \<Rightarrow> string list \<Rightarrow>
    GraphExc + (string \<times> string list) list" where
  "dependents_of src snap services =
     (case fs_graph src of
        Some g \<Rightarrow> mapE (\<lambda>svc. bindE (reachable_set g svc) (\<lambda>deps. Inr (svc, deps))) services
      | None \<Rightarrow>
          (case snap of
             None \<Rightarrow> Inr []
           | Some s \<Rightarrow> (let adj = snapshot_adjacency s in
               Inr (map (\<lambda>svc. (svc, closure_loop adj (succs adj svc) [])) services))))"

definition extract_graph_facts :: "FactSources \<Rightarrow> instant \<Rightarrow> RemediationPlan \<Rightarrow>
    DependencyGraphSnapshot option \<Rightarrow> GraphExc + Fact list" where
  "extract_graph_facts src now p snap = bindE (dependents_of src snap (affected_services p)) (\<lambda>deps.
     Inr (map (\<lambda>(svc, ds). mk_fact now SrcGraph (subscript ''dependents'' svc) (PColl (map PStr ds))) deps @
       (if deps \<noteq> [] then [mk_fact now SrcGraph ''dependents''
          (PDict (map (\<lambda>(svc, ds). (svc, PColl (map PStr ds))) deps))] else [])))"

definition in_flight_refs :: "IncidentContext option \<Rightarrow> RunRecord list \<Rightarrow> ResourceRef list" where
  "in_flight_refs context active =
     uniq (concat (map (\<lambda>run. concat (map target_resources (run_plans run)))
       (filter (\<lambda>run. \<not> (case context of None \<Rightarrow> False
          | Some c \<Rightarrow> ctx_incident_id c \<noteq> [] \<and> run_incident_id run = ctx_incident_id c)) active)))"

definition window_start :: "FactSources \<Rightarrow> instant \<Rightarrow> instant" where
  "window_start src now =
     now - of_int (case fs_mutation_window_minutes src of Some m \<Rightarrow> m | None \<Rightarrow> 15) * 60"

definition mutations_in_window :: "FactSources \<Rightarrow> instant \<Rightarrow> RunRecord list \<Rightarrow> int" where
  "mutations_in_window src now runs =
     int (length (filter (\<lambda>r. window_start src now \<le> run_started_at r \<and> prod_applied_plan_id r \<noteq> None) runs))"

definition extract_store_facts :: "FactSources \<Rightarrow> instant \<Rightarrow> IncidentContext option \<Rightarrow> Fact list" where
  "extract_store_facts src now context =
     (case fs_runs src of
        None \<Rightarrow> []
      | Some (active, runs) \<Rightarrow>
          [mk_fact now SrcStore ''in_flight_plan_targets'' (PColl (map PRef (in_flight_refs context active))),
           mk_fact now SrcStore ''prod_mutations_in_window'' (PInt (mutations_in_window src now runs))])"

definition extract_evidence_facts :: "instant \<Rightarrow> CandidateEvidence option \<Rightarrow> Fact list" where
  "extract_evidence_facts now evidence =
     (case evidence of
        None \<Rightarrow> []
      | Some e \<Rightarrow>
          [mk_fact now SrcTournament ''observed_blast_set'' (PColl (map PStr (uniq (ev_observed_blast_set e)))),
           mk_fact now SrcTournament ''evidence_age_seconds'' (PFloat (max 0 (now - ev_applied_at e))),
           mk_fact now SrcTournament ''max_drop_ratio'' (PFloat (drop_ratio (ev_mirror_stats e))),
           mk_fact now SrcTournament ''probe_sample_count'' (PInt (int (length (ev_probes e))))])"

definition extract_all :: "FactSources \<Rightarrow> instant \<Rightarrow> RemediationPlan \<Rightarrow> CandidateEvidence option \<Rightarrow>
    IncidentContext option \<Rightarrow> GraphExc + Fact list" where
  "extract_all src now p evidence context =
     bindE (extract_graph_facts src now p (map_option dependency_graph context)) (\<lambda>graph_facts.
       Inr (extract_plan_facts now p @ extract_config_facts src now @
            extract_k8s_facts src now ''ust-prod'' p @
            extract_github_facts src now p (map_option recent_deploys context) @
            graph_facts @ extract_store_facts src now context @ extract_evidence_facts now evidence))"

section \<open>Reading an extracted fact back\<close>

lemma kc_facts_lookup:
  "map_of (kc_facts (kernel_context std p facts)) n = Some f \<Longrightarrow> f \<in> set facts \<and> fact_name f = n"
  by (auto simp: kernel_context_def map_of_dict_of dest!: map_of_SomeD)

lemma kc_facts_None:
  "map_of (kc_facts (kernel_context std p facts)) n = None \<longleftrightarrow> (\<forall>f \<in> set facts. fact_name f \<noteq> n)"
  by (auto simp: kernel_context_def map_of_dict_of map_of_eq_None_iff image_image)

text \<open>A name all of whose facts agree is read with that value, wherever they stand.\<close>

lemma fact_val_unique:
  assumes "\<exists>f \<in> set facts. fact_name f = n" and "\<forall>f \<in> set facts. fact_name f = n \<longrightarrow> fact_value f = v"
  shows "fact_val (kernel_context std p facts) n = Some v"
proof -
  obtain f where f: "map_of (kc_facts (kernel_context std p facts)) n = Some f"
    using assms(1) kc_facts_None [of std p facts n] by (metis not_None_eq)
  with kc_facts_lookup [OF f] assms(2) show ?thesis by (simp add: fact_val_def lookup_fact_def)
qed

lemma parse_plain: "CHR ''['' \<notin> set n \<Longrightarrow> parse_subscript n = None"
proof (rule ccontr)
  assume n: "CHR ''['' \<notin> set n" and "parse_subscript n \<noteq> None"
  then obtain b k where "parse_subscript n = Some (b, k)" by auto
  from parse_subscript_shape [OF this] n show False by (auto simp: subscript_def)
qed

lemma fact_val_absent:
  "\<forall>f \<in> set facts. fact_name f \<noteq> n \<Longrightarrow> CHR ''['' \<notin> set n \<Longrightarrow>
   fact_val (kernel_context std p facts) n = None"
  by (simp add: fact_val_def lookup_fact_def nested_fact_def kc_facts_None [THEN iffD2] parse_plain)

text \<open>The facts by name.  A name with a bracket is none of the plain ones.\<close>

lemma subscript_neq [simp]:
  "CHR ''['' \<notin> set n \<Longrightarrow> subscript b k \<noteq> n" "CHR ''['' \<notin> set n \<Longrightarrow> n \<noteq> subscript b k"
  by (auto simp: subscript_def)

named_theorems extractor_defs

lemmas [extractor_defs] = extract_plan_facts_def extract_config_facts_def extract_k8s_facts_def
  extract_github_facts_def extract_store_facts_def extract_evidence_facts_def mk_fact_def

lemma graph_facts_names:
  assumes "extract_graph_facts src now p snap = Inr gs" "f \<in> set gs"
  shows "fact_name f = ''dependents'' \<or> (\<exists>svc. fact_name f = subscript ''dependents'' svc)"
proof -
  from assms(1) obtain deps where
    "gs = map (\<lambda>(svc, ds). mk_fact now SrcGraph (subscript ''dependents'' svc) (PColl (map PStr ds))) deps @
       (if deps \<noteq> [] then [mk_fact now SrcGraph ''dependents''
          (PDict (map (\<lambda>(svc, ds). (svc, PColl (map PStr ds))) deps))] else [])"
    by (auto simp: extract_graph_facts_def bindE_Inr_iff)
  with assms(2) show ?thesis by (fastforce simp: mk_fact_def split: if_splits)
qed

lemma config_facts_names:
  "f \<in> set (extract_config_facts src now) \<Longrightarrow>
   fact_name f = ''authorized_namespace'' \<and> fact_value f = PStr (fs_prod_namespace src) \<or>
   fact_name f = ''mutation_budget'' \<and>
     fact_value f = PInt (case fs_mutation_budget src of Some b \<Rightarrow> b | None \<Rightarrow> 3) \<or>
   fact_name f = ''min_replicas'' \<or> (\<exists>svc. fact_name f = subscript ''min_replicas'' svc)"
  by (auto simp: extract_config_facts_def mk_fact_def Let_def split: if_splits)

lemma k8s_facts_names:
  "f \<in> set (extract_k8s_facts src now ns p) \<Longrightarrow>
   fact_name f \<in> {''twin_egress_policy_present'', ''replicas'', ''healthy_replicas''} \<or>
   (\<exists>svc. fact_name f = subscript ''replicas'' svc \<or> fact_name f = subscript ''healthy_replicas'' svc)"
  by (auto simp: extract_k8s_facts_def mk_fact_def Let_def split: if_splits option.splits prod.splits)

lemma github_facts_names:
  "f \<in> set (extract_github_facts src now p ds) \<Longrightarrow>
   fact_name f \<in> {''last_migration_commit_time'', ''rollback_target_commit_time'',
     ''target_contains_migration''}"
  by (auto simp: extract_github_facts_def mk_fact_def split: option.splits)

lemma extract_all_cases:
  assumes "extract_all src now p ev context = Inr facts"
  obtains gs where "extract_graph_facts src now p (map_option dependency_graph context) = Inr gs"
    "set facts = set (extract_plan_facts now p) \<union> set (extract_config_facts src now) \<union>
       set (extract_k8s_facts src now ''ust-prod'' p) \<union>
       set (extract_github_facts src now p (map_option recent_deploys context)) \<union> set gs \<union>
       set (extract_store_facts src now context) \<union> set (extract_evidence_facts now ev)"
  using assms by (fastforce simp: extract_all_def bindE_Inr_iff Un_assoc)

text \<open>A plain name that only one group of facts uses is looked up in that group.\<close>

lemma plan_fact_val:
  assumes "extract_all src now p ev context = Inr facts"
  shows "fact_val (kernel_context std q facts) ''plan_target_namespaces'' =
      Some (PColl (map PStr (uniq (filter (\<lambda>ns. ns \<noteq> []) (map ref_namespace (target_resources p))))))"
    and "fact_val (kernel_context std q facts) ''plan_targets'' =
      Some (PColl (map PRef (uniq (target_resources p))))"
    and "fact_val (kernel_context std q facts) ''plan_has_inverse'' =
      Some (PBool (inverse p \<noteq> None \<or> action p = NO_ACTION))"
    and "fact_val (kernel_context std q facts) ''inverse_targets'' =
      Some (PColl (map PRef (uniq (case inverse p of None \<Rightarrow> [] | Some q \<Rightarrow> target_resources q))))"
    and "fact_val (kernel_context std q facts) ''authorized_namespace'' = Some (PStr (fs_prod_namespace src))"
    and "fact_val (kernel_context std q facts) ''mutation_budget'' =
      Some (PInt (case fs_mutation_budget src of Some b \<Rightarrow> b | None \<Rightarrow> 3))"
proof -
  from assms obtain gs where gs: "extract_graph_facts src now p (map_option dependency_graph context) = Inr gs"
    and facts: "set facts = set (extract_plan_facts now p) \<union> set (extract_config_facts src now) \<union>
       set (extract_k8s_facts src now ''ust-prod'' p) \<union>
       set (extract_github_facts src now p (map_option recent_deploys context)) \<union> set gs \<union>
       set (extract_store_facts src now context) \<union> set (extract_evidence_facts now ev)"
    by (rule extract_all_cases)
  note names = graph_facts_names [OF gs] config_facts_names k8s_facts_names github_facts_names
  have other: "fact_name f \<noteq> n"
    if "f \<in> set (extract_k8s_facts src now ''ust-prod'' p) \<or>
        f \<in> set (extract_github_facts src now p (map_option recent_deploys context)) \<or> f \<in> set gs \<or>
        f \<in> set (extract_store_facts src now context) \<or> f \<in> set (extract_evidence_facts now ev)"
      "n \<in> {''plan_target_namespaces'', ''plan_targets'', ''plan_has_inverse'', ''inverse_targets'',
        ''authorized_namespace'', ''mutation_budget''}" for f n
    using that
    by (elim disjE) (auto simp: extract_store_facts_def extract_evidence_facts_def mk_fact_def
        split: option.splits dest!: names)
  have plan: "fact_name f \<noteq> n" if "f \<in> set (extract_config_facts src now)"
      "n \<in> {''plan_target_namespaces'', ''plan_targets'', ''plan_has_inverse'', ''inverse_targets''}" for f n
    using that by (auto dest!: config_facts_names)
  show "fact_val (kernel_context std q facts) ''plan_target_namespaces'' =
      Some (PColl (map PStr (uniq (filter (\<lambda>ns. ns \<noteq> []) (map ref_namespace (target_resources p))))))"
    by (rule fact_val_unique)
      (use other [where n = "''plan_target_namespaces''"] plan [where n = "''plan_target_namespaces''"] in
        \<open>auto simp: facts extract_plan_facts_def mk_fact_def\<close>)
  show "fact_val (kernel_context std q facts) ''plan_targets'' =
      Some (PColl (map PRef (uniq (target_resources p))))"
    by (rule fact_val_unique)
      (use other [where n = "''plan_targets''"] plan [where n = "''plan_targets''"] in
        \<open>auto simp: facts extract_plan_facts_def mk_fact_def\<close>)
  show "fact_val (kernel_context std q facts) ''plan_has_inverse'' =
      Some (PBool (inverse p \<noteq> None \<or> action p = NO_ACTION))"
    by (rule fact_val_unique)
      (use other [where n = "''plan_has_inverse''"] plan [where n = "''plan_has_inverse''"] in
        \<open>auto simp: facts extract_plan_facts_def mk_fact_def\<close>)
  show "fact_val (kernel_context std q facts) ''inverse_targets'' =
      Some (PColl (map PRef (uniq (case inverse p of None \<Rightarrow> [] | Some q \<Rightarrow> target_resources q))))"
    by (rule fact_val_unique)
      (use other [where n = "''inverse_targets''"] plan [where n = "''inverse_targets''"] in
        \<open>auto simp: facts extract_plan_facts_def mk_fact_def\<close>)
  show "fact_val (kernel_context std q facts) ''authorized_namespace'' = Some (PStr (fs_prod_namespace src))"
    by (rule fact_val_unique)
      (use other [where n = "''authorized_namespace''"] in
        \<open>auto simp: facts extract_plan_facts_def extract_config_facts_def mk_fact_def Let_def
          dest!: config_facts_names\<close>)
  show "fact_val (kernel_context std q facts) ''mutation_budget'' =
      Some (PInt (case fs_mutation_budget src of Some b \<Rightarrow> b | None \<Rightarrow> 3))"
    by (rule fact_val_unique)
      (use other [where n = "''mutation_budget''"] in
        \<open>auto simp: facts extract_plan_facts_def extract_config_facts_def mk_fact_def Let_def
          dest!: config_facts_names\<close>)
qed

lemma deploys_fact_val:
  assumes "extract_all src now p ev context = Inr facts"
    and ds: "(case map_option recent_deploys context of Some ds \<Rightarrow> Some ds | None \<Rightarrow> fs_deploy_history src)
      = Some deploys"
  shows "fact_val (kernel_context std q facts) ''last_migration_commit_time'' =
      map_option (\<lambda>d. PDatetime (deployed_at d)) (latest_migration deploys)"
    and "fact_val (kernel_context std q facts) ''rollback_target_commit_time'' =
      map_option (\<lambda>d. PDatetime (deployed_at d))
        (Option.bind (rollback_commit p) (\<lambda>tc. find_rollback_target tc deploys))"
    and "fact_val (kernel_context std q facts) ''target_contains_migration'' =
      map_option (\<lambda>d. PBool (contains_migration d))
        (Option.bind (rollback_commit p) (\<lambda>tc. find_rollback_target tc deploys))"
proof -
  from assms(1) obtain gs where gs: "extract_graph_facts src now p (map_option dependency_graph context) = Inr gs"
    and facts: "set facts = set (extract_plan_facts now p) \<union> set (extract_config_facts src now) \<union>
       set (extract_k8s_facts src now ''ust-prod'' p) \<union>
       set (extract_github_facts src now p (map_option recent_deploys context)) \<union> set gs \<union>
       set (extract_store_facts src now context) \<union> set (extract_evidence_facts now ev)"
    by (rule extract_all_cases)
  note names = graph_facts_names [OF gs] config_facts_names k8s_facts_names
  have other: "fact_name f \<noteq> n"
    if "f \<in> set (extract_plan_facts now p) \<or> f \<in> set (extract_config_facts src now) \<or>
        f \<in> set (extract_k8s_facts src now ''ust-prod'' p) \<or> f \<in> set gs \<or>
        f \<in> set (extract_store_facts src now context) \<or> f \<in> set (extract_evidence_facts now ev)"
      "n \<in> {''last_migration_commit_time'', ''rollback_target_commit_time'', ''target_contains_migration''}"
    for f n
    using that
    by (elim disjE) (auto simp: extract_plan_facts_def extract_store_facts_def extract_evidence_facts_def
        mk_fact_def split: option.splits dest!: names)
  have val: "fact_val (kernel_context std q facts) n = x"
    if n: "n \<in> {''last_migration_commit_time'', ''rollback_target_commit_time'', ''target_contains_migration''}"
      and x: "case x of
          None \<Rightarrow> \<forall>f \<in> set (extract_github_facts src now p (map_option recent_deploys context)). fact_name f \<noteq> n
        | Some v \<Rightarrow> (\<exists>f \<in> set (extract_github_facts src now p (map_option recent_deploys context)). fact_name f = n) \<and>
            (\<forall>f \<in> set (extract_github_facts src now p (map_option recent_deploys context)).
               fact_name f = n \<longrightarrow> fact_value f = v)"
    for n x
  proof (cases x)
    case None
    have "CHR ''['' \<notin> set n" using n by auto
    moreover have "\<forall>f \<in> set facts. fact_name f \<noteq> n" using other n x unfolding None facts by auto
    ultimately show ?thesis using None by (simp add: fact_val_absent)
  next
    case (Some v)
    show ?thesis unfolding Some
      by (rule fact_val_unique) (use other n x in \<open>auto simp: facts Some\<close>)
  qed
  have "extract_github_facts src now p (map_option recent_deploys context) =
      (case latest_migration deploys of
         None \<Rightarrow> []
       | Some d \<Rightarrow> [mk_fact now SrcGithub ''last_migration_commit_time'' (PDatetime (deployed_at d))]) @
      (case Option.bind (rollback_commit p) (\<lambda>tc. find_rollback_target tc deploys) of
         None \<Rightarrow> []
       | Some d \<Rightarrow>
           [mk_fact now SrcGithub ''rollback_target_commit_time'' (PDatetime (deployed_at d)),
            mk_fact now SrcGithub ''target_contains_migration'' (PBool (contains_migration d))])"
    unfolding extract_github_facts_def ds by simp
  note gh = this mk_fact_def
  show "fact_val (kernel_context std q facts) ''last_migration_commit_time'' =
      map_option (\<lambda>d. PDatetime (deployed_at d)) (latest_migration deploys)"
    by (rule val) (cases "latest_migration deploys";
        cases "Option.bind (rollback_commit p) (\<lambda>tc. find_rollback_target tc deploys)"; simp add: gh)+
  show "fact_val (kernel_context std q facts) ''rollback_target_commit_time'' =
      map_option (\<lambda>d. PDatetime (deployed_at d))
        (Option.bind (rollback_commit p) (\<lambda>tc. find_rollback_target tc deploys))"
    by (rule val) (cases "latest_migration deploys";
        cases "Option.bind (rollback_commit p) (\<lambda>tc. find_rollback_target tc deploys)"; simp add: gh)+
  show "fact_val (kernel_context std q facts) ''target_contains_migration'' =
      map_option (\<lambda>d. PBool (contains_migration d))
        (Option.bind (rollback_commit p) (\<lambda>tc. find_rollback_target tc deploys))"
    by (rule val) (cases "latest_migration deploys";
        cases "Option.bind (rollback_commit p) (\<lambda>tc. find_rollback_target tc deploys)"; simp add: gh)+
qed

lemma store_evidence_fact_val:
  fixes std q
  assumes "extract_all src now p ev context = Inr facts"
  defines "ctx \<equiv> kernel_context std q facts"
  shows "fact_val ctx ''in_flight_plan_targets'' =
      map_option (\<lambda>(active, runs). PColl (map PRef (in_flight_refs context active))) (fs_runs src)"
    and "fact_val ctx ''prod_mutations_in_window'' =
      map_option (\<lambda>(active, runs). PInt (mutations_in_window src now runs)) (fs_runs src)"
    and "fact_val ctx ''evidence_age_seconds'' = map_option (\<lambda>e. PFloat (max 0 (now - ev_applied_at e))) ev"
    and "fact_val ctx ''max_drop_ratio'' = map_option (\<lambda>e. PFloat (drop_ratio (ev_mirror_stats e))) ev"
    and "fact_val ctx ''probe_sample_count'' = map_option (\<lambda>e. PInt (int (length (ev_probes e)))) ev"
proof -
  from assms(1) obtain gs where gs: "extract_graph_facts src now p (map_option dependency_graph context) = Inr gs"
    and facts: "set facts = set (extract_plan_facts now p) \<union> set (extract_config_facts src now) \<union>
       set (extract_k8s_facts src now ''ust-prod'' p) \<union>
       set (extract_github_facts src now p (map_option recent_deploys context)) \<union> set gs \<union>
       set (extract_store_facts src now context) \<union> set (extract_evidence_facts now ev)"
    by (rule extract_all_cases)
  let ?ns = "{''in_flight_plan_targets'', ''prod_mutations_in_window'', ''evidence_age_seconds'',
    ''max_drop_ratio'', ''probe_sample_count''}"
  let ?late = "set (extract_store_facts src now context) \<union> set (extract_evidence_facts now ev)"
  note names = graph_facts_names [OF gs] config_facts_names k8s_facts_names github_facts_names
  have other: "fact_name f \<noteq> n"
    if "f \<in> set (extract_plan_facts now p) \<or> f \<in> set (extract_config_facts src now) \<or>
        f \<in> set (extract_k8s_facts src now ''ust-prod'' p) \<or>
        f \<in> set (extract_github_facts src now p (map_option recent_deploys context)) \<or> f \<in> set gs"
      "n \<in> ?ns" for f n
    using that by (elim disjE) (auto simp: extract_plan_facts_def mk_fact_def dest!: names)
  have val: "fact_val ctx n = x"
    if n: "n \<in> ?ns"
      and x: "case x of None \<Rightarrow> \<forall>f \<in> ?late. fact_name f \<noteq> n
        | Some v \<Rightarrow> (\<exists>f \<in> ?late. fact_name f = n) \<and> (\<forall>f \<in> ?late. fact_name f = n \<longrightarrow> fact_value f = v)"
    for n x
  proof (cases x)
    case None
    have "CHR ''['' \<notin> set n" using n by auto
    moreover have "\<forall>f \<in> set facts. fact_name f \<noteq> n"
      using other [OF _ n] x unfolding None option.case facts by blast
    ultimately show ?thesis using None by (simp add: fact_val_absent ctx_def)
  next
    case (Some v)
    have late: "g \<in> ?late" if "g \<in> set facts" "fact_name g = n" for g
      using that other [OF _ n, of g] unfolding facts by (elim UnE) simp_all
    have x': "\<exists>f \<in> ?late. fact_name f = n" "\<And>f. f \<in> ?late \<Longrightarrow> fact_name f = n \<Longrightarrow> fact_value f = v"
      using x unfolding Some option.case by blast+
    show ?thesis unfolding Some ctx_def
    proof (rule fact_val_unique)
      show "\<exists>f \<in> set facts. fact_name f = n" using x'(1) unfolding facts by (elim bexE UnE) auto
      show "\<forall>f \<in> set facts. fact_name f = n \<longrightarrow> fact_value f = v" using x'(2) late by simp
    qed
  qed
  note late = extract_store_facts_def extract_evidence_facts_def mk_fact_def
  show "fact_val ctx ''in_flight_plan_targets'' =
      map_option (\<lambda>(active, runs). PColl (map PRef (in_flight_refs context active))) (fs_runs src)"
    by (rule val, simp, cases "fs_runs src"; cases ev; simp add: late split_beta)
  show "fact_val ctx ''prod_mutations_in_window'' =
      map_option (\<lambda>(active, runs). PInt (mutations_in_window src now runs)) (fs_runs src)"
    by (rule val, simp, cases "fs_runs src"; cases ev; simp add: late split_beta)
  show "fact_val ctx ''evidence_age_seconds'' = map_option (\<lambda>e. PFloat (max 0 (now - ev_applied_at e))) ev"
    by (rule val, simp, cases "fs_runs src"; cases ev; simp add: late split_beta)
  show "fact_val ctx ''max_drop_ratio'' = map_option (\<lambda>e. PFloat (drop_ratio (ev_mirror_stats e))) ev"
    by (rule val, simp, cases "fs_runs src"; cases ev; simp add: late split_beta)
  show "fact_val ctx ''probe_sample_count'' = map_option (\<lambda>e. PInt (int (length (ev_probes e)))) ev"
    by (rule val, simp, cases "fs_runs src"; cases ev; simp add: late split_beta)
qed

lemma plan_safe_specs:
  "plan_safe std p facts \<longleftrightarrow> (let c = kernel_context std p facts in
     k1_spec c \<and> k2_spec c \<and> k3_spec c \<and> k4_spec c \<and> k5_spec c \<and> k7_spec c \<and>
     k8_spec DEFAULT_MAX_EVIDENCE_AGE DEFAULT_MIN_PROBE_SAMPLES DEFAULT_MIRROR_DROP_CEILING c \<and> k9_spec c)"
  by (simp add: plan_safe_def proof_specs_def Let_def)

section \<open>What a PASS says about the system\<close>

lemma parse_subscript_base:
  assumes "list_all word_char b" "parse_subscript (subscript b k) = Some (b', k')"
  shows "b' = b"
proof -
  have "takeWhile word_char (subscript b k) = b"
    using assms(1) by (subst subscript_def, subst takeWhile_append2)
      (auto simp: list_all_iff word_char_def)
  then show ?thesis using assms(2)
    by (auto simp: parse_subscript_def Let_def split: list.splits if_splits)
qed

text \<open>The extractors never produce a rollback fact for one commit by name.\<close>

lemma k3_name_extracted:
  assumes "extract_all src now p ev context = Inr facts"
    and "b = ''rollback_target_commit_time'' \<or> b = ''target_contains_migration''"
    and "(case map_option recent_deploys context of Some ds \<Rightarrow> Some ds | None \<Rightarrow> fs_deploy_history src) = Some deploys"
  shows "k3_name (kernel_context std p facts) b = b"
proof -
  let ?ctx = "kernel_context std p facts"
  have "\<not> has_fact ?ctx (subscript b tc)" for tc
  proof -
    from assms(1) obtain gs where gs: "extract_graph_facts src now p (map_option dependency_graph context) = Inr gs"
      and facts: "set facts = set (extract_plan_facts now p) \<union> set (extract_config_facts src now) \<union>
         set (extract_k8s_facts src now ''ust-prod'' p) \<union>
         set (extract_github_facts src now p (map_option recent_deploys context)) \<union> set gs \<union>
         set (extract_store_facts src now context) \<union> set (extract_evidence_facts now ev)"
      by (rule extract_all_cases)
    note names = graph_facts_names [OF gs] config_facts_names k8s_facts_names github_facts_names
    have "fact_name f \<noteq> subscript b tc" if "f \<in> set facts" for f
      using that assms(2) unfolding facts
      by (elim UnE disjE) (auto simp: extract_plan_facts_def extract_store_facts_def
          extract_evidence_facts_def mk_fact_def subscript_def split: option.splits dest!: names)
    then have "map_of (kc_facts ?ctx) (subscript b tc) = None" by (simp add: kc_facts_None)
    moreover have "nested_fact ?ctx (subscript b tc) = None"
    proof (cases "parse_subscript (subscript b tc)")
      case (Some bk)
      have "list_all word_char b" using assms(2) by (auto simp: word_char_def)
      with Some have "fst bk = b" using parse_subscript_base by (cases bk) auto
      moreover have "\<forall>d. fact_val ?ctx b \<noteq> Some (PDict d)"
        using assms(2) deploys_fact_val(2,3) [OF assms(1,3), of std p]
        by (cases "Option.bind (rollback_commit p) (\<lambda>tc. find_rollback_target tc deploys)") auto
      then have "case map_of (kc_facts ?ctx) b of None \<Rightarrow> True | Some f \<Rightarrow> \<forall>d. fact_value f \<noteq> PDict d"
        by (auto simp: fact_val_def lookup_fact_def split: option.splits)
      ultimately show ?thesis
        using Some by (cases bk) (auto simp: nested_fact_def split: option.splits PyVal.splits)
    qed (simp add: nested_fact_def)
    ultimately show ?thesis by (simp add: has_fact_def lookup_fact_def)
  qed
  then show ?thesis by (simp add: k3_name_def split: option.split)
qed

lemma extracted_plan_std [simp]:
  "kc_plan (kernel_context std p facts) = p" "kc_std (kernel_context std p facts) = std"
  by (simp_all add: kernel_context_def)

lemma hashable_wrapped [simp]:
  "list_all py_hashable (map PStr xs)" "list_all py_hashable (map PRef rs)"
  by (auto simp: list_all_iff)

lemma safe_scope:
  assumes ex: "extract_all src now p ev context = Inr facts" and safe: "plan_safe std p facts"
    and r: "r \<in> set (target_resources p)" "ref_namespace r \<noteq> []"
  shows "ref_namespace r = fs_prod_namespace src"
proof -
  let ?ctx = "kernel_context std p facts"
  have "k2_spec ?ctx" using safe by (simp add: plan_safe_specs Let_def)
  moreover have "str_fact ?ctx ''authorized_namespace'' = Some (fs_prod_namespace src)"
    by (simp add: str_fact_def plan_fact_val(5) [OF ex])
  ultimately show ?thesis using r by (auto simp: k2_spec_def target_namespaces_def)
qed

lemma safe_single_writer:
  assumes ex: "extract_all src now p ev context = Inr facts" and safe: "plan_safe std p facts"
  shows "\<exists>active runs. fs_runs src = Some (active, runs) \<and>
    (\<forall>t \<in> set (target_resources p). \<forall>r \<in> set (in_flight_refs context active).
       ref_canonical t \<noteq> ref_canonical r)"
proof -
  let ?ctx = "kernel_context std p facts"
  have "k5_spec ?ctx" using safe by (simp add: plan_safe_specs Let_def)
  moreover have "\<not> k5_vacuous ?ctx"
    using plan_fact_val(2) [OF ex, of std p] by (auto simp: k5_vacuous_def has_fact_def fact_val_def)
  ultimately obtain rp rf where 1: "fact_val ?ctx ''plan_targets'' = Some rp"
    "fact_val ?ctx ''in_flight_plan_targets'' = Some rf"
    "set (k5_plan_targets std p rp) \<inter> set (k5_in_flight std rf) = {}"
    by (auto simp: k5_spec_def)
  from 1(2) obtain active runs where "fs_runs src = Some (active, runs)"
    "rf = PColl (map PRef (in_flight_refs context active))"
    by (auto simp: store_evidence_fact_val [OF ex])
  with 1(3) show ?thesis
    by (fastforce simp: k5_plan_targets_def k5_in_flight_def as_list_def)
qed

lemma safe_budget:
  assumes ex: "extract_all src now p ev context = Inr facts" and safe: "plan_safe std p facts"
    and act: "action p \<noteq> NO_ACTION"
  shows "\<exists>active runs. fs_runs src = Some (active, runs) \<and>
    mutations_in_window src now runs < (case fs_mutation_budget src of Some b \<Rightarrow> b | None \<Rightarrow> 3)"
proof -
  have "k7_spec (kernel_context std p facts)" using safe by (simp add: plan_safe_specs Let_def)
  then show ?thesis using act
    by (auto simp: k7_spec_def int_fact_def store_evidence_fact_val(2) [OF ex] plan_fact_val(6) [OF ex]
        split: option.splits)
qed

lemma safe_reversible:
  assumes ex: "extract_all src now p ev context = Inr facts" and safe: "plan_safe std p facts"
    and act: "action p \<noteq> NO_ACTION"
  shows "\<exists>q. inverse p = Some q \<and>
    ref_canonical ` set (target_resources q) = ref_canonical ` set (target_resources p)"
proof -
  let ?ctx = "kernel_context std p facts"
  have "k9_spec ?ctx" using safe by (simp add: plan_safe_specs Let_def)
  then obtain rp ri where 1: "bool_fact ?ctx ''plan_has_inverse'' = Some True"
    "set_fact ?ctx ''plan_targets'' = Some rp" "set_fact ?ctx ''inverse_targets'' = Some ri"
    "set (k9_plan_targets std p rp) = set (k9_inverse_targets std p ri)"
    using act by (auto simp: k9_spec_def)
  from 1(1) act obtain q where q: "inverse p = Some q"
    by (auto simp: bool_fact_def plan_fact_val [OF ex])
  have "set rp = PRef ` set (target_resources p)" "set ri = PRef ` set (target_resources q)"
    using 1(2,3) q by (auto simp: set_fact_def plan_fact_val [OF ex])
  then have "ref_canonical ` set (target_resources p) = ref_canonical ` set (target_resources q)"
    using 1(4) q by (simp add: k9_plan_targets_def k9_inverse_targets_def image_image)
  with q show ?thesis by simp
qed

lemma safe_evidence:
  assumes ex: "extract_all src now p ev context = Inr facts" and safe: "plan_safe std p facts"
  shows "\<exists>e. ev = Some e \<and> now - ev_applied_at e \<le> 300 \<and> 60 \<le> length (ev_probes e) \<and>
    drop_ratio (ev_mirror_stats e) \<le> 1 / 20"
proof -
  have "k8_spec DEFAULT_MAX_EVIDENCE_AGE DEFAULT_MIN_PROBE_SAMPLES DEFAULT_MIRROR_DROP_CEILING
      (kernel_context std p facts)" using safe by (simp add: plan_safe_specs Let_def)
  then show ?thesis
    by (cases ev) (auto simp: k8_spec_def float_fact_def int_fact_def store_evidence_fact_val [OF ex]
        DEFAULT_MAX_EVIDENCE_AGE_def DEFAULT_MIN_PROBE_SAMPLES_def DEFAULT_MIRROR_DROP_CEILING_def)
qed

lemma safe_rollback:
  assumes ex: "extract_all src now p ev context = Inr facts" and safe: "plan_safe std p facts"
    and act: "action p = ROLLBACK_DEPLOY"
    and ds: "(case map_option recent_deploys context of Some ds \<Rightarrow> Some ds | None \<Rightarrow> fs_deploy_history src)
      = Some deploys"
  shows "\<exists>tc d m. rollback_commit p = Some tc \<and> find_rollback_target tc deploys = Some d \<and>
    latest_migration deploys = Some m \<and> \<not> contains_migration d \<and> deployed_at m \<le> deployed_at d"
proof -
  have "k3_spec (kernel_context std p facts)" using safe by (simp add: plan_safe_specs Let_def)
  then show ?thesis using act
    by (auto simp: k3_spec_def k3_name_extracted [OF ex _ ds] datetime_fact_def bool_fact_def
        deploys_fact_val [OF ex ds] split: option.splits bind_splits)
qed

subsection \<open>A rollback that passes\<close>

definition sample_target :: ResourceRef where
  "sample_target = \<lparr>ref_namespace = ''ust-prod'', ref_kind = Deployment, ref_name = ''db''\<rparr>"

definition sample_params :: "string \<Rightarrow> ActionParams" where
  "sample_params tc = \<lparr>workload = ''db'', target_commit = Some tc, replica_delta = None,
     flag_name = None, config_key = None, config_value = None\<rparr>"

definition sample_rollback :: RemediationPlan where
  "sample_rollback = RemediationPlan ''p1'' 0 ROLLBACK_DEPLOY (sample_params ''c2'') [sample_target] [''gw'']
     (Some (RemediationPlan ''p1-inv'' 0 ROLLBACK_DEPLOY (sample_params ''c3'') [sample_target] [''gw'']
        None ''undo'' Planner None)) ''bad deploy'' Planner None"

definition sample_deploy :: "string \<Rightarrow> rat \<Rightarrow> bool \<Rightarrow> DeployRef" where
  "sample_deploy sha t mig = \<lparr>commit_sha = sha, image_digests = [], deployed_at = t, pr_number = None,
     contains_migration = mig\<rparr>"

definition sample_sources :: FactSources where
  "sample_sources = \<lparr>
     fs_k8s = Some \<lparr>ks_egress_policy = (\<lambda>ns. True), ks_replicas = (\<lambda>ns svc. Some (2, 2))\<rparr>,
     fs_deploy_history = Some [sample_deploy ''c3'' 30 False, sample_deploy ''c2'' 20 False,
       sample_deploy ''c1'' 10 True],
     fs_runs = Some ([], []),
     fs_graph = Some (mk_graph [''db'', ''gw''] [(''gw'', ''db'')] []),
     fs_prod_namespace = ''ust-prod'', fs_mutation_budget = None, fs_mutation_window_minutes = None,
     fs_min_replicas = Some [(''db'', PInt 1)]\<rparr>"

definition sample_evidence :: "ProbeSample list \<Rightarrow> CandidateEvidence" where
  "sample_evidence probes = \<lparr>ev_plan_id = ''p1'', ev_twin_id = ''t1'', ev_applied_at = 100,
     ev_probes = probes, ev_recovered = True, ev_recovery_seconds = Some 5, ev_observed_blast_set = [''gw''],
     ev_downstream_error_delta = 0, ev_invariant_violations = [],
     ev_mirror_stats = \<lparr>ms_twin_id = ''t1'', ms_delivered = 100, ms_dropped = 0\<rparr>,
     evidence_complete = True\<rparr>"

definition sample_probe :: ProbeSample where
  "sample_probe = \<lparr>ps_at = 0, ps_healthy = True, ps_p99_latency_ms = 1, ps_error_rate = 0\<rparr>"

lemma sample_rollback_run:
  "case extract_all sample_sources 120 sample_rollback (Some (sample_evidence (replicate 60 sample_probe))) None of
     Inl e \<Rightarrow> False
   | Inr facts \<Rightarrow>
       (case verify sample_std pin_solver (\<lambda>n. 0) 5 None None 120 sample_rollback facts of
          Inr v \<Rightarrow> verdict v = PASS | Inl e \<Rightarrow> False)"
  by code_simp

lemma sample_rollback_obtain:
  obtains facts v where
    "extract_all sample_sources 120 sample_rollback (Some (sample_evidence (replicate 60 sample_probe))) None
       = Inr facts"
    "verify sample_std pin_solver (\<lambda>n. 0) 5 None None 120 sample_rollback facts = Inr v" "verdict v = PASS"
  using sample_rollback_run by (auto split: sum.splits)



text \<open>No plan passes on stale, thin or lossy evidence, and none without evidence: a PASS on the
  extracted facts has evidence at most 300 seconds old, at least 60 probe samples and a mirror drop
  ratio of at most 5 percent.\<close>

theorem pass_needs_evidence:
  assumes "solver_sound solver" "extract_all src now p ev context = Inr facts"
    and "verify std solver perf secs None inc now' p facts = Inr v" "verdict v = PASS"
  shows "\<exists>e. ev = Some e \<and> now - ev_applied_at e \<le> 300 \<and> 60 \<le> length (ev_probes e) \<and>
    drop_ratio (ev_mirror_stats e) \<le> 1 / 20"
  by (rule safe_evidence [OF assms(2) verify_pass_safe [OF assms(1,3,4)]])

lemma pass_needs_evidence_witness:
  "60 \<le> length (replicate 60 sample_probe)"
proof -
  obtain facts v where
    "extract_all sample_sources 120 sample_rollback (Some (sample_evidence (replicate 60 sample_probe))) None
       = Inr facts"
    "verify sample_std pin_solver (\<lambda>n. 0) 5 None None 120 sample_rollback facts = Inr v" "verdict v = PASS"
    by (rule sample_rollback_obtain)
  from pass_needs_evidence [OF pin_solver_sound this] show ?thesis by (simp add: sample_evidence_def)
qed

text \<open>C10: a rollback the kernel passes on the extracted facts goes to a deploy found in the history
  that has no migration and is not older than the latest one that has; when the history shows no
  migration at all, no rollback passes.\<close>

theorem pass_rollback_boundary:
  assumes "solver_sound solver" "extract_all src now p ev context = Inr facts"
    and "verify std solver perf secs None inc now' p facts = Inr v" "verdict v = PASS"
    and "action p = ROLLBACK_DEPLOY"
    and "(case map_option recent_deploys context of Some ds \<Rightarrow> Some ds | None \<Rightarrow> fs_deploy_history src)
      = Some deploys"
  shows "\<exists>tc d. rollback_commit p = Some tc \<and> find_rollback_target tc deploys = Some d \<and>
    \<not> contains_migration d \<and> (\<exists>m \<in> set deploys. contains_migration m) \<and>
    (\<forall>m \<in> set deploys. contains_migration m \<longrightarrow> deployed_at m \<le> deployed_at d)"
proof -
  from safe_rollback [OF assms(2) verify_pass_safe [OF assms(1,3,4)] assms(5,6)]
  obtain tc d m where 1: "rollback_commit p = Some tc" "find_rollback_target tc deploys = Some d"
    "latest_migration deploys = Some m" "\<not> contains_migration d" "deployed_at m \<le> deployed_at d" by blast
  from 1(3) obtain x xs where xs: "filter contains_migration deploys = x # xs"
    and m: "m = max_by deployed_at x xs" by (auto simp: latest_migration_def split: list.splits)
  then have mem: "\<And>y. y \<in> set deploys \<and> contains_migration y \<longleftrightarrow> y \<in> insert x (set xs)"
    by (metis (no_types, lifting) list.simps(15) mem_Collect_eq set_filter)
  have "\<forall>y \<in> set deploys. contains_migration y \<longrightarrow> deployed_at y \<le> deployed_at d"
    using mem max_by_ge [of _ x xs deployed_at] m 1(5) by (metis order_trans)
  moreover have "\<exists>y \<in> set deploys. contains_migration y" using mem by blast
  ultimately show ?thesis using 1(1,2,4) by blast
qed

lemma pass_rollback_boundary_witness:
  "\<exists>d. find_rollback_target ''c2''
      [sample_deploy ''c3'' 30 False, sample_deploy ''c2'' 20 False, sample_deploy ''c1'' 10 True] = Some d \<and>
    \<not> contains_migration d \<and> deployed_at (sample_deploy ''c1'' 10 True) \<le> deployed_at d"
proof -
  obtain facts v where
    run: "extract_all sample_sources 120 sample_rollback (Some (sample_evidence (replicate 60 sample_probe)))
       None = Inr facts"
    "verify sample_std pin_solver (\<lambda>n. 0) 5 None None 120 sample_rollback facts = Inr v" "verdict v = PASS"
    by (rule sample_rollback_obtain)
  have "action sample_rollback = ROLLBACK_DEPLOY" by (simp add: sample_rollback_def)
  from pass_rollback_boundary [OF pin_solver_sound run this] show ?thesis
    by (auto simp: sample_sources_def sample_rollback_def sample_params_def rollback_commit_def
        find_rollback_target_def sample_deploy_def startswith_def)
qed

end
