(* ===== verification/Scorer.thy ===== *)
theory Scorer
  imports Contracts
begin

text \<open>
  \<^verbatim>\<open>tournament/scorer.py\<close>: the deterministic score of a rehearsal, its disqualification rules, and
  the order between scores.  The dependency graph enters as the request share it gives a service;
  loading the configuration from YAML or the settings is not modelled.
\<close>

section \<open>Configuration\<close>

record ScoringConfig =
  recovery_weight :: rat
  blast_weight :: rat
  downstream_weight :: rat
  violations_weight :: rat
  recovery_timeout_seconds :: rat
  downstream_error_ceiling :: rat
  violation_ceiling :: int
  mirror_drop_ceiling :: rat
  min_probe_samples :: int
  scoring_ambiguity_margin :: rat
  hard_invariants :: "string list"
  service_request_shares :: "(string \<times> rat) list"

definition default_scoring_config :: ScoringConfig where
  "default_scoring_config = \<lparr>
     recovery_weight = 2 / 5, blast_weight = 1 / 4, downstream_weight = 1 / 5, violations_weight = 3 / 20,
     recovery_timeout_seconds = 180, downstream_error_ceiling = 1 / 10, violation_ceiling = 5,
     mirror_drop_ceiling = 1 / 20, min_probe_samples = 60, scoring_ambiguity_margin = 3 / 20,
     hard_invariants = [''K6'', ''K10''],
     service_request_shares = [(''edge-gateway'', 2 / 5), (''auth-service'', 3 / 10),
       (''data-service'', 1 / 5), (''worker'', 1 / 10)]\<rparr>"

text \<open>\<^verbatim>\<open>_validate_weights\<close>: \<open>True\<close> when the validator lets the configuration through.\<close>

definition weights_valid :: "ScoringConfig \<Rightarrow> bool" where
  "weights_valid cfg \<longleftrightarrow>
     \<bar>recovery_weight cfg + blast_weight cfg + downstream_weight cfg + violations_weight cfg - 1\<bar> \<le> 1 / 10000"

section \<open>Subscores\<close>

datatype ScoreExc = MissingRequestShares "string list"

definition compute_recovery_subscore :: "bool \<Rightarrow> rat option \<Rightarrow> rat \<Rightarrow> rat" where
  "compute_recovery_subscore recovered seconds timeout =
     (if \<not> recovered then 1
      else case seconds of
        None \<Rightarrow> 1
      | Some s \<Rightarrow> if timeout \<le> 0 then 1 else min (max (s / timeout) 0) 1)"

definition share_sum :: "(string \<times> rat) list \<Rightarrow> string list \<Rightarrow> ScoreExc + rat" where
  "share_sum shares observed =
     (let missing = filter (\<lambda>s. map_of shares s = None) observed in
      if missing \<noteq> [] then Inl (MissingRequestShares missing)
      else Inr (sum_list (map (\<lambda>s. the (map_of shares s)) observed)))"

text \<open>\<open>loaded\<close> is the configuration \<open>load_scoring_config()\<close> returns.\<close>

definition compute_blast_subscore :: "ScoringConfig \<Rightarrow> string list \<Rightarrow> (string \<times> rat) list option \<Rightarrow>
    (string \<Rightarrow> rat) option \<Rightarrow> rat option \<Rightarrow> ScoreExc + rat" where
  "compute_blast_subscore loaded observed request_shares graph blast_radius =
     (case blast_radius of
        Some b \<Rightarrow> Inr (min (max b 0) 1)
      | None \<Rightarrow>
          if observed = [] then Inr 0
          else bindE
            (case graph of
               Some share \<Rightarrow> Inr (sum_list (map share observed))
             | None \<Rightarrow>
                 (case request_shares of
                    Some shares \<Rightarrow> share_sum shares observed
                  | None \<Rightarrow> share_sum (service_request_shares loaded) observed))
            (\<lambda>val. Inr (min (max val 0) 1)))"

definition compute_downstream_subscore :: "rat \<Rightarrow> rat \<Rightarrow> rat" where
  "compute_downstream_subscore delta bound =
     (if bound \<le> 0 then (if delta > 0 then 1 else 0) else min (max (delta / bound) 0) 1)"

definition compute_violations_subscore :: "int \<Rightarrow> int \<Rightarrow> rat" where
  "compute_violations_subscore count bound =
     (if bound \<le> 0 then (if count > 0 then 1 else 0)
      else min (max (of_int count / of_int bound) 0) 1)"

section \<open>Disqualification\<close>

definition hard_violation :: "ScoringConfig \<Rightarrow> string \<Rightarrow> bool" where
  "hard_violation cfg v \<longleftrightarrow> v \<in> set (hard_invariants cfg) \<or> startswith v ''hard:''"

definition check_disqualification :: "CandidateEvidence \<Rightarrow> ScoringConfig \<Rightarrow> bool \<Rightarrow> bool \<times> string option" where
  "check_disqualification ev cfg twin_ready =
     (if \<not> twin_ready \<or> ''twin_not_ready'' \<in> set (ev_invariant_violations ev)
      then (True, Some ''twin_not_ready'')
      else case find (hard_violation cfg) (ev_invariant_violations ev) of
        Some v \<Rightarrow> (True, Some (''hard_invariant_violation: '' @ v))
      | None \<Rightarrow>
          if \<not> evidence_complete ev then (True, Some ''evidence_incomplete'')
          else if drop_ratio (ev_mirror_stats ev) > mirror_drop_ceiling cfg
          then (True, Some ''evidence_incomplete'')
          else if int (length (ev_probes ev)) < min_probe_samples cfg
          then (True, Some ''evidence_incomplete'')
          else (False, None))"

section \<open>Scores\<close>

definition raw_composite :: "ScoringConfig \<Rightarrow> rat \<Rightarrow> rat \<Rightarrow> rat \<Rightarrow> rat \<Rightarrow> rat" where
  "raw_composite cfg rec_score blast_score downstream_score violations_score =
     recovery_weight cfg * rec_score + blast_weight cfg * blast_score +
     downstream_weight cfg * downstream_score + violations_weight cfg * violations_score"

definition score_candidate :: "ScoringConfig \<Rightarrow> CandidateEvidence \<Rightarrow> ScoringConfig \<Rightarrow>
    (string \<times> rat) list option \<Rightarrow> (string \<Rightarrow> rat) option \<Rightarrow> bool \<Rightarrow> rat option \<Rightarrow>
    ScoreExc + CandidateScore" where
  "score_candidate loaded ev cfg request_shares graph twin_ready blast_radius =
     (let rec_score = compute_recovery_subscore (ev_recovered ev) (ev_recovery_seconds ev)
            (recovery_timeout_seconds cfg) in
      bindE (compute_blast_subscore loaded (ev_observed_blast_set ev) request_shares graph blast_radius)
        (\<lambda>blast_score.
         let downstream_score = compute_downstream_subscore (ev_downstream_error_delta ev)
               (downstream_error_ceiling cfg);
             violations_score = compute_violations_subscore
               (int (length (ev_invariant_violations ev))) (violation_ceiling cfg);
             (disq, reason) = check_disqualification ev cfg twin_ready;
             comp = (if disq then 1
               else min (max (raw_composite cfg rec_score blast_score downstream_score violations_score) 0) 1) in
         Inr \<lparr>cs_plan_id = ev_plan_id ev, composite = py_round 4 comp,
              components = [(''recovery'', py_round 4 rec_score), (''blast'', py_round 4 blast_score),
                (''downstream'', py_round 4 downstream_score), (''violations'', py_round 4 violations_score)],
              disqualified = disq, disqualification_reason = reason\<rparr>))"

text \<open>\<open>twins_ready\<close> and \<open>blast_scores\<close> are dicts by plan id; an empty one counts as none.\<close>

definition score_candidates :: "ScoringConfig \<Rightarrow> ScoringConfig \<Rightarrow> (string \<times> rat) list option \<Rightarrow>
    (string \<Rightarrow> rat) option \<Rightarrow> (string \<times> bool) list \<Rightarrow> (string \<times> rat) list \<Rightarrow>
    CandidateEvidence list \<Rightarrow> ScoreExc + CandidateScore list" where
  "score_candidates loaded cfg request_shares graph twins_ready blast_scores evidences =
     mapE (\<lambda>ev. score_candidate loaded ev cfg request_shares graph
       (case map_of twins_ready (ev_plan_id ev) of Some b \<Rightarrow> b | None \<Rightarrow> True)
       (map_of blast_scores (ev_plan_id ev))) evidences"

section \<open>Lemmas\<close>

lemma unit_clamp: "0 \<le> min (max x (0::rat)) 1" "min (max x (0::rat)) 1 \<le> 1"
  by auto

lemma subscore_unit:
  "0 \<le> compute_recovery_subscore b s t \<and> compute_recovery_subscore b s t \<le> 1"
  "0 \<le> compute_downstream_subscore d c \<and> compute_downstream_subscore d c \<le> 1"
  "0 \<le> compute_violations_subscore n m \<and> compute_violations_subscore n m \<le> 1"
  "compute_blast_subscore l obs sh g r = Inr x \<Longrightarrow> 0 \<le> x \<and> x \<le> 1"
  by (auto simp: compute_recovery_subscore_def compute_downstream_subscore_def
      compute_violations_subscore_def compute_blast_subscore_def bindE_Inr_iff
      split: option.splits if_splits)

lemma check_disqualification_iff:
  "fst (check_disqualification ev cfg ready) \<longleftrightarrow>
     \<not> ready \<or> ''twin_not_ready'' \<in> set (ev_invariant_violations ev) \<or>
     (\<exists>v \<in> set (ev_invariant_violations ev). hard_violation cfg v) \<or> \<not> evidence_complete ev \<or>
     drop_ratio (ev_mirror_stats ev) > mirror_drop_ceiling cfg \<or>
     int (length (ev_probes ev)) < min_probe_samples cfg"
  by (auto simp: check_disqualification_def find_None_iff split: option.splits dest: find_Some_set)

lemma score_candidate_Inr:
  assumes "score_candidate loaded ev cfg shares graph ready radius = Inr s"
  obtains b where "compute_blast_subscore loaded (ev_observed_blast_set ev) shares graph radius = Inr b"
    "cs_plan_id s = ev_plan_id ev"
    "(disqualified s, disqualification_reason s) = check_disqualification ev cfg ready"
    "composite s = py_round 4 (if disqualified s then 1 else
       min (max (raw_composite cfg
         (compute_recovery_subscore (ev_recovered ev) (ev_recovery_seconds ev) (recovery_timeout_seconds cfg)) b
         (compute_downstream_subscore (ev_downstream_error_delta ev) (downstream_error_ceiling cfg))
         (compute_violations_subscore (int (length (ev_invariant_violations ev))) (violation_ceiling cfg))) 0) 1)"
proof -
  obtain d q where "check_disqualification ev cfg ready = (d, q)" by fastforce
  with assms that show thesis by (auto simp: score_candidate_def Let_def bindE_Inr_iff)
qed

text \<open>A score on the four-digit grid.\<close>

definition on_grid :: "rat \<Rightarrow> bool" where
  "on_grid x \<longleftrightarrow> (\<exists>n :: int. x * 10000 = of_int n)"

lemma on_grid_round: "on_grid (py_round 4 x)"
  unfolding on_grid_def py_round_def by (rule exI [of _ "round_half_even (x * 10 ^ 4)"]) simp

lemma on_grid_diff: "on_grid x \<Longrightarrow> on_grid y \<Longrightarrow> on_grid (x - y)"
  unfolding on_grid_def by (metis left_diff_distrib of_int_diff)

lemma py_round_on_grid: "on_grid x \<Longrightarrow> py_round 4 x = x"
  unfolding on_grid_def using py_round_grid [of x 4] by auto

text \<open>A candidate's composite score lies in [0, 1], on the grid of four decimals, and is 1 when
  the candidate is disqualified; it is disqualified exactly when its twin was not ready, a hard
  invariant was violated, or its evidence is incomplete, lossy or thin.\<close>

theorem score_candidate_spec:
  assumes "score_candidate loaded ev cfg shares graph ready radius = Inr s"
  shows "0 \<le> composite s \<and> composite s \<le> 1 \<and> on_grid (composite s) \<and>
    (disqualified s \<longrightarrow> composite s = 1) \<and>
    (disqualified s \<longleftrightarrow> \<not> ready \<or> ''twin_not_ready'' \<in> set (ev_invariant_violations ev) \<or>
       (\<exists>v \<in> set (ev_invariant_violations ev). hard_violation cfg v) \<or> \<not> evidence_complete ev \<or>
       drop_ratio (ev_mirror_stats ev) > mirror_drop_ceiling cfg \<or>
       int (length (ev_probes ev)) < min_probe_samples cfg)"
proof -
  from assms obtain b where b: "(disqualified s, disqualification_reason s) = check_disqualification ev cfg ready"
    and c: "composite s = py_round 4 (if disqualified s then 1 else
       min (max (raw_composite cfg
         (compute_recovery_subscore (ev_recovered ev) (ev_recovery_seconds ev) (recovery_timeout_seconds cfg)) b
         (compute_downstream_subscore (ev_downstream_error_delta ev) (downstream_error_ceiling cfg))
         (compute_violations_subscore (int (length (ev_invariant_violations ev))) (violation_ceiling cfg))) 0) 1)"
    by (rule score_candidate_Inr)
  have "disqualified s = fst (check_disqualification ev cfg ready)" using b by (metis fst_conv)
  moreover have "0 \<le> composite s \<and> composite s \<le> 1" unfolding c by (rule py_round_unit) auto
  moreover have "on_grid (composite s)" unfolding c by (rule on_grid_round)
  moreover have "disqualified s \<longrightarrow> composite s = 1" unfolding c by simp
  ultimately show ?thesis using check_disqualification_iff by blast
qed

definition scorer_sample_evidence :: "string \<Rightarrow> rat \<Rightarrow> CandidateEvidence" where
  "scorer_sample_evidence pid secs = \<lparr>ev_plan_id = pid, ev_twin_id = ''t'', ev_applied_at = 0,
     ev_probes = replicate 60 \<lparr>ps_at = 0, ps_healthy = True, ps_p99_latency_ms = 1, ps_error_rate = 0\<rparr>,
     ev_recovered = True, ev_recovery_seconds = Some secs, ev_observed_blast_set = [],
     ev_downstream_error_delta = 0, ev_invariant_violations = [],
     ev_mirror_stats = \<lparr>ms_twin_id = ''t'', ms_delivered = 100, ms_dropped = 0\<rparr>, evidence_complete = True\<rparr>"

lemma score_candidate_spec_witness:
  "\<exists>s. score_candidate default_scoring_config (scorer_sample_evidence ''p'' 45) default_scoring_config
     None None True None = Inr s \<and> composite s = 1 / 10 \<and> on_grid (composite s) \<and> \<not> disqualified s"
proof -
  have run: "case score_candidate default_scoring_config (scorer_sample_evidence ''p'' 45)
      default_scoring_config None None True None of
      Inr s \<Rightarrow> composite s = 1 / 10 \<and> \<not> disqualified s | Inl e \<Rightarrow> False" by code_simp
  then obtain s where s: "score_candidate default_scoring_config (scorer_sample_evidence ''p'' 45)
      default_scoring_config None None True None = Inr s" "composite s = 1 / 10" "\<not> disqualified s"
    by (auto split: sum.splits)
  from score_candidate_spec [OF s(1)] s show ?thesis by blast
qed

text \<open>The order on evidence under which scores are monotone: \<open>e\<close> is no worse than \<open>e'\<close>.\<close>

definition no_worse :: "CandidateEvidence \<Rightarrow> CandidateEvidence \<Rightarrow> bool" where
  "no_worse e e' \<longleftrightarrow>
     (ev_recovered e' \<longrightarrow> ev_recovered e) \<and>
     (ev_recovered e' \<longrightarrow> (case (ev_recovery_seconds e, ev_recovery_seconds e') of
        (Some s, Some s') \<Rightarrow> s \<le> s' | (None, Some s') \<Rightarrow> False | _ \<Rightarrow> True)) \<and>
     ev_downstream_error_delta e \<le> ev_downstream_error_delta e' \<and>
     length (ev_invariant_violations e) \<le> length (ev_invariant_violations e')"

lemma recovery_mono:
  assumes "b' \<longrightarrow> b"
    and "b' \<longrightarrow> (case (s, s') of (Some x, Some x') \<Rightarrow> x \<le> x' | (None, Some x') \<Rightarrow> False | _ \<Rightarrow> True)"
  shows "compute_recovery_subscore b s t \<le> compute_recovery_subscore b' s' t"
proof -
  have "x \<le> x' \<Longrightarrow> 0 < t \<Longrightarrow> min (max (x / t) 0) 1 \<le> min (max (x' / t) 0) 1" for x x' :: rat
    by (intro min.mono max.mono) (auto simp: divide_right_mono)
  then show ?thesis using assms
    by (auto simp: compute_recovery_subscore_def not_le split: option.splits)
qed

lemma clamp_mono: "x \<le> y \<Longrightarrow> min (max x (0::rat)) 1 \<le> min (max y 0) 1"
  by linarith

lemma downstream_mono:
  assumes "d \<le> d'" shows "compute_downstream_subscore d c \<le> compute_downstream_subscore d' c"
proof (cases "c \<le> 0")
  case False
  with assms have "d / c \<le> d' / c" by (simp add: divide_right_mono)
  with False show ?thesis by (simp only: compute_downstream_subscore_def if_False clamp_mono)
qed (use assms in \<open>simp add: compute_downstream_subscore_def\<close>)

lemma violations_mono:
  assumes "n \<le> n'" shows "compute_violations_subscore n c \<le> compute_violations_subscore n' c"
proof (cases "c \<le> 0")
  case False
  with assms have "rat_of_int n / rat_of_int c \<le> rat_of_int n' / rat_of_int c"
    by (simp add: divide_right_mono)
  with False show ?thesis by (simp only: compute_violations_subscore_def if_False clamp_mono)
qed (use assms in \<open>simp add: compute_violations_subscore_def\<close>)

text \<open>The composite score is monotone.  With weights that are not negative, evidence that is no
  worse in recovery, downstream errors and violations, rehearsed with no larger blast radius and not
  disqualified, never scores higher (worse).\<close>

theorem score_monotone:
  assumes "0 \<le> recovery_weight cfg" "0 \<le> blast_weight cfg" "0 \<le> downstream_weight cfg"
    "0 \<le> violations_weight cfg"
    and "score_candidate loaded e cfg shares graph ready (Some r) = Inr s"
    and "score_candidate loaded e' cfg shares graph ready' (Some r') = Inr s'"
    and "no_worse e e'" "r \<le> r'" "\<not> disqualified s"
  shows "composite s \<le> composite s'"
proof -
  let ?raw = "\<lambda>e b. raw_composite cfg
     (compute_recovery_subscore (ev_recovered e) (ev_recovery_seconds e) (recovery_timeout_seconds cfg)) b
     (compute_downstream_subscore (ev_downstream_error_delta e) (downstream_error_ceiling cfg))
     (compute_violations_subscore (int (length (ev_invariant_violations e))) (violation_ceiling cfg))"
  from assms(5) obtain b where b: "compute_blast_subscore loaded (ev_observed_blast_set e) shares graph (Some r) = Inr b"
    "composite s = py_round 4 (if disqualified s then 1 else min (max (?raw e b) 0) 1)"
    by (rule score_candidate_Inr)
  from assms(6) obtain b' where b': "compute_blast_subscore loaded (ev_observed_blast_set e') shares graph (Some r') = Inr b'"
    "composite s' = py_round 4 (if disqualified s' then 1 else min (max (?raw e' b') 0) 1)"
    by (rule score_candidate_Inr)
  have "b \<le> b'" using b(1) b'(1) assms(8) by (auto simp: compute_blast_subscore_def)
  then have "?raw e b \<le> ?raw e' b'"
    using assms(1-4,7) unfolding raw_composite_def no_worse_def
    by (intro add_mono mult_left_mono recovery_mono downstream_mono violations_mono) auto
  then have "min (max (?raw e b) 0) 1 \<le> (if disqualified s' then 1 else min (max (?raw e' b') 0) 1)"
    using clamp_mono unit_clamp(2) by presburger
  then show ?thesis unfolding b(2) b'(2) using assms(9) by (simp only: if_False py_round_mono)
qed

lemma score_monotone_witness:
  "py_round 4 (1 / 10) \<le> py_round 4 (1 / 5)"
proof -
  have "case score_candidate default_scoring_config (scorer_sample_evidence ''p'' 45)
      default_scoring_config None None True (Some 0) of
      Inr s \<Rightarrow> composite s = py_round 4 (1 / 10) \<and> \<not> disqualified s | Inl e \<Rightarrow> False"
    "case score_candidate default_scoring_config (scorer_sample_evidence ''p'' 90)
      default_scoring_config None None True (Some 0) of
      Inr s \<Rightarrow> composite s = py_round 4 (1 / 5) | Inl e \<Rightarrow> False" by code_simp+
  then obtain s s' where
    s: "score_candidate default_scoring_config (scorer_sample_evidence ''p'' 45)
      default_scoring_config None None True (Some 0) = Inr s" "composite s = py_round 4 (1 / 10)" "\<not> disqualified s"
    and s': "score_candidate default_scoring_config (scorer_sample_evidence ''p'' 90)
      default_scoring_config None None True (Some 0) = Inr s'" "composite s' = py_round 4 (1 / 5)"
    by (auto split: sum.splits)
  have "no_worse (scorer_sample_evidence ''p'' 45) (scorer_sample_evidence ''p'' 90)"
    by (simp add: no_worse_def scorer_sample_evidence_def)
  from score_monotone [OF _ _ _ _ s(1) s'(1) this order_refl s(3)] s(2) s'(2) show ?thesis
    by (simp add: default_scoring_config_def)
qed

end
