(* ===== verification/Arbiter.thy ===== *)
theory Arbiter
  imports Scorer "HOL-Library.Multiset"
begin

text \<open>
  \<^verbatim>\<open>tournament/arbiter.py\<close> and the pure parts of \<^verbatim>\<open>tournament/judge.py\<close>: the decision between scored
  candidates, the agreement with the advisory ranking, the clean-up of the ranking the model
  returns, and the assembly of a rehearsal into evidence.  The call of the language model and the
  parsing of its JSON are not modelled; their result is an argument.
\<close>

section \<open>The advisory judge\<close>

record JudgeEvaluation =
  je_ranking :: "string list"
  je_reasons :: "(string \<times> string) list"
  je_rationale :: string
  je_model :: string

text \<open>The clean-up loops of \<^verbatim>\<open>parse_judge_response\<close> over the parsed ranking and reasons.\<close>

definition sanitize_ranking :: "PyVal list \<Rightarrow> string list \<Rightarrow> string list" where
  "sanitize_ranking raw candidate_ids =
     (let kept = uniq (concat (map (\<lambda>v. case v of PStr pid \<Rightarrow>
            if pid \<in> set candidate_ids then [pid] else [] | _ \<Rightarrow> []) raw)) in
      kept @ filter (\<lambda>pid. pid \<notin> set kept) (uniq candidate_ids))"

definition sanitize_reasons :: "(string \<times> PyVal) list \<Rightarrow> string list \<Rightarrow> (string \<times> string) list" where
  "sanitize_reasons raw candidate_ids = dict_of (map (\<lambda>pid. (pid,
     case map_of raw pid of
       Some (PStr r) \<Rightarrow> if py_strip r \<noteq> [] then py_strip r
                        else ''Candidate '' @ pid @ '' ranked by advisory judge.''
     | _ \<Rightarrow> ''Candidate '' @ pid @ '' ranked by advisory judge.'')) candidate_ids)"

text \<open>The target is a plan id or a list of scores, whose best composite then counts.\<close>

datatype AgreementTarget = TargetPlan string | TargetScores "CandidateScore list" | NoTarget

definition compute_judge_agreement :: "string list option \<Rightarrow> AgreementTarget \<Rightarrow> bool option" where
  "compute_judge_agreement ranking target =
     (case ranking of None \<Rightarrow> None | Some [] \<Rightarrow> None
      | Some (preferred # _) \<Rightarrow>
          (case target of
             TargetPlan pid \<Rightarrow> Some (preferred = pid)
           | TargetScores [] \<Rightarrow> None
           | TargetScores (s # ss) \<Rightarrow> Some (preferred = cs_plan_id (min_by composite s ss))
           | NoTarget \<Rightarrow> None))"

section \<open>Arbitration\<close>

datatype ArbiterExc = WinnerMismatch "string option" "string option"

definition score_key :: "CandidateScore \<Rightarrow> rat \<times> string" where
  "score_key s = (composite s, cs_plan_id s)"

definition derive_winner_from_scores :: "CandidateScore list \<Rightarrow> rat \<Rightarrow> string option" where
  "derive_winner_from_scores scores ambiguity_margin =
     (case sort_key score_key (filter (\<lambda>s. \<not> disqualified s) scores) of
        [] \<Rightarrow> None
      | best # rest \<Rightarrow>
          (let gap = (case rest of
               runner_up # _ \<Rightarrow> composite runner_up - composite best
             | [] \<Rightarrow>
                 (case filter (\<lambda>s. cs_plan_id s \<noteq> cs_plan_id best) scores of
                    o1 # os \<Rightarrow> composite (min_by score_key o1 os) - composite best
                  | [] \<Rightarrow> 1 - composite best)) in
           if gap < ambiguity_margin - 1 / 1000000 then None else Some (cs_plan_id best)))"

definition effective_ranking :: "string list option \<Rightarrow> JudgeEvaluation option \<Rightarrow> string list option" where
  "effective_ranking ranking judge =
     (case ranking of
        Some r \<Rightarrow> Some r
      | None \<Rightarrow> (case judge of
          Some j \<Rightarrow> if je_ranking j \<noteq> [] then Some (je_ranking j) else None
        | None \<Rightarrow> None))"

definition no_viable_result :: "string \<Rightarrow> CandidateScore list \<Rightarrow> string list option \<Rightarrow> instant \<Rightarrow> TournamentResult" where
  "no_viable_result incident scores ranking now = \<lparr>tr_incident_id = incident,
     tr_outcome = NO_VIABLE_CANDIDATE, tr_scores = scores, llm_ranking = ranking, llm_agreement = None,
     winner_plan_id = None, runner_up_plan_id = None, margin = None, decided_at = now\<rparr>"

text \<open>The runner-up and the rounded margin of the best viable candidate.\<close>

definition runner_up :: "CandidateScore list \<Rightarrow> CandidateScore \<Rightarrow> CandidateScore list \<Rightarrow> string option \<times> rat" where
  "runner_up scores best rest =
     (case rest of
        r # _ \<Rightarrow> (Some (cs_plan_id r), py_round 4 (composite r - composite best))
      | [] \<Rightarrow>
          (case sort_key score_key (filter (\<lambda>s. cs_plan_id s \<noteq> cs_plan_id best) scores) of
             r # _ \<Rightarrow> (Some (cs_plan_id r), py_round 4 (composite r - composite best))
           | [] \<Rightarrow> (None, py_round 4 (1 - composite best))))"

definition arbitrate :: "CandidateScore list \<Rightarrow> string list option \<Rightarrow> JudgeEvaluation option \<Rightarrow> string \<Rightarrow>
    rat \<Rightarrow> instant \<Rightarrow> ArbiterExc + TournamentResult" where
  "arbitrate scores ranking judge incident ambiguity_margin now =
     (let eff = effective_ranking ranking judge in
      if scores = [] then Inr (no_viable_result incident [] None now)
      else case sort_key score_key (filter (\<lambda>s. \<not> disqualified s) scores) of
        [] \<Rightarrow> Inr (no_viable_result incident scores eff now)
      | best # rest \<Rightarrow>
          (let (runner_id, gap) = runner_up scores best rest;
               ambiguous = gap < ambiguity_margin - 1 / 1000000;
               winner = (if ambiguous then None else Some (cs_plan_id best));
               score_only = derive_winner_from_scores scores ambiguity_margin in
           if winner \<noteq> score_only then Inl (WinnerMismatch winner score_only)
           else Inr \<lparr>tr_incident_id = incident,
             tr_outcome = (if ambiguous then AMBIGUOUS else DECIDED), tr_scores = scores,
             llm_ranking = eff,
             llm_agreement = (case winner of Some w \<Rightarrow> compute_judge_agreement eff (TargetPlan w) | None \<Rightarrow> None),
             winner_plan_id = winner,
             runner_up_plan_id = (if ambiguous then None else runner_id),
             margin = Some gap, decided_at = now\<rparr>))"

section \<open>Rehearsals\<close>

record ProbeResult =
  pr_probes :: "ProbeSample list"
  pr_recovered :: bool
  pr_recovery_seconds :: "rat option"
  pr_timeout_exceeded :: bool

record BlastResult =
  br_observed_blast_set :: "string list"
  br_downstream_error_delta :: rat

text \<open>
  What a rehearsal asks of the twin: probing it (\<open>probe_environment\<close>), its blast result
  (\<open>evaluate_environment\<close> against the baseline \<open>capture_baseline\<close> took before), and its mirror statistics.
\<close>

record RehearsalWorld =
  rw_probe :: "(TwinHandle \<Rightarrow> instant \<Rightarrow> ProbeResult) option"
  rw_blast :: "(RemediationPlan \<Rightarrow> TwinHandle \<Rightarrow> instant \<Rightarrow> BlastResult) option"
  rw_mirror :: "(string \<Rightarrow> MirrorStats) option"

definition rehearse_one :: "(TwinHandle \<Rightarrow> instant \<Rightarrow> ProbeResult) \<Rightarrow>
    (RemediationPlan \<Rightarrow> TwinHandle \<Rightarrow> instant \<Rightarrow> BlastResult) \<Rightarrow> (string \<Rightarrow> MirrorStats) option \<Rightarrow>
    instant \<Rightarrow> TwinHandle \<Rightarrow> RemediationPlan \<Rightarrow> CandidateEvidence" where
  "rehearse_one probe_environment evaluate_environment mirror now twin p =
     (let applied_at = (case ready_at twin of Some t \<Rightarrow> t | None \<Rightarrow> now);
          probe = probe_environment twin applied_at;
          blast = evaluate_environment p twin applied_at;
          stats = (case mirror of
            Some get_stats \<Rightarrow> get_stats (twin_id twin)
          | None \<Rightarrow> \<lparr>ms_twin_id = twin_id twin, ms_delivered = 0, ms_dropped = 0\<rparr>) in
      \<lparr>ev_plan_id = plan_id p, ev_twin_id = twin_id twin, ev_applied_at = applied_at,
       ev_probes = pr_probes probe, ev_recovered = pr_recovered probe,
       ev_recovery_seconds = pr_recovery_seconds probe,
       ev_observed_blast_set = br_observed_blast_set blast,
       ev_downstream_error_delta = br_downstream_error_delta blast,
       ev_invariant_violations = [], ev_mirror_stats = stats,
       evidence_complete = (pr_recovered probe \<or> 60 \<le> length (pr_probes probe)) \<and>
         drop_ratio stats \<le> 1 / 20\<rparr>)"

datatype TournamentExc = TournamentUnconfigured | ScoringFailed ScoreExc | ArbitrationFailed ArbiterExc

text \<open>
  \<open>observe_and_score\<close> with the default scorer (\<open>score_candidates\<close> of the configuration and the
  graph) and a judge whose failure counts as no evaluation.
\<close>

definition observe_and_score :: "RehearsalWorld \<Rightarrow> ScoringConfig \<Rightarrow> ScoringConfig \<Rightarrow>
    (string \<times> rat) list option \<Rightarrow> (string \<Rightarrow> rat) option \<Rightarrow>
    (CandidateEvidence list \<Rightarrow> JudgeEvaluation option) \<Rightarrow> rat \<Rightarrow> instant \<Rightarrow>
    TwinHandle list \<Rightarrow> RemediationPlan list \<Rightarrow> TournamentExc + CandidateEvidence list \<times> TournamentResult" where
  "observe_and_score w loaded cfg shares graph judge ambiguity_margin now twins plans =
     (if twins = [] \<or> plans = [] then
        (case arbitrate [] None None ''inc_default'' ambiguity_margin now of
           Inl e \<Rightarrow> Inl (ArbitrationFailed e) | Inr r \<Rightarrow> Inr ([], r))
      else case (rw_probe w, rw_blast w) of
        (Some probe, Some blast) \<Rightarrow>
          (let evidences = map (\<lambda>(t, p). rehearse_one probe blast (rw_mirror w) now t p) (zip twins plans) in
           (case score_candidates loaded cfg shares graph [] [] evidences of
              Inl e \<Rightarrow> Inl (ScoringFailed e)
            | Inr scores \<Rightarrow>
                (case arbitrate scores None (judge evidences) (twin_incident_id (hd twins)) ambiguity_margin now of
                   Inl e \<Rightarrow> Inl (ArbitrationFailed e)
                 | Inr r \<Rightarrow> Inr (evidences, r))))
      | _ \<Rightarrow> Inl TournamentUnconfigured)"

section \<open>Lemmas\<close>

lemma min_by_sort:
  assumes "sort_key f (x # xs) = y # ys"
  shows "f (min_by f x xs) = f y"
proof (rule antisym)
  have y: "y \<in> insert x (set xs)" using assms by (metis list.set(2) list.set_intros(1) set_sort)
  then show "f (min_by f x xs) \<le> f y" by (rule min_by_le)
  have "sorted (map f (y # ys))" using assms by (metis sorted_sort_key)
  moreover have "min_by f x xs \<in> set (y # ys)" using min_by_in [of f x xs] assms
    by (metis list.set(2) set_sort)
  ultimately show "f y \<le> f (min_by f x xs)" by auto
qed

lemma sort_key_filter_Nil: "sort_key f xs = [] \<longleftrightarrow> xs = []"
  by (metis length_0_conv length_sort)

text \<open>The margin \<open>arbitrate\<close> rounds is the one \<open>derive_winner_from_scores\<close> compares.\<close>

definition raw_gap :: "CandidateScore list \<Rightarrow> CandidateScore \<Rightarrow> CandidateScore list \<Rightarrow> rat" where
  "raw_gap scores best rest = (case rest of
       r # _ \<Rightarrow> composite r - composite best
     | [] \<Rightarrow> (case filter (\<lambda>s. cs_plan_id s \<noteq> cs_plan_id best) scores of
          o1 # os \<Rightarrow> composite (min_by score_key o1 os) - composite best
        | [] \<Rightarrow> 1 - composite best))"

lemma derive_winner_Cons:
  "sort_key score_key (filter (\<lambda>s. \<not> disqualified s) scores) = best # rest \<Longrightarrow>
   derive_winner_from_scores scores am =
     (if raw_gap scores best rest < am - 1 / 1000000 then None else Some (cs_plan_id best))"
  by (simp add: derive_winner_from_scores_def raw_gap_def)

lemma runner_up_gap: "snd (runner_up scores best rest) = py_round 4 (raw_gap scores best rest)"
proof (cases rest)
  case Nil
  show ?thesis
  proof (cases "filter (\<lambda>s. cs_plan_id s \<noteq> cs_plan_id best) scores")
    case (Cons o1 os)
    obtain y ys where y: "sort_key score_key (o1 # os) = y # ys"
      by (metis list.exhaust list.distinct(1) sort_key_filter_Nil)
    from min_by_sort [OF this] have "composite (min_by score_key o1 os) = composite y"
      by (simp add: score_key_def)
    with y Cons Nil show ?thesis by (simp add: runner_up_def raw_gap_def)
  qed (simp add: runner_up_def raw_gap_def Nil)
qed (simp add: runner_up_def raw_gap_def)

lemma sorted_viable:
  assumes "sort_key score_key (filter (\<lambda>s. \<not> disqualified s) scores) = best # rest"
  shows "set (best # rest) = {s \<in> set scores. \<not> disqualified s}"
    and "s \<in> set rest \<Longrightarrow> composite best \<le> composite s"
    and "rest = r # rs \<Longrightarrow> s \<in> set rest \<Longrightarrow> composite r \<le> composite s"
proof -
  show "set (best # rest) = {s \<in> set scores. \<not> disqualified s}"
    using arg_cong [OF assms, of set] by simp
  have "sorted (map score_key (best # rest))" using assms by (metis sorted_sort_key)
  then have 1: "sorted (map composite (best # rest))"
    by (auto simp: sorted_map score_key_def less_eq_prod_def elim: sorted_wrt_mono_rel [rotated])
  then show "s \<in> set rest \<Longrightarrow> composite best \<le> composite s" by auto
  show "rest = r # rs \<Longrightarrow> s \<in> set rest \<Longrightarrow> composite r \<le> composite s" using 1 by auto
qed

lemma arbitrate_cases:
  assumes "arbitrate scores ranking judge incident am now = Inr r"
  obtains (none) "filter (\<lambda>s. \<not> disqualified s) scores = []" "tr_outcome r = NO_VIABLE_CANDIDATE"
      "winner_plan_id r = None"
  | (some) best rest where "sort_key score_key (filter (\<lambda>s. \<not> disqualified s) scores) = best # rest"
      "winner_plan_id r = derive_winner_from_scores scores am"
      "tr_outcome r = (if winner_plan_id r = None then AMBIGUOUS else DECIDED)"
proof (cases "sort_key score_key (filter (\<lambda>s. \<not> disqualified s) scores)")
  case Nil
  then have "filter (\<lambda>s. \<not> disqualified s) scores = []" by (simp add: sort_key_filter_Nil)
  moreover have "tr_outcome r = NO_VIABLE_CANDIDATE \<and> winner_plan_id r = None"
    using assms Nil by (auto simp: arbitrate_def Let_def no_viable_result_def split: if_splits)
  ultimately show thesis using none by blast
next
  case (Cons best rest)
  then have "scores \<noteq> []" by auto
  with assms Cons show thesis
    by (intro some [OF Cons]) (auto simp: arbitrate_def Let_def split: prod.splits if_splits)
qed


lemma on_grid_raw_gap:
  assumes "\<forall>s \<in> set scores. on_grid (composite s)" "best \<in> set scores" "set rest \<subseteq> set scores"
  shows "on_grid (raw_gap scores best rest)"
proof -
  have one: "on_grid 1" unfolding on_grid_def by (rule exI [of _ 10000]) simp
  have d: "x \<in> set scores \<Longrightarrow> on_grid (composite x - composite best)" for x
    using assms(1,2) on_grid_diff by blast
  have m: "min_by score_key o1 os \<in> set scores"
    if "filter (\<lambda>s. cs_plan_id s \<noteq> cs_plan_id best) scores = o1 # os" for o1 os
    using min_by_in [of score_key o1 os] arg_cong [OF that, of set] by auto
  show ?thesis unfolding raw_gap_def
    using d m assms one on_grid_diff by (auto split: list.splits)
qed

lemma arbitrate_returns:
  assumes "\<forall>s \<in> set scores. on_grid (composite s)"
  shows "\<exists>r. arbitrate scores ranking judge incident am now = Inr r"
proof (cases "scores = [] \<or> sort_key score_key (filter (\<lambda>s. \<not> disqualified s) scores) = []")
  case True
  then show ?thesis by (auto simp: arbitrate_def Let_def)
next
  case False
  then obtain best rest where s: "sort_key score_key (filter (\<lambda>s. \<not> disqualified s) scores) = best # rest"
    by (meson list.exhaust)
  from sorted_viable(1) [OF s] have "best \<in> set scores" "set rest \<subseteq> set scores" by auto
  with assms have "on_grid (raw_gap scores best rest)" by (intro on_grid_raw_gap)
  then have "snd (runner_up scores best rest) = raw_gap scores best rest"
    by (simp only: runner_up_gap py_round_on_grid)
  then have "\<exists>q. runner_up scores best rest = (q, raw_gap scores best rest)"
    by (metis prod.collapse)
  then show ?thesis using False s
    by (auto simp: arbitrate_def Let_def derive_winner_Cons)
qed

section \<open>What a decision promises\<close>

text \<open>
  The candidates a winner must beat: the other viable ones, or, when it is the only viable one, all the
  others; with nobody else it must beat the worst score.
\<close>

definition contenders :: "CandidateScore list \<Rightarrow> CandidateScore \<Rightarrow> CandidateScore set" where
  "contenders scores best = {s \<in> set scores. cs_plan_id s \<noteq> cs_plan_id best \<and>
     (\<not> disqualified s \<or> (\<forall>t \<in> set scores. \<not> disqualified t \<longrightarrow> t = best))}"

definition clear_winner :: "CandidateScore list \<Rightarrow> rat \<Rightarrow> CandidateScore \<Rightarrow> bool" where
  "clear_winner scores am best \<longleftrightarrow> best \<in> set scores \<and> \<not> disqualified best \<and>
     (\<forall>s \<in> contenders scores best. am - 1 / 1000000 \<le> composite s - composite best) \<and>
     (set scores = {best} \<longrightarrow> am - 1 / 1000000 \<le> 1 - composite best)"

lemma raw_gap_clear:
  assumes s: "sort_key score_key (filter (\<lambda>s. \<not> disqualified s) scores) = best # rest"
    and d: "distinct (map cs_plan_id scores)"
  shows "am - 1 / 1000000 \<le> raw_gap scores best rest \<longleftrightarrow> clear_winner scores am best"
proof -
  note v = sorted_viable [OF s]
  have inj: "x = y" if "x \<in> set scores" "y \<in> set scores" "cs_plan_id x = cs_plan_id y" for x y
    using d that by (metis distinct_map inj_on_eq_iff)
  have db: "distinct (best # rest)" using d s
    by (metis distinct_filter distinct_map distinct_sort)
  have best: "best \<in> set scores" "\<not> disqualified best" using v(1) by auto
  show ?thesis
  proof (cases rest)
    case (Cons r rs)
    have rest: "x \<in> set rest \<longleftrightarrow> x \<in> set scores \<and> \<not> disqualified x \<and> x \<noteq> best" for x
      using v(1) db by auto
    have r: "r \<in> set rest" using Cons by simp
    have other: "\<not> (\<forall>t \<in> set scores. \<not> disqualified t \<longrightarrow> t = best)" using r rest by blast
    have c: "contenders scores best = set rest"
      unfolding contenders_def using other rest best inj by blast
    have ne: "set scores \<noteq> {best}" using r rest by blast
    have le: "\<forall>x \<in> set rest. composite r \<le> composite x" using v(3) [OF Cons] by blast
    have "raw_gap scores best rest = composite r - composite best" using Cons by (simp add: raw_gap_def)
    moreover have "(\<forall>x \<in> set rest. am - 1 / 1000000 \<le> composite x - composite best) \<longleftrightarrow>
        am - 1 / 1000000 \<le> composite r - composite best"
      using r le by (meson diff_right_mono order_trans)
    ultimately show ?thesis unfolding clear_winner_def c using best ne by simp
  next
    case Nil
    let ?o = "filter (\<lambda>s. cs_plan_id s \<noteq> cs_plan_id best) scores"
    have sole: "\<forall>t \<in> set scores. \<not> disqualified t \<longrightarrow> t = best" using v(1) Nil by auto
    have c: "contenders scores best = set ?o" using sole by (auto simp: contenders_def)
    show ?thesis
    proof (cases ?o)
      case o: Nil
      then have same: "\<forall>x \<in> set scores. cs_plan_id x = cs_plan_id best"
        by (simp only: filter_empty_conv not_not)
      have "x = best" if "x \<in> set scores" for x
        by (rule inj [OF that best(1)]) (rule bspec [OF same that])
      then have "set scores = {best}" using best(1) by blast
      moreover have "raw_gap scores best rest = 1 - composite best" using o Nil by (simp add: raw_gap_def)
      ultimately show ?thesis unfolding clear_winner_def c o using best by simp
    next
      case (Cons o1 os)
      then have ne: "set scores \<noteq> {best}" using arg_cong [OF Cons, of set] by auto
      let ?m = "min_by score_key o1 os"
      have "?m \<in> set ?o" using min_by_in [of score_key o1 os] Cons by simp
      moreover have "composite ?m \<le> composite x" if "x \<in> set ?o" for x
      proof -
        have "score_key ?m \<le> score_key x" by (rule min_by_le) (use that Cons in simp)
        then show ?thesis by (auto simp: score_key_def less_eq_prod_def)
      qed
      ultimately have "(\<forall>x \<in> set ?o. am - 1 / 1000000 \<le> composite x - composite best) \<longleftrightarrow>
          am - 1 / 1000000 \<le> composite ?m - composite best"
        by (meson diff_right_mono order_trans)
      moreover have "raw_gap scores best rest = composite ?m - composite best"
        using Cons Nil by (simp add: raw_gap_def)
      ultimately show ?thesis unfolding clear_winner_def c using best ne by simp
    qed
  qed
qed

lemma clear_winner_head:
  assumes s: "sort_key score_key (filter (\<lambda>s. \<not> disqualified s) scores) = best # rest"
    and d: "distinct (map cs_plan_id scores)" and "1 / 1000000 < am" and c: "clear_winner scores am b"
  shows "b = best"
proof (rule ccontr)
  assume "b \<noteq> best"
  note v = sorted_viable [OF s]
  have b: "b \<in> set scores" "\<not> disqualified b" using c by (auto simp: clear_winner_def)
  have best: "best \<in> set scores" "\<not> disqualified best" using v(1) by auto
  have "b \<in> set rest" using b v(1) \<open>b \<noteq> best\<close> by auto
  then have le: "composite best \<le> composite b" by (rule v(2))
  have "cs_plan_id best \<noteq> cs_plan_id b"
    using d b(1) best(1) \<open>b \<noteq> best\<close> by (metis distinct_map inj_on_eq_iff)
  then have "best \<in> contenders scores b" using best by (simp add: contenders_def)
  then have "am - 1 / 1000000 \<le> composite best - composite b" using c by (auto simp: clear_winner_def)
  with le assms(3) show False by linarith
qed


lemma arbitrate_decision:
  assumes "distinct (map cs_plan_id scores)" "1 / 1000000 < am"
    and "arbitrate scores ranking judge incident am now = Inr r"
  shows "winner_plan_id r = Some w \<longleftrightarrow> (\<exists>best. cs_plan_id best = w \<and> clear_winner scores am best)"
  using assms(3)
proof (cases rule: arbitrate_cases)
  case none
  then show ?thesis by (auto simp: clear_winner_def filter_empty_conv)
next
  case (some best rest)
  note c = raw_gap_clear [OF some(1) assms(1), of am]
  note d = derive_winner_Cons [OF some(1), of am]
  show ?thesis
  proof (cases "raw_gap scores best rest < am - 1 / 1000000")
    case True
    then have "\<not> clear_winner scores am b" for b
      using clear_winner_head [OF some(1) assms(1,2)] c by (metis not_less)
    then show ?thesis using True d some(2) by simp
  next
    case False
    then have "clear_winner scores am best" using c by linarith
    moreover have "winner_plan_id r = Some (cs_plan_id best)" using False d some(2) by simp
    ultimately show ?thesis using clear_winner_head [OF some(1) assms(1,2)]
      by (metis option.inject)
  qed
qed

lemma arbitrate_outcome:
  assumes "arbitrate scores ranking judge incident am now = Inr r"
  shows "(tr_outcome r = DECIDED \<longleftrightarrow> winner_plan_id r \<noteq> None) \<and>
    (tr_outcome r = NO_VIABLE_CANDIDATE \<longleftrightarrow> (\<forall>s \<in> set scores. disqualified s))"
  using assms
proof (cases rule: arbitrate_cases)
  case none
  then show ?thesis by (auto simp: filter_empty_conv)
next
  case (some best rest)
  from sorted_viable(1) [OF some(1)] have "\<not> (\<forall>s \<in> set scores. disqualified s)" by auto
  with some(3) show ?thesis by (auto split: if_splits)
qed

lemma sort_key_mset:
  "mset xs = mset ys \<Longrightarrow> inj_on f (set xs) \<Longrightarrow> sort_key f xs = sort_key f ys"
  by (rule sort_key_inj_key_eq) simp_all

lemma inj_on_score_key: "distinct (map cs_plan_id xs) \<Longrightarrow> inj_on score_key (set xs)"
  by (auto simp: distinct_map inj_on_def score_key_def)

lemma sort_filter_mset:
  assumes "mset scores = mset scores'" "distinct (map cs_plan_id scores)"
  shows "sort_key score_key (filter P scores) = sort_key score_key (filter P scores')"
proof (rule sort_key_mset)
  show "mset (filter P scores) = mset (filter P scores')" using assms(1) by (metis mset_filter)
  show "inj_on score_key (set (filter P scores))"
    using inj_on_score_key [OF assms(2)] by (rule inj_on_subset) auto
qed

lemma raw_gap_sorted:
  "raw_gap scores best rest = (case rest of
       r # _ \<Rightarrow> composite r - composite best
     | [] \<Rightarrow> (case sort_key score_key (filter (\<lambda>s. cs_plan_id s \<noteq> cs_plan_id best) scores) of
          r # _ \<Rightarrow> composite r - composite best
        | [] \<Rightarrow> 1 - composite best))"
proof (cases "filter (\<lambda>s. cs_plan_id s \<noteq> cs_plan_id best) scores")
  case (Cons o1 os)
  obtain y ys where y: "sort_key score_key (o1 # os) = y # ys"
    by (metis list.exhaust list.distinct(1) sort_key_filter_Nil)
  from min_by_sort [OF this] have "composite (min_by score_key o1 os) = composite y"
    by (simp add: score_key_def)
  with y Cons show ?thesis by (simp add: raw_gap_def split: list.split)
qed (simp add: raw_gap_def split: list.split)

lemma derive_winner_mset:
  assumes "mset scores = mset scores'" "distinct (map cs_plan_id scores)"
  shows "derive_winner_from_scores scores am = derive_winner_from_scores scores' am"
proof (cases "sort_key score_key (filter (\<lambda>s. \<not> disqualified s) scores)")
  case Nil
  then show ?thesis using sort_filter_mset [OF assms, of "\<lambda>s. \<not> disqualified s"]
    by (simp add: derive_winner_from_scores_def)
next
  case (Cons best rest)
  moreover have "raw_gap scores best rest = raw_gap scores' best rest"
    by (simp only: raw_gap_sorted sort_filter_mset [OF assms])
  ultimately show ?thesis using sort_filter_mset [OF assms, of "\<lambda>s. \<not> disqualified s"]
    by (simp add: derive_winner_Cons)
qed

section \<open>The scorer as a provider\<close>

text \<open>What arbitration asks of whatever scores the rehearsals.\<close>

locale candidate_scorer =
  fixes score :: "CandidateEvidence list \<Rightarrow> 'e + CandidateScore list"
  assumes score_ids: "score evs = Inr ss \<Longrightarrow> map cs_plan_id ss = map ev_plan_id evs"
    and score_grid: "score evs = Inr ss \<Longrightarrow> s \<in> set ss \<Longrightarrow> on_grid (composite s)"
    and score_viable: "score evs = Inr ss \<Longrightarrow> s \<in> set ss \<Longrightarrow> \<not> disqualified s \<Longrightarrow>
      \<exists>ev \<in> set evs. ev_plan_id ev = cs_plan_id s \<and> evidence_complete ev"
begin

lemma decision_reached:
  "score evs = Inr ss \<Longrightarrow> \<exists>r. arbitrate ss ranking judge incident am now = Inr r"
  using arbitrate_returns score_grid by blast

lemma winner_rehearsed:
  assumes "score evs = Inr ss" "arbitrate ss ranking judge incident am now = Inr r"
    and "winner_plan_id r = Some w"
  shows "\<exists>ev \<in> set evs. ev_plan_id ev = w \<and> evidence_complete ev"
  using assms(2)
proof (cases rule: arbitrate_cases)
  case (some best rest)
  then have "w = cs_plan_id best" using assms(3) derive_winner_Cons [OF some(1), of am]
    by (auto split: if_splits)
  moreover have "best \<in> set ss" "\<not> disqualified best" using sorted_viable(1) [OF some(1)] by auto
  ultimately show ?thesis using score_viable [OF assms(1)] by blast
qed (use assms(3) in simp)

end

lemma mapE_ids:
  "score_candidates loaded cfg shares graph ready blasts evs = Inr ss \<Longrightarrow>
   list_all2 (\<lambda>ev s. \<exists>rd rad. score_candidate loaded ev cfg shares graph rd rad = Inr s) evs ss"
  unfolding score_candidates_def
  by (induction evs arbitrary: ss) (auto simp: bindE_Inr_iff)

lemma score_candidate_facts:
  assumes "score_candidate loaded ev cfg shares graph rd rad = Inr s"
  shows "cs_plan_id s = ev_plan_id ev" "on_grid (composite s)"
    "\<not> disqualified s \<Longrightarrow> evidence_complete ev"
proof -
  from assms obtain b c where id: "cs_plan_id s = ev_plan_id ev"
    and d: "(disqualified s, disqualification_reason s) = check_disqualification ev cfg rd"
    and comp: "composite s = py_round 4 c"
    by (rule score_candidate_Inr)
  show "cs_plan_id s = ev_plan_id ev" by (rule id)
  show "on_grid (composite s)" unfolding comp by (rule on_grid_round)
  have "disqualified s = fst (check_disqualification ev cfg rd)" using d by (metis fst_conv)
  then show "\<not> disqualified s \<Longrightarrow> evidence_complete ev" using check_disqualification_iff by blast
qed

interpretation scorer: candidate_scorer "score_candidates loaded cfg shares graph ready blasts"
  for loaded cfg shares graph ready blasts
proof unfold_locales
  fix evs ss s
  assume "score_candidates loaded cfg shares graph ready blasts evs = Inr ss"
  note l = mapE_ids [OF this]
  from l show "map cs_plan_id ss = map ev_plan_id evs"
    by (induction rule: list_all2_induct) (auto dest: score_candidate_facts(1))
  assume "s \<in> set ss"
  with l obtain ev rd rad where "ev \<in> set evs"
    "score_candidate loaded ev cfg shares graph rd rad = Inr s"
    by (induction rule: list_all2_induct) auto
  note f = this(1) score_candidate_facts [OF this(2)]
  show "on_grid (composite s)" by (rule f)
  show "\<not> disqualified s \<Longrightarrow> \<exists>ev \<in> set evs. ev_plan_id ev = cs_plan_id s \<and> evidence_complete ev"
    using f by metis
qed


section \<open>Properties\<close>

definition sample_score :: "string \<Rightarrow> rat \<Rightarrow> CandidateScore" where
  "sample_score pid c = \<lparr>cs_plan_id = pid, composite = c, components = [], disqualified = False,
     disqualification_reason = None\<rparr>"

definition sample_scores :: "CandidateScore list" where
  "sample_scores = [sample_score ''b'' (1 / 2), sample_score ''a'' (1 / 10)]"

lemma sample_decision:
  "\<exists>r. arbitrate sample_scores None None ''inc'' (3 / 20) 0 = Inr r \<and> winner_plan_id r = Some ''a''"
proof -
  have "case arbitrate sample_scores None None ''inc'' (3 / 20) 0 of
      Inr r \<Rightarrow> winner_plan_id r = Some ''a'' | Inl e \<Rightarrow> False" by code_simp
  then show ?thesis by (auto split: sum.splits)
qed

text \<open>C7: arbitration refines its contract.  A plan is declared the winner exactly when it is viable
  and every candidate it has to beat trails it by the ambiguity margin; the outcome is DECIDED exactly
  when there is a winner, and NO_VIABLE_CANDIDATE exactly when every candidate is disqualified.\<close>

theorem arbitrate_decides:
  assumes "distinct (map cs_plan_id scores)" "1 / 1000000 < am"
    and "arbitrate scores ranking judge incident am now = Inr r"
  shows "(\<forall>w. winner_plan_id r = Some w \<longleftrightarrow> (\<exists>best. cs_plan_id best = w \<and> clear_winner scores am best)) \<and>
    (tr_outcome r = DECIDED \<longleftrightarrow> winner_plan_id r \<noteq> None) \<and>
    (tr_outcome r = NO_VIABLE_CANDIDATE \<longleftrightarrow> (\<forall>s \<in> set scores. disqualified s))"
  using arbitrate_decision [OF assms] arbitrate_outcome [OF assms(3)] by blast

lemma arbitrate_decides_witness:
  "\<exists>best. cs_plan_id best = ''a'' \<and> clear_winner sample_scores (3 / 20) best"
proof -
  obtain r where r: "arbitrate sample_scores None None ''inc'' (3 / 20) 0 = Inr r"
    "winner_plan_id r = Some ''a''" using sample_decision by blast
  have "distinct (map cs_plan_id sample_scores)" by (simp add: sample_scores_def sample_score_def)
  then have "\<forall>w. winner_plan_id r = Some w \<longleftrightarrow>
      (\<exists>best. cs_plan_id best = w \<and> clear_winner sample_scores (3 / 20) best)"
    by (rule arbitrate_decides [THEN conjunct1, OF _ _ r(1)]) simp
  with r(2) show ?thesis by blast
qed

text \<open>Arbitrating the scores the scorer produced always reaches a result (the assertion that the two
  derivations of the winner agree never fires), and the winner is the plan of a rehearsal with complete
  evidence.\<close>

theorem scored_tournament_decides:
  assumes "score_candidates loaded cfg shares graph ready blasts evs = Inr ss"
  shows "\<exists>r. arbitrate ss ranking judge incident am now = Inr r \<and>
    (\<forall>w. winner_plan_id r = Some w \<longrightarrow> (\<exists>ev \<in> set evs. ev_plan_id ev = w \<and> evidence_complete ev))"
proof -
  obtain r where r: "arbitrate ss ranking judge incident am now = Inr r"
    using scorer.decision_reached [OF assms] by blast
  with scorer.winner_rehearsed [OF assms r] show ?thesis by blast
qed

lemma scored_tournament_decides_witness:
  "\<exists>ss r. score_candidates default_scoring_config default_scoring_config None None [] []
      [scorer_sample_evidence ''p'' 45, scorer_sample_evidence ''q'' 180] = Inr ss \<and>
    arbitrate ss None None ''inc'' (3 / 20) 0 = Inr r"
proof -
  have "case score_candidates default_scoring_config default_scoring_config None None [] []
      [scorer_sample_evidence ''p'' 45, scorer_sample_evidence ''q'' 180] of Inr ss \<Rightarrow> True | _ \<Rightarrow> False"
    by code_simp
  then obtain ss where "score_candidates default_scoring_config default_scoring_config None None [] []
      [scorer_sample_evidence ''p'' 45, scorer_sample_evidence ''q'' 180] = Inr ss"
    by (auto split: sum.splits)
  from this scored_tournament_decides [OF this] show ?thesis by blast
qed

text \<open>The language model has no say in the decision.  Whatever ranking or evaluation it returns,
  arbitration reaches the same outcome, winner, runner-up and margin.\<close>

theorem arbitrate_ignores_advice:
  "map_sum id (\<lambda>r. r\<lparr>llm_ranking := None, llm_agreement := None\<rparr>)
     (arbitrate scores ranking judge incident am now) =
   map_sum id (\<lambda>r. r\<lparr>llm_ranking := None, llm_agreement := None\<rparr>)
     (arbitrate scores ranking' judge' incident am now)"
  by (cases "sort_key score_key (filter (\<lambda>s. \<not> disqualified s) scores)")
    (simp_all add: arbitrate_def Let_def no_viable_result_def split: prod.split)

text \<open>The order in which rehearsals are reported does not matter: two score lists with the same
  entries and distinct plan ids get the same decision.\<close>

theorem arbitrate_order_free:
  assumes "mset scores = mset scores'" "distinct (map cs_plan_id scores)"
  shows "map_sum id (\<lambda>r. r\<lparr>tr_scores := []\<rparr>) (arbitrate scores ranking judge incident am now) =
    map_sum id (\<lambda>r. r\<lparr>tr_scores := []\<rparr>) (arbitrate scores' ranking judge incident am now)"
proof -
  have ne: "scores = [] \<longleftrightarrow> scores' = []" using assms(1) by (metis mset_zero_iff)
  have v: "sort_key score_key (filter (\<lambda>s. \<not> disqualified s) scores) =
      sort_key score_key (filter (\<lambda>s. \<not> disqualified s) scores')" by (rule sort_filter_mset [OF assms])
  have r: "runner_up scores b rest = runner_up scores' b rest" for b rest
    by (simp only: runner_up_def sort_filter_mset [OF assms])
  show ?thesis
    by (cases "sort_key score_key (filter (\<lambda>s. \<not> disqualified s) scores')")
      (simp_all add: arbitrate_def Let_def no_viable_result_def ne v r derive_winner_mset [OF assms]
        split: prod.split)
qed

lemma arbitrate_order_free_witness:
  "map_sum id (\<lambda>r. r\<lparr>tr_scores := []\<rparr>) (arbitrate sample_scores None None ''inc'' (3 / 20) 0) =
   map_sum id (\<lambda>r. r\<lparr>tr_scores := []\<rparr>) (arbitrate (rev sample_scores) None None ''inc'' (3 / 20) 0)"
  by (rule arbitrate_order_free) (simp_all add: sample_scores_def sample_score_def)

text \<open>The ranking kept from the model's answer names every candidate exactly once and nothing else.\<close>

theorem sanitize_ranking_complete:
  "distinct (sanitize_ranking raw candidate_ids) \<and>
   set (sanitize_ranking raw candidate_ids) = set candidate_ids"
  by (auto simp: sanitize_ranking_def Let_def split: PyVal.splits if_splits)

text \<open>On scores that are not multiples of 1/10000 the two derivations of the winner can disagree, so
  arbitration fails: it compares the rounded margin, the cross-check the exact one.\<close>

theorem arbitrate_off_grid_fails:
  "arbitrate [sample_score ''a'' 0, sample_score ''b'' (149996 / 1000000)] None None ''inc'' (3 / 20) 0 =
   Inl (WinnerMismatch (Some ''a'') None)"
  by code_simp

end
