(* ===== verification/Effects.thy ===== *)
theory Effects
  imports Prelude
begin

text \<open>
  Code that calls other components, as state passing.  The state is the trace of the calls made so far,
  each with whether it returned; what a call returns is a function of the trace, so an environment is
  any function from histories to answers.  An exception is a class name (\<^verbatim>\<open>common/errors.py\<close>) with its
  text, or the cancellation of the running task, which \<^verbatim>\<open>except Exception\<close> does not catch.
\<close>

section \<open>Exceptions\<close>

text \<open>\<open>Cancelled True\<close> is the cancellation by the node's own \<open>asyncio.timeout\<close>.\<close>

datatype PyExc = Raised string string | Cancelled bool

definition error_parent :: "string \<Rightarrow> string option" where
  "error_parent c = map_of [
     (''ConfigError'', ''UnderstudyError''), (''FleetError'', ''UnderstudyError''),
     (''KernelError'', ''UnderstudyError''), (''MissingFact'', ''KernelError''),
     (''ActuationError'', ''UnderstudyError''), (''EvidenceError'', ''UnderstudyError''),
     (''OrchestratorError'', ''UnderstudyError''), (''OrchestratorTimeoutError'', ''OrchestratorError''),
     (''NodeTimeoutError'', ''OrchestratorTimeoutError''),
     (''IncidentTimeoutError'', ''OrchestratorTimeoutError''), (''StoreError'', ''UnderstudyError''),
     (''SignalsError'', ''UnderstudyError''), (''ObservabilityError'', ''SignalsError''),
     (''DatadogError'', ''ObservabilityError''), (''GitHubError'', ''SignalsError''),
     (''GraphError'', ''UnderstudyError''), (''GraphDiscrepancyError'', ''GraphError''),
     (''PlannerError'', ''UnderstudyError''), (''PlannerSchemaValidationError'', ''PlannerError''), (''PlaybookError'', ''UnderstudyError''),
     (''PlaybookEmbeddingError'', ''PlaybookError''), (''PlaybookConfirmationError'', ''PlaybookError''),
     (''MirrorError'', ''UnderstudyError''), (''TwinNotFoundError'', ''MirrorError''),
     (''NotificationError'', ''UnderstudyError''), (''SlackNotificationError'', ''NotificationError''),
     (''PagerDutyNotificationError'', ''NotificationError''), (''ScenarioError'', ''UnderstudyError'')] c"

text \<open>\<open>isinstance\<close>; no chain of parents in the table has more than four classes.\<close>

fun is_subclass :: "nat \<Rightarrow> string \<Rightarrow> string \<Rightarrow> bool" where
  "is_subclass 0 c d \<longleftrightarrow> c = d"
| "is_subclass (Suc n) c d \<longleftrightarrow> c = d \<or> (case error_parent c of Some b \<Rightarrow> is_subclass n b d | None \<Rightarrow> False)"

abbreviation isinstance :: "string \<Rightarrow> string \<Rightarrow> bool" where
  "isinstance c d \<equiv> is_subclass 4 c d"

section \<open>Effectful computations\<close>

type_synonym 'c trace = "('c \<times> bool) list"
type_synonym ('c, 'a) act = "'c trace \<Rightarrow> (PyExc + 'a) \<times> 'c trace"

definition aret :: "'a \<Rightarrow> ('c, 'a) act" where
  "aret x h = (Inr x, h)"

definition araise :: "PyExc \<Rightarrow> ('c, 'a) act" where
  "araise e h = (Inl e, h)"

definition aask :: "('c trace \<Rightarrow> 'a) \<Rightarrow> ('c, 'a) act" where
  "aask f h = (Inr (f h), h)"

definition alift :: "PyExc + 'a \<Rightarrow> ('c, 'a) act" where
  "alift r h = (r, h)"

definition abind :: "('c, 'a) act \<Rightarrow> ('a \<Rightarrow> ('c, 'b) act) \<Rightarrow> ('c, 'b) act" where
  "abind m f h = (case m h of (Inl e, h') \<Rightarrow> (Inl e, h') | (Inr x, h') \<Rightarrow> f x h')"

definition acall :: "'c \<Rightarrow> ('c trace \<Rightarrow> PyExc + 'a) \<Rightarrow> ('c, 'a) act" where
  "acall c f h = (case f h of Inl e \<Rightarrow> (Inl e, h @ [(c, False)]) | Inr x \<Rightarrow> (Inr x, h @ [(c, True)]))"

text \<open>\<open>try: m except Exception as exc: hnd\<close>\<close>

definition acatch :: "('c, 'a) act \<Rightarrow> (string \<Rightarrow> string \<Rightarrow> ('c, 'a) act) \<Rightarrow> ('c, 'a) act" where
  "acatch m hnd h = (case m h of (Inl (Raised c t), h') \<Rightarrow> hnd c t h' | r \<Rightarrow> r)"

fun aeach :: "('b \<Rightarrow> ('c, unit) act) \<Rightarrow> 'b list \<Rightarrow> ('c, unit) act" where
  "aeach f [] = aret ()"
| "aeach f (x # xs) = abind (f x) (\<lambda>_. aeach f xs)"

fun amap :: "('b \<Rightarrow> ('c, 'a) act) \<Rightarrow> 'b list \<Rightarrow> ('c, 'a list) act" where
  "amap f [] = aret []"
| "amap f (x # xs) = abind (f x) (\<lambda>y. abind (amap f xs) (\<lambda>ys. aret (y # ys)))"

named_theorems act_simps \<open>how the outcome of an effectful computation is taken apart\<close>

lemma aret_iff [act_simps]: "aret x h = (r, h') \<longleftrightarrow> r = Inr x \<and> h' = h"
  by (auto simp: aret_def)

lemma araise_iff [act_simps]: "araise e h = (r, h') \<longleftrightarrow> r = Inl e \<and> h' = h"
  by (auto simp: araise_def)

lemma aask_iff [act_simps]: "aask f h = (r, h') \<longleftrightarrow> r = Inr (f h) \<and> h' = h"
  by (auto simp: aask_def)

lemma alift_iff [act_simps]: "alift x h = (r, h') \<longleftrightarrow> r = x \<and> h' = h"
  by (auto simp: alift_def)

lemma abind_Inr_iff [act_simps]:
  "abind m f h = (Inr y, h') \<longleftrightarrow> (\<exists>x h1. m h = (Inr x, h1) \<and> f x h1 = (Inr y, h'))"
  by (auto simp: abind_def split: prod.splits sum.splits)

lemma abind_Inl_iff [act_simps]:
  "abind m f h = (Inl e, h') \<longleftrightarrow>
     m h = (Inl e, h') \<or> (\<exists>x h1. m h = (Inr x, h1) \<and> f x h1 = (Inl e, h'))"
  by (auto simp: abind_def split: prod.splits sum.splits)

lemma acall_Inr_iff [act_simps]:
  "acall c f h = (Inr x, h') \<longleftrightarrow> f h = Inr x \<and> h' = h @ [(c, True)]"
  by (auto simp: acall_def split: sum.splits)

lemma acall_Inl_iff [act_simps]:
  "acall c f h = (Inl e, h') \<longleftrightarrow> f h = Inl e \<and> h' = h @ [(c, False)]"
  by (auto simp: acall_def split: sum.splits)

lemma acatch_Inr_iff [act_simps]:
  "acatch m hnd h = (Inr x, h') \<longleftrightarrow>
     m h = (Inr x, h') \<or> (\<exists>c t h1. m h = (Inl (Raised c t), h1) \<and> hnd c t h1 = (Inr x, h'))"
  by (auto simp: acatch_def split: prod.splits sum.splits PyExc.splits)

section \<open>Following a computation\<close>

fun cancelled :: "PyExc + 'a \<Rightarrow> bool" where
  "cancelled (Inl (Cancelled b)) = True"
| "cancelled _ = False"

lemma abind_not_cancelled:
  assumes "abind m f h = (r, h')" "m h = (r1, h1)" "\<not> cancelled r"
  shows "\<not> cancelled r1"
proof (cases r1)
  case (Inl e)
  then show ?thesis using assms by (cases e) (auto simp: abind_def)
qed simp

lemma abind_next:
  assumes "abind m f h = (r, h')" "m h = (Inr x, h1)"
  shows "f x h1 = (r, h')"
  using assms by (simp add: abind_def)

lemma abind_aask: "abind (aask f) g h = g (f h) h"
  by (simp add: abind_def aask_def)

section \<open>Which calls a computation makes\<close>

definition emits :: "('c \<Rightarrow> bool) \<Rightarrow> ('c, 'a) act \<Rightarrow> bool" where
  "emits P m \<longleftrightarrow> (\<forall>h r h'. m h = (r, h') \<longrightarrow> (\<exists>k. h' = h @ k \<and> (\<forall>e \<in> set k. P (fst e))))"

named_theorems emits_intros \<open>rules for the calls of a computation\<close>

lemma emitsD: "emits P m \<Longrightarrow> m h = (r, h') \<Longrightarrow> \<exists>k. h' = h @ k \<and> (\<forall>e \<in> set k. P (fst e))"
  unfolding emits_def by blast

lemma emits_subset:
  assumes "emits P m" "m h = (r, h')"
  shows "set h \<subseteq> set h'"
proof -
  obtain k where "h' = h @ k" using emitsD [OF assms] by blast
  then show ?thesis by simp
qed

lemma emits_new:
  assumes "emits P m" "m h = (r, h')" "(c, b) \<in> set h'" "\<not> P c"
  shows "(c, b) \<in> set h"
proof -
  obtain k where k: "h' = h @ k" "\<forall>e \<in> set k. P (fst e)" using emitsD [OF assms(1,2)] by blast
  have "(c, b) \<notin> set k" using k(2) assms(4) by (metis fst_conv)
  then show ?thesis using assms(3) k(1) by simp
qed

lemma emits_mono: "emits P m \<Longrightarrow> (\<And>c. P c \<Longrightarrow> Q c) \<Longrightarrow> emits Q m"
  unfolding emits_def by meson

lemma emits_atoms [emits_intros]:
  "emits P (aret x)" "emits P (araise e)" "emits P (aask f)" "emits P (alift y)"
  by (auto simp: emits_def aret_def araise_def aask_def alift_def)

lemma emits_acall [emits_intros]: "P c \<Longrightarrow> emits P (acall c f)"
  by (auto simp: emits_def acall_def split: sum.splits)

lemma emits_abind [emits_intros]:
  assumes "emits P m" "\<And>x. emits P (f x)"
  shows "emits P (abind m f)"
  unfolding emits_def
proof (intro allI impI)
  fix h r h'
  assume "abind m f h = (r, h')"
  then consider e where "m h = (Inl e, h')" | x h1 where "m h = (Inr x, h1)" "f x h1 = (r, h')"
    by (auto simp: abind_def split: prod.splits sum.splits)
  then show "\<exists>k. h' = h @ k \<and> (\<forall>e \<in> set k. P (fst e))"
  proof cases
    case 1
    then show ?thesis by (rule emitsD [OF assms(1)])
  next
    case 2
    obtain k where k: "h1 = h @ k" "\<forall>e \<in> set k. P (fst e)" using emitsD [OF assms(1) 2(1)] by blast
    obtain l where l: "h' = h1 @ l" "\<forall>e \<in> set l. P (fst e)" using emitsD [OF assms(2) 2(2)] by blast
    have "\<forall>e \<in> set (k @ l). P (fst e)" using k(2) l(2) by (simp add: ball_Un)
    moreover have "h' = h @ k @ l" using k(1) l(1) by simp
    ultimately show ?thesis by blast
  qed
qed

lemma emits_acatch [emits_intros]:
  assumes "emits P m" "\<And>c t. emits P (hnd c t)"
  shows "emits P (acatch m hnd)"
  unfolding emits_def
proof (intro allI impI)
  fix h r h'
  assume "acatch m hnd h = (r, h')"
  then consider "m h = (r, h')" | c t h1 where "m h = (Inl (Raised c t), h1)" "hnd c t h1 = (r, h')"
    by (auto simp: acatch_def split: prod.splits sum.splits PyExc.splits)
  then show "\<exists>k. h' = h @ k \<and> (\<forall>e \<in> set k. P (fst e))"
  proof cases
    case 1
    then show ?thesis by (rule emitsD [OF assms(1)])
  next
    case 2
    obtain k where k: "h1 = h @ k" "\<forall>e \<in> set k. P (fst e)" using emitsD [OF assms(1) 2(1)] by blast
    obtain l where l: "h' = h1 @ l" "\<forall>e \<in> set l. P (fst e)" using emitsD [OF assms(2) 2(2)] by blast
    have "\<forall>e \<in> set (k @ l). P (fst e)" using k(2) l(2) by (simp add: ball_Un)
    moreover have "h' = h @ k @ l" using k(1) l(1) by simp
    ultimately show ?thesis by blast
  qed
qed

lemma emits_aeach [emits_intros]: "(\<And>x. emits P (f x)) \<Longrightarrow> emits P (aeach f xs)"
  by (induction xs) (auto intro: emits_intros)

lemma emits_amap [emits_intros]: "(\<And>x. emits P (f x)) \<Longrightarrow> emits P (amap f xs)"
  by (induction xs) (auto intro!: emits_intros)

lemma emits_if [emits_intros]: "(b \<Longrightarrow> emits P m) \<Longrightarrow> (\<not> b \<Longrightarrow> emits P n) \<Longrightarrow> emits P (if b then m else n)"
  by simp

lemma emits_option [emits_intros]:
  "(x = None \<Longrightarrow> emits P m) \<Longrightarrow> (\<And>y. x = Some y \<Longrightarrow> emits P (f y)) \<Longrightarrow>
   emits P (case x of None \<Rightarrow> m | Some y \<Rightarrow> f y)"
  by (cases x) auto

end
