(* ===== verification/Orchestrator.thy ===== *)
theory Orchestrator
  imports Effects Verify Facts
begin

text \<open>
  \<^verbatim>\<open>orchestrator/\<close>: the state of the incident control loop with its reducers (\<^verbatim>\<open>state.py\<close>), the
  fifteen nodes (\<^verbatim>\<open>nodes/\<close>), the clean-up of twins (\<^verbatim>\<open>cleanup.py\<close>), the node time limits and the
  watchdog's emergency escalation (\<^verbatim>\<open>timeouts.py\<close>), and the graph that connects the nodes
  (\<^verbatim>\<open>graph.py\<close>).  The components a node calls are the fields of \<open>Deps\<close>, functions of the history of
  calls.  Of LangGraph the model uses what its documentation says of a compiled \<^verbatim>\<open>StateGraph\<close>: a node's
  update goes through the reducers of the fields it names, then the edge of the node chooses the next.
\<close>

section \<open>State and reducers (state.py)\<close>

record State =
  st_incident_id :: string
  st_context :: "IncidentContext option"
  st_plans :: "RemediationPlan list"
  st_twins :: "TwinHandle list"
  st_evidence :: "CandidateEvidence list"
  st_tournament :: "TournamentResult option"
  st_verdict :: "KernelVerdict option"
  st_outcome :: "RunOutcome option"
  st_errors :: "string list"
  st_alert :: "Alert option"
  st_started_at :: "instant option"
  st_finished_at :: "instant option"
  st_prod_applied_plan_id :: "string option"
  st_prod_outcome :: "ProdOutcome option"
  st_escalation_reason :: "string option"
  st_escalated :: bool
  st_scenario_id :: "string option"

text \<open>What a node returns: a field is \<open>None\<close> when the node's dict lacks the key.\<close>

record Update =
  up_incident_id :: "string option"
  up_context :: "IncidentContext option"
  up_plans :: "RemediationPlan list option"
  up_twins :: "TwinHandle list option"
  up_evidence :: "CandidateEvidence list option"
  up_tournament :: "TournamentResult option"
  up_verdict :: "KernelVerdict option"
  up_outcome :: "RunOutcome option"
  up_errors :: "string list option"
  up_alert :: "Alert option"
  up_started_at :: "instant option"
  up_finished_at :: "instant option"
  up_prod_applied_plan_id :: "string option"
  up_prod_outcome :: "ProdOutcome option"
  up_escalation_reason :: "string option"
  up_escalated :: "bool option"

definition no_update :: Update where
  "no_update = \<lparr>up_incident_id = None, up_context = None, up_plans = None, up_twins = None,
     up_evidence = None, up_tournament = None, up_verdict = None, up_outcome = None, up_errors = None,
     up_alert = None, up_started_at = None, up_finished_at = None, up_prod_applied_plan_id = None,
     up_prod_outcome = None, up_escalation_reason = None, up_escalated = None\<rparr>"

definition reduce_incident_id :: "string \<Rightarrow> string option \<Rightarrow> PyExc + string" where
  "reduce_incident_id current update =
     (case update of
        None \<Rightarrow> Inr current
      | Some u \<Rightarrow>
          if u = [] then Inr current
          else if current \<noteq> [] \<and> u \<noteq> current
          then Inl (Raised ''OrchestratorError'' (fstr [''Cannot overwrite incident_id '', squote current, '' with '', squote u]))
          else Inr u)"

text \<open>Reducers that replace the value when there is an update.\<close>

definition reduce_replace :: "'a option \<Rightarrow> 'a option \<Rightarrow> 'a option" where
  "reduce_replace current update = (case update of None \<Rightarrow> current | Some u \<Rightarrow> Some u)"

text \<open>Reconciliation by key: \<open>reduce_plans\<close>, \<open>reduce_twins\<close> and \<open>reduce_evidence\<close>.\<close>

fun reconcile :: "('a \<Rightarrow> string) \<Rightarrow> 'a list \<Rightarrow> (string \<times> 'a) list \<Rightarrow> 'a list" where
  "reconcile key [] d = map snd d"
| "reconcile key (x # xs) d =
     (case map_of d (key x) of
        Some y \<Rightarrow> y # reconcile key xs (dict_pop (key x) d)
      | None \<Rightarrow> x # reconcile key xs d)"

definition reduce_by_key :: "('a \<Rightarrow> string) \<Rightarrow> 'a list \<Rightarrow> 'a list option \<Rightarrow> 'a list" where
  "reduce_by_key key current update =
     (case update of
        None \<Rightarrow> current
      | Some us \<Rightarrow>
          if current = [] then us else reconcile key current (dict_of (map (\<lambda>u. (key u, u)) us)))"

definition reduce_plans :: "RemediationPlan list \<Rightarrow> RemediationPlan list option \<Rightarrow> RemediationPlan list" where
  "reduce_plans = reduce_by_key plan_id"

definition reduce_twins :: "TwinHandle list \<Rightarrow> TwinHandle list option \<Rightarrow> TwinHandle list" where
  "reduce_twins = reduce_by_key twin_id"

definition reduce_evidence :: "CandidateEvidence list \<Rightarrow> CandidateEvidence list option \<Rightarrow> CandidateEvidence list" where
  "reduce_evidence = reduce_by_key ev_plan_id"

definition reduce_errors :: "string list \<Rightarrow> string list option \<Rightarrow> string list" where
  "reduce_errors current update = (case update of None \<Rightarrow> current | Some es \<Rightarrow> current @ es)"

definition reduce_escalated :: "bool \<Rightarrow> bool option \<Rightarrow> bool" where
  "reduce_escalated current update \<longleftrightarrow> current \<or> update = Some True"

definition reduce_started_at :: "instant option \<Rightarrow> instant option \<Rightarrow> instant option" where
  "reduce_started_at current update = (case current of Some t \<Rightarrow> Some t | None \<Rightarrow> update)"

definition apply_update :: "State \<Rightarrow> Update \<Rightarrow> PyExc + State" where
  "apply_update s u = bindE (reduce_incident_id (st_incident_id s) (up_incident_id u)) (\<lambda>i. Inr \<lparr>
     st_incident_id = i,
     st_context = reduce_replace (st_context s) (up_context u),
     st_plans = reduce_plans (st_plans s) (up_plans u),
     st_twins = reduce_twins (st_twins s) (up_twins u),
     st_evidence = reduce_evidence (st_evidence s) (up_evidence u),
     st_tournament = reduce_replace (st_tournament s) (up_tournament u),
     st_verdict = reduce_replace (st_verdict s) (up_verdict u),
     st_outcome = reduce_replace (st_outcome s) (up_outcome u),
     st_errors = reduce_errors (st_errors s) (up_errors u),
     st_alert = reduce_replace (st_alert s) (up_alert u),
     st_started_at = reduce_started_at (st_started_at s) (up_started_at u),
     st_finished_at = reduce_replace (st_finished_at s) (up_finished_at u),
     st_prod_applied_plan_id = reduce_replace (st_prod_applied_plan_id s) (up_prod_applied_plan_id u),
     st_prod_outcome = reduce_replace (st_prod_outcome s) (up_prod_outcome u),
     st_escalation_reason = reduce_replace (st_escalation_reason s) (up_escalation_reason u),
     st_escalated = reduce_escalated (st_escalated s) (up_escalated u),
     st_scenario_id = st_scenario_id s\<rparr>)"

definition resolved_outcome :: "State \<Rightarrow> RunOutcome" where
  "resolved_outcome s =
     (if st_outcome s = Some ESCALATED then ESCALATED
      else if st_errors s \<noteq> [] then FAILED
      else case st_outcome s of Some out \<Rightarrow> out | None \<Rightarrow> EXECUTED)"

definition to_run_record :: "State \<Rightarrow> instant \<Rightarrow> PyExc + RunRecord" where
  "to_run_record s now =
     (case st_context s of
        None \<Rightarrow> Inl (Raised ''OrchestratorError'' ''Cannot convert State to RunRecord without context'')
      | Some ctx \<Rightarrow> Inr \<lparr>
          run_id = ''run_'' @ st_incident_id s, run_incident_id = st_incident_id s,
          run_scenario_id = st_scenario_id s,
          run_started_at = (case st_started_at s of Some t \<Rightarrow> t | None \<Rightarrow> now),
          run_finished_at = Some (case st_finished_at s of Some t \<Rightarrow> t | None \<Rightarrow> now),
          run_outcome = resolved_outcome s, run_context = ctx, run_plans = st_plans s,
          run_evidence = st_evidence s, run_tournament = st_tournament s, run_verdict = st_verdict s,
          prod_applied_plan_id = st_prod_applied_plan_id s, run_prod_outcome = st_prod_outcome s,
          run_escalation_reason = st_escalation_reason s\<rparr>)"

section \<open>Dependencies (api.py)\<close>

datatype Call =
    CReceiveAlert
  | CMetricWindow string instant
  | CErrorSignatures string instant
  | CRecentDeploys int
  | CSnapshot
  | CRetrieveCandidate IncidentContext
  | CGenerateCandidates IncidentContext int "RemediationPlan option"
  | CFork string nat
  | CRegisterTwin TwinHandle
  | CApply RemediationPlan string
  | CObserveAndScore "TwinHandle list" "RemediationPlan list"
  | CReadFacts RemediationPlan
  | CVerify RemediationPlan "Fact list"
  | CApplyToProduction RemediationPlan KernelVerdict "IncidentContext option"
  | CNotifySlack string string "RemediationPlan option"
  | CEscalate string string
  | CUnregisterTwin string
  | CTeardownAll string
  | CRecordRun RunRecord
  | CGetRun string
  | CRecordResolvedRun IncidentContext RemediationPlan string
  | CRecordOutcome string bool string

type_synonym hist = "Call trace"
type_synonym 'a node_act = "(Call, 'a) act"

record TimeoutSettings =
  fork_seconds :: rat
  candidate_apply_seconds :: rat
  observation_seconds :: rat
  kernel_seconds :: rat
  incident_seconds :: rat

record Deps =
  d_std :: PyStd
  d_timeouts :: TimeoutSettings
  d_now :: "hist \<Rightarrow> instant"
  d_new_incident_id :: "hist \<Rightarrow> string"
  d_receive_alert :: "hist \<Rightarrow> PyExc + Alert"
  d_metric_window :: "string \<Rightarrow> instant \<Rightarrow> hist \<Rightarrow> PyExc + MetricWindow"
  d_error_signatures :: "string \<Rightarrow> instant \<Rightarrow> hist \<Rightarrow> PyExc + ErrorSignature list"
  d_recent_deploys :: "int \<Rightarrow> hist \<Rightarrow> PyExc + DeployRef list"
  d_snapshot :: "hist \<Rightarrow> PyExc + DependencyGraphSnapshot"
  d_retrieve_candidate :: "IncidentContext \<Rightarrow> hist \<Rightarrow> PyExc + RemediationPlan option"
  d_generate_candidates :: "IncidentContext \<Rightarrow> int \<Rightarrow> RemediationPlan option \<Rightarrow> hist \<Rightarrow> PyExc + RemediationPlan list"
  d_fork :: "string \<Rightarrow> nat \<Rightarrow> hist \<Rightarrow> PyExc + TwinHandle list"
  d_register_twin :: "TwinHandle \<Rightarrow> hist \<Rightarrow> PyExc + unit"
  d_apply :: "RemediationPlan \<Rightarrow> string \<Rightarrow> hist \<Rightarrow> PyExc + bool"
  d_observe_and_score :: "TwinHandle list \<Rightarrow> RemediationPlan list \<Rightarrow> hist \<Rightarrow>
      PyExc + CandidateEvidence list \<times> TournamentResult"
  d_read_facts :: "hist \<Rightarrow> PyExc + FactSources"
  d_verify :: "RemediationPlan \<Rightarrow> Fact list \<Rightarrow> hist \<Rightarrow> PyExc + KernelVerdict"
  d_apply_to_production :: "RemediationPlan \<Rightarrow> KernelVerdict \<Rightarrow> IncidentContext option \<Rightarrow> hist \<Rightarrow> PyExc + bool"
  d_last_prod_outcome :: "hist \<Rightarrow> ProdOutcome option"
  d_notify_slack :: "string \<Rightarrow> string \<Rightarrow> RemediationPlan option \<Rightarrow> hist \<Rightarrow> PyExc + unit"
  d_escalate :: "string \<Rightarrow> string \<Rightarrow> hist \<Rightarrow> PyExc + unit"
  d_unregister_twin :: "string \<Rightarrow> hist \<Rightarrow> PyExc + unit"
  d_teardown_all :: "string \<Rightarrow> hist \<Rightarrow> PyExc + unit"
  d_record_run :: "RunRecord \<Rightarrow> hist \<Rightarrow> PyExc + unit"
  d_get_run :: "string \<Rightarrow> hist \<Rightarrow> PyExc + RunRecord option"
  d_record_resolved_run :: "IncidentContext \<Rightarrow> RemediationPlan \<Rightarrow> string \<Rightarrow> hist \<Rightarrow> PyExc + unit"
  d_record_outcome :: "string \<Rightarrow> bool \<Rightarrow> string \<Rightarrow> hist \<Rightarrow> PyExc + unit"


section \<open>Clean-up (cleanup.py)\<close>

definition cleanup_call :: "string \<Rightarrow> (Call, unit) act \<Rightarrow> (Call, string list) act" where
  "cleanup_call what m = acatch (abind m (\<lambda>_. aret []))
     (\<lambda>c msg. aret [fstr [what, '' failed: '', msg]])"

definition cleanup_incident_twins :: "Deps \<Rightarrow> TwinHandle list \<Rightarrow> string \<Rightarrow> string list node_act" where
  "cleanup_incident_twins deps twins incident =
     abind (amap (\<lambda>t. cleanup_call (fstr [''unregister_twin('', twin_id t, '')''])
         (acall (CUnregisterTwin (twin_id t)) (d_unregister_twin deps (twin_id t)))) twins) (\<lambda>unreg.
     abind (if incident \<noteq> [] then cleanup_call (fstr [''teardown_all('', incident, '')''])
         (acall (CTeardownAll incident) (d_teardown_all deps incident)) else aret []) (\<lambda>torn.
     aret (concat unreg @ torn)))"

section \<open>Nodes\<close>

definition ingest :: "Deps \<Rightarrow> State \<Rightarrow> Update node_act" where
  "ingest deps s =
     abind (case st_alert s of Some a \<Rightarrow> aret a | None \<Rightarrow> acall CReceiveAlert (d_receive_alert deps)) (\<lambda>alert.
     abind (if st_incident_id s \<noteq> [] then aret (st_incident_id s)
            else if alert_id alert \<noteq> [] then aret (''inc_'' @ alert_id alert)
            else aask (d_new_incident_id deps)) (\<lambda>incident.
     abind (case st_started_at s of Some t \<Rightarrow> aret t | None \<Rightarrow> aask (d_now deps)) (\<lambda>started.
     aret (no_update\<lparr>up_incident_id := Some incident, up_alert := Some alert,
       up_started_at := Some started\<rparr>))))"

definition gather_context :: "Deps \<Rightarrow> State \<Rightarrow> Update node_act" where
  "gather_context deps s =
     (case st_alert s of
        None \<Rightarrow> araise (Raised ''OrchestratorError'' ''Cannot gather context without an active alert in state'')
      | Some alert \<Rightarrow>
          (let incident = (if st_incident_id s \<noteq> [] then st_incident_id s else ''inc_'' @ alert_id alert);
               service = (if alert_service alert \<noteq> [] then alert_service alert else ''default'');
               since = alert_fired_at alert in
           abind (acall (CMetricWindow service since) (d_metric_window deps service since)) (\<lambda>window.
           abind (acall (CErrorSignatures service since) (d_error_signatures deps service since)) (\<lambda>signatures.
           abind (acall (CRecentDeploys 5) (d_recent_deploys deps 5)) (\<lambda>deploys.
           abind (acall CSnapshot (d_snapshot deps)) (\<lambda>snap.
           abind (aask (d_now deps)) (\<lambda>now.
           aret (no_update\<lparr>up_context := Some (\<lparr>ctx_incident_id = incident, ctx_alert = alert,
             ctx_signatures = signatures, ctx_metrics_window = window, recent_deploys = deploys,
             dependency_graph = snap, inferred_failure_class = None, gathered_at = now\<rparr>)\<rparr>))))))))"

text \<open>The first planner plan that repeats the playbook's action and parameters takes its origin.\<close>

fun adopt_playbook :: "RemediationPlan \<Rightarrow> RemediationPlan list \<Rightarrow> RemediationPlan list" where
  "adopt_playbook pb [] = [pb]"
| "adopt_playbook pb (p # ps) =
     (if action p = action pb \<and> params p = params pb then with_origin Playbook (playbook_id pb) p # ps
      else p # adopt_playbook pb ps)"

definition plan_candidates :: "Deps \<Rightarrow> State \<Rightarrow> Update node_act" where
  "plan_candidates deps s =
     (case st_context s of
        None \<Rightarrow> araise (Raised ''OrchestratorError'' ''Cannot plan candidates without incident context'')
      | Some ctx \<Rightarrow>
          abind (acatch (acall (CRetrieveCandidate ctx) (d_retrieve_candidate deps ctx))
            (\<lambda>c msg. if isinstance c ''PlaybookError'' then aret None else araise (Raised c msg))) (\<lambda>playbook.
          abind (acall (CGenerateCandidates ctx 3 playbook) (d_generate_candidates deps ctx 3 playbook)) (\<lambda>planner.
          (let plans = (case playbook of None \<Rightarrow> planner | Some pb \<Rightarrow> adopt_playbook pb planner) in
           aret (no_update\<lparr>up_plans :=
             Some (map (\<lambda>(i, p). with_index (int i) p) (enumerate 0 plans))\<rparr>)))))"

definition fork_fleet :: "Deps \<Rightarrow> State \<Rightarrow> Update node_act" where
  "fork_fleet deps s =
     (if st_incident_id s = [] then araise (Raised ''OrchestratorError'' ''Cannot fork fleet without incident_id'')
      else if st_plans s = [] then araise (Raised ''OrchestratorError'' ''Cannot fork fleet without remediation plans'')
      else abind (acall (CFork (st_incident_id s) (length (st_plans s)))
             (d_fork deps (st_incident_id s) (length (st_plans s)))) (\<lambda>twins.
           aret (no_update\<lparr>up_twins := Some twins\<rparr>)))"

definition register_mirrors :: "Deps \<Rightarrow> State \<Rightarrow> Update node_act" where
  "register_mirrors deps s =
     abind (aeach (\<lambda>t. acall (CRegisterTwin t) (d_register_twin deps t)) (st_twins s)) (\<lambda>_. aret no_update)"

text \<open>The dict comprehension of \<open>apply_candidates\<close>: the newest twin of each candidate index.\<close>

definition twin_of_index :: "TwinHandle list \<Rightarrow> int \<Rightarrow> TwinHandle option" where
  "twin_of_index twins i = map_of (dict_of (map (\<lambda>t. (twin_candidate_index t, t)) twins)) i"

definition apply_candidates :: "Deps \<Rightarrow> State \<Rightarrow> Update node_act" where
  "apply_candidates deps s =
     (let missing = filter (\<lambda>p. twin_of_index (st_twins s) (candidate_index p) = None) (st_plans s) in
      if missing \<noteq> [] then araise (Raised ''OrchestratorError'' (fstr [
        ''No twin forked for candidate_index ['', join '', '' (map (\<lambda>p. int_str (candidate_index p)) missing),
        ''] (plans '', int_str (int (length (st_plans s))), '', twins '', int_str (int (length (st_twins s))), '')'']))
      else abind (amap (\<lambda>p. let t = the (twin_of_index (st_twins s) (candidate_index p)) in
             abind (acall (CApply p (twin_namespace t)) (d_apply deps p (twin_namespace t))) (\<lambda>_.
             aret (t\<lparr>twin_state := Applied\<rparr>))) (st_plans s)) (\<lambda>twins.
           aret (no_update\<lparr>up_twins := Some twins\<rparr>)))"

definition observe :: "Deps \<Rightarrow> State \<Rightarrow> Update node_act" where
  "observe deps s =
     abind (acall (CObserveAndScore (st_twins s) (st_plans s))
       (d_observe_and_score deps (st_twins s) (st_plans s))) (\<lambda>(evidence, result).
     aret (no_update\<lparr>up_evidence := Some evidence, up_tournament := Some result\<rparr>))"

definition tournament_node :: "Deps \<Rightarrow> State \<Rightarrow> Update node_act" where
  "tournament_node deps s =
     abind (case st_tournament s of
         Some r \<Rightarrow> aret r
       | None \<Rightarrow> abind (acall (CObserveAndScore (st_twins s) (st_plans s))
           (d_observe_and_score deps (st_twins s) (st_plans s))) (\<lambda>er. aret (snd er))) (\<lambda>result.
     aret (case tr_outcome result of
         AMBIGUOUS \<Rightarrow> no_update\<lparr>up_tournament := Some result, up_outcome := Some ESCALATED,
           up_escalation_reason := Some (fstr [''Tournament ambiguous: margin '',
             py_str (d_std deps) (case margin result of None \<Rightarrow> PNone | Some m \<Rightarrow> PFloat m),
             '' below confidence threshold''])\<rparr>
       | NO_VIABLE_CANDIDATE \<Rightarrow> no_update\<lparr>up_tournament := Some result, up_outcome := Some ESCALATED,
           up_escalation_reason := Some ''Tournament finished with no viable candidate''\<rparr>
       | DECIDED \<Rightarrow> no_update\<lparr>up_tournament := Some result\<rparr>))"

text \<open>\<open>next((p for p in state.plans if p.plan_id == ident), None)\<close> with an optional identifier.\<close>

definition plan_by_id :: "State \<Rightarrow> string option \<Rightarrow> RemediationPlan option" where
  "plan_by_id s ident = find (\<lambda>p. Some (plan_id p) = ident) (st_plans s)"

definition winner_plan :: "State \<Rightarrow> RemediationPlan option" where
  "winner_plan s = plan_by_id s (case st_tournament s of Some t \<Rightarrow> winner_plan_id t | None \<Rightarrow> None)"

definition prod_ref :: "string \<Rightarrow> ResourceRef \<Rightarrow> ResourceRef" where
  "prod_ref namespace r =
     (if ref_namespace r = [] \<or> contains_sub ''twin'' (ref_namespace r)
      then r\<lparr>ref_namespace := namespace\<rparr> else r)"

definition prepare_plan_for_verification :: "RemediationPlan \<Rightarrow> string \<Rightarrow> RemediationPlan" where
  "prepare_plan_for_verification p namespace =
     (let q = with_targets (map (prod_ref namespace) (target_resources p)) p in
      case inverse q of
        None \<Rightarrow> q
      | Some v \<Rightarrow> with_inverse (Some (with_targets (map (prod_ref namespace) (target_resources v)) v)) q)"

definition ns_fact_empty :: "PyVal \<Rightarrow> bool" where
  "ns_fact_empty v \<longleftrightarrow> \<not> py_truthy v"

definition with_namespace_fallback :: "RemediationPlan \<Rightarrow> instant \<Rightarrow> Fact list \<Rightarrow> Fact list" where
  "with_namespace_fallback winner now facts =
     (case find (\<lambda>f. fact_name f = ''plan_target_namespaces'') facts of
        Some f \<Rightarrow> if ns_fact_empty (fact_value f) then
          (let named = uniq (filter (\<lambda>ns. ns \<noteq> []) (map ref_namespace (target_resources winner))) in
           filter (\<lambda>f. fact_name f \<noteq> ''plan_target_namespaces'') facts @
             [mk_fact now SrcConfig ''plan_target_namespaces''
               (PColl (map PStr (if named \<noteq> [] then named else [''ust-prod''])))])
          else facts
      | None \<Rightarrow>
          (let named = uniq (filter (\<lambda>ns. ns \<noteq> []) (map ref_namespace (target_resources winner))) in
           facts @ [mk_fact now SrcConfig ''plan_target_namespaces''
               (PColl (map PStr (if named \<noteq> [] then named else [''ust-prod''])))]))"

text \<open>Only an unknown service makes fact extraction fail (\<^verbatim>\<open>reachable_set\<close>).\<close>

definition graph_exc :: "PyStd \<Rightarrow> GraphExc \<Rightarrow> PyExc" where
  "graph_exc std e = Raised ''GraphError'' (case e of
     UnknownService svc \<Rightarrow> ''Unknown service: '' @ std_repr std (PStr svc) | _ \<Rightarrow> ''dependency graph'')"

definition lift_graph :: "PyStd \<Rightarrow> GraphExc + 'a \<Rightarrow> PyExc + 'a" where
  "lift_graph std r = (case r of Inl e \<Rightarrow> Inl (graph_exc std e) | Inr x \<Rightarrow> Inr x)"

definition kernel_facts :: "Deps \<Rightarrow> State \<Rightarrow> RemediationPlan \<Rightarrow> instant \<Rightarrow> Fact list node_act" where
  "kernel_facts deps s winner now =
     (let evidence = find (\<lambda>e. ev_plan_id e = plan_id winner) (st_evidence s);
          verified = prepare_plan_for_verification winner ''ust-prod'' in
      abind (aask (d_now deps)) (\<lambda>now'.
      abind (acall (CReadFacts verified) (d_read_facts deps)) (\<lambda>src.
      abind (alift (lift_graph (d_std deps) (extract_all src now' verified evidence (st_context s)))) (\<lambda>facts.
      aret (with_namespace_fallback winner now facts)))))"

definition safety_kernel :: "Deps \<Rightarrow> State \<Rightarrow> Update node_act" where
  "safety_kernel deps s =
     (case winner_plan s of
        None \<Rightarrow> aret (no_update\<lparr>up_outcome := Some ESCALATED,
          up_escalation_reason := Some ''No winning plan available for safety kernel verification''\<rparr>)
      | Some winner \<Rightarrow>
          abind (aask (d_now deps)) (\<lambda>now.
          abind (kernel_facts deps s winner now) (\<lambda>facts.
          abind (acall (CVerify winner facts) (d_verify deps winner facts)) (\<lambda>v.
          (let v' = (if st_incident_id s \<noteq> [] \<and> kv_incident_id v \<noteq> st_incident_id s
                     then v\<lparr>kv_incident_id := st_incident_id s\<rparr> else v) in
           aret (if verdict v' \<noteq> PASS
             then no_update\<lparr>up_verdict := Some v', up_outcome := Some ESCALATED,
               up_escalation_reason := Some (human_reason v')\<rparr>
             else no_update\<lparr>up_verdict := Some v'\<rparr>))))))"

definition prod_outcome_value :: "ProdOutcome \<Rightarrow> string" where
  "prod_outcome_value x = (case x of Resolved \<Rightarrow> ''resolved'' | NotResolved \<Rightarrow> ''not_resolved'' | Worsened \<Rightarrow> ''worsened'')"

definition verdict_value :: "KernelVerdictType \<Rightarrow> string" where
  "verdict_value x = (case x of PASS \<Rightarrow> ''pass'' | VETO \<Rightarrow> ''veto'' | UNCERTAIN \<Rightarrow> ''uncertain'')"

definition actuate :: "Deps \<Rightarrow> State \<Rightarrow> Update node_act" where
  "actuate deps s =
     (let denied = araise (Raised ''ActuationError'' (fstr [
        ''Cannot actuate on production without PASS verdict (got '',
        case st_verdict s of None \<Rightarrow> ''None'' | Some v \<Rightarrow> verdict_value (verdict v), '')''])) in
      case st_verdict s of
        None \<Rightarrow> denied
      | Some v \<Rightarrow>
          if verdict v \<noteq> PASS then denied
          else case winner_plan s of
            None \<Rightarrow> araise (Raised ''OrchestratorError'' ''Cannot actuate: winning plan not found in state'')
          | Some winner \<Rightarrow>
              abind (acall (CApplyToProduction winner v (st_context s))
                (d_apply_to_production deps winner v (st_context s))) (\<lambda>success.
              abind (aask (d_last_prod_outcome deps)) (\<lambda>last.
              (let result = (if success then Resolved
                     else if last = Some Worsened then Worsened else NotResolved);
                   u = no_update\<lparr>up_prod_applied_plan_id := Some (plan_id winner),
                     up_prod_outcome := Some result\<rparr> in
               aret (if success then u\<lparr>up_outcome := Some EXECUTED\<rparr>
                 else u\<lparr>up_escalation_reason := Some (fstr [
                   ''Production remediation did not resolve incident (plan '', plan_id winner,
                   '', prod_outcome '', prod_outcome_value result, '')''])\<rparr>)))))"

definition notify_slack :: "Deps \<Rightarrow> State \<Rightarrow> Update node_act" where
  "notify_slack deps s =
     (let applied = find (\<lambda>p. Some (plan_id p) = st_prod_applied_plan_id s) (st_plans s);
          message = fstr [''Incident '', st_incident_id s, '' remediation status: '',
            (case st_prod_outcome s of Some x \<Rightarrow> prod_outcome_value x | None \<Rightarrow> ''executed''),
            ''. Plan: '', (case st_prod_applied_plan_id s of Some i \<Rightarrow> if i \<noteq> [] then i else ''none''
              | None \<Rightarrow> ''none''), ''.''] in
      abind (acall (CNotifySlack (st_incident_id s) message applied)
        (d_notify_slack deps (st_incident_id s) message applied)) (\<lambda>_. aret no_update))"

definition escalation_text :: "State \<Rightarrow> string" where
  "escalation_text s =
     (case st_escalation_reason s of
        Some r \<Rightarrow> if r \<noteq> [] then r else
          (case st_verdict s of Some v \<Rightarrow> human_reason v
           | None \<Rightarrow> if st_errors s \<noteq> [] then join ''; '' (st_errors s) else ''Incident escalated to human operator'')
      | None \<Rightarrow>
          (case st_verdict s of Some v \<Rightarrow> human_reason v
           | None \<Rightarrow> if st_errors s \<noteq> [] then join ''; '' (st_errors s) else ''Incident escalated to human operator''))"

definition escalate_pagerduty :: "Deps \<Rightarrow> State \<Rightarrow> Update node_act" where
  "escalate_pagerduty deps s =
     (let reason = escalation_text s in
      abind (acall (CEscalate (st_incident_id s) reason) (d_escalate deps (st_incident_id s) reason)) (\<lambda>_.
      aret (no_update\<lparr>up_outcome := Some ESCALATED, up_escalation_reason := Some reason,
        up_escalated := Some True\<rparr>)))"

definition teardown_fleet :: "Deps \<Rightarrow> State \<Rightarrow> Update node_act" where
  "teardown_fleet deps s =
     abind (aeach (\<lambda>t. acall (CUnregisterTwin (twin_id t)) (d_unregister_twin deps (twin_id t))) (st_twins s)) (\<lambda>_.
     abind (if st_incident_id s \<noteq> [] then acall (CTeardownAll (st_incident_id s))
         (d_teardown_all deps (st_incident_id s)) else aret ()) (\<lambda>_.
     aret (no_update\<lparr>up_twins := Some (map (\<lambda>t. t\<lparr>twin_state := TornDown\<rparr>) (st_twins s))\<rparr>)))"

definition record_playbook :: "Deps \<Rightarrow> State \<Rightarrow> RunRecord \<Rightarrow> unit node_act" where
  "record_playbook deps s r =
     (case find (\<lambda>p. Some (plan_id p) = st_prod_applied_plan_id s) (st_plans s) of
        None \<Rightarrow> aret ()
      | Some p \<Rightarrow>
          (case (st_prod_outcome s, st_context s) of
             (Some Resolved, Some ctx) \<Rightarrow>
               acall (CRecordResolvedRun ctx p (run_id r)) (d_record_resolved_run deps ctx p (run_id r))
           | _ \<Rightarrow>
               (case playbook_id p of
                  Some pb \<Rightarrow> if origin p = Playbook \<and> st_prod_outcome s \<noteq> Some Resolved
                    then acall (CRecordOutcome pb False (run_id r)) (d_record_outcome deps pb False (run_id r))
                    else aret ()
                | None \<Rightarrow> aret ())))"

definition record_run :: "Deps \<Rightarrow> State \<Rightarrow> Update node_act" where
  "record_run deps s =
     abind (aask (d_now deps)) (\<lambda>finished.
     abind (alift (to_run_record (s\<lparr>st_finished_at := Some finished\<rparr>) finished)) (\<lambda>r.
     abind (acall (CRecordRun r) (d_record_run deps r)) (\<lambda>_.
     abind (record_playbook deps s r) (\<lambda>_.
     aret (no_update\<lparr>up_finished_at := Some finished, up_outcome := Some (run_outcome r)\<rparr>)))))"

definition failure_reason :: "State \<Rightarrow> string list \<Rightarrow> string" where
  "failure_reason s cleanup_errors =
     (let reasons = filter (\<lambda>r. r \<noteq> []) [
        (case st_escalation_reason s of Some r \<Rightarrow> r | None \<Rightarrow> []),
        join ''; '' (st_errors s), join ''; '' cleanup_errors] in
      if reasons \<noteq> [] then join '' | '' reasons else ''Unhandled loop failure'')"

definition handle_failure :: "Deps \<Rightarrow> State \<Rightarrow> Update node_act" where
  "handle_failure deps s =
     abind (aask (d_now deps)) (\<lambda>now.
     abind (cleanup_incident_twins deps (st_twins s) (st_incident_id s)) (\<lambda>cleanup_errors.
     (let reason = failure_reason s cleanup_errors;
          incident = (if st_incident_id s \<noteq> [] then st_incident_id s else ''unknown'');
          out = (if st_escalated s then ESCALATED else FAILED);
          finished = (case st_finished_at s of Some t \<Rightarrow> t | None \<Rightarrow> now) in
      abind (if st_escalated s then aret () else acall (CEscalate incident reason) (d_escalate deps incident reason)) (\<lambda>_.
      abind (case st_context s of
          None \<Rightarrow> aret ()
        | Some ctx \<Rightarrow>
            abind (alift (to_run_record (s\<lparr>st_outcome := Some out, st_finished_at := Some finished,
                st_escalation_reason := Some reason, st_escalated := True\<rparr>) now)) (\<lambda>r.
            acall (CRecordRun r) (d_record_run deps r))) (\<lambda>_.
      aret (no_update\<lparr>up_outcome := Some out, up_finished_at := Some finished,
        up_escalation_reason := Some reason, up_escalated := Some True\<rparr>))))))"


section \<open>Time limits of nodes (timeouts.py)\<close>

datatype Node =
    Ingest | GatherContext | PlanCandidates | ForkFleet | RegisterMirrors | ApplyCandidates | Observe
  | TournamentNode | SafetyKernel | Actuate | NotifySlack | EscalatePagerduty | TeardownFleet
  | RecordRun | HandleFailure

fun node_name :: "Node \<Rightarrow> string" where
  "node_name Ingest = ''ingest''"
| "node_name GatherContext = ''gather_context''"
| "node_name PlanCandidates = ''plan_candidates''"
| "node_name ForkFleet = ''fork_fleet''"
| "node_name RegisterMirrors = ''register_mirrors''"
| "node_name ApplyCandidates = ''apply_candidates''"
| "node_name Observe = ''observe''"
| "node_name TournamentNode = ''tournament''"
| "node_name SafetyKernel = ''safety_kernel''"
| "node_name Actuate = ''actuate''"
| "node_name NotifySlack = ''notify_slack''"
| "node_name EscalatePagerduty = ''escalate_pagerduty''"
| "node_name TeardownFleet = ''teardown_fleet''"
| "node_name RecordRun = ''record_run''"
| "node_name HandleFailure = ''handle_failure''"

fun node_fn :: "Node \<Rightarrow> Deps \<Rightarrow> State \<Rightarrow> Update node_act" where
  "node_fn Ingest = ingest"
| "node_fn GatherContext = gather_context"
| "node_fn PlanCandidates = plan_candidates"
| "node_fn ForkFleet = fork_fleet"
| "node_fn RegisterMirrors = register_mirrors"
| "node_fn ApplyCandidates = apply_candidates"
| "node_fn Observe = observe"
| "node_fn TournamentNode = tournament_node"
| "node_fn SafetyKernel = safety_kernel"
| "node_fn Actuate = actuate"
| "node_fn NotifySlack = notify_slack"
| "node_fn EscalatePagerduty = escalate_pagerduty"
| "node_fn TeardownFleet = teardown_fleet"
| "node_fn RecordRun = record_run"
| "node_fn HandleFailure = handle_failure"

definition resolve_node_timeout :: "Node \<Rightarrow> TimeoutSettings \<Rightarrow> rat option" where
  "resolve_node_timeout n t = (case n of
     ForkFleet \<Rightarrow> Some (fork_seconds t) | ApplyCandidates \<Rightarrow> Some (candidate_apply_seconds t)
   | Observe \<Rightarrow> Some (observation_seconds t) | SafetyKernel \<Rightarrow> Some (kernel_seconds t) | _ \<Rightarrow> None)"

text \<open>A node with a limit turns the cancellation by its own timer into a \<open>NodeTimeoutError\<close>.\<close>

definition with_node_timeout :: "PyStd \<Rightarrow> Node \<Rightarrow> rat option \<Rightarrow> 'a node_act \<Rightarrow> 'a node_act" where
  "with_node_timeout std n limit m h =
     (case limit of
        None \<Rightarrow> m h
      | Some secs \<Rightarrow>
          if secs \<le> 0 then m h
          else (case m h of
              (Inl (Cancelled True), h') \<Rightarrow> (Inl (Raised ''NodeTimeoutError'' (fstr [''Node '', squote (node_name n),
                '' timed out after '', std_repr std (PFloat secs), ''s''])), h')
            | r \<Rightarrow> r))"

section \<open>The graph (graph.py)\<close>

text \<open>\<open>_make_node_runner\<close>: a failure of the node becomes an entry of \<open>errors\<close>.\<close>

definition run_node :: "Deps \<Rightarrow> Node \<Rightarrow> State \<Rightarrow> Update node_act" where
  "run_node deps n s = acatch
     (with_node_timeout (d_std deps) n (resolve_node_timeout n (d_timeouts deps)) (node_fn n deps s))
     (\<lambda>c msg. aret (no_update\<lparr>up_errors := Some [fstr [c, '': '', msg]]\<rparr>))"

text \<open>A router returns the next node, \<open>None\<close> for \<open>END\<close>.\<close>

definition route_linear :: "Node option \<Rightarrow> State \<Rightarrow> Node option" where
  "route_linear next_node s = (if st_errors s \<noteq> [] then Some HandleFailure else next_node)"

definition route_tournament :: "State \<Rightarrow> Node option" where
  "route_tournament s =
     (if st_errors s \<noteq> [] then Some HandleFailure
      else case st_tournament s of
        None \<Rightarrow> Some EscalatePagerduty
      | Some t \<Rightarrow>
          if tr_outcome t \<noteq> DECIDED \<or> winner_plan_id t = None \<or> winner_plan_id t = Some [] \<or>
             st_outcome s = Some ESCALATED
          then Some EscalatePagerduty else Some SafetyKernel)"

definition route_safety_kernel :: "State \<Rightarrow> Node option" where
  "route_safety_kernel s =
     (if st_errors s \<noteq> [] then Some HandleFailure
      else case st_verdict s of
        None \<Rightarrow> Some EscalatePagerduty
      | Some v \<Rightarrow>
          if verdict v \<noteq> PASS \<or> st_outcome s = Some ESCALATED then Some EscalatePagerduty else Some Actuate)"

definition route_actuation :: "State \<Rightarrow> Node option" where
  "route_actuation s =
     (if st_errors s \<noteq> [] then Some HandleFailure
      else if st_prod_outcome s \<noteq> Some Resolved then Some EscalatePagerduty
      else Some NotifySlack)"

text \<open>The edges \<open>build_graph\<close> adds.\<close>

fun route :: "Node \<Rightarrow> State \<Rightarrow> Node option" where
  "route Ingest = route_linear (Some GatherContext)"
| "route GatherContext = route_linear (Some PlanCandidates)"
| "route PlanCandidates = route_linear (Some ForkFleet)"
| "route ForkFleet = route_linear (Some RegisterMirrors)"
| "route RegisterMirrors = route_linear (Some ApplyCandidates)"
| "route ApplyCandidates = route_linear (Some Observe)"
| "route Observe = route_linear (Some TournamentNode)"
| "route TournamentNode = route_tournament"
| "route SafetyKernel = route_safety_kernel"
| "route Actuate = route_actuation"
| "route NotifySlack = route_linear (Some TeardownFleet)"
| "route EscalatePagerduty = route_linear (Some TeardownFleet)"
| "route TeardownFleet = route_linear (Some RecordRun)"
| "route RecordRun = route_linear None"
| "route HandleFailure = (\<lambda>s. None)"

text \<open>
  A run is at a node, has ended, or was left by an exception the node runner does not catch; the last
  state is then the one \<open>StateTracker\<close> saw when the node was entered.
\<close>

datatype Conf = At Node State hist | Ended State hist | Aborted PyExc State hist

inductive gstep :: "Deps \<Rightarrow> Conf \<Rightarrow> Conf \<Rightarrow> bool" for deps where
  node_next: "run_node deps n s h = (Inr u, h') \<Longrightarrow> apply_update s u = Inr s' \<Longrightarrow> route n s' = Some m \<Longrightarrow>
    gstep deps (At n s h) (At m s' h')"
| node_end: "run_node deps n s h = (Inr u, h') \<Longrightarrow> apply_update s u = Inr s' \<Longrightarrow> route n s' = None \<Longrightarrow>
    gstep deps (At n s h) (Ended s' h')"
| node_abort: "run_node deps n s h = (Inl e, h') \<Longrightarrow> gstep deps (At n s h) (Aborted e s h')"
| reducer_abort: "run_node deps n s h = (Inr u, h') \<Longrightarrow> apply_update s u = Inl e \<Longrightarrow>
    gstep deps (At n s h) (Aborted e s h')"

inductive_cases gstepE: "gstep deps (At n s h) c"

definition next_conf :: "Deps \<Rightarrow> Node \<Rightarrow> State \<Rightarrow> hist \<Rightarrow> Conf" where
  "next_conf deps n s h =
     (case run_node deps n s h of
        (Inl e, h') \<Rightarrow> Aborted e s h'
      | (Inr u, h') \<Rightarrow>
          (case apply_update s u of
             Inl e \<Rightarrow> Aborted e s h'
           | Inr s' \<Rightarrow> (case route n s' of Some m \<Rightarrow> At m s' h' | None \<Rightarrow> Ended s' h')))"

fun run_graph :: "nat \<Rightarrow> Deps \<Rightarrow> Conf \<Rightarrow> Conf" where
  "run_graph (Suc k) deps (At n s h) = run_graph k deps (next_conf deps n s h)"
| "run_graph k deps c = c"

definition initial_state :: "Alert option \<Rightarrow> string \<Rightarrow> State" where
  "initial_state alert incident = \<lparr>st_incident_id = incident, st_context = None, st_plans = [], st_twins = [],
     st_evidence = [], st_tournament = None, st_verdict = None, st_outcome = None, st_errors = [],
     st_alert = alert, st_started_at = None, st_finished_at = None, st_prod_applied_plan_id = None,
     st_prod_outcome = None, st_escalation_reason = None, st_escalated = False, st_scenario_id = None\<rparr>"

definition execute_emergency_escalation :: "Deps \<Rightarrow> State \<Rightarrow> string \<Rightarrow> RunRecord option node_act" where
  "execute_emergency_escalation deps s reason =
     abind (aask (d_now deps)) (\<lambda>now.
     abind (cleanup_incident_twins deps (st_twins s) (st_incident_id s)) (\<lambda>_.
     (let incident = (if st_incident_id s \<noteq> [] then st_incident_id s else ''unknown'') in
      abind (acatch (acall (CEscalate incident reason) (d_escalate deps incident reason)) (\<lambda>c msg. aret ())) (\<lambda>_.
      (case st_context s of
         None \<Rightarrow> aret None
       | Some ctx \<Rightarrow>
           abind (alift (to_run_record (s\<lparr>st_outcome := Some ESCALATED, st_finished_at := Some now,
               st_escalation_reason := Some reason, st_escalated := True\<rparr>) now)) (\<lambda>r.
           abind (acatch (acall (CRecordRun r) (d_record_run deps r)) (\<lambda>c msg. aret ())) (\<lambda>_.
           aret (Some r))))))))"

text \<open>Fourteen nodes are the longest path through the graph.\<close>

definition MAX_NODES :: nat where "MAX_NODES = 14"

text \<open>
  \<open>IncidentWatchdog.run\<close>: the run is a task that only the watchdog cancels (a cancellation of the
  caller is not modelled), so a run left by a cancellation is one whose time was up.
\<close>

definition watchdog_run :: "Deps \<Rightarrow> Conf \<Rightarrow> (PyExc + State) \<times> hist" where
  "watchdog_run deps c =
     (let limit = incident_seconds (d_timeouts deps);
          reason = fstr [''Incident watchdog timeout exceeded after '', std_repr (d_std deps) (PFloat limit), ''s''] in
      case c of
        Ended s h \<Rightarrow> (Inr s, h)
      | Aborted (Cancelled b) s h \<Rightarrow>
          if limit \<le> 0 then (Inl (Cancelled b), h)
          else abind (execute_emergency_escalation deps s reason)
            (\<lambda>_. araise (Raised ''IncidentTimeoutError'' reason)) h
      | Aborted e s h \<Rightarrow> (Inl e, h)
      | At n s h \<Rightarrow> (Inl (Raised ''GraphRecursionError'' ''node budget exhausted''), h))"

definition get_run_of :: "Deps \<Rightarrow> string \<Rightarrow> RunRecord node_act \<Rightarrow> RunRecord node_act" where
  "get_run_of deps incident otherwise =
     abind (acall (CGetRun (''run_'' @ incident)) (d_get_run deps (''run_'' @ incident))) (\<lambda>existing.
     case existing of Some r \<Rightarrow> aret r | None \<Rightarrow> otherwise)"

definition finish_incident :: "Deps \<Rightarrow> State \<Rightarrow> RunRecord node_act" where
  "finish_incident deps s =
     (let fresh = (case st_context s of
          None \<Rightarrow> araise (Raised ''OrchestratorError''
            (fstr [''Cannot produce RunRecord: incident context was not gathered ('',
              (if st_errors s \<noteq> [] then join ''; '' (st_errors s) else ''no errors reported''), '')'']))
        | Some ctx \<Rightarrow> abind (aask (d_now deps)) (\<lambda>now. alift (to_run_record s now))) in
      if st_incident_id s \<noteq> [] then get_run_of deps (st_incident_id s) fresh else fresh)"

definition run_incident :: "Deps \<Rightarrow> Alert \<Rightarrow> RunRecord node_act" where
  "run_incident deps alert =
     abind (if alert_id alert \<noteq> [] then aret (''inc_'' @ alert_id alert) else aask (d_new_incident_id deps)) (\<lambda>incident.
     abind (\<lambda>h. case watchdog_run deps (run_graph MAX_NODES deps (At Ingest (initial_state (Some alert) incident) h)) of
          (Inr s, h') \<Rightarrow> (Inr (Inr s), h')
        | (Inl (Raised c msg), h') \<Rightarrow>
            (if isinstance c ''IncidentTimeoutError'' then Inr (Inl msg) else Inl (Raised c msg), h')
        | (Inl (Cancelled b), h') \<Rightarrow> (Inl (Cancelled b), h')) (\<lambda>outcome.
     case outcome of
       Inl msg \<Rightarrow> get_run_of deps incident
         (araise (Raised ''OrchestratorError'' (''Incident watchdog timed out: '' @ msg)))
     | Inr s \<Rightarrow> finish_incident deps s))"

end
