(* ===== verification/IncidentLoop.thy ===== *)
theory IncidentLoop
  imports Orchestrator
begin

text \<open>
  The library for the properties of the incident loop: which calls a node can make, which fields of the
  state it can write (\<open>frame\<close>), the two ways a node can end (its own update, or an entry of
  \<open>errors\<close>), invariants of the nodes entered, and the rank that every edge of the graph raises.
\<close>

section \<open>Kinds of calls\<close>

fun is_prod :: "Call \<Rightarrow> bool" where
  "is_prod (CApplyToProduction p v c) = True"
| "is_prod _ = False"

fun is_page :: "Call \<Rightarrow> bool" where
  "is_page (CEscalate i r) = True"
| "is_page _ = False"

fun is_record :: "Call \<Rightarrow> bool" where
  "is_record (CRecordRun r) = True"
| "is_record _ = False"

lemmas node_defs = ingest_def gather_context_def plan_candidates_def fork_fleet_def register_mirrors_def
  apply_candidates_def observe_def tournament_node_def safety_kernel_def kernel_facts_def actuate_def
  notify_slack_def escalate_pagerduty_def teardown_fleet_def record_run_def record_playbook_def
  handle_failure_def cleanup_incident_twins_def cleanup_call_def

lemma emits_timeout [emits_intros]: "emits P m \<Longrightarrow> emits P (with_node_timeout std n limit m)"
  unfolding emits_def with_node_timeout_def
  by (auto split: option.splits if_splits prod.splits sum.splits PyExc.splits bool.splits)

lemma emits_run_node: "emits P (node_fn n deps s) \<Longrightarrow> emits P (run_node deps n s)"
  unfolding run_node_def by (intro emits_intros)

lemma emits_prod [emits_intros]:
  "(\<And>x y. z = (x, y) \<Longrightarrow> emits P (f x y)) \<Longrightarrow> emits P (case z of (x, y) \<Rightarrow> f x y)"
  by (cases z) auto

lemma node_no_prod: "n \<noteq> Actuate \<Longrightarrow> emits (\<lambda>c. \<not> is_prod c) (node_fn n deps s)"
  by (cases n) (auto simp: node_defs Let_def intro!: emits_intros split: option.split ProdOutcome.split prod.split)

lemma node_no_page: "n \<noteq> EscalatePagerduty \<Longrightarrow> n \<noteq> HandleFailure \<Longrightarrow> emits (\<lambda>c. \<not> is_page c) (node_fn n deps s)"
  by (cases n) (auto simp: node_defs Let_def intro!: emits_intros split: option.split ProdOutcome.split prod.split)

lemma node_no_record: "n \<noteq> RecordRun \<Longrightarrow> n \<noteq> HandleFailure \<Longrightarrow> emits (\<lambda>c. \<not> is_record c) (node_fn n deps s)"
  by (cases n) (auto simp: node_defs Let_def intro!: emits_intros split: option.split ProdOutcome.split prod.split)


section \<open>The fields a node can write\<close>

definition frame :: "Node \<Rightarrow> Update \<Rightarrow> bool" where
  "frame n u \<longleftrightarrow> up_errors u = None \<and>
    (n \<noteq> Ingest \<longrightarrow> up_incident_id u = None) \<and>
    (n \<notin> {EscalatePagerduty, HandleFailure} \<longrightarrow> up_escalated u = None) \<and>
    (n \<noteq> SafetyKernel \<longrightarrow> up_verdict u = None) \<and>
    (n \<notin> {Observe, TournamentNode} \<longrightarrow> up_tournament u = None) \<and>
    (n \<noteq> PlanCandidates \<longrightarrow> up_plans u = None) \<and>
    (n \<notin> {TournamentNode, SafetyKernel, Actuate, EscalatePagerduty, RecordRun, HandleFailure} \<longrightarrow> up_outcome u = None) \<and>
    (n \<noteq> Actuate \<longrightarrow> up_prod_outcome u = None) \<and>
    (n \<notin> {ForkFleet, ApplyCandidates, TeardownFleet} \<longrightarrow> up_twins u = None)"

definition returns :: "('c, 'a) act \<Rightarrow> ('a \<Rightarrow> bool) \<Rightarrow> bool" where
  "returns m Q \<longleftrightarrow> (\<forall>h y h'. m h = (Inr y, h') \<longrightarrow> Q y)"

lemma returns_abind: "(\<And>x. returns (f x) Q) \<Longrightarrow> returns (abind m f) Q"
  unfolding returns_def by (metis abind_Inr_iff)
lemma returns_aret: "Q x \<Longrightarrow> returns (aret x) Q"
  unfolding returns_def by (simp add: act_simps)
lemma returns_araise: "returns (araise e) Q"
  unfolding returns_def by (simp add: act_simps)
lemma returns_prod: "(\<And>x y. returns (f x y) Q) \<Longrightarrow> returns (case z of (x, y) \<Rightarrow> f x y) Q"
  by (cases z) auto

lemma node_frame: "returns (node_fn n deps s) (frame n)"
  by (cases n)
    (auto simp: node_defs Let_def frame_def no_update_def
      intro!: returns_abind returns_aret returns_araise returns_prod
      split: option.split TournamentOutcome.split)

section \<open>Steps of the graph\<close>

lemma run_node_cases:
  assumes "run_node deps n s h = (Inr u, h')"
  obtains (ok) "node_fn n deps s h = (Inr u, h')"
  | (failed) e msg where "node_fn n deps s h = (Inl e, h')" "u = no_update\<lparr>up_errors := Some [msg]\<rparr>"
proof -
  let ?m = "with_node_timeout (d_std deps) n (resolve_node_timeout n (d_timeouts deps)) (node_fn n deps s)"
  from assms consider "?m h = (Inr u, h')"
    | c msg where "?m h = (Inl (Raised c msg), h')" "u = no_update\<lparr>up_errors := Some [fstr [c, '': '', msg]]\<rparr>"
    by (auto simp: run_node_def act_simps)
  then show thesis
  proof cases
    case 1
    then have "node_fn n deps s h = (Inr u, h')"
      by (auto simp: with_node_timeout_def split: option.splits if_splits prod.splits sum.splits PyExc.splits bool.splits)
    then show thesis by (rule ok)
  next
    case 2
    from 2(1) have "\<exists>e. node_fn n deps s h = (Inl e, h')"
      by (auto simp: with_node_timeout_def split: option.splits if_splits prod.splits sum.splits PyExc.splits bool.splits)
    with 2(2) failed show thesis by blast
  qed
qed

lemma apply_update_errors:
  "apply_update s (no_update\<lparr>up_errors := Some es\<rparr>) = Inr (s\<lparr>st_errors := st_errors s @ es\<rparr>)"
  by (cases s) (simp add: apply_update_def no_update_def reduce_incident_id_def reduce_replace_def
      reduce_plans_def reduce_twins_def reduce_evidence_def reduce_by_key_def reduce_errors_def
      reduce_escalated_def reduce_started_at_def split: option.split)

lemma apply_update_sel:
  assumes "apply_update s u = Inr s'"
  shows "st_context s' = reduce_replace (st_context s) (up_context u)"
    "st_plans s' = reduce_plans (st_plans s) (up_plans u)"
    "st_twins s' = reduce_twins (st_twins s) (up_twins u)"
    "st_tournament s' = reduce_replace (st_tournament s) (up_tournament u)"
    "st_verdict s' = reduce_replace (st_verdict s) (up_verdict u)"
    "st_outcome s' = reduce_replace (st_outcome s) (up_outcome u)"
    "st_errors s' = reduce_errors (st_errors s) (up_errors u)"
    "st_prod_outcome s' = reduce_replace (st_prod_outcome s) (up_prod_outcome u)"
    "st_escalated s' = reduce_escalated (st_escalated s) (up_escalated u)"
    "reduce_incident_id (st_incident_id s) (up_incident_id u) = Inr (st_incident_id s')"
  using assms by (auto simp: apply_update_def bindE_Inr_iff)

lemma reduce_simps [simp]:
  "reduce_replace x None = x" "reduce_replace x (Some y) = Some y"
  "reduce_plans ps None = ps" "reduce_twins ts None = ts" "reduce_errors es None = es"
  "reduce_escalated b None = b" "reduce_escalated b (Some True) = True"
  "reduce_incident_id i None = Inr i"
  by (simp_all add: reduce_replace_def reduce_plans_def reduce_twins_def reduce_by_key_def
      reduce_errors_def reduce_escalated_def reduce_incident_id_def)

text \<open>An invariant of the nodes entered holds whenever a node is entered.\<close>

lemma run_invariant:
  assumes "(gstep deps)\<^sup>*\<^sup>* (At Ingest s0 h0) c" "c = At n s h"
    and "I Ingest s0 h0"
    and "\<And>n s h u h' s' m. I n s h \<Longrightarrow> run_node deps n s h = (Inr u, h') \<Longrightarrow> apply_update s u = Inr s' \<Longrightarrow>
      route n s' = Some m \<Longrightarrow> I m s' h'"
  shows "I n s h"
  using assms(1,2)
proof (induction arbitrary: n s h rule: rtranclp_induct)
  case base
  then show ?case using assms(3) by simp
next
  case (step c1 c2)
  from step.hyps(2) step.prems show ?case
    by (cases rule: gstep.cases) (use step.IH assms(4) in blast)+
qed

text \<open>The first half of the loop, in order; the nodes after \<open>Actuate\<close>.\<close>

fun node_rank :: "Node \<Rightarrow> nat" where
  "node_rank Ingest = 0" | "node_rank GatherContext = 1" | "node_rank PlanCandidates = 2"
| "node_rank ForkFleet = 3" | "node_rank RegisterMirrors = 4" | "node_rank ApplyCandidates = 5"
| "node_rank Observe = 6" | "node_rank TournamentNode = 7" | "node_rank SafetyKernel = 8"
| "node_rank Actuate = 9" | "node_rank NotifySlack = 10" | "node_rank EscalatePagerduty = 10"
| "node_rank TeardownFleet = 11" | "node_rank RecordRun = 12" | "node_rank HandleFailure = 13"

lemma route_rank: "route n s = Some m \<Longrightarrow> node_rank n < node_rank m"
  by (cases n) (auto simp: route_linear_def route_tournament_def route_safety_kernel_def route_actuation_def
      split: if_splits option.splits)

lemma route_errors: "route n s = Some m \<Longrightarrow> st_errors s \<noteq> [] \<longleftrightarrow> m = HandleFailure"
  by (cases n) (auto simp: route_linear_def route_tournament_def route_safety_kernel_def route_actuation_def
      split: if_splits option.splits)

text \<open>Basic facts of every node entered.\<close>

definition basic :: "Node \<Rightarrow> State \<Rightarrow> hist \<Rightarrow> bool" where
  "basic n s h \<longleftrightarrow> st_incident_id s \<noteq> [] \<and> (st_errors s \<noteq> [] \<longleftrightarrow> n = HandleFailure)"

lemma ingest_incident:
  "ingest deps s h = (Inr u, h') \<Longrightarrow> st_incident_id s \<noteq> [] \<Longrightarrow> up_incident_id u = Some (st_incident_id s)"
  by (auto simp: ingest_def act_simps no_update_def split: option.splits)

lemma step_incident:
  assumes "run_node deps n s h = (Inr u, h')" "apply_update s u = Inr s'" "st_incident_id s \<noteq> []"
  shows "st_incident_id s' = st_incident_id s"
  using assms(1)
proof (cases rule: run_node_cases)
  case ok
  have "up_incident_id u = None \<or> up_incident_id u = Some (st_incident_id s)"
  proof (cases "n = Ingest")
    case True
    then show ?thesis using ok ingest_incident assms(3) by auto
  next
    case False
    then show ?thesis using node_frame [of n deps s] ok unfolding returns_def frame_def by blast
  qed
  then show ?thesis using apply_update_sel(10) [OF assms(2)] assms(3)
    by (auto simp: reduce_incident_id_def)
next
  case failed
  then show ?thesis using assms(2) by (auto simp: apply_update_errors)
qed

end
