(* ===== verification/LoopSafety.thy ===== *)
theory LoopSafety
  imports IncidentLoop
begin

text \<open>
  Production is reached at most once in a run, and only with the tournament's winner and a verdict the
  kernel gave that very plan: the invariant \<open>prod_inv\<close> of the nodes entered.
\<close>

lemma step_cases:
  assumes "run_node deps n s h = (Inr u, h')" "apply_update s u = Inr s'"
  obtains (ok) "node_fn n deps s h = (Inr u, h')" "frame n u" "st_errors s' = st_errors s"
  | (failed) e es where "node_fn n deps s h = (Inl e, h')" "s' = s\<lparr>st_errors := es\<rparr>" "es \<noteq> []"
  using assms(1)
proof (cases rule: run_node_cases)
  case ok
  then have "frame n u" using node_frame [of n deps s] unfolding returns_def by blast
  moreover have "st_errors s' = st_errors s"
    using apply_update_sel(7) [OF assms(2)] \<open>frame n u\<close> by (simp add: frame_def)
  ultimately show thesis using that(1) ok by blast
next
  case (failed e msg)
  then have "s' = s\<lparr>st_errors := st_errors s @ [msg]\<rparr>"
    using assms(2) by (simp add: apply_update_errors)
  then show thesis using that(2) failed(1) by blast
qed

section \<open>Production is touched at most once, by an approved winner\<close>

definition approved :: "Deps \<Rightarrow> RemediationPlan \<Rightarrow> KernelVerdict \<Rightarrow> bool" where
  "approved deps p v \<longleftrightarrow> (\<exists>h0 src t t' ev ctx facts h v0 incident.
     d_read_facts deps h0 = Inr src \<and> extract_all src t (prepare_plan_for_verification p ''ust-prod'') ev ctx = Inr facts \<and>
     d_verify deps p (with_namespace_fallback p t' facts) h = Inr v0 \<and> verdict v0 = PASS \<and>
     v = v0\<lparr>kv_incident_id := incident\<rparr>)"

definition tournament_ran :: "Deps \<Rightarrow> TournamentResult \<Rightarrow> bool" where
  "tournament_ran deps t \<longleftrightarrow> (\<exists>twins plans h evidence. d_observe_and_score deps twins plans h = Inr (evidence, t))"

definition won :: "Deps \<Rightarrow> RemediationPlan \<Rightarrow> bool" where
  "won deps p \<longleftrightarrow> (\<exists>t. tournament_ran deps t \<and> tr_outcome t = DECIDED \<and> winner_plan_id t = Some (plan_id p))"

definition prod_calls :: "hist \<Rightarrow> (Call \<times> bool) list" where
  "prod_calls h = filter (\<lambda>e. is_prod (fst e)) h"

lemma prod_calls_append [simp]: "prod_calls (h @ k) = prod_calls h @ prod_calls k"
  by (simp add: prod_calls_def)

lemma prod_calls_same:
  assumes "emits (\<lambda>c. \<not> is_prod c) m" "m h = (r, h')"
  shows "prod_calls h' = prod_calls h"
proof -
  obtain k where k: "h' = h @ k" "\<forall>e \<in> set k. \<not> is_prod (fst e)" using emitsD [OF assms] by blast
  then show ?thesis by (simp add: prod_calls_def filter_empty_conv)
qed

lemma winner_plan_Some:
  assumes "winner_plan s = Some p"
  obtains t where "st_tournament s = Some t" "winner_plan_id t = Some (plan_id p)" "p \<in> set (st_plans s)"
proof -
  from assms obtain t where "st_tournament s = Some t"
    by (cases "st_tournament s") (auto simp: winner_plan_def plan_by_id_def find_Some_iff)
  with assms find_Some_set that show thesis by (fastforce simp: winner_plan_def plan_by_id_def)
qed

lemma lift_graph_Inr_iff [act_simps]:
  "lift_graph std r = Inr x \<longleftrightarrow> r = Inr x" "Inr x = lift_graph std r \<longleftrightarrow> r = Inr x"
  by (auto simp: lift_graph_def split: sum.split)

lemma tournament_ranI: "d_observe_and_score deps twins plans h = Inr (evidence, t) \<Longrightarrow> tournament_ran deps t"
  unfolding tournament_ran_def by blast

lemma safety_kernel_pass:
  assumes "safety_kernel deps s h = (Inr u, h')" "up_verdict u = Some v" "verdict v = PASS"
  shows "\<exists>p. winner_plan s = Some p \<and> approved deps p v"
proof (cases "winner_plan s")
  case None
  then show ?thesis using assms(1,2) by (auto simp: safety_kernel_def act_simps no_update_def)
next
  case (Some p)
  from assms(1) Some obtain now facts h1 v0 where
    f: "kernel_facts deps s p now h = (Inr facts, h1)" and v0: "d_verify deps p facts h1 = Inr v0"
    and u: "up_verdict u = Some (if st_incident_id s \<noteq> [] \<and> kv_incident_id v0 \<noteq> st_incident_id s
                     then v0\<lparr>kv_incident_id := st_incident_id s\<rparr> else v0)"
    by (auto simp: safety_kernel_def act_simps no_update_def Let_def split: if_splits)
  from f obtain h0 src t fs where fs: "d_read_facts deps h0 = Inr src" "extract_all src t (prepare_plan_for_verification p ''ust-prod'')
       (find (\<lambda>e. ev_plan_id e = plan_id p) (st_evidence s)) (st_context s) = Inr fs"
    "facts = with_namespace_fallback p now fs"
    by (auto simp: kernel_facts_def act_simps Let_def)
  have v: "v = v0\<lparr>kv_incident_id := kv_incident_id v\<rparr>" using u assms(2) by (auto split: if_splits)
  have "verdict v0 = PASS" using v assms(3) by (metis KernelVerdict.select_convs(3) KernelVerdict.surjective KernelVerdict.update_convs(1))
  then show ?thesis unfolding approved_def using Some fs v0 v by blast
qed

lemma actuate_calls:
  assumes "actuate deps s h = (r, h')"
  shows "prod_calls h' = prod_calls h \<or>
    (\<exists>p v b. prod_calls h' = prod_calls h @ [(CApplyToProduction p v (st_context s), b)] \<and>
       st_verdict s = Some v \<and> winner_plan s = Some p)"
proof (cases "st_verdict s")
  case None
  then show ?thesis using assms by (auto simp: actuate_def act_simps)
next
  case (Some v)
  show ?thesis
  proof (cases "winner_plan s")
    case None
    then show ?thesis using assms Some by (auto simp: actuate_def act_simps split: if_splits)
  next
    case w: (Some p)
    have "h' = h \<or> (\<exists>b. h' = h @ [(CApplyToProduction p v (st_context s), b)])"
      using assms Some w
      by (auto simp: actuate_def Let_def abind_def acall_def araise_def aask_def aret_def
          split: if_splits prod.splits sum.splits)
    then show ?thesis using Some w by (auto simp: prod_calls_def)
  qed
qed

lemma observe_tournament:
  assumes "observe deps s h = (Inr u, h')" "up_tournament u = Some t"
  shows "tournament_ran deps t"
proof -
  from assms obtain evidence where "d_observe_and_score deps (st_twins s) (st_plans s) h = Inr (evidence, t)"
    by (auto simp: observe_def act_simps no_update_def)
  then show ?thesis by (rule tournament_ranI)
qed

lemma tournament_node_tournament:
  assumes "tournament_node deps s h = (Inr u, h')" "up_tournament u = Some t" "st_tournament s \<noteq> Some t"
  shows "tournament_ran deps t"
proof -
  have up: "up_tournament (case tr_outcome r of
         AMBIGUOUS \<Rightarrow> no_update\<lparr>up_tournament := Some r, up_outcome := a, up_escalation_reason := b\<rparr>
       | NO_VIABLE_CANDIDATE \<Rightarrow> no_update\<lparr>up_tournament := Some r, up_outcome := c, up_escalation_reason := d\<rparr>
       | DECIDED \<Rightarrow> no_update\<lparr>up_tournament := Some r\<rparr>) = Some r" for r a b c d
    by (simp split: TournamentOutcome.split)
  from assms(1) obtain r where r: "up_tournament u = Some r"
    "st_tournament s = Some r \<or>
     (\<exists>evidence. d_observe_and_score deps (st_twins s) (st_plans s) h = Inr (evidence, r))"
    by (cases "st_tournament s") (auto simp: tournament_node_def act_simps up)
  with assms(2,3) show ?thesis using tournament_ranI by auto
qed

lemma tournament_update:
  assumes "node_fn n deps s h = (Inr u, h')" "up_tournament u = Some t"
    and "\<And>t. st_tournament s = Some t \<Longrightarrow> tournament_ran deps t"
  shows "tournament_ran deps t"
proof -
  have "n = Observe \<or> n = TournamentNode"
    using node_frame [of n deps s] assms(1,2) unfolding returns_def frame_def by fastforce
  then show ?thesis
  proof
    assume "n = Observe"
    then show ?thesis using assms(1,2) by (intro observe_tournament) auto
  next
    assume n: "n = TournamentNode"
    show ?thesis
    proof (cases "st_tournament s = Some t")
      case False
      then show ?thesis using assms(1,2) n by (intro tournament_node_tournament) auto
    qed (rule assms(3))
  qed
qed


definition authorised :: "Deps \<Rightarrow> Call \<Rightarrow> bool" where
  "authorised deps c \<longleftrightarrow> (\<forall>p v ctx. c = CApplyToProduction p v ctx \<longrightarrow> approved deps p v \<and> won deps p)"

definition prod_inv :: "Deps \<Rightarrow> Node \<Rightarrow> State \<Rightarrow> hist \<Rightarrow> bool" where
  "prod_inv deps n s h \<longleftrightarrow>
     (\<forall>t. st_tournament s = Some t \<longrightarrow> tournament_ran deps t) \<and>
     (n \<in> {SafetyKernel, Actuate} \<longrightarrow> (\<exists>t. st_tournament s = Some t \<and> tr_outcome t = DECIDED)) \<and>
     (n = Actuate \<longrightarrow> (\<exists>v p. st_verdict s = Some v \<and> winner_plan s = Some p \<and> approved deps p v)) \<and>
     (node_rank n \<le> node_rank Actuate \<longrightarrow> prod_calls h = []) \<and>
     length (prod_calls h) \<le> 1 \<and> (\<forall>e \<in> set (prod_calls h). authorised deps (fst e))"

lemma run_node_prod_calls:
  assumes "run_node deps n s h = (r, h')" "n \<noteq> Actuate"
  shows "prod_calls h' = prod_calls h"
  by (rule prod_calls_same [OF emits_run_node [OF node_no_prod [OF assms(2)]] assms(1)])

lemma run_node_actuate:
  assumes "run_node deps Actuate s h = (r, h')"
  obtains r' where "actuate deps s h = (r', h')"
proof -
  have "with_node_timeout std n None m = m" for std n and m :: "Update node_act"
    by (simp add: with_node_timeout_def fun_eq_iff)
  then have "run_node deps Actuate s h = acatch (actuate deps s)
      (\<lambda>c msg. aret (no_update\<lparr>up_errors := Some [fstr [c, '': '', msg]]\<rparr>)) h"
    by (simp add: run_node_def resolve_node_timeout_def)
  with assms have "\<exists>r'. actuate deps s h = (r', h')"
    by (auto simp: acatch_def aret_def split: prod.splits sum.splits PyExc.splits)
  with that show thesis by blast
qed

text \<open>Whatever a node does, only an authorised call reaches production, and only once.\<close>

lemma node_prod_calls:
  assumes "prod_inv deps n s h" "run_node deps n s h = (r, h')"
  shows "length (prod_calls h') \<le> 1 \<and> (\<forall>e \<in> set (prod_calls h'). authorised deps (fst e)) \<and>
    (n \<noteq> Actuate \<longrightarrow> prod_calls h' = prod_calls h)"
proof (cases "n = Actuate")
  case False
  then show ?thesis using run_node_prod_calls [OF assms(2)] assms(1) unfolding prod_inv_def by presburger
next
  case True
  with assms obtain r' where r': "actuate deps s h = (r', h')" by (metis run_node_actuate)
  from assms(1) True obtain v p where vp: "st_verdict s = Some v" "winner_plan s = Some p" "approved deps p v"
    and none: "prod_calls h = []" and dec: "\<exists>t. st_tournament s = Some t \<and> tr_outcome t = DECIDED"
    and ran: "\<forall>t. st_tournament s = Some t \<longrightarrow> tournament_ran deps t"
    unfolding prod_inv_def by auto
  from vp(2) obtain t where "st_tournament s = Some t" "winner_plan_id t = Some (plan_id p)"
    by (rule winner_plan_Some)
  with dec ran have "won deps p" unfolding won_def by auto
  with vp(3) have "authorised deps (CApplyToProduction p v (st_context s))" by (simp add: authorised_def)
  with actuate_calls [OF r'] none vp(1,2) True show ?thesis by auto
qed

text \<open>The three parts of the invariant about the state, over one step.\<close>

lemma step_tournament_ran:
  assumes "prod_inv deps n s h" "run_node deps n s h = (Inr u, h')" "apply_update s u = Inr s'"
    and "st_tournament s' = Some t"
  shows "tournament_ran deps t"
  using assms(2,3)
proof (cases rule: step_cases)
  case ok
  have old: "\<forall>t. st_tournament s = Some t \<longrightarrow> tournament_ran deps t" using assms(1) by (simp add: prod_inv_def)
  show ?thesis
  proof (cases "up_tournament u")
    case None
    then show ?thesis using old apply_update_sel(4) [OF assms(3)] assms(4) by simp
  next
    case (Some t')
    then show ?thesis using tournament_update [OF ok(1) Some] old apply_update_sel(4) [OF assms(3)] assms(4) by auto
  qed
qed (use assms(1,4) in \<open>simp add: prod_inv_def\<close>)

lemma step_decided:
  assumes "prod_inv deps n s h" "run_node deps n s h = (Inr u, h')" "apply_update s u = Inr s'"
    and "route n s' = Some m" "m \<in> {SafetyKernel, Actuate}"
  shows "\<exists>t. st_tournament s' = Some t \<and> tr_outcome t = DECIDED"
proof -
  have no_err: "st_errors s' = []" using route_errors [OF assms(4)] assms(5) by blast
  from assms(4,5) consider "n = TournamentNode" | "n = SafetyKernel"
    by (cases n) (auto simp: route_linear_def route_actuation_def split: if_splits option.splits)
  then show ?thesis
  proof cases
    case 1
    then show ?thesis using assms(4,5) by (auto simp: route_tournament_def split: if_splits option.splits)
  next
    case 2
    from assms(2,3) have "frame SafetyKernel u"
      by (rule step_cases) (use 2 no_err in auto)
    then have "st_tournament s' = st_tournament s" using apply_update_sel(4) [OF assms(3)] by (simp add: frame_def)
    then show ?thesis using assms(1) 2 by (simp add: prod_inv_def)
  qed
qed

lemma step_approved:
  assumes "run_node deps n s h = (Inr u, h')" "apply_update s u = Inr s'" "route n s' = Some Actuate"
  shows "\<exists>v p. st_verdict s' = Some v \<and> winner_plan s' = Some p \<and> approved deps p v"
proof -
  note sel = apply_update_sel [OF assms(2)]
  have no_err: "st_errors s' = []" using route_errors [OF assms(3)] by blast
  from assms(3) have n: "n = SafetyKernel"
    by (cases n) (auto simp: route_linear_def route_tournament_def route_actuation_def split: if_splits option.splits)
  have ok: "safety_kernel deps s h = (Inr u, h')" "frame SafetyKernel u"
    using assms(1,2) by (rule step_cases; use n no_err in auto)+
  have w: "winner_plan s' = winner_plan s"
    using ok(2) sel(2,4) by (simp add: winner_plan_def plan_by_id_def frame_def)
  from assms(3) n obtain v where v: "st_verdict s' = Some v" "verdict v = PASS" "st_outcome s' \<noteq> Some ESCALATED"
    by (auto simp: route_safety_kernel_def split: if_splits option.splits)
  show ?thesis
  proof (cases "up_verdict u")
    case None
    then have "winner_plan s = None" "up_outcome u = Some ESCALATED"
      using ok(1) by (auto simp: safety_kernel_def act_simps no_update_def Let_def split: option.splits if_splits)
    then show ?thesis using v(3) sel(6) by simp
  next
    case (Some v')
    with v(1) sel(5) have "v' = v" by simp
    with safety_kernel_pass [OF ok(1) Some] v w show ?thesis by auto
  qed
qed

lemma prod_inv_step:
  assumes I: "prod_inv deps n s h" and run: "run_node deps n s h = (Inr u, h')"
    and up: "apply_update s u = Inr s'" and route: "route n s' = Some m"
  shows "prod_inv deps m s' h'"
proof -
  note calls = node_prod_calls [OF I run]
  have none: "node_rank m \<le> node_rank Actuate \<longrightarrow> prod_calls h' = []"
  proof
    assume "node_rank m \<le> node_rank Actuate"
    then have "n \<noteq> Actuate" "node_rank n \<le> node_rank Actuate" using route_rank [OF route] by auto
    then show "prod_calls h' = []" using calls I by (simp add: prod_inv_def)
  qed
  have ran: "\<forall>t. st_tournament s' = Some t \<longrightarrow> tournament_ran deps t"
    using step_tournament_ran [OF I run up] by blast
  have appr: "m = Actuate \<longrightarrow> (\<exists>v p. st_verdict s' = Some v \<and> winner_plan s' = Some p \<and> approved deps p v)"
    using step_approved [OF run up] route by blast
  have dec: "m \<in> {SafetyKernel, Actuate} \<longrightarrow> (\<exists>t. st_tournament s' = Some t \<and> tr_outcome t = DECIDED)"
    using step_decided [OF I run up route] by blast
  show ?thesis unfolding prod_inv_def using ran appr dec none calls by blast
qed

end
