(* ===== verification/LoopOutcome.thy ===== *)
theory LoopOutcome
  imports LoopSafety
begin

text \<open>
  How a run ends: twins are cleaned up, a human is paged unless production was repaired, at most one
  page succeeds, and no record claims an execution that did not resolve the incident (\<open>loop_inv\<close>).
\<close>

section \<open>Pages\<close>

definition page_calls :: "hist \<Rightarrow> (Call \<times> bool) list" where
  "page_calls h = filter (\<lambda>e. snd e \<and> is_page (fst e)) h"

lemma page_calls_append [simp]: "page_calls (h @ k) = page_calls h @ page_calls k"
  by (simp add: page_calls_def)

lemma page_calls_one [simp]: "page_calls [(CEscalate i r, b)] = (if b then [(CEscalate i r, b)] else [])"
  by (simp add: page_calls_def)

lemma page_calls_same:
  assumes "emits (\<lambda>c. \<not> is_page c) m" "m h = (r, h')"
  shows "page_calls h' = page_calls h"
proof -
  obtain k where k: "h' = h @ k" "\<forall>e \<in> set k. \<not> is_page (fst e)" using emitsD [OF assms] by blast
  then show ?thesis by (simp add: page_calls_def filter_empty_conv)
qed

lemma cleanup_call_Inr:
  assumes "cleanup_call what m h = (r, h')" "\<not> cancelled r"
  shows "\<exists>es. r = Inr es"
proof (cases r)
  case (Inl e)
  with assms show ?thesis
    by (cases e) (auto simp: cleanup_call_def acatch_def abind_def aret_def split: prod.splits sum.splits PyExc.splits)
qed simp

lemma cleanup_call_hist:
  assumes "cleanup_call what (acall c f) h = (r, h')"
  shows "\<exists>b. h' = h @ [(c, b)]"
proof (cases "f h")
  case (Inl e)
  with assms show ?thesis
    by (cases e) (auto simp: cleanup_call_def acatch_def abind_def aret_def acall_def)
next
  case (Inr x)
  with assms show ?thesis by (auto simp: cleanup_call_def acatch_def abind_def aret_def acall_def)
qed

definition twins_cleaned :: "string list \<Rightarrow> string \<Rightarrow> hist \<Rightarrow> bool" where
  "twins_cleaned ids incident h \<longleftrightarrow>
     (\<forall>i \<in> set ids. \<exists>b. (CUnregisterTwin i, b) \<in> set h) \<and> (\<exists>b. (CTeardownAll incident, b) \<in> set h)"

lemma twins_cleaned_mono: "twins_cleaned ids i h \<Longrightarrow> set h \<subseteq> set h' \<Longrightarrow> twins_cleaned ids i h'"
  unfolding twins_cleaned_def by blast

lemma emits_grows: "emits P m \<Longrightarrow> m h = (r, h') \<Longrightarrow> set h \<subseteq> set h'"
  by (rule emits_subset)

lemma emits_True [emits_intros]: "emits (\<lambda>c. True) (cleanup_call what (acall c f))"
  unfolding cleanup_call_def by (intro emits_intros) auto

text \<open>Clean-up survives every failure short of a cancellation, and tries everything.\<close>

lemma cleanup_amap:
  assumes "amap (\<lambda>t. cleanup_call (w t) (acall (CUnregisterTwin (twin_id t)) (f t))) ts h = (r, h')"
    and "\<not> cancelled r"
  shows "(\<exists>es. r = Inr es) \<and> (\<forall>t \<in> set ts. \<exists>b. (CUnregisterTwin (twin_id t), b) \<in> set h')"
  using assms
proof (induction ts arbitrary: h r h')
  case Nil
  then show ?case by (auto simp: aret_def)
next
  case (Cons t ts)
  let ?c = "cleanup_call (w t) (acall (CUnregisterTwin (twin_id t)) (f t))"
  let ?m = "amap (\<lambda>t. cleanup_call (w t) (acall (CUnregisterTwin (twin_id t)) (f t))) ts"
  obtain r1 h1 where r1: "?c h = (r1, h1)" by fastforce
  obtain r2 h2 where r2: "?m h1 = (r2, h2)" by fastforce
  have "\<not> cancelled r1" by (rule abind_not_cancelled [OF Cons.prems(1) [unfolded amap.simps] r1 Cons.prems(2)])
  with r1 obtain es1 where es1: "r1 = Inr es1" using cleanup_call_Inr by blast
  note rest = abind_next [OF Cons.prems(1) [unfolded amap.simps] r1 [unfolded es1]]
  have nc: "\<not> cancelled r2" by (rule abind_not_cancelled [OF rest r2 Cons.prems(2)])
  note IH = Cons.IH [OF r2 nc]
  obtain es2 where es2: "r2 = Inr es2" using IH by blast
  have h': "r = Inr (es1 # es2)" "h' = h2"
    using Cons.prems(1) r1 r2 es1 es2 by (auto simp: abind_def aret_def)
  obtain b where "h1 = h @ [(CUnregisterTwin (twin_id t), b)]" using cleanup_call_hist [OF r1] by blast
  moreover have "set h1 \<subseteq> set h2"
    by (rule emits_subset [of "\<lambda>c. True" ?m, OF _ r2]) (intro emits_intros)
  ultimately show ?case using IH h' by auto
qed

lemma cleanup_twins:
  assumes "cleanup_incident_twins deps ts incident h = (r, h')" "incident \<noteq> []"
    and "\<not> cancelled r"
  shows "(\<exists>es. r = Inr es) \<and> twins_cleaned (map twin_id ts) incident h'"
proof -
  let ?m = "amap (\<lambda>t. cleanup_call (fstr [''unregister_twin('', twin_id t, '')''])
         (acall (CUnregisterTwin (twin_id t)) (d_unregister_twin deps (twin_id t)))) ts"
  let ?c = "cleanup_call (fstr [''teardown_all('', incident, '')''])
         (acall (CTeardownAll incident) (d_teardown_all deps incident))"
  obtain r1 h1 where r1: "?m h = (r1, h1)" by fastforce
  obtain r2 h2 where r2: "?c h1 = (r2, h2)" by fastforce
  have nc1: "\<not> cancelled r1"
    by (rule abind_not_cancelled [OF assms(1) [unfolded cleanup_incident_twins_def] r1 assms(3)])
  note m = cleanup_amap [OF r1 nc1]
  obtain es1 where es1: "r1 = Inr es1" using m by blast
  note rest = abind_next [OF assms(1) [unfolded cleanup_incident_twins_def] r1 [unfolded es1]]
  have nc2: "\<not> cancelled r2"
    by (rule abind_not_cancelled [OF rest _ assms(3)]) (use assms(2) r2 in simp)
  obtain es2 where es2: "r2 = Inr es2" using cleanup_call_Inr [OF r2 nc2] by blast
  have h': "r = Inr (concat es1 @ es2)" "h' = h2"
    using assms(1,2) r1 r2 es1 es2 by (auto simp: cleanup_incident_twins_def abind_def aret_def)
  obtain b where "h2 = h1 @ [(CTeardownAll incident, b)]" using cleanup_call_hist [OF r2] by blast
  then show ?thesis using m h' unfolding twins_cleaned_def by auto
qed

text \<open>The failure handler cleans up and, unless a human was paged before, tries to page one.\<close>

definition page_tried :: "hist \<Rightarrow> bool" where
  "page_tried h \<longleftrightarrow> (\<exists>i r b. (CEscalate i r, b) \<in> set h)"

definition record_ok :: "Call \<Rightarrow> bool" where
  "record_ok c \<longleftrightarrow> (\<forall>r. c = CRecordRun r \<longrightarrow> run_outcome r = EXECUTED \<longrightarrow> run_prod_outcome r = Some Resolved)"

lemma emits_cleanup [emits_intros]:
  "(\<And>i. P (CUnregisterTwin i)) \<Longrightarrow> (\<And>i. P (CTeardownAll i)) \<Longrightarrow> emits P (cleanup_incident_twins deps ts incident)"
  unfolding cleanup_incident_twins_def cleanup_call_def by (auto intro!: emits_intros)

lemma handle_failure_effects:
  assumes "handle_failure deps s h = (r, h')" "st_incident_id s \<noteq> []" "st_errors s \<noteq> []"
    and "\<not> cancelled r"
  shows "twins_cleaned (map twin_id (st_twins s)) (st_incident_id s) h'"
    and "st_escalated s \<or> page_tried h'"
    and "st_escalated s \<Longrightarrow> page_calls h' = page_calls h"
    and "length (page_calls h') \<le> Suc (length (page_calls h))"
    and "\<forall>e \<in> set h'. e \<in> set h \<or> record_ok (fst e)"
proof -
  obtain r1 h1 where r1: "cleanup_incident_twins deps (st_twins s) (st_incident_id s) h = (r1, h1)" by fastforce
  have nc: "\<not> cancelled r1"
    by (rule abind_not_cancelled [OF assms(1) [unfolded handle_failure_def abind_aask] r1 assms(4)])
  note c = cleanup_twins [OF r1 assms(2) nc]
  obtain es where es: "r1 = Inr es" using c by blast
  let ?reason = "failure_reason s es"
  let ?page = "if st_escalated s then aret () else acall (CEscalate (st_incident_id s) ?reason)
     (d_escalate deps (st_incident_id s) ?reason)"
  define out where "out = (if st_escalated s then ESCALATED else FAILED)"
  define finished where "finished = (case st_finished_at s of Some t \<Rightarrow> t | None \<Rightarrow> d_now deps h)"
  let ?fs = "s\<lparr>st_outcome := Some out, st_finished_at := Some finished,
     st_escalation_reason := Some ?reason, st_escalated := True\<rparr>"
  let ?rec = "case st_context s of None \<Rightarrow> aret ()
     | Some ctx \<Rightarrow> abind (alift (to_run_record ?fs (d_now deps h))) (\<lambda>r. acall (CRecordRun r) (d_record_run deps r))"
  obtain r2 h2 where r2: "?page h1 = (r2, h2)" by fastforce
  obtain r3 h3 where r3: "?rec h2 = (r3, h3)" by fastforce
  have h': "h' = h2 \<or> h' = h3"
    using assms(1,2) r1 es r2 r3 unfolding out_def finished_def
    by (auto simp: handle_failure_def Let_def abind_def aask_def aret_def split: sum.splits)
  have pages1: "page_calls h1 = page_calls h" by (rule page_calls_same [of "cleanup_incident_twins deps (st_twins s) (st_incident_id s)", OF _ r1])
      (intro emits_intros; simp)
  have h2: "st_escalated s \<and> h2 = h1 \<or> (\<not> st_escalated s \<and> (\<exists>b. h2 = h1 @ [(CEscalate (st_incident_id s) ?reason, b)]))"
    using r2 by (auto simp: aret_def acall_def split: if_splits sum.splits)
  have outc: "resolved_outcome ?fs \<noteq> EXECUTED" using assms(3) by (simp add: resolved_outcome_def out_def)
  have h3: "h3 = h2 \<or> (\<exists>rr b. h3 = h2 @ [(CRecordRun rr, b)] \<and> run_outcome rr \<noteq> EXECUTED)"
  proof (cases "st_context s")
    case (Some ctx)
    have "\<exists>rr. to_run_record ?fs (d_now deps h) = Inr rr \<and> run_outcome rr = resolved_outcome ?fs"
      using Some by (simp add: to_run_record_def)
    then obtain rr where "to_run_record ?fs (d_now deps h) = Inr rr" "run_outcome rr \<noteq> EXECUTED"
      using outc by metis
    then show ?thesis using r3 Some by (auto simp: abind_def alift_def acall_def split: sum.splits)
  qed (use r3 in \<open>simp add: aret_def\<close>)
  have sub: "set h1 \<subseteq> set h2" "set h2 \<subseteq> set h'" using h2 h3 h' by auto
  show "twins_cleaned (map twin_id (st_twins s)) (st_incident_id s) h'"
    using c sub twins_cleaned_mono by blast
  show "st_escalated s \<or> page_tried h'" using h2 sub(2) unfolding page_tried_def by auto
  have p3: "page_calls h' = page_calls h2" using h' h3 by (auto simp: page_calls_def)
  show "st_escalated s \<Longrightarrow> page_calls h' = page_calls h" using h2 p3 pages1 by auto
  show "length (page_calls h') \<le> Suc (length (page_calls h))" using h2 p3 pages1 by auto
  have "\<forall>e \<in> set h1. e \<in> set h \<or> record_ok (fst e)"
  proof -
    have "emits record_ok (cleanup_incident_twins deps (st_twins s) (st_incident_id s))"
      by (intro emits_intros) (simp_all add: record_ok_def)
    from emitsD [OF this r1] show ?thesis by auto
  qed
  then show "\<forall>e \<in> set h'. e \<in> set h \<or> record_ok (fst e)"
    using h2 h3 h' by (auto simp: record_ok_def)
qed


section \<open>Reconciling by key\<close>

lemma snd_dict_put: "snd ` set (dict_put k v d) \<subseteq> insert v (snd ` set d)"
proof -
  have "set (dict_put k v d) \<subseteq> insert (k, v) (set d)" by (induction d) (auto split: if_splits)
  then show ?thesis by force
qed

lemma snd_dict_of: "snd ` set (dict_of kvs) \<subseteq> snd ` set kvs"
proof -
  have "snd ` set (foldl (\<lambda>d kv. dict_put (fst kv) (snd kv) d) d0 kvs) \<subseteq> snd ` set d0 \<union> snd ` set kvs" for d0
  proof (induction kvs arbitrary: d0)
    case (Cons kv kvs)
    from Cons.IH [of "dict_put (fst kv) (snd kv) d0"] snd_dict_put [of "fst kv" "snd kv" d0]
    show ?case by auto
  qed simp
  from this [of "[]"] show ?thesis by (simp add: dict_of_def)
qed

lemma set_reconcile: "set (reconcile key xs d) \<subseteq> set xs \<union> snd ` set d"
proof (induction xs arbitrary: d)
  case (Cons x xs)
  show ?case
  proof (cases "map_of d (key x)")
    case None
    then show ?thesis using Cons.IH [of d] by auto
  next
    case (Some y)
    then have "y \<in> snd ` set d" by (auto dest!: map_of_SomeD intro: rev_image_eqI)
    moreover have "snd ` set (dict_pop (key x) d) \<subseteq> snd ` set d" by (auto simp: set_dict_pop)
    ultimately have "set (reconcile key xs (dict_pop (key x) d)) \<subseteq> set xs \<union> snd ` set d"
      using Cons.IH [of "dict_pop (key x) d"] by blast
    with \<open>y \<in> snd ` set d\<close> show ?thesis using Some by (simp del: image_insert) blast
  qed
qed simp

lemma set_reduce_by_key: "set (reduce_by_key key xs (Some us)) \<subseteq> set xs \<union> set us"
proof -
  let ?d = "dict_of (map (\<lambda>u. (key u, u)) us)"
  have "snd ` set (map (\<lambda>u. (key u, u)) us) = set us" by (simp add: image_image)
  then have "snd ` set ?d \<subseteq> set us" using snd_dict_of [of "map (\<lambda>u. (key u, u)) us"] by blast
  then have "set (reconcile key xs ?d) \<subseteq> set xs \<union> set us" using set_reconcile [of key xs ?d] by blast
  then show ?thesis by (simp add: reduce_by_key_def)
qed

section \<open>Every run is resolved, or a human is paged\<close>

definition succeeded :: "State \<Rightarrow> bool" where
  "succeeded s \<longleftrightarrow> st_prod_outcome s = Some Resolved \<and> st_outcome s = Some EXECUTED"

definition settled :: "State \<Rightarrow> bool" where
  "settled s \<longleftrightarrow> succeeded s \<or> st_escalated s \<and> st_outcome s = Some ESCALATED"

definition production_repaired :: "hist \<Rightarrow> bool" where
  "production_repaired h \<longleftrightarrow> (\<exists>p v c. (CApplyToProduction p v c, True) \<in> set h)"

lemma escalate_effects:
  assumes "escalate_pagerduty deps s h = (r, h')"
  obtains (ok) u where "r = Inr u" "h' = h @ [(CEscalate (st_incident_id s) (escalation_text s), True)]"
      "up_escalated u = Some True" "up_outcome u = Some ESCALATED" "up_prod_outcome u = None"
  | (failed) e where "r = Inl e" "h' = h @ [(CEscalate (st_incident_id s) (escalation_text s), False)]"
  using assms
  by (cases "d_escalate deps (st_incident_id s) (escalation_text s) h")
    (auto simp: escalate_pagerduty_def abind_def acall_def aret_def no_update_def Let_def)

lemma record_run_effects:
  assumes "record_run deps s h = (r, h')" "settled s" "st_errors s = []"
  shows "\<forall>e \<in> set h'. e \<in> set h \<or> record_ok (fst e)"
    and "r = Inr u \<Longrightarrow> up_outcome u = st_outcome s"
proof -
  let ?fs = "s\<lparr>st_finished_at := Some (d_now deps h)\<rparr>"
  have out: "resolved_outcome ?fs \<in> {EXECUTED, ESCALATED}" "st_outcome s = Some (resolved_outcome ?fs)"
    "resolved_outcome ?fs = EXECUTED \<Longrightarrow> st_prod_outcome s = Some Resolved"
    using assms(2,3) by (auto simp: settled_def succeeded_def resolved_outcome_def split: if_splits)
  have rec: "to_run_record ?fs t = Inr x \<Longrightarrow> run_outcome x = resolved_outcome ?fs \<and> run_prod_outcome x = st_prod_outcome s"
    for t x by (auto simp: to_run_record_def split: option.splits)
  have ok: "record_ok (CRecordRun x)" if "to_run_record ?fs t = Inr x" for t x
    using rec [OF that] out by (simp add: record_ok_def)
  have pb: "emits record_ok (record_playbook deps s x)" for x
    unfolding record_playbook_def by (auto simp: record_ok_def intro!: emits_intros split: option.split ProdOutcome.split)
  show "r = Inr u \<Longrightarrow> up_outcome u = st_outcome s"
    using assms(1) rec out by (auto simp: record_run_def act_simps no_update_def)
  show "\<forall>e \<in> set h'. e \<in> set h \<or> record_ok (fst e)"
  proof (cases "to_run_record ?fs (d_now deps h)")
    case (Inl e)
    then show ?thesis using assms(1) by (auto simp: record_run_def abind_def aask_def alift_def)
  next
    case (Inr x)
    have "emits record_ok (abind (acall (CRecordRun x) (d_record_run deps x)) (\<lambda>_.
       abind (record_playbook deps s x) (\<lambda>_. aret (no_update\<lparr>up_finished_at := Some (d_now deps h),
         up_outcome := Some (run_outcome x)\<rparr>))))"
      by (intro emits_intros pb ok [OF Inr])
    moreover have "abind (acall (CRecordRun x) (d_record_run deps x)) (\<lambda>_.
       abind (record_playbook deps s x) (\<lambda>_. aret (no_update\<lparr>up_finished_at := Some (d_now deps h),
         up_outcome := Some (run_outcome x)\<rparr>))) h = (r, h')"
      using assms(1) Inr by (simp add: record_run_def abind_aask abind_def [of "alift _"] alift_def)
    ultimately show ?thesis using emitsD by fastforce
  qed
qed

lemma aeach_calls:
  assumes "aeach (\<lambda>t. acall (c t) (f t)) ts h = (Inr x, h')"
  shows "\<forall>t \<in> set ts. (c t, True) \<in> set h'"
  using assms
proof (induction ts arbitrary: h)
  case (Cons t ts)
  from Cons.prems have rest: "aeach (\<lambda>t. acall (c t) (f t)) ts (h @ [(c t, True)]) = (Inr x, h')"
    by (auto simp: act_simps)
  have "set (h @ [(c t, True)]) \<subseteq> set h'"
    by (rule emits_subset [of "\<lambda>c. True" "aeach (\<lambda>t. acall (c t) (f t)) ts", OF _ rest]) (intro emits_intros; simp)
  then show ?case using Cons.IH [OF rest] by auto
qed simp

lemma teardown_effects:
  assumes "teardown_fleet deps s h = (Inr u, h')" "st_incident_id s \<noteq> []"
  shows "twins_cleaned (map twin_id (st_twins s)) (st_incident_id s) h'"
    and "up_twins u = Some (map (\<lambda>t. t\<lparr>twin_state := TornDown\<rparr>) (st_twins s))"
proof -
  from assms obtain h1 where
    a: "aeach (\<lambda>t. acall (CUnregisterTwin (twin_id t)) (d_unregister_twin deps (twin_id t))) (st_twins s) h = (Inr (), h1)"
    and h': "h' = h1 @ [(CTeardownAll (st_incident_id s), True)]"
    and u: "up_twins u = Some (map (\<lambda>t. t\<lparr>twin_state := TornDown\<rparr>) (st_twins s))"
    by (auto simp: teardown_fleet_def act_simps no_update_def)
  from aeach_calls [OF a] h' show "twins_cleaned (map twin_id (st_twins s)) (st_incident_id s) h'"
    unfolding twins_cleaned_def by auto
  show "up_twins u = Some (map (\<lambda>t. t\<lparr>twin_state := TornDown\<rparr>) (st_twins s))" by (rule u)
qed

lemma actuate_result:
  assumes "actuate deps s h = (Inr u, h')" "up_prod_outcome u = Some Resolved"
  shows "up_outcome u = Some EXECUTED \<and> production_repaired h'"
  using assms
  by (auto simp: actuate_def act_simps no_update_def Let_def production_repaired_def split: option.splits if_splits)

lemma actuate_sets:
  assumes "actuate deps s h = (Inr u, h')"
  shows "up_prod_outcome u \<noteq> None"
  using assms
  by (auto simp: actuate_def act_simps no_update_def Let_def split: option.splits if_splits)

definition loop_inv :: "Node \<Rightarrow> State \<Rightarrow> hist \<Rightarrow> bool" where
  "loop_inv n s h \<longleftrightarrow> basic n s h \<and>
     (n = NotifySlack \<longrightarrow> succeeded s) \<and> (n \<in> {TeardownFleet, RecordRun} \<longrightarrow> settled s) \<and>
     (n = RecordRun \<longrightarrow> twins_cleaned (map twin_id (st_twins s)) (st_incident_id s) h) \<and>
     (st_escalated s \<longrightarrow> n \<in> {TeardownFleet, RecordRun, HandleFailure}) \<and>
     length (page_calls h) = (if st_escalated s then 1 else 0) \<and>
     (st_prod_outcome s = Some Resolved \<longrightarrow> production_repaired h) \<and>
     (\<forall>e \<in> set h. record_ok (fst e))"


section \<open>The invariant over one step\<close>

lemma run_node_handle_failure:
  assumes "run_node deps HandleFailure s h = (Inr u, h')"
  obtains r where "handle_failure deps s h = (r, h')" "\<not> cancelled r"
    "r = Inr u \<or> (\<exists>msg. u = no_update\<lparr>up_errors := Some [msg]\<rparr>)"
proof -
  from assms have "handle_failure deps s h = (Inr u, h') \<or>
     (\<exists>c t msg. handle_failure deps s h = (Inl (Raised c t), h') \<and> u = no_update\<lparr>up_errors := Some [msg]\<rparr>)"
    by (auto simp: run_node_def with_node_timeout_def resolve_node_timeout_def act_simps)
  with that show thesis by fastforce
qed

lemma step_records:
  assumes "loop_inv n s h" "run_node deps n s h = (Inr u, h')"
  shows "\<forall>e \<in> set h'. record_ok (fst e)"
proof -
  have old: "\<forall>e \<in> set h. record_ok (fst e)" and errs: "st_errors s \<noteq> [] \<longleftrightarrow> n = HandleFailure"
    and inc: "st_incident_id s \<noteq> []" using assms(1) by (auto simp: loop_inv_def basic_def)
  consider "n = HandleFailure" | "n = RecordRun" | "n \<noteq> HandleFailure" "n \<noteq> RecordRun" by blast
  then show ?thesis
  proof cases
    case 1
    with assms(2) obtain r where "handle_failure deps s h = (r, h')" "\<not> cancelled r"
      by (metis run_node_handle_failure)
    from handle_failure_effects(5) [OF this(1) inc _ this(2)] errs 1 old show ?thesis by blast
  next
    case 2
    have st: "settled s" using assms(1) 2 by (simp add: loop_inv_def)
    from assms(2) obtain r where "node_fn n deps s h = (r, h')" by (metis run_node_cases)
    then have "record_run deps s h = (r, h')" using 2 by simp
    from record_run_effects(1) [OF this st] errs 2 old show ?thesis by blast
  next
    case 3
    have "emits (\<lambda>c. \<not> is_record c) (run_node deps n s)" by (rule emits_run_node [OF node_no_record [OF 3(2,1)]])
    then obtain k where "h' = h @ k" "\<forall>e \<in> set k. \<not> is_record (fst e)" using emitsD assms(2) by metis
    moreover have "\<not> is_record c \<Longrightarrow> record_ok c" for c by (cases c) (auto simp: record_ok_def)
    ultimately show ?thesis using old by auto
  qed
qed

lemma step_grows:
  assumes "run_node deps n s h = (r, h')"
  shows "set h \<subseteq> set h'"
proof (cases "n = Actuate")
  case False
  then show ?thesis by (rule emits_subset [OF emits_run_node [OF node_no_prod] assms])
next
  case True
  then show ?thesis
    by (intro emits_subset [OF emits_run_node [OF node_no_page] assms]) auto
qed

lemma step_repaired:
  assumes "loop_inv n s h" "run_node deps n s h = (Inr u, h')" "apply_update s u = Inr s'"
    and "st_prod_outcome s' = Some Resolved"
  shows "production_repaired h'"
proof -
  have grow: "production_repaired h \<Longrightarrow> production_repaired h'"
    using step_grows [OF assms(2)] unfolding production_repaired_def by blast
  have old: "st_prod_outcome s = Some Resolved \<Longrightarrow> production_repaired h"
    using assms(1) by (simp add: loop_inv_def)
  from assms(2,3) show ?thesis
  proof (cases rule: step_cases)
    case ok
    show ?thesis
    proof (cases "up_prod_outcome u")
      case None
      then show ?thesis using assms(4) apply_update_sel(8) [OF assms(3)] old grow by simp
    next
      case (Some x)
      then have "n = Actuate" using ok(2) by (auto simp: frame_def)
      moreover have "x = Resolved" using Some assms(4) apply_update_sel(8) [OF assms(3)] by simp
      ultimately show ?thesis using actuate_result [of deps s h u h'] ok(1) Some by simp
    qed
  qed (use assms(4) old grow in simp)
qed

text \<open>Outside the failure handler, a page has succeeded exactly when the state says so.\<close>

lemma step_pages:
  assumes "loop_inv n s h" "run_node deps n s h = (Inr u, h')" "apply_update s u = Inr s'" "n \<noteq> HandleFailure"
  shows "length (page_calls h') = (if st_escalated s' then 1 else 0)"
    and "n \<notin> {EscalatePagerduty, TeardownFleet, RecordRun} \<Longrightarrow> \<not> st_escalated s'"
proof -
  note sel = apply_update_sel [OF assms(3)]
  have len: "length (page_calls h) = (if st_escalated s then 1 else 0)"
    and esc: "st_escalated s \<longrightarrow> n \<in> {TeardownFleet, RecordRun}"
    using assms(1,4) by (auto simp: loop_inv_def)
  have "length (page_calls h') = (if st_escalated s' then 1 else 0) \<and>
    (n \<notin> {EscalatePagerduty, TeardownFleet, RecordRun} \<longrightarrow> \<not> st_escalated s')"
  proof (cases "n = EscalatePagerduty")
    case True
    then have ne: "\<not> st_escalated s" using esc by auto
    from assms(2,3) show ?thesis
    proof (cases rule: step_cases)
      case ok
      then have "escalate_pagerduty deps s h = (Inr u, h')" using True by simp
      then show ?thesis
        by (cases rule: escalate_effects) (use ne len True sel(9) in \<open>auto simp: reduce_escalated_def\<close>)
    next
      case (failed e es)
      then have "escalate_pagerduty deps s h = (Inl e, h')" using True by simp
      then show ?thesis
        by (cases rule: escalate_effects) (use ne len True failed in auto)
    qed
  next
    case False
    then have pages: "page_calls h' = page_calls h"
      using page_calls_same [OF emits_run_node [OF node_no_page] assms(2)] assms(4) by simp
    from assms(2,3) have "st_escalated s' = st_escalated s"
      by (cases rule: step_cases) (use False assms(4) sel(9) in \<open>auto simp: frame_def\<close>)
    then show ?thesis using pages len esc False by auto
  qed
  then show "length (page_calls h') = (if st_escalated s' then 1 else 0)"
    "n \<notin> {EscalatePagerduty, TeardownFleet, RecordRun} \<Longrightarrow> \<not> st_escalated s'" by auto
qed

lemma step_basic:
  assumes "basic n s h" "run_node deps n s h = (Inr u, h')" "apply_update s u = Inr s'" "route n s' = Some m"
  shows "basic m s' h'"
  using assms step_incident [OF assms(2,3)] route_errors [OF assms(4)] by (simp add: basic_def)

text \<open>A repaired incident reaches the notification, and only a settled one reaches the tear-down.\<close>

lemma step_succeeded:
  assumes "run_node deps n s h = (Inr u, h')" "apply_update s u = Inr s'" "route n s' = Some NotifySlack"
  shows "succeeded s'"
proof -
  note sel = apply_update_sel [OF assms(2)]
  from assms(3) have n: "n = Actuate" and res: "st_prod_outcome s' = Some Resolved" "st_errors s' = []"
    by (cases n; auto simp: route_linear_def route_tournament_def route_safety_kernel_def route_actuation_def
        split: if_splits option.splits)+
  from assms(1,2) have act: "actuate deps s h = (Inr u, h')"
    by (rule step_cases) (use n res in auto)
  obtain x where "up_prod_outcome u = Some x" using actuate_sets [OF act] by blast
  with res sel(8) have "up_prod_outcome u = Some Resolved" by simp
  with actuate_result [OF act] sel(6) res show ?thesis by (simp add: succeeded_def)
qed

lemma step_settled:
  assumes "loop_inv n s h" "run_node deps n s h = (Inr u, h')" "apply_update s u = Inr s'"
    and "route n s' = Some m" "m \<in> {TeardownFleet, RecordRun}"
  shows "settled s'"
proof -
  note sel = apply_update_sel [OF assms(3)]
  from assms(4,5) have n: "n \<in> {NotifySlack, EscalatePagerduty, TeardownFleet}"
    by (cases n) (auto simp: route_linear_def route_tournament_def route_safety_kernel_def route_actuation_def
        split: if_splits option.splits)
  have no_err: "st_errors s' = []" using route_errors [OF assms(4)] assms(5) by blast
  have ok: "node_fn n deps s h = (Inr u, h')" "frame n u"
    using assms(2,3) by (rule step_cases; use no_err in auto)+
  show ?thesis
  proof (cases "n = EscalatePagerduty")
    case True
    with ok(1) have "escalate_pagerduty deps s h = (Inr u, h')" by simp
    then have "up_escalated u = Some True \<and> up_outcome u = Some ESCALATED"
      by (cases rule: escalate_effects) auto
    then show ?thesis using sel(6,9) by (simp add: settled_def)
  next
    case False
    then have "st_prod_outcome s' = st_prod_outcome s" "st_outcome s' = st_outcome s"
      "st_escalated s' = st_escalated s" using n ok(2) sel(6,8,9) by (auto simp: frame_def)
    moreover have "settled s" using assms(1) n False by (auto simp: loop_inv_def settled_def)
    ultimately show ?thesis by (simp add: settled_def succeeded_def)
  qed
qed

lemma twin_ids_torn_down:
  "set (map twin_id (reduce_twins ts (Some (map (\<lambda>t. t\<lparr>twin_state := x\<rparr>) ts)))) \<subseteq> set (map twin_id ts)"
  using set_reduce_by_key [of twin_id ts "map (\<lambda>t. t\<lparr>twin_state := x\<rparr>) ts"] by (fastforce simp: reduce_twins_def)

lemma step_cleaned:
  assumes "loop_inv n s h" "run_node deps n s h = (Inr u, h')" "apply_update s u = Inr s'"
    and "route n s' = Some RecordRun"
  shows "twins_cleaned (map twin_id (st_twins s')) (st_incident_id s') h'"
proof -
  from assms(4) have n: "n = TeardownFleet" and no_err: "st_errors s' = []"
    by (cases n; auto simp: route_linear_def route_tournament_def route_safety_kernel_def route_actuation_def
        split: if_splits option.splits)+
  have inc: "st_incident_id s \<noteq> []" "st_incident_id s' = st_incident_id s"
    using assms(1) step_incident [OF assms(2,3)] by (auto simp: loop_inv_def basic_def)
  have ok: "teardown_fleet deps s h = (Inr u, h')"
    using assms(2,3) by (rule step_cases) (use n no_err in auto)
  note t = teardown_effects [OF ok inc(1)]
  have "set (map twin_id (st_twins s')) \<subseteq> set (map twin_id (st_twins s))"
    using apply_update_sel(3) [OF assms(3)] t(2) twin_ids_torn_down [of "st_twins s" TornDown] by simp
  with t(1) inc(2) show ?thesis unfolding twins_cleaned_def by (metis subsetD)
qed

lemma loop_inv_step:
  assumes I: "loop_inv n s h" and run: "run_node deps n s h = (Inr u, h')"
    and up: "apply_update s u = Inr s'" and route: "route n s' = Some m"
  shows "loop_inv m s' h'"
proof -
  have nf: "n \<noteq> HandleFailure" using route by auto
  note pages = step_pages [OF I run up nf]
  have "basic m s' h'" using step_basic [OF _ run up route] I by (simp add: loop_inv_def)
  moreover have "m = NotifySlack \<longrightarrow> succeeded s'" using step_succeeded [OF run up] route by blast
  moreover have "m \<in> {TeardownFleet, RecordRun} \<longrightarrow> settled s'" using step_settled [OF I run up route] by blast
  moreover have "m = RecordRun \<longrightarrow> twins_cleaned (map twin_id (st_twins s')) (st_incident_id s') h'"
    using step_cleaned [OF I run up] route by blast
  moreover have "st_escalated s' \<longrightarrow> m \<in> {TeardownFleet, RecordRun, HandleFailure}"
    using pages(2) route by (cases n) (auto simp: route_linear_def split: if_splits)
  moreover have "st_prod_outcome s' = Some Resolved \<longrightarrow> production_repaired h'"
    using step_repaired [OF I run up] by blast
  ultimately show ?thesis unfolding loop_inv_def using pages(1) step_records [OF I run] by blast
qed

section \<open>The end of a run\<close>

lemma loop_end:
  assumes I: "loop_inv n s h" and run: "run_node deps n s h = (Inr u, h')"
    and up: "apply_update s u = Inr s'" and route: "route n s' = None"
  shows "twins_cleaned (map twin_id (st_twins s')) (st_incident_id s') h'"
    and "succeeded s' \<and> production_repaired h' \<or> page_tried h'"
    and "length (page_calls h') \<le> 1"
proof -
  note sel = apply_update_sel [OF up]
  have old: "st_incident_id s \<noteq> []" "st_errors s \<noteq> [] \<longleftrightarrow> n = HandleFailure"
    "length (page_calls h) = (if st_escalated s then 1 else 0)"
    using I by (auto simp: loop_inv_def basic_def)
  have inc: "st_incident_id s' = st_incident_id s" by (rule step_incident [OF run up old(1)])
  have paged: "page_tried k" if "0 < length (page_calls k)" for k
  proof -
    from that obtain e where "e \<in> set (page_calls k)" by (cases "page_calls k") auto
    then have "e \<in> set k" "is_page (fst e)" by (auto simp: page_calls_def)
    moreover obtain c b where "e = (c, b)" by (cases e)
    ultimately show ?thesis by (cases c) (auto simp: page_tried_def)
  qed
  from route have "n = HandleFailure \<or> n = RecordRun \<and> st_errors s' = []"
    by (cases n) (auto simp: route_linear_def route_tournament_def route_safety_kernel_def route_actuation_def
        split: if_splits option.splits)
  then have "twins_cleaned (map twin_id (st_twins s')) (st_incident_id s') h' \<and>
    (succeeded s' \<and> production_repaired h' \<or> page_tried h') \<and> length (page_calls h') \<le> 1"
  proof
    assume n: "n = HandleFailure"
    with run obtain r where r: "handle_failure deps s h = (r, h')" "\<not> cancelled r"
      by (metis run_node_handle_failure)
    note e = handle_failure_effects [OF r(1) old(1) _ r(2)]
    have "st_twins s' = st_twins s"
      using run up by (rule step_cases) (use n sel(3) in \<open>auto simp: frame_def\<close>)
    moreover have "page_tried h'"
      using e(2,3) old n paged [of h'] by (cases "st_escalated s") auto
    moreover have "length (page_calls h') \<le> 1" using e(3,4) old n by (cases "st_escalated s") auto
    ultimately show ?thesis using e(1) old n inc by auto
  next
    assume n: "n = RecordRun \<and> st_errors s' = []"
    have ok: "record_run deps s h = (Inr u, h')" "frame RecordRun u"
      using run up by (rule step_cases; use n in auto)+
    have st: "settled s" and cl: "twins_cleaned (map twin_id (st_twins s)) (st_incident_id s) h"
      and res: "st_prod_outcome s = Some Resolved \<longrightarrow> production_repaired h"
      using I n by (auto simp: loop_inv_def)
    have out: "up_outcome u = st_outcome s" using record_run_effects(2) [OF ok(1) st] old n by simp
    have "st_twins s' = st_twins s" "st_prod_outcome s' = st_prod_outcome s"
      using ok(2) sel(3,8) by (simp_all add: frame_def)
    moreover have "st_outcome s' = st_outcome s" using out sel(6) by (cases "st_outcome s") simp_all
    moreover have "page_calls h' = page_calls h"
      by (rule page_calls_same [OF emits_run_node [OF node_no_page] run]) (use n in auto)
    ultimately show ?thesis
      using st res cl inc old n step_grows [OF run] paged [of h'] twins_cleaned_mono
      unfolding settled_def succeeded_def production_repaired_def by (auto split: if_splits)
  qed
  then show "twins_cleaned (map twin_id (st_twins s')) (st_incident_id s') h'"
    "succeeded s' \<and> production_repaired h' \<or> page_tried h'" "length (page_calls h') \<le> 1" by blast+
qed

end
