(* ===== verification/Reducers.thy ===== *)
theory Reducers
  imports Orchestrator
begin

text \<open>
  The reducers of keyed lists (\<^verbatim>\<open>reduce_plans\<close>, \<^verbatim>\<open>reduce_twins\<close>, \<^verbatim>\<open>reduce_evidence\<close>) implement the
  merge of finite maps: the abstraction of a list is the map from keys to values, an update overrides
  it, known keys keep their place and new ones are appended in the order of the update.
\<close>

definition key_map :: "('a \<Rightarrow> string) \<Rightarrow> 'a list \<Rightarrow> string \<rightharpoonup> 'a" where
  "key_map key xs = map_of (map (\<lambda>x. (key x, x)) xs)"

definition keyed :: "('a \<Rightarrow> string) \<Rightarrow> (string \<times> 'a) list \<Rightarrow> bool" where
  "keyed key d \<longleftrightarrow> distinct (map fst d) \<and> (\<forall>kv \<in> set d. key (snd kv) = fst kv)"

lemma keyed_pop: "keyed key d \<Longrightarrow> keyed key (dict_pop k d)"
  unfolding keyed_def using distinct_dict_pop [of d k] by (auto simp: set_dict_pop)

lemma keyed_snd:
  assumes "\<forall>kv \<in> set d. key (snd kv) = fst kv"
  shows "map (\<lambda>x. (key x, x)) (map snd d) = d" "map key (map snd d) = map fst d"
  using assms by (induction d) auto

lemma keyed_lookup: "keyed key d \<Longrightarrow> map_of d k = Some y \<Longrightarrow> key y = k"
  by (fastforce simp: keyed_def dest: map_of_SomeD)

lemma reconcile_keys:
  assumes "keyed key d" "distinct (map key xs)"
  shows "map key (reconcile key xs d) = map key xs @ filter (\<lambda>k. k \<notin> set (map key xs)) (map fst d)"
  using assms
proof (induction xs arbitrary: d)
  case Nil
  then show ?case by (simp add: keyed_def keyed_snd)
next
  case (Cons x xs)
  show ?case
  proof (cases "map_of d (key x)")
    case None
    then have "key x \<notin> fst ` set d" by (simp add: map_of_eq_None_iff)
    then have "filter (\<lambda>k. k \<notin> set (map key xs)) (map fst d) = filter (\<lambda>k. k \<notin> set (map key (x # xs))) (map fst d)"
      by (intro filter_cong refl) (auto simp del: fst_conv simp: image_iff)
    then show ?thesis using Cons.IH [OF Cons.prems(1)] Cons.prems(2) None by simp
  next
    case (Some y)
    have "map fst (dict_pop (key x) d) = filter (\<lambda>k. k \<noteq> key x) (map fst d)"
      by (simp add: dict_pop_def filter_map comp_def)
    then have "filter (\<lambda>k. k \<notin> set (map key xs)) (map fst (dict_pop (key x) d)) =
        filter (\<lambda>k. k \<notin> set (map key (x # xs))) (map fst d)"
      by (auto intro: filter_cong)
    then show ?thesis
      using Cons.IH [OF keyed_pop [OF Cons.prems(1)]] Cons.prems(2) Some keyed_lookup [OF Cons.prems(1) Some]
      by simp
  qed
qed

lemma reconcile_map:
  assumes "keyed key d" "distinct (map key xs)"
  shows "key_map key (reconcile key xs d) = key_map key xs ++ map_of d"
  using assms
proof (induction xs arbitrary: d)
  case Nil
  then have "map (\<lambda>x. (key x, x)) (map snd d) = d" by (intro keyed_snd) (simp add: keyed_def)
  then show ?case by (simp only: reconcile.simps key_map_def list.map map_of.simps) simp
next
  case (Cons x xs)
  have cons: "key_map key (z # zs) = (key_map key zs)(key z \<mapsto> z)" for z zs by (simp add: key_map_def)
  show ?case
  proof (cases "map_of d (key x)")
    case None
    then show ?thesis using Cons by (auto simp: cons map_add_def fun_eq_iff split: option.split)
  next
    case (Some y)
    then show ?thesis
      using Cons.IH [OF keyed_pop [OF Cons.prems(1)]] Cons.prems(2) keyed_lookup [OF Cons.prems(1) Some]
      by (auto simp: cons map_add_def fun_eq_iff split: option.split)
  qed
qed

lemma dict_of_distinct:
  assumes "distinct (map fst kvs)"
  shows "dict_of kvs = kvs"
proof -
  have put: "fst kv \<notin> fst ` set d \<Longrightarrow> dict_put (fst kv) (snd kv) d = d @ [kv]" for kv d
    by (induction d) auto
  have "distinct (map fst (d0 @ kvs)) \<Longrightarrow> foldl (\<lambda>d kv. dict_put (fst kv) (snd kv) d) d0 kvs = d0 @ kvs" for d0
    by (induction kvs arbitrary: d0) (auto simp: put)
  with assms show ?thesis by (simp add: dict_of_def)
qed

lemma keyed_update: "distinct (map key us) \<Longrightarrow> keyed key (map (\<lambda>u. (key u, u)) us)"
  by (auto simp: keyed_def comp_def)

text \<open>On lists without repeated keys a keyed reducer is the override of finite maps, keeps the keys
  distinct, keeps the place of the entries it knows and appends the new ones in order.\<close>

theorem reduce_by_key_merges:
  assumes "distinct (map key xs)" "distinct (map key us)"
  shows "key_map key (reduce_by_key key xs (Some us)) = key_map key xs ++ key_map key us \<and>
    map key (reduce_by_key key xs (Some us)) = map key xs @ filter (\<lambda>k. k \<notin> set (map key xs)) (map key us) \<and>
    distinct (map key (reduce_by_key key xs (Some us)))"
proof -
  let ?d = "map (\<lambda>u. (key u, u)) us"
  have d: "dict_of ?d = ?d" by (rule dict_of_distinct) (simp add: comp_def assms(2))
  have r: "reduce_by_key key xs (Some us) = reconcile key xs ?d"
    by (cases xs) (simp_all add: reduce_by_key_def d comp_def)
  note keys = reconcile_keys [OF keyed_update [OF assms(2)] assms(1)]
  have "map fst ?d = map key us" by (simp add: comp_def)
  from keys [unfolded this]
  have "map key (reconcile key xs ?d) = map key xs @ filter (\<lambda>k. k \<notin> set (map key xs)) (map key us)" .
  moreover from this have "distinct (map key (reconcile key xs ?d))" using assms by auto
  moreover have "key_map key (reconcile key xs ?d) = key_map key xs ++ key_map key us"
    using reconcile_map [OF keyed_update [OF assms(2)] assms(1)] by (simp add: key_map_def)
  ultimately show ?thesis unfolding r by blast
qed

lemma reduce_by_key_merges_witness:
  "map ms_twin_id (reduce_by_key ms_twin_id [\<lparr>ms_twin_id = ''a'', ms_delivered = 0, ms_dropped = 0\<rparr>]
     (Some [\<lparr>ms_twin_id = ''b'', ms_delivered = 1, ms_dropped = 0\<rparr>,
       \<lparr>ms_twin_id = ''a'', ms_delivered = 2, ms_dropped = 0\<rparr>])) = [''a'', ''b'']"
  using reduce_by_key_merges [of ms_twin_id "[\<lparr>ms_twin_id = ''a'', ms_delivered = 0, ms_dropped = 0\<rparr>]"
      "[\<lparr>ms_twin_id = ''b'', ms_delivered = 1, ms_dropped = 0\<rparr>, \<lparr>ms_twin_id = ''a'', ms_delivered = 2, ms_dropped = 0\<rparr>]"]
  by simp

end
