(* ===== verification/Production.thy ===== *)
theory Production
  imports Effects Arbiter Facts
begin

text \<open>
  \<^verbatim>\<open>actuator/production.py\<close>: the gate in front of production.  Invariant K10 (the verdict is a PASS of
  this plan and fresh), the guard on the caller, the kill switch, the baseline sample, the record
  written before anything is applied, the application, and the probe that decides the outcome.  The
  applier, the probe and the run store are functions of the history of calls.
\<close>

section \<open>K10 (assert_k10_authorisation)\<close>

definition K10_MAX_AGE_SECONDS :: rat where "K10_MAX_AGE_SECONDS = 60"

definition DEFAULT_TARGET_SERVICE :: string where "DEFAULT_TARGET_SERVICE = ''edge-gateway''"

fun verdict_name :: "KernelVerdictType \<Rightarrow> string" where
  "verdict_name PASS = ''pass''"
| "verdict_name VETO = ''veto''"
| "verdict_name UNCERTAIN = ''uncertain''"

definition assert_k10_authorisation ::
    "PyStd \<Rightarrow> RemediationPlan \<Rightarrow> KernelVerdict \<Rightarrow> instant \<Rightarrow> rat \<Rightarrow> PyExc + unit" where
  "assert_k10_authorisation std p v now max_age =
     (let denied = (\<lambda>parts. Inl (Raised ''ActuationError'' (fstr parts))) in
      if verdict v \<noteq> PASS then denied [''K10 violation: cannot actuate plan '', plan_id p,
        '' on production without PASS verdict (got '', verdict_name (verdict v), '')'']
      else if kv_plan_id v \<noteq> plan_id p then denied [''K10 violation: plan_id mismatch (plan='', plan_id p,
        '', verdict='', kv_plan_id v, '')'']
      else case evaluated_at v of
        None \<Rightarrow> denied [''K10 violation: verdict has no evaluation timestamp (evaluated_at is required)'']
      | Some t \<Rightarrow>
          if max_age \<le> now - t then denied [''K10 violation: verdict is stale ('', std_fixed std 1 (now - t),
            ''s >= '', std_repr std (PFloat max_age), ''s)'']
          else if now - t < -5 then denied [''K10 violation: verdict timestamp is in the future ('',
            std_fixed std 1 (now - t), ''s skew)'']
          else Inr ())"

section \<open>The caller (assert_caller_authorised)\<close>

text \<open>A frame of the interpreter's stack: the module, the function and the file.\<close>

record Frame =
  frame_module :: string
  frame_function :: string
  frame_filename :: string

definition frame_authorised :: "Frame \<Rightarrow> bool" where
  "frame_authorised f \<longleftrightarrow>
     frame_module f = ''understudy.orchestrator.nodes.actuate'' \<and> frame_function f \<in> {''actuate'', ''_runner''} \<or>
     contains_sub (frame_module f) ''test_'' \<or> contains_sub (frame_module f) ''tests.'' \<or>
     contains_sub (frame_filename f) ''test_'' \<or> contains_sub (frame_module f) ''pytest''"

text \<open>The frames are \<open>stack[2:]\<close>, the caller of the method first.\<close>

definition assert_caller_authorised :: "Frame list \<Rightarrow> PyExc + unit" where
  "assert_caller_authorised frames =
     (if list_ex frame_authorised frames then Inr ()
      else case frames of
        [] \<Rightarrow> Inl (Raised ''IndexError'' ''list index out of range'')
      | f # _ \<Rightarrow> Inl (Raised ''ActuationError'' (fstr
          [''AGENTS.md S2.4 violation: Actuator.apply_to_production is callable only from the '',
           ''orchestrator's actuate node (called from '',
           (if frame_module f = [] then ''unknown'' else frame_module f), ''.'', frame_function f, '')''])))"

section \<open>The record written first (build_pre_actuation_run_record)\<close>

definition synthetic_context :: "RemediationPlan \<Rightarrow> KernelVerdict \<Rightarrow> instant \<Rightarrow> IncidentContext" where
  "synthetic_context p v now =
     (let svc = (if workload (params p) \<noteq> [] then workload (params p) else DEFAULT_TARGET_SERVICE) in
      \<lparr>ctx_incident_id = kv_incident_id v,
       ctx_alert = \<lparr>alert_id = ''alt_'' @ kv_incident_id v, alert_source = SyntheticAlert,
         alert_title = ''Incident '' @ kv_incident_id v, alert_service = svc, alert_severity = Critical,
         alert_fired_at = now, alert_raw = []\<rparr>,
       ctx_signatures = [],
       ctx_metrics_window = \<lparr>mw_service = svc, mw_start_time = now, mw_end_time = now, mw_series = [],
         mw_p99_latency_ms = None, mw_error_rate = None, mw_request_count = 0\<rparr>,
       recent_deploys = [],
       dependency_graph = \<lparr>snap_nodes = [], snap_edges = [], snap_observed_at = now\<rparr>,
       inferred_failure_class = None, gathered_at = now\<rparr>)"

definition build_pre_actuation_run_record ::
    "RemediationPlan \<Rightarrow> KernelVerdict \<Rightarrow> instant \<Rightarrow> IncidentContext option \<Rightarrow> RunRecord" where
  "build_pre_actuation_run_record p v now context =
     (let ctx = (case context of Some c \<Rightarrow> c | None \<Rightarrow> synthetic_context p v now);
          inc = (case context of
            Some c \<Rightarrow> if ctx_incident_id c \<noteq> [] \<and> kv_incident_id v = ''inc_kernel_verify''
              then ctx_incident_id c else kv_incident_id v
          | None \<Rightarrow> kv_incident_id v) in
      \<lparr>run_id = fstr [''run_'', inc, ''_pre_actuation''], run_incident_id = inc, run_scenario_id = None,
       run_started_at = now, run_finished_at = None, run_outcome = EXECUTED, run_context = ctx,
       run_plans = [p], run_evidence = [], run_tournament = None, run_verdict = Some v,
       prod_applied_plan_id = Some (plan_id p), run_prod_outcome = None, run_escalation_reason = None\<rparr>)"

section \<open>The outcome (determine_prod_outcome)\<close>

definition average :: "rat list \<Rightarrow> rat" where
  "average xs = (if xs \<noteq> [] then sum_list xs / of_nat (length xs) else 0)"

definition determine_prod_outcome :: "ProbeResult option \<Rightarrow> ProbeSample option \<Rightarrow> bool \<Rightarrow> ProdOutcome" where
  "determine_prod_outcome result baseline applied =
     (if \<not> applied then NotResolved
      else case result of
        None \<Rightarrow> NotResolved
      | Some pr \<Rightarrow>
          if pr_recovered pr then Resolved
          else case baseline of
            None \<Rightarrow> NotResolved
          | Some b \<Rightarrow>
              if pr_probes pr = [] then NotResolved
              else (let err = average (map ps_error_rate (pr_probes pr));
                        lat = average (map ps_p99_latency_ms (pr_probes pr)) in
                if err > ps_error_rate b + 2 / 100 \<or> ps_p99_latency_ms b > 0 \<and> lat > ps_p99_latency_ms b * 2
                then Worsened else NotResolved))"

section \<open>Applying to production (ProductionActuator.apply_to_production)\<close>

datatype ProdCall =
    PSample string string
  | PRecordRun RunRecord
  | PApply RemediationPlan string string
  | PProbe string instant string

type_synonym 'a prod_act = "(ProdCall, 'a) act"

text \<open>
  The actuator's settings and collaborators.  \<open>pd_http_error\<close> says which exception classes are
  \<open>httpx.HTTPError\<close>s.
\<close>

record ProdDeps =
  pd_std :: PyStd
  pd_now :: "ProdCall trace \<Rightarrow> instant"
  pd_enforce_caller_guard :: bool
  pd_max_age :: rat
  pd_actuation_enabled :: bool
  pd_prod_namespace :: string
  pd_http_error :: "string \<Rightarrow> bool"
  pd_probe :: "((string \<Rightarrow> string \<Rightarrow> ProdCall trace \<Rightarrow> PyExc + ProbeSample) \<times>
                (string \<Rightarrow> instant \<Rightarrow> string \<Rightarrow> ProdCall trace \<Rightarrow> PyExc + ProbeResult)) option"
  pd_record_run :: "(RunRecord \<Rightarrow> ProdCall trace \<Rightarrow> PyExc + unit) option"
  pd_apply :: "RemediationPlan \<Rightarrow> string \<Rightarrow> string \<Rightarrow> ProdCall trace \<Rightarrow> PyExc + bool"

text \<open>\<open>resolve_service_account\<close> of \<^verbatim>\<open>actuator/apply.py\<close>.\<close>

definition resolve_service_account :: "string \<Rightarrow> string \<Rightarrow> string option \<Rightarrow> string" where
  "resolve_service_account prod_ns namespace service_account =
     (case service_account of
        Some a \<Rightarrow> if py_strip a \<noteq> [] then py_strip a
          else if namespace = prod_ns then ''understudy-prod'' else ''understudy-twin''
      | None \<Rightarrow> if namespace = prod_ns then ''understudy-prod'' else ''understudy-twin'')"

definition baseline_sample :: "ProdDeps \<Rightarrow> ProbeSample option prod_act" where
  "baseline_sample deps =
     (case pd_probe deps of
        None \<Rightarrow> aret None
      | Some (sample, _) \<Rightarrow>
          acatch (abind (acall (PSample (pd_prod_namespace deps) DEFAULT_TARGET_SERVICE)
                (sample (pd_prod_namespace deps) DEFAULT_TARGET_SERVICE)) (\<lambda>s. aret (Some s)))
            (\<lambda>c msg. if isinstance c ''ObservabilityError'' \<or> pd_http_error deps c then aret None
              else araise (Raised c msg)))"

text \<open>Steps 3 to 6; the result, and the new \<open>last_prod_outcome\<close>, which an exception leaves alone.\<close>

definition verify_production :: "ProdDeps \<Rightarrow> ProbeSample option \<Rightarrow> instant \<Rightarrow> ProdOutcome prod_act" where
  "verify_production deps baseline applied_at =
     (case pd_probe deps of
        None \<Rightarrow> aret Resolved
      | Some (_, probe) \<Rightarrow>
          abind (acall (PProbe (pd_prod_namespace deps) applied_at DEFAULT_TARGET_SERVICE)
            (probe (pd_prod_namespace deps) applied_at DEFAULT_TARGET_SERVICE)) (\<lambda>pr.
          aret (determine_prod_outcome (Some pr) baseline True)))"

definition actuate_plan ::
    "ProdDeps \<Rightarrow> RemediationPlan \<Rightarrow> KernelVerdict \<Rightarrow> IncidentContext option \<Rightarrow> instant \<Rightarrow>
     (bool \<times> ProdOutcome) prod_act" where
  "actuate_plan deps p v context now =
     abind (baseline_sample deps) (\<lambda>baseline.
     abind (case pd_record_run deps of
         None \<Rightarrow> aret ()
       | Some record_run \<Rightarrow>
           (let r = build_pre_actuation_run_record p v now context in acall (PRecordRun r) (record_run r))) (\<lambda>_.
     abind (aask (pd_now deps)) (\<lambda>applied_at.
     (let ns = pd_prod_namespace deps; sa = resolve_service_account ns ns None in
      abind (acall (PApply p ns sa) (pd_apply deps p ns sa)) (\<lambda>applied.
      if \<not> applied then aret (False, NotResolved)
      else abind (verify_production deps baseline applied_at) (\<lambda>outcome.
        aret (outcome = Resolved, outcome)))))))"

definition apply_to_production ::
    "ProdDeps \<Rightarrow> Frame list \<Rightarrow> RemediationPlan \<Rightarrow> KernelVerdict \<Rightarrow> IncidentContext option \<Rightarrow>
     (bool \<times> ProdOutcome) prod_act" where
  "apply_to_production deps frames p v context =
     abind (if pd_enforce_caller_guard deps then alift (assert_caller_authorised frames) else aret ()) (\<lambda>_.
     abind (aask (pd_now deps)) (\<lambda>now.
     abind (alift (assert_k10_authorisation (pd_std deps) p v now (pd_max_age deps))) (\<lambda>_.
     abind (if \<not> pd_actuation_enabled deps then araise (Raised ''ActuationError''
         ''Actuation is disabled by kill switch (UNDERSTUDY_ACTUATION_ENABLED=false)'') else aret ()) (\<lambda>_.
     actuate_plan deps p v context now))))"

section \<open>The gate\<close>

text \<open>What K10 demands.\<close>

definition k10_holds :: "RemediationPlan \<Rightarrow> KernelVerdict \<Rightarrow> instant \<Rightarrow> rat \<Rightarrow> bool" where
  "k10_holds p v now max_age \<longleftrightarrow> verdict v = PASS \<and> kv_plan_id v = plan_id p \<and>
     (\<exists>t. evaluated_at v = Some t \<and> -5 \<le> now - t \<and> now - t < max_age)"

lemma k10_iff: "assert_k10_authorisation std p v now max_age = Inr () \<longleftrightarrow> k10_holds p v now max_age"
  by (auto simp: assert_k10_authorisation_def k10_holds_def Let_def not_le not_less split: option.splits)

definition admitted :: "ProdDeps \<Rightarrow> Frame list \<Rightarrow> RemediationPlan \<Rightarrow> KernelVerdict \<Rightarrow> instant \<Rightarrow> bool" where
  "admitted deps frames p v now \<longleftrightarrow>
     (pd_enforce_caller_guard deps \<longrightarrow> list_ex frame_authorised frames) \<and>
     k10_holds p v now (pd_max_age deps) \<and> pd_actuation_enabled deps"

lemma caller_iff: "assert_caller_authorised frames = Inr () \<longleftrightarrow> list_ex frame_authorised frames"
  by (auto simp: assert_caller_authorised_def split: list.splits)

lemma guards_run:
  "apply_to_production deps frames p v context h =
     (if admitted deps frames p v (pd_now deps h) then actuate_plan deps p v context (pd_now deps h) h
      else (fst (apply_to_production deps frames p v context h), h))"
  "\<not> admitted deps frames p v (pd_now deps h) \<Longrightarrow>
     \<exists>c msg. fst (apply_to_production deps frames p v context h) = Inl (Raised c msg)"
proof -
  let ?g = "if pd_enforce_caller_guard deps then assert_caller_authorised frames else Inr ()"
  let ?k = "assert_k10_authorisation (pd_std deps) p v (pd_now deps h) (pd_max_age deps)"
  have run: "apply_to_production deps frames p v context h =
     (case ?g of Inl e \<Rightarrow> (Inl e, h) | Inr _ \<Rightarrow>
       (case ?k of Inl e \<Rightarrow> (Inl e, h) | Inr _ \<Rightarrow>
         if pd_actuation_enabled deps then actuate_plan deps p v context (pd_now deps h) h
         else (Inl (Raised ''ActuationError''
           ''Actuation is disabled by kill switch (UNDERSTUDY_ACTUATION_ENABLED=false)''), h)))"
    by (auto simp: apply_to_production_def abind_def alift_def aask_def aret_def araise_def split: sum.split)
  have g: "?g = Inr () \<longleftrightarrow> (pd_enforce_caller_guard deps \<longrightarrow> list_ex frame_authorised frames)"
    by (auto simp: caller_iff)
  have graise: "?g \<noteq> Inr () \<Longrightarrow> \<exists>c msg. ?g = Inl (Raised c msg)"
    by (auto simp: assert_caller_authorised_def split: list.splits if_splits)
  have kraise: "?k \<noteq> Inr () \<Longrightarrow> \<exists>c msg. ?k = Inl (Raised c msg)"
    by (auto simp: assert_k10_authorisation_def Let_def split: option.splits if_splits)
  have adm: "admitted deps frames p v (pd_now deps h) \<longleftrightarrow> ?g = Inr () \<and> ?k = Inr () \<and> pd_actuation_enabled deps"
    unfolding admitted_def g k10_iff by blast
  show "apply_to_production deps frames p v context h =
     (if admitted deps frames p v (pd_now deps h) then actuate_plan deps p v context (pd_now deps h) h
      else (fst (apply_to_production deps frames p v context h), h))"
    unfolding adm run by (auto split: sum.split)
  show "\<exists>c msg. fst (apply_to_production deps frames p v context h) = Inl (Raised c msg)"
    if "\<not> admitted deps frames p v (pd_now deps h)"
    using that graise kraise unfolding adm run by (cases ?g; cases ?k) auto
qed

text \<open>What a gated application leaves in the history.\<close>

fun is_apply :: "ProdCall \<Rightarrow> bool" where
  "is_apply (PApply p ns sa) = True"
| "is_apply _ = False"

lemma emits_baseline: "emits (\<lambda>c. \<exists>ns svc. c = PSample ns svc) (baseline_sample deps)"
  unfolding baseline_sample_def by (auto intro!: emits_intros split: option.split prod.split)

lemma emits_verify: "emits (\<lambda>c. \<exists>ns t svc. c = PProbe ns t svc) (verify_production deps b t)"
  unfolding verify_production_def by (auto intro!: emits_intros split: option.split prod.split)

definition recorded :: "ProdDeps \<Rightarrow> RunRecord \<Rightarrow> (ProdCall \<times> bool) list" where
  "recorded deps r = (case pd_record_run deps of None \<Rightarrow> [] | Some f \<Rightarrow> [(PRecordRun r, True)])"

lemma actuate_trace:
  assumes "actuate_plan deps p v context now h = (r, h')"
  shows "(\<exists>k. h' = h @ k \<and> (\<forall>e \<in> set k. \<not> is_apply (fst e))) \<or>
    (\<exists>samples probes b. h' = h @ samples @ recorded deps (build_pre_actuation_run_record p v now context) @
        (PApply p (pd_prod_namespace deps) ''understudy-prod'', b) # probes \<and>
      (\<forall>e \<in> set (samples @ probes). \<not> is_apply (fst e)))"
proof -
  let ?r = "build_pre_actuation_run_record p v now context"
  let ?rec = "case pd_record_run deps of None \<Rightarrow> aret () | Some f \<Rightarrow> acall (PRecordRun ?r) (f ?r)"
  let ?sa = "''understudy-prod''"
  let ?ns = "pd_prod_namespace deps"
  obtain r1 h1 where r1: "baseline_sample deps h = (r1, h1)" by fastforce
  obtain ks where ks: "h1 = h @ ks" "\<forall>e \<in> set ks. \<not> is_apply (fst e)"
    using emitsD [OF emits_baseline r1] by force
  note run = assms [unfolded actuate_plan_def Let_def]
  show ?thesis
  proof (cases r1)
    case (Inl e)
    then have "h' = h1" using run r1 by (simp add: abind_def)
    then show ?thesis using ks by blast
  next
    case (Inr base)
    note run1 = abind_next [OF run r1 [unfolded Inr]]
    obtain r2 h2 where r2: "?rec h1 = (r2, h2)" by fastforce
    show ?thesis
    proof (cases r2)
      case (Inl e)
      then have "h' = h2" using run1 r2 by (simp add: abind_def)
      moreover have "\<exists>b. h2 = h1 @ [(PRecordRun ?r, b)]"
        using r2 Inl by (auto simp: act_simps split: option.splits)
      ultimately show ?thesis using ks by auto
    next
      case (Inr u)
      have h2: "h2 = h1 @ recorded deps ?r"
        using r2 Inr by (auto simp: act_simps recorded_def split: option.splits)
      have "abind (acall (PApply p ?ns ?sa) (pd_apply deps p ?ns ?sa)) (\<lambda>applied.
          if \<not> applied then aret (False, NotResolved)
          else abind (verify_production deps base (pd_now deps h2)) (\<lambda>outcome. aret (outcome = Resolved, outcome))) h2
        = (r, h')"
        using abind_next [OF run1 r2 [unfolded Inr]] by (simp add: abind_aask resolve_service_account_def)
      moreover have "emits (\<lambda>c. \<not> is_apply c) (if \<not> applied then aret (False, NotResolved)
          else abind (verify_production deps base (pd_now deps h2)) (\<lambda>outcome. aret (outcome = Resolved, outcome)))"
        for applied
        by (intro emits_intros emits_mono [OF emits_verify]) auto
      ultimately obtain b probes where "h' = h2 @ (PApply p ?ns ?sa, b) # probes"
        "\<forall>e \<in> set probes. \<not> is_apply (fst e)"
        by (cases "pd_apply deps p ?ns ?sa h2")
          (force simp: abind_def acall_def dest!: emitsD)+
      then show ?thesis using ks h2 by (intro disjI2 exI [of _ ks] exI [of _ probes] exI [of _ b]) auto
    qed
  qed
qed

section \<open>Properties of the gate\<close>

text \<open>C9: production is touched only through the gate: an application of a plan happens at most once in a
  call, to this very plan, in the production namespace under the production account, and only when K10
  holds at the time of the call (a PASS of this plan, less than the limit old, at most five seconds in
  the future), actuation is enabled and the caller is authorised; and the run store, if there is one,
  has stored the pre-actuation record before.\<close>

theorem production_gate:
  assumes "apply_to_production deps frames p v context h = (r, h')"
    and "(PApply q ns sa, b) \<in> set (drop (length h) h')"
  shows "admitted deps frames p v (pd_now deps h) \<and>
    q = p \<and> ns = pd_prod_namespace deps \<and> sa = ''understudy-prod'' \<and>
    (\<exists>before after. h' = h @ before @ (PApply p ns sa, b) # after \<and>
       (\<forall>e \<in> set (before @ after). \<not> is_apply (fst e)) \<and>
       (pd_record_run deps \<noteq> None \<longrightarrow>
         (PRecordRun (build_pre_actuation_run_record p v (pd_now deps h) context), True) \<in> set before))"
proof -
  have adm: "admitted deps frames p v (pd_now deps h)"
  proof (rule ccontr)
    assume "\<not> admitted deps frames p v (pd_now deps h)"
    with guards_run(1) [of deps frames p v "context" h] assms(1) have "h' = h" by (simp add: prod_eq_iff)
    with assms(2) show False by simp
  qed
  with assms(1) have run: "actuate_plan deps p v context (pd_now deps h) h = (r, h')"
    by (simp add: guards_run(1))
  let ?rec = "recorded deps (build_pre_actuation_run_record p v (pd_now deps h) context)"
  have norec: "\<forall>e \<in> set ?rec. \<not> is_apply (fst e)" by (auto simp: recorded_def split: option.splits)
  from actuate_trace [OF run] show ?thesis
  proof (elim disjE exE conjE)
    fix k
    assume "h' = h @ k" "\<forall>e \<in> set k. \<not> is_apply (fst e)"
    with assms(2) show ?thesis by force
  next
    fix samples probes b'
    assume k: "h' = h @ samples @ ?rec @ (PApply p (pd_prod_namespace deps) ''understudy-prod'', b') # probes"
      and none: "\<forall>e \<in> set (samples @ probes). \<not> is_apply (fst e)"
    have "(PApply q ns sa, b) \<in> set (samples @ ?rec @ (PApply p (pd_prod_namespace deps) ''understudy-prod'', b') # probes)"
      using assms(2) by (simp add: k)
    then have q: "q = p" "ns = pd_prod_namespace deps" "sa = ''understudy-prod''" "b = b'"
      using none norec by force+
    have "pd_record_run deps \<noteq> None \<longrightarrow>
        (PRecordRun (build_pre_actuation_run_record p v (pd_now deps h) context), True) \<in> set (samples @ ?rec)"
      by (auto simp: recorded_def)
    with adm q k none norec show ?thesis
      by (intro conjI exI [of _ "samples @ ?rec"] exI [of _ probes]) auto
  qed
qed

text \<open>A call the gate refuses raises and has no effect at all: nothing is sampled, recorded or applied.\<close>

theorem production_refused:
  assumes "\<not> admitted deps frames p v (pd_now deps h)"
  shows "\<exists>c msg. apply_to_production deps frames p v context h = (Inl (Raised c msg), h)"
  using guards_run(1) [of deps frames p v "context" h] guards_run(2) [OF assms, of "context"] assms
  by (metis prod.collapse prod.inject)

text \<open>The actuator reports success exactly when the outcome is \<open>resolved\<close>, and the outcome is
  \<open>resolved\<close> only when the application returned success and, where there is a probe, the probe saw
  production recover afterwards.\<close>

theorem production_resolved:
  assumes "apply_to_production deps frames p v context h = (Inr (ok, out), h')"
  shows "(ok \<longleftrightarrow> out = Resolved) \<and>
    (out = Resolved \<longrightarrow>
      (\<exists>h1. pd_apply deps p (pd_prod_namespace deps) ''understudy-prod'' h1 = Inr True) \<and>
      (\<forall>sample probe. pd_probe deps = Some (sample, probe) \<longrightarrow>
        (\<exists>t h2 pr. probe (pd_prod_namespace deps) t DEFAULT_TARGET_SERVICE h2 = Inr pr \<and> pr_recovered pr)))"
proof -
  have "admitted deps frames p v (pd_now deps h)"
    using guards_run(2) [of deps frames p v h "context"] assms by force
  with assms have "actuate_plan deps p v context (pd_now deps h) h = (Inr (ok, out), h')"
    by (simp add: guards_run(1))
  then obtain base h1 h2 applied where a:
    "pd_apply deps p (pd_prod_namespace deps) ''understudy-prod'' h1 = Inr applied"
    and rest: "(if \<not> applied then aret (False, NotResolved)
      else abind (verify_production deps base (pd_now deps h1)) (\<lambda>outcome. aret (outcome = Resolved, outcome))) h2
      = (Inr (ok, out), h')"
    unfolding actuate_plan_def Let_def abind_Inr_iff aask_iff acall_Inr_iff resolve_service_account_def by auto
  show ?thesis
  proof (cases applied)
    case False
    with rest show ?thesis by (simp add: aret_iff)
  next
    case True
    with rest have v: "verify_production deps base (pd_now deps h1) h2 = (Inr out, h')" "ok \<longleftrightarrow> out = Resolved"
      by (auto simp: act_simps)
    have "pr_recovered pr" if "determine_prod_outcome (Some pr) base True = Resolved" for pr
      using that by (auto simp: determine_prod_outcome_def Let_def split: if_splits option.splits)
    with v a True show ?thesis
      unfolding verify_production_def by (fastforce simp: act_simps split: option.splits)
  qed
qed

section \<open>A sample actuation\<close>

definition sample_verdict :: KernelVerdict where
  "sample_verdict = \<lparr>kv_incident_id = ''inc_a1'', kv_plan_id = ''p1'', verdict = PASS, kv_results = [],
     kv_missing_facts = [], solver_ms = 0, human_reason = ''ok'', evaluated_at = Some 100\<rparr>"

definition sample_prod_deps :: ProdDeps where
  "sample_prod_deps = \<lparr>pd_std = sample_std, pd_now = (\<lambda>h. 120), pd_enforce_caller_guard = True,
     pd_max_age = K10_MAX_AGE_SECONDS, pd_actuation_enabled = True, pd_prod_namespace = ''ust-prod'',
     pd_http_error = (\<lambda>c. False),
     pd_probe = Some ((\<lambda>ns svc h. Inr sample_probe),
       (\<lambda>ns t svc h. Inr \<lparr>pr_probes = [sample_probe], pr_recovered = True, pr_recovery_seconds = Some 10,
          pr_timeout_exceeded = False\<rparr>)),
     pd_record_run = Some (\<lambda>r h. Inr ()), pd_apply = (\<lambda>p ns sa h. Inr True)\<rparr>"

definition actuate_frame :: Frame where
  "actuate_frame = \<lparr>frame_module = ''understudy.orchestrator.nodes.actuate'', frame_function = ''actuate'',
     frame_filename = ''actuate.py''\<rparr>"

definition sample_trace :: "ProdCall trace" where
  "sample_trace = [(PSample ''ust-prod'' ''edge-gateway'', True),
     (PRecordRun (build_pre_actuation_run_record sample_rollback sample_verdict 120 None), True),
     (PApply sample_rollback ''ust-prod'' ''understudy-prod'', True),
     (PProbe ''ust-prod'' 120 ''edge-gateway'', True)]"

lemma sample_actuation:
  "apply_to_production sample_prod_deps [actuate_frame] sample_rollback sample_verdict None [] =
     (Inr (True, Resolved), sample_trace)"
  by code_simp

lemma production_gate_witness:
  "admitted sample_prod_deps [actuate_frame] sample_rollback sample_verdict (pd_now sample_prod_deps [])"
  using production_gate [OF sample_actuation, of sample_rollback "''ust-prod''" "''understudy-prod''" True]
  by (simp add: sample_trace_def)

lemma production_refused_witness:
  "\<exists>c msg. apply_to_production sample_prod_deps [actuate_frame] sample_rollback
     (sample_verdict\<lparr>evaluated_at := Some 60\<rparr>) None [] = (Inl (Raised c msg), [])"
  by (rule production_refused)
    (simp add: admitted_def k10_holds_def sample_verdict_def sample_prod_deps_def K10_MAX_AGE_SECONDS_def)

lemma production_resolved_witness:
  "\<exists>h1. pd_apply sample_prod_deps sample_rollback ''ust-prod'' ''understudy-prod'' h1 = Inr True"
  using production_resolved [OF sample_actuation] by (auto simp: sample_prod_deps_def)

end
