(* ===== verification/Store.thy ===== *)
theory Store
  imports Production Orchestrator
begin

text \<open>
  \<^verbatim>\<open>store/\<close>: the run store of \<^verbatim>\<open>fakes.py\<close> (a dict keyed by run) and the one of \<^verbatim>\<open>postgres.py\<close> (a table
  of rows, with what its SQL statements mean), the contract both give their clients as a locale, the
  playbook stores, and the checkpoint store of \<^verbatim>\<open>fakes.py\<close>.
\<close>

section \<open>Active runs\<close>

definition finished_incidents :: "RunRecord list \<Rightarrow> string list" where
  "finished_incidents rs = map run_incident_id (filter (\<lambda>r. run_finished_at r \<noteq> None) rs)"

definition is_active :: "(string \<Rightarrow> bool) \<Rightarrow> RunRecord list \<Rightarrow> RunRecord \<Rightarrow> bool" where
  "is_active pre rs r \<longleftrightarrow> run_finished_at r = None \<and>
     \<not> (pre (run_id r) \<and> run_incident_id r \<in> set (finished_incidents rs))"

definition pre_actuation_id :: "string \<Rightarrow> bool" where
  "pre_actuation_id i \<longleftrightarrow> endswith i ''_pre_actuation''"

section \<open>FakeRunStore\<close>

type_synonym FakeRuns = "(string \<times> RunRecord) list"

definition fake_record_run :: "RunRecord \<Rightarrow> FakeRuns \<Rightarrow> PyExc + FakeRuns" where
  "fake_record_run r d = Inr (dict_put (run_id r) r d)"

definition fake_get_run :: "string \<Rightarrow> FakeRuns \<Rightarrow> RunRecord option" where
  "fake_get_run i d = map_of d i"

definition fake_list_runs :: "string option \<Rightarrow> string option \<Rightarrow> FakeRuns \<Rightarrow> RunRecord list" where
  "fake_list_runs incident scenario d =
     filter (\<lambda>r. (incident \<noteq> None \<longrightarrow> incident = Some (run_incident_id r)) \<and>
       (scenario \<noteq> None \<longrightarrow> run_scenario_id r = scenario)) (map snd d)"

definition fake_get_active_runs :: "FakeRuns \<Rightarrow> RunRecord list" where
  "fake_get_active_runs d = filter (is_active pre_actuation_id (map snd d)) (map snd d)"

definition already_active :: PyExc where
  "already_active = Raised ''StoreError'' ''Another active run already exists; cannot claim a new run''"

definition fake_claim_run :: "RunRecord \<Rightarrow> FakeRuns \<Rightarrow> PyExc + FakeRuns" where
  "fake_claim_run r d =
     (if list_ex (is_active pre_actuation_id (map snd d)) (map snd d) then Inl already_active
      else Inr (dict_put (run_id r) r d))"

section \<open>PostgresRunStore\<close>

text \<open>
  The rows in the order of insertion.  The primary key rejects a second row of a run; the \<open>LIKE\<close>
  pattern \<open>%_pre_actuation\<close> matches any character for an underscore.
\<close>

type_synonym RunRows = "RunRecord list"

definition like_pre_actuation :: "string \<Rightarrow> bool" where
  "like_pre_actuation i \<longleftrightarrow> 14 \<le> length i \<and>
     (let t = drop (length i - 14) i in take 3 (drop 1 t) = ''pre'' \<and> drop 5 t = ''actuation'')"

definition run_exists :: "RunRecord \<Rightarrow> PyExc" where
  "run_exists r = Raised ''StoreError''
     (fstr [''Run '', run_id r, '' already exists; runs table is append-only''])"

definition pg_insert :: "RunRecord \<Rightarrow> RunRows \<Rightarrow> PyExc + RunRows" where
  "pg_insert r rows = (if run_id r \<in> run_id ` set rows then Inl (run_exists r) else Inr (rows @ [r]))"

definition pg_record_run :: "RunRecord \<Rightarrow> RunRows \<Rightarrow> PyExc + RunRows" where
  "pg_record_run r rows = pg_insert r rows"

definition pg_get_run :: "string \<Rightarrow> RunRows \<Rightarrow> RunRecord option" where
  "pg_get_run i rows = find (\<lambda>r. run_id r = i) rows"

definition newest_first :: "RunRecord list \<Rightarrow> RunRecord list" where
  "newest_first rows = sort_key (\<lambda>r. - run_started_at r) rows"

definition pg_list_runs :: "string option \<Rightarrow> string option \<Rightarrow> RunRows \<Rightarrow> RunRecord list" where
  "pg_list_runs incident scenario rows =
     newest_first (filter (\<lambda>r. (incident \<noteq> None \<longrightarrow> incident = Some (run_incident_id r)) \<and>
       (scenario \<noteq> None \<longrightarrow> run_scenario_id r = scenario)) rows)"

definition pg_get_active_runs :: "RunRows \<Rightarrow> RunRecord list" where
  "pg_get_active_runs rows = newest_first (filter (is_active like_pre_actuation rows) rows)"

definition pg_claim_run :: "RunRecord \<Rightarrow> RunRows \<Rightarrow> PyExc + RunRows" where
  "pg_claim_run r rows =
     (if take 1 (filter (is_active like_pre_actuation rows) rows) \<noteq> [] then Inl already_active
      else pg_insert r rows)"

section \<open>The contract of a run store\<close>

text \<open>
  What the callers of \<open>RunStore\<close> rely on.  \<open>runs\<close> is the abstract content, \<open>inv\<close> what the
  representation keeps, and \<open>pre\<close> which identifiers count as written before an actuation.
\<close>

locale run_store =
  fixes record_run :: "RunRecord \<Rightarrow> 's \<Rightarrow> PyExc + 's"
    and get_run :: "string \<Rightarrow> 's \<Rightarrow> RunRecord option"
    and list_runs :: "'s \<Rightarrow> RunRecord list"
    and active_runs :: "'s \<Rightarrow> RunRecord list"
    and pre :: "string \<Rightarrow> bool"
    and inv :: "'s \<Rightarrow> bool"
  assumes keys: "inv s \<Longrightarrow> distinct (map run_id (list_runs s))"
    and get: "inv s \<Longrightarrow> get_run i s = Some r \<longleftrightarrow> r \<in> set (list_runs s) \<and> run_id r = i"
    and active: "inv s \<Longrightarrow> r \<in> set (active_runs s) \<longleftrightarrow>
      r \<in> set (list_runs s) \<and> is_active pre (list_runs s) r"
    and record_inv: "inv s \<Longrightarrow> record_run r s = Inr s' \<Longrightarrow> inv s'"
    and record_new: "inv s \<Longrightarrow> record_run r s = Inr s' \<Longrightarrow>
      set (list_runs s') = insert r {x \<in> set (list_runs s). run_id x \<noteq> run_id r}"
    and record_fresh: "inv s \<Longrightarrow> run_id r \<notin> run_id ` set (list_runs s) \<Longrightarrow> \<exists>s'. record_run r s = Inr s'"
begin

lemma get_recorded: "inv s \<Longrightarrow> record_run r s = Inr s' \<Longrightarrow> get_run (run_id r) s' = Some r"
  using get record_inv record_new by blast

lemma get_other:
  assumes "inv s" "record_run r s = Inr s'" "i \<noteq> run_id r"
  shows "get_run i s' = get_run i s"
proof -
  have "get_run i s' = Some x \<longleftrightarrow> get_run i s = Some x" for x
    using get [OF assms(1)] get [OF record_inv [OF assms(1,2)]] record_new [OF assms(1,2)] assms(3) by auto
  then show ?thesis by (metis not_Some_eq)
qed

text \<open>The record written before an actuation is active until its incident has a finished record.\<close>

lemma pre_record_active:
  assumes "inv s" "record_run r s = Inr s'" "run_finished_at r = None"
    and "\<forall>x \<in> set (list_runs s). run_incident_id x = run_incident_id r \<longrightarrow> run_finished_at x = None"
  shows "r \<in> set (active_runs s')"
proof -
  have "run_incident_id r \<notin> set (finished_incidents (list_runs s'))"
    using record_new [OF assms(1,2)] assms(3,4) by (auto simp: finished_incidents_def)
  moreover have "r \<in> set (list_runs s')" using record_new [OF assms(1,2)] by blast
  ultimately show ?thesis
    using active [OF record_inv [OF assms(1,2)]] assms(3) by (simp add: is_active_def)
qed

lemma finished_record_frees:
  assumes "inv s" "record_run r s = Inr s'" "run_finished_at r \<noteq> None"
    and "x \<in> set (active_runs s')" "run_incident_id x = run_incident_id r"
  shows "\<not> pre (run_id x)"
proof -
  have "run_incident_id r \<in> set (finished_incidents (list_runs s'))"
    using record_new [OF assms(1,2)] assms(3) by (auto simp: finished_incidents_def)
  then show ?thesis
    using active [OF record_inv [OF assms(1,2)]] assms(4,5) by (auto simp: is_active_def)
qed

end

text \<open>An append-only store also never loses or changes a record.\<close>

locale append_only_store = run_store +
  assumes append_only: "inv s \<Longrightarrow> record_run r s = Inr s' \<Longrightarrow> get_run i s = Some x \<Longrightarrow> get_run i s' = Some x"
begin

lemma record_again_refused:
  assumes "inv s" "get_run (run_id r) s = Some x" "x \<noteq> r"
  shows "\<exists>e. record_run r s = Inl e"
proof (rule ccontr)
  assume "\<nexists>e. record_run r s = Inl e"
  then obtain s' where s': "record_run r s = Inr s'" by (cases "record_run r s") auto
  from append_only [OF assms(1) s' assms(2)] get_recorded [OF assms(1) s'] assms(3) show False by simp
qed

end

section \<open>Both stores keep the contract\<close>

definition fake_inv :: "FakeRuns \<Rightarrow> bool" where
  "fake_inv d \<longleftrightarrow> distinct (map fst d) \<and> (\<forall>kv \<in> set d. fst kv = run_id (snd kv))"

definition pg_inv :: "RunRows \<Rightarrow> bool" where
  "pg_inv rows \<longleftrightarrow> distinct (map run_id rows)"

lemma fake_keys: "fake_inv d \<Longrightarrow> map fst d = map run_id (map snd d)"
  by (simp add: fake_inv_def)

lemma set_dict_put:
  "distinct (map fst d) \<Longrightarrow> set (dict_put k v d) = insert (k, v) {kv \<in> set d. fst kv \<noteq> k}"
  by (induction d) (force split: if_splits simp: image_iff)+

lemma set_newest_first [simp]: "set (newest_first rows) = set rows"
  by (simp add: newest_first_def)

lemma distinct_newest_first [simp]: "distinct (map run_id (newest_first rows)) \<longleftrightarrow> distinct (map run_id rows)"
proof -
  have "mset (map run_id (newest_first rows)) = mset (map run_id rows)" by (simp add: newest_first_def)
  then show ?thesis by (metis mset_eq_imp_distinct_iff)
qed

lemma pg_list_all: "set (pg_list_runs None None rows) = set rows"
  by (simp add: pg_list_runs_def)

lemma finished_incidents_cong: "set rs = set rs' \<Longrightarrow> set (finished_incidents rs) = set (finished_incidents rs')"
  by (auto simp: finished_incidents_def)

lemma is_active_cong:
  assumes "set rs = set rs'"
  shows "is_active pre rs r = is_active pre rs' r"
  unfolding is_active_def finished_incidents_cong [OF assms] by (rule refl)

interpretation fake: run_store fake_record_run fake_get_run "fake_list_runs None None" fake_get_active_runs
  pre_actuation_id fake_inv
proof
  fix s s' :: FakeRuns and r :: RunRecord and i :: string
  assume I: "fake_inv s"
  have all: "fake_list_runs None None s = map snd s" for s by (simp add: fake_list_runs_def)
  show "distinct (map run_id (fake_list_runs None None s))"
    unfolding all fake_keys [OF I, symmetric] using I by (simp add: fake_inv_def)
  show "fake_get_run i s = Some r \<longleftrightarrow> r \<in> set (fake_list_runs None None s) \<and> run_id r = i"
    using I unfolding all fake_get_run_def fake_inv_def by (force simp: map_of_eq_Some_iff)
  show "r \<in> set (fake_get_active_runs s) \<longleftrightarrow>
      r \<in> set (fake_list_runs None None s) \<and> is_active pre_actuation_id (fake_list_runs None None s) r"
    by (simp add: all fake_get_active_runs_def)
  show "fake_record_run r s = Inr s' \<Longrightarrow> fake_inv s'"
    using I unfolding fake_record_run_def fake_inv_def by (auto simp: set_dict_put)
  show "fake_record_run r s = Inr s' \<Longrightarrow> set (fake_list_runs None None s') =
      insert r {x \<in> set (fake_list_runs None None s). run_id x \<noteq> run_id r}"
    using I unfolding all fake_record_run_def fake_inv_def by (force simp: set_dict_put)
  show "run_id r \<notin> run_id ` set (fake_list_runs None None s) \<Longrightarrow> \<exists>s'. fake_record_run r s = Inr s'"
    by (simp add: fake_record_run_def)
qed

lemma pg_insert_Inr: "pg_insert r rows = Inr rows' \<longleftrightarrow> run_id r \<notin> run_id ` set rows \<and> rows' = rows @ [r]"
  by (auto simp: pg_insert_def)

lemma pg_get_iff: "pg_inv rows \<Longrightarrow> pg_get_run i rows = Some r \<longleftrightarrow> r \<in> set rows \<and> run_id r = i"
  by (induction rows) (auto simp: pg_inv_def pg_get_run_def)

interpretation pg: append_only_store pg_record_run pg_get_run "pg_list_runs None None" pg_get_active_runs
  like_pre_actuation pg_inv
proof
  fix s s' :: RunRows and r x :: RunRecord and i :: string
  assume I: "pg_inv s"
  show "distinct (map run_id (pg_list_runs None None s))"
    using I by (simp add: pg_list_runs_def pg_inv_def)
  show "pg_get_run i s = Some r \<longleftrightarrow> r \<in> set (pg_list_runs None None s) \<and> run_id r = i"
    using pg_get_iff [OF I] by (simp add: pg_list_all)
  show "r \<in> set (pg_get_active_runs s) \<longleftrightarrow>
      r \<in> set (pg_list_runs None None s) \<and> is_active like_pre_actuation (pg_list_runs None None s) r"
    using is_active_cong [OF pg_list_all] by (auto simp: pg_get_active_runs_def pg_list_all)
  show inv': "pg_record_run r s = Inr s' \<Longrightarrow> pg_inv s'"
    using I by (auto simp: pg_record_run_def pg_insert_Inr pg_inv_def)
  show "pg_record_run r s = Inr s' \<Longrightarrow> set (pg_list_runs None None s') =
      insert r {x \<in> set (pg_list_runs None None s). run_id x \<noteq> run_id r}"
    unfolding pg_list_all by (auto simp: pg_record_run_def pg_insert_Inr) (metis image_eqI)
  show "run_id r \<notin> run_id ` set (pg_list_runs None None s) \<Longrightarrow> \<exists>s'. pg_record_run r s = Inr s'"
    by (simp add: pg_list_all pg_record_run_def pg_insert_def)
  show "pg_record_run r s = Inr s' \<Longrightarrow> pg_get_run i s = Some x \<Longrightarrow> pg_get_run i s' = Some x"
    using pg_get_iff [OF I] pg_get_iff [OF inv'] by (auto simp: pg_record_run_def pg_insert_Inr)
qed

section \<open>Claiming a run\<close>

lemma active_cons:
  assumes "run_finished_at r = None" "\<not> list_ex (is_active pre rs) rs"
  shows "x \<in> set (r # rs) \<and> is_active pre (r # rs) x \<longrightarrow> x = r"
proof -
  have "finished_incidents (r # rs) = finished_incidents rs" using assms(1) by (simp add: finished_incidents_def)
  then have "is_active pre (r # rs) x = is_active pre rs x" for x by (simp add: is_active_def)
  then show ?thesis using assms(2) by (auto simp: list_ex_iff)
qed


definition sample_pre_record :: RunRecord where
  "sample_pre_record = build_pre_actuation_run_record sample_rollback sample_verdict 120 None"


section \<open>The in-memory store simulates the table\<close>

text \<open>The states of the two stores that hold the same records in the same order.\<close>

definition same_runs :: "FakeRuns \<Rightarrow> RunRows \<Rightarrow> bool" where
  "same_runs d rows \<longleftrightarrow> fake_inv d \<and> map snd d = rows"

lemma same_runs_inv: "same_runs d rows \<Longrightarrow> fake_inv d \<and> pg_inv rows"
  using fake_keys unfolding same_runs_def pg_inv_def fake_inv_def by metis

lemma dict_put_fresh: "k \<notin> fst ` set d \<Longrightarrow> dict_put k v d = d @ [(k, v)]"
  by (induction d) auto



section \<open>The store as the source of the kernel's facts\<close>

lemma count_newest_first: "length (filter P (newest_first rows)) = length (filter P rows)"
proof -
  have "mset (filter P (newest_first rows)) = mset (filter P rows)" by (simp add: newest_first_def)
  then show ?thesis by (metis mset_eq_length)
qed

lemma mutations_recorded:
  assumes "pg_record_run r rows = Inr rows'" "prod_applied_plan_id r \<noteq> None" "window_start src now \<le> run_started_at r"
  shows "mutations_in_window src now (pg_list_runs None None rows') =
    mutations_in_window src now (pg_list_runs None None rows) + 1"
  using assms by (auto simp: mutations_in_window_def pg_list_runs_def count_newest_first pg_record_run_def pg_insert_Inr)

text \<open>One actuation counts twice in K7's window: the record written before it and the record of the
  finished run both name the applied plan, so the count \<open>extract_store_facts\<close> takes over all runs grows
  by two.\<close>

theorem actuation_counted_twice:
  assumes "to_run_record s finished = Inr final" "st_prod_applied_plan_id s = Some (plan_id p)"
    and "pg_record_run (build_pre_actuation_run_record p v started context) rows = Inr rows1"
    and "pg_record_run final rows1 = Inr rows2"
    and "window_start src now \<le> started" "window_start src now \<le> run_started_at final"
  shows "mutations_in_window src now (pg_list_runs None None rows2) =
    mutations_in_window src now (pg_list_runs None None rows) + 2"
proof -
  have "prod_applied_plan_id (build_pre_actuation_run_record p v started context) \<noteq> None"
    "run_started_at (build_pre_actuation_run_record p v started context) = started"
    by (simp_all add: build_pre_actuation_run_record_def Let_def)
  note first = mutations_recorded [OF assms(3) this(1), of src now, unfolded this(2), OF assms(5)]
  have "prod_applied_plan_id final \<noteq> None"
    using assms(1,2) by (auto simp: to_run_record_def split: option.splits)
  from mutations_recorded [OF assms(4) this assms(6)] first show ?thesis by simp
qed

text \<open>An actuation in flight blocks every other incident: from the record written before it until a
  finished record of its incident, no plan of another incident that shares a target with it passes the
  kernel, and after the finished record none of its incident's pre-actuation records is active.\<close>

theorem in_flight_blocks:
  assumes "solver_sound solver" "pg_inv rows"
    and "pg_record_run (build_pre_actuation_run_record p v0 started context0) rows = Inr rows'"
    and "\<forall>r \<in> set rows. run_incident_id r =
      run_incident_id (build_pre_actuation_run_record p v0 started context0) \<longrightarrow> run_finished_at r = None"
    and "fs_runs src = Some (pg_get_active_runs rows', pg_list_runs None None rows')"
    and "extract_all src now q ev context = Inr facts"
    and "\<forall>c. context = Some c \<longrightarrow>
      ctx_incident_id c \<noteq> run_incident_id (build_pre_actuation_run_record p v0 started context0)"
    and "t \<in> set (target_resources p)" "t' \<in> set (target_resources q)" "ref_canonical t' = ref_canonical t"
    and "verify std solver perf secs None inc now' q facts = Inr v"
  shows "verdict v \<noteq> PASS \<and>
    (\<forall>final rows2 x. pg_record_run final rows' = Inr rows2 \<and> run_finished_at final \<noteq> None \<and>
       run_incident_id final = run_incident_id (build_pre_actuation_run_record p v0 started context0) \<and>
       x \<in> set (pg_get_active_runs rows2) \<and> run_incident_id x = run_incident_id final \<longrightarrow>
       \<not> like_pre_actuation (run_id x))"
proof
  let ?r = "build_pre_actuation_run_record p v0 started context0"
  have r: "run_finished_at ?r = None" "run_plans ?r = [p]"
    by (simp_all add: build_pre_actuation_run_record_def Let_def)
  have "?r \<in> set (pg_get_active_runs rows')"
    using pg.pre_record_active [OF assms(2,3) r(1)] assms(4) by (simp add: pg_list_all)
  then have "t \<in> set (in_flight_refs context (pg_get_active_runs rows'))"
    using assms(7,8) r(2) by (fastforce simp: in_flight_refs_def split: option.splits)
  then show "verdict v \<noteq> PASS"
    using safe_single_writer [OF assms(6) verify_pass_safe [OF assms(1,11)]] assms(5,9,10) by auto
  have "pg_inv rows'" by (rule pg.record_inv [OF assms(2,3)])
  then show "\<forall>final rows2 x. pg_record_run final rows' = Inr rows2 \<and> run_finished_at final \<noteq> None \<and>
       run_incident_id final = run_incident_id ?r \<and>
       x \<in> set (pg_get_active_runs rows2) \<and> run_incident_id x = run_incident_id final \<longrightarrow>
       \<not> like_pre_actuation (run_id x)"
    using pg.finished_record_frees by blast
qed

section \<open>Samples\<close>

definition sample_final_state :: State where
  "sample_final_state = (initial_state None ''inc_a1'')\<lparr>
     st_context := Some (synthetic_context sample_rollback sample_verdict 120),
     st_prod_applied_plan_id := Some ''p1'', st_started_at := Some 90\<rparr>"

definition sample_final :: RunRecord where
  "sample_final = (case to_run_record sample_final_state 150 of Inr r \<Rightarrow> r | Inl e \<Rightarrow> sample_pre_record)"

lemma sample_final_run: "to_run_record sample_final_state 150 = Inr sample_final"
  by (simp add: sample_final_def sample_final_state_def to_run_record_def)

lemma sample_final_sel: "run_id sample_final = ''run_inc_a1''" "run_started_at sample_final = 90"
  by (simp_all add: sample_final_def to_run_record_def sample_final_state_def initial_state_def)

lemma sample_pre_id: "run_id sample_pre_record = ''run_inc_a1_pre_actuation''"
  "run_incident_id sample_pre_record = ''inc_a1''"
  by (simp_all add: sample_pre_record_def build_pre_actuation_run_record_def Let_def sample_verdict_def fstr_def)

lemma actuation_counted_twice_witness:
  "mutations_in_window sample_sources 150 (pg_list_runs None None [sample_pre_record, sample_final]) = 2"
proof -
  have w: "window_start sample_sources 150 = 150 - 15 * 60" by (simp add: window_start_def sample_sources_def)
  have "st_prod_applied_plan_id sample_final_state = Some (plan_id sample_rollback)"
    by (simp add: sample_final_state_def sample_rollback_def)
  moreover have "pg_record_run sample_pre_record [] = Inr [sample_pre_record]"
    "pg_record_run sample_final [sample_pre_record] = Inr [sample_pre_record, sample_final]"
    by (simp_all add: pg_record_run_def pg_insert_def sample_pre_id sample_final_sel)
  moreover have "window_start sample_sources 150 \<le> 120" "window_start sample_sources 150 \<le> run_started_at sample_final"
    by (simp_all add: w sample_final_sel)
  ultimately show ?thesis
    using actuation_counted_twice [of sample_final_state 150 sample_final sample_rollback sample_verdict 120 None "[]"
        "[sample_pre_record]" "[sample_pre_record, sample_final]" sample_sources 150] sample_final_run
    by (simp add: sample_pre_record_def pg_list_runs_def mutations_in_window_def newest_first_def)
qed

definition busy_sources :: FactSources where
  "busy_sources = sample_sources\<lparr>fs_runs := Some ([sample_pre_record], [sample_pre_record])\<rparr>"

lemma busy_run:
  "case extract_all busy_sources 130 sample_rollback None None of
     Inl e \<Rightarrow> False
   | Inr facts \<Rightarrow>
       (case verify sample_std pin_solver (\<lambda>n. 0) 5 None None 130 sample_rollback facts of
          Inr v \<Rightarrow> True | Inl e \<Rightarrow> False)"
  by code_simp

lemma in_flight_blocks_witness:
  "\<exists>facts v. verify sample_std pin_solver (\<lambda>n. 0) 5 None None 130 sample_rollback facts = Inr v \<and>
     verdict v \<noteq> PASS"
proof -
  obtain facts v where f: "extract_all busy_sources 130 sample_rollback None None = Inr facts"
    "verify sample_std pin_solver (\<lambda>n. 0) 5 None None 130 sample_rollback facts = Inr v"
    using busy_run by (auto split: sum.splits)
  have rec: "pg_record_run (build_pre_actuation_run_record sample_rollback sample_verdict 120 None) [] =
      Inr [sample_pre_record]"
    by (simp add: pg_record_run_def pg_insert_def sample_pre_record_def)
  have "is_active like_pre_actuation [sample_pre_record] sample_pre_record"
    by (simp add: is_active_def finished_incidents_def sample_pre_record_def build_pre_actuation_run_record_def Let_def)
  then have act: "fs_runs busy_sources = Some (pg_get_active_runs [sample_pre_record],
      pg_list_runs None None [sample_pre_record])"
    by (simp add: busy_sources_def pg_get_active_runs_def pg_list_runs_def newest_first_def)
  have t: "sample_target \<in> set (target_resources sample_rollback)" by (simp add: sample_rollback_def)
  from in_flight_blocks [OF pin_solver_sound _ rec _ act f(1) _ t t refl f(2)] f(2)
  show ?thesis by (auto simp: pg_inv_def)
qed

end
