(* ===== verification/Llm.thy ===== *)
theory Llm
  imports Arbiter Effects KernelDsl
begin

text \<open>
  What the program does with the text a language model returns: \<^verbatim>\<open>parse_confirmation_response\<close> of
  \<^verbatim>\<open>playbook/confirmation.py\<close>, \<^verbatim>\<open>parse_judge_response\<close> of \<^verbatim>\<open>tournament/judge.py\<close> and the clean-up of
  \<^verbatim>\<open>parse_raw_planner_json\<close> of \<^verbatim>\<open>planner/prompt.py\<close>: reasoning tags, code fences and text around the
  object are removed before the JSON is read.  \<open>json.loads\<close> is an argument, a function from texts to
  values.
\<close>

section \<open>Searching in strings\<close>

fun after_first :: "string \<Rightarrow> string \<Rightarrow> string option" where
  "after_first p [] = (if p = [] then Some [] else None)"
| "after_first p (c # s) =
     (if startswith (c # s) p then Some (drop (length p) (c # s)) else after_first p s)"

fun before_first :: "string \<Rightarrow> string \<Rightarrow> string" where
  "before_first p [] = []"
| "before_first p (c # s) = (if startswith (c # s) p then [] else c # before_first p s)"

lemma after_first_shorter: "after_first p s = Some r \<Longrightarrow> p \<noteq> [] \<Longrightarrow> length r < length s"
  by (induction s) (auto split: if_splits)

function split_on :: "string \<Rightarrow> string \<Rightarrow> string list" where
  "split_on sep s =
     (if sep = [] then [s]
      else case after_first sep s of
        None \<Rightarrow> [s]
      | Some rest \<Rightarrow> before_first sep s # split_on sep rest)"
  by auto
termination
  by (relation "measure (\<lambda>(sep, s). length s)") (auto dest: after_first_shorter)

declare split_on.simps [simp del]

text \<open>\<open>re.sub(r"<(think|thought)>.*?</\1>", "", s, flags=re.DOTALL)\<close>\<close>

definition match_think :: "string \<Rightarrow> string option" where
  "match_think s =
     (if startswith s ''<think>'' then after_first ''</think>'' (drop 7 s)
      else if startswith s ''<thought>'' then after_first ''</thought>'' (drop 9 s)
      else None)"

lemma match_think_shorter: "match_think s = Some r \<Longrightarrow> length r < length s"
  unfolding match_think_def
  by (cases s) (auto split: if_splits dest!: after_first_shorter)

function strip_think :: "string \<Rightarrow> string" where
  "strip_think [] = []"
| "strip_think (c # s) = (case match_think (c # s) of Some r \<Rightarrow> strip_think r | None \<Rightarrow> c # strip_think s)"
  by pat_completeness auto
termination
  by (relation "measure length") (auto dest!: match_think_shorter)

text \<open>The slice from the first opening to the last closing brace, when they are in this order.\<close>

definition object_span :: "string \<Rightarrow> string option" where
  "object_span s =
     (let before = takeWhile (\<lambda>c. c \<noteq> CHR ''{'') s;
          upto = rev (dropWhile (\<lambda>c. c \<noteq> CHR ''}'') (rev s)) in
      if length before < length s \<and> upto \<noteq> [] \<and> length before < length upto - 1
      then Some (drop (length before) upto) else None)"

section \<open>Playbook confirmation (confirmation.py)\<close>

definition newline :: char where "newline = CHR 0x0A"

definition fence :: string where "fence = ''```''"

definition fence_char :: "char \<Rightarrow> bool" where
  "fence_char c = (let n = (of_char c :: nat) in
     c = CHR ''_'' \<or> c = CHR ''-'' \<or> (48 \<le> n \<and> n \<le> 57) \<or> (65 \<le> n \<and> n \<le> 90) \<or> (97 \<le> n \<and> n \<le> 122))"

text \<open>\<open>re.sub(r"^```[a-zA-Z0-9_-]*\n", "", s)\<close> and \<open>re.sub(r"\n```$", "", s)\<close>, whose \<open>$\<close> also
  matches before a last newline.\<close>

definition drop_open_fence :: "string \<Rightarrow> string" where
  "drop_open_fence s =
     (if startswith s fence then
        (case dropWhile fence_char (drop 3 s) of
           c # r \<Rightarrow> if c = newline then r else s
         | [] \<Rightarrow> s)
      else s)"

definition drop_close_fence :: "string \<Rightarrow> string" where
  "drop_close_fence s =
     (if endswith s (newline # fence) then take (length s - 4) s
      else if endswith s (newline # fence @ [newline]) then take (length s - 5) s @ [newline]
      else s)"

definition clean_confirmation :: "string \<Rightarrow> string" where
  "clean_confirmation raw =
     (let c1 = py_strip (strip_think (py_strip raw));
          c2 = (if startswith c1 fence then py_strip (drop_close_fence (drop_open_fence c1)) else c1) in
      if startswith c2 ''{'' \<and> endswith c2 ''}'' then c2
      else case object_span c2 of Some o' \<Rightarrow> o' | None \<Rightarrow> c2)"

record ConfirmationResult =
  retained_playbook_id :: "string option"
  confirmation_reason :: string
  confirmation_confidence :: rat

text \<open>
  \<open>_ConfirmationRawSchema\<close> in Pydantic's lax mode: a number may come as a string, which \<open>num\<close> reads.
\<close>

definition lax_float :: "(string \<Rightarrow> rat option) \<Rightarrow> PyVal \<Rightarrow> rat option" where
  "lax_float num v = (case v of
     PInt i \<Rightarrow> Some (of_int i) | PFloat r \<Rightarrow> Some r | PBool b \<Rightarrow> Some (if b then 1 else 0)
   | PStr s \<Rightarrow> num s | _ \<Rightarrow> None)"

definition confirmation_schema ::
    "(string \<Rightarrow> rat option) \<Rightarrow> PyVal \<Rightarrow> (string option \<times> rat \<times> string) option" where
  "confirmation_schema num v =
     (case v of
        PDict d \<Rightarrow>
          (let ident = (case map_of d ''retained_playbook_id'' of None \<Rightarrow> Some None | Some PNone \<Rightarrow> Some None
                 | Some (PStr s) \<Rightarrow> Some (Some s) | _ \<Rightarrow> None);
               conf = (case map_of d ''confidence'' of None \<Rightarrow> Some 1 | Some x \<Rightarrow> lax_float num x);
               reason = (case map_of d ''reason'' of None \<Rightarrow> Some [] | Some (PStr s) \<Rightarrow> Some s | _ \<Rightarrow> None) in
           case (ident, conf, reason) of (Some i, Some c, Some r) \<Rightarrow> Some (i, c, r) | _ \<Rightarrow> None)
      | _ \<Rightarrow> None)"

definition parse_confirmation_response ::
    "(string \<Rightarrow> PyVal option) \<Rightarrow> (string \<Rightarrow> rat option) \<Rightarrow> string \<Rightarrow> string list \<Rightarrow> PyExc + ConfirmationResult" where
  "parse_confirmation_response json_loads num raw valid_ids =
     (case Option.bind (json_loads (clean_confirmation raw)) (confirmation_schema num) of
        None \<Rightarrow> Inl (Raised ''PlaybookConfirmationError'' ''Failed to parse LLM confirmation response'')
      | Some (ident, conf, reason) \<Rightarrow>
          (let why = (if py_strip reason \<noteq> [] then py_strip reason
                 else ''No confirmation reason provided by LLM.'');
               c = max 0 (min 1 conf) in
           case ident of
             Some i \<Rightarrow>
               if i \<notin> set valid_ids then Inr \<lparr>retained_playbook_id = None,
                 confirmation_reason = fstr [''LLM proposed unknown playbook ID '', squote i,
                   '' not in candidate set. Rejected for safety.''], confirmation_confidence = c\<rparr>
               else Inr \<lparr>retained_playbook_id = Some i, confirmation_reason = why, confirmation_confidence = c\<rparr>
           | None \<Rightarrow> Inr \<lparr>retained_playbook_id = None, confirmation_reason = why, confirmation_confidence = c\<rparr>))"

section \<open>The judge (judge.py)\<close>

text \<open>The blocks between fences, the first whose braces span an object.\<close>

fun fenced_object :: "string list \<Rightarrow> string option" where
  "fenced_object (outside # block # parts) =
     (let b = py_strip block; b' = (if startswith b ''json'' then py_strip (drop 4 b) else b) in
      case object_span b' of Some o' \<Rightarrow> Some o' | None \<Rightarrow> fenced_object parts)"
| "fenced_object parts = None"

definition clean_judge :: "string \<Rightarrow> string" where
  "clean_judge raw =
     (let c = py_strip (strip_think (py_strip raw)) in
      if contains_sub c fence then (case fenced_object (split_on fence c) of Some o' \<Rightarrow> o' | None \<Rightarrow> c)
      else (case object_span c of Some o' \<Rightarrow> o' | None \<Rightarrow> c))"

definition parse_judge_response ::
    "PyStd \<Rightarrow> (string \<Rightarrow> PyVal option) \<Rightarrow> string \<Rightarrow> string list \<Rightarrow> string \<Rightarrow> PyExc + JudgeEvaluation" where
  "parse_judge_response std json_loads raw candidate_ids model =
     (let failed = (\<lambda>msg. Inl (Raised ''JudgeParseError'' msg)) in
      case json_loads (clean_judge raw) of
        None \<Rightarrow> failed ''Failed to parse LLM response as JSON''
      | Some (PDict d) \<Rightarrow>
          (case case map_of d ''ranking'' of None \<Rightarrow> PColl [] | Some v \<Rightarrow> v of
             PColl ranking \<Rightarrow>
               (case case map_of d ''reasons'' of None \<Rightarrow> PDict [] | Some v \<Rightarrow> v of
                  PDict reasons \<Rightarrow> Inr \<lparr>
                    je_ranking = sanitize_ranking ranking candidate_ids,
                    je_reasons = sanitize_reasons reasons candidate_ids,
                    je_rationale = py_str std (case map_of d ''rationale'' of None \<Rightarrow> PStr [] | Some v \<Rightarrow> v),
                    je_model = model\<rparr>
                | _ \<Rightarrow> failed ''LLM judge reasons must be a dictionary'')
           | _ \<Rightarrow> failed ''LLM judge ranking must be a list of plan IDs'')
      | Some v \<Rightarrow> failed ''Expected JSON object in LLM judge response'')"

section \<open>The planner (prompt.py)\<close>

text \<open>\<open>re.search(r"```(?:json)?\s*([\s\S]*?)\s*```", text, re.IGNORECASE)\<close> and the strip of its group.\<close>

definition clean_planner :: "string \<Rightarrow> string" where
  "clean_planner raw =
     (let text = py_strip raw in
      case after_first fence text of
        None \<Rightarrow> text
      | Some r \<Rightarrow>
          (let r' = (if startswith (py_lower r) ''json'' then drop 4 r else r) in
           case after_first fence r' of
             None \<Rightarrow> text
           | Some _ \<Rightarrow> py_strip (before_first fence r')))"

section \<open>Lemmas on the searches\<close>

lemma startswith_head: "startswith (c # s) (d # p) \<Longrightarrow> c = d"
  by (simp add: startswith_def)

lemma after_first_at:
  assumes "d \<notin> set pre" "p = d # q"
  shows "after_first p (pre @ p @ r) = Some r" "before_first p (pre @ p @ r) = pre"
  using assms(1)
  by (induction pre) (auto simp: assms(2) startswith_def)

lemma after_first_absent: "d \<notin> set s \<Longrightarrow> after_first (d # q) s = None"
  by (induction s) (auto simp: startswith_def)

lemma contains_sub_at: "contains_sub (pre @ p @ r) p"
proof (induction pre)
  case Nil
  then show ?case using startswith_append [of p r] by (cases "p @ r") auto
qed simp

lemma strip_think_plain: "CHR ''<'' \<notin> set s \<Longrightarrow> strip_think s = s"
  by (induction s) (auto simp: match_think_def startswith_def split: option.split)

lemma strip_think_tag:
  assumes "CHR ''<'' \<notin> set t"
  shows "strip_think (''<think>'' @ t @ ''</think>'' @ r) = strip_think r"
proof -
  have "match_think (''<think>'' @ t @ ''</think>'' @ r) = Some r"
    using after_first_at(1) [OF assms, of "''</think>''" "''/think>''" r] by (simp add: match_think_def startswith_def)
  then show ?thesis by simp
qed

lemma strip_padded:
  assumes "list_all py_space a" "list_all py_space b" "\<not> py_space c" "\<not> py_space d" "s = c # m @ [d]"
  shows "py_strip (a @ s @ b) = s"
proof -
  have "dropWhile py_space (a @ s @ b) = s @ b"
    using assms(1,3,5) by (auto simp: list_all_iff dropWhile_append1 dropWhile_append2)
  moreover have "dropWhile py_space (rev b @ (d # rev (c # m))) = dropWhile py_space (d # rev (c # m))"
    using assms(2) by (intro dropWhile_append2) (auto simp: list_all_iff)
  then have "dropWhile py_space (rev (s @ b)) = rev s" using assms(4,5) by simp
  ultimately show ?thesis by (simp add: py_strip_def)
qed

lemma object_span_object: "s = CHR ''{'' # m @ [CHR ''}''] \<Longrightarrow> object_span s = Some s"
  by (simp add: object_span_def Let_def)

lemma space_chars [simp]:
  "py_space newline" "\<not> py_space (CHR ''{'')" "\<not> py_space (CHR ''}'')" "\<not> py_space (CHR ''<'')"
  "\<not> py_space (CHR 0x60)" "\<not> py_space (CHR ''j'')"
  by (simp_all add: py_space_def newline_def Let_def)

section \<open>Properties\<close>

text \<open>A reply written as asked survives the clean-up: an object inside a fenced block, after a reasoning
  tag, is recovered exactly by the confirmation and by the judge, and from the fenced block by the planner.\<close>

theorem fenced_reply_recovered:
  fixes body t :: string
  defines "obj \<equiv> ''{'' @ body @ ''}''"
  defines "block \<equiv> fence @ ''json'' @ newline # obj @ newline # fence"
  assumes "CHR ''<'' \<notin> set t" "CHR ''<'' \<notin> set body" "CHR 0x60 \<notin> set body"
  shows "clean_confirmation (''<think>'' @ t @ ''</think>'' @ newline # block) = obj \<and>
    clean_judge (''<think>'' @ t @ ''</think>'' @ newline # block) = obj \<and>
    clean_planner block = obj"
proof -
  let ?w = "''<think>'' @ t @ ''</think>'' @ newline # block"
  have fence: "fence = [CHR 0x60, CHR 0x60, CHR 0x60]" by (simp add: fence_def)
  have obj: "obj = CHR ''{'' # body @ [CHR ''}'']" by (simp add: obj_def)
  have strip_obj: "py_strip (newline # obj @ [newline]) = obj" "py_strip obj = obj" "py_strip (newline # obj) = obj"
    using strip_padded [of "[newline]" "[newline]" "CHR ''{''" "CHR ''}''" obj body]
      strip_padded [of "[]" "[]" "CHR ''{''" "CHR ''}''" obj body]
      strip_padded [of "[newline]" "[]" "CHR ''{''" "CHR ''}''" obj body] by (simp_all add: obj)
  have strip_block: "py_strip (newline # block) = block" "py_strip block = block"
    using strip_padded [of "[newline]" "[]" "CHR 0x60" "CHR 0x60" block "tl (butlast block)"]
      strip_padded [of "[]" "[]" "CHR 0x60" "CHR 0x60" block "tl (butlast block)"]
    by (simp_all add: block_def fence butlast_append)
  have "py_strip ?w = ?w"
    using strip_padded [of "[]" "[]" "CHR ''<''" "CHR 0x60" ?w "tl (butlast ?w)"]
    by (simp add: block_def fence butlast_append)
  moreover have "CHR ''<'' \<notin> set (newline # block)"
    using assms(4) by (simp add: block_def obj fence newline_def)
  ultimately have c1: "py_strip (strip_think (py_strip ?w)) = block"
    using strip_think_tag [OF assms(3)] strip_think_plain [of "newline # block"] strip_block by simp
  have opened: "drop_open_fence block = obj @ newline # fence"
    by (simp add: drop_open_fence_def block_def fence fence_char_def newline_def startswith_def)
  have "startswith (rev (obj @ newline # fence)) (rev (newline # fence))" by (simp add: startswith_def fence)
  then have closed: "drop_close_fence (obj @ newline # fence) = obj"
    by (simp add: drop_close_fence_def endswith_def fence)
  have ends: "startswith obj ''{''" "endswith obj ''}''" by (simp_all add: obj startswith_def endswith_def)
  have confirm: "clean_confirmation ?w = obj"
    unfolding clean_confirmation_def Let_def c1 opened closed
    using strip_obj ends by (simp add: block_def)
  have inner: "CHR 0x60 \<notin> set (''json'' @ newline # obj @ [newline])"
    "CHR 0x60 \<notin> set (newline # obj @ [newline])"
    using assms(5) by (simp_all add: obj newline_def)
  have split: "split_on fence block = [[], ''json'' @ newline # obj @ [newline], []]"
  proof -
    have 1: "after_first fence block = Some (''json'' @ newline # obj @ newline # fence)"
      "before_first fence block = []"
      using after_first_at [of "CHR 0x60" "[]" fence "[CHR 0x60, CHR 0x60]"] by (simp_all add: block_def fence)
    have 2: "after_first fence (''json'' @ newline # obj @ newline # fence) = Some []"
      "before_first fence (''json'' @ newline # obj @ newline # fence) = ''json'' @ newline # obj @ [newline]"
      using after_first_at [OF inner(1), of fence "[CHR 0x60, CHR 0x60]" "[]"] by (simp_all add: fence)
    have "split_on fence [] = [[]]" by (subst split_on.simps) (simp add: fence)
    then have "split_on fence (''json'' @ newline # obj @ newline # fence) = [''json'' @ newline # obj @ [newline], []]"
      using 2 by (subst split_on.simps) (simp add: fence)
    with 1 show ?thesis by (subst split_on.simps) (simp add: fence)
  qed
  have strip_json: "py_strip (''json'' @ newline # obj @ [newline]) = ''json'' @ newline # obj"
    using strip_padded [of "[]" "[newline]" "CHR ''j''" "CHR ''}''" "''json'' @ newline # obj" "''son'' @ newline # ''{'' @ body"]
    by (simp add: obj)
  have "fenced_object (split_on fence block) = Some obj"
    unfolding split fenced_object.simps strip_json Let_def
    using strip_obj object_span_object [OF obj] by (simp add: startswith_def)
  moreover have "contains_sub block fence"
    using contains_sub_at [of "[]" fence "''json'' @ newline # obj @ newline # fence"] by (simp add: block_def)
  ultimately have judge: "clean_judge ?w = obj" unfolding clean_judge_def Let_def c1 by simp
  have "after_first fence block = Some (''json'' @ newline # obj @ newline # fence)"
    using after_first_at [of "CHR 0x60" "[]" fence "[CHR 0x60, CHR 0x60]"] by (simp add: block_def fence)
  moreover have "startswith (py_lower (''json'' @ newline # obj @ newline # fence)) ''json''"
    by (simp add: py_lower_def startswith_def lower_char_def Let_def)
  moreover have "after_first fence (newline # obj @ newline # fence) = Some []"
    "before_first fence (newline # obj @ newline # fence) = newline # obj @ [newline]"
    using after_first_at [OF inner(2), of fence "[CHR 0x60, CHR 0x60]" "[]"] by (simp_all add: fence)
  ultimately have "clean_planner block = obj"
    unfolding clean_planner_def Let_def strip_block(2) using strip_obj by simp
  with confirm judge show ?thesis by blast
qed

lemma fenced_reply_recovered_witness:
  "clean_judge (''<think>'' @ ''hm'' @ ''</think>'' @ newline # fence @ ''json'' @ newline # (''{'' @ ''a'' @ ''}'') @
     newline # fence) = ''{a}''"
  using fenced_reply_recovered [of "''hm''" "''a''"] by simp

text \<open>A confirmation can only retain a playbook that was offered, with a confidence between 0 and 1.\<close>

lemma confirmation_offered:
  assumes "parse_confirmation_response json_loads num raw valid_ids = Inr r"
  shows "(\<forall>i. retained_playbook_id r = Some i \<longrightarrow> i \<in> set valid_ids) \<and>
    0 \<le> confirmation_confidence r \<and> confirmation_confidence r \<le> 1"
  using assms
  by (auto simp: parse_confirmation_response_def Let_def split: option.splits if_splits prod.splits)

end
