(* ===== verification/Playbook.thy ===== *)
theory Playbook
  imports Llm Store
begin

text \<open>
  \<^verbatim>\<open>playbook/\<close>: the signature of an incident, the normalisation of embeddings, the match of stored
  playbooks with the model's confirmation, and the write-back of a resolved run; and the playbook
  stores of \<^verbatim>\<open>store/fakes.py\<close> and \<^verbatim>\<open>store/postgres.py\<close> behind one contract.  Similarities are real
  numbers (they need square roots).
\<close>

section \<open>Signatures (signature.py)\<close>

definition failure_class_value :: "FailureClass \<Rightarrow> string" where
  "failure_class_value f = (case f of BAD_DEPLOY \<Rightarrow> ''bad_deploy'' | RESOURCE_EXHAUSTION \<Rightarrow> ''resource_exhaustion''
     | DEPENDENCY_DEGRADATION \<Rightarrow> ''dependency_degradation'' | CONFIG_DRIFT \<Rightarrow> ''config_drift'')"

definition top_signatures :: "nat \<Rightarrow> ErrorSignature list \<Rightarrow> ErrorSignature list" where
  "top_signatures n sigs = take n (sort_key (\<lambda>s. (- sig_count s, sig_fingerprint s)) sigs)"

definition build_signature_text :: "IncidentContext \<Rightarrow> nat \<Rightarrow> string" where
  "build_signature_text ctx max_fingerprints =
     (let cls = (case inferred_failure_class ctx of Some f \<Rightarrow> failure_class_value f | None \<Rightarrow> ''unknown'');
          svc = (if alert_service (ctx_alert ctx) \<noteq> [] then alert_service (ctx_alert ctx) else ''unknown'');
          top = top_signatures max_fingerprints (ctx_signatures ctx);
          prints = (if top \<noteq> [] then join ''; '' (map (\<lambda>s. fstr [sig_fingerprint s, '' (count: '',
            int_str (sig_count s), '', msg: '', py_strip (sig_message s), '')'']) top) else ''none'');
          proximity = (case recent_deploys ctx of
            [] \<Rightarrow> ''none''
          | d # ds \<Rightarrow>
              (let newest = max_by deployed_at d ds;
                   delta = max 0 (py_int (alert_fired_at (ctx_alert ctx) - deployed_at newest)) in
               fstr [int_str delta, ''s (commit: '', take 7 (commit_sha newest), '')''])) in
      fstr [''failure_class: '', cls, [newline], ''affected_service: '', svc, [newline],
        ''error_fingerprints: '', prints, [newline], ''deploy_proximity: '', proximity])"

section \<open>Embeddings (embeddings.py)\<close>

definition norm2 :: "real list \<Rightarrow> real" where
  "norm2 v = sqrt (sum_list (map (\<lambda>x. x * x) v))"

definition normalize_vector :: "nat \<Rightarrow> real list \<Rightarrow> real list" where
  "normalize_vector n0 v =
     (let adjusted = (if length v > n0 then take n0 v
            else if length v < n0 then v @ replicate (n0 - length v) 0 else v);
          n = (if norm2 adjusted = 0 then 1 else norm2 adjusted) in
      map (\<lambda>x. x / n) adjusted)"

definition cosine_similarity :: "real list \<Rightarrow> real list \<Rightarrow> real" where
  "cosine_similarity a b =
     (if norm2 a = 0 \<or> norm2 b = 0 then 0
      else sum_list (map (\<lambda>(x, y). x * y) (zip a b)) / (norm2 a * norm2 b))"

section \<open>Playbook stores\<close>

record PlaybookRecord =
  pb_id :: string
  pb_failure_class :: FailureClass
  pb_signature :: string
  pb_embedding :: "real list"
  pb_plan :: RemediationPlan
  pb_evidence :: "string list"
  pb_origin :: string
  pb_successes :: int
  pb_failures :: int

record PlaybookSearchResult =
  psr_id :: string
  psr_failure_class :: string
  psr_signature :: string
  psr_similarity :: real
  psr_plan :: RemediationPlan
  psr_evidence :: "string list"
  psr_successes :: int
  psr_failures :: int
  psr_origin :: string

definition search_result :: "real \<Rightarrow> PlaybookRecord \<Rightarrow> PlaybookSearchResult" where
  "search_result sim r = \<lparr>psr_id = pb_id r, psr_failure_class = failure_class_value (pb_failure_class r),
     psr_signature = pb_signature r, psr_similarity = sim, psr_plan = pb_plan r,
     psr_evidence = pb_evidence r, psr_successes = pb_successes r, psr_failures = pb_failures r,
     psr_origin = pb_origin r\<rparr>"

definition add_evidence :: "string option \<Rightarrow> string list \<Rightarrow> string list" where
  "add_evidence run refs = (case run of Some i \<Rightarrow> if i \<in> set refs then refs else refs @ [i] | None \<Rightarrow> refs)"

definition bump :: "bool \<Rightarrow> string option \<Rightarrow> PlaybookRecord \<Rightarrow> PlaybookRecord" where
  "bump success run r =
     (if success then r\<lparr>pb_successes := pb_successes r + 1, pb_evidence := add_evidence run (pb_evidence r)\<rparr>
      else r\<lparr>pb_failures := pb_failures r + 1, pb_evidence := add_evidence run (pb_evidence r)\<rparr>)"

text \<open>\<open>FakePlaybookStore\<close>: a dict in insertion order.\<close>

type_synonym FakePlaybooks = "(string \<times> PlaybookRecord) list"

definition fake_save_playbook :: "PlaybookRecord \<Rightarrow> FakePlaybooks \<Rightarrow> FakePlaybooks" where
  "fake_save_playbook r d =
     (let existing = map_of d (pb_id r);
          succ = (case existing of Some e \<Rightarrow> if pb_successes r = 0 then pb_successes e else pb_successes r
                  | None \<Rightarrow> pb_successes r);
          fails = (case existing of Some e \<Rightarrow> if pb_failures r = 0 then pb_failures e else pb_failures r
                   | None \<Rightarrow> pb_failures r) in
      dict_put (pb_id r) (r\<lparr>pb_successes := succ, pb_failures := fails\<rparr>) d)"

definition fake_get_playbook :: "string \<Rightarrow> FakePlaybooks \<Rightarrow> RemediationPlan option" where
  "fake_get_playbook i d = map_option pb_plan (map_of d i)"

definition fake_get_by_signature :: "string \<Rightarrow> FakePlaybooks \<Rightarrow> PyExc + PlaybookSearchResult option" where
  "fake_get_by_signature sig d =
     Inr (map_option (search_result 1) (find (\<lambda>r. pb_signature r = sig) (map snd d)))"

definition fake_search :: "real list \<Rightarrow> nat \<Rightarrow> FakePlaybooks \<Rightarrow> PlaybookSearchResult list" where
  "fake_search embedding limit d =
     map (\<lambda>(sim, r). search_result sim r)
       (take limit (sort_key (\<lambda>sr. - fst sr)
         (map (\<lambda>r. (cosine_similarity embedding (pb_embedding r), r)) (map snd d))))"

definition fake_list_playbooks :: "FakePlaybooks \<Rightarrow> PlaybookSearchResult list" where
  "fake_list_playbooks d = map (search_result 1) (map snd d)"

definition fake_increment :: "bool \<Rightarrow> string \<Rightarrow> string option \<Rightarrow> FakePlaybooks \<Rightarrow> FakePlaybooks" where
  "fake_increment success i run d =
     map (\<lambda>(k, r). if k = i then (k, bump success run r) else (k, r)) d"

text \<open>
  \<open>PostgresPlaybookStore\<close>: the rows with their time of creation.  A conflicting insert updates
  everything but the counters and that time; a query for one row raises when there are several.
\<close>

type_synonym PlaybookRows = "(PlaybookRecord \<times> instant) list"

definition pg_save_playbook :: "instant \<Rightarrow> PlaybookRecord \<Rightarrow> PlaybookRows \<Rightarrow> PlaybookRows" where
  "pg_save_playbook now r rows =
     (if pb_id r \<in> pb_id ` fst ` set rows
      then map (\<lambda>(e, t). if pb_id e = pb_id r
        then (r\<lparr>pb_successes := pb_successes e, pb_failures := pb_failures e\<rparr>, t) else (e, t)) rows
      else rows @ [(r, now)])"

definition pg_get_playbook :: "string \<Rightarrow> PlaybookRows \<Rightarrow> RemediationPlan option" where
  "pg_get_playbook i rows = map_option (\<lambda>et. pb_plan (fst et)) (find (\<lambda>et. pb_id (fst et) = i) rows)"

definition pg_get_by_signature :: "string \<Rightarrow> PlaybookRows \<Rightarrow> PyExc + PlaybookSearchResult option" where
  "pg_get_by_signature sig rows =
     (case filter (\<lambda>et. pb_signature (fst et) = sig) rows of
        [] \<Rightarrow> Inr None
      | [(e, t)] \<Rightarrow> Inr (Some (search_result 1 e))
      | _ \<Rightarrow> Inl (Raised ''StoreError''
          ''Database session error: Multiple rows were found when one or none was required''))"

text \<open>\<open>distance\<close> is the extension's cosine distance.\<close>

definition pg_search :: "(real list \<Rightarrow> real list \<Rightarrow> real) \<Rightarrow> real list \<Rightarrow> nat \<Rightarrow> PlaybookRows \<Rightarrow>
    PlaybookSearchResult list" where
  "pg_search distance embedding limit rows =
     map (\<lambda>e. search_result (1 - distance (pb_embedding e) embedding) e)
       (take limit (sort_key (\<lambda>e. distance (pb_embedding e) embedding) (map fst rows)))"

definition pg_list_playbooks :: "PlaybookRows \<Rightarrow> PlaybookSearchResult list" where
  "pg_list_playbooks rows = map (\<lambda>et. search_result 1 (fst et)) (sort_key (\<lambda>et. - snd et) rows)"

definition pg_increment :: "bool \<Rightarrow> string \<Rightarrow> string option \<Rightarrow> PlaybookRows \<Rightarrow> PlaybookRows" where
  "pg_increment success i run rows =
     map (\<lambda>(e, t). if pb_id e = i then (bump success run e, t) else (e, t)) rows"

section \<open>Confirmation and match (confirmation.py, retriever.py)\<close>

text \<open>\<open>reply\<close> is the text the model returns for the prompt, or the failure of the request.\<close>

definition confirm :: "(string \<Rightarrow> PyVal option) \<Rightarrow> (string \<Rightarrow> rat option) \<Rightarrow> PyExc + string \<Rightarrow>
    PlaybookSearchResult list \<Rightarrow> PyExc + ConfirmationResult" where
  "confirm json_loads num reply candidates =
     (if candidates = [] then Inr \<lparr>retained_playbook_id = None,
        confirmation_reason = ''No candidate playbooks found in library for this incident signature.'',
        confirmation_confidence = 1\<rparr>
      else bindE reply (\<lambda>raw. parse_confirmation_response json_loads num raw (map psr_id candidates)))"

record PlaybookMatchResult =
  pm_matched :: bool
  pm_plan :: "RemediationPlan option"
  pm_playbook_id :: "string option"
  pm_similarity :: real
  pm_reason :: string
  pm_confidence :: rat
  pm_signature :: string
  pm_evaluated :: nat

definition confirmed_plan :: "PlaybookSearchResult \<Rightarrow> string \<Rightarrow> RemediationPlan" where
  "confirmed_plan c reason =
     (case psr_plan c of RemediationPlan i n a ps ts b v why g k \<Rightarrow>
        RemediationPlan i n a ps ts b v
          (fstr [why, '' (Playbook '', psr_id c, '' confirmed: '', reason, '')'']) Playbook (Some (psr_id c)))"

text \<open>\<open>search\<close> and \<open>confirm_with\<close> are the store's search and the confirmer.\<close>

definition match_playbook ::
    "(string \<Rightarrow> PyExc + real list) \<Rightarrow> (real list \<Rightarrow> nat \<Rightarrow> PlaybookSearchResult list) \<Rightarrow>
     (PlaybookSearchResult list \<Rightarrow> PyExc + ConfirmationResult) \<Rightarrow> IncidentContext \<Rightarrow> nat \<Rightarrow>
     PyExc + PlaybookMatchResult" where
  "match_playbook embedder search confirm_with ctx top_k =
     (let sig = build_signature_text ctx 3 in
      bindE (embedder sig) (\<lambda>query.
      (case search query top_k of
         [] \<Rightarrow> Inr \<lparr>pm_matched = False, pm_plan = None, pm_playbook_id = None, pm_similarity = 0,
           pm_reason = ''No candidate playbooks found in library for this incident.'', pm_confidence = 0,
           pm_signature = sig, pm_evaluated = 0\<rparr>
       | first # others \<Rightarrow>
           (let candidates = first # others in
            bindE (confirm_with candidates) (\<lambda>c.
            case retained_playbook_id c of
              None \<Rightarrow> Inr \<lparr>pm_matched = False, pm_plan = None, pm_playbook_id = None,
                pm_similarity = psr_similarity first, pm_reason = confirmation_reason c,
                pm_confidence = confirmation_confidence c, pm_signature = sig,
                pm_evaluated = length candidates\<rparr>
            | Some i \<Rightarrow>
                (case find (\<lambda>p. psr_id p = i) candidates of
                   None \<Rightarrow> Inl (Raised ''StopIteration'' [])
                 | Some p \<Rightarrow> Inr \<lparr>pm_matched = True,
                     pm_plan = Some (confirmed_plan p (confirmation_reason c)),
                     pm_playbook_id = Some (psr_id p), pm_similarity = psr_similarity p,
                     pm_reason = confirmation_reason c, pm_confidence = confirmation_confidence c,
                     pm_signature = sig, pm_evaluated = length candidates\<rparr>))))))"

section \<open>Writing back (write.py)\<close>

text \<open>The operations of a store that the write-back uses.\<close>

record 's PlaybookOps =
  po_by_signature :: "string \<Rightarrow> 's \<Rightarrow> PyExc + PlaybookSearchResult option"
  po_get :: "string \<Rightarrow> 's \<Rightarrow> RemediationPlan option"
  po_save :: "PlaybookRecord \<Rightarrow> 's \<Rightarrow> 's"
  po_increment :: "bool \<Rightarrow> string \<Rightarrow> string option \<Rightarrow> 's \<Rightarrow> 's"

text \<open>The new identifiers: of the playbook, of its plan and of the plan's inverse.\<close>

record NewIds =
  ni_playbook :: string
  ni_plan :: string
  ni_inverse :: string

definition template_plan :: "NewIds \<Rightarrow> string \<Rightarrow> RemediationPlan \<Rightarrow> RemediationPlan" where
  "template_plan ids run p =
     (case p of RemediationPlan i n a ps ts b v why g k \<Rightarrow>
        RemediationPlan (ni_plan ids) 0 a ps ts b
          (map_option (\<lambda>w. with_id_index (ni_inverse ids) (candidate_index w)
            (with_origin Playbook (Some (ni_playbook ids)) w)) v)
          (fstr [why, '' (Learned from successful run '', run, '')'']) Playbook (Some (ni_playbook ids)))"

text \<open>\<open>embedder\<close> is absent or the embedding client, \<open>hashed\<close> the deterministic embedding.\<close>

definition write_playbook ::
    "'s PlaybookOps \<Rightarrow> (string \<Rightarrow> PyExc + real list) option \<Rightarrow> (string \<Rightarrow> real list) \<Rightarrow> NewIds \<Rightarrow>
     IncidentContext \<Rightarrow> RemediationPlan \<Rightarrow> string \<Rightarrow> string \<Rightarrow> 's \<Rightarrow> PyExc + string \<times> 's" where
  "write_playbook ops embedder hashed ids ctx p run orig s =
     (let sig = build_signature_text ctx 3 in
      bindE (po_by_signature ops sig s) (\<lambda>existing.
      case existing of
        Some e \<Rightarrow> Inr (psr_id e, po_increment ops True (psr_id e) (Some run) s)
      | None \<Rightarrow>
          (let known = (case playbook_id p of
               Some i \<Rightarrow> if i \<noteq> [] \<and> po_get ops i s \<noteq> None then Some i else None
             | None \<Rightarrow> None) in
           case known of
             Some i \<Rightarrow> Inr (i, po_increment ops True i (Some run) s)
           | None \<Rightarrow>
              bindE (case embedder of
                  None \<Rightarrow> Inr (hashed sig)
                | Some e \<Rightarrow>
                    (case e sig of
                       Inl (Raised c msg) \<Rightarrow> if isinstance c ''PlaybookEmbeddingError'' then Inr (hashed sig)
                         else Inl (Raised c msg)
                     | r \<Rightarrow> r)) (\<lambda>embedding.
              Inr (ni_playbook ids, po_save ops
                \<lparr>pb_id = ni_playbook ids,
                 pb_failure_class = (case inferred_failure_class ctx of Some f \<Rightarrow> f | None \<Rightarrow> BAD_DEPLOY),
                 pb_signature = sig, pb_embedding = embedding, pb_plan = template_plan ids run p,
                 pb_evidence = [run], pb_origin = orig, pb_successes = 1, pb_failures = 0\<rparr> s)))))"

section \<open>The contract of a playbook store\<close>

text \<open>No two playbooks share a signature.\<close>

definition signatures_unique :: "(string \<rightharpoonup> PlaybookRecord) \<Rightarrow> bool" where
  "signatures_unique m \<longleftrightarrow> (\<forall>i j r q. m i = Some r \<longrightarrow> m j = Some q \<longrightarrow> pb_signature r = pb_signature q \<longrightarrow> i = j)"

text \<open>The run is evidence of playbook \<open>i\<close>, which has one success more, and nothing else has changed.\<close>

definition credited :: "(string \<rightharpoonup> PlaybookRecord) \<Rightarrow> (string \<rightharpoonup> PlaybookRecord) \<Rightarrow> string \<Rightarrow> string \<Rightarrow> bool" where
  "credited m m' i run \<longleftrightarrow>
     (\<exists>r. m' i = Some r \<and> run \<in> set (pb_evidence r) \<and>
        (case m i of
           None \<Rightarrow> pb_successes r = 1 \<and> pb_failures r = 0 \<and> (\<forall>j q. m j = Some q \<longrightarrow> pb_signature q \<noteq> pb_signature r)
         | Some e \<Rightarrow> r = e\<lparr>pb_successes := pb_successes e + 1, pb_evidence := add_evidence (Some run) (pb_evidence e)\<rparr>)) \<and>
     (\<forall>j. j \<noteq> i \<longrightarrow> m' j = m j)"

lemma bump_sel [simp]:
  "pb_signature (bump b run r) = pb_signature r" "pb_plan (bump b run r) = pb_plan r" "pb_id (bump b run r) = pb_id r"
  by (simp_all add: bump_def)

locale playbook_store =
  fixes ops :: "'s PlaybookOps"
    and view :: "'s \<Rightarrow> string \<rightharpoonup> PlaybookRecord"
    and inv :: "'s \<Rightarrow> bool"
  assumes get: "inv s \<Longrightarrow> po_get ops i s = map_option pb_plan (view s i)"
    and by_signature_some: "inv s \<Longrightarrow> po_by_signature ops sig s = Inr (Some x) \<Longrightarrow>
      \<exists>r. view s (psr_id x) = Some r \<and> pb_signature r = sig"
    and by_signature_none: "inv s \<Longrightarrow> po_by_signature ops sig s = Inr None \<Longrightarrow> view s i = Some r \<Longrightarrow>
      pb_signature r \<noteq> sig"
    and by_signature_ok: "inv s \<Longrightarrow> signatures_unique (view s) \<Longrightarrow> \<exists>x. po_by_signature ops sig s = Inr x"
    and increment: "inv s \<Longrightarrow> inv (po_increment ops b i run s) \<and>
      view (po_increment ops b i run s) = (view s)(i := map_option (bump b run) (view s i))"
    and save: "inv s \<Longrightarrow> view s (pb_id r) = None \<Longrightarrow> inv (po_save ops r s) \<and>
      view (po_save ops r s) = (view s)(pb_id r \<mapsto> r)"
begin

lemma credit_increment:
  assumes "inv s" "view s i \<noteq> None"
  shows "credited (view s) (view (po_increment ops True i (Some run) s)) i run"
proof -
  obtain e where e: "view s i = Some e" using assms(2) by blast
  have "run \<in> set (add_evidence (Some run) (pb_evidence e))" by (simp add: add_evidence_def)
  then show ?thesis using increment [OF assms(1)] e by (simp add: credited_def bump_def)
qed

lemma unique_increment:
  "inv s \<Longrightarrow> signatures_unique (view s) \<Longrightarrow> signatures_unique (view (po_increment ops b i run s))"
  using increment [of s b i run] by (auto simp: signatures_unique_def split: if_splits)

text \<open>The write-back credits exactly one playbook, and keeps the signatures unique.\<close>

lemma write_back:
  assumes "inv s" "view s (ni_playbook ids) = None"
    and "write_playbook ops embedder hashed ids ctx p run orig s = Inr (i, s')"
  shows "inv s' \<and> credited (view s) (view s') i run \<and>
    (signatures_unique (view s) \<longrightarrow> signatures_unique (view s'))"
proof -
  let ?sig = "build_signature_text ctx 3"
  have known: "inv s' \<and> credited (view s) (view s') i run \<and> (signatures_unique (view s) \<longrightarrow> signatures_unique (view s'))"
    if "s' = po_increment ops True i (Some run) s" "view s i \<noteq> None"
    using that credit_increment [OF assms(1)] increment [OF assms(1)] unique_increment [OF assms(1)] by simp
  from assms(3) obtain ex where ex: "po_by_signature ops ?sig s = Inr ex"
    by (auto simp: write_playbook_def Let_def bindE_Inr_iff)
  show ?thesis
  proof (cases ex)
    case (Some e)
    then have "i = psr_id e" "s' = po_increment ops True i (Some run) s"
      using assms(3) ex by (auto simp: write_playbook_def Let_def)
    with by_signature_some [OF assms(1) ex [unfolded Some]] known show ?thesis by auto
  next
    case None
    note fresh_sig = by_signature_none [OF assms(1) ex [unfolded None]]
    show ?thesis
    proof (cases "\<exists>j. playbook_id p = Some j \<and> j \<noteq> [] \<and> po_get ops j s \<noteq> None")
      case True
      then obtain j where j: "playbook_id p = Some j" "j \<noteq> []" "po_get ops j s \<noteq> None" by blast
      then have "i = j" "s' = po_increment ops True i (Some run) s"
        using assms(3) ex None by (auto simp: write_playbook_def Let_def)
      moreover have "view s j \<noteq> None" using get [OF assms(1)] j(3) by (metis option.map_disc_iff)
      ultimately show ?thesis using known by simp
    next
      case False
      then have "(case playbook_id p of Some j \<Rightarrow> if j \<noteq> [] \<and> po_get ops j s \<noteq> None then Some j else None
          | None \<Rightarrow> None) = None" by (auto split: option.split)
      then obtain r where r: "i = ni_playbook ids" "s' = po_save ops r s" "pb_id r = ni_playbook ids"
        "pb_signature r = ?sig" "pb_evidence r = [run]" "pb_successes r = 1" "pb_failures r = 0"
        using assms(3) ex None by (auto simp: write_playbook_def Let_def bindE_Inr_iff)
      have "view s (pb_id r) = None" using assms(2) r(3) by simp
      note sv = save [OF assms(1) this]
      have "credited (view s) (view s') i run"
        using sv r assms(2) fresh_sig by (auto simp: credited_def)
      moreover have "\<forall>j q. view s j = Some q \<longrightarrow> pb_signature q \<noteq> pb_signature r" using fresh_sig r(4) by auto
      then have "signatures_unique (view s) \<longrightarrow> signatures_unique (view s')"
        unfolding signatures_unique_def r(2) sv [THEN conjunct2] by (metis fun_upd_apply option.inject)
      ultimately show ?thesis using sv r(2) by blast
    qed
  qed
qed

end

section \<open>Both stores keep the contract\<close>

definition fake_ops :: "FakePlaybooks PlaybookOps" where
  "fake_ops = \<lparr>po_by_signature = fake_get_by_signature, po_get = fake_get_playbook,
     po_save = fake_save_playbook, po_increment = fake_increment\<rparr>"

definition pg_ops :: "instant \<Rightarrow> PlaybookRows PlaybookOps" where
  "pg_ops now = \<lparr>po_by_signature = pg_get_by_signature, po_get = pg_get_playbook,
     po_save = pg_save_playbook now, po_increment = pg_increment\<rparr>"

definition fake_pb_inv :: "FakePlaybooks \<Rightarrow> bool" where
  "fake_pb_inv d \<longleftrightarrow> distinct (map fst d) \<and> (\<forall>kv \<in> set d. fst kv = pb_id (snd kv))"

definition pg_view :: "PlaybookRows \<Rightarrow> string \<rightharpoonup> PlaybookRecord" where
  "pg_view rows = map_of (map (\<lambda>et. (pb_id (fst et), fst et)) rows)"

definition pg_pb_inv :: "PlaybookRows \<Rightarrow> bool" where
  "pg_pb_inv rows \<longleftrightarrow> distinct (map (\<lambda>et. pb_id (fst et)) rows)"

lemma map_of_bump:
  "map_of (map (\<lambda>(k, r). if k = i then (k, f r) else (k, r)) d) = (map_of d)(i := map_option f (map_of d i))"
  by (induction d) (auto simp: fun_eq_iff)

interpretation fakepb: playbook_store fake_ops map_of fake_pb_inv
proof
  fix s :: FakePlaybooks and i sig run b and x :: PlaybookSearchResult and r :: PlaybookRecord
  assume I: "fake_pb_inv s"
  show "po_get fake_ops i s = map_option pb_plan (map_of s i)" by (simp add: fake_ops_def fake_get_playbook_def)
  show "\<exists>r. map_of s (psr_id x) = Some r \<and> pb_signature r = sig"
    if "po_by_signature fake_ops sig s = Inr (Some x)"
  proof -
    from that obtain r where r: "find (\<lambda>r. pb_signature r = sig) (map snd s) = Some r" "x = search_result 1 r"
      by (auto simp: fake_ops_def fake_get_by_signature_def)
    from find_Some_set [OF r(1)] obtain k where k: "(k, r) \<in> set s" "pb_signature r = sig" by auto
    with I have "map_of s (pb_id r) = Some r" by (force simp: fake_pb_inv_def map_of_eq_Some_iff)
    with k r(2) show ?thesis by (auto simp: search_result_def)
  qed
  show "pb_signature r \<noteq> sig" if "po_by_signature fake_ops sig s = Inr None" "map_of s i = Some r"
    using that by (force simp: fake_ops_def fake_get_by_signature_def find_None_iff dest: map_of_SomeD)
  show "\<exists>x. po_by_signature fake_ops sig s = Inr x" by (simp add: fake_ops_def fake_get_by_signature_def)
  have keys: "map fst (fake_increment b i run s) = map fst s" by (auto simp: fake_increment_def)
  show "fake_pb_inv (po_increment fake_ops b i run s) \<and>
      map_of (po_increment fake_ops b i run s) = (map_of s)(i := map_option (bump b run) (map_of s i))"
  proof
    show "fake_pb_inv (po_increment fake_ops b i run s)"
      unfolding fake_pb_inv_def fake_ops_def PlaybookOps.simps keys
      using I by (auto simp: fake_pb_inv_def fake_increment_def)
  qed (simp add: fake_ops_def fake_increment_def map_of_bump)
  show "fake_pb_inv (po_save fake_ops r s) \<and> map_of (po_save fake_ops r s) = (map_of s)(pb_id r \<mapsto> r)"
    if "map_of s (pb_id r) = None"
  proof -
    have "fake_save_playbook r s = dict_put (pb_id r) r s" using that by (simp add: fake_save_playbook_def)
    moreover have "fake_pb_inv (dict_put (pb_id r) r s)"
      using I set_dict_put [of s "pb_id r" r] by (auto simp: fake_pb_inv_def)
    ultimately show ?thesis by (simp add: fake_ops_def)
  qed
qed

lemma pg_view_bump:
  "pg_view (pg_increment b i run rows) = (pg_view rows)(i := map_option (bump b run) (pg_view rows i))"
  by (induction rows) (auto simp: pg_view_def pg_increment_def fun_eq_iff)

lemma pg_view_Some:
  assumes "pg_pb_inv rows"
  shows "pg_view rows i = Some r \<longleftrightarrow> (\<exists>t. (r, t) \<in> set rows \<and> pb_id r = i)"
proof -
  have "distinct (map fst (map (\<lambda>et. (pb_id (fst et), fst et)) rows))"
    using assms by (simp add: pg_pb_inv_def comp_def)
  then have "pg_view rows i = Some r \<longleftrightarrow> (i, r) \<in> set (map (\<lambda>et. (pb_id (fst et), fst et)) rows)"
    unfolding pg_view_def by (rule map_of_eq_Some_iff)
  then show ?thesis by force
qed

interpretation pgpb: playbook_store "pg_ops now" pg_view pg_pb_inv for now
proof
  fix s :: PlaybookRows and i sig run b and x :: PlaybookSearchResult and r :: PlaybookRecord
  assume I: "pg_pb_inv s"
  show "po_get (pg_ops now) i s = map_option pb_plan (pg_view s i)"
    by (induction s) (auto simp: pg_ops_def pg_get_playbook_def pg_view_def)
  show "\<exists>r. pg_view s (psr_id x) = Some r \<and> pb_signature r = sig"
    if "po_by_signature (pg_ops now) sig s = Inr (Some x)"
  proof -
    from that obtain e t where f: "filter (\<lambda>et. pb_signature (fst et) = sig) s = [(e, t)]" "x = search_result 1 e"
      by (auto simp: pg_ops_def pg_get_by_signature_def split: list.splits)
    from f(1) have "(e, t) \<in> set (filter (\<lambda>et. pb_signature (fst et) = sig) s)" by simp
    then have "(e, t) \<in> set s" "pb_signature e = sig" by auto
    then show ?thesis using pg_view_Some [OF I] f(2) by (auto simp: search_result_def)
  qed
  show "pb_signature r \<noteq> sig" if "po_by_signature (pg_ops now) sig s = Inr None" "pg_view s i = Some r"
  proof -
    from that(1) have "filter (\<lambda>et. pb_signature (fst et) = sig) s = []"
      by (auto simp: pg_ops_def pg_get_by_signature_def split: list.splits)
    with that(2) pg_view_Some [OF I] show ?thesis by (force simp: filter_empty_conv)
  qed
  show "\<exists>x. po_by_signature (pg_ops now) sig s = Inr x" if u: "signatures_unique (pg_view s)"
  proof -
    let ?f = "filter (\<lambda>et. pb_signature (fst et) = sig) s"
    have "length ?f \<le> 1"
    proof (rule ccontr)
      assume "\<not> length ?f \<le> 1"
      then obtain a b rest where f: "?f = a # b # rest" by (cases ?f; cases "tl ?f") auto
      then have "a \<in> set ?f" "b \<in> set ?f" by auto
      then have ab: "a \<in> set s" "b \<in> set s" "pb_signature (fst a) = sig" "pb_signature (fst b) = sig" by auto
      then have "pg_view s (pb_id (fst a)) = Some (fst a)" "pg_view s (pb_id (fst b)) = Some (fst b)"
        using pg_view_Some [OF I] by (metis prod.collapse)+
      with u ab have "pb_id (fst a) = pb_id (fst b)" unfolding signatures_unique_def by metis
      moreover have "distinct (map (\<lambda>et. pb_id (fst et)) ?f)"
        using I by (simp add: pg_pb_inv_def distinct_map_filter)
      ultimately show False by (simp add: f)
    qed
    then show ?thesis by (cases ?f; cases "tl ?f") (auto simp: pg_ops_def pg_get_by_signature_def)
  qed
  have keys: "map (\<lambda>et. pb_id (fst et)) (pg_increment b i run s) = map (\<lambda>et. pb_id (fst et)) s"
    by (auto simp: pg_increment_def)
  show "pg_pb_inv (po_increment (pg_ops now) b i run s) \<and>
      pg_view (po_increment (pg_ops now) b i run s) = (pg_view s)(i := map_option (bump b run) (pg_view s i))"
    using I keys by (simp add: pg_ops_def pg_pb_inv_def pg_view_bump)
  show "pg_pb_inv (po_save (pg_ops now) r s) \<and> pg_view (po_save (pg_ops now) r s) = (pg_view s)(pb_id r \<mapsto> r)"
    if "pg_view s (pb_id r) = None"
  proof -
    have fresh: "pb_id r \<notin> pb_id ` fst ` set s"
      using that by (force simp: pg_view_def map_of_eq_None_iff)
    then have "pg_save_playbook now r s = s @ [(r, now)]" by (simp add: pg_save_playbook_def)
    moreover have "pg_view (s @ [(r, now)]) = (pg_view s)(pb_id r \<mapsto> r)"
      using that by (auto simp: pg_view_def map_add_def fun_eq_iff split: option.split)
    moreover have "pg_pb_inv (s @ [(r, now)])" using I fresh by (auto simp: pg_pb_inv_def)
    ultimately show ?thesis by (simp add: pg_ops_def)
  qed
qed

section \<open>Properties\<close>

text \<open>On both stores, writing back a resolved run credits exactly one playbook: the one returned has the
  run among its evidence and one success more (or is new, with a signature no other had), every other
  playbook is untouched, and signatures stay unique, so the lookup by signature never finds two.\<close>

theorem playbook_credited:
  assumes "fake_pb_inv d" "map_of d (ni_playbook ids) = None"
    and "pg_pb_inv rows" "pg_view rows (ni_playbook ids) = None"
  shows "(\<forall>i d'. write_playbook fake_ops embedder hashed ids ctx p run orig d = Inr (i, d') \<longrightarrow>
      fake_pb_inv d' \<and> credited (map_of d) (map_of d') i run \<and>
      (signatures_unique (map_of d) \<longrightarrow> signatures_unique (map_of d'))) \<and>
    (\<forall>i rows'. write_playbook (pg_ops now) embedder hashed ids ctx p run orig rows = Inr (i, rows') \<longrightarrow>
      pg_pb_inv rows' \<and> credited (pg_view rows) (pg_view rows') i run \<and>
      (signatures_unique (pg_view rows) \<longrightarrow> signatures_unique (pg_view rows') \<and>
        (\<exists>x. pg_get_by_signature sig rows' = Inr x)))"
proof (intro conjI allI impI)
  fix i d'
  assume "write_playbook fake_ops embedder hashed ids ctx p run orig d = Inr (i, d')"
  from fakepb.write_back [OF assms(1,2) this]
  show "fake_pb_inv d'" "credited (map_of d) (map_of d') i run"
    "signatures_unique (map_of d) \<Longrightarrow> signatures_unique (map_of d')" by simp_all
next
  fix i rows'
  assume "write_playbook (pg_ops now) embedder hashed ids ctx p run orig rows = Inr (i, rows')"
  from pgpb.write_back [OF assms(3,4) this]
  have w: "pg_pb_inv rows'" "credited (pg_view rows) (pg_view rows') i run"
    "signatures_unique (pg_view rows) \<longrightarrow> signatures_unique (pg_view rows')" by simp_all
  then show "pg_pb_inv rows'" "credited (pg_view rows) (pg_view rows') i run"
    "signatures_unique (pg_view rows) \<Longrightarrow> signatures_unique (pg_view rows')" by simp_all
  show "\<exists>x. pg_get_by_signature sig rows' = Inr x" if "signatures_unique (pg_view rows)"
    using pgpb.by_signature_ok [of rows' now sig] w that by (auto simp: pg_ops_def)
qed

definition sample_ids :: NewIds where
  "sample_ids = \<lparr>ni_playbook = ''pb_1'', ni_plan = ''plan_1'', ni_inverse = ''plan_2''\<rparr>"

lemma playbook_credited_witness:
  "\<exists>d'. credited Map.empty (map_of d') ''pb_1'' ''run_1''"
proof -
  let ?ctx = "synthetic_context sample_rollback sample_verdict 120"
  have sig: "fake_get_by_signature s [] = Inr None" for s by (simp add: fake_get_by_signature_def)
  have "playbook_id sample_rollback = None" by (simp add: sample_rollback_def)
  then obtain d' where "write_playbook fake_ops None (\<lambda>s. [1]) sample_ids ?ctx sample_rollback ''run_1'' ''incident'' [] =
      Inr (''pb_1'', d')"
    by (simp add: write_playbook_def Let_def fake_ops_def sig sample_ids_def)
  then show ?thesis
    using playbook_credited [of "[]" sample_ids "[]" None "\<lambda>s. [1]" ?ctx sample_rollback "''run_1''" "''incident''"]
    by (auto simp: fake_pb_inv_def pg_pb_inv_def pg_view_def)
qed

lemma confirmed_plan_sel:
  "origin (confirmed_plan c r) = Playbook" "playbook_id (confirmed_plan c r) = Some (psr_id c)"
  "action (confirmed_plan c r) = action (psr_plan c)" "params (confirmed_plan c r) = params (psr_plan c)"
  "target_resources (confirmed_plan c r) = target_resources (psr_plan c)"
  "inverse (confirmed_plan c r) = inverse (psr_plan c)"
  by (cases "psr_plan c"; simp add: confirmed_plan_def)+

lemma confirm_offered:
  assumes "confirm json_loads num reply candidates = Inr c"
  shows "(\<forall>i. retained_playbook_id c = Some i \<longrightarrow> i \<in> psr_id ` set candidates) \<and>
    0 \<le> confirmation_confidence c \<and> confirmation_confidence c \<le> 1"
proof (cases "candidates = []")
  case True
  then show ?thesis using assms by (auto simp: confirm_def)
next
  case False
  with assms obtain raw where
    "parse_confirmation_response json_loads num raw (map psr_id candidates) = Inr c"
    by (auto simp: confirm_def bindE_Inr_iff)
  from confirmation_offered [OF this] show ?thesis by simp
qed

lemma match_query: "match_playbook embedder search confirmer ctx k = Inr m \<Longrightarrow>
    \<exists>query. embedder (build_signature_text ctx 3) = Inr query"
  by (auto simp: match_playbook_def Let_def bindE_Inr_iff)

lemma match_result:
  assumes m: "match_playbook embedder search (confirm json_loads num reply) ctx k = Inr m"
    and q: "embedder (build_signature_text ctx 3) = Inr query"
  shows "(pm_matched m \<longleftrightarrow> pm_plan m \<noteq> None) \<and> 0 \<le> pm_confidence m \<and> pm_confidence m \<le> 1 \<and>
    (\<forall>p. pm_plan m = Some p \<longrightarrow> (\<exists>c reason. c \<in> set (search query k) \<and> p = confirmed_plan c reason))"
proof (cases "search query k")
  case Nil
  then show ?thesis using m q by (auto simp: match_playbook_def Let_def)
next
  case (Cons first others)
  with m q obtain c where c: "confirm json_loads num reply (first # others) = Inr c"
    by (auto simp: match_playbook_def Let_def bindE_Inr_iff)
  show ?thesis
  proof (cases "retained_playbook_id c")
    case None
    then show ?thesis using m q Cons c confirm_offered [OF c] by (auto simp: match_playbook_def Let_def)
  next
    case (Some i)
    then obtain p where p: "find (\<lambda>p. psr_id p = i) (first # others) = Some p"
      using m q Cons c by (auto simp: match_playbook_def Let_def split: option.splits if_splits)
    then have "p \<in> set (search query k)" using find_Some_set [OF p] Cons by simp
    moreover have "pm_matched m" "pm_plan m = Some (confirmed_plan p (confirmation_reason c))"
      "pm_confidence m = confirmation_confidence c"
      using m q Cons c Some p by (auto simp: match_playbook_def Let_def simp del: find.simps)
    ultimately show ?thesis using confirm_offered [OF c] by (simp; blast)
  qed
qed

lemma match_returns:
  assumes q: "embedder (build_signature_text ctx 3) = Inr query" and c: "confirm json_loads num reply (search query k) = Inr c"
  shows "\<exists>m. match_playbook embedder search (confirm json_loads num reply) ctx k = Inr m"
proof (cases "search query k")
  case Nil
  then show ?thesis using q by (simp add: match_playbook_def Let_def)
next
  case (Cons first others)
  show ?thesis
  proof (cases "retained_playbook_id c")
    case None
    then show ?thesis using q c Cons by (simp add: match_playbook_def Let_def)
  next
    case (Some i)
    then have "i \<in> psr_id ` set (first # others)" using confirm_offered [OF c] Cons by auto
    then have "find (\<lambda>p. psr_id p = i) (first # others) \<noteq> None"
      unfolding find_None_iff by (metis image_iff)
    then obtain p where p: "find (\<lambda>p. psr_id p = i) (first # others) = Some p" by (metis not_None_eq)
    show ?thesis
      unfolding match_playbook_def Let_def q bindE_simps Cons list.case c [unfolded Cons] Some option.case p
      by blast
  qed
qed

text \<open>C16: whatever the model replies, a matched plan is one of the playbooks the store's search returned,
  marked with its origin and otherwise unchanged in what it does; a name the model made up never
  becomes a plan, and a search and a confirmation that succeed always lead to a result.\<close>

theorem match_confirmed:
  shows "(\<forall>m. match_playbook embedder search (confirm json_loads num reply) ctx k = Inr m \<longrightarrow>
      (pm_matched m \<longleftrightarrow> pm_plan m \<noteq> None) \<and> 0 \<le> pm_confidence m \<and> pm_confidence m \<le> 1 \<and>
      (\<forall>p. pm_plan m = Some p \<longrightarrow>
        (\<exists>query c. embedder (build_signature_text ctx 3) = Inr query \<and> c \<in> set (search query k) \<and>
          origin p = Playbook \<and> playbook_id p = Some (psr_id c) \<and> action p = action (psr_plan c) \<and>
          params p = params (psr_plan c) \<and> target_resources p = target_resources (psr_plan c) \<and>
          inverse p = inverse (psr_plan c)))) \<and>
    (\<forall>query c. embedder (build_signature_text ctx 3) = Inr query \<longrightarrow>
      confirm json_loads num reply (search query k) = Inr c \<longrightarrow>
      (\<exists>m. match_playbook embedder search (confirm json_loads num reply) ctx k = Inr m))"
proof (intro conjI allI impI)
  fix m
  assume m: "match_playbook embedder search (confirm json_loads num reply) ctx k = Inr m"
  then obtain query where q: "embedder (build_signature_text ctx 3) = Inr query" using match_query by blast
  show "pm_matched m \<longleftrightarrow> pm_plan m \<noteq> None" "0 \<le> pm_confidence m" "pm_confidence m \<le> 1"
    "\<And>p. pm_plan m = Some p \<Longrightarrow> \<exists>query c. embedder (build_signature_text ctx 3) = Inr query \<and>
          c \<in> set (search query k) \<and>
          origin p = Playbook \<and> playbook_id p = Some (psr_id c) \<and> action p = action (psr_plan c) \<and>
          params p = params (psr_plan c) \<and> target_resources p = target_resources (psr_plan c) \<and>
          inverse p = inverse (psr_plan c)"
    using match_result [OF m q] q by (auto simp: confirmed_plan_sel)
qed (rule match_returns)

definition sample_found :: PlaybookSearchResult where
  "sample_found = \<lparr>psr_id = ''pb_1'', psr_failure_class = ''bad_deploy'', psr_signature = [],
     psr_similarity = 1, psr_plan = sample_rollback, psr_evidence = [], psr_successes = 1, psr_failures = 0,
     psr_origin = ''incident''\<rparr>"

definition sample_loads :: "string \<Rightarrow> PyVal option" where
  "sample_loads s = Some (PDict [(''retained_playbook_id'', PStr ''pb_1'')])"

lemma match_confirmed_witness:
  "\<exists>m p. match_playbook (\<lambda>s. Inr [1]) (\<lambda>q k. [sample_found]) (confirm sample_loads (\<lambda>s. None) (Inr ''x''))
     (synthetic_context sample_rollback sample_verdict 120) 3 = Inr m \<and> pm_plan m = Some p \<and>
     origin p = Playbook \<and> action p = action sample_rollback"
proof -
  let ?ctx = "synthetic_context sample_rollback sample_verdict 120"
  have "confirm sample_loads (\<lambda>s. None) (Inr ''x'') [sample_found] = Inr \<lparr>retained_playbook_id = Some ''pb_1'',
      confirmation_reason = ''No confirmation reason provided by LLM.'', confirmation_confidence = 1\<rparr>"
    by (simp add: confirm_def parse_confirmation_response_def sample_loads_def confirmation_schema_def
        sample_found_def)
  then obtain m where m: "match_playbook (\<lambda>s. Inr [1]) (\<lambda>q k. [sample_found])
      (confirm sample_loads (\<lambda>s. None) (Inr ''x'')) ?ctx 3 = Inr m" "pm_matched m"
    by (simp add: match_playbook_def sample_found_def)
  with match_confirmed [of "\<lambda>s. Inr [1]" "\<lambda>q k. [sample_found]" sample_loads "\<lambda>s. None" "Inr ''x''" ?ctx 3]
  obtain p where "pm_plan m = Some p" "origin p = Playbook" "action p = action (psr_plan sample_found)" by fastforce
  with m(1) show ?thesis by (auto simp: sample_found_def)
qed

end
