(* ===== verification/Inverse.thy ===== *)
theory Inverse
  imports Contracts Effects
begin

text \<open>
  Deterministic inverses of remediation plans (\<^verbatim>\<open>src/understudy/planner/inverse.py\<close>): one builder per
  action of the closed enumeration, the synthesis over them, and what makes it an inverse: it keeps the
  action, the targets and the blast set of the plan (invariant K9), and a second inversion, taken in the
  state the first one would leave, gives the plan's parameters back.
\<close>

section \<open>Parts of an inverse\<close>

definition planner_error :: "string list \<Rightarrow> PyExc + 'a" where
  "planner_error parts = Inl (Raised ''PlannerError'' (fstr parts))"

definition workload_params :: "string \<Rightarrow> ActionParams" where
  "workload_params w = \<lparr>workload = w, target_commit = None, replica_delta = None, flag_name = None,
     config_key = None, config_value = None\<rparr>"

type_synonym config_map = "(string \<times> (string \<times> string) list) list"
type_synonym inverse_parts = "ActionType \<times> ActionParams \<times> string"

text \<open>A string parameter counts as given when it is neither \<open>None\<close> nor empty.\<close>

definition given :: "string option \<Rightarrow> bool" where
  "given x \<longleftrightarrow> x \<noteq> None \<and> x \<noteq> Some []"

lemma given_iff [simp]: "given None = False" "given (Some s) = (s \<noteq> [])"
  by (simp_all add: given_def)

definition resolve_prior_config_value ::
    "string \<Rightarrow> string \<Rightarrow> string option \<Rightarrow> config_map option \<Rightarrow> string option" where
  "resolve_prior_config_value w key current lookup =
     (case current of
        Some v \<Rightarrow> Some v
      | None \<Rightarrow>
          (case lookup of
             None \<Rightarrow> None
           | Some m \<Rightarrow>
               (case Option.bind (map_of m w) (\<lambda>d. map_of d key) of
                  Some v \<Rightarrow> Some v
                | None \<Rightarrow> Option.bind (map_of m []) (\<lambda>d. map_of d key))))"

definition related_sha :: "string \<Rightarrow> string \<Rightarrow> bool" where
  "related_sha a b \<longleftrightarrow> startswith a b \<or> startswith b a"

definition resolve_pre_incident_commit ::
    "string \<Rightarrow> string \<Rightarrow> string option \<Rightarrow> IncidentContext option \<Rightarrow> string option" where
  "resolve_pre_incident_commit w target current context =
     (case current of
        Some c \<Rightarrow> Some c
      | None \<Rightarrow>
          (case context of
             None \<Rightarrow> None
           | Some ctx \<Rightarrow>
               (case recent_deploys ctx of
                  [] \<Rightarrow> None
                | d0 # deploys \<Rightarrow>
                    (let head = commit_sha d0 in
                     if target \<noteq> head \<and> \<not> related_sha target head then Some head
                     else map_option commit_sha (find (\<lambda>d.
                       commit_sha d \<noteq> head \<and> \<not> related_sha (commit_sha d) target \<and>
                       (w = [] \<or> image_digests d = [] \<or> w \<in> fst ` set (image_digests d))) deploys)))))"

section \<open>The builders\<close>

definition build_inverse_scale_workload :: "RemediationPlan \<Rightarrow> string \<Rightarrow> PyExc + inverse_parts" where
  "build_inverse_scale_workload p w =
     (case replica_delta (params p) of
        Some d \<Rightarrow>
          if d = 0 then planner_error [''Cannot synthesize inverse for scale_workload on '', squote w,
            '': replica_delta must be non-zero'']
          else Inr (SCALE_WORKLOAD, (workload_params w)\<lparr>replica_delta := Some (- d)\<rparr>,
            fstr [''Scale '', w, '' back by '', signed_str (- d), '' replicas (reversing delta of '', signed_str d, '')''])
      | None \<Rightarrow> planner_error [''Cannot synthesize inverse for scale_workload on '', squote w,
          '': replica_delta must be non-zero''])"

definition build_inverse_restart_workload :: "string \<Rightarrow> PyExc + inverse_parts" where
  "build_inverse_restart_workload w =
     Inr (RESTART_WORKLOAD, workload_params w,
       fstr [''Trigger rolling restart of '', w, '' to restore pre-intervention pod instances''])"

text \<open>Whether a plan of \<open>DISABLE_FLAG\<close> turns the flag on again is told by its rationale only.\<close>

definition re_enables :: "string \<Rightarrow> bool" where
  "re_enables why \<longleftrightarrow> startswith (py_lower why) ''re-enable''"

definition build_inverse_disable_flag :: "RemediationPlan \<Rightarrow> string \<Rightarrow> PyExc + inverse_parts" where
  "build_inverse_disable_flag p w =
     (if \<not> given (flag_name (params p)) then
        planner_error [''Cannot synthesize inverse for disable_flag on '', squote w, '': flag_name required'']
      else
        (let flag = the (flag_name (params p)) in
         Inr (DISABLE_FLAG, (workload_params w)\<lparr>flag_name := Some flag\<rparr>,
           if re_enables (rationale p) then fstr [''Disable feature flag '', squote flag, '' for '', w]
           else fstr [''Re-enable feature flag '', squote flag, '' for '', w])))"

definition build_inverse_revert_config ::
    "RemediationPlan \<Rightarrow> string \<Rightarrow> string option \<Rightarrow> config_map option \<Rightarrow> PyExc + inverse_parts" where
  "build_inverse_revert_config p w current lookup =
     (if \<not> given (config_key (params p)) \<or> config_value (params p) = None then
        planner_error [''Cannot synthesize inverse for revert_config on '', squote w,
          '': config_key and config_value required'']
      else
        (let key = the (config_key (params p)) in
         case resolve_prior_config_value w key current lookup of
           None \<Rightarrow> planner_error [''Cannot synthesize inverse for revert_config on '', squote w, '' ('', key,
             ''): pre-intervention config_value unknown'']
         | Some prior \<Rightarrow> Inr (REVERT_CONFIG, (workload_params w)\<lparr>config_key := Some key, config_value := Some prior\<rparr>,
             fstr [''Restore configuration key '', squote key, '' for '', w, '' to prior value '', squote prior])))"

definition build_inverse_rollback_deploy ::
    "RemediationPlan \<Rightarrow> string \<Rightarrow> IncidentContext option \<Rightarrow> string option \<Rightarrow> PyExc + inverse_parts" where
  "build_inverse_rollback_deploy p w context current =
     (if \<not> given (target_commit (params p)) then
        planner_error [''Cannot synthesize inverse for rollback_deploy on '', squote w, '': target_commit required'']
      else
        (case resolve_pre_incident_commit w (the (target_commit (params p))) current context of
           None \<Rightarrow> planner_error [''Cannot synthesize inverse for rollback_deploy on '', squote w,
             '': pre-incident commit unknown'']
         | Some c \<Rightarrow> Inr (ROLLBACK_DEPLOY, (workload_params w)\<lparr>target_commit := Some c\<rparr>,
             fstr [''Roll forward '', w, '' Deployment to pre-incident commit '', take 7 c])))"

text \<open>\<open>_INVERSE_BUILDERS.get(plan.action)\<close>\<close>

definition inverse_builder ::
    "RemediationPlan \<Rightarrow> string \<Rightarrow> IncidentContext option \<Rightarrow> string option \<Rightarrow> string option \<Rightarrow>
     config_map option \<Rightarrow> PyExc + inverse_parts" where
  "inverse_builder p w context commit current lookup =
     (case action p of
        SCALE_WORKLOAD \<Rightarrow> build_inverse_scale_workload p w
      | RESTART_WORKLOAD \<Rightarrow> build_inverse_restart_workload w
      | DISABLE_FLAG \<Rightarrow> build_inverse_disable_flag p w
      | REVERT_CONFIG \<Rightarrow> build_inverse_revert_config p w current lookup
      | ROLLBACK_DEPLOY \<Rightarrow> build_inverse_rollback_deploy p w context commit
      | NO_ACTION \<Rightarrow> planner_error [''Unsupported action type for deterministic inverse synthesis: '',
          action_value (action p)])"

section \<open>Synthesis\<close>

definition synthesize_inverse ::
    "RemediationPlan \<Rightarrow> IncidentContext option \<Rightarrow> string option \<Rightarrow> string option \<Rightarrow> string list option \<Rightarrow>
     config_map option \<Rightarrow> PyExc + RemediationPlan option" where
  "synthesize_inverse p context commit current cluster lookup =
     (if action p = NO_ACTION then Inr None
      else
        (let w = workload (params p) in
         if w = [] then planner_error [''Cannot synthesize inverse for '', action_value (action p),
           '': workload name is empty'']
         else if (case cluster of Some ws \<Rightarrow> w \<notin> set ws | None \<Rightarrow> False) then
           planner_error [''Cannot synthesize inverse for '', action_value (action p), '': workload '', squote w,
             '' not found in cluster workloads'']
         else bindE (inverse_builder p w context commit current lookup) (\<lambda>(act, ps, why).
           Inr (Some (RemediationPlan (plan_id p @ ''_inv'') (candidate_index p) act ps (target_resources p)
             (declared_blast_set p) None why (origin p) (playbook_id p))))))"

definition invert_plan ::
    "RemediationPlan \<Rightarrow> IncidentContext option \<Rightarrow> string option \<Rightarrow> string option \<Rightarrow> string list option \<Rightarrow>
     config_map option \<Rightarrow> PyExc + RemediationPlan" where
  "invert_plan p context commit current cluster lookup =
     (if action p = NO_ACTION then
        planner_error [''Plan '', plan_id p, '' (no_action) cannot be inverted: no_action is explicitly '',
          ''non-reversible by definition'']
      else bindE (synthesize_inverse p context commit current cluster lookup) (\<lambda>q.
        case q of Some i \<Rightarrow> Inr i | None \<Rightarrow> Inl (Raised ''AssertionError'' [])))"

section \<open>What an inverse keeps\<close>

lemmas builder_defs = build_inverse_scale_workload_def build_inverse_restart_workload_def
  build_inverse_disable_flag_def build_inverse_revert_config_def build_inverse_rollback_deploy_def

lemma planner_error_simps [simp]: "planner_error parts \<noteq> Inr x" "Inr x \<noteq> planner_error parts"
  by (simp_all add: planner_error_def)

lemma workload_params_sel [simp]: "workload (workload_params w) = w"
  by (simp add: workload_params_def)

lemma builder_keeps:
  "inverse_builder p w context commit current lookup = Inr (act, ps, why) \<Longrightarrow> act = action p \<and> workload ps = w"
  by (auto simp: inverse_builder_def builder_defs Let_def split: ActionType.splits option.splits if_splits)

lemma synthesize_Some:
  assumes "synthesize_inverse p context commit current cluster lookup = Inr (Some q)"
  obtains ps why where "action p \<noteq> NO_ACTION" "workload (params p) \<noteq> []"
    "\<And>ws. cluster = Some ws \<Longrightarrow> workload (params p) \<in> set ws"
    "inverse_builder p (workload (params p)) context commit current lookup = Inr (action p, ps, why)"
    "workload ps = workload (params p)"
    "q = RemediationPlan (plan_id p @ ''_inv'') (candidate_index p) (action p) ps (target_resources p)
       (declared_blast_set p) None why (origin p) (playbook_id p)"
proof -
  have na: "action p \<noteq> NO_ACTION" using assms by (auto simp: synthesize_inverse_def)
  from assms na obtain act ps why where
    1: "inverse_builder p (workload (params p)) context commit current lookup = Inr (act, ps, why)"
    and 2: "q = RemediationPlan (plan_id p @ ''_inv'') (candidate_index p) act ps (target_resources p)
       (declared_blast_set p) None why (origin p) (playbook_id p)"
    and 3: "workload (params p) \<noteq> []"
    and 4: "\<not> (case cluster of Some ws \<Rightarrow> workload (params p) \<notin> set ws | None \<Rightarrow> False)"
    by (auto simp: synthesize_inverse_def Let_def bindE_Inr_iff split: if_splits)
  show thesis
    by (rule that [of ps why]) (use na 1 2 3 4 builder_keeps [OF 1] in auto)
qed

lemma synthesize_None_iff:
  "synthesize_inverse p context commit current cluster lookup = Inr None \<longleftrightarrow> action p = NO_ACTION"
  by (auto simp: synthesize_inverse_def Let_def bindE_Inr_iff split: if_splits)

section \<open>Inverting twice\<close>

text \<open>A plan that sets no parameter but those of its action.\<close>

definition params_fit :: "RemediationPlan \<Rightarrow> bool" where
  "params_fit p \<longleftrightarrow> (let x = params p; w = workload_params (workload x) in
     x = (case action p of
            SCALE_WORKLOAD \<Rightarrow> w\<lparr>replica_delta := replica_delta x\<rparr>
          | RESTART_WORKLOAD \<Rightarrow> w
          | DISABLE_FLAG \<Rightarrow> w\<lparr>flag_name := flag_name x\<rparr>
          | REVERT_CONFIG \<Rightarrow> w\<lparr>config_key := config_key x, config_value := config_value x\<rparr>
          | ROLLBACK_DEPLOY \<Rightarrow> w\<lparr>target_commit := target_commit x\<rparr>
          | NO_ACTION \<Rightarrow> w))"

lemma lower_flag_letters [simp]: "lower_char (CHR ''R'') = CHR ''r''" "lower_char (CHR ''D'') = CHR ''d''"
  by code_simp+

lemma flag_rationales [simp]:
  "re_enables (fstr (''Re-enable feature flag '' # xs))" "\<not> re_enables (fstr (''Disable feature flag '' # xs))"
  by (simp_all add: re_enables_def fstr_def py_lower_def startswith_def) (simp add: lower_char_def Let_def)

lemma builder_twice:
  assumes b: "inverse_builder p (workload (params p)) context commit current lookup = Inr (action p, ps, why)"
    and fit: "params_fit p" and act: "action p \<noteq> NO_ACTION" and tc: "target_commit ps \<noteq> Some []"
    and q: "action q = action p" "params q = ps" "rationale q = why" "workload ps = workload (params p)"
  shows "\<exists>why'. inverse_builder q (workload (params q)) context' (target_commit (params p)) (config_value (params p))
      lookup' = Inr (action p, params p, why') \<and>
    (action p = DISABLE_FLAG \<longrightarrow> re_enables why' = re_enables (rationale p))"
proof (cases "action p")
  case ROLLBACK_DEPLOY
  moreover from this have "(workload_params (workload (params p)))\<lparr>target_commit := target_commit (params p)\<rparr> = params p"
    using fit by (simp add: params_fit_def Let_def)
  moreover have "given (target_commit (params q))"
    using b tc ROLLBACK_DEPLOY unfolding q(2)
    by (auto simp: given_def inverse_builder_def build_inverse_rollback_deploy_def split: option.splits if_splits)
  ultimately show ?thesis using b q tc
    by (cases "target_commit (params p)") (auto simp: inverse_builder_def build_inverse_rollback_deploy_def
      resolve_pre_incident_commit_def Let_def split: option.splits if_splits)
next
  case RESTART_WORKLOAD
  then have "params p = workload_params (workload (params p))"
    using fit by (simp add: params_fit_def Let_def)
  then have "inverse_builder q (workload (params q)) context' (target_commit (params p)) (config_value (params p)) lookup' =
      Inr (action p, params p, fstr [''Trigger rolling restart of '', workload (params p),
        '' to restore pre-intervention pod instances''])"
    using RESTART_WORKLOAD q by (simp only: inverse_builder_def build_inverse_restart_workload_def ActionType.case)
  then show ?thesis using RESTART_WORKLOAD by simp
next
  case SCALE_WORKLOAD
  then have fit': "(workload_params (workload (params p)))\<lparr>replica_delta := replica_delta (params p)\<rparr> = params p"
    using fit by (simp add: params_fit_def Let_def)
  from b SCALE_WORKLOAD obtain d where d: "replica_delta (params p) = Some d" "d \<noteq> 0"
    and "ps = (workload_params (workload (params p)))\<lparr>replica_delta := Some (- d)\<rparr>"
    by (auto simp: inverse_builder_def build_inverse_scale_workload_def split: option.splits if_splits)
  then have "workload (params q) = workload (params p)" "replica_delta (params q) = Some (- d)" using q by simp_all
  then show ?thesis using SCALE_WORKLOAD q(1) d fit'
    by (simp add: inverse_builder_def build_inverse_scale_workload_def)
next
  case DISABLE_FLAG
  then have fit': "(workload_params (workload (params p)))\<lparr>flag_name := flag_name (params p)\<rparr> = params p"
    using fit by (simp add: params_fit_def Let_def)
  from b DISABLE_FLAG obtain f where f: "flag_name (params p) = Some f" "f \<noteq> []"
    and ps: "ps = (workload_params (workload (params p)))\<lparr>flag_name := Some f\<rparr>"
    and why: "re_enables why = (\<not> re_enables (rationale p))"
    by (auto simp: inverse_builder_def build_inverse_disable_flag_def given_def Let_def split: if_splits)
  then have "workload (params q) = workload (params p)" "flag_name (params q) = Some f" using q by simp_all
  then show ?thesis using DISABLE_FLAG q(1,3) f why fit'
    by (simp add: inverse_builder_def build_inverse_disable_flag_def Let_def)
next
  case REVERT_CONFIG
  then have fit': "(workload_params (workload (params p)))\<lparr>config_key := config_key (params p),
      config_value := config_value (params p)\<rparr> = params p"
    using fit by (simp add: params_fit_def Let_def)
  from b REVERT_CONFIG obtain k v v' where k: "config_key (params p) = Some k" "k \<noteq> []" "config_value (params p) = Some v"
    and ps: "ps = (workload_params (workload (params p)))\<lparr>config_key := Some k, config_value := Some v'\<rparr>"
    by (auto simp: inverse_builder_def build_inverse_revert_config_def given_def Let_def split: option.splits if_splits)
  then have "workload (params q) = workload (params p)" "config_key (params q) = Some k" "config_value (params q) = Some v'"
    using q by simp_all
  then show ?thesis using REVERT_CONFIG q(1) k fit'
    by (simp add: inverse_builder_def build_inverse_revert_config_def resolve_prior_config_value_def Let_def)
next
  case NO_ACTION
  then show ?thesis using act by simp
qed

text \<open>Inverting twice gives the plan back.  For every action, the inverse of a plan, inverted in the state the plan
  would have left (its commit deployed, its value set), exists and has the plan's action, parameters, targets and blast
  set; for a feature flag it also turns the flag the way the plan does.\<close>

theorem inverse_of_inverse:
  assumes "synthesize_inverse p context commit current cluster lookup = Inr (Some q)"
    and "params_fit p" and "target_commit (params q) \<noteq> Some []"
  shows "\<exists>p'. synthesize_inverse q context' (target_commit (params p)) (config_value (params p)) cluster lookup' =
      Inr (Some p') \<and> action p' = action p \<and> params p' = params p \<and> target_resources p' = target_resources p \<and>
    declared_blast_set p' = declared_blast_set p \<and>
    (action p = DISABLE_FLAG \<longrightarrow> re_enables (rationale p') = re_enables (rationale p))"
proof -
  from assms(1) obtain ps why where 1: "action p \<noteq> NO_ACTION" "workload (params p) \<noteq> []"
    "\<And>ws. cluster = Some ws \<Longrightarrow> workload (params p) \<in> set ws"
    "inverse_builder p (workload (params p)) context commit current lookup = Inr (action p, ps, why)"
    "workload ps = workload (params p)"
    and q: "q = RemediationPlan (plan_id p @ ''_inv'') (candidate_index p) (action p) ps (target_resources p)
       (declared_blast_set p) None why (origin p) (playbook_id p)"
    by (rule synthesize_Some) blast
  obtain why' where 2: "inverse_builder q (workload (params q)) context' (target_commit (params p))
      (config_value (params p)) lookup' = Inr (action p, params p, why')"
    "action p = DISABLE_FLAG \<longrightarrow> re_enables why' = re_enables (rationale p)"
    using builder_twice [OF 1(4) assms(2) 1(1), where q = q and context' = context' and lookup' = lookup']
      assms(3) 1(5) q by auto
  have "\<not> (case cluster of Some ws \<Rightarrow> workload (params q) \<notin> set ws | None \<Rightarrow> False)"
    using 1(3,5) q by (auto split: option.splits)
  then have "\<not> (case cluster of Some ws \<Rightarrow> workload (params p) \<notin> set ws | None \<Rightarrow> False)" using q 1(5) by (auto split: option.splits)
  moreover have "action q = action p" "workload (params q) = workload (params p)" "target_resources q = target_resources p"
    "declared_blast_set q = declared_blast_set p" using q 1(5) by simp_all
  ultimately show ?thesis using 1(1,2) 2 by (simp add: synthesize_inverse_def Let_def)
qed

definition flag_plan :: RemediationPlan where
  "flag_plan = RemediationPlan ''plan_cand_0'' 0 DISABLE_FLAG ((workload_params ''worker'')\<lparr>flag_name := Some ''beta''\<rparr>)
     [\<lparr>ref_namespace = ''ust-prod'', ref_kind = Deployment, ref_name = ''worker''\<rparr>] [''worker''] None
     ''turn the feature off'' Planner None"

lemma inverse_of_inverse_witness:
  "\<exists>q p'. synthesize_inverse flag_plan None None None (Some [''worker'']) None = Inr (Some q) \<and>
     synthesize_inverse q None None None (Some [''worker'']) None = Inr (Some p') \<and>
     re_enables (rationale q) \<and> \<not> re_enables (rationale p')"
proof -
  let ?q = "RemediationPlan ''plan_cand_0_inv'' 0 DISABLE_FLAG ((workload_params ''worker'')\<lparr>flag_name := Some ''beta''\<rparr>)
     [\<lparr>ref_namespace = ''ust-prod'', ref_kind = Deployment, ref_name = ''worker''\<rparr>] [''worker''] None
     (fstr [''Re-enable feature flag '', squote ''beta'', '' for '', ''worker'']) Planner None"
  have off: "\<not> re_enables ''turn the feature off''"
    by (simp add: re_enables_def py_lower_def startswith_def lower_char_def Let_def)
  have 1: "synthesize_inverse flag_plan None None None (Some [''worker'']) None = Inr (Some ?q)"
    by (simp add: synthesize_inverse_def flag_plan_def inverse_builder_def build_inverse_disable_flag_def off Let_def)
  have "params_fit flag_plan" by (simp add: params_fit_def flag_plan_def Let_def)
  from inverse_of_inverse [OF 1 this, of None None] show ?thesis
    using 1 off by (auto simp: workload_params_def flag_plan_def)
qed

end
