(* ===== verification/Prompt.thy ===== *)
theory Prompt
  imports Playbook Inverse
begin

text \<open>
  The planner's prompt (\<^verbatim>\<open>src/understudy/planner/prompt.py\<close>): the schema of the model's reply and its
  reading, the conversion of a candidate to a remediation plan, and the text of the prompt.  The reading
  of JSON texts and the texts of the JSON and schema errors are arguments, as is the JSON schema that
  the validation library derives from the models.
\<close>

section \<open>Replies\<close>

record PromptInversePlan =
  pi_action :: ActionType
  pi_params :: ActionParams
  pi_declared_blast_set :: "string list"
  pi_rationale :: string

record PromptCandidatePlan =
  pc_action :: ActionType
  pc_params :: ActionParams
  pc_declared_blast_set :: "string list"
  pc_inverse :: "PromptInversePlan option"
  pc_rationale :: string

type_synonym PlannerPromptResponse = "PromptCandidatePlan list"

record PlannerLib =
  pl_json_loads :: "string \<Rightarrow> string + PyVal"
  pl_validation_error :: "PyVal \<Rightarrow> string"
  pl_int_text :: "string \<Rightarrow> int option"

text \<open>The fields of the models, read in the validation library's lax mode: an integer may come as a float
  without fraction, as a boolean or as a text.\<close>

fun opt_seq :: "'a option list \<Rightarrow> 'a list option" where
  "opt_seq [] = Some []"
| "opt_seq (x # xs) = Option.bind x (\<lambda>y. map_option ((#) y) (opt_seq xs))"

definition action_of_value :: "string \<Rightarrow> ActionType option" where
  "action_of_value s = find (\<lambda>a. action_value a = s)
     [ROLLBACK_DEPLOY, RESTART_WORKLOAD, SCALE_WORKLOAD, DISABLE_FLAG, REVERT_CONFIG, NO_ACTION]"

definition str_field :: "(string \<times> PyVal) list \<Rightarrow> string \<Rightarrow> string option" where
  "str_field d k = (case map_of d k of Some (PStr s) \<Rightarrow> Some s | _ \<Rightarrow> None)"

definition opt_str_field :: "(string \<times> PyVal) list \<Rightarrow> string \<Rightarrow> string option option" where
  "opt_str_field d k = (case map_of d k of None \<Rightarrow> Some None | Some PNone \<Rightarrow> Some None
     | Some (PStr s) \<Rightarrow> Some (Some s) | _ \<Rightarrow> None)"

definition opt_int_field :: "PlannerLib \<Rightarrow> (string \<times> PyVal) list \<Rightarrow> string \<Rightarrow> int option option" where
  "opt_int_field lib d k = (case map_of d k of None \<Rightarrow> Some None | Some PNone \<Rightarrow> Some None
     | Some (PInt i) \<Rightarrow> Some (Some i) | Some (PBool b) \<Rightarrow> Some (Some (if b then 1 else 0))
     | Some (PFloat r) \<Rightarrow> if of_int \<lfloor>r\<rfloor> = r then Some (Some \<lfloor>r\<rfloor>) else None
     | Some (PStr s) \<Rightarrow> map_option Some (pl_int_text lib s) | _ \<Rightarrow> None)"

definition str_list_field :: "(string \<times> PyVal) list \<Rightarrow> string \<Rightarrow> string list option" where
  "str_list_field d k = (case map_of d k of None \<Rightarrow> Some []
     | Some (PColl vs) \<Rightarrow> opt_seq (map (\<lambda>v. case v of PStr s \<Rightarrow> Some s | _ \<Rightarrow> None) vs)
     | _ \<Rightarrow> None)"

definition read_params :: "PlannerLib \<Rightarrow> PyVal option \<Rightarrow> ActionParams option" where
  "read_params lib v =
     (case v of
        Some (PDict d) \<Rightarrow>
          (case (str_field d ''workload'', opt_str_field d ''target_commit'', opt_int_field lib d ''replica_delta'',
              opt_str_field d ''flag_name'', opt_str_field d ''config_key'', opt_str_field d ''config_value'') of
             (Some w, Some c, Some n, Some f, Some k, Some x) \<Rightarrow>
               Some \<lparr>workload = w, target_commit = c, replica_delta = n, flag_name = f, config_key = k,
                 config_value = x\<rparr>
           | _ \<Rightarrow> None)
      | _ \<Rightarrow> None)"

definition read_inverse :: "PlannerLib \<Rightarrow> PyVal \<Rightarrow> PromptInversePlan option" where
  "read_inverse lib v =
     (case v of
        PDict d \<Rightarrow>
          (case (Option.bind (str_field d ''action'') action_of_value, read_params lib (map_of d ''params''),
              str_list_field d ''declared_blast_set'', str_field d ''rationale'') of
             (Some a, Some p, Some b, Some r) \<Rightarrow>
               Some \<lparr>pi_action = a, pi_params = p, pi_declared_blast_set = b, pi_rationale = r\<rparr>
           | _ \<Rightarrow> None)
      | _ \<Rightarrow> None)"

definition read_candidate :: "PlannerLib \<Rightarrow> PyVal \<Rightarrow> PromptCandidatePlan option" where
  "read_candidate lib v =
     (case v of
        PDict d \<Rightarrow>
          (case (Option.bind (str_field d ''action'') action_of_value, read_params lib (map_of d ''params''),
              str_list_field d ''declared_blast_set'',
              case map_of d ''inverse'' of None \<Rightarrow> Some None | Some PNone \<Rightarrow> Some None
                | Some i \<Rightarrow> map_option Some (read_inverse lib i),
              str_field d ''rationale'') of
             (Some a, Some p, Some b, Some i, Some r) \<Rightarrow>
               Some \<lparr>pc_action = a, pc_params = p, pc_declared_blast_set = b, pc_inverse = i, pc_rationale = r\<rparr>
           | _ \<Rightarrow> None)
      | _ \<Rightarrow> None)"

definition model_validate_response :: "PlannerLib \<Rightarrow> PyVal \<Rightarrow> string + PlannerPromptResponse" where
  "model_validate_response lib v =
     (case (case v of
              PDict d \<Rightarrow> (case map_of d ''plans'' of
                  Some (PColl vs) \<Rightarrow> opt_seq (map (read_candidate lib) vs)
                | _ \<Rightarrow> None)
            | _ \<Rightarrow> None) of
        Some plans \<Rightarrow> Inr plans
      | None \<Rightarrow> Inl (pl_validation_error lib v))"

definition parse_raw_planner_json :: "PlannerLib \<Rightarrow> string \<Rightarrow> PyExc + PlannerPromptResponse" where
  "parse_raw_planner_json lib raw =
     (case pl_json_loads lib (clean_planner raw) of
        Inl msg \<Rightarrow> planner_error [''Failed to decode planner response as JSON: '', msg]
      | Inr parsed \<Rightarrow>
          (case model_validate_response lib parsed of
             Inl msg \<Rightarrow> planner_error [''Planner response violates output schema: '', msg]
           | Inr plans \<Rightarrow> Inr plans))"

section \<open>From candidates to plans\<close>

definition cand_id :: "nat \<Rightarrow> string" where
  "cand_id i = fstr [''plan_cand_'', int_str (int i)]"

definition target_of :: "string \<Rightarrow> ActionType \<Rightarrow> string \<Rightarrow> ResourceRef list" where
  "target_of ns act w =
     (if w = [] then []
      else [\<lparr>ref_namespace = ns, ref_kind = (if act = REVERT_CONFIG then ConfigMap else Deployment), ref_name = w\<rparr>])"

text \<open>With the defaults of the call: the planner as origin and no playbook.\<close>

definition prompt_candidate_to_remediation_plan :: "PromptCandidatePlan \<Rightarrow> nat \<Rightarrow> RemediationPlan" where
  "prompt_candidate_to_remediation_plan c idx =
     RemediationPlan (cand_id idx) (int idx) (pc_action c) (pc_params c)
       (if pc_action c = NO_ACTION then [] else target_of ''ust-prod'' (pc_action c) (workload (pc_params c)))
       (pc_declared_blast_set c)
       (case pc_inverse c of
          None \<Rightarrow> None
        | Some i \<Rightarrow>
            if pc_action c = NO_ACTION then None
            else Some (RemediationPlan (cand_id idx @ ''_inv'') (int idx) (pi_action i) (pi_params i)
              (target_of ''ust-prod'' (pi_action i) (workload (pi_params i))) (pi_declared_blast_set i) None
              (pi_rationale i) Planner None))
       (pc_rationale c) Planner None"

section \<open>JSON texts\<close>

definition hex_digit :: "nat \<Rightarrow> char" where
  "hex_digit n = (if n < 10 then char_of (48 + n) else char_of (87 + n))"

definition json_char :: "char \<Rightarrow> string" where
  "json_char c = (let n = (of_char c :: nat) in
     if n = 34 then [CHR 0x5C, CHR 0x22] else if n = 92 then [CHR 0x5C, CHR 0x5C]
     else if n = 8 then [CHR 0x5C, CHR ''b''] else if n = 9 then [CHR 0x5C, CHR ''t'']
     else if n = 10 then [CHR 0x5C, CHR ''n''] else if n = 12 then [CHR 0x5C, CHR ''f'']
     else if n = 13 then [CHR 0x5C, CHR ''r'']
     else if 32 \<le> n \<and> n \<le> 126 then [c]
     else [CHR 0x5C, CHR ''u'', CHR ''0'', CHR ''0'', hex_digit (n div 16), hex_digit (n mod 16)])"

definition json_string :: "string \<Rightarrow> string" where
  "json_string s = CHR 0x22 # concat (map json_char s) @ [CHR 0x22]"

text \<open>\<open>json.dumps(v, sort_keys=True)\<close>\<close>

fun json_dumps :: "PyStd \<Rightarrow> PyVal \<Rightarrow> PyExc + string"
  and json_items :: "PyStd \<Rightarrow> PyVal list \<Rightarrow> PyExc + string list"
  and json_members :: "PyStd \<Rightarrow> (string \<times> PyVal) list \<Rightarrow> PyExc + (string \<times> string) list" where
  "json_dumps std PNone = Inr ''null''"
| "json_dumps std (PBool b) = Inr (if b then ''true'' else ''false'')"
| "json_dumps std (PInt i) = Inr (int_str i)"
| "json_dumps std (PFloat r) = Inr (std_repr std (PFloat r))"
| "json_dumps std (PStr s) = Inr (json_string s)"
| "json_dumps std (PColl vs) = bindE (json_items std vs) (\<lambda>xs. Inr (''['' @ join '', '' xs @ '']''))"
| "json_dumps std (PDict d) = bindE (json_members std d) (\<lambda>kvs.
     Inr (''{'' @ join '', '' (map (\<lambda>(k, x). json_string k @ '': '' @ x) (sort_key fst kvs)) @ ''}''))"
| "json_dumps std (PDatetime t) = Inl (Raised ''TypeError'' ''Object of type datetime is not JSON serializable'')"
| "json_dumps std (PRef r) = Inl (Raised ''TypeError'' ''Object of type ResourceRef is not JSON serializable'')"
| "json_items std [] = Inr []"
| "json_items std (v # vs) = bindE (json_dumps std v) (\<lambda>x. bindE (json_items std vs) (\<lambda>xs. Inr (x # xs)))"
| "json_members std [] = Inr []"
| "json_members std ((k, v) # d) =
     bindE (json_dumps std v) (\<lambda>x. bindE (json_members std d) (\<lambda>xs. Inr ((k, x) # xs)))"

section \<open>Sections of the prompt\<close>

definition lines_of :: "string list \<Rightarrow> string" where
  "lines_of = join [newline]"

definition alert_source_value :: "AlertSourceName \<Rightarrow> string" where
  "alert_source_value s = (case s of PagerdutyAlert \<Rightarrow> ''pagerduty'' | SyntheticAlert \<Rightarrow> ''synthetic'')"

definition severity_value :: "Severity \<Rightarrow> string" where
  "severity_value s = (case s of Critical \<Rightarrow> ''critical'' | ErrorSeverity \<Rightarrow> ''error'' | Warning \<Rightarrow> ''warning'')"

definition format_alert :: "PyStd \<Rightarrow> Alert \<Rightarrow> PyExc + string" where
  "format_alert std a =
     (let ls = [''Alert ID: '' @ alert_id a, ''Source: '' @ alert_source_value (alert_source a),
        ''Title: '' @ alert_title a, ''Primary Service: '' @ alert_service a,
        ''Severity: '' @ severity_value (alert_severity a), ''Fired At: '' @ std_isoformat std (alert_fired_at a)] in
      if alert_raw a = [] then Inr (lines_of ls)
      else bindE (json_dumps std (PDict (alert_raw a))) (\<lambda>j. Inr (lines_of (ls @ [''Raw Details: '' @ j]))))"

definition format_signatures :: "PyStd \<Rightarrow> ErrorSignature list \<Rightarrow> string" where
  "format_signatures std sigs =
     (if sigs = [] then ''None observed.''
      else lines_of (map (\<lambda>(i, s). fstr [int_str (int i), ''. ['', sig_service s, ''] count='', int_str (sig_count s),
          '' fingerprint='', sig_fingerprint s, [newline],
          ''   message: '', sig_message s, [newline],
          ''   first_seen: '', std_isoformat std (sig_first_seen s),
          '' last_seen: '', std_isoformat std (sig_last_seen s)]) (enumerate 1 sigs)))"

definition format_series :: "PyStd \<Rightarrow> MetricSeries \<Rightarrow> string" where
  "format_series std s =
     (let labels = join '','' (map (\<lambda>(k, v). k @ ''='' @ v) (sort (series_labels s)));
          part = (if labels \<noteq> [] then ''{'' @ labels @ ''}'' else []);
          val = (if series_points s \<noteq> [] then std_fixed std 2 (mp_value (last (series_points s))) else ''N/A'') in
      fstr [''  - '', metric_name s, part, '': latest_value='', val])"

definition format_metrics :: "PyStd \<Rightarrow> MetricWindow \<Rightarrow> string" where
  "format_metrics std m =
     (let p99 = (case mw_p99_latency_ms m of Some x \<Rightarrow> std_fixed std 1 x @ '' ms'' | None \<Rightarrow> ''N/A'');
          err = (case mw_error_rate m of Some x \<Rightarrow> std_fixed std 2 (x * 100) @ ''%'' | None \<Rightarrow> ''N/A'') in
      lines_of ([''Target Service: '' @ mw_service m,
        fstr [''Window: '', std_isoformat std (mw_start_time m), '' to '', std_isoformat std (mw_end_time m)],
        ''Total Requests: '' @ int_str (mw_request_count m),
        ''p99 Latency: '' @ p99, ''Error Rate: '' @ err] @
       (if mw_series m = [] then [] else ''Series:'' # map (format_series std) (mw_series m))))"

definition format_deploys :: "PyStd \<Rightarrow> DeployRef list \<Rightarrow> string" where
  "format_deploys std ds =
     (if ds = [] then ''No recent deployments recorded.''
      else lines_of (map (\<lambda>(i, d).
        (let digests = join '', '' (map (\<lambda>(svc, g). svc @ ''='' @ g) (sort (image_digests d))) in
         fstr [int_str (int i), ''. commit: '', commit_sha d, '' deployed_at: '', std_isoformat std (deployed_at d),
           '' pr: '', (case pr_number d of Some n \<Rightarrow> if n \<noteq> 0 then int_str n else ''N/A'' | None \<Rightarrow> ''N/A''),
           '' contains_migration: '', py_str std (PBool (contains_migration d)), [newline],
           ''   images: '', if digests \<noteq> [] then digests else ''none''])) (enumerate 1 ds)))"

definition format_dependency_graph :: "IncidentContext \<Rightarrow> string" where
  "format_dependency_graph ctx =
     (let g = dependency_graph ctx;
          nodes = (if snap_nodes g \<noteq> [] then join '', '' (sort (snap_nodes g)) else ''None'') in
      lines_of ((''Services (nodes): '' @ nodes) #
        (if snap_edges g = [] then [''Dependencies (edges): None declared'']
         else ''Dependencies (edges, caller -> callee):'' #
           map (\<lambda>e. fstr [''  - '', edge_source e, '' -> '', edge_target e])
             (sort_key (\<lambda>e. (edge_source e, edge_target e)) (snap_edges g)))))"

text \<open>\<open>model_dump(exclude_none=True)\<close> of the parameters.\<close>

definition params_dump :: "ActionParams \<Rightarrow> (string \<times> PyVal) list" where
  "params_dump x =
     (let opt = (\<lambda>k v. case v of None \<Rightarrow> [] | Some y \<Rightarrow> [(k, y)]) in
      (''workload'', PStr (workload x)) #
      opt ''target_commit'' (map_option PStr (target_commit x)) @
      opt ''replica_delta'' (map_option PInt (replica_delta x)) @
      opt ''flag_name'' (map_option PStr (flag_name x)) @
      opt ''config_key'' (map_option PStr (config_key x)) @
      opt ''config_value'' (map_option PStr (config_value x)))"

definition format_playbook_candidate :: "PyStd \<Rightarrow> RemediationPlan option \<Rightarrow> PyExc + string" where
  "format_playbook_candidate std pb =
     (case pb of
        None \<Rightarrow> Inr ''None matched.''
      | Some p \<Rightarrow>
          bindE (json_dumps std (PDict (params_dump (params p)))) (\<lambda>j. Inr (lines_of [
            ''Playbook ID: '' @ (if given (playbook_id p) then the (playbook_id p) else ''unknown''),
            ''Recommended Action: '' @ action_value (action p),
            ''Parameters: '' @ j,
            ''Declared Blast Set: '' @ (let b = join '', '' (declared_blast_set p) in if b \<noteq> [] then b else ''none''),
            ''Rationale: '' @ rationale p])))"

definition format_incident_context :: "PyStd \<Rightarrow> IncidentContext \<Rightarrow> RemediationPlan option \<Rightarrow> PyExc + string" where
  "format_incident_context std ctx pb =
     (let cls = (case inferred_failure_class ctx of Some f \<Rightarrow> failure_class_value f | None \<Rightarrow> ''Unknown'') in
      bindE (format_alert std (ctx_alert ctx)) (\<lambda>alert.
      bindE (format_playbook_candidate std pb) (\<lambda>playbook.
      Inr (join [newline, newline] [
        lines_of [''=== INCIDENT IDENTIFIER ==='', ''Incident ID: '' @ ctx_incident_id ctx,
          ''Gathered At: '' @ std_isoformat std (gathered_at ctx)],
        lines_of [''=== INFERRED FAILURE CLASS ==='', cls],
        lines_of [''=== ACTIVE ALERT ==='', alert],
        lines_of [''=== ERROR SIGNATURES (LOGS) ==='', format_signatures std (ctx_signatures ctx)],
        lines_of [''=== METRICS TELEMETRY ==='', format_metrics std (ctx_metrics_window ctx)],
        lines_of [''=== RECENT DEPLOYMENTS (GITHUB) ==='', format_deploys std (recent_deploys ctx)],
        lines_of [''=== DEPENDENCY GRAPH ==='', format_dependency_graph ctx],
        lines_of [''=== PLAYBOOK MATCH CANDIDATE ==='', playbook]]))))"

section \<open>The two messages\<close>

type_synonym messages = "(string \<times> string) list"

definition build_system_prompt :: "string \<Rightarrow> string" where
  \<open>build_system_prompt schema_json = lines_of [
      ''You are the Autonomous Remediation Planner for Understudy.'',
      ''Your task is to analyze incident diagnostics and generate candidate remediation plans.'',
      [],
      ''CLOSED ACTION ENUMERATION:'',
      ''You must ONLY select actions from the following closed enum. Unlisted actions are forbidden:'',
      ''1. "rollback_deploy":'',
      ''   - Description: Roll back a service Deployment to a prior commit SHA and image digest.'',
      ''   - Parameters: workload (service name), target_commit (the Git commit SHA to roll back to).'',
      ''   - Rules: target_commit MUST be chosen from recent deployments. Target the service that was'',
      ''     deployed.'',
      ''   - Inverse: Roll forward to the current pre-incident commit.'',
      ''2. "restart_workload":'',
      ''   - Description: Trigger a rolling restart of all pods for the specified workload Deployment.'',
      ''   - Parameters: workload (service name).'',
      ''   - Inverse: Another rolling restart, or null if idempotent.'',
      ''3. "scale_workload":'',
      ''   - Description: Scale a workload Deployment by a replica delta.'',
      ''   - Parameters: workload (service name), replica_delta (integer delta, e.g. +1, +2, -1).'',
      ''     Cannot scale to 0.'',
      ''   - Inverse: Scale back by the opposite replica delta (-replica_delta).'',
      ''4. "disable_flag":'',
      ''   - Description: Disable an active feature flag in service configuration.'',
      ''   - Parameters: workload (service name), flag_name (name of the feature flag).'',
      ''   - Inverse: Re-enable the feature flag.'',
      ''5. "revert_config":'',
      ''   - Description: Revert a configuration key in a ConfigMap back to its prior value.'',
      ''   - Parameters: workload (service name), config_key (key name), config_value (prior value).'',
      ''   - Inverse: Re-apply the modified configuration key and value.'',
      ''6. "no_action":'',
      ''   - Description: Explicitly take no action when intervention is dangerous or unnecessary.'',
      ''   - Parameters: workload (primary alert service).'',
      ''   - Inverse: null.'',
      [],
      ''SAFETY AND FORMAL INVARIANT REQUIREMENTS:'',
      ''- Target Workload: Must be an existing service named in the Dependency Graph or Alert.'',
      ''  If an entrypoint service (like edge-gateway) is alerting due to failure or latency in a'',
      ''  recently deployed downstream service (e.g. data-service), candidate plans (especially'',
      ''  rollback_deploy) should target the recently deployed downstream service.'',
      ''- Declared Blast Set: For a target workload T, declared_blast_set MUST be a subset of {T} and'',
      ''  the upstream services that depend on T (callers of T) in the dependency graph. Do NOT include'',
      ''  downstream services that T calls. For example, for 'data-service', callers include'',
      ''  'edge-gateway' and 'auth-service', so ['data-service', 'edge-gateway'] is valid. For'',
      ''  'edge-gateway' (which has no callers), declared_blast_set must be ONLY ['edge-gateway'].'',
      ''- Reversibility: Every plan except "no_action" is reversible. Understudy synthesizes'',
      ''  all inverse plans deterministically per ADR-016. For "no_action", the inverse field is null.'',
      ''- Diversity: When asked for N candidates, generate diverse, distinct hypotheses (e.g. rollback'',
      ''  vs scale vs restart vs config revert) rather than minor variations of the same action.'',
      ''- Playbook Match: If a playbook match candidate is provided, evaluate whether it fits the'',
      ''  observed error signatures and incorporate or adapt it as one candidate if viable.'',
      ''- Deployments: If recent deployments are present in the incident diagnostics, at least one'',
      ''  candidate MUST be a "rollback_deploy" targeting "data-service" (or the specific downstream'',
      ''  service whose deployment caused the regression) to a preceding commit from recent deployments,'',
      ''  with declared_blast_set including ["data-service", "edge-gateway"].'',
      [],
      ''OUTPUT FORMAT:'',
      ''You must respond with valid JSON conforming exactly to the following JSON schema:'',
      schema_json,
      [],
      ''CRITICAL RULES:'',
      ''- Output valid JSON ONLY.'',
      ''- Do NOT wrap your output in conversational text, preamble, or postscript.'',
      ''- Do NOT propose arbitrary bash commands, scripts, or manual operator instructions.'',
      ''- Ensure all property names match the schema exactly.'',
      []]\<close>

definition build_user_prompt :: "PyStd \<Rightarrow> IncidentContext \<Rightarrow> int \<Rightarrow> RemediationPlan option \<Rightarrow> PyExc + string" where
  \<open>build_user_prompt std ctx n pb = bindE (format_incident_context std ctx pb) (\<lambda>serialized.
     Inr (lines_of [
      ''The following incident has been detected in the production environment.'',
      [],
      serialized,
      [],
      ''INSTRUCTION:'',
      fstr [''Generate exactly '', int_str n, '' distinct, viable, and diverse candidate remediation plans.''],
      ''Each candidate must belong to the closed action enum. Inverses are synthesized deterministically.'',
      ''Output the response as a JSON object matching the required schema with the "plans" array.'',
      []]))\<close>

definition render_candidate_generation_prompt ::
    "PyStd \<Rightarrow> string \<Rightarrow> IncidentContext \<Rightarrow> int \<Rightarrow> RemediationPlan option \<Rightarrow> PyExc + messages" where
  "render_candidate_generation_prompt std schema_json ctx n pb =
     bindE (build_user_prompt std ctx n pb) (\<lambda>user.
       Inr [(''system'', build_system_prompt schema_json), (''user'', user)])"

end
