(* ===== verification/Text.thy ===== *)
theory Text
  imports Prelude
begin

text \<open>
  String operations of the standard library that several components use, with the lemmas they share:
  decimal numerals, splitting at a separator, replacing, collapsing and stripping characters.
\<close>

section \<open>Numerals\<close>

definition py_digit :: "char \<Rightarrow> bool" where
  "py_digit c \<longleftrightarrow> 48 \<le> (of_char c :: nat) \<and> (of_char c :: nat) \<le> 57"

fun digits_value :: "string \<Rightarrow> nat \<Rightarrow> nat" where
  "digits_value [] acc = acc"
| "digits_value (c # s) acc = digits_value s (acc * 10 + (of_char c - 48))"

lemma digits_value_append: "digits_value (s @ t) acc = digits_value t (digits_value s acc)"
  by (induction s arbitrary: acc) auto

lemma digits_value_nat_str: "digits_value (nat_str n) 0 = n"
proof (induction n rule: nat_str.induct)
  case (1 n)
  show ?case
  proof (cases "n < 10")
    case True
    then show ?thesis by (subst nat_str.simps) (simp add: of_char_of)
  next
    case False
    have "(48 + n mod 10) mod 256 = 48 + n mod 10" by simp
    then show ?thesis using 1 [OF False] False
      by (subst nat_str.simps) (simp add: digits_value_append of_char_of)
  qed
qed

lemma nat_str_inj [simp]: "nat_str m = nat_str n \<longleftrightarrow> m = n"
  by (metis digits_value_nat_str)

lemma py_digit_of:
  fixes n :: nat
  assumes "n < 10"
  shows "py_digit (char_of (48 + n))"
proof -
  have "(48 + n) mod 256 = 48 + n" using assms by simp
  then show ?thesis using assms by (simp add: py_digit_def of_char_of)
qed

lemma nat_str_digits: "list_all py_digit (nat_str n)"
proof (induction n rule: nat_str.induct)
  case (1 n)
  then show ?case by (subst nat_str.simps) (auto simp: py_digit_of)
qed

lemma nat_str_not_Nil [simp]: "nat_str n \<noteq> []"
  by (subst nat_str.simps) auto

lemma int_str_nat: "0 \<le> i \<Longrightarrow> int_str i = nat_str (nat i)"
  by (simp add: int_str_def)

section \<open>Splitting at the last separator\<close>

definition before_last :: "char \<Rightarrow> string \<Rightarrow> string" where
  "before_last c s = rev (drop 1 (dropWhile (\<lambda>x. x \<noteq> c) (rev s)))"

definition after_last :: "char \<Rightarrow> string \<Rightarrow> string" where
  "after_last c s = rev (takeWhile (\<lambda>x. x \<noteq> c) (rev s))"

lemma split_last:
  assumes "c \<notin> set t"
  shows "before_last c (s @ c # t) = s" "after_last c (s @ c # t) = t"
proof -
  have "takeWhile (\<lambda>x. x \<noteq> c) (rev t @ c # rev s) = rev t" "dropWhile (\<lambda>x. x \<noteq> c) (rev t @ c # rev s) = c # rev s"
    using assms takeWhile_append2 [of "rev t" "\<lambda>x. x \<noteq> c" "c # rev s"]
      dropWhile_append2 [of "rev t" "\<lambda>x. x \<noteq> c" "c # rev s"] by fastforce+
  then show "before_last c (s @ c # t) = s" "after_last c (s @ c # t) = t"
    by (simp_all add: before_last_def after_last_def)
qed

text \<open>\<open>s.split(c)\<close> and \<open>s.removeprefix(p)\<close>\<close>

fun split_char :: "char \<Rightarrow> string \<Rightarrow> string list" where
  "split_char c [] = [[]]"
| "split_char c (x # s) =
     (if x = c then [] # split_char c s
      else (case split_char c s of [] \<Rightarrow> [[x]] | p # ps \<Rightarrow> (x # p) # ps))"

definition remove_prefix :: "string \<Rightarrow> string \<Rightarrow> string" where
  "remove_prefix p s = (if startswith s p then drop (length p) s else s)"

text \<open>\<open>str.isalnum\<close> of a character below 256, and the word characters of regular expressions.\<close>

definition py_alnum :: "char \<Rightarrow> bool" where
  "py_alnum c = (let n = (of_char c :: nat) in
     (48 \<le> n \<and> n \<le> 57) \<or> (65 \<le> n \<and> n \<le> 90) \<or> (97 \<le> n \<and> n \<le> 122) \<or>
     (192 \<le> n \<and> n \<noteq> 215 \<and> n \<noteq> 247) \<or> n \<in> {170, 178, 179, 181, 185, 186, 188, 189, 190})"

definition word_char :: "char \<Rightarrow> bool" where
  "word_char c \<longleftrightarrow> py_alnum c \<or> c = CHR ''_''"

text \<open>\<open>re.search(rf"\b{re.escape(w)}\b", s)\<close> of a text that begins and ends in word characters: an occurrence that no
  word character touches.\<close>

fun word_at :: "string \<Rightarrow> bool \<Rightarrow> string \<Rightarrow> bool" where
  "word_at w after [] = False"
| "word_at w after (c # s) =
     ((\<not> after \<and> startswith (c # s) w \<and> (case drop (length w) (c # s) of [] \<Rightarrow> True | d # r \<Rightarrow> \<not> word_char d)) \<or>
      word_at w (word_char c) s)"

section \<open>Characters replaced, collapsed, stripped\<close>

definition replace_char :: "char \<Rightarrow> char \<Rightarrow> string \<Rightarrow> string" where
  "replace_char a b s = map (\<lambda>c. if c = a then b else c) s"

text \<open>\<open>re.sub("c{2,}", "c", s)\<close>\<close>

fun collapse :: "char \<Rightarrow> string \<Rightarrow> string" where
  "collapse c (x # y # s) = (if x = c \<and> y = c then collapse c (y # s) else x # collapse c (y # s))"
| "collapse c s = s"

definition lstrip_char :: "char \<Rightarrow> string \<Rightarrow> string" where
  "lstrip_char c s = dropWhile (\<lambda>x. x = c) s"

definition strip_char :: "char \<Rightarrow> string \<Rightarrow> string" where
  "strip_char c s = rstrip_char c (lstrip_char c s)"

lemma set_collapse: "set (collapse c s) \<subseteq> set s"
  by (induction c s rule: collapse.induct) auto

lemma set_rstrip: "set (rstrip_char c s) \<subseteq> set s"
  using set_dropWhileD unfolding rstrip_char_def by fastforce

lemma set_strip_char: "set (strip_char c s) \<subseteq> set s"
  using set_rstrip [of c "lstrip_char c s"] set_dropWhileD unfolding strip_char_def lstrip_char_def by fastforce

lemma set_py_strip: "set (py_strip s) \<subseteq> set s"
  unfolding py_strip_def by (auto dest!: set_dropWhileD)

lemma rstrip_last: "rstrip_char c s \<noteq> [] \<Longrightarrow> last (rstrip_char c s) \<noteq> c"
  unfolding rstrip_char_def using hd_dropWhile [of "\<lambda>x. x = c" "rev s"] by (simp add: last_rev)

lemma rstrip_prefix: "\<exists>t. s = rstrip_char c s @ t"
  unfolding rstrip_char_def
  by (metis rev_append rev_rev_ident takeWhile_dropWhile_id)

lemma rstrip_hd: "rstrip_char c s \<noteq> [] \<Longrightarrow> hd (rstrip_char c s) = hd s"
  using rstrip_prefix [of s c] by (metis hd_append)

lemma strip_char_edges:
  assumes "strip_char c s \<noteq> []"
  shows "hd (strip_char c s) \<noteq> c" "last (strip_char c s) \<noteq> c"
proof -
  let ?u = "lstrip_char c s"
  have "?u \<noteq> []" using assms by (auto simp: strip_char_def rstrip_char_def)
  then have "hd ?u \<noteq> c" using hd_dropWhile [of "\<lambda>x. x = c" s] by (simp add: lstrip_char_def)
  then show "hd (strip_char c s) \<noteq> c" using assms rstrip_hd by (simp add: strip_char_def)
  show "last (strip_char c s) \<noteq> c" using assms rstrip_last by (simp add: strip_char_def)
qed

lemma strip_char_length: "length (strip_char c s) \<le> length s"
proof -
  have "length (rstrip_char c t) \<le> length t" for t
    using rstrip_prefix [of t c] by (metis le_add1 length_append)
  then show ?thesis
    unfolding strip_char_def lstrip_char_def by (meson le_trans length_dropWhile_le)
qed

text \<open>Only characters that are stripped are lost.\<close>

lemma strip_char_keeps:
  assumes "x \<in> set s" "x \<noteq> c"
  shows "strip_char c s \<noteq> []"
proof -
  have "x \<in> set (lstrip_char c s)" using assms by (induction s) (auto simp: lstrip_char_def)
  then have "x \<in> set (rev (lstrip_char c s))" by simp
  then have "dropWhile (\<lambda>x. x = c) (rev (lstrip_char c s)) \<noteq> []" using assms(2) by (auto simp: dropWhile_eq_Nil_conv)
  then show ?thesis by (simp add: strip_char_def rstrip_char_def)
qed

section \<open>Dicts\<close>

text \<open>\<open>{**d, **kvs}\<close>\<close>

definition dict_merge :: "('k \<times> 'v) list \<Rightarrow> ('k \<times> 'v) list \<Rightarrow> ('k \<times> 'v) list" where
  "dict_merge d kvs = foldl (\<lambda>d kv. dict_put (fst kv) (snd kv) d) d kvs"

lemma map_of_dict_merge: "map_of (dict_merge d kvs) = map_of d ++ map_of (rev kvs)"
  by (simp add: dict_merge_def map_of_foldl_dict_put)

end
