(* ===== verification/Planner.thy ===== *)
theory Planner
  imports Prompt Facts Text
begin

text \<open>
  Candidate plans (\<^verbatim>\<open>src/understudy/planner/validate.py\<close>): the rules on a reply, the normalisation of a
  plan against the live environment, where a plan that names something that does not exist is dropped
  and never repaired, the do-nothing candidate, the loop that asks the model again, and the planner
  over the completion service.
\<close>

section \<open>The rules on a reply\<close>

definition schema_error :: "string list \<Rightarrow> PyExc + 'a" where
  "schema_error parts = Inl (Raised ''PlannerSchemaValidationError'' (fstr parts))"

lemma schema_error_simps [simp]: "schema_error parts \<noteq> Inr x" "Inr x \<noteq> schema_error parts"
  by (simp_all add: schema_error_def)

definition at_index :: "nat \<Rightarrow> string" where
  "at_index i = ''Candidate at index '' @ int_str (int i)"

definition validate_rollback_deploy_params :: "PromptCandidatePlan \<Rightarrow> nat \<Rightarrow> PyExc + unit" where
  "validate_rollback_deploy_params c i =
     (if given (target_commit (pc_params c)) then Inr ()
      else schema_error [at_index i, '' (rollback_deploy) requires target_commit''])"

definition validate_scale_workload_params :: "PromptCandidatePlan \<Rightarrow> nat \<Rightarrow> PyExc + unit" where
  "validate_scale_workload_params c i =
     (if replica_delta (pc_params c) = None \<or> replica_delta (pc_params c) = Some 0
      then schema_error [at_index i, '' (scale_workload) requires non-zero replica_delta'']
      else Inr ())"

definition validate_disable_flag_params :: "PromptCandidatePlan \<Rightarrow> nat \<Rightarrow> PyExc + unit" where
  "validate_disable_flag_params c i =
     (if given (flag_name (pc_params c)) then Inr ()
      else schema_error [at_index i, '' (disable_flag) requires flag_name''])"

definition validate_revert_config_params :: "PromptCandidatePlan \<Rightarrow> nat \<Rightarrow> PyExc + unit" where
  "validate_revert_config_params c i =
     (if \<not> given (config_key (pc_params c)) \<or> config_value (pc_params c) = None
      then schema_error [at_index i, '' (revert_config) requires config_key and config_value'']
      else Inr ())"

definition action_param_validator :: "ActionType \<Rightarrow> PromptCandidatePlan \<Rightarrow> nat \<Rightarrow> PyExc + unit" where
  "action_param_validator a c i =
     (case a of
        ROLLBACK_DEPLOY \<Rightarrow> validate_rollback_deploy_params c i
      | SCALE_WORKLOAD \<Rightarrow> validate_scale_workload_params c i
      | DISABLE_FLAG \<Rightarrow> validate_disable_flag_params c i
      | REVERT_CONFIG \<Rightarrow> validate_revert_config_params c i
      | _ \<Rightarrow> Inr ())"

definition validate_candidate_schema :: "PromptCandidatePlan \<Rightarrow> nat \<Rightarrow> bool \<Rightarrow> PyExc + unit" where
  "validate_candidate_schema c i require_inverse =
     (if py_strip (pc_rationale c) = [] then schema_error [at_index i, '' has empty rationale'']
      else
        (let checked =
           (if pc_action c = NO_ACTION then
              (if pc_inverse c \<noteq> None then
                 schema_error [at_index i, '' is no_action but declares non-null inverse'']
               else if pc_declared_blast_set c \<noteq> [] then
                 schema_error [at_index i, '' is no_action but declares non-empty blast set'']
               else Inr ())
            else if require_inverse \<and> pc_inverse c = None then
              schema_error [at_index i, '' ('', action_value (pc_action c), '') requires a non-null inverse plan'']
            else if workload (pc_params c) = [] then
              schema_error [at_index i, '' ('', action_value (pc_action c), '') requires non-empty workload'']
            else Inr ()) in
         bindE checked (\<lambda>_. action_param_validator (pc_action c) c i)))"

datatype RawPayload = RawText string | RawDict "(string \<times> PyVal) list" | RawResponse PlannerPromptResponse

fun parse_payload :: "PlannerLib \<Rightarrow> RawPayload \<Rightarrow> PyExc + PlannerPromptResponse" where
  "parse_payload lib (RawText s) =
     (case parse_raw_planner_json lib s of
        Inl (Raised _ msg) \<Rightarrow> schema_error [''Schema validation failed during JSON parsing: '', msg]
      | r \<Rightarrow> r)"
| "parse_payload lib (RawDict d) =
     (case model_validate_response lib (PDict d) of
        Inl msg \<Rightarrow> schema_error [''Schema validation failed on dictionary payload: '', msg]
      | Inr r \<Rightarrow> Inr r)"
| "parse_payload lib (RawResponse r) = Inr r"

definition validate_and_parse_plans :: "PlannerLib \<Rightarrow> RawPayload \<Rightarrow> bool \<Rightarrow> PyExc + RemediationPlan list" where
  "validate_and_parse_plans lib raw require_inverse =
     bindE (parse_payload lib raw) (\<lambda>cands.
       if cands = [] then schema_error [''Planner response contained empty plans array'']
       else mapE (\<lambda>(i, c). bindE (validate_candidate_schema c i require_inverse) (\<lambda>_.
         Inr (prompt_candidate_to_remediation_plan c i))) (enumerate 0 cands))"

section \<open>What the environment knows\<close>

definition resolve_commit_ref :: "string option \<Rightarrow> DeployRef list \<Rightarrow> string option \<Rightarrow> string option" where
  "resolve_commit_ref commit_ref deploys w =
     (case commit_ref of
        None \<Rightarrow> None
      | Some c \<Rightarrow>
          (let ref = py_strip c in
           if ref = [] then None
           else case find_rollback_target ref deploys of
             None \<Rightarrow> None
           | Some d \<Rightarrow>
               (case w of
                  None \<Rightarrow> Some (commit_sha d)
                | Some svc \<Rightarrow> if given (map_of (image_digests d) svc) then Some (commit_sha d) else None)))"

definition resolve_workload_name :: "string \<Rightarrow> string list \<Rightarrow> string option" where
  "resolve_workload_name w valid =
     (if w \<noteq> [] \<and> py_strip w \<in> set valid then Some (py_strip w) else None)"

definition callers_of :: "DependencyGraphSnapshot \<Rightarrow> (string \<times> string list) list" where
  "callers_of snap = map (\<lambda>n. (n, uniq (map edge_source (filter (\<lambda>e. edge_target e = n) (snap_edges snap)))))
     (uniq (snap_nodes snap))"

definition blast_set_validity_snapshot :: "string list \<Rightarrow> string \<Rightarrow> DependencyGraphSnapshot \<Rightarrow> bool" where
  "blast_set_validity_snapshot declared target snap =
     (if target \<noteq> [] \<and> target \<notin> set (snap_nodes snap) then False
      else
        (let adj = callers_of snap; visited = closure_loop adj (succs adj target) [];
             allowable = (if target \<noteq> [] then target # visited else []) in
         set declared \<subseteq> set (snap_nodes snap) \<and> set declared \<subseteq> set allowable))"

definition blast_set_validity_graph :: "string list \<Rightarrow> string \<Rightarrow> ServiceGraph \<Rightarrow> bool" where
  "blast_set_validity_graph declared target g =
     (if target \<noteq> [] \<and> target \<notin> set (sg_nodes g) then False
      else case (if target \<noteq> [] then reachable_set g target else Inr []) of
        Inl e \<Rightarrow> False
      | Inr reachable \<Rightarrow>
          (let allowable = (if target \<noteq> [] then target # reachable else []) in
           set declared \<subseteq> set (sg_nodes g) \<and> set declared \<subseteq> set allowable))"

section \<open>Normalisation\<close>

definition valid_workloads :: "IncidentContext \<Rightarrow> string list option \<Rightarrow> string list" where
  "valid_workloads ctx cluster = (case cluster of Some ws \<Rightarrow> ws | None \<Rightarrow> snap_nodes (dependency_graph ctx))"

text \<open>The inverse a plan brings with it is checked, and its commit resolved, before it is replaced.\<close>

definition normalise_given_inverse ::
    "RemediationPlan \<Rightarrow> IncidentContext \<Rightarrow> string list \<Rightarrow> RemediationPlan option option" where
  "normalise_given_inverse p ctx valid =
     (case inverse p of
        None \<Rightarrow> Some None
      | Some q \<Rightarrow>
          (let w = workload (params q) in
           if w \<noteq> [] \<and> w \<notin> set valid then None
           else if action q = ROLLBACK_DEPLOY \<and> given (target_commit (params q)) then
             (case resolve_commit_ref (target_commit (params q)) (recent_deploys ctx) (Some w) of
                None \<Rightarrow> None
              | Some c \<Rightarrow> Some (Some (with_params ((params q)\<lparr>target_commit := Some c\<rparr>) q)))
           else Some (Some q)))"

definition normalise_plan ::
    "RemediationPlan \<Rightarrow> IncidentContext \<Rightarrow> string list option \<Rightarrow> RemediationPlan option" where
  "normalise_plan p ctx cluster =
     (let valid = valid_workloads ctx cluster; w = workload (params p) in
      if action p = NO_ACTION then
        (if declared_blast_set p \<noteq> [] then None
         else if w \<noteq> [] \<and> w \<notin> set valid then None
         else Some p)
      else case resolve_workload_name w valid of
        None \<Rightarrow> None
      | Some rw \<Rightarrow>
          if \<not> list_all (\<lambda>r. ref_name r \<in> set valid) (target_resources p) then None
          else
            (let commit = (if action p = ROLLBACK_DEPLOY
               then resolve_commit_ref (target_commit (params p)) (recent_deploys ctx) (Some rw)
               else target_commit (params p)) in
             if action p = ROLLBACK_DEPLOY \<and> commit = None then None
             else if \<not> blast_set_validity_snapshot (declared_blast_set p) rw (dependency_graph ctx) then None
             else case normalise_given_inverse p ctx valid of
               None \<Rightarrow> None
             | Some inv0 \<Rightarrow>
                 (let ps = (params p)\<lparr>workload := rw, target_commit := commit\<rparr> in
                  case synthesize_inverse (with_inverse inv0 (with_params ps p)) (Some ctx) None None (Some valid) None of
                    Inl e \<Rightarrow> None
                  | Inr q \<Rightarrow> Some (with_inverse q (with_params ps p)))))"

definition create_no_action_plan ::
    "IncidentContext \<Rightarrow> nat \<Rightarrow> string list option \<Rightarrow> RemediationPlan" where
  "create_no_action_plan ctx idx cluster =
     (let valid = valid_workloads ctx cluster; svc = alert_service (ctx_alert ctx);
          w = (if svc \<in> set valid then svc else if valid \<noteq> [] then hd (sort valid)
               else if svc \<noteq> [] then svc else ''data-service'') in
      RemediationPlan (cand_id idx) (int idx) NO_ACTION (workload_params w) [] [] None
        ''Maintain current state without automated mutation'' Planner None)"

definition ensure_no_action_candidate ::
    "RemediationPlan list \<Rightarrow> IncidentContext \<Rightarrow> string list option \<Rightarrow> RemediationPlan list" where
  "ensure_no_action_candidate plans ctx cluster =
     (if list_ex (\<lambda>p. action p = NO_ACTION) plans then plans
      else plans @ [create_no_action_plan ctx (length plans) cluster])"

definition reindex_plan :: "nat \<Rightarrow> RemediationPlan \<Rightarrow> RemediationPlan" where
  "reindex_plan i p =
     with_inverse (map_option (with_id_index (cand_id i @ ''_inv'') (int i)) (inverse p))
       (with_id_index (cand_id i) (int i) p)"

definition surviving_plans ::
    "RemediationPlan list \<Rightarrow> IncidentContext \<Rightarrow> string list option \<Rightarrow> RemediationPlan list" where
  "surviving_plans plans ctx cluster = List.map_filter (\<lambda>p. normalise_plan p ctx cluster) plans"

definition normalise_plans ::
    "RemediationPlan list \<Rightarrow> IncidentContext \<Rightarrow> string list option \<Rightarrow> bool \<Rightarrow> RemediationPlan list" where
  "normalise_plans plans ctx cluster ensure_no_action =
     (let reindexed = map (\<lambda>(i, p). reindex_plan i p) (enumerate 0 (surviving_plans plans ctx cluster)) in
      if ensure_no_action then ensure_no_action_candidate reindexed ctx cluster else reindexed)"

section \<open>Asking the model\<close>

definition feedback_message :: "string \<Rightarrow> string" where
  "feedback_message msg = fstr [''Your previous response had schema validation errors:'', [newline], msg, [newline],
     ''Please correct the errors and output ONLY valid JSON conforming strictly to the schema.'']"

text \<open>The attempts that are left; the last argument is the text of the last error.\<close>

fun attempt_loop ::
    "(messages \<Rightarrow> ('c, string) act) \<Rightarrow> PlannerLib \<Rightarrow> IncidentContext \<Rightarrow> string list option \<Rightarrow> int \<Rightarrow> nat \<Rightarrow>
     messages \<Rightarrow> string \<Rightarrow> ('c, RemediationPlan list) act" where
  "attempt_loop caller lib ctx cluster max_retries 0 msgs last_error =
     araise (Raised ''PlannerError'' (fstr [''Planner failed schema validation after '', int_str max_retries,
       '' retries: '', last_error]))"
| "attempt_loop caller lib ctx cluster max_retries (Suc left) msgs last_error = (\<lambda>h.
     case caller msgs h of
       (Inl (Raised c t), h') \<Rightarrow>
         if isinstance c ''PlannerError'' then attempt_loop caller lib ctx cluster max_retries left msgs t h'
         else (Inl (Raised c t), h')
     | (Inl e, h') \<Rightarrow> (Inl e, h')
     | (Inr raw, h') \<Rightarrow>
         (case validate_and_parse_plans lib (RawText raw) False of
            Inr plans \<Rightarrow>
              (Inr (ensure_no_action_candidate (normalise_plans plans ctx cluster False) ctx cluster), h')
          | Inl (Raised c t) \<Rightarrow>
              attempt_loop caller lib ctx cluster max_retries left
                (if 0 < left then msgs @ [(''assistant'', raw), (''user'', feedback_message t)] else msgs) t h'
          | Inl e \<Rightarrow> (Inl e, h')))"

definition generate_candidates_with_retry ::
    "PyStd \<Rightarrow> string \<Rightarrow> (messages \<Rightarrow> ('c, string) act) \<Rightarrow> PlannerLib \<Rightarrow> IncidentContext \<Rightarrow> int \<Rightarrow> int \<Rightarrow>
     string list option \<Rightarrow> RemediationPlan option \<Rightarrow> ('c, RemediationPlan list) act" where
  "generate_candidates_with_retry std schema_json caller lib ctx n max_retries cluster playbook =
     abind (alift (render_candidate_generation_prompt std schema_json ctx n playbook)) (\<lambda>msgs.
       attempt_loop caller lib ctx cluster max_retries (nat (max_retries + 1)) msgs ''None'')"

section \<open>The completion service\<close>

record LlmSettings =
  openrouter_api_key :: "string option"
  openrouter_base_url :: string
  llm_model :: string
  llm_timeout_seconds :: rat

record LlmRequest =
  lr_url :: string
  lr_authorization :: string
  lr_model :: string
  lr_messages :: messages
  lr_timeout :: rat

record LlmResponse =
  status_code :: int
  resp_text :: string
  resp_json :: "string + PyVal"

text \<open>\<open>data.get\<close> on a value that is no dict is an \<open>AttributeError\<close>.\<close>

definition py_dict_get :: "PyVal \<Rightarrow> string \<Rightarrow> PyVal \<Rightarrow> PyExc + PyVal" where
  "py_dict_get v k dflt =
     (case v of PDict d \<Rightarrow> Inr (case map_of d k of Some x \<Rightarrow> x | None \<Rightarrow> dflt)
      | _ \<Rightarrow> Inl (Raised ''AttributeError'' ''object has no attribute get''))"

definition completion_text :: "LlmResponse \<Rightarrow> PyExc + string" where
  "completion_text resp =
     (if status_code resp \<noteq> 200 then
        planner_error [''OpenRouter API returned error status '', int_str (status_code resp), '': '', resp_text resp]
      else case resp_json resp of
        Inl msg \<Rightarrow> Inl (Raised ''JSONDecodeError'' msg)
      | Inr data \<Rightarrow>
          bindE (py_dict_get data ''choices'' PNone) (\<lambda>choices.
            (case choices of
               PColl (choice # _) \<Rightarrow>
                 (case choice of
                    PDict d \<Rightarrow>
                      bindE (py_dict_get choice ''message'' (PDict [])) (\<lambda>message.
                      bindE (py_dict_get message ''content'' (PStr [])) (\<lambda>content.
                        case content of PStr s \<Rightarrow> Inr s
                        | _ \<Rightarrow> planner_error [''OpenRouter response message content is not a string'']))
                  | _ \<Rightarrow> planner_error [''OpenRouter choice item is not an object''])
             | _ \<Rightarrow> planner_error [''OpenRouter response missing choices array''])))"

definition call_llm ::
    "LlmSettings \<Rightarrow> (LlmRequest \<Rightarrow> LlmRequest trace \<Rightarrow> PyExc + LlmResponse) \<Rightarrow> messages \<Rightarrow> (LlmRequest, string) act" where
  "call_llm cfg post msgs =
     (if \<not> given (openrouter_api_key cfg) then
        alift (planner_error [''OPENROUTER_API_KEY is not configured in settings or environment''])
      else
        (let req = \<lparr>lr_url = rstrip_char (CHR ''/'') (openrouter_base_url cfg) @ ''/chat/completions'',
               lr_authorization = ''Bearer '' @ the (openrouter_api_key cfg), lr_model = llm_model cfg,
               lr_messages = msgs, lr_timeout = llm_timeout_seconds cfg\<rparr> in
         abind (acall req (post req)) (\<lambda>resp. alift (completion_text resp))))"

text \<open>\<open>LLMPlanner.generate_candidates\<close> without an injected caller.\<close>

definition generate_candidates ::
    "PyStd \<Rightarrow> string \<Rightarrow> PlannerLib \<Rightarrow> LlmSettings \<Rightarrow> (LlmRequest \<Rightarrow> LlmRequest trace \<Rightarrow> PyExc + LlmResponse) \<Rightarrow>
     int \<Rightarrow> string list option \<Rightarrow> IncidentContext \<Rightarrow> int \<Rightarrow> RemediationPlan option \<Rightarrow>
     (LlmRequest, RemediationPlan list) act" where
  "generate_candidates std schema_json lib cfg post max_retries cluster ctx n playbook =
     generate_candidates_with_retry std schema_json (call_llm cfg post) lib ctx n max_retries cluster playbook"

section \<open>What survives normalisation\<close>

definition caller_rel :: "DependencyGraphSnapshot \<Rightarrow> (string \<times> string) set" where
  "caller_rel snap = {(t, s). t \<in> set (snap_nodes snap) \<and>
     (\<exists>e \<in> set (snap_edges snap). edge_target e = t \<and> edge_source e = s)}"

lemma succs_callers_of:
  "y \<in> set (succs (callers_of snap) x) \<longleftrightarrow> (x, y) \<in> caller_rel snap"
proof (cases "x \<in> set (snap_nodes snap)")
  case True
  then have "succs (callers_of snap) x = uniq (map edge_source (filter (\<lambda>e. edge_target e = x) (snap_edges snap)))"
    by (simp add: callers_of_def succs_def map_of_map_Pair)
  then show ?thesis using True by (auto simp: caller_rel_def image_iff)
next
  case False
  then show ?thesis by (simp add: callers_of_def succs_def map_of_map_Pair caller_rel_def)
qed

lemma edge_rel_callers_of: "edge_rel (callers_of snap) = caller_rel snap"
  by (auto simp: edge_rel_def succs_callers_of)

lemma blast_valid_iff:
  "w \<noteq> [] \<Longrightarrow> blast_set_validity_snapshot declared w snap \<longleftrightarrow>
     w \<in> set (snap_nodes snap) \<and> set declared \<subseteq> set (snap_nodes snap) \<and>
     set declared \<subseteq> {w} \<union> {s. (w, s) \<in> (caller_rel snap)\<^sup>+}"
  by (auto simp: blast_set_validity_snapshot_def Let_def closure_from_succs edge_rel_callers_of)

lemma find_rollback_target_in: "find_rollback_target tc deploys = Some d \<Longrightarrow> d \<in> set deploys"
  by (metis find_Some_set find_rollback_target_def)

lemma resolve_commit_Some:
  assumes "resolve_commit_ref c deploys (Some w) = Some sha"
  shows "\<exists>d \<in> set deploys. sha = commit_sha d \<and> given (map_of (image_digests d) w)"
proof -
  obtain tc where "c = Some tc" using assms by (cases c) (auto simp: resolve_commit_ref_def)
  moreover obtain d where "find_rollback_target (py_strip tc) deploys = Some d"
    using assms calculation by (auto simp: resolve_commit_ref_def Let_def split: if_splits option.splits)
  ultimately show ?thesis using assms find_rollback_target_in
    by (fastforce simp: resolve_commit_ref_def Let_def split: if_splits)
qed

lemma normalise_no_action:
  "action p = NO_ACTION \<Longrightarrow> normalise_plan p ctx cluster = Some q \<Longrightarrow> q = p \<and> declared_blast_set p = []"
  by (auto simp: normalise_plan_def Let_def split: if_splits)

lemma normalise_Some:
  assumes "normalise_plan p ctx cluster = Some q" "action p \<noteq> NO_ACTION"
  obtains rw commit i where "rw \<in> set (valid_workloads ctx cluster)"
    "\<forall>r \<in> set (target_resources p). ref_name r \<in> set (valid_workloads ctx cluster)"
    "action p = ROLLBACK_DEPLOY \<Longrightarrow> commit \<noteq> None"
    "action p = ROLLBACK_DEPLOY \<Longrightarrow> resolve_commit_ref (target_commit (params p)) (recent_deploys ctx) (Some rw) = commit"
    "blast_set_validity_snapshot (declared_blast_set p) rw (dependency_graph ctx)"
    "q = with_inverse i (with_params ((params p)\<lparr>workload := rw, target_commit := commit\<rparr>) p)"
    "\<exists>inv0. synthesize_inverse (with_inverse inv0 (with_params ((params p)\<lparr>workload := rw, target_commit := commit\<rparr>) p))
      (Some ctx) None None (Some (valid_workloads ctx cluster)) None = Inr i"
proof -
  from assms obtain rw where rw: "resolve_workload_name (workload (params p)) (valid_workloads ctx cluster) = Some rw"
    by (auto simp: normalise_plan_def Let_def split: option.splits)
  let ?commit = "if action p = ROLLBACK_DEPLOY
     then resolve_commit_ref (target_commit (params p)) (recent_deploys ctx) (Some rw) else target_commit (params p)"
  let ?ps = "(params p)\<lparr>workload := rw, target_commit := ?commit\<rparr>"
  from assms rw have targets: "list_all (\<lambda>r. ref_name r \<in> set (valid_workloads ctx cluster)) (target_resources p)"
    and commit: "\<not> (action p = ROLLBACK_DEPLOY \<and> ?commit = None)"
    and blast: "blast_set_validity_snapshot (declared_blast_set p) rw (dependency_graph ctx)"
    by (auto simp: normalise_plan_def Let_def split: if_splits)
  obtain inv0 where inv0: "normalise_given_inverse p ctx (valid_workloads ctx cluster) = Some inv0"
    using assms rw targets commit blast by (cases "normalise_given_inverse p ctx (valid_workloads ctx cluster)")
      (auto simp: normalise_plan_def Let_def split: if_splits)
  obtain i where i: "synthesize_inverse (with_inverse inv0 (with_params ?ps p)) (Some ctx) None None
      (Some (valid_workloads ctx cluster)) None = Inr i"
    using assms rw targets commit blast inv0
    by (cases "synthesize_inverse (with_inverse inv0 (with_params ?ps p)) (Some ctx) None None
      (Some (valid_workloads ctx cluster)) None") (simp_all add: normalise_plan_def Let_def)
  have q: "q = with_inverse i (with_params ?ps p)"
    using assms rw targets commit blast inv0 i by (simp add: normalise_plan_def Let_def)
  have in_valid: "rw \<in> set (valid_workloads ctx cluster)"
    using rw by (auto simp: resolve_workload_name_def split: if_splits)
  show thesis
    by (rule that [of rw ?commit i])
      (use in_valid targets commit blast i q in \<open>auto simp: list_all_iff\<close>)
qed

text \<open>What the planner promises of a plan in an environment.\<close>

definition plan_grounded :: "IncidentContext \<Rightarrow> string list option \<Rightarrow> RemediationPlan \<Rightarrow> bool" where
  "plan_grounded ctx cluster q \<longleftrightarrow>
     (let valid = set (valid_workloads ctx cluster); w = workload (params q); snap = dependency_graph ctx in
      if action q = NO_ACTION then declared_blast_set q = []
      else w \<in> valid \<and> w \<in> set (snap_nodes snap) \<and> (\<forall>r \<in> set (target_resources q). ref_name r \<in> valid) \<and>
        (action q = ROLLBACK_DEPLOY \<longrightarrow> (\<exists>d \<in> set (recent_deploys ctx).
           target_commit (params q) = Some (commit_sha d) \<and> given (map_of (image_digests d) w))) \<and>
        set (declared_blast_set q) \<subseteq> set (snap_nodes snap) \<inter> ({w} \<union> {s. (w, s) \<in> (caller_rel snap)\<^sup>+}) \<and>
        (\<exists>i. inverse q = Some i \<and> action i = action q \<and> workload (params i) = w \<and> inverse i = None \<and>
           target_resources i = target_resources q \<and> declared_blast_set i = declared_blast_set q))"

lemma normalise_plan_grounded:
  assumes "normalise_plan p ctx cluster = Some q"
  shows "plan_grounded ctx cluster q \<and> action q = action p"
proof (cases "action p = NO_ACTION")
  case True
  then show ?thesis using normalise_no_action [OF True assms] by (simp add: plan_grounded_def)
next
  case False
  from normalise_Some [OF assms False] obtain rw commit i inv0 where
    rw: "rw \<in> set (valid_workloads ctx cluster)"
    and targets: "\<forall>r \<in> set (target_resources p). ref_name r \<in> set (valid_workloads ctx cluster)"
    and commit: "action p = ROLLBACK_DEPLOY \<Longrightarrow> commit \<noteq> None"
      "action p = ROLLBACK_DEPLOY \<Longrightarrow> resolve_commit_ref (target_commit (params p)) (recent_deploys ctx) (Some rw) = commit"
    and blast: "blast_set_validity_snapshot (declared_blast_set p) rw (dependency_graph ctx)"
    and q: "q = with_inverse i (with_params ((params p)\<lparr>workload := rw, target_commit := commit\<rparr>) p)"
    and syn: "synthesize_inverse (with_inverse inv0 (with_params ((params p)\<lparr>workload := rw, target_commit := commit\<rparr>) p))
      (Some ctx) None None (Some (valid_workloads ctx cluster)) None = Inr i"
    by metis
  have "i \<noteq> None" using syn False by (metis synthesize_None_iff with_inverse_sel(3) with_params_sel(3))
  then obtain v where v: "i = Some v" by auto
  have "\<exists>ps why. workload ps = rw \<and> rw \<noteq> [] \<and>
    v = RemediationPlan (plan_id p @ ''_inv'') (candidate_index p) (action p) ps (target_resources p)
       (declared_blast_set p) None why (origin p) (playbook_id p)"
    by (rule synthesize_Some [OF syn [unfolded v]]) auto
  moreover have "\<exists>d \<in> set (recent_deploys ctx). commit = Some (commit_sha d) \<and> given (map_of (image_digests d) rw)"
    if "action p = ROLLBACK_DEPLOY"
    using commit [OF that] resolve_commit_Some [where w = rw] by blast
  ultimately show ?thesis using False rw targets blast q v blast_valid_iff [of rw]
    by (auto simp: plan_grounded_def Let_def)
qed

section \<open>The ballot\<close>

lemma cand_id_inj [simp]: "cand_id i = cand_id j \<longleftrightarrow> i = j"
  by (simp add: cand_id_def fstr_def int_str_def)

text \<open>A list of candidates as the tournament expects it: numbered from zero in order, named after the number, every
  one grounded in the environment, the do-nothing candidate among them.\<close>

definition numbered :: "RemediationPlan list \<Rightarrow> bool" where
  "numbered plans \<longleftrightarrow> (\<forall>i < length plans. let p = plans ! i in plan_id p = cand_id i \<and> candidate_index p = int i \<and>
     (case inverse p of None \<Rightarrow> True | Some q \<Rightarrow> plan_id q = cand_id i @ ''_inv'' \<and> candidate_index q = int i))"

definition ballot_ok :: "IncidentContext \<Rightarrow> string list option \<Rightarrow> RemediationPlan list \<Rightarrow> bool" where
  "ballot_ok ctx cluster plans \<longleftrightarrow> numbered plans \<and> distinct (map plan_id plans) \<and>
     list_ex (\<lambda>p. action p = NO_ACTION) plans \<and> (\<forall>p \<in> set plans. plan_grounded ctx cluster p)"

lemma reindex_plan_sel [simp]:
  "plan_id (reindex_plan i p) = cand_id i" "candidate_index (reindex_plan i p) = int i"
  "action (reindex_plan i p) = action p" "params (reindex_plan i p) = params p"
  "target_resources (reindex_plan i p) = target_resources p"
  "declared_blast_set (reindex_plan i p) = declared_blast_set p"
  "inverse (reindex_plan i p) = map_option (with_id_index (cand_id i @ ''_inv'') (int i)) (inverse p)"
  by (simp_all add: reindex_plan_def)

lemma reindex_grounded: "plan_grounded ctx cluster p \<Longrightarrow> plan_grounded ctx cluster (reindex_plan i p)"
  by (auto simp: plan_grounded_def Let_def split: if_splits)

lemma surviving_grounded:
  "p \<in> set (surviving_plans plans ctx cluster) \<Longrightarrow> plan_grounded ctx cluster p"
  by (auto simp: surviving_plans_def map_filter_def dest: normalise_plan_grounded)

lemma normalise_plans_nth:
  assumes "i < length (normalise_plans plans ctx cluster False)"
  shows "normalise_plans plans ctx cluster False ! i = reindex_plan i (surviving_plans plans ctx cluster ! i)"
    "i < length (surviving_plans plans ctx cluster)"
  using assms by (simp_all add: normalise_plans_def nth_enumerate_eq)

lemma numbered_distinct:
  assumes "numbered plans" shows "distinct (map plan_id plans)"
  using assms by (auto simp: distinct_conv_nth numbered_def Let_def)

lemma create_no_action_sel [simp]:
  "plan_id (create_no_action_plan ctx i cluster) = cand_id i"
  "candidate_index (create_no_action_plan ctx i cluster) = int i"
  "action (create_no_action_plan ctx i cluster) = NO_ACTION"
  "inverse (create_no_action_plan ctx i cluster) = None"
  "declared_blast_set (create_no_action_plan ctx i cluster) = []"
  by (simp_all add: create_no_action_plan_def Let_def)

lemma normalised_ballot:
  "ballot_ok ctx cluster (ensure_no_action_candidate (normalise_plans plans ctx cluster False) ctx cluster)"
proof -
  let ?ps = "normalise_plans plans ctx cluster False"
  have num: "numbered ?ps"
    unfolding numbered_def
  proof (intro allI impI)
    fix i assume "i < length ?ps"
    then show "let p = ?ps ! i in plan_id p = cand_id i \<and> candidate_index p = int i \<and>
        (case inverse p of None \<Rightarrow> True | Some q \<Rightarrow> plan_id q = cand_id i @ ''_inv'' \<and> candidate_index q = int i)"
      by (simp add: normalise_plans_nth Let_def split: option.split)
  qed
  have grounded: "\<forall>p \<in> set ?ps. plan_grounded ctx cluster p"
  proof
    fix p assume "p \<in> set ?ps"
    then obtain i where i: "i < length ?ps" "p = reindex_plan i (surviving_plans plans ctx cluster ! i)"
      by (auto simp: in_set_conv_nth normalise_plans_nth)
    then show "plan_grounded ctx cluster p"
      using reindex_grounded surviving_grounded nth_mem [OF normalise_plans_nth(2) [OF i(1)]] by blast
  qed
  show ?thesis
  proof (cases "list_ex (\<lambda>p. action p = NO_ACTION) ?ps")
    case True
    then show ?thesis
      using num grounded numbered_distinct [OF num] by (simp add: ballot_ok_def ensure_no_action_candidate_def)
  next
    case False
    let ?na = "create_no_action_plan ctx (length ?ps) cluster"
    have num': "numbered (?ps @ [?na])"
      using num by (auto simp: numbered_def nth_append Let_def less_Suc_eq)
    moreover have "plan_grounded ctx cluster ?na" by (simp add: plan_grounded_def Let_def)
    ultimately show ?thesis using False grounded numbered_distinct [OF num']
      by (simp add: ballot_ok_def ensure_no_action_candidate_def)
  qed
qed

section \<open>The attempts\<close>

lemma call_llm_one_call: "call_llm cfg post msgs h = (r, h') \<Longrightarrow> length h' \<le> Suc (length h)"
  by (auto simp: call_llm_def Let_def alift_def acall_def abind_def split: if_splits prod.splits sum.splits)

lemma attempt_loop_calls:
  assumes "\<And>msgs h r h'. caller msgs h = (r, h') \<Longrightarrow> length h' \<le> Suc (length h)"
  shows "attempt_loop caller lib ctx cluster mr left msgs e h = (r, h') \<Longrightarrow> length h' \<le> length h + left"
proof (induction left arbitrary: msgs e h)
  case 0
  then show ?case by (simp add: araise_def)
next
  case (Suc left)
  obtain x h1 where x: "caller msgs h = (x, h1)" by (cases "caller msgs h")
  then have one: "length h1 \<le> Suc (length h)" by (rule assms)
  have "h' = h1 \<or> (\<exists>msgs e. attempt_loop caller lib ctx cluster mr left msgs e h1 = (r, h'))"
    using Suc.prems x by (auto split: sum.splits PyExc.splits if_splits)
  with one Suc.IH show ?case by fastforce
qed

lemma attempt_loop_plans:
  "attempt_loop caller lib ctx cluster mr left msgs e h = (Inr plans, h') \<Longrightarrow>
   \<exists>raw ps. validate_and_parse_plans lib (RawText raw) False = Inr ps \<and>
     plans = ensure_no_action_candidate (normalise_plans ps ctx cluster False) ctx cluster"
proof (induction left arbitrary: msgs e h)
  case 0
  then show ?case by (simp add: araise_def)
next
  case (Suc left)
  obtain x h1 where x: "caller msgs h = (x, h1)" by (cases "caller msgs h")
  then have "(\<exists>raw ps. validate_and_parse_plans lib (RawText raw) False = Inr ps \<and>
        plans = ensure_no_action_candidate (normalise_plans ps ctx cluster False) ctx cluster) \<or>
      (\<exists>msgs e. attempt_loop caller lib ctx cluster mr left msgs e h1 = (Inr plans, h'))"
    using Suc.prems by (auto split: sum.splits PyExc.splits if_splits)
  with Suc.IH show ?case by blast
qed

text \<open>The first reply that passes the schema is used.\<close>

lemma attempt_loop_success:
  assumes "caller msgs h = (Inr raw, h1)" "validate_and_parse_plans lib (RawText raw) False = Inr ps"
  shows "attempt_loop caller lib ctx cluster mr (Suc left) msgs e h =
    (Inr (ensure_no_action_candidate (normalise_plans ps ctx cluster False) ctx cluster), h1)"
  using assms by simp

lemma generate_result:
  assumes "generate_candidates std schema lib cfg post mr cluster ctx n pb h = (r, h')"
  shows "length h' \<le> length h + nat (mr + 1)"
    and "r = Inr plans \<Longrightarrow>
      \<exists>raw ps. validate_and_parse_plans lib (RawText raw) False = Inr ps \<and>
        plans = ensure_no_action_candidate (normalise_plans ps ctx cluster False) ctx cluster"
proof -
  obtain x where x: "render_candidate_generation_prompt std schema ctx n pb = x" by simp
  note defs = generate_candidates_def generate_candidates_with_retry_def abind_def alift_def
  show "length h' \<le> length h + nat (mr + 1)"
    using assms attempt_loop_calls [where caller = "call_llm cfg post", OF call_llm_one_call]
    by (cases x) (auto simp: defs x)
  show "\<exists>raw ps. validate_and_parse_plans lib (RawText raw) False = Inr ps \<and>
      plans = ensure_no_action_candidate (normalise_plans ps ctx cluster False) ctx cluster"
    if "r = Inr plans"
    using assms that attempt_loop_plans
    by (cases x) (fastforce simp: defs x)+
qed

text \<open>Normalisation grounds a plan or drops it: what it returns keeps the action, names an existing workload and
  existing targets, rolls back to a commit that was deployed with a digest for that workload, declares a
  blast set within the services that depend on the workload, and carries an inverse of its own action on the
  same targets.\<close>

theorem normalised_plan_grounded:
  "case normalise_plan p ctx cluster of
     None \<Rightarrow> True
   | Some q \<Rightarrow> plan_grounded ctx cluster q \<and> action q = action p \<and> target_resources q = target_resources p \<and>
       declared_blast_set q = declared_blast_set p \<and> plan_id q = plan_id p"
proof (cases "normalise_plan p ctx cluster")
  case (Some q)
  have "target_resources q = target_resources p \<and> declared_blast_set q = declared_blast_set p \<and> plan_id q = plan_id p"
  proof (cases "action p = NO_ACTION")
    case True
    then show ?thesis using normalise_no_action [OF True Some] by simp
  next
    case False
    then show ?thesis by (rule normalise_Some [OF Some]) simp
  qed
  then show ?thesis using Some normalise_plan_grounded [OF Some] by simp
qed simp

text \<open>Asking the model ends: the planner makes at most one request more than the retries it is allowed, and when it
  returns candidates they form a ballot: numbered from zero in order under distinct names, each grounded in the
  environment, the do-nothing candidate among them.\<close>

theorem planner_ballot:
  assumes "generate_candidates std schema lib cfg post max_retries cluster ctx n playbook h = (r, h')"
  shows "length h' \<le> length h + nat (max_retries + 1) \<and> (\<forall>plans. r = Inr plans \<longrightarrow> ballot_ok ctx cluster plans)"
  using generate_result(1) [OF assms] generate_result(2) [OF assms] normalised_ballot by blast

text \<open>No revert of a configuration value ever reaches the tournament: normalisation synthesises the inverse without
  the value in force, so it drops every such plan, however well formed.\<close>

theorem config_reverts_dropped:
  "(action p = REVERT_CONFIG \<longrightarrow> normalise_plan p ctx cluster = None) \<and>
   (\<forall>plans q. q \<in> set (ensure_no_action_candidate (normalise_plans plans ctx cluster False) ctx cluster) \<longrightarrow>
      action q \<noteq> REVERT_CONFIG)"
proof -
  have drop: "normalise_plan q ctx cluster = None" if act: "action q = REVERT_CONFIG" for q
  proof (rule ccontr)
    assume "normalise_plan q ctx cluster \<noteq> None"
    then obtain q' where "normalise_plan q ctx cluster = Some q'" by auto
    from normalise_Some [OF this] act obtain w c inv0 i where
      syn: "synthesize_inverse (with_inverse inv0 (with_params ((params q)\<lparr>workload := w, target_commit := c\<rparr>) q))
        (Some ctx) None None (Some (valid_workloads ctx cluster)) None = Inr i" by force
    then obtain v where v: "i = Some v" using act synthesize_None_iff
      by (metis ActionType.distinct(29) not_None_eq with_inverse_sel(3) with_params_sel(3))
    show False by (rule synthesize_Some [OF syn [unfolded v]])
      (auto simp: act inverse_builder_def build_inverse_revert_config_def resolve_prior_config_value_def Let_def
        split: if_splits)
  qed
  moreover have "action q \<noteq> REVERT_CONFIG"
    if q: "q \<in> set (ensure_no_action_candidate (normalise_plans plans ctx cluster False) ctx cluster)" for plans q
  proof (cases "q \<in> set (normalise_plans plans ctx cluster False)")
    case True
    then obtain i where i: "i < length (normalise_plans plans ctx cluster False)"
      "q = reindex_plan i (surviving_plans plans ctx cluster ! i)"
      by (auto simp: in_set_conv_nth normalise_plans_nth)
    then have "surviving_plans plans ctx cluster ! i \<in> set (surviving_plans plans ctx cluster)"
      using normalise_plans_nth(2) by (intro nth_mem)
    then obtain p where "normalise_plan p ctx cluster = Some (surviving_plans plans ctx cluster ! i)"
      by (auto simp: surviving_plans_def map_filter_def)
    with drop [of p] normalise_plan_grounded [OF this] i(2) show ?thesis by auto
  next
    case False
    then have "action q = NO_ACTION" using q by (auto simp: ensure_no_action_candidate_def split: if_splits)
    then show ?thesis by simp
  qed
  ultimately show ?thesis by blast
qed

subsection \<open>The two forms of the graph\<close>

lemma from_manifest_graph:
  "from_manifest m = Inr g \<Longrightarrow> g = mk_graph (sm_services m) (sm_edges m) [] \<and>
     set (sm_edges m) \<subseteq> set (sm_services m) \<times> set (sm_services m)"
  by (auto simp: from_manifest_def Let_def bindE_Inr_iff check_edges_Inr split: option.splits if_splits)

lemma manifest_dependents:
  assumes "from_manifest m = Inr g"
  shows "edge_rel (sg_dependents g) = caller_rel (graph_snapshot now g)"
    and "map_of (sg_dependents g) x = None \<longleftrightarrow> x \<notin> set (sg_nodes g)"
    and "snap_nodes (graph_snapshot now g) = sg_nodes g"
proof -
  have g: "g = mk_graph (sm_services m) (sm_edges m) []"
    and sub: "set (sm_edges m) \<subseteq> set (sm_services m) \<times> set (sm_services m)"
    using from_manifest_graph [OF assms] by auto
  have edges: "(\<exists>e \<in> set (snap_edges (graph_snapshot now g)). edge_target e = x \<and> edge_source e = y) \<longleftrightarrow>
      (y, x) \<in> set (sm_edges m)" for x y
    by (force simp: graph_snapshot_def g mk_graph_def Let_def)
  show "edge_rel (sg_dependents g) = caller_rel (graph_snapshot now g)"
  proof -
    have "b \<in> set (succs (sg_dependents g) a) \<longleftrightarrow> a \<in> set (sm_services m) \<and> (b, a) \<in> set (sm_edges m)" for a b
    proof (cases "a \<in> set (sm_services m)")
      case True
      then show ?thesis using sub by (force simp: g mk_graph_def Let_def succs_def map_of_map_Pair)
    qed (simp add: g mk_graph_def Let_def succs_def map_of_map_Pair)
    then show ?thesis unfolding caller_rel_def edges edge_rel_def
      by (auto simp: graph_snapshot_def g mk_graph_def Let_def)
  qed
  show "map_of (sg_dependents g) x = None \<longleftrightarrow> x \<notin> set (sg_nodes g)"
    by (simp add: g mk_graph_def Let_def map_of_map_Pair)
  show "snap_nodes (graph_snapshot now g) = sg_nodes g" by (simp add: graph_snapshot_def)
qed

text \<open>The two checks of a declared blast set agree: the one on the snapshot's edges, with its own closure, and the
  one that asks the dependency graph, for every graph built from a manifest.\<close>

theorem blast_validity_agree:
  assumes "from_manifest m = Inr g"
  shows "blast_set_validity_snapshot declared w (graph_snapshot now g) = blast_set_validity_graph declared w g"
proof (cases "w = []")
  case True
  then show ?thesis
    by (simp add: blast_set_validity_snapshot_def blast_set_validity_graph_def Let_def manifest_dependents(3) [OF assms])
next
  case False
  note snap = manifest_dependents [OF assms]
  show ?thesis
  proof (cases "w \<in> set (sg_nodes g)")
    case True
    then obtain ds where ds: "map_of (sg_dependents g) w = Some ds" using snap(2) by blast
    then have "reachable_set g w = Inr (closure_loop (sg_dependents g) (succs (sg_dependents g) w) [])"
      by (simp add: reachable_set_def succs_def)
    then show ?thesis
      using False True snap(1) by (auto simp: blast_valid_iff blast_set_validity_graph_def Let_def snap(3)
          closure_from_succs)
  next
    case out: False
    then show ?thesis using False
      by (simp add: blast_set_validity_snapshot_def blast_set_validity_graph_def snap(3))
  qed
qed

subsection \<open>The kernel on the planner's candidates\<close>

text \<open>An invariant that holds cannot be refuted: its formula is true in every model of the assertions.\<close>

context proof_invariant
begin

lemma never_refuted:
  assumes "ctx_pinned c" "spec c" "succeeds c build"
  shows "\<exists>f d. build c = (Inr f, d) \<and> (\<forall>m. models m d \<longrightarrow> holds m f)"
proof -
  obtain f d where "build c = (Inr f, d)" using succeedsD [OF assms(3) same_view_refl] by blast
  with meaning [OF assms(1) this] assms(2) show ?thesis by blast
qed

end

lemma parsed_in_production:
  assumes "validate_and_parse_plans lib raw b = Inr ps" "p \<in> set ps"
  shows "\<forall>r \<in> set (target_resources p). ref_namespace r = ''ust-prod''"
proof -
  let ?step = "\<lambda>(i, c). bindE (validate_candidate_schema c i b) (\<lambda>_. Inr (prompt_candidate_to_remediation_plan c i))"
  obtain cs where cs: "mapE ?step (enumerate 0 cs) = Inr ps"
    using assms(1) by (auto simp: validate_and_parse_plans_def bindE_Inr_iff split: if_splits)
  obtain i where i: "i < length ps" "p = ps ! i" using assms(2) by (auto simp: in_set_conv_nth)
  then have "?step (enumerate 0 cs ! i) = Inr p"
    using mapE_Inr_nth [OF cs] mapE_Inr_length [OF cs] by simp
  then obtain k c where "p = prompt_candidate_to_remediation_plan c k"
    by (auto simp: bindE_Inr_iff split: prod.splits)
  then show ?thesis by (simp add: prompt_candidate_to_remediation_plan_def target_of_def)
qed

lemma planned_in_production:
  assumes "validate_and_parse_plans lib raw b = Inr ps"
    and "p \<in> set (ensure_no_action_candidate (normalise_plans ps ctx cluster False) ctx cluster)"
  shows "\<forall>r \<in> set (target_resources p). ref_namespace r = ''ust-prod''"
proof (cases "p \<in> set (normalise_plans ps ctx cluster False)")
  case True
  then obtain i where i: "i < length (normalise_plans ps ctx cluster False)"
    "p = reindex_plan i (surviving_plans ps ctx cluster ! i)"
    by (auto simp: in_set_conv_nth normalise_plans_nth)
  then have "surviving_plans ps ctx cluster ! i \<in> set (surviving_plans ps ctx cluster)"
    using normalise_plans_nth(2) by (intro nth_mem)
  then obtain q where q: "q \<in> set ps" "normalise_plan q ctx cluster = Some (surviving_plans ps ctx cluster ! i)"
    by (auto simp: surviving_plans_def map_filter_def)
  have "target_resources (surviving_plans ps ctx cluster ! i) = target_resources q"
  proof (cases "action q = NO_ACTION")
    case True
    then show ?thesis using normalise_no_action [OF True q(2)] by simp
  next
    case False
    then show ?thesis by (rule normalise_Some [OF q(2)]) simp
  qed
  then show ?thesis using i(2) parsed_in_production [OF assms(1) q(1)] by simp
next
  case False
  then have "p = create_no_action_plan ctx (length (normalise_plans ps ctx cluster False)) cluster"
    using assms(2) by (auto simp: ensure_no_action_candidate_def split: if_splits)
  then show ?thesis by (simp add: create_no_action_plan_def Let_def)
qed

lemma grounded_k9:
  assumes "extract_all src now p ev context = Inr facts" "plan_grounded ctx cluster p"
  shows "k9_spec (kernel_context std p facts)"
proof (cases "action p = NO_ACTION")
  case False
  then obtain i where "inverse p = Some i" "target_resources i = target_resources p"
    using assms(2) by (auto simp: plan_grounded_def Let_def)
  then show ?thesis
    by (simp add: k9_spec_def bool_fact_def set_fact_def plan_fact_val [OF assms(1)] k9_plan_targets_def
        k9_inverse_targets_def)
qed (simp add: k9_spec_def)

lemma in_production_k2:
  assumes "extract_all src now p ev context = Inr facts" "fs_prod_namespace src = ''ust-prod''"
    and "\<forall>r \<in> set (target_resources p). ref_namespace r = ''ust-prod''"
  shows "k2_spec (kernel_context std p facts)"
  using assms(2,3)
  by (auto simp: k2_spec_def str_fact_def set_fact_def plan_fact_val [OF assms(1)] target_namespaces_def)


section \<open>A run of the planner\<close>

definition planner_context :: IncidentContext where
  "planner_context = \<lparr>ctx_incident_id = ''inc_1'',
     ctx_alert = \<lparr>alert_id = ''a1'', alert_source = SyntheticAlert, alert_title = ''latency'', alert_service = ''db'',
       alert_severity = Critical, alert_fired_at = 90, alert_raw = []\<rparr>,
     ctx_signatures = [],
     ctx_metrics_window = \<lparr>mw_service = ''db'', mw_start_time = 0, mw_end_time = 90, mw_series = [],
       mw_p99_latency_ms = None, mw_error_rate = None, mw_request_count = 0\<rparr>,
     recent_deploys = [],
     dependency_graph = \<lparr>snap_nodes = [''db'', ''gw''],
       snap_edges = [\<lparr>edge_source = ''gw'', edge_target = ''db''\<rparr>], snap_observed_at = 80\<rparr>,
     inferred_failure_class = None, gathered_at = 95\<rparr>"

definition planner_lib :: PlannerLib where
  "planner_lib = \<lparr>
     pl_json_loads = (\<lambda>s. if s = ''go'' then Inr (PDict [(''plans'', PColl [PDict [
         (''action'', PStr ''scale_workload''),
         (''params'', PDict [(''workload'', PStr ''db''), (''replica_delta'', PInt 1)]),
         (''declared_blast_set'', PColl [PStr ''gw'']), (''rationale'', PStr ''load'')]])])
       else Inl ''Expecting value''),
     pl_validation_error = (\<lambda>v. ''invalid''), pl_int_text = (\<lambda>s. None)\<rparr>"

definition planner_settings :: LlmSettings where
  "planner_settings = \<lparr>openrouter_api_key = Some ''key'', openrouter_base_url = ''https://host/'', llm_model = ''m'',
     llm_timeout_seconds = 600\<rparr>"

text \<open>The service answers with prose first and with an object afterwards.\<close>

definition planner_post :: "LlmRequest \<Rightarrow> LlmRequest trace \<Rightarrow> PyExc + LlmResponse" where
  "planner_post req h = Inr \<lparr>status_code = 200, resp_text = [],
     resp_json = Inr (PDict [(''choices'', PColl [PDict [(''message'', PDict [(''content'',
       PStr (if h = [] then ''Sure!'' else ''go''))])]])])\<rparr>"

definition scale_candidate :: RemediationPlan where
  "scale_candidate = RemediationPlan ''plan_cand_0'' 0 SCALE_WORKLOAD
     \<lparr>workload = ''db'', target_commit = None, replica_delta = Some 1, flag_name = None, config_key = None,
       config_value = None\<rparr> [sample_target] [''gw''] None ''load'' Planner None"

lemma planner_replies:
  "validate_and_parse_plans planner_lib (RawText ''go'') False = Inr [scale_candidate]"
  "\<exists>t. validate_and_parse_plans planner_lib (RawText ''Sure!'') False =
     Inl (Raised ''PlannerSchemaValidationError'' t)"
proof -
  show "validate_and_parse_plans planner_lib (RawText ''go'') False = Inr [scale_candidate]" by code_simp
  have "case validate_and_parse_plans planner_lib (RawText ''Sure!'') False of
      Inl (Raised c t) \<Rightarrow> c = ''PlannerSchemaValidationError'' | _ \<Rightarrow> False" by code_simp
  then show "\<exists>t. validate_and_parse_plans planner_lib (RawText ''Sure!'') False =
     Inl (Raised ''PlannerSchemaValidationError'' t)" by (auto split: sum.splits PyExc.splits)
qed

lemma planner_call:
  "\<exists>req. call_llm planner_settings planner_post msgs h =
     (Inr (if h = [] then ''Sure!'' else ''go''), h @ [(req, True)])"
  by (simp add: call_llm_def planner_settings_def planner_post_def completion_text_def py_dict_get_def
      abind_def alift_def acall_def Let_def)

lemma planner_run:
  "\<exists>h'. generate_candidates sample_std [] planner_lib planner_settings planner_post 2 None planner_context 3 None [] =
     (Inr (ensure_no_action_candidate (normalise_plans [scale_candidate] planner_context None False)
        planner_context None), h') \<and> length h' = 2"
proof -
  have "\<exists>msgs. render_candidate_generation_prompt sample_std [] planner_context 3 None = Inr msgs"
    by (simp add: render_candidate_generation_prompt_def build_user_prompt_def format_incident_context_def
        format_alert_def format_playbook_candidate_def planner_context_def Let_def)
  then obtain msgs where msgs: "render_candidate_generation_prompt sample_std [] planner_context 3 None = Inr msgs" ..
  obtain t where t: "validate_and_parse_plans planner_lib (RawText ''Sure!'') False =
      Inl (Raised ''PlannerSchemaValidationError'' t)" using planner_replies(2) by blast
  obtain req where 1: "call_llm planner_settings planner_post msgs [] = (Inr ''Sure!'', [(req, True)])"
    using planner_call [of msgs "[]"] by auto
  let ?msgs = "msgs @ [(''assistant'', ''Sure!''), (''user'', feedback_message t)]"
  obtain req' where 2: "call_llm planner_settings planner_post ?msgs [(req, True)] =
      (Inr ''go'', [(req, True), (req', True)])"
    using planner_call [of ?msgs "[(req, True)]"] by auto
  show ?thesis
    using 1 2 t planner_replies(1)
    by (simp add: generate_candidates_def generate_candidates_with_retry_def msgs abind_def alift_def
        eval_nat_numeral)
qed

lemma planner_ballot_witness:
  "\<exists>plans h'. generate_candidates sample_std [] planner_lib planner_settings planner_post 2 None planner_context 3 None [] =
     (Inr plans, h') \<and> ballot_ok planner_context None plans \<and> length h' \<le> 3"
proof -
  obtain plans h' where run: "generate_candidates sample_std [] planner_lib planner_settings planner_post 2 None
      planner_context 3 None [] = (Inr plans, h')" using planner_run by blast
  with planner_ballot [OF run] show ?thesis by auto
qed

lemma blast_validity_agree_witness:
  "\<exists>g. from_manifest \<lparr>sm_services = [''db'', ''gw''], sm_edges = [(''gw'', ''db'')]\<rparr> = Inr g \<and>
     blast_set_validity_snapshot [''gw''] ''db'' (graph_snapshot 0 g) \<and> blast_set_validity_graph [''gw''] ''db'' g"
proof -
  let ?g = "mk_graph [''db'', ''gw''] [(''gw'', ''db'')] []"
  have m: "from_manifest \<lparr>sm_services = [''db'', ''gw''], sm_edges = [(''gw'', ''db'')]\<rparr> = Inr ?g" by code_simp
  have "blast_set_validity_graph [''gw''] ''db'' ?g" by code_simp
  with blast_validity_agree [OF m, of "[''gw'']" "''db''" 0] m show ?thesis by blast
qed


definition config_candidate :: RemediationPlan where
  "config_candidate = RemediationPlan ''plan_cand_0'' 0 REVERT_CONFIG
     \<lparr>workload = ''db'', target_commit = None, replica_delta = None, flag_name = None, config_key = Some ''pool'',
       config_value = Some ''20''\<rparr> [\<lparr>ref_namespace = ''ust-prod'', ref_kind = ConfigMap, ref_name = ''db''\<rparr>] [''gw''] None
     ''restore the pool size'' Planner None"

lemma config_reverts_dropped_witness: "normalise_plan config_candidate planner_context None = None"
  using config_reverts_dropped [of config_candidate planner_context None] by (simp add: config_candidate_def)

end
