(* ===== verification/Apply.thy ===== *)
theory Apply
  imports Planner Production
begin

text \<open>
  Applying a plan to a namespace (\<^verbatim>\<open>src/understudy/actuator/apply.py\<close>): one handler per action, each a
  read of the object, a check whether it is already as wanted, and one patch.  The Kubernetes API and the
  deploy history are functions of the history of calls; a patch is the body the code sends.  The
  digest function of the standard library is an argument.
\<close>

section \<open>Objects and patches\<close>

record Container =
  c_name :: string
  c_image :: "string option"
  c_env :: "(string \<times> string) list"

record K8sDeployment =
  kd_annotations :: "(string \<times> string) list"
  kd_template_annotations :: "(string \<times> string) list"
  kd_replicas :: "int option"
  kd_containers :: "Container list"

record K8sConfigMap =
  km_annotations :: "(string \<times> string) list"
  km_data :: "(string \<times> string) list"

record DeploymentPatch =
  dp_annotations :: "(string \<times> string) list"
  dp_template_annotations :: "(string \<times> string) list"
  dp_replicas :: "int option"
  dp_containers :: "(string \<times> string \<times> (string \<times> string) list) list"

record ConfigMapPatch =
  cp_annotations :: "(string \<times> string) list"
  cp_data :: "(string \<times> string) list"

text \<open>The calls: on whose behalf, the object's name and namespace.\<close>

datatype KCall =
    ReadDeployment "string option" string string
  | PatchDeployment "string option" string string DeploymentPatch
  | ReadConfigMap "string option" string string
  | PatchConfigMap "string option" string string ConfigMapPatch
  | RecentDeploys int

type_synonym 'a k_act = "(KCall, 'a) act"

record Applier =
  ka_read_deployment :: "string \<Rightarrow> string \<Rightarrow> KCall trace \<Rightarrow> PyExc + K8sDeployment"
  ka_patch_deployment :: "string \<Rightarrow> string \<Rightarrow> DeploymentPatch \<Rightarrow> KCall trace \<Rightarrow> PyExc + unit"
  ka_read_config_map :: "string \<Rightarrow> string \<Rightarrow> KCall trace \<Rightarrow> PyExc + K8sConfigMap"
  ka_patch_config_map :: "string \<Rightarrow> string \<Rightarrow> ConfigMapPatch \<Rightarrow> KCall trace \<Rightarrow> PyExc + unit"
  ka_deploy_history :: "(int \<Rightarrow> KCall trace \<Rightarrow> PyExc + DeployRef list) option"
  ka_injected :: bool
  ka_now :: "KCall trace \<Rightarrow> instant"
  ka_std :: PyStd
  ka_sha256 :: "string \<Rightarrow> string"
  ka_prod_namespace :: string

definition ANNOTATION_PLAN_ID :: string where
  "ANNOTATION_PLAN_ID = ''understudy.dev/last-applied-plan-id''"

definition ANNOTATION_REPLICA_DELTA :: string where
  "ANNOTATION_REPLICA_DELTA = ''understudy.dev/applied-replica-delta''"

definition ANNOTATION_RESTART_TIMESTAMP :: string where
  "ANNOTATION_RESTART_TIMESTAMP = ''kubectl.kubernetes.io/restartedAt''"

definition actuation_error :: "string list \<Rightarrow> PyExc + 'a" where
  "actuation_error parts = Inl (Raised ''ActuationError'' (fstr parts))"

text \<open>\<open>except ApiException as exc: raise ActuationError(... exc.reason) from exc\<close>\<close>

definition api_guard :: "string list \<Rightarrow> 'a k_act \<Rightarrow> 'a k_act" where
  "api_guard what m h =
     (case m h of
        (Inl (Raised c reason), h') \<Rightarrow>
          if c = ''ApiException'' then (actuation_error (what @ ['': '', reason]), h') else (Inl (Raised c reason), h')
      | r \<Rightarrow> r)"

text \<open>The header of the clients the applier creates; a client handed in is used as it is.\<close>

definition impersonated :: "Applier \<Rightarrow> string \<Rightarrow> string \<Rightarrow> string option" where
  "impersonated ap ns sa =
     (if ka_injected ap \<or> sa = [] \<or> ns = [] then None else Some (fstr [''system:serviceaccount:'', ns, '':'', sa]))"

definition read_deployment :: "Applier \<Rightarrow> string \<Rightarrow> string \<Rightarrow> string \<Rightarrow> K8sDeployment k_act" where
  "read_deployment ap w ns sa =
     api_guard [''Failed to read Deployment '', squote w, '' in namespace '', squote ns]
       (acall (ReadDeployment (impersonated ap ns sa) w ns) (ka_read_deployment ap w ns))"

definition patch_deployment ::
    "Applier \<Rightarrow> string list \<Rightarrow> string \<Rightarrow> string \<Rightarrow> string \<Rightarrow> DeploymentPatch \<Rightarrow> bool k_act" where
  "patch_deployment ap what w ns sa body =
     abind (api_guard what (acall (PatchDeployment (impersonated ap ns sa) w ns body) (ka_patch_deployment ap w ns body)))
       (\<lambda>_. aret True)"

section \<open>Images\<close>

definition extract_base_repo :: "string \<Rightarrow> string" where
  "extract_base_repo spec =
     (let clean = py_strip spec in
      if CHR ''@'' \<in> set clean then takeWhile (\<lambda>x. x \<noteq> CHR ''@'') clean
      else if CHR '':'' \<in> set clean \<and> CHR ''/'' \<notin> set (after_last (CHR '':'') clean) then before_last (CHR '':'') clean
      else clean)"

definition hex64 :: "string \<Rightarrow> bool" where
  "hex64 s \<longleftrightarrow> length s = 64 \<and> list_all (\<lambda>c. c \<in> set ''0123456789abcdefABCDEF'') s"

definition history_image :: "Applier \<Rightarrow> string \<Rightarrow> string \<Rightarrow> string \<Rightarrow> DeployRef list \<Rightarrow> string option" where
  "history_image ap w clean current deploys =
     (case find_rollback_target clean deploys of
        None \<Rightarrow> None
      | Some d \<Rightarrow>
          (case map_of (image_digests d) w of
             None \<Rightarrow> None
           | Some resolved \<Rightarrow>
               if resolved = [] then None
               else if startswith resolved ''sha256:'' then
                 (let base = extract_base_repo current; hex = drop 7 resolved in
                  case find (\<lambda>tag. ka_sha256 ap (fstr [base, '':'', tag]) = hex) [''good'', ''regression'', ''latest'', ''prod''] of
                    Some tag \<Rightarrow> Some (fstr [base, '':'', tag])
                  | None \<Rightarrow> Some (fstr [base, ''@'', resolved]))
               else Some resolved))"

definition resolve_rollback_image :: "Applier \<Rightarrow> string \<Rightarrow> string \<Rightarrow> string \<Rightarrow> string k_act" where
  "resolve_rollback_image ap w target current =
     (let clean = py_strip target;
          unresolved = alift (actuation_error [''Cannot resolve commit '', squote target,
            '' to an image digest for workload '', squote w]) in
      if startswith clean ''sha256:'' then aret (fstr [extract_base_repo current, ''@'', clean])
      else if hex64 clean then aret (fstr [extract_base_repo current, ''@sha256:'', py_lower clean])
      else if CHR ''/'' \<in> set clean \<or> CHR '':'' \<in> set clean then aret clean
      else case ka_deploy_history ap of
        None \<Rightarrow> unresolved
      | Some recent \<Rightarrow>
          abind (acatch (abind (acall (RecentDeploys 20) (recent 20)) (\<lambda>ds. aret (history_image ap w clean current ds)))
              (\<lambda>c t. if c = ''ApiException'' \<or> isinstance c ''UnderstudyError'' then aret None
                 else araise (Raised c t))) (\<lambda>found.
            case found of Some img \<Rightarrow> aret img | None \<Rightarrow> unresolved))"

section \<open>Handlers\<close>

definition target_container :: "string \<Rightarrow> Container list \<Rightarrow> Container" where
  "target_container w cs = (case find (\<lambda>c. c_name c = w) cs of Some c \<Rightarrow> c | None \<Rightarrow> hd cs)"

definition current_image :: "Container \<Rightarrow> string" where
  "current_image c = (case c_image c of Some i \<Rightarrow> i | None \<Rightarrow> [])"

definition rollback_patch :: "RemediationPlan \<Rightarrow> string \<Rightarrow> string \<Rightarrow> string \<Rightarrow> DeploymentPatch" where
  "rollback_patch p w container img =
     \<lparr>dp_annotations = [(ANNOTATION_PLAN_ID, plan_id p)], dp_template_annotations = [(ANNOTATION_PLAN_ID, plan_id p)],
      dp_replicas = None,
      dp_containers = [(container, img,
        if w = ''data-service'' then [(''DATA_SERVICE_VARIANT'',
          if contains_sub img '':regression'' then ''regression'' else ''good'')] else [])]\<rparr>"

definition apply_rollback_deploy :: "Applier \<Rightarrow> RemediationPlan \<Rightarrow> string \<Rightarrow> string \<Rightarrow> bool k_act" where
  "apply_rollback_deploy ap p ns sa =
     (let w = workload (params p) in
      if w = [] then alift (actuation_error [''Cannot apply rollback_deploy for plan '', plan_id p,
        '': workload name is required''])
      else if \<not> given (target_commit (params p)) then
        alift (actuation_error [''Cannot apply rollback_deploy for plan '', plan_id p, '': target_commit is required''])
      else
        abind (read_deployment ap w ns sa) (\<lambda>dep.
          if kd_containers dep = [] then
            alift (actuation_error [''Deployment '', squote w, '' in namespace '', squote ns, '' has no containers''])
          else
            (let c = target_container w (kd_containers dep) in
             abind (resolve_rollback_image ap w (the (target_commit (params p))) (current_image c)) (\<lambda>img.
               if current_image c = img then aret True
               else patch_deployment ap [''Failed to patch Deployment '', squote w, '' image in namespace '', squote ns]
                 w ns sa (rollback_patch p w (c_name c) img)))))"

definition restart_patch :: "RemediationPlan \<Rightarrow> string \<Rightarrow> DeploymentPatch" where
  "restart_patch p now_iso =
     \<lparr>dp_annotations = [(ANNOTATION_PLAN_ID, plan_id p)],
      dp_template_annotations = [(ANNOTATION_RESTART_TIMESTAMP, now_iso), (ANNOTATION_PLAN_ID, plan_id p)],
      dp_replicas = None, dp_containers = []\<rparr>"

definition last_applied :: "K8sDeployment \<Rightarrow> string option" where
  "last_applied dep = map_of (kd_annotations dep) ANNOTATION_PLAN_ID"

definition apply_restart_workload :: "Applier \<Rightarrow> RemediationPlan \<Rightarrow> string \<Rightarrow> string \<Rightarrow> bool k_act" where
  "apply_restart_workload ap p ns sa =
     (let w = workload (params p) in
      if w = [] then alift (actuation_error [''Cannot apply restart_workload for plan '', plan_id p,
        '': workload name is required''])
      else
        abind (read_deployment ap w ns sa) (\<lambda>dep.
          if last_applied dep = Some (plan_id p) then aret True
          else
            abind (aask (ka_now ap)) (\<lambda>now.
              patch_deployment ap [''Failed to restart Deployment '', squote w, '' in namespace '', squote ns]
                w ns sa (restart_patch p (std_isoformat (ka_std ap) now)))))"

definition scale_patch :: "RemediationPlan \<Rightarrow> int \<Rightarrow> int \<Rightarrow> DeploymentPatch" where
  "scale_patch p delta replicas =
     \<lparr>dp_annotations = [(ANNOTATION_PLAN_ID, plan_id p), (ANNOTATION_REPLICA_DELTA, int_str delta)],
      dp_template_annotations = [], dp_replicas = Some replicas, dp_containers = []\<rparr>"

definition current_replicas :: "K8sDeployment \<Rightarrow> int" where
  "current_replicas dep = (case kd_replicas dep of Some n \<Rightarrow> n | None \<Rightarrow> 1)"

definition apply_scale_workload :: "Applier \<Rightarrow> RemediationPlan \<Rightarrow> string \<Rightarrow> string \<Rightarrow> bool k_act" where
  "apply_scale_workload ap p ns sa =
     (let w = workload (params p) in
      if w = [] then alift (actuation_error [''Cannot apply scale_workload for plan '', plan_id p,
        '': workload name is required''])
      else case replica_delta (params p) of
        None \<Rightarrow> alift (actuation_error [''Cannot apply scale_workload for plan '', plan_id p, '': replica_delta is required''])
      | Some delta \<Rightarrow>
          abind (read_deployment ap w ns sa) (\<lambda>dep.
            if last_applied dep = Some (plan_id p) then aret True
            else
              (let replicas = current_replicas dep + delta in
               if replicas < 0 then alift (actuation_error [''Cannot scale workload '', squote w,
                 '' below 0 replicas (current: '', int_str (current_replicas dep), '', delta: '', int_str delta, '')''])
               else patch_deployment ap [''Failed to scale Deployment '', squote w, '' in namespace '', squote ns]
                 w ns sa (scale_patch p delta replicas))))"

definition resolve_config_map_name :: "RemediationPlan \<Rightarrow> string \<Rightarrow> string" where
  "resolve_config_map_name p default_name =
     (case find (\<lambda>t. ref_kind t = ConfigMap \<and> ref_name t \<noteq> []) (target_resources p) of
        Some t \<Rightarrow> ref_name t
      | None \<Rightarrow>
          (let w = py_strip (workload (params p)) in
           if w \<in> {''app-config'', ''feature-flags''} then w else default_name))"

text \<open>The part the two handlers of configuration maps share: read, compare, patch one key.\<close>

definition set_config_key ::
    "Applier \<Rightarrow> RemediationPlan \<Rightarrow> string \<Rightarrow> string \<Rightarrow> string \<Rightarrow> string \<Rightarrow> string \<Rightarrow> bool k_act" where
  "set_config_key ap p cm ns sa key v =
     abind (api_guard [''Failed to read ConfigMap '', squote cm, '' in namespace '', squote ns]
         (acall (ReadConfigMap (impersonated ap ns sa) cm ns) (ka_read_config_map ap cm ns))) (\<lambda>m.
       if map_of (km_data m) key = Some v then aret True
       else
         (let body = \<lparr>cp_annotations = [(ANNOTATION_PLAN_ID, plan_id p)], cp_data = [(key, v)]\<rparr> in
          abind (api_guard [''Failed to patch ConfigMap '', squote cm, '' in namespace '', squote ns]
              (acall (PatchConfigMap (impersonated ap ns sa) cm ns body) (ka_patch_config_map ap cm ns body)))
            (\<lambda>_. aret True)))"

definition flag_value :: "RemediationPlan \<Rightarrow> string" where
  "flag_value p = (if re_enables (rationale p) \<or> config_value (params p) = Some ''true'' then ''true'' else ''false'')"

definition apply_disable_flag :: "Applier \<Rightarrow> RemediationPlan \<Rightarrow> string \<Rightarrow> string \<Rightarrow> bool k_act" where
  "apply_disable_flag ap p ns sa =
     (if \<not> given (flag_name (params p)) then
        alift (actuation_error [''Cannot apply disable_flag for plan '', plan_id p, '': flag_name is required''])
      else set_config_key ap p (resolve_config_map_name p ''feature-flags'') ns sa (the (flag_name (params p))) (flag_value p))"

definition apply_revert_config :: "Applier \<Rightarrow> RemediationPlan \<Rightarrow> string \<Rightarrow> string \<Rightarrow> bool k_act" where
  "apply_revert_config ap p ns sa =
     (if \<not> given (config_key (params p)) then
        alift (actuation_error [''Cannot apply revert_config for plan '', plan_id p, '': config_key is required''])
      else case config_value (params p) of
        None \<Rightarrow> alift (actuation_error [''Cannot apply revert_config for plan '', plan_id p, '': config_value is required''])
      | Some v \<Rightarrow> set_config_key ap p (resolve_config_map_name p ''app-config'') ns sa (the (config_key (params p))) v)"

definition apply_no_action :: "bool k_act" where
  "apply_no_action = aret True"

definition apply_plan :: "Applier \<Rightarrow> RemediationPlan \<Rightarrow> string \<Rightarrow> string option \<Rightarrow> bool k_act" where
  "apply_plan ap p ns service_account =
     (let sa = resolve_service_account (ka_prod_namespace ap) ns service_account in
      case action p of
        ROLLBACK_DEPLOY \<Rightarrow> apply_rollback_deploy ap p ns sa
      | RESTART_WORKLOAD \<Rightarrow> apply_restart_workload ap p ns sa
      | SCALE_WORKLOAD \<Rightarrow> apply_scale_workload ap p ns sa
      | DISABLE_FLAG \<Rightarrow> apply_disable_flag ap p ns sa
      | REVERT_CONFIG \<Rightarrow> apply_revert_config ap p ns sa
      | NO_ACTION \<Rightarrow> apply_no_action)"

definition revert_plan :: "Applier \<Rightarrow> RemediationPlan \<Rightarrow> string \<Rightarrow> string option \<Rightarrow> bool k_act" where
  "revert_plan ap p ns service_account =
     (if action p = NO_ACTION then
        alift (actuation_error [''Cannot revert plan '', plan_id p, '': no_action is explicitly non-reversible''])
      else case inverse p of
        None \<Rightarrow> alift (actuation_error [''Cannot revert plan '', plan_id p, '': plan declares no inverse''])
      | Some q \<Rightarrow> apply_plan ap q ns service_account)"

section \<open>Which calls a handler makes\<close>

fun is_patch :: "KCall \<Rightarrow> bool" where
  "is_patch (PatchDeployment _ _ _ _) = True"
| "is_patch (PatchConfigMap _ _ _ _) = True"
| "is_patch _ = False"

text \<open>Every call satisfies \<open>P\<close> and at most \<open>n\<close> are patches.\<close>

definition does :: "(KCall \<Rightarrow> bool) \<Rightarrow> nat \<Rightarrow> 'a k_act \<Rightarrow> bool" where
  "does P n m \<longleftrightarrow> (\<forall>h r h'. m h = (r, h') \<longrightarrow> (\<exists>k. h' = h @ k \<and> (\<forall>e \<in> set k. P (fst e)) \<and>
     length (filter (\<lambda>e. is_patch (fst e)) k) \<le> n))"

named_theorems does_intros \<open>rules for the calls of a handler\<close>

lemma doesD:
  "does P n m \<Longrightarrow> m h = (r, h') \<Longrightarrow> \<exists>k. h' = h @ k \<and> (\<forall>e \<in> set k. P (fst e)) \<and>
     length (filter (\<lambda>e. is_patch (fst e)) k) \<le> n"
  unfolding does_def by blast

lemma does_atoms [does_intros]:
  "does P n (aret x)" "does P n (araise e)" "does P n (aask f)" "does P n (alift y)"
  by (auto simp: does_def aret_def araise_def aask_def alift_def)

lemma does_read [does_intros]: "P c \<Longrightarrow> \<not> is_patch c \<Longrightarrow> does P n (acall c f)"
  by (auto simp: does_def acall_def split: sum.splits)

lemma does_patch: "P c \<Longrightarrow> does P 1 (acall c f)"
  by (auto simp: does_def acall_def split: sum.splits)

lemma does_abind_sum:
  assumes "does P a m" "\<And>x. does P b (f x)"
  shows "does P (a + b) (abind m f)"
  unfolding does_def
proof (intro allI impI)
  fix h r h'
  assume "abind m f h = (r, h')"
  then consider e where "m h = (Inl e, h')" | x h1 where "m h = (Inr x, h1)" "f x h1 = (r, h')"
    by (auto simp: abind_def split: prod.splits sum.splits)
  then show "\<exists>k. h' = h @ k \<and> (\<forall>e \<in> set k. P (fst e)) \<and> length (filter (\<lambda>e. is_patch (fst e)) k) \<le> a + b"
  proof cases
    case 1
    then show ?thesis using doesD [OF assms(1)] by fastforce
  next
    case 2
    obtain k where k: "h1 = h @ k" "\<forall>e \<in> set k. P (fst e)" "length (filter (\<lambda>e. is_patch (fst e)) k) \<le> a"
      using doesD [OF assms(1) 2(1)] by blast
    obtain l where l: "h' = h1 @ l" "\<forall>e \<in> set l. P (fst e)" "length (filter (\<lambda>e. is_patch (fst e)) l) \<le> b"
      using doesD [OF assms(2) 2(2)] by blast
    have "h' = h @ (k @ l)" "\<forall>e \<in> set (k @ l). P (fst e)"
      "length (filter (\<lambda>e. is_patch (fst e)) (k @ l)) \<le> a + b"
      using k l by (simp_all add: ball_Un)
    then show ?thesis by blast
  qed
qed

lemma does_abind [does_intros]: "does P 0 m \<Longrightarrow> (\<And>x. does P n (f x)) \<Longrightarrow> does P n (abind m f)"
  using does_abind_sum [of P 0 m n f] by simp

lemma does_guard [does_intros]: "does P n m \<Longrightarrow> does P n (api_guard what m)"
  unfolding does_def
proof (intro allI impI)
  fix h r h'
  assume m: "\<forall>h r h'. m h = (r, h') \<longrightarrow> (\<exists>k. h' = h @ k \<and> (\<forall>e \<in> set k. P (fst e)) \<and>
     length (filter (\<lambda>e. is_patch (fst e)) k) \<le> n)" and "api_guard what m h = (r, h')"
  then obtain x where "m h = (x, h')"
    by (auto simp: api_guard_def split: prod.splits sum.splits PyExc.splits if_splits)
  with m show "\<exists>k. h' = h @ k \<and> (\<forall>e \<in> set k. P (fst e)) \<and> length (filter (\<lambda>e. is_patch (fst e)) k) \<le> n" by blast
qed

lemma does_catch [does_intros]:
  assumes "does P n m" "\<And>c t h. \<exists>r. hnd c t h = (r, h)"
  shows "does P n (acatch m hnd)"
  unfolding does_def
proof (intro allI impI)
  fix h r h'
  assume "acatch m hnd h = (r, h')"
  then consider "m h = (r, h')" | c t h1 where "m h = (Inl (Raised c t), h1)" "hnd c t h1 = (r, h')"
    by (auto simp: acatch_def split: prod.splits sum.splits PyExc.splits)
  then obtain x where "m h = (x, h')" using assms(2) by cases (auto, metis prod.inject)
  then show "\<exists>k. h' = h @ k \<and> (\<forall>e \<in> set k. P (fst e)) \<and> length (filter (\<lambda>e. is_patch (fst e)) k) \<le> n"
    by (rule doesD [OF assms(1)])
qed

lemma does_if [does_intros]: "(b \<Longrightarrow> does P n m) \<Longrightarrow> (\<not> b \<Longrightarrow> does P n m') \<Longrightarrow> does P n (if b then m else m')"
  by simp

lemma does_option [does_intros]:
  "(x = None \<Longrightarrow> does P n m) \<Longrightarrow> (\<And>y. x = Some y \<Longrightarrow> does P n (f y)) \<Longrightarrow>
   does P n (case x of None \<Rightarrow> m | Some y \<Rightarrow> f y)"
  by (cases x) auto

text \<open>What a plan may do: read and patch the one object its action is about, in the given namespace, under its
  own name; scale to no negative number, and touch no other key of a configuration map than its own.\<close>

fun permitted :: "RemediationPlan \<Rightarrow> string \<Rightarrow> KCall \<Rightarrow> bool" where
  "permitted p ns (ReadDeployment who w n) \<longleftrightarrow> w = workload (params p) \<and> n = ns \<and>
     action p \<in> {ROLLBACK_DEPLOY, RESTART_WORKLOAD, SCALE_WORKLOAD}"
| "permitted p ns (PatchDeployment who w n body) \<longleftrightarrow> w = workload (params p) \<and> w \<noteq> [] \<and> n = ns \<and>
     action p \<in> {ROLLBACK_DEPLOY, RESTART_WORKLOAD, SCALE_WORKLOAD} \<and>
     map_of (dp_annotations body) ANNOTATION_PLAN_ID = Some (plan_id p) \<and>
     (dp_containers body \<noteq> [] \<longrightarrow> action p = ROLLBACK_DEPLOY) \<and>
     (case dp_replicas body of None \<Rightarrow> True | Some n \<Rightarrow> 0 \<le> n \<and> action p = SCALE_WORKLOAD)"
| "permitted p ns (ReadConfigMap who cm n) \<longleftrightarrow> n = ns \<and> action p \<in> {DISABLE_FLAG, REVERT_CONFIG}"
| "permitted p ns (PatchConfigMap who cm n body) \<longleftrightarrow> n = ns \<and>
     (if action p = DISABLE_FLAG then cm = resolve_config_map_name p ''feature-flags'' \<and>
        cp_data body = [(the (flag_name (params p)), flag_value p)]
      else action p = REVERT_CONFIG \<and> cm = resolve_config_map_name p ''app-config'' \<and>
        cp_data body = [(the (config_key (params p)), the (config_value (params p)))])"
| "permitted p ns (RecentDeploys limit) \<longleftrightarrow> action p = ROLLBACK_DEPLOY"

lemma does_patch_deployment:
  "P (PatchDeployment (impersonated ap ns sa) w ns body) \<Longrightarrow> does P 1 (patch_deployment ap what w ns sa body)"
  unfolding patch_deployment_def using does_abind_sum [where b = 0] does_guard does_patch does_atoms(1)
  by (metis add.right_neutral)

lemma does_set_config_key:
  assumes "P (ReadConfigMap (impersonated ap ns sa) cm ns)"
    and "\<And>a. P (PatchConfigMap (impersonated ap ns sa) cm ns \<lparr>cp_annotations = a, cp_data = [(key, v)]\<rparr>)"
  shows "does P 1 (set_config_key ap p cm ns sa key v)"
proof -
  have patch: "does P 1 (abind (api_guard what (acall (PatchConfigMap (impersonated ap ns sa) cm ns
      \<lparr>cp_annotations = a, cp_data = [(key, v)]\<rparr>) f)) (\<lambda>_. aret True))" for what a f
    using does_abind_sum [where b = 0] does_guard does_patch assms(2) does_atoms(1) by (metis add.right_neutral)
  show ?thesis unfolding set_config_key_def Let_def
    by (intro does_intros patch) (simp_all add: assms(1))
qed

lemma does_read_deployment [does_intros]:
  "P (ReadDeployment (impersonated ap ns sa) w ns) \<Longrightarrow> does P n (read_deployment ap w ns sa)"
  unfolding read_deployment_def by (intro does_intros) simp_all

lemma does_resolve_image [does_intros]: "P (RecentDeploys 20) \<Longrightarrow> does P n (resolve_rollback_image ap w t cur)"
  unfolding resolve_rollback_image_def Let_def
  by (intro does_intros) (auto simp: aret_def araise_def)

lemma handlers_do:
  "action p = ROLLBACK_DEPLOY \<Longrightarrow> does (permitted p ns) 1 (apply_rollback_deploy ap p ns sa)"
  "action p = RESTART_WORKLOAD \<Longrightarrow> does (permitted p ns) 1 (apply_restart_workload ap p ns sa)"
  "action p = SCALE_WORKLOAD \<Longrightarrow> does (permitted p ns) 1 (apply_scale_workload ap p ns sa)"
  "action p = DISABLE_FLAG \<Longrightarrow> does (permitted p ns) 1 (apply_disable_flag ap p ns sa)"
  "action p = REVERT_CONFIG \<Longrightarrow> does (permitted p ns) 1 (apply_revert_config ap p ns sa)"
  "action p = NO_ACTION \<Longrightarrow> does (permitted p ns) 1 apply_no_action"
proof -
  show "does (permitted p ns) 1 (apply_rollback_deploy ap p ns sa)" if "action p = ROLLBACK_DEPLOY"
    unfolding apply_rollback_deploy_def Let_def
    by (intro does_intros does_patch_deployment) (use that in \<open>simp_all add: rollback_patch_def\<close>)
  show "does (permitted p ns) 1 (apply_restart_workload ap p ns sa)" if "action p = RESTART_WORKLOAD"
    unfolding apply_restart_workload_def Let_def
    by (intro does_intros does_patch_deployment) (use that in \<open>simp_all add: restart_patch_def\<close>)
  show "does (permitted p ns) 1 (apply_scale_workload ap p ns sa)" if "action p = SCALE_WORKLOAD"
    unfolding apply_scale_workload_def Let_def
    by (intro does_intros does_patch_deployment) (use that in \<open>simp_all add: scale_patch_def\<close>)
  show "does (permitted p ns) 1 (apply_disable_flag ap p ns sa)" if "action p = DISABLE_FLAG"
    unfolding apply_disable_flag_def
    by (intro does_intros does_set_config_key) (use that in simp_all)
  show "does (permitted p ns) 1 (apply_revert_config ap p ns sa)" if "action p = REVERT_CONFIG"
    unfolding apply_revert_config_def
    by (intro does_intros does_set_config_key) (use that in simp_all)
  show "does (permitted p ns) 1 apply_no_action" if "action p = NO_ACTION"
    unfolding apply_no_action_def by (intro does_intros)
qed

lemma apply_plan_does: "does (permitted p ns) 1 (apply_plan ap p ns sa)"
  by (cases "action p") (simp_all only: apply_plan_def Let_def ActionType.case handlers_do)

section \<open>A cluster behind the API\<close>

text \<open>
  What the Kubernetes API documents of a strategic merge patch: maps are merged key by key, containers by
  name, and a field that the patch does not give stays.  An applier is served by a cluster when every read
  returns the object as the successful patches so far have left it.
\<close>

record Cluster =
  cl_deployments :: "string \<times> string \<Rightarrow> K8sDeployment option"
  cl_config_maps :: "string \<times> string \<Rightarrow> K8sConfigMap option"

fun merge_container :: "string \<times> string \<times> (string \<times> string) list \<Rightarrow> Container list \<Rightarrow> Container list" where
  "merge_container (n, img, env) [] = [\<lparr>c_name = n, c_image = Some img, c_env = env\<rparr>]"
| "merge_container (n, img, env) (c # cs) =
     (if c_name c = n then c\<lparr>c_image := Some img, c_env := dict_merge (c_env c) env\<rparr> # cs
      else c # merge_container (n, img, env) cs)"

definition merge_deployment :: "DeploymentPatch \<Rightarrow> K8sDeployment \<Rightarrow> K8sDeployment" where
  "merge_deployment b d = \<lparr>kd_annotations = dict_merge (kd_annotations d) (dp_annotations b),
     kd_template_annotations = dict_merge (kd_template_annotations d) (dp_template_annotations b),
     kd_replicas = (case dp_replicas b of None \<Rightarrow> kd_replicas d | Some n \<Rightarrow> Some n),
     kd_containers = foldl (\<lambda>cs c. merge_container c cs) (kd_containers d) (dp_containers b)\<rparr>"

definition merge_config_map :: "ConfigMapPatch \<Rightarrow> K8sConfigMap \<Rightarrow> K8sConfigMap" where
  "merge_config_map b m = \<lparr>km_annotations = dict_merge (km_annotations m) (cp_annotations b),
     km_data = dict_merge (km_data m) (cp_data b)\<rparr>"

fun after_call :: "Cluster \<Rightarrow> KCall \<times> bool \<Rightarrow> Cluster" where
  "after_call c (PatchDeployment who w ns body, True) = c\<lparr>cl_deployments :=
     (cl_deployments c)((ns, w) := map_option (merge_deployment body) (cl_deployments c (ns, w)))\<rparr>"
| "after_call c (PatchConfigMap who cm ns body, True) = c\<lparr>cl_config_maps :=
     (cl_config_maps c)((ns, cm) := map_option (merge_config_map body) (cl_config_maps c (ns, cm)))\<rparr>"
| "after_call c _ = c"

definition replay :: "Cluster \<Rightarrow> KCall trace \<Rightarrow> Cluster" where
  "replay c h = foldl after_call c h"

definition found :: "'a option \<Rightarrow> PyExc + 'a" where
  "found x = (case x of Some y \<Rightarrow> Inr y | None \<Rightarrow> Inl (Raised ''ApiException'' ''Not Found''))"

definition serves :: "Cluster \<Rightarrow> Applier \<Rightarrow> bool" where
  "serves c ap \<longleftrightarrow>
     (\<forall>w ns h. ka_read_deployment ap w ns h = found (cl_deployments (replay c h) (ns, w))) \<and>
     (\<forall>cm ns h. ka_read_config_map ap cm ns h = found (cl_config_maps (replay c h) (ns, cm)))"

text \<open>A patch of an object that exists is accepted.\<close>

definition accepts :: "Cluster \<Rightarrow> Applier \<Rightarrow> bool" where
  "accepts c ap \<longleftrightarrow>
     (\<forall>w ns body h. cl_deployments (replay c h) (ns, w) \<noteq> None \<longrightarrow> ka_patch_deployment ap w ns body h = Inr ()) \<and>
     (\<forall>cm ns body h. cl_config_maps (replay c h) (ns, cm) \<noteq> None \<longrightarrow> ka_patch_config_map ap cm ns body h = Inr ())"

lemma replay_snoc [simp]: "replay c (h @ [e]) = after_call (replay c h) e"
  by (simp add: replay_def)

lemma replay_append: "replay c (h @ k) = foldl after_call (replay c h) k"
  by (simp add: replay_def)

lemma found_iff [simp]: "found x = Inr y \<longleftrightarrow> x = Some y"
  by (auto simp: found_def split: option.splits)

lemma last_applied_merge:
  "last_applied (merge_deployment b d) = (case map_of (rev (dp_annotations b)) ANNOTATION_PLAN_ID of
     Some i \<Rightarrow> Some i | None \<Rightarrow> last_applied d)"
  by (simp add: last_applied_def merge_deployment_def map_of_dict_merge map_add_def split: option.split)

lemma api_guard_Inr [simp]: "api_guard what m h = (Inr x, h') \<longleftrightarrow> m h = (Inr x, h')"
  by (auto simp: api_guard_def actuation_error_def split: prod.splits sum.splits PyExc.splits if_splits)

lemma annotation_names [simp]:
  "ANNOTATION_PLAN_ID \<noteq> ANNOTATION_REPLICA_DELTA" "ANNOTATION_REPLICA_DELTA \<noteq> ANNOTATION_PLAN_ID"
  by (simp_all add: ANNOTATION_PLAN_ID_def ANNOTATION_REPLICA_DELTA_def)

text \<open>Reading serves the state and does not change it.\<close>

lemma read_served:
  assumes "serves c ap"
  shows "read_deployment ap w ns sa h = (Inr d, h') \<longleftrightarrow>
    cl_deployments (replay c h) (ns, w) = Some d \<and> h' = h @ [(ReadDeployment (impersonated ap ns sa) w ns, True)]"
  using assms by (auto simp: read_deployment_def acall_Inr_iff serves_def)

lemma patch_served:
  "patch_deployment ap what w ns sa body h = (Inr ok, h') \<longleftrightarrow> ok \<and> ka_patch_deployment ap w ns body h = Inr () \<and>
     h' = h @ [(PatchDeployment (impersonated ap ns sa) w ns body, True)]"
  by (auto simp: patch_deployment_def abind_Inr_iff acall_Inr_iff aret_iff)

section \<open>A name marks a Deployment\<close>

text \<open>After an action on a Deployment that left its mark, the Deployment carries the plan's name.\<close>

lemma restart_marks:
  assumes "serves c ap" "apply_restart_workload ap p ns sa h = (Inr ok, h')"
  shows "\<exists>d. cl_deployments (replay c h') (ns, workload (params p)) = Some d \<and> last_applied d = Some (plan_id p)"
  using assms(2)
  by (auto simp: apply_restart_workload_def Let_def abind_Inr_iff aask_iff alift_iff aret_iff actuation_error_def
      read_served [OF assms(1)] patch_served last_applied_merge restart_patch_def replay_append split: if_splits)

lemma scale_marks:
  assumes "serves c ap" "apply_scale_workload ap p ns sa h = (Inr ok, h')"
  shows "\<exists>d. cl_deployments (replay c h') (ns, workload (params p)) = Some d \<and> last_applied d = Some (plan_id p)"
  using assms(2)
  by (auto simp: apply_scale_workload_def Let_def abind_Inr_iff alift_iff aret_iff actuation_error_def
      read_served [OF assms(1)] patch_served last_applied_merge scale_patch_def replay_append split: if_splits option.splits)

lemma marked_skips:
  assumes "serves c ap" "cl_deployments (replay c h) (ns, workload (params q)) = Some d"
    and "last_applied d = Some (plan_id q)" "workload (params q) \<noteq> []"
  shows "apply_restart_workload ap q ns sa h =
      (Inr True, h @ [(ReadDeployment (impersonated ap ns sa) (workload (params q)) ns, True)])"
    and "replica_delta (params q) \<noteq> None \<Longrightarrow> apply_scale_workload ap q ns sa h =
      (Inr True, h @ [(ReadDeployment (impersonated ap ns sa) (workload (params q)) ns, True)])"
proof -
  let ?h' = "h @ [(ReadDeployment (impersonated ap ns sa) (workload (params q)) ns, True)]"
  have read: "read_deployment ap (workload (params q)) ns sa h = (Inr d, ?h')"
    using assms(2) by (simp add: read_served [OF assms(1)])
  show "apply_restart_workload ap q ns sa h = (Inr True, ?h')"
    using assms(3,4) by (simp add: apply_restart_workload_def Let_def abind_def read aret_def)
  show "apply_scale_workload ap q ns sa h = (Inr True, ?h')" if "replica_delta (params q) \<noteq> None"
    using assms(3,4) that by (auto simp: apply_scale_workload_def Let_def abind_def read aret_def)
qed

text \<open>Calls that leave one Deployment alone.\<close>

fun spares :: "string \<Rightarrow> string \<Rightarrow> KCall \<times> bool \<Rightarrow> bool" where
  "spares ns w (PatchDeployment who w' ns' body, b) \<longleftrightarrow> w' \<noteq> w \<or> ns' \<noteq> ns"
| "spares ns w _ \<longleftrightarrow> True"

lemma spared:
  "\<forall>e \<in> set k. spares ns w e \<Longrightarrow> cl_deployments (foldl after_call c k) (ns, w) = cl_deployments c (ns, w)"
proof (induction k arbitrary: c)
  case (Cons e k)
  obtain call b where e: "e = (call, b)" by (cases e)
  have "cl_deployments (after_call c e) (ns, w) = cl_deployments c (ns, w)"
    using Cons.prems unfolding e by (cases call; cases b) auto
  with Cons show ?case by simp
qed simp

section \<open>Properties\<close>


text \<open>A plan is applied once, and so is a name: after a restart or a scaling of a workload, every later restart or
  scaling of it under the same plan name reports success without patching anything, so that repeating a plan does
  nothing, and neither does another plan that bears its name.\<close>

theorem applied_name_blocks:
  assumes "serves c ap" "apply_plan ap p ns sa h = (Inr ok, h')"
    and "action p \<in> {RESTART_WORKLOAD, SCALE_WORKLOAD}" "action q \<in> {RESTART_WORKLOAD, SCALE_WORKLOAD}"
    and "plan_id q = plan_id p" "workload (params q) = workload (params p)" "workload (params q) \<noteq> []"
    and "action q = SCALE_WORKLOAD \<longrightarrow> replica_delta (params q) \<noteq> None"
    and "\<forall>e \<in> set k. spares ns (workload (params p)) e"
  shows "\<exists>read. apply_plan ap q ns sa (h' @ k) = (Inr True, h' @ k @ [(read, True)]) \<and> \<not> is_patch read"
proof -
  have "\<exists>d. cl_deployments (replay c h') (ns, workload (params p)) = Some d \<and> last_applied d = Some (plan_id p)"
    using assms(2,3) restart_marks [OF assms(1)] scale_marks [OF assms(1)] by (auto simp: apply_plan_def Let_def)
  then obtain d where "cl_deployments (replay c (h' @ k)) (ns, workload (params q)) = Some d"
    "last_applied d = Some (plan_id q)"
    using assms(5,6,9) by (auto simp: replay_append spared)
  note skips = marked_skips [OF assms(1) this assms(7)]
  show ?thesis using assms(4,8) skips by (auto simp: apply_plan_def Let_def)
qed

subsection \<open>Applying and reverting\<close>

lemma scale_runs:
  assumes "serves c ap" "accepts c ap" "cl_deployments (replay c h) (ns, workload (params p)) = Some d"
    and "workload (params p) \<noteq> []" "replica_delta (params p) = Some delta" "last_applied d \<noteq> Some (plan_id p)"
    and "0 \<le> current_replicas d + delta"
  shows "\<exists>h' d'. apply_scale_workload ap p ns sa h = (Inr True, h') \<and>
    cl_deployments (replay c h') (ns, workload (params p)) = Some d' \<and> last_applied d' = Some (plan_id p) \<and>
    current_replicas d' = current_replicas d + delta \<and> kd_containers d' = kd_containers d"
proof -
  let ?w = "workload (params p)"
  let ?h1 = "h @ [(ReadDeployment (impersonated ap ns sa) ?w ns, True)]"
  let ?body = "scale_patch p delta (current_replicas d + delta)"
  let ?h2 = "?h1 @ [(PatchDeployment (impersonated ap ns sa) ?w ns ?body, True)]"
  have read: "read_deployment ap ?w ns sa h = (Inr d, ?h1)"
    using assms(3) by (simp add: read_served [OF assms(1)])
  have "cl_deployments (replay c ?h1) (ns, ?w) \<noteq> None" using assms(3) by simp
  then have "ka_patch_deployment ap ?w ns ?body ?h1 = Inr ()" using assms(2) unfolding accepts_def by blast
  then have patch: "patch_deployment ap what ?w ns sa ?body ?h1 = (Inr True, ?h2)" for what
    by (simp add: patch_served)
  have run: "apply_scale_workload ap p ns sa h = (Inr True, ?h2)"
    using assms(4-7) read patch by (simp add: apply_scale_workload_def Let_def abind_def)
  have "cl_deployments (replay c ?h2) (ns, ?w) = Some (merge_deployment ?body d)"
    using assms(3) by (simp add: replay_append)
  moreover have "current_replicas (merge_deployment ?body d) = current_replicas d + delta"
    "kd_containers (merge_deployment ?body d) = kd_containers d"
    "last_applied (merge_deployment ?body d) = Some (plan_id p)"
    by (simp_all add: last_applied_merge scale_patch_def) (simp_all add: merge_deployment_def current_replicas_def)
  ultimately show ?thesis using run by blast
qed

lemma set_key_runs:
  assumes "serves c ap" "accepts c ap" "cl_config_maps (replay c h) (ns, cm) = Some m" "map_of (km_data m) key \<noteq> Some v"
  shows "\<exists>h' m'. set_config_key ap p cm ns sa key v h = (Inr True, h') \<and>
    cl_config_maps (replay c h') (ns, cm) = Some m' \<and> map_of (km_data m') = (map_of (km_data m))(key \<mapsto> v)"
proof -
  let ?h1 = "h @ [(ReadConfigMap (impersonated ap ns sa) cm ns, True)]"
  let ?body = "\<lparr>cp_annotations = [(ANNOTATION_PLAN_ID, plan_id p)], cp_data = [(key, v)]\<rparr>"
  let ?h2 = "?h1 @ [(PatchConfigMap (impersonated ap ns sa) cm ns ?body, True)]"
  have read: "ka_read_config_map ap cm ns h = Inr m" using assms(1,3) by (simp add: serves_def)
  have "cl_config_maps (replay c ?h1) (ns, cm) \<noteq> None" using assms(3) by simp
  then have patch: "ka_patch_config_map ap cm ns ?body ?h1 = Inr ()" using assms(2) unfolding accepts_def by blast
  have run: "set_config_key ap p cm ns sa key v h = (Inr True, ?h2)"
    using assms(4) read patch by (simp add: set_config_key_def Let_def abind_Inr_iff acall_Inr_iff aret_iff)
  have "cl_config_maps (replay c ?h2) (ns, cm) = Some (merge_config_map ?body m)"
    using assms(3) by (simp add: replay_append)
  moreover have "map_of (km_data (merge_config_map ?body m)) = (map_of (km_data m))(key \<mapsto> v)"
    by (simp add: merge_config_map_def map_of_dict_merge fun_eq_iff map_add_def)
  ultimately show ?thesis using run by blast
qed

text \<open>Reverting a scaling restores it: on a cluster that serves reads and accepts patches, a scaling plan not yet applied,
  followed by the revert with its synthesised inverse, succeeds and leaves the replica count and the containers as they
  were.\<close>

theorem revert_restores_replicas:
  assumes "serves c ap" "accepts c ap" "action p = SCALE_WORKLOAD"
    and "synthesize_inverse p context commit current cluster lookup = Inr (Some q)"
    and "cl_deployments (replay c h) (ns, workload (params p)) = Some d" "last_applied d \<noteq> Some (plan_id p)"
    and "0 \<le> current_replicas d" "0 \<le> current_replicas d + the (replica_delta (params p))"
  shows "\<exists>h1 h2 d'. apply_plan ap p ns sa h = (Inr True, h1) \<and>
    revert_plan ap (with_inverse (Some q) p) ns sa h1 = (Inr True, h2) \<and>
    cl_deployments (replay c h2) (ns, workload (params p)) = Some d' \<and>
    current_replicas d' = current_replicas d \<and> kd_containers d' = kd_containers d"
proof -
  let ?w = "workload (params p)" and ?sa = "resolve_service_account (ka_prod_namespace ap) ns sa"
  obtain delta where delta: "replica_delta (params p) = Some delta" and w: "?w \<noteq> []"
    and q: "action q = SCALE_WORKLOAD" "plan_id q = plan_id p @ ''_inv''" "workload (params q) = ?w"
      "replica_delta (params q) = Some (- delta)"
    using assms(3,4)
    by (elim synthesize_Some) (auto simp: inverse_builder_def build_inverse_scale_workload_def split: option.splits if_splits)
  obtain h1 d1 where 1: "apply_scale_workload ap p ns ?sa h = (Inr True, h1)"
    "cl_deployments (replay c h1) (ns, ?w) = Some d1" "last_applied d1 = Some (plan_id p)"
    "current_replicas d1 = current_replicas d + delta" "kd_containers d1 = kd_containers d"
    using scale_runs [OF assms(1,2,5) w delta assms(6), of ?sa] assms(8) [unfolded delta option.sel] by blast
  have "last_applied d1 \<noteq> Some (plan_id q)" "0 \<le> current_replicas d1 + - delta" using 1(3,4) q(2) assms(7) by simp_all
  then obtain h2 d2 where 2: "apply_scale_workload ap q ns ?sa h1 = (Inr True, h2)"
    "cl_deployments (replay c h2) (ns, ?w) = Some d2"
    "current_replicas d2 = current_replicas d1 + - delta" "kd_containers d2 = kd_containers d1"
    using scale_runs [OF assms(1,2), of h1 ns q d1 "- delta" ?sa] 1(2) w q(3,4) by fastforce
  show ?thesis
    using 1 2 assms(3) q(1) by (intro exI [of _ h1] exI [of _ h2] exI [of _ d2]) (simp add: apply_plan_def revert_plan_def)
qed

text \<open>Reverting a configuration restores it: a plan that changes a flag or a key, followed by the revert with its
  synthesised inverse, succeeds and leaves the whole data of the configuration map as it was: a flag that was in the
  opposite position, a key whose value was the one the inverse was synthesised with.\<close>

theorem revert_restores_config:
  assumes "serves c ap" "accepts c ap" "config_value (params p) \<noteq> Some ''true'' \<or> action p = REVERT_CONFIG"
    and "synthesize_inverse p context commit (Some v0) cluster lookup = Inr (Some q)"
    and "(action p = DISABLE_FLAG \<and> key = the (flag_name (params p)) \<and> cm = resolve_config_map_name p ''feature-flags'' \<and>
        v = flag_value p \<and> v0 = (if v = ''true'' then ''false'' else ''true'')) \<or>
      (action p = REVERT_CONFIG \<and> key = the (config_key (params p)) \<and> cm = resolve_config_map_name p ''app-config'' \<and>
        Some v = config_value (params p) \<and> v0 \<noteq> v)"
    and "cl_config_maps (replay c h) (ns, cm) = Some m" "map_of (km_data m) key = Some v0"
  shows "\<exists>h1 h2 m'. apply_plan ap p ns sa h = (Inr True, h1) \<and>
    revert_plan ap (with_inverse (Some q) p) ns sa h1 = (Inr True, h2) \<and>
    cl_config_maps (replay c h2) (ns, cm) = Some m' \<and> map_of (km_data m') = map_of (km_data m)"
proof -
  let ?sa = "resolve_service_account (ka_prod_namespace ap) ns sa"
  have apply_p: "apply_plan ap p ns sa = set_config_key ap p cm ns ?sa key v"
    and apply_q: "revert_plan ap (with_inverse (Some q) p) ns sa = set_config_key ap q cm ns ?sa key v0"
    and ne: "v0 \<noteq> v"
  proof -
    from assms(4) obtain ps why where
      b: "inverse_builder p (workload (params p)) context commit (Some v0) lookup = Inr (action p, ps, why)"
      and q: "q = RemediationPlan (plan_id p @ ''_inv'') (candidate_index p) (action p) ps (target_resources p)
         (declared_blast_set p) None why (origin p) (playbook_id p)" "workload ps = workload (params p)"
      by (rule synthesize_Some) blast
    have cm_q: "resolve_config_map_name q def = resolve_config_map_name p def" for "def"
      using q by (simp add: resolve_config_map_name_def split: option.split)
    from assms(5) show "apply_plan ap p ns sa = set_config_key ap p cm ns ?sa key v"
    proof
      assume "action p = DISABLE_FLAG \<and> key = the (flag_name (params p)) \<and>
        cm = resolve_config_map_name p ''feature-flags'' \<and> v = flag_value p \<and>
        v0 = (if v = ''true'' then ''false'' else ''true'')"
      then show ?thesis using b
        by (auto simp: apply_plan_def apply_disable_flag_def inverse_builder_def build_inverse_disable_flag_def fun_eq_iff
            split: if_splits)
    next
      assume "action p = REVERT_CONFIG \<and> key = the (config_key (params p)) \<and>
        cm = resolve_config_map_name p ''app-config'' \<and> Some v = config_value (params p) \<and> v0 \<noteq> v"
      then show ?thesis using b
        by (auto simp: apply_plan_def apply_revert_config_def inverse_builder_def build_inverse_revert_config_def fun_eq_iff
            split: if_splits option.splits)
    qed
    from assms(5) show "revert_plan ap (with_inverse (Some q) p) ns sa = set_config_key ap q cm ns ?sa key v0"
    proof
      assume a: "action p = DISABLE_FLAG \<and> key = the (flag_name (params p)) \<and>
        cm = resolve_config_map_name p ''feature-flags'' \<and> v = flag_value p \<and>
        v0 = (if v = ''true'' then ''false'' else ''true'')"
      have ps: "flag_name ps = flag_name (params p)" "given (flag_name ps)" "config_value ps = None"
        "re_enables why \<longleftrightarrow> \<not> re_enables (rationale p)"
        using a b by (auto simp: inverse_builder_def build_inverse_disable_flag_def workload_params_def given_def Let_def
            split: if_splits)
      have "config_value (params p) \<noteq> Some ''true''" using a assms(3) by simp
      then have "flag_value q = v0" using a ps(3,4) q(1) by (auto simp: flag_value_def)
      then show ?thesis using a ps(1,2) q(1) cm_q
        by (simp add: revert_plan_def apply_plan_def apply_disable_flag_def)
    next
      assume a: "action p = REVERT_CONFIG \<and> key = the (config_key (params p)) \<and>
        cm = resolve_config_map_name p ''app-config'' \<and> Some v = config_value (params p) \<and> v0 \<noteq> v"
      have "config_key ps = config_key (params p)" "given (config_key ps)" "config_value ps = Some v0"
        using a b by (auto simp: inverse_builder_def build_inverse_revert_config_def workload_params_def given_def
            resolve_prior_config_value_def Let_def split: if_splits)
      then show ?thesis using a q(1) cm_q
        by (simp add: revert_plan_def apply_plan_def apply_revert_config_def)
    qed
    show "v0 \<noteq> v" using assms(5) by (auto simp: flag_value_def split: if_splits)
  qed
  obtain h1 m1 where 1: "set_config_key ap p cm ns ?sa key v h = (Inr True, h1)"
    "cl_config_maps (replay c h1) (ns, cm) = Some m1" "map_of (km_data m1) = (map_of (km_data m))(key \<mapsto> v)"
    using set_key_runs [OF assms(1,2,6)] assms(7) ne by (metis option.inject)
  obtain h2 m2 where 2: "set_config_key ap q cm ns ?sa key v0 h1 = (Inr True, h2)"
    "cl_config_maps (replay c h2) (ns, cm) = Some m2" "map_of (km_data m2) = (map_of (km_data m1))(key \<mapsto> v0)"
    using set_key_runs [OF assms(1,2) 1(2)] 1(3) ne by (metis fun_upd_same option.inject)
  have "map_of (km_data m2) = map_of (km_data m)" using 1(3) 2(3) assms(7) by (simp add: fun_upd_idem)
  then show ?thesis unfolding apply_p apply_q using 1(1) 2(1,2) by blast
qed

section \<open>A cluster\<close>

text \<open>An applier on a cluster that does what the documentation of the API says.\<close>

definition cluster_applier :: "Cluster \<Rightarrow> Applier" where
  "cluster_applier c = \<lparr>
     ka_read_deployment = (\<lambda>w ns h. found (cl_deployments (replay c h) (ns, w))),
     ka_patch_deployment = (\<lambda>w ns body h. bindE (found (cl_deployments (replay c h) (ns, w))) (\<lambda>_. Inr ())),
     ka_read_config_map = (\<lambda>cm ns h. found (cl_config_maps (replay c h) (ns, cm))),
     ka_patch_config_map = (\<lambda>cm ns body h. bindE (found (cl_config_maps (replay c h) (ns, cm))) (\<lambda>_. Inr ())),
     ka_deploy_history = None, ka_injected = False, ka_now = (\<lambda>h. 0), ka_std = sample_std, ka_sha256 = (\<lambda>s. s),
     ka_prod_namespace = ''ust-prod''\<rparr>"

lemma cluster_applier_ok: "serves c (cluster_applier c)" "accepts c (cluster_applier c)"
  by (auto simp: serves_def accepts_def cluster_applier_def found_def split: option.splits)

definition sample_cluster :: Cluster where
  "sample_cluster = \<lparr>
     cl_deployments = (\<lambda>k. if k = (''ust-prod'', ''db'') then Some \<lparr>kd_annotations = [], kd_template_annotations = [],
       kd_replicas = Some 2, kd_containers = [\<lparr>c_name = ''db'', c_image = Some ''repo/db:good'', c_env = []\<rparr>]\<rparr> else None),
     cl_config_maps = (\<lambda>k. if k = (''ust-prod'', ''feature-flags'') then Some \<lparr>km_annotations = [],
       km_data = [(''beta'', ''true'')]\<rparr> else None)\<rparr>"

definition restart_candidate :: RemediationPlan where
  "restart_candidate = RemediationPlan ''plan_cand_0'' 0 RESTART_WORKLOAD (workload_params ''db'') [sample_target] [''gw'']
     None ''hung'' Planner None"

lemma applied_name_blocks_witness:
  "\<exists>h' read. fst (apply_plan (cluster_applier sample_cluster) restart_candidate ''ust-prod'' None []) = Inr True \<and>
     apply_plan (cluster_applier sample_cluster) scale_candidate ''ust-prod'' None h' = (Inr True, h' @ [(read, True)]) \<and>
     \<not> is_patch read"
proof -
  let ?ap = "cluster_applier sample_cluster"
  have "fst (apply_plan ?ap restart_candidate ''ust-prod'' None []) = Inr True" by code_simp
  then obtain h' where 1: "apply_plan ?ap restart_candidate ''ust-prod'' None [] = (Inr True, h')"
    by (metis prod.collapse)
  have "\<exists>read. apply_plan ?ap scale_candidate ''ust-prod'' None (h' @ []) = (Inr True, h' @ [] @ [(read, True)]) \<and>
      \<not> is_patch read"
    by (rule applied_name_blocks [OF cluster_applier_ok(1) 1])
      (simp_all add: restart_candidate_def scale_candidate_def workload_params_def)
  with 1 show ?thesis by auto
qed

lemma revert_restores_replicas_witness:
  "\<exists>q h1 h2. apply_plan (cluster_applier sample_cluster) scale_candidate ''ust-prod'' None [] = (Inr True, h1) \<and>
     revert_plan (cluster_applier sample_cluster) (with_inverse (Some q) scale_candidate) ''ust-prod'' None h1 = (Inr True, h2) \<and>
     map_option current_replicas (cl_deployments (replay sample_cluster h2) (''ust-prod'', ''db'')) = Some 2"
proof -
  let ?q = "RemediationPlan ''plan_cand_0_inv'' 0 SCALE_WORKLOAD ((workload_params ''db'')\<lparr>replica_delta := Some (- 1)\<rparr>)
    [sample_target] [''gw''] None (fstr [''Scale '', ''db'', '' back by '', signed_str (- 1), '' replicas (reversing delta of '',
      signed_str 1, '')'']) Planner None"
  let ?d = "\<lparr>kd_annotations = [], kd_template_annotations = [],
       kd_replicas = Some 2, kd_containers = [\<lparr>c_name = ''db'', c_image = Some ''repo/db:good'', c_env = []\<rparr>]\<rparr>"
  have q: "synthesize_inverse scale_candidate None None None None None = Inr (Some ?q)"
    by (simp add: synthesize_inverse_def scale_candidate_def inverse_builder_def build_inverse_scale_workload_def Let_def)
  have "\<exists>h1 h2 d'. apply_plan (cluster_applier sample_cluster) scale_candidate ''ust-prod'' None [] = (Inr True, h1) \<and>
    revert_plan (cluster_applier sample_cluster) (with_inverse (Some ?q) scale_candidate) ''ust-prod'' None h1 = (Inr True, h2) \<and>
    cl_deployments (replay sample_cluster h2) (''ust-prod'', workload (params scale_candidate)) = Some d' \<and>
    current_replicas d' = current_replicas ?d \<and> kd_containers d' = kd_containers ?d"
    by (rule revert_restores_replicas [OF cluster_applier_ok _ q])
      (simp_all add: scale_candidate_def sample_cluster_def replay_def last_applied_def current_replicas_def)
  then show ?thesis by (force simp: scale_candidate_def current_replicas_def)
qed

lemma revert_restores_config_witness:
  "\<exists>q h1 h2 m. synthesize_inverse (with_params ((workload_params ''feature-flags'')\<lparr>flag_name := Some ''beta''\<rparr>) flag_plan)
       None None (Some ''true'') None None = Inr (Some q) \<and>
     revert_plan (cluster_applier sample_cluster) (with_inverse (Some q)
       (with_params ((workload_params ''feature-flags'')\<lparr>flag_name := Some ''beta''\<rparr>) flag_plan)) ''ust-prod'' None h1 =
       (Inr True, h2) \<and>
     cl_config_maps (replay sample_cluster h2) (''ust-prod'', ''feature-flags'') = Some m \<and>
     map_of (km_data m) ''beta'' = Some ''true''"
proof -
  let ?p = "with_params ((workload_params ''feature-flags'')\<lparr>flag_name := Some ''beta''\<rparr>) flag_plan"
  have off: "\<not> re_enables ''turn the feature off''"
    by (simp add: re_enables_def py_lower_def startswith_def lower_char_def Let_def)
  have flag: "flag_value ?p = ''false''" by (simp add: flag_value_def flag_plan_def off workload_params_def)
  have cm: "resolve_config_map_name ?p ''feature-flags'' = ''feature-flags''" by code_simp
  obtain q where q: "synthesize_inverse ?p None None (Some ''true'') None None = Inr (Some q)"
    by (simp add: synthesize_inverse_def flag_plan_def inverse_builder_def build_inverse_disable_flag_def off Let_def)
  have "\<exists>h1 h2 m'. apply_plan (cluster_applier sample_cluster) ?p ''ust-prod'' None [] = (Inr True, h1) \<and>
    revert_plan (cluster_applier sample_cluster) (with_inverse (Some q) ?p) ''ust-prod'' None h1 = (Inr True, h2) \<and>
    cl_config_maps (replay sample_cluster h2) (''ust-prod'', ''feature-flags'') = Some m' \<and>
    map_of (km_data m') = map_of (km_data \<lparr>km_annotations = [], km_data = [(''beta'', ''true'')]\<rparr>)"
    by (rule revert_restores_config [OF cluster_applier_ok _ q, where key = "''beta''" and v = "''false''"])
      (simp_all add: flag cm, simp_all add: sample_cluster_def replay_def flag_plan_def workload_params_def)
  then show ?thesis using q by fastforce
qed

text \<open>A flag plan changes an object it does not declare: its target is a Deployment, and what is patched is the
  configuration map of the flags.\<close>

lemma flag_patches_undeclared:
  "let p = prompt_candidate_to_remediation_plan \<lparr>pc_action = DISABLE_FLAG,
       pc_params = (workload_params ''db'')\<lparr>flag_name := Some ''beta''\<rparr>, pc_declared_blast_set = [''db''], pc_inverse = None,
       pc_rationale = ''off''\<rparr> 0;
     k = snd (apply_plan (cluster_applier sample_cluster) p ''ust-prod'' None []) in
   target_resources p = [sample_target] \<and>
   list_ex (\<lambda>e. case fst e of PatchConfigMap who cm ns body \<Rightarrow> cm = ''feature-flags'' | _ \<Rightarrow> False) k"
  by code_simp



end
