(* ===== verification/Triples.thy ===== *)
theory Triples
  imports Effects
begin

text \<open>
  Weakest preconditions of effectful code: what must hold of the trace for a computation to end with a
  value in \<open>Q\<close> or an exception in \<open>E\<close>, with one rule per combinator and an invariant rule per loop.
\<close>

section \<open>More combinators\<close>

text \<open>A loop over a list that carries a state.\<close>

fun afold :: "('s \<Rightarrow> 'b \<Rightarrow> ('c, 's) act) \<Rightarrow> 's \<Rightarrow> 'b list \<Rightarrow> ('c, 's) act" where
  "afold f s [] = aret s"
| "afold f s (x # xs) = abind (f s x) (\<lambda>s'. afold f s' xs)"

text \<open>A loop whose body ends it with \<open>Inl\<close> or goes on with \<open>Inr\<close>; \<open>None\<close> when the fuel is spent.\<close>

fun run_loop :: "nat \<Rightarrow> ('s \<Rightarrow> ('c, 'r + 's) act) \<Rightarrow> 's \<Rightarrow> 'c trace \<Rightarrow> ((PyExc + 'r) \<times> 'c trace) option" where
  "run_loop 0 body s h = None"
| "run_loop (Suc n) body s h =
     (case body s h of
        (Inl e, h') \<Rightarrow> Some (Inl e, h')
      | (Inr (Inl r), h') \<Rightarrow> Some (Inr r, h')
      | (Inr (Inr s'), h') \<Rightarrow> run_loop n body s' h')"

text \<open>
  A call of the Kubernetes client: an \<open>ApiException\<close>, with its status and reason, is handed to the code that
  follows, which looks at the status; any other exception goes through.
\<close>

datatype ApiFault = ApiException int string | OtherFault PyExc

definition acall_api :: "'c \<Rightarrow> ('c trace \<Rightarrow> ApiFault + 'a) \<Rightarrow> ('c, (int \<times> string) + 'a) act" where
  "acall_api c f h =
     (case f h of
        Inl (ApiException status reason) \<Rightarrow> (Inr (Inl (status, reason)), h @ [(c, False)])
      | Inl (OtherFault e) \<Rightarrow> (Inl e, h @ [(c, False)])
      | Inr x \<Rightarrow> (Inr (Inr x), h @ [(c, True)]))"

lemma emits_acall_api [emits_intros]: "P c \<Longrightarrow> emits P (acall_api c f)"
  by (auto simp: emits_def acall_api_def split: sum.splits ApiFault.splits)

lemma emits_afold [emits_intros]: "(\<And>s x. emits P (f s x)) \<Longrightarrow> emits P (afold f s xs)"
  by (induction xs arbitrary: s) (auto intro!: emits_intros)

lemma emits_sum [emits_intros]:
  "(\<And>a. x = Inl a \<Longrightarrow> emits P (f a)) \<Longrightarrow> (\<And>b. x = Inr b \<Longrightarrow> emits P (g b)) \<Longrightarrow> emits P (case x of Inl a \<Rightarrow> f a | Inr b \<Rightarrow> g b)"
  by (cases x) auto

lemma emits_pair [emits_intros]: "(\<And>a b. x = (a, b) \<Longrightarrow> emits P (f a b)) \<Longrightarrow> emits P (case x of (a, b) \<Rightarrow> f a b)"
  by (cases x) auto

section \<open>Weakest preconditions\<close>

definition wp :: "('c, 'a) act \<Rightarrow> ('a \<Rightarrow> 'c trace \<Rightarrow> bool) \<Rightarrow> (PyExc \<Rightarrow> 'c trace \<Rightarrow> bool) \<Rightarrow> 'c trace \<Rightarrow> bool" where
  "wp m Q E h = (case m h of (Inl e, h') \<Rightarrow> E e h' | (Inr x, h') \<Rightarrow> Q x h')"

lemma wpI: "(\<And>e h'. m h = (Inl e, h') \<Longrightarrow> E e h') \<Longrightarrow> (\<And>x h'. m h = (Inr x, h') \<Longrightarrow> Q x h') \<Longrightarrow> wp m Q E h"
  by (auto simp: wp_def split: prod.splits sum.splits)

lemma wpD: "wp m Q E h \<Longrightarrow> m h = (r, h') \<Longrightarrow> (case r of Inl e \<Rightarrow> E e h' | Inr x \<Rightarrow> Q x h')"
  by (auto simp: wp_def split: sum.splits)

lemma wp_aret [simp]: "wp (aret x) Q E = Q x"
  by (simp add: fun_eq_iff wp_def aret_def)

lemma wp_araise [simp]: "wp (araise e) Q E = E e"
  by (simp add: fun_eq_iff wp_def araise_def)

lemma wp_aask [simp]: "wp (aask f) Q E = (\<lambda>h. Q (f h) h)"
  by (simp add: fun_eq_iff wp_def aask_def)

lemma wp_alift [simp]: "wp (alift r) Q E = (case r of Inl e \<Rightarrow> E e | Inr x \<Rightarrow> Q x)"
  by (simp add: fun_eq_iff wp_def alift_def split: sum.split)

lemma wp_abind [simp]: "wp (abind m f) Q E = wp m (\<lambda>x. wp (f x) Q E) E"
  by (auto simp: fun_eq_iff wp_def abind_def split: prod.splits sum.splits)

lemma wp_acall [simp]:
  "wp (acall c f) Q E =
     (\<lambda>h. case f h of Inl e \<Rightarrow> E e (h @ [(c, False)]) | Inr x \<Rightarrow> Q x (h @ [(c, True)]))"
  by (auto simp: fun_eq_iff wp_def acall_def split: sum.splits)

lemma wp_acall_api [simp]:
  "wp (acall_api c f) Q E =
     (\<lambda>h. case f h of
        Inl (ApiException status reason) \<Rightarrow> Q (Inl (status, reason)) (h @ [(c, False)])
      | Inl (OtherFault e) \<Rightarrow> E e (h @ [(c, False)])
      | Inr x \<Rightarrow> Q (Inr x) (h @ [(c, True)]))"
  by (auto simp: fun_eq_iff wp_def acall_api_def split: sum.splits ApiFault.splits)

lemma wp_acatch [simp]:
  "wp (acatch m hnd) Q E = wp m Q (\<lambda>e. case e of Raised c t \<Rightarrow> wp (hnd c t) Q E | Cancelled b \<Rightarrow> E e)"
  by (auto simp: fun_eq_iff wp_def acatch_def split: prod.splits sum.splits PyExc.splits)

lemma wp_case [simp]:
  "wp (case p of (a, b) \<Rightarrow> f a b) Q E = (case p of (a, b) \<Rightarrow> wp (f a b) Q E)"
  by (cases p) simp

lemma wp_mono:
  "wp m Q E h \<Longrightarrow> (\<And>x h. Q x h \<Longrightarrow> Q' x h) \<Longrightarrow> (\<And>e h. E e h \<Longrightarrow> E' e h) \<Longrightarrow> wp m Q' E' h"
  by (auto simp: wp_def split: prod.splits sum.splits)

lemma wp_conj: "wp m Q E h \<Longrightarrow> wp m Q' E' h \<Longrightarrow> wp m (\<lambda>x h. Q x h \<and> Q' x h) (\<lambda>e h. E e h \<and> E' e h) h"
  by (auto simp: wp_def split: prod.splits sum.splits)

text \<open>The trace only grows, by calls the computation can make.\<close>

lemma wp_emits:
  assumes "emits P m"
  shows "wp m (\<lambda>x h'. \<exists>k. h' = h @ k \<and> (\<forall>e \<in> set k. P (fst e))) (\<lambda>e h'. \<exists>k. h' = h @ k \<and> (\<forall>e \<in> set k. P (fst e))) h"
  by (rule wpI; rule emitsD [OF assms])

lemma wp_afold:
  assumes "\<And>s x h. x \<in> set xs \<Longrightarrow> I s h \<Longrightarrow> wp (f s x) I E h" "I s h"
  shows "wp (afold f s xs) I E h"
  using assms
proof (induction xs arbitrary: s h)
  case (Cons x xs)
  have "wp (f s x) I E h" using Cons.prems by simp
  then show ?case by (simp, rule wp_mono) (use Cons in auto)
qed simp

lemma wp_aeach:
  assumes "\<And>x h. x \<in> set xs \<Longrightarrow> I h \<Longrightarrow> wp (f x) (\<lambda>_. I) E h" "I h"
  shows "wp (aeach f xs) (\<lambda>_. I) E h"
  using assms
proof (induction xs arbitrary: h)
  case (Cons x xs)
  have "wp (f x) (\<lambda>_. I) E h" using Cons.prems by simp
  then show ?case by (simp, rule wp_mono) (use Cons in auto)
qed simp

lemma wp_amap:
  assumes "\<And>x h. x \<in> set xs \<Longrightarrow> I h \<Longrightarrow> wp (f x) (\<lambda>y h. R x y \<and> I h) E h" "I h"
  shows "wp (amap f xs) (\<lambda>ys h. list_all2 R xs ys \<and> I h) E h"
  using assms
proof (induction xs arbitrary: h)
  case (Cons x xs)
  have "wp (f x) (\<lambda>y h. R x y \<and> I h) E h" using Cons.prems by simp
  then show ?case
  proof (simp, rule wp_mono, goal_cases)
    case (1 y h1)
    have "wp (amap f xs) (\<lambda>ys h. list_all2 R xs ys \<and> I h) E h1" using Cons 1 by auto
    then show ?case unfolding wp_abind by (rule wp_mono) (use 1 in auto)
  qed
qed simp

text \<open>A loop that ends: its body keeps the invariant and lowers the measure as long as it goes on.\<close>

lemma run_loop_ends:
  assumes "\<And>s h. I s h \<Longrightarrow> wp (body s) (\<lambda>r h'. case r of Inl v \<Rightarrow> Q v h' | Inr s' \<Rightarrow> I s' h' \<and> \<mu> s' h' < \<mu> s h) E h"
    and "I s h" "\<mu> s h < n"
  shows "\<exists>x h'. run_loop n body s h = Some (x, h') \<and> (case x of Inl e \<Rightarrow> E e h' | Inr v \<Rightarrow> Q v h')"
  using assms(2,3)
proof (induction n arbitrary: s h)
  case (Suc n)
  obtain r h1 where r: "body s h = (r, h1)" by (cases "body s h")
  note step = wpD [OF assms(1) [OF Suc.prems(1)] r]
  show ?case
  proof (cases r)
    case (Inr y)
    then show ?thesis
    proof (cases y)
      case (Inr s')
      then have "I s' h1" "\<mu> s' h1 < n" using step \<open>r = Inr y\<close> Suc.prems(2) by auto
      from Suc.IH [OF this] show ?thesis using r Inr \<open>r = Inr y\<close> by simp
    qed (use r step in auto)
  qed (use r step in auto)
qed simp

section \<open>Growing traces\<close>

text \<open>The trace has grown from \<open>h0\<close> by calls that satisfy \<open>P\<close>.\<close>

definition grown :: "('c \<Rightarrow> bool) \<Rightarrow> 'c trace \<Rightarrow> 'c trace \<Rightarrow> bool" where
  "grown P h0 h \<longleftrightarrow> (\<exists>k. h = h0 @ k \<and> (\<forall>e \<in> set k. P (fst e)))"

lemma grown_refl [simp]: "grown P h h"
  by (simp add: grown_def)

lemma grown_snoc: "grown P h0 h \<Longrightarrow> P c \<Longrightarrow> grown P h0 (h @ [(c, b)])"
  by (auto simp: grown_def)

lemma grown_trans: "grown P h0 h1 \<Longrightarrow> grown P h1 h2 \<Longrightarrow> grown P h0 h2"
  by (auto simp: grown_def)

lemma grown_set: "grown P h0 h \<Longrightarrow> set h0 \<subseteq> set h"
  by (auto simp: grown_def)

text \<open>A computation whose calls satisfy \<open>P\<close> keeps a trace grown.\<close>

lemma wp_grown:
  assumes "emits Q m" "\<And>c. Q c \<Longrightarrow> P c" "grown P h0 h"
  shows "wp m (\<lambda>_. grown P h0) (\<lambda>_. grown P h0) h"
proof -
  have "emits P m" using assms(1,2) by (rule emits_mono)
  from wp_emits [OF this, of h] show ?thesis
    by (rule wp_mono) (use assms(3) in \<open>auto simp: grown_def\<close>)
qed

end
