(* ===== verification/Rehearsal.thy ===== *)
theory Rehearsal
  imports Triples Arbiter Graph
begin

text \<open>
  What a rehearsal measures: the probe of an environment with its recovery detection
  (\<^verbatim>\<open>src/understudy/tournament/probe.py\<close>) and the blast radius of a plan against the baselines taken before it
  was applied (\<^verbatim>\<open>src/understudy/tournament/blast.py\<close>).  The telemetry and the clock are functions of the history of
  calls; concurrent requests (\<open>asyncio.gather\<close>) are made in the order of their list.
\<close>

section \<open>Recovery (detect_recovery)\<close>

record ProbeConfig =
  pc_service :: string
  poll_interval_seconds :: rat
  warmup_seconds :: rat
  consecutive_healthy_threshold :: int
  timeout_seconds :: rat
  slo_p99_latency_ms :: rat
  slo_error_rate :: rat
  pc_min_probe_samples :: int
  metric_lookback_seconds :: rat

definition default_probe_config :: ProbeConfig where
  "default_probe_config = \<lparr>pc_service = ''edge-gateway'', poll_interval_seconds = 1, warmup_seconds = 20,
     consecutive_healthy_threshold = 15, timeout_seconds = 180, slo_p99_latency_ms = 400, slo_error_rate = 2 / 100,
     pc_min_probe_samples = 60, metric_lookback_seconds = 15\<rparr>"

text \<open>The loop over the sorted samples: the length of the current streak and the time of its first sample.\<close>

fun recovery_scan ::
    "instant \<Rightarrow> instant \<Rightarrow> instant \<Rightarrow> int \<Rightarrow> int \<Rightarrow> instant \<Rightarrow> ProbeSample list \<Rightarrow> bool \<times> rat option" where
  "recovery_scan applied warm tmo need streak start [] = (False, None)"
| "recovery_scan applied warm tmo need streak start (p # ps) =
     (if tmo < ps_at p then (False, None)
      else if ps_at p < warm then recovery_scan applied warm tmo need 0 start ps
      else if ps_healthy p then
        (let start' = (if streak = 0 then ps_at p else start) in
         if need \<le> streak + 1 then (True, Some (py_round 3 (max 0 (start' - applied))))
         else recovery_scan applied warm tmo need (streak + 1) start' ps)
      else recovery_scan applied warm tmo need 0 start ps)"

definition detect_recovery ::
    "ProbeSample list \<Rightarrow> instant \<Rightarrow> instant option \<Rightarrow> rat \<Rightarrow> int \<Rightarrow> rat \<Rightarrow> bool \<times> rat option" where
  "detect_recovery probes applied forked warmup need timeout =
     (let ref = (case forked of Some f \<Rightarrow> f | None \<Rightarrow> applied) in
      recovery_scan applied (ref + warmup) (applied + timeout) need 0 applied (sort_key ps_at probes))"

section \<open>Sampling\<close>

datatype OCall =
    OMetric string instant string instant
  | OHealth string string
  | OSleep rat

record Telemetry =
  to_metric_window :: "string \<Rightarrow> instant \<Rightarrow> string \<Rightarrow> instant \<Rightarrow> OCall trace \<Rightarrow> PyExc + MetricWindow"
  to_service_health :: "string \<Rightarrow> string \<Rightarrow> OCall trace \<Rightarrow> PyExc + bool"
  to_sleep :: "rat \<Rightarrow> OCall trace \<Rightarrow> PyExc + unit"
  to_now :: "OCall trace \<Rightarrow> instant"
  to_http_error :: "string \<Rightarrow> bool"

type_synonym 'a o_act = "(OCall, 'a) act"

text \<open>\<open>except (ObservabilityError, httpx.HTTPError, UnderstudyError)\<close>\<close>

definition telemetry_error :: "Telemetry \<Rightarrow> string \<Rightarrow> bool" where
  "telemetry_error tel c \<longleftrightarrow> isinstance c ''ObservabilityError'' \<or> to_http_error tel c \<or> isinstance c ''UnderstudyError''"

definition recovering :: "Telemetry \<Rightarrow> 'a o_act \<Rightarrow> 'a \<Rightarrow> 'a o_act" where
  "recovering tel m fallback = acatch m (\<lambda>c t. if telemetry_error tel c then aret fallback else araise (Raised c t))"

definition or_default :: "string option \<Rightarrow> string \<Rightarrow> string" where
  "or_default x d = (case x of Some s \<Rightarrow> if s \<noteq> [] then s else d | None \<Rightarrow> d)"

definition sample_of :: "ProbeConfig \<Rightarrow> instant \<Rightarrow> MetricWindow \<Rightarrow> bool \<Rightarrow> ProbeSample" where
  "sample_of cfg now w ready =
     (let err = (case mw_error_rate w of Some e \<Rightarrow> e | None \<Rightarrow> 0) in
      \<lparr>ps_at = now,
       ps_healthy = (case mw_p99_latency_ms w of None \<Rightarrow> False
         | Some p99 \<Rightarrow> p99 < slo_p99_latency_ms cfg \<and> err < slo_error_rate cfg \<and> ready),
       ps_p99_latency_ms = (case mw_p99_latency_ms w of Some p99 \<Rightarrow> p99 | None \<Rightarrow> 0),
       ps_error_rate = err\<rparr>)"

definition sample_once :: "Telemetry \<Rightarrow> ProbeConfig \<Rightarrow> string \<Rightarrow> string option \<Rightarrow> instant option \<Rightarrow> ProbeSample o_act" where
  "sample_once tel cfg ns target when =
     (let svc = or_default target (pc_service cfg) in
      abind (aask (\<lambda>h. case when of Some t \<Rightarrow> t | None \<Rightarrow> to_now tel h)) (\<lambda>now.
      (let since = now - max 10 (metric_lookback_seconds cfg) in
       recovering tel
         (abind (acall (OMetric svc since ns now) (to_metric_window tel svc since ns now)) (\<lambda>w.
          abind (acall (OHealth ns svc) (to_service_health tel ns svc)) (\<lambda>ready.
            aret (sample_of cfg now w ready))))
         \<lparr>ps_at = now, ps_healthy = False, ps_p99_latency_ms = 0, ps_error_rate = 1\<rparr>)))"

section \<open>The probe loop\<close>

type_synonym probe_state = "ProbeSample list \<times> bool \<times> rat option"

definition probe_body ::
    "Telemetry \<Rightarrow> ProbeConfig \<Rightarrow> string \<Rightarrow> instant \<Rightarrow> instant option \<Rightarrow> string \<Rightarrow> int \<Rightarrow> bool \<Rightarrow> probe_state \<Rightarrow>
     (ProbeResult + probe_state) o_act" where
  "probe_body tel cfg ns applied forked svc min_samples stop = (\<lambda>(probes, recovered, seconds).
     abind (sample_once tel cfg ns (Some svc) None) (\<lambda>s.
       (let probes' = probes @ [s];
            (recovered', seconds') = (if recovered then (recovered, seconds)
              else detect_recovery probes' applied forked (warmup_seconds cfg) (consecutive_healthy_threshold cfg)
                (timeout_seconds cfg));
            finish = (\<lambda>late. aret (Inl \<lparr>pr_probes = probes', pr_recovered = recovered',
              pr_recovery_seconds = seconds', pr_timeout_exceeded = late\<rparr>)) in
        abind (aask (to_now tel)) (\<lambda>now.
          if applied + timeout_seconds cfg \<le> now then finish (\<not> recovered')
          else if recovered' \<and> stop \<and> min_samples \<le> int (length probes') then finish False
          else abind (acall (OSleep (poll_interval_seconds cfg)) (to_sleep tel (poll_interval_seconds cfg))) (\<lambda>_.
            aret (Inr (probes', recovered', seconds')))))))"

definition probe_environment ::
    "nat \<Rightarrow> Telemetry \<Rightarrow> ProbeConfig \<Rightarrow> string \<Rightarrow> instant \<Rightarrow> instant option \<Rightarrow> string option \<Rightarrow> int option \<Rightarrow> bool \<Rightarrow>
     OCall trace \<Rightarrow> ((PyExc + ProbeResult) \<times> OCall trace) option" where
  "probe_environment fuel tel cfg ns applied forked target min_samples stop =
     run_loop fuel (probe_body tel cfg ns applied forked (or_default target (pc_service cfg))
       (case min_samples of Some n \<Rightarrow> n | None \<Rightarrow> pc_min_probe_samples cfg) stop) ([], False, None)"

text \<open>The environments a round probes: the first twin of each plan's candidate index.\<close>

definition probe_targets :: "TwinHandle list \<Rightarrow> RemediationPlan list \<Rightarrow> (string \<times> TwinHandle) list" where
  "probe_targets twins plans = List.map_filter (\<lambda>p.
     map_option (Pair (plan_id p)) (find (\<lambda>t. twin_candidate_index t = candidate_index p) twins)) plans"

section \<open>Blast radius\<close>

record BlastConfig =
  degradation_threshold :: rat
  baseline_window_seconds :: rat
  zero_baseline_latency_floor_ms :: rat
  zero_baseline_error_rate_floor :: rat
  blast_error_ceiling :: rat

definition default_blast_config :: BlastConfig where
  "default_blast_config = \<lparr>degradation_threshold = 1 / 10, baseline_window_seconds = 30,
     zero_baseline_latency_floor_ms = 1, zero_baseline_error_rate_floor = 1 / 100, blast_error_ceiling = 1 / 10\<rparr>"

record EnvironmentBaseline =
  eb_namespace :: string
  eb_captured_at :: instant
  eb_window_start :: instant
  eb_window_end :: instant
  eb_baselines :: "(string \<times> MetricWindow) list"

record BlastEvaluation =
  be_target_service :: string
  be_reachable_set :: "string list"
  be_affected_services :: "string list"
  be_observed_blast_set :: "string list"
  be_blast_radius :: rat
  be_downstream_error_delta :: rat

definition window_degraded :: "BlastConfig \<Rightarrow> MetricWindow \<Rightarrow> MetricWindow \<Rightarrow> bool" where
  "window_degraded cfg pre post \<longleftrightarrow>
     degraded (degradation_threshold cfg) (zero_baseline_latency_floor_ms cfg)
       (or_zero (mw_p99_latency_ms pre)) (or_zero (mw_p99_latency_ms post)) \<or>
     degraded (degradation_threshold cfg) (zero_baseline_error_rate_floor cfg)
       (or_zero (mw_error_rate pre)) (or_zero (mw_error_rate post))"

definition blast_affected_services ::
    "BlastConfig \<Rightarrow> (string \<times> MetricWindow) list \<Rightarrow> (string \<times> MetricWindow) list \<Rightarrow> string list" where
  "blast_affected_services cfg pre post =
     map fst (filter (\<lambda>(svc, w). case map_of pre svc of None \<Rightarrow> False | Some b \<Rightarrow> window_degraded cfg b w) post)"

definition no_target :: "string \<Rightarrow> bool" where
  "no_target t \<longleftrightarrow> t = [] \<or> t = ''none''"

definition compute_blast_radius :: "ServiceGraph \<Rightarrow> string \<Rightarrow> string list \<Rightarrow> GraphExc + rat" where
  "compute_blast_radius g target affected =
     (if no_target target then Inr 0
      else bindE (reachable_set g target) (\<lambda>reachable.
        if affected = [] \<or> reachable = [] then Inr 0
        else Inr (min (max (sum_list (map (request_share g) (filter (\<lambda>s. s \<in> set affected) reachable))) 0) 1)))"

definition window_error :: "(string \<times> MetricWindow) list \<Rightarrow> string \<Rightarrow> rat" where
  "window_error ws s = (case map_of ws s of None \<Rightarrow> 0 | Some w \<Rightarrow> or_zero (mw_error_rate w))"

definition compute_downstream_error_delta ::
    "ServiceGraph \<Rightarrow> string \<Rightarrow> (string \<times> MetricWindow) list \<Rightarrow> (string \<times> MetricWindow) list \<Rightarrow> GraphExc + rat" where
  "compute_downstream_error_delta g target pre post =
     (if no_target target then Inr 0
      else bindE (reachable_set g target) (\<lambda>reachable.
        if reachable = [] then Inr 0
        else
          (let total = sum_list (map (request_share g) reachable) in
           if total \<le> 0 then Inr 0
           else Inr (py_round 4 (sum_list (map (\<lambda>s. request_share g s * (window_error post s - window_error pre s))
             reachable) / total)))))"

text \<open>\<open>evaluate_blast\<close> of a plan; the measured windows are handed back as they came and left out here.\<close>

definition evaluate_blast ::
    "BlastConfig \<Rightarrow> ServiceGraph \<Rightarrow> RemediationPlan \<Rightarrow> (string \<times> MetricWindow) list \<Rightarrow> (string \<times> MetricWindow) list \<Rightarrow>
     GraphExc + BlastEvaluation" where
  "evaluate_blast cfg g p pre post =
     (let target = workload (params p) in
      if action p = NO_ACTION \<or> target_resources p = [] then
        Inr \<lparr>be_target_service = target, be_reachable_set = [], be_affected_services = [], be_observed_blast_set = [],
          be_blast_radius = 0, be_downstream_error_delta = 0\<rparr>
      else
        (let affected = blast_affected_services cfg pre post in
         bindE (reachable_set g target) (\<lambda>rs. let reachable = sort rs in
         bindE (compute_blast_radius g target affected) (\<lambda>blast.
         bindE (compute_downstream_error_delta g target pre post) (\<lambda>delta.
         Inr \<lparr>be_target_service = target, be_reachable_set = reachable, be_affected_services = sorted_set affected,
           be_observed_blast_set = sort (filter (\<lambda>s. s \<in> set affected) reachable), be_blast_radius = blast,
           be_downstream_error_delta = delta\<rparr>)))))"

section \<open>Measuring the windows\<close>

definition fallback_window :: "string \<Rightarrow> instant \<Rightarrow> instant \<Rightarrow> MetricWindow" where
  "fallback_window svc since until = \<lparr>mw_service = svc, mw_start_time = since, mw_end_time = until, mw_series = [],
     mw_p99_latency_ms = Some 0, mw_error_rate = Some 0, mw_request_count = 0\<rparr>"

definition fetch_windows ::
    "Telemetry \<Rightarrow> string \<Rightarrow> instant \<Rightarrow> instant \<Rightarrow> string list \<Rightarrow> (string \<times> MetricWindow) list o_act" where
  "fetch_windows tel ns since until services =
     abind (amap (\<lambda>svc. recovering tel
         (abind (acall (OMetric svc since ns until) (to_metric_window tel svc since ns until)) (\<lambda>w. aret (svc, w)))
         (svc, fallback_window svc since until)) services) (\<lambda>ws. aret (dict_of ws))"

definition declared_services :: "ServiceGraph \<Rightarrow> PyExc + string list" where
  "declared_services g =
     (if sg_nodes g = [] then Inl (Raised ''ValueError''
        ''Cannot resolve declared services: dependency graph snapshot contains no nodes'')
      else Inr (sort (sg_nodes g)))"

definition target_services :: "ServiceGraph \<Rightarrow> string list option \<Rightarrow> PyExc + string list" where
  "target_services g services = (case services of Some ss \<Rightarrow> Inr ss | None \<Rightarrow> declared_services g)"

definition capture_baseline ::
    "Telemetry \<Rightarrow> BlastConfig \<Rightarrow> ServiceGraph \<Rightarrow> string \<Rightarrow> string list option \<Rightarrow> instant option \<Rightarrow> rat option \<Rightarrow>
     EnvironmentBaseline o_act" where
  "capture_baseline tel cfg g ns services when lookback =
     abind (aask (\<lambda>h. case when of Some t \<Rightarrow> t | None \<Rightarrow> to_now tel h)) (\<lambda>now.
     (let back = (case lookback of Some r \<Rightarrow> if r \<noteq> 0 then r else baseline_window_seconds cfg
            | None \<Rightarrow> baseline_window_seconds cfg);
          since = now - back in
      abind (alift (target_services g services)) (\<lambda>ss.
      abind (fetch_windows tel ns since now ss) (\<lambda>ws.
      aret \<lparr>eb_namespace = ns, eb_captured_at = now, eb_window_start = since, eb_window_end = now, eb_baselines = ws\<rparr>))))"

definition capture_baselines ::
    "Telemetry \<Rightarrow> BlastConfig \<Rightarrow> ServiceGraph \<Rightarrow> TwinHandle list \<Rightarrow> string list option \<Rightarrow> instant option \<Rightarrow> rat option \<Rightarrow>
     (string \<times> EnvironmentBaseline) list o_act" where
  "capture_baselines tel cfg g twins services when lookback =
     abind (amap (\<lambda>t. abind (capture_baseline tel cfg g (twin_namespace t) services when lookback)
       (\<lambda>b. aret (twin_id t, b))) twins) (\<lambda>bs. aret (dict_of bs))"

definition capture_post_apply ::
    "Telemetry \<Rightarrow> ServiceGraph \<Rightarrow> string \<Rightarrow> instant \<Rightarrow> instant option \<Rightarrow> string list option \<Rightarrow>
     (string \<times> MetricWindow) list o_act" where
  "capture_post_apply tel g ns applied until services =
     abind (aask (\<lambda>h. case until of Some t \<Rightarrow> t | None \<Rightarrow> to_now tel h)) (\<lambda>end_time.
     abind (alift (target_services g services)) (\<lambda>ss.
     fetch_windows tel ns applied end_time ss))"

definition graph_lift :: "GraphExc + 'a \<Rightarrow> PyExc + 'a" where
  "graph_lift r = (case r of Inr x \<Rightarrow> Inr x
     | Inl e \<Rightarrow> Inl (Raised ''GraphError'' (case e of UnknownService s \<Rightarrow> ''Unknown service: '' @ squote s | _ \<Rightarrow> [])))"

definition evaluate_environment ::
    "Telemetry \<Rightarrow> BlastConfig \<Rightarrow> ServiceGraph \<Rightarrow> RemediationPlan \<Rightarrow> string \<Rightarrow> EnvironmentBaseline \<Rightarrow> instant \<Rightarrow>
     instant option \<Rightarrow> string list option \<Rightarrow> BlastEvaluation o_act" where
  "evaluate_environment tel cfg g p ns b applied until services =
     abind (capture_post_apply tel g ns applied until services) (\<lambda>post.
     alift (graph_lift (evaluate_blast cfg g p (eb_baselines b) post)))"

text \<open>The twin of a plan is the last one with its index; the baseline is kept under the twin or its namespace.\<close>

definition blast_targets ::
    "RemediationPlan list \<Rightarrow> TwinHandle list \<Rightarrow> (string \<times> EnvironmentBaseline) list \<Rightarrow>
     (RemediationPlan \<times> TwinHandle \<times> EnvironmentBaseline) list" where
  "blast_targets plans twins baselines = List.map_filter (\<lambda>p.
     case find (\<lambda>t. twin_candidate_index t = candidate_index p) (rev twins) of
       None \<Rightarrow> None
     | Some t \<Rightarrow>
         (case map_of baselines (twin_id t) of
            Some b \<Rightarrow> Some (p, t, b)
          | None \<Rightarrow> map_option (\<lambda>b. (p, t, b)) (map_of baselines (twin_namespace t)))) plans"

definition evaluate_twins ::
    "Telemetry \<Rightarrow> BlastConfig \<Rightarrow> ServiceGraph \<Rightarrow> RemediationPlan list \<Rightarrow> TwinHandle list \<Rightarrow>
     (string \<times> EnvironmentBaseline) list \<Rightarrow> instant \<Rightarrow> instant option \<Rightarrow> (string \<times> BlastEvaluation) list o_act" where
  "evaluate_twins tel cfg g plans twins baselines applied until =
     abind (amap (\<lambda>(p, t, b). abind (evaluate_environment tel cfg g p (twin_namespace t) b applied until None)
       (\<lambda>e. aret (plan_id p, e))) (blast_targets plans twins baselines)) (\<lambda>es. aret (dict_of es))"

section \<open>Recovery is the first long enough streak\<close>

text \<open>The first element from which \<open>n\<close> consecutive ones satisfy \<open>P\<close>.\<close>

fun first_streak :: "nat \<Rightarrow> ('a \<Rightarrow> bool) \<Rightarrow> 'a list \<Rightarrow> 'a option" where
  "first_streak n P [] = None"
| "first_streak n P (x # xs) =
     (if n \<le> length (x # xs) \<and> list_all P (take n (x # xs)) then Some x else first_streak n P xs)"

lemma first_streak_short: "length xs < n \<Longrightarrow> first_streak n P xs = None"
  by (induction xs) auto

lemma first_streak_broken:
  assumes "\<not> P p" "length pre < n"
  shows "first_streak n P (pre @ p # ps) = first_streak n P ps"
  using assms(2)
proof (induction pre)
  case Nil
  then show ?case using assms(1) by (cases n) auto
next
  case (Cons x pre)
  have "p \<in> set (take n (x # pre @ p # ps))"
    using Cons.prems by (auto simp: take_Cons' take_append)
  then have "\<not> list_all P (take n (x # pre @ p # ps))" using assms(1) by (auto simp: list_all_iff)
  then show ?case using Cons by simp
qed

lemma first_streak_late:
  assumes "\<forall>q \<in> set ps. \<not> P q" "length pre < n"
  shows "first_streak n P (pre @ ps) = None"
proof (cases ps)
  case Nil
  then show ?thesis using first_streak_short [OF assms(2)] by simp
next
  case (Cons p qs)
  have "first_streak n P qs = None" if "\<forall>q \<in> set qs. \<not> P q" for qs
    using that assms(2) by (induction qs) (cases n; auto)+
  then show ?thesis using first_streak_broken [where P = P and p = p, OF _ assms(2)] assms(1) Cons by simp
qed

definition good_sample :: "instant \<Rightarrow> instant \<Rightarrow> ProbeSample \<Rightarrow> bool" where
  "good_sample warm tmo p \<longleftrightarrow> warm \<le> ps_at p \<and> ps_at p \<le> tmo \<and> ps_healthy p"

definition recovery_result :: "instant \<Rightarrow> ProbeSample option \<Rightarrow> bool \<times> rat option" where
  "recovery_result applied x = (case x of None \<Rightarrow> (False, None)
     | Some p \<Rightarrow> (True, Some (py_round 3 (max 0 (ps_at p - applied)))))"

lemma recovery_scan_streak:
  assumes "list_all (good_sample warm tmo) pre" "length pre < nat need"
    and "pre \<noteq> [] \<Longrightarrow> start = ps_at (hd pre)" "sorted (map ps_at ps)"
  shows "recovery_scan applied warm tmo need (int (length pre)) start ps =
    recovery_result applied (first_streak (nat need) (good_sample warm tmo) (pre @ ps))"
  using assms
proof (induction ps arbitrary: pre start)
  case Nil
  then show ?case by (simp add: first_streak_short recovery_result_def)
next
  case (Cons p ps)
  have sorted: "sorted (map ps_at ps)" "\<forall>q \<in> set ps. ps_at p \<le> ps_at q" using Cons.prems(4) by auto
  have restart: "recovery_scan applied warm tmo need 0 start ps =
      recovery_result applied (first_streak (nat need) (good_sample warm tmo) (pre @ p # ps))"
    if "\<not> good_sample warm tmo p"
    using Cons.IH [of "[]"] sorted(1) Cons.prems(2) first_streak_broken [where P = "good_sample warm tmo", OF that Cons.prems(2)] by simp
  show ?case
  proof (cases "tmo < ps_at p")
    case True
    then have "\<forall>q \<in> set (p # ps). \<not> good_sample warm tmo q" using sorted(2) by (fastforce simp: good_sample_def)
    then show ?thesis using True first_streak_late [OF _ Cons.prems(2)] by (simp add: recovery_result_def)
  next
    case in_time: False
    show ?thesis
    proof (cases "good_sample warm tmo p")
      case False
      then show ?thesis using in_time restart by (auto simp: good_sample_def [of _ _ p])
    next
      case True
      define start' where "start' = (if int (length pre) = 0 then ps_at p else start)"
      have start': "start' = ps_at (hd (pre @ [p]))" using Cons.prems(3) by (cases pre) (auto simp: start'_def)
      have step: "recovery_scan applied warm tmo need (int (length pre)) start (p # ps) =
          (if need \<le> int (length pre) + 1 then (True, Some (py_round 3 (max 0 (start' - applied))))
           else recovery_scan applied warm tmo need (int (length pre) + 1) start' ps)"
        using True in_time by (simp add: good_sample_def [of _ _ p] start'_def Let_def)
      show ?thesis
      proof (cases "need \<le> int (length pre) + 1")
        case True': True
        then have n: "nat need = length (pre @ [p])" using Cons.prems(2) by simp
        have "take (nat need) (pre @ p # ps) = pre @ [p]" unfolding n by simp
        moreover have "list_all (good_sample warm tmo) (pre @ [p])" using Cons.prems(1) True by simp
        ultimately have "first_streak (nat need) (good_sample warm tmo) (pre @ p # ps) = Some (hd (pre @ [p]))"
          using n by (cases pre) auto
        then show ?thesis using step True' start' by (simp add: recovery_result_def)
      next
        case False
        have "recovery_scan applied warm tmo need (int (length (pre @ [p]))) start' ps =
            recovery_result applied (first_streak (nat need) (good_sample warm tmo) ((pre @ [p]) @ ps))"
          using Cons.prems False True start' sorted(1) by (intro Cons.IH) auto
        then show ?thesis using step False by (simp add: add.commute)
      qed
    qed
  qed
qed

text \<open>Recovery means what the architecture says: \<open>detect_recovery\<close>, with its running counter, finds the earliest sample
  from which the required number of consecutive samples is healthy, after the warm-up and within the time limit,
  and reports its distance from the application; it reports no recovery exactly when there is none.\<close>

theorem detect_recovery_first_streak:
  assumes "1 \<le> need"
  shows "detect_recovery probes applied forked warmup need timeout =
    recovery_result applied (first_streak (nat need)
      (good_sample ((case forked of Some f \<Rightarrow> f | None \<Rightarrow> applied) + warmup) (applied + timeout))
      (sort_key ps_at probes))"
  using recovery_scan_streak [of _ _ "[]" need applied "sort_key ps_at probes" applied] assms
  by (simp add: detect_recovery_def Let_def)

section \<open>The probe ends\<close>

text \<open>What the code relies on of its clock: it does not run backwards, and a sleep lasts at least as long as asked.\<close>

definition clock_advances :: "Telemetry \<Rightarrow> bool" where
  "clock_advances tel \<longleftrightarrow> (\<forall>h k. to_now tel h \<le> to_now tel (h @ k)) \<and>
     (\<forall>h d. to_now tel h + d \<le> to_now tel (h @ [(OSleep d, True)]))"

lemma emits_recovering [emits_intros]: "emits P m \<Longrightarrow> emits P (recovering tel m x)"
  unfolding recovering_def by (intro emits_intros)

lemma emits_sample_once: "emits (\<lambda>c. True) (sample_once tel cfg ns target when)"
  unfolding sample_once_def Let_def by (intro emits_intros) simp_all

lemma sample_once_later:
  assumes "clock_advances tel" "sample_once tel cfg ns target when h = (r, h')"
  shows "to_now tel h \<le> to_now tel h'"
  using emitsD [OF emits_sample_once assms(2)] assms(1) unfolding clock_advances_def by blast

text \<open>What holds of the loop's state: a recovery has a time within the limit, and its samples show it.\<close>

definition probe_inv :: "ProbeConfig \<Rightarrow> instant \<Rightarrow> bool \<Rightarrow> rat option \<Rightarrow> bool" where
  "probe_inv cfg applied recovered seconds \<longleftrightarrow>
     (if recovered then \<exists>s. seconds = Some s \<and> 0 \<le> s \<and> s \<le> py_round 3 (max 0 (timeout_seconds cfg)) else seconds = None)"

lemma first_streak_in:
  "first_streak n P xs = Some x \<Longrightarrow> 1 \<le> n \<Longrightarrow> P x"
proof (induction xs)
  case (Cons y ys)
  show ?case
  proof (cases "n \<le> length (y # ys) \<and> list_all P (take n (y # ys))")
    case True
    moreover have "y \<in> set (take n (y # ys))" using Cons.prems(2) by (cases n) auto
    ultimately show ?thesis using Cons.prems(1) by (auto simp: list_all_iff)
  next
    case False
    then have "first_streak n P (y # ys) = first_streak n P ys" by auto
    then show ?thesis using Cons by simp
  qed
qed simp

lemma detect_recovery_inv:
  assumes "1 \<le> consecutive_healthy_threshold cfg"
    and "detect_recovery probes applied forked (warmup_seconds cfg) (consecutive_healthy_threshold cfg)
      (timeout_seconds cfg) = (recovered, seconds)"
  shows "probe_inv cfg applied recovered seconds"
proof -
  let ?ref = "case forked of Some f \<Rightarrow> f | None \<Rightarrow> applied"
  let ?good = "good_sample (?ref + warmup_seconds cfg) (applied + timeout_seconds cfg)"
  let ?n = "nat (consecutive_healthy_threshold cfg)"
  have scan: "recovery_result applied (first_streak ?n ?good (sort_key ps_at probes)) = (recovered, seconds)"
    using recovery_scan_streak [of _ _ "[]" _ applied "sort_key ps_at probes" applied] assms
    by (simp add: detect_recovery_def Let_def)
  show ?thesis
  proof (cases "first_streak ?n ?good (sort_key ps_at probes)")
    case None
    then show ?thesis using scan by (auto simp: recovery_result_def probe_inv_def)
  next
    case (Some p)
    have "?good p" by (rule first_streak_in [OF Some]) (use assms(1) in simp)
    then have "max 0 (ps_at p - applied) \<le> max 0 (timeout_seconds cfg)" by (auto simp: good_sample_def)
    then have "py_round 3 (max 0 (ps_at p - applied)) \<le> py_round 3 (max 0 (timeout_seconds cfg))" by (rule py_round_mono)
    moreover have "0 \<le> py_round 3 (max 0 (ps_at p - applied))"
      using py_round_mono [of 0 "max 0 (ps_at p - applied)" 3] by simp
    ultimately show ?thesis using scan Some by (auto simp: recovery_result_def probe_inv_def)
  qed
qed

definition probe_verdict :: "ProbeConfig \<Rightarrow> instant \<Rightarrow> ProbeResult \<Rightarrow> bool" where
  "probe_verdict cfg applied pr \<longleftrightarrow> pr_probes pr \<noteq> [] \<and> pr_timeout_exceeded pr = (\<not> pr_recovered pr) \<and>
     probe_inv cfg applied (pr_recovered pr) (pr_recovery_seconds pr)"

text \<open>One round: it raises, ends with a verdict, or leaves the clock a poll interval further.\<close>

lemma probe_body_step:
  assumes "clock_advances tel" "1 \<le> consecutive_healthy_threshold cfg" "0 \<le> poll_interval_seconds cfg"
    and "probe_body tel cfg ns applied forked svc min_samples stop (probes, recovered, seconds) h = (x, h')"
    and "probe_inv cfg applied recovered seconds"
  shows "case x of Inl e \<Rightarrow> True
    | Inr (Inl pr) \<Rightarrow> probe_verdict cfg applied pr
    | Inr (Inr (probes', recovered', seconds')) \<Rightarrow> probe_inv cfg applied recovered' seconds' \<and>
        to_now tel h < applied + timeout_seconds cfg \<and> to_now tel h + poll_interval_seconds cfg \<le> to_now tel h'"
proof -
  obtain y h1 where sample: "sample_once tel cfg ns (Some svc) None h = (y, h1)"
    by (cases "sample_once tel cfg ns (Some svc) None h")
  have later: "to_now tel h \<le> to_now tel h1" by (rule sample_once_later [OF assms(1) sample])
  show ?thesis
  proof (cases y)
    case (Inl e)
    then have "x = Inl e" using assms(4) sample by (simp add: probe_body_def abind_def)
    then show ?thesis by simp
  next
    case (Inr s)
    obtain r2 s2 where found: "(if recovered then (recovered, seconds)
        else detect_recovery (probes @ [s]) applied forked (warmup_seconds cfg) (consecutive_healthy_threshold cfg)
          (timeout_seconds cfg)) = (r2, s2)" by (metis surj_pair)
    have inv: "probe_inv cfg applied r2 s2"
      using found assms(5) detect_recovery_inv [OF assms(2)] by (auto split: if_splits)
    let ?res = "\<lambda>late. \<lparr>pr_probes = probes @ [s], pr_recovered = r2, pr_recovery_seconds = s2, pr_timeout_exceeded = late\<rparr>"
    let ?d = "poll_interval_seconds cfg"
    have body: "(if applied + timeout_seconds cfg \<le> to_now tel h1 then aret (Inl (?res (\<not> r2)))
        else if r2 \<and> stop \<and> min_samples \<le> int (length (probes @ [s])) then aret (Inl (?res False))
        else abind (acall (OSleep ?d) (to_sleep tel ?d)) (\<lambda>_. aret (Inr (probes @ [s], r2, s2)))) h1 = (x, h')"
      using assms(4) sample Inr found
      by (simp only: probe_body_def abind_def [of "sample_once tel cfg ns (Some svc) None"] Let_def abind_aask
          prod.case sum.case)
    consider "x = Inr (Inl (?res (\<not> r2)))" | "r2" "x = Inr (Inl (?res False))" | e where "x = Inl e"
      | "x = Inr (Inr (probes @ [s], r2, s2))" "to_now tel h1 < applied + timeout_seconds cfg"
        "h' = h1 @ [(OSleep ?d, True)]"
      using body by (auto simp: abind_def acall_def aret_def not_le split: if_splits sum.splits)
    then show ?thesis
    proof cases
      case 4
      moreover have "to_now tel h1 + ?d \<le> to_now tel h'"
        using assms(1) 4(3) unfolding clock_advances_def by blast
      ultimately show ?thesis using inv later by simp
    qed (use inv in \<open>auto simp: probe_verdict_def\<close>)
  qed
qed

lemma probe_loop_ends:
  assumes "clock_advances tel" "1 \<le> consecutive_healthy_threshold cfg" "0 < poll_interval_seconds cfg"
    and "applied + timeout_seconds cfg - to_now tel h \<le> of_nat n * poll_interval_seconds cfg"
    and "probe_inv cfg applied recovered seconds"
  shows "\<exists>x h'. run_loop (Suc n) (probe_body tel cfg ns applied forked svc min_samples stop)
    (probes, recovered, seconds) h = Some (x, h') \<and> (\<forall>pr. x = Inr pr \<longrightarrow> probe_verdict cfg applied pr)"
  using assms(4,5)
proof (induction n arbitrary: probes recovered seconds h)
  case 0
  obtain x h1 where x: "probe_body tel cfg ns applied forked svc min_samples stop (probes, recovered, seconds) h = (x, h1)"
    by (cases "probe_body tel cfg ns applied forked svc min_samples stop (probes, recovered, seconds) h")
  show ?case
    using probe_body_step [OF assms(1,2) _ x 0(2)] assms(3) 0(1) x
    by (cases x) (auto split: sum.splits)
next
  case (Suc n)
  obtain x h1 where x: "probe_body tel cfg ns applied forked svc min_samples stop (probes, recovered, seconds) h = (x, h1)"
    by (cases "probe_body tel cfg ns applied forked svc min_samples stop (probes, recovered, seconds) h")
  note step = probe_body_step [OF assms(1,2) _ x Suc.prems(2)]
  consider e where "x = Inl e" | pr where "x = Inr (Inl pr)" | ps r s where "x = Inr (Inr (ps, r, s))"
    by (cases x) (auto, metis sum.exhaust surj_pair)
  then show ?case
  proof cases
    case 3
    then have inv: "probe_inv cfg applied r s" and late: "to_now tel h + poll_interval_seconds cfg \<le> to_now tel h1"
      using step assms(3) by auto
    have "applied + timeout_seconds cfg - to_now tel h1 \<le> of_nat n * poll_interval_seconds cfg"
      using Suc.prems(1) late by (simp add: algebra_simps)
    from Suc.IH [OF this inv] show ?thesis using x 3 by simp
  qed (use x step assms(3) in auto)
qed

text \<open>Probing an environment ends: with a clock that advances, a number of rounds that covers the time limit suffices
  whatever the telemetry answers, and a result holds at least one sample, is either a recovery or a timeout and not
  both, and gives a recovery time between zero and the limit exactly when it recovered.\<close>

theorem probe_ends:
  assumes "clock_advances tel" "1 \<le> consecutive_healthy_threshold cfg" "0 < poll_interval_seconds cfg"
    and "applied + timeout_seconds cfg - to_now tel h \<le> of_nat n * poll_interval_seconds cfg"
  shows "\<exists>x h'. probe_environment (Suc n) tel cfg ns applied forked target min_samples stop h = Some (x, h') \<and>
    (\<forall>pr. x = Inr pr \<longrightarrow> probe_verdict cfg applied pr)"
  unfolding probe_environment_def
  by (rule probe_loop_ends [OF assms]) (simp add: probe_inv_def)

section \<open>What an evaluation says\<close>

lemma weighted_mean_bounds:
  fixes f w :: "'a \<Rightarrow> rat"
  assumes "\<forall>x \<in> set xs. 0 \<le> w x" "\<forall>x \<in> set xs. - 1 \<le> f x \<and> f x \<le> 1" "0 < sum_list (map w xs)"
  shows "- 1 \<le> sum_list (map (\<lambda>x. w x * f x) xs) / sum_list (map w xs)"
    "sum_list (map (\<lambda>x. w x * f x) xs) / sum_list (map w xs) \<le> 1"
proof -
  have "- sum_list (map w xs) \<le> sum_list (map (\<lambda>x. w x * f x) xs) \<and>
      sum_list (map (\<lambda>x. w x * f x) xs) \<le> sum_list (map w xs)"
    using assms(1,2)
  proof (induction xs)
    case (Cons x xs)
    then have "w x * f x \<le> w x" "- w x \<le> w x * f x"
      using mult_left_mono [of "f x" 1 "w x"] mult_left_mono [of "- 1" "f x" "w x"] by auto
    with Cons show ?case by auto
  qed simp
  with assms(3) show "- 1 \<le> sum_list (map (\<lambda>x. w x * f x) xs) / sum_list (map w xs)"
    "sum_list (map (\<lambda>x. w x * f x) xs) / sum_list (map w xs) \<le> 1"
    by (simp_all add: field_simps)
qed

definition error_rates_ok :: "(string \<times> MetricWindow) list \<Rightarrow> bool" where
  "error_rates_ok ws \<longleftrightarrow> list_all (\<lambda>(s, w). 0 \<le> or_zero (mw_error_rate w) \<and> or_zero (mw_error_rate w) \<le> 1) ws"

lemma window_error_unit:
  assumes "error_rates_ok ws" shows "0 \<le> window_error ws s \<and> window_error ws s \<le> 1"
  using assms
  by (cases "map_of ws s") (auto simp: window_error_def error_rates_ok_def list_all_iff dest!: map_of_SomeD)

lemma py_round_signed_unit: "- 1 \<le> x \<Longrightarrow> x \<le> 1 \<Longrightarrow> - 1 \<le> py_round d x \<and> py_round d x \<le> 1"
proof -
  assume x: "- 1 \<le> x" "x \<le> 1"
  have "py_round d (- 1) = - 1" by (rule py_round_grid [where n = "- (10 ^ d)"]) simp
  then show ?thesis using py_round_mono [OF x(1)] py_round_mono [OF x(2)] by (metis py_round_1)
qed

lemma downstream_delta_unit:
  assumes "shares_ok g" "error_rates_ok pre" "error_rates_ok post"
    and "compute_downstream_error_delta g t pre post = Inr d"
  shows "- 1 \<le> d \<and> d \<le> 1"
proof (cases "no_target t")
  case True
  then show ?thesis using assms(4) by (simp add: compute_downstream_error_delta_def)
next
  case False
  then obtain rs where rs: "reachable_set g t = Inr rs"
    using assms(4) by (auto simp: compute_downstream_error_delta_def bindE_Inr_iff)
  let ?w = "request_share g" and ?f = "\<lambda>s. window_error post s - window_error pre s"
  show ?thesis
  proof (cases "rs = [] \<or> sum_list (map ?w rs) \<le> 0")
    case True
    then show ?thesis using assms(4) False rs
      by (auto simp: compute_downstream_error_delta_def Let_def split: if_splits)
  next
    case pos: False
    have "- 1 \<le> ?f s \<and> ?f s \<le> 1" for s
      using window_error_unit [OF assms(2), of s] window_error_unit [OF assms(3), of s] by linarith
    moreover have "0 \<le> ?w s" for s by (rule request_share_nonneg [OF assms(1)])
    ultimately have "- 1 \<le> sum_list (map (\<lambda>s. ?w s * ?f s) rs) / sum_list (map ?w rs)"
      "sum_list (map (\<lambda>s. ?w s * ?f s) rs) / sum_list (map ?w rs) \<le> 1"
      using weighted_mean_bounds [of rs ?w ?f] pos by auto
    moreover have "d = py_round 4 (sum_list (map (\<lambda>s. ?w s * ?f s) rs) / sum_list (map ?w rs))"
      using assms(4) False rs pos by (simp add: compute_downstream_error_delta_def Let_def)
    ultimately show ?thesis using py_round_signed_unit by blast
  qed
qed

lemma compute_blast_radius_calc:
  "\<not> no_target t \<Longrightarrow> compute_blast_radius g t affected = blast_calculate g t affected"
  by (simp add: compute_blast_radius_def blast_calculate_def)

text \<open>What the tracker reports of a plan that changes something: the reachable services are the ones that depend on the
  target, the observed blast set is exactly the degraded ones among them, sorted, the radius is the calculator's and
  lies in [0, 1], and the error delta lies in [-1, 1].\<close>

theorem evaluate_blast_sound:
  assumes "evaluate_blast cfg g p pre post = Inr e" "shares_ok g" "error_rates_ok pre" "error_rates_ok post"
    and "action p \<noteq> NO_ACTION" "target_resources p \<noteq> []" "\<not> no_target (workload (params p))"
  shows "\<exists>rs. reachable_set g (workload (params p)) = Inr rs \<and> set (be_reachable_set e) = set rs \<and>
    be_observed_blast_set e = sorted_set (filter (\<lambda>s. s \<in> set (blast_affected_services cfg pre post)) rs) \<and>
    blast_calculate g (workload (params p)) (blast_affected_services cfg pre post) = Inr (be_blast_radius e) \<and>
    0 \<le> be_blast_radius e \<and> be_blast_radius e \<le> 1 \<and>
    - 1 \<le> be_downstream_error_delta e \<and> be_downstream_error_delta e \<le> 1"
proof -
  let ?t = "workload (params p)" and ?aff = "blast_affected_services cfg pre post"
  from assms(1,5,6) obtain rs blast delta where rs: "reachable_set g ?t = Inr rs"
    and blast: "compute_blast_radius g ?t ?aff = Inr blast"
    and delta: "compute_downstream_error_delta g ?t pre post = Inr delta"
    and e: "e = \<lparr>be_target_service = ?t, be_reachable_set = sort rs, be_affected_services = sorted_set ?aff,
           be_observed_blast_set = sort (filter (\<lambda>s. s \<in> set ?aff) (sort rs)), be_blast_radius = blast,
           be_downstream_error_delta = delta\<rparr>"
    by (auto simp: evaluate_blast_def Let_def bindE_Inr_iff)
  have calc: "blast_calculate g ?t ?aff = Inr blast" using blast assms(7) by (simp add: compute_blast_radius_calc)
  have "distinct rs" using rs by (rule sdg.reach_distinct [OF assms(2)])
  then have "sort (filter (\<lambda>s. s \<in> set ?aff) (sort rs)) = sorted_set (filter (\<lambda>s. s \<in> set ?aff) rs)"
    by (intro sorted_distinct_set_unique) (auto simp: sorted_sort)
  moreover have "0 \<le> blast \<and> blast \<le> 1"
    using calc rs sdg.radius_unit by (auto simp: blast_radius_eq)
  ultimately show ?thesis
    using rs e calc downstream_delta_unit [OF assms(2,3,4) delta] by simp
qed

section \<open>Examples\<close>

definition healthy_at :: "nat \<Rightarrow> ProbeSample" where
  "healthy_at i = \<lparr>ps_at = of_nat i, ps_healthy = True, ps_p99_latency_ms = 100, ps_error_rate = 0\<rparr>"

lemma detect_recovery_first_streak_witness:
  "detect_recovery (map healthy_at [0..<40]) 0 None 20 15 180 = (True, Some 20)"
proof -
  have "recovery_result 0 (first_streak (nat 15) (good_sample (0 + 20) (0 + 180))
      (sort_key ps_at (map healthy_at [0..<40]))) = (True, Some 20)" by code_simp
  then show ?thesis using detect_recovery_first_streak [of 15 "map healthy_at [0..<40]" 0 None 20 180] by simp
qed

definition slept :: "OCall \<times> bool \<Rightarrow> rat" where
  "slept e = (case e of (OSleep d, True) \<Rightarrow> max 0 d | _ \<Rightarrow> 0)"

definition silent_telemetry :: Telemetry where
  "silent_telemetry = \<lparr>to_metric_window = (\<lambda>svc since ns until h. Inl (Raised ''ObservabilityError'' ''down'')),
     to_service_health = (\<lambda>ns svc h. Inr False), to_sleep = (\<lambda>d h. Inr ()),
     to_now = (\<lambda>h. sum_list (map slept h)), to_http_error = (\<lambda>c. False)\<rparr>"

lemma silent_clock: "clock_advances silent_telemetry"
proof -
  have nonneg: "0 \<le> slept e" for e by (auto simp: slept_def split: OCall.splits bool.splits prod.splits)
  have "0 \<le> sum_list (map slept k)" for k by (induction k) (auto simp: nonneg)
  then show ?thesis by (auto simp: clock_advances_def silent_telemetry_def slept_def)
qed

lemma probe_ends_witness:
  "\<exists>x h'. probe_environment 181 silent_telemetry default_probe_config ''ust-twin-1'' 0 None None None True [] = Some (x, h') \<and>
     (\<forall>pr. x = Inr pr \<longrightarrow> probe_verdict default_probe_config 0 pr)"
proof -
  have "\<exists>x h'. probe_environment (Suc 180) silent_telemetry default_probe_config ''ust-twin-1'' 0 None None None True [] =
      Some (x, h') \<and> (\<forall>pr. x = Inr pr \<longrightarrow> probe_verdict default_probe_config 0 pr)"
    by (rule probe_ends [OF silent_clock]) (simp_all add: default_probe_config_def silent_telemetry_def)
  then show ?thesis by simp
qed

definition window_with :: "string \<Rightarrow> rat \<Rightarrow> MetricWindow" where
  "window_with svc err = \<lparr>mw_service = svc, mw_start_time = 0, mw_end_time = 30, mw_series = [],
     mw_p99_latency_ms = Some 100, mw_error_rate = Some err, mw_request_count = 10\<rparr>"

lemma evaluate_blast_sound_witness:
  "let g = mk_graph [''db'', ''gw''] [(''gw'', ''db'')] [];
     p = RemediationPlan ''p'' 0 RESTART_WORKLOAD \<lparr>workload = ''db'', target_commit = None, replica_delta = None,
       flag_name = None, config_key = None, config_value = None\<rparr>
       [\<lparr>ref_namespace = ''ust-prod'', ref_kind = Deployment, ref_name = ''db''\<rparr>] [] None ''why'' Planner None in
   \<exists>e. evaluate_blast default_blast_config g p [(''gw'', window_with ''gw'' (1 / 100))]
     [(''gw'', window_with ''gw'' (1 / 2))] = Inr e \<and> be_observed_blast_set e = [''gw''] \<and> be_downstream_error_delta e \<le> 1"
proof -
  let ?g = "mk_graph [''db'', ''gw''] [(''gw'', ''db'')] []"
  let ?p = "RemediationPlan ''p'' 0 RESTART_WORKLOAD \<lparr>workload = ''db'', target_commit = None, replica_delta = None,
       flag_name = None, config_key = None, config_value = None\<rparr>
       [\<lparr>ref_namespace = ''ust-prod'', ref_kind = Deployment, ref_name = ''db''\<rparr>] [] None ''why'' Planner None"
  let ?pre = "[(''gw'', window_with ''gw'' (1 / 100))]" and ?post = "[(''gw'', window_with ''gw'' (1 / 2))]"
  have "case evaluate_blast default_blast_config ?g ?p ?pre ?post of Inl e \<Rightarrow> False
      | Inr e \<Rightarrow> be_observed_blast_set e = [''gw'']" by code_simp
  then obtain e where e: "evaluate_blast default_blast_config ?g ?p ?pre ?post = Inr e" "be_observed_blast_set e = [''gw'']"
    by (auto split: sum.splits)
  have "\<exists>rs. reachable_set ?g (workload (params ?p)) = Inr rs \<and> set (be_reachable_set e) = set rs \<and>
    be_observed_blast_set e = sorted_set (filter (\<lambda>s. s \<in> set (blast_affected_services default_blast_config ?pre ?post)) rs) \<and>
    blast_calculate ?g (workload (params ?p)) (blast_affected_services default_blast_config ?pre ?post) =
      Inr (be_blast_radius e) \<and> 0 \<le> be_blast_radius e \<and> be_blast_radius e \<le> 1 \<and>
    - 1 \<le> be_downstream_error_delta e \<and> be_downstream_error_delta e \<le> 1"
    by (rule evaluate_blast_sound [OF e(1)])
      (simp_all add: error_rates_ok_def window_with_def or_zero_def shares_ok_def mk_graph_def no_target_def Let_def)
  then show ?thesis using e by auto
qed

end
