(* ===== verification/TwinNames.thy ===== *)
theory TwinNames
  imports Text Triples
begin

text \<open>
  The names of a twin (\<^verbatim>\<open>fleet/render.py\<close>, \<^verbatim>\<open>fleet/database.py\<close>, \<^verbatim>\<open>fleet/teardown.py\<close>): its database, its
  namespace as a DNS-1123 label, and the reading of the incident back from the name of a database.
\<close>

section \<open>Names\<close>

definition fleet_error :: "string list \<Rightarrow> PyExc + 'a" where
  "fleet_error parts = Inl (Raised ''FleetError'' (fstr parts))"

definition clean_incident :: "string \<Rightarrow> string" where
  "clean_incident incident = py_strip (replace_char (CHR ''-'') (CHR ''_'') incident)"

definition sanitize_database_name :: "string \<Rightarrow> int \<Rightarrow> PyExc + string" where
  "sanitize_database_name incident idx =
     (if clean_incident incident = [] then fleet_error [''Incident ID cannot be empty, got: '', squote incident]
      else if idx < 0 then fleet_error [''Candidate index must be non-negative, got: '', int_str idx]
      else Inr (fstr [''twin_'', clean_incident incident, ''_'', int_str idx]))"

text \<open>\<open>[a-z0-9-]\<close>\<close>

definition dns_char :: "char \<Rightarrow> bool" where
  "dns_char c = (let n = (of_char c :: nat) in (97 \<le> n \<and> n \<le> 122) \<or> py_digit c \<or> c = CHR ''-'')"

definition sanitize_dns1123_label :: "string \<Rightarrow> string" where
  "sanitize_dns1123_label s =
     (let lowered = replace_char (CHR ''_'') (CHR ''-'') (py_lower (py_strip s));
          replaced = map (\<lambda>c. if dns_char c then c else CHR ''-'') lowered in
      strip_char (CHR ''-'') (collapse (CHR ''-'') replaced))"

definition MAX_DNS1123_LABEL_LENGTH :: int where "MAX_DNS1123_LABEL_LENGTH = 63"

definition build_twin_namespace :: "string \<Rightarrow> string \<Rightarrow> int \<Rightarrow> PyExc + string" where
  "build_twin_namespace twin_prefix incident idx =
     (if py_strip incident = [] then fleet_error [''Incident ID cannot be empty, got: '', squote incident]
      else if idx < 0 then fleet_error [''Candidate index must be non-negative, got: '', int_str idx]
      else
        (let prefix = sanitize_dns1123_label twin_prefix; inc = sanitize_dns1123_label incident;
             suffix = ''-'' @ int_str idx;
             budget = MAX_DNS1123_LABEL_LENGTH - int (length prefix) - 1 - int (length suffix) in
         if prefix = [] then fleet_error [''Twin namespace prefix cannot be empty, got: '', squote twin_prefix]
         else if inc = [] then fleet_error [''Incident ID has no DNS-1123 usable characters, got: '', squote incident]
         else if budget < 1 then
           fleet_error [''Twin namespace prefix '', squote twin_prefix, '' leaves no room for incident '',
             squote incident, '' within '', int_str MAX_DNS1123_LABEL_LENGTH, '' characters'']
         else
           (let inc' = (if budget < int (length inc) then strip_char (CHR ''-'') (take (nat budget) inc) else inc) in
            Inr (fstr [prefix, ''-'', inc', suffix]))))"

text \<open>\<open>^[a-zA-Z0-9_]+$\<close>, whose \<open>$\<close> also matches before a last newline.\<close>

definition safe_char :: "char \<Rightarrow> bool" where
  "safe_char c = (let n = (of_char c :: nat) in
     (97 \<le> n \<and> n \<le> 122) \<or> (65 \<le> n \<and> n \<le> 90) \<or> py_digit c \<or> c = CHR ''_'')"

definition line_break :: char where "line_break = CHR 0x0A"

definition before_end :: "string \<Rightarrow> string" where
  "before_end s = (if s \<noteq> [] \<and> last s = line_break then butlast s else s)"

definition safe_db_name :: "string \<Rightarrow> bool" where
  "safe_db_name s \<longleftrightarrow> before_end s \<noteq> [] \<and> list_all safe_char (before_end s)"

text \<open>Group 1 of \<open>^twin_(.+)_\d+$\<close>; the part after the last underscore is all digits.\<close>

definition twin_db_incident :: "string \<Rightarrow> string option" where
  "twin_db_incident db =
     (let r = before_end (drop 5 db); inc = before_last (CHR ''_'') r; idx = after_last (CHR ''_'') r in
      if startswith db ''twin_'' \<and> CHR ''_'' \<in> set r \<and> idx \<noteq> [] \<and> list_all py_digit idx \<and> inc \<noteq> [] \<and>
         line_break \<notin> set inc
      then Some inc else None)"

section \<open>Namespaces are valid labels\<close>

text \<open>A DNS-1123 label: \<open>[a-z0-9]([-a-z0-9]*[a-z0-9])?\<close>, at most 63 characters.\<close>

definition dns1123_label :: "string \<Rightarrow> bool" where
  "dns1123_label s \<longleftrightarrow> s \<noteq> [] \<and> length s \<le> 63 \<and> list_all dns_char s \<and> hd s \<noteq> CHR ''-'' \<and> last s \<noteq> CHR ''-''"

lemma sanitized_label:
  "list_all dns_char (sanitize_dns1123_label s)"
  "sanitize_dns1123_label s \<noteq> [] \<Longrightarrow> hd (sanitize_dns1123_label s) \<noteq> CHR ''-''"
proof -
  let ?r = "map (\<lambda>c. if dns_char c then c else CHR ''-'') (replace_char (CHR ''_'') (CHR ''-'') (py_lower (py_strip s)))"
  have "dns_char (CHR ''-'')" by (simp add: dns_char_def)
  then have "\<forall>c \<in> set ?r. dns_char c" by auto
  moreover have "set (sanitize_dns1123_label s) \<subseteq> set ?r"
    unfolding sanitize_dns1123_label_def Let_def by (rule subset_trans [OF set_strip_char set_collapse])
  ultimately show "list_all dns_char (sanitize_dns1123_label s)" unfolding list_all_iff by blast
  show "sanitize_dns1123_label s \<noteq> [] \<Longrightarrow> hd (sanitize_dns1123_label s) \<noteq> CHR ''-''"
    unfolding sanitize_dns1123_label_def Let_def by (rule strip_char_edges)
qed

lemma twin_namespace_shape:
  assumes "build_twin_namespace p inc idx = Inr ns"
  obtains q i where "ns = q @ ''-'' @ i @ ''-'' @ nat_str (nat idx)" "0 \<le> idx" "q \<noteq> []" "hd q \<noteq> CHR ''-''"
    "list_all dns_char (q @ i)" "length ns \<le> 63" "i \<noteq> []"
proof -
  let ?q = "sanitize_dns1123_label p" and ?i = "sanitize_dns1123_label inc" and ?s = "''-'' @ int_str idx"
  let ?b = "MAX_DNS1123_LABEL_LENGTH - int (length ?q) - 1 - int (length ?s)"
  let ?i' = "if ?b < int (length ?i) then strip_char (CHR ''-'') (take (nat ?b) ?i) else ?i"
  have c: "0 \<le> idx" "?q \<noteq> []" "?i \<noteq> []" "1 \<le> ?b" and ns: "ns = ?q @ ''-'' @ ?i' @ ?s"
    using assms by (auto simp: build_twin_namespace_def fleet_error_def fstr_def Let_def split: if_splits)
  have len: "int (length ?i') \<le> ?b"
    using strip_char_length [of "CHR ''-''" "take (nat ?b) ?i"] c(4) by (auto split: if_splits)
  have sub: "set ?i' \<subseteq> set ?i" using set_strip_char [of "CHR ''-''"] by (auto dest: in_set_takeD split: if_splits)
  have "0 < nat ?b" using c(4) by simp
  then obtain n where "nat ?b = Suc n" using gr0_implies_Suc by blast
  then have "hd ?i \<in> set (take (nat ?b) ?i)" using c(3) by (cases ?i) auto
  then have ne: "?i' \<noteq> []" using strip_char_keeps [of "hd ?i" _ "CHR ''-''"] sanitized_label(2) [OF c(3)] c(3) by auto
  show ?thesis
  proof (rule that)
    show "ns = ?q @ ''-'' @ ?i' @ ''-'' @ nat_str (nat idx)" using ns c(1) by (simp add: int_str_nat)
    show "list_all dns_char (?q @ ?i')" using sanitized_label(1) [of p] sanitized_label(1) [of inc] sub
      by (auto simp: list_all_iff)
    show "length ns \<le> 63" using len ns by (auto simp: MAX_DNS1123_LABEL_LENGTH_def)
  qed (use c ne sanitized_label(2) in auto)
qed

lemma nat_str_dns: "list_all dns_char (nat_str n)" "last (nat_str n) \<noteq> CHR ''-''" "CHR ''-'' \<notin> set (nat_str n)" "CHR ''_'' \<notin> set (nat_str n)"
proof -
  have d: "\<forall>c \<in> set (nat_str n). py_digit c" using nat_str_digits [of n] by (simp add: list_all_iff)
  have no: "\<not> py_digit (CHR ''-'')" "\<not> py_digit (CHR ''_'')" by (simp_all add: py_digit_def)
  show "CHR ''-'' \<notin> set (nat_str n)" "CHR ''_'' \<notin> set (nat_str n)" using d no by blast+
  then show "last (nat_str n) \<noteq> CHR ''-''" using last_in_set [OF nat_str_not_Nil, of n] by metis
  show "list_all dns_char (nat_str n)" using d by (auto simp: list_all_iff dns_char_def Let_def)
qed

text \<open>A twin's namespace is one Kubernetes accepts, and its own: whatever the prefix, the incident and the index, the
  name built is a DNS-1123 label of at most 63 characters, even when the incident had to be cut, and two
  candidates of one incident never share it.\<close>

theorem twin_namespace_valid:
  assumes "build_twin_namespace p inc idx = Inr ns"
  shows "dns1123_label ns \<and> (\<forall>idx'. build_twin_namespace p inc idx' = Inr ns \<longrightarrow> idx' = idx)"
proof (intro conjI allI impI)
  show "dns1123_label ns"
    using assms by (rule twin_namespace_shape) (auto simp: dns1123_label_def nat_str_dns dns_char_def [of "CHR ''-''"])
  fix idx' assume other: "build_twin_namespace p inc idx' = Inr ns"
  obtain s where "ns = s @ CHR ''-'' # nat_str (nat idx)" "0 \<le> idx"
    using assms by (rule twin_namespace_shape) (metis append_Cons append_assoc append_Nil)
  moreover obtain s' where "ns = s' @ CHR ''-'' # nat_str (nat idx')" "0 \<le> idx'"
    using other by (rule twin_namespace_shape) (metis append_Cons append_assoc append_Nil)
  ultimately have "nat_str (nat idx') = nat_str (nat idx)" by (metis nat_str_dns(3) split_last(2))
  with \<open>0 \<le> idx\<close> \<open>0 \<le> idx'\<close> show "idx' = idx" by simp
qed

lemma twin_namespace_valid_witness:
  "build_twin_namespace ''ust-twin'' ''inc_01M2'' 3 = Inr ''ust-twin-inc-01m2-3'' \<and> dns1123_label ''ust-twin-inc-01m2-3'' \<and>
   build_twin_namespace ''ust-twin'' ''inc_01M2'' 4 \<noteq> Inr ''ust-twin-inc-01m2-3''"
proof -
  have run: "build_twin_namespace ''ust-twin'' ''inc_01M2'' 3 = Inr ''ust-twin-inc-01m2-3''" by code_simp
  show ?thesis using run twin_namespace_valid [OF run] by fastforce
qed

section \<open>Databases name their incident\<close>

lemma before_end_append: "t \<noteq> [] \<Longrightarrow> last t \<noteq> line_break \<Longrightarrow> before_end (s @ t) = s @ t"
  by (simp add: before_end_def)

lemma sanitized_database:
  assumes "sanitize_database_name inc idx = Inr db"
  shows "db = ''twin_'' @ clean_incident inc @ ''_'' @ nat_str (nat idx)" "0 \<le> idx" "clean_incident inc \<noteq> []"
  using assms by (auto simp: sanitize_database_name_def fleet_error_def fstr_def int_str_nat split: if_splits)

lemma nat_str_last: "last (nat_str n) \<noteq> line_break"
proof -
  have "py_digit (last (nat_str n))" using nat_str_digits [of n] by (simp add: list_all_iff)
  then show ?thesis by (auto simp: py_digit_def line_break_def)
qed

lemma database_incident:
  assumes "sanitize_database_name inc idx = Inr db" "line_break \<notin> set inc"
  shows "twin_db_incident db = Some (clean_incident inc)"
proof -
  let ?r = "clean_incident inc @ CHR ''_'' # nat_str (nat idx)"
  note db = sanitized_database [OF assms(1)]
  have "before_end (drop 5 db) = ?r"
    using db before_end_append [of "nat_str (nat idx)" "clean_incident inc @ [CHR ''_'']"] by (simp add: nat_str_last)
  moreover have "line_break \<notin> set (clean_incident inc)"
    using assms(2) set_py_strip by (fastforce simp: clean_incident_def replace_char_def line_break_def split: if_splits)
  ultimately show "twin_db_incident db = Some (clean_incident inc)"
    using db split_last [OF nat_str_dns(4)] nat_str_digits
    by (simp add: twin_db_incident_def Let_def startswith_def)
qed

text \<open>The name of a twin's database tells its incident: reading it back gives the incident it was made for, up to the
  separator the database language forbids, so that two twins share a database only when they are the same
  candidate of incidents that differ in nothing else.\<close>

theorem twin_database_roundtrip:
  assumes "sanitize_database_name inc idx = Inr db" "line_break \<notin> set inc"
  shows "twin_db_incident db = Some (clean_incident inc) \<and>
    (\<forall>inc' idx'. sanitize_database_name inc' idx' = Inr db \<longrightarrow> clean_incident inc' = clean_incident inc \<and> idx' = idx)"
proof (intro conjI allI impI)
  show "twin_db_incident db = Some (clean_incident inc)" by (rule database_incident [OF assms])
  let ?r = "clean_incident inc @ CHR ''_'' # nat_str (nat idx)"
  note db = sanitized_database [OF assms(1)]
  fix inc' idx' assume other: "sanitize_database_name inc' idx' = Inr db"
  have eq: "clean_incident inc' @ CHR ''_'' # nat_str (nat idx') = ?r"
    using db(1) sanitized_database(1) [OF other] by simp
  have "clean_incident inc' = clean_incident inc" "nat_str (nat idx') = nat_str (nat idx)"
    using arg_cong [OF eq, of "before_last (CHR ''_'')"] arg_cong [OF eq, of "after_last (CHR ''_'')"]
    by (simp_all only: split_last [OF nat_str_dns(4)])
  then show "clean_incident inc' = clean_incident inc" "idx' = idx"
    using db(2) sanitized_database(2) [OF other] by simp_all
qed

lemma twin_database_roundtrip_witness:
  "sanitize_database_name ''inc-7_a'' 12 = Inr ''twin_inc_7_a_12'' \<and> twin_db_incident ''twin_inc_7_a_12'' = Some ''inc_7_a'' \<and>
   sanitize_database_name ''inc-7'' 12 \<noteq> Inr ''twin_inc_7_a_12''"
proof -
  have run: "sanitize_database_name ''inc-7_a'' 12 = Inr ''twin_inc_7_a_12''" by code_simp
  have clean: "line_break \<notin> set ''inc-7_a''" "clean_incident ''inc-7_a'' = ''inc_7_a''" "clean_incident ''inc-7'' = ''inc_7''"
    by code_simp+
  note rt = twin_database_roundtrip [OF run clean(1)]
  have "sanitize_database_name ''inc-7'' 12 \<noteq> Inr ''twin_inc_7_a_12''"
  proof
    assume "sanitize_database_name ''inc-7'' 12 = Inr ''twin_inc_7_a_12''"
    then have "clean_incident ''inc-7'' = clean_incident ''inc-7_a''" using rt by blast
    then show False by (simp add: clean)
  qed
  with run conjunct1 [OF rt, unfolded clean(2)] show ?thesis by (intro conjI)
qed

end
