(* ===== verification/Url.thy ===== *)
theory Url
  imports TwinNames
begin

text \<open>
  The rewriting of URLs for a twin (\<open>rewrite_url\<close> and \<open>_is_ip_literal\<close> of \<^verbatim>\<open>fleet/render.py\<close>), with what it
  uses of the standard library: \<open>urlsplit\<close>, \<open>urlunsplit\<close>, \<open>hostname\<close> and \<open>port\<close> of \<^verbatim>\<open>urllib.parse\<close>, and
  \<open>ipaddress.ip_address\<close>.  \<open>None\<close> stands for the \<open>ValueError\<close> these raise.
\<close>

section \<open>Splitting strings\<close>

fun split_char :: "char \<Rightarrow> string \<Rightarrow> string list" where
  "split_char c [] = [[]]"
| "split_char c (x # xs) = (if x = c then [] # split_char c xs else
     (case split_char c xs of [] \<Rightarrow> [[x]] | y # ys \<Rightarrow> (x # y) # ys))"

text \<open>\<open>s.partition(c)\<close> without the separator; \<open>s.rpartition(c)[2]\<close> is \<open>after_last\<close>.\<close>

definition before_first :: "char \<Rightarrow> string \<Rightarrow> string" where
  "before_first c s = takeWhile (\<lambda>x. x \<noteq> c) s"

definition behind_first :: "char \<Rightarrow> string \<Rightarrow> string" where
  "behind_first c s = drop 1 (dropWhile (\<lambda>x. x \<noteq> c) s)"

lemma split_char_not_Nil [simp]: "split_char c s \<noteq> []"
  by (cases s) (auto split: list.splits)

lemma split_char_hd: "c \<notin> set (hd (split_char c s)) \<and> set (hd (split_char c s)) \<subseteq> set s"
  by (induction s) (auto split: list.splits)

section \<open>urlsplit\<close>

record Url =
  url_scheme :: string
  url_netloc :: string
  url_path :: string
  url_query :: string
  url_fragment :: string

definition scheme_char :: "char \<Rightarrow> bool" where
  "scheme_char c \<longleftrightarrow> (safe_char c \<and> c \<noteq> CHR ''_'') \<or> c \<in> set ''+-.''"

definition ascii_letter :: "char \<Rightarrow> bool" where
  "ascii_letter c \<longleftrightarrow> safe_char c \<and> \<not> py_digit c \<and> c \<noteq> CHR ''_''"

definition split_scheme :: "string \<Rightarrow> string \<times> string" where
  "split_scheme s =
     (let sch = before_first (CHR '':'') s in
      if CHR '':'' \<in> set s \<and> sch \<noteq> [] \<and> ascii_letter (hd sch) \<and> list_all scheme_char sch
      then (py_lower sch, behind_first (CHR '':'') s) else ([], s))"

definition netloc_end :: "char \<Rightarrow> bool" where
  "netloc_end c \<longleftrightarrow> c = CHR ''/'' \<or> c = CHR ''?'' \<or> c = CHR ''#''"

definition split_netloc :: "string \<Rightarrow> string \<times> string" where
  "split_netloc s = (if startswith s ''//'' then (takeWhile (\<lambda>c. \<not> netloc_end c) (drop 2 s), dropWhile (\<lambda>c. \<not> netloc_end c) (drop 2 s))
     else ([], s))"

text \<open>\<open>ipaddress\<close>: dotted quads without leading zeros; eight hexadecimal groups, of which one run may be left out.\<close>

definition hex_char :: "char \<Rightarrow> bool" where
  "hex_char c = (let n = (of_char c :: nat) in py_digit c \<or> (65 \<le> n \<and> n \<le> 70) \<or> (97 \<le> n \<and> n \<le> 102))"

definition octet_ok :: "string \<Rightarrow> bool" where
  "octet_ok s \<longleftrightarrow> s \<noteq> [] \<and> length s \<le> 3 \<and> list_all py_digit s \<and> (s = ''0'' \<or> hd s \<noteq> CHR ''0'') \<and> digits_value s 0 \<le> 255"

definition is_ipv4 :: "string \<Rightarrow> bool" where
  "is_ipv4 s \<longleftrightarrow> length (split_char (CHR ''.'') s) = 4 \<and> list_all octet_ok (split_char (CHR ''.'') s)"

definition hextet_ok :: "string \<Rightarrow> bool" where
  "hextet_ok s \<longleftrightarrow> s \<noteq> [] \<and> length s \<le> 4 \<and> list_all hex_char s"

definition ipv6_groups :: "string list \<Rightarrow> bool" where
  "ipv6_groups parts =
     (let n = length parts; gaps = filter (\<lambda>i. parts ! i = []) [1..<n - 1] in
      case gaps of
        [] \<Rightarrow> n = 8 \<and> list_all hextet_ok parts
      | [i] \<Rightarrow>
          (let hi = (if hd parts = [] then i - 1 else i); lo = (if last parts = [] then n - i - 2 else n - i - 1) in
           (hd parts = [] \<longrightarrow> hi = 0) \<and> (last parts = [] \<longrightarrow> lo = 0) \<and> hi + lo \<le> 7 \<and>
           list_all hextet_ok (take hi parts) \<and> list_all hextet_ok (drop (n - lo) parts))
      | _ \<Rightarrow> False)"

definition is_ipv6 :: "string \<Rightarrow> bool" where
  "is_ipv6 s =
     (let addr = before_first (CHR ''%'') s; zone = behind_first (CHR ''%'') s;
          parts = split_char (CHR '':'') addr;
          parts' = (if CHR ''.'' \<in> set (last parts) then butlast parts @ [''0'', ''0''] else parts) in
      (CHR ''%'' \<in> set s \<longrightarrow> zone \<noteq> [] \<and> CHR ''%'' \<notin> set zone) \<and> 3 \<le> length parts \<and>
      (CHR ''.'' \<in> set (last parts) \<longrightarrow> is_ipv4 (last parts)) \<and> length parts' \<le> 9 \<and> ipv6_groups parts')"

definition is_ip_literal :: "string \<Rightarrow> bool" where
  "is_ip_literal host \<longleftrightarrow> CHR ''/'' \<notin> set host \<and> (is_ipv4 host \<or> is_ipv6 host)"

text \<open>A host in brackets is an IPv6 address or \<open>v\<close>, hexadecimal digits, a dot and more.\<close>

definition bracketed_host_ok :: "string \<Rightarrow> bool" where
  "bracketed_host_ok host =
     (if startswith host ''v'' then
        (let version = takeWhile hex_char (drop 1 host); rest = dropWhile hex_char (drop 1 host) in
         version \<noteq> [] \<and> startswith rest ''.'' \<and> drop 1 rest \<noteq> [])
      else is_ipv6 host)"

definition bracketed_netloc_ok :: "string \<Rightarrow> bool" where
  "bracketed_netloc_ok netloc =
     (let hp = after_last (CHR ''@'') netloc; inner = behind_first (CHR ''['') hp; port = behind_first (CHR '']'') inner in
      if CHR ''['' \<in> set hp
      then before_first (CHR ''['') hp = [] \<and> (port = [] \<or> hd port = CHR '':'') \<and>
        bracketed_host_ok (before_first (CHR '']'') inner)
      else bracketed_host_ok (before_first (CHR '':'') hp))"

definition netloc_ok :: "string \<Rightarrow> bool" where
  "netloc_ok netloc \<longleftrightarrow> (CHR ''['' \<in> set netloc) = (CHR '']'' \<in> set netloc) \<and>
     (CHR ''['' \<in> set netloc \<longrightarrow> bracketed_netloc_ok netloc)"

text \<open>Tabs and line breaks are removed anywhere, blanks and control characters at the front.\<close>

definition clean_url :: "string \<Rightarrow> string" where
  "clean_url s = filter (\<lambda>c. c \<notin> {CHR 0x09, CHR 0x0A, CHR 0x0D}) (dropWhile (\<lambda>c. (of_char c :: nat) \<le> 32) s)"

definition urlsplit :: "string \<Rightarrow> Url option" where
  "urlsplit s =
     (let (scheme, rest) = split_scheme (clean_url s); (netloc, rest') = split_netloc rest;
          hier = before_first (CHR ''#'') rest' in
      if netloc_ok netloc
      then Some \<lparr>url_scheme = scheme, url_netloc = netloc, url_path = before_first (CHR ''?'') hier,
        url_query = behind_first (CHR ''?'') hier, url_fragment = behind_first (CHR ''#'') rest'\<rparr>
      else None)"

definition uses_netloc :: "string list" where
  "uses_netloc = [[], ''ftp'', ''http'', ''gopher'', ''nntp'', ''telnet'', ''imap'', ''wais'', ''file'', ''mms'', ''https'',
     ''shttp'', ''snews'', ''prospero'', ''rtsp'', ''rtspu'', ''rsync'', ''svn'', ''svn+ssh'', ''sftp'', ''nfs'', ''git'',
     ''git+ssh'', ''ws'', ''wss'']"

definition urlunsplit :: "Url \<Rightarrow> string" where
  "urlunsplit u =
     (let p = url_path u;
          rooted = (if p \<noteq> [] \<and> hd p \<noteq> CHR ''/'' then ''/'' @ p else p);
          hier = (if url_netloc u \<noteq> [] \<or> (url_scheme u \<noteq> [] \<and> url_scheme u \<in> set uses_netloc \<and> \<not> startswith p ''//'')
            then ''//'' @ url_netloc u @ rooted else p) in
      (if url_scheme u \<noteq> [] then url_scheme u @ '':'' else []) @ hier @
      (if url_query u \<noteq> [] then ''?'' @ url_query u else []) @ (if url_fragment u \<noteq> [] then ''#'' @ url_fragment u else []))"

definition host_port :: "Url \<Rightarrow> string \<times> string" where
  "host_port u =
     (let info = after_last (CHR ''@'') (url_netloc u); inner = behind_first (CHR ''['') info in
      if CHR ''['' \<in> set info then (before_first (CHR '']'') inner, behind_first (CHR '':'') (behind_first (CHR '']'') inner))
      else (before_first (CHR '':'') info, behind_first (CHR '':'') info))"

text \<open>\<open>(parsed.hostname or "").lower()\<close>\<close>

definition url_host :: "Url \<Rightarrow> string" where
  "url_host u = py_lower (fst (host_port u))"

text \<open>The port part \<open>f":{parsed.port}" if parsed.port else ""\<close>; \<open>None\<close> when the port is no number up to 65535.\<close>

definition url_port_part :: "Url \<Rightarrow> string option" where
  "url_port_part u =
     (let port = snd (host_port u); n = digits_value port 0 in
      if port = [] then Some []
      else if \<not> list_all py_digit port \<or> 65535 < n then None
      else Some (if n = 0 then [] else '':'' @ nat_str n))"

section \<open>rewrite_url\<close>

definition is_http :: "string \<Rightarrow> bool" where
  "is_http s \<longleftrightarrow> startswith s ''http://'' \<or> startswith s ''https://''"

definition rewrite_url :: "string \<Rightarrow> string \<Rightarrow> string \<Rightarrow> string list \<Rightarrow> string \<Rightarrow> string" where
  "rewrite_url url target_ns prod_ns known stub =
     (if \<not> is_http url then url
      else (case urlsplit url of
        None \<Rightarrow> stub
      | Some u \<Rightarrow>
          (let host = url_host u in
           if host = [] then stub
           else (case urlsplit stub of
             None \<Rightarrow> stub
           | Some st \<Rightarrow>
               (let labels = split_char (CHR ''.'') host;
                    to_stub = urlunsplit (u\<lparr>url_scheme := url_scheme st, url_netloc := url_netloc st\<rparr>) in
                if is_ip_literal host then to_stub
                else if prod_ns \<in> set labels then
                  (case url_port_part u of
                     None \<Rightarrow> stub
                   | Some port_part \<Rightarrow> urlunsplit (u\<lparr>url_netloc := fstr [hd labels, ''.'', target_ns, port_part]\<rparr>))
                else if host \<in> set known then url
                else if ''ust-system'' \<in> set labels \<or> ''kube-system'' \<in> set labels then url
                else to_stub)))))"

section \<open>Where a rewritten URL leads\<close>

text \<open>The authority of a URL: what stands between \<open>//\<close> and the path, the query or the fragment.\<close>

definition authority :: "string \<Rightarrow> string" where
  "authority url = takeWhile (\<lambda>c. \<not> netloc_end c) (drop 3 (dropWhile (\<lambda>c. c \<noteq> CHR '':'') url))"

lemma authority_eq:
  assumes "CHR '':'' \<notin> set sch" "\<forall>c \<in> set netloc. \<not> netloc_end c" "rest = [] \<or> netloc_end (hd rest)"
  shows "authority (sch @ '':'' @ ''//'' @ netloc @ rest) = netloc"
proof -
  have "dropWhile (\<lambda>c. c \<noteq> CHR '':'') (sch @ CHR '':'' # ''//'' @ netloc @ rest) = CHR '':'' # ''//'' @ netloc @ rest"
    using assms(1) by (subst dropWhile_append2) auto
  moreover have "takeWhile (\<lambda>c. \<not> netloc_end c) (netloc @ rest) = netloc"
    using assms(2,3) by (cases rest) (auto simp: takeWhile_append)
  ultimately show ?thesis by (simp add: authority_def)
qed

lemma urlsplit_parts:
  assumes "urlsplit s = Some u"
  shows "CHR '':'' \<notin> set (url_scheme u)" "\<forall>c \<in> set (url_netloc u). \<not> netloc_end c"
    "url_netloc u \<noteq> [] \<Longrightarrow> url_path u = [] \<or> hd (url_path u) = CHR ''/''"
proof -
  obtain sch rest where p: "split_scheme (clean_url s) = (sch, rest)" by (metis surj_pair)
  obtain netloc rest' where q: "split_netloc rest = (netloc, rest')" by (metis surj_pair)
  have u: "url_scheme u = sch" "url_netloc u = netloc" "url_path u = before_first (CHR ''?'') (before_first (CHR ''#'') rest')"
    using assms by (auto simp: urlsplit_def Let_def p q split: if_splits)
  have "lower_char c \<noteq> CHR '':''" if "scheme_char c" for c
  proof
    assume "lower_char c = CHR '':''"
    then have "(of_char (lower_char c) :: nat) = 58" by simp
    moreover have "c = CHR '':''" if "(of_char c :: nat) = 58" using that of_char_eq_iff [of c "CHR '':''", where 'a = nat] by simp
    ultimately show False using that
      by (auto simp: scheme_char_def safe_char_def py_digit_def lower_char_def Let_def of_char_of split: if_splits)
  qed
  then have low: "list_all scheme_char x \<Longrightarrow> CHR '':'' \<notin> set (py_lower x)" for x
    by (auto simp: py_lower_def list_all_iff) metis
  have "sch = [] \<or> (\<exists>x. list_all scheme_char x \<and> sch = py_lower x)"
    using p by (auto simp: split_scheme_def Let_def split: if_splits)
  then show "CHR '':'' \<notin> set (url_scheme u)" using u(1) low by fastforce
  show "\<forall>c \<in> set (url_netloc u). \<not> netloc_end c"
  proof -
    have "netloc = takeWhile (\<lambda>c. \<not> netloc_end c) (drop 2 rest) \<or> netloc = []"
      using q by (auto simp: split_netloc_def split: if_splits)
    then show ?thesis using u(2) by (auto dest: set_takeWhileD)
  qed
  assume "url_netloc u \<noteq> []"
  then have "rest' = dropWhile (\<lambda>c. \<not> netloc_end c) (drop 2 rest)" using q u(2) by (auto simp: split_netloc_def split: if_splits)
  then have "rest' = [] \<or> netloc_end (hd rest')" using hd_dropWhile by (metis (no_types, lifting))
  then show "url_path u = [] \<or> hd (url_path u) = CHR ''/''"
    unfolding u(3) by (cases rest') (auto simp: before_first_def netloc_end_def)
qed

lemma authority_urlunsplit:
  assumes "CHR '':'' \<notin> set (url_scheme u)" "url_scheme u \<noteq> []" "url_netloc u \<noteq> []" "\<forall>c \<in> set (url_netloc u). \<not> netloc_end c"
    and "url_path u = [] \<or> hd (url_path u) = CHR ''/''"
  shows "authority (urlunsplit u) = url_netloc u"
proof -
  let ?rest = "url_path u @ (if url_query u \<noteq> [] then ''?'' @ url_query u else []) @
    (if url_fragment u \<noteq> [] then ''#'' @ url_fragment u else [])"
  have "urlunsplit u = url_scheme u @ '':'' @ ''//'' @ url_netloc u @ ?rest"
    using assms(2,3,5) by (auto simp: urlunsplit_def Let_def)
  moreover have "?rest = [] \<or> netloc_end (hd ?rest)"
    using assms(5) by (cases "url_path u") (auto simp: netloc_end_def)
  ultimately show ?thesis using authority_eq [OF assms(1,4)] by metis
qed


text \<open>A URL with http or https as scheme keeps it, and its host has none of the characters that end an authority.\<close>

lemma urlsplit_http:
  assumes "is_http s" "urlsplit s = Some u"
  shows "url_scheme u \<noteq> []"
proof -
  have "clean_url s = ''http'' @ CHR '':'' # drop 5 (clean_url s) \<or> clean_url s = ''https'' @ CHR '':'' # drop 6 (clean_url s)"
    using assms(1) by (auto simp: is_http_def startswith_iff clean_url_def)
  then have "\<exists>r. split_scheme (clean_url s) = (''http'', r) \<or> split_scheme (clean_url s) = (''https'', r)"
  proof
    assume c: "clean_url s = ''http'' @ CHR '':'' # drop 5 (clean_url s)"
    show ?thesis by (subst c, subst c, simp add: split_scheme_def before_first_def ascii_letter_def scheme_char_def safe_char_def
          py_digit_def py_lower_def lower_char_def)
  next
    assume c: "clean_url s = ''https'' @ CHR '':'' # drop 6 (clean_url s)"
    show ?thesis by (subst c, subst c, simp add: split_scheme_def before_first_def ascii_letter_def scheme_char_def safe_char_def
          py_digit_def py_lower_def lower_char_def)
  qed
  then show ?thesis using assms(2) by (auto simp: urlsplit_def Let_def split: prod.splits if_splits)
qed


lemma lower_special: "lower_char c = x \<Longrightarrow> (of_char x :: nat) < 64 \<Longrightarrow> c = x"
  by (auto simp: lower_char_def Let_def of_char_of split: if_splits)

lemma set_split_parts:
  "set (before_first c s) \<subseteq> set s" "set (behind_first c s) \<subseteq> set s" "set (after_last c s) \<subseteq> set s"
  unfolding before_first_def behind_first_def after_last_def
  by (auto dest!: set_takeWhileD set_dropWhileD in_set_dropD)

lemma url_host_netloc:
  assumes "x \<in> set (url_host u)" "(of_char x :: nat) < 64"
  shows "x \<in> set (url_netloc u)"
proof -
  obtain c where c: "c \<in> set (fst (host_port u))" "x = lower_char c" using assms(1) by (auto simp: url_host_def py_lower_def)
  then have "c = x" using lower_special [of c x] assms(2) by simp
  moreover have "set (fst (host_port u)) \<subseteq> set (url_netloc u)"
    unfolding host_port_def Let_def by (auto dest!: set_split_parts [THEN subsetD])
  ultimately show ?thesis using c(1) by blast
qed

lemma netloc_end_code: "netloc_end x \<Longrightarrow> (of_char x :: nat) < 64"
  by (auto simp: netloc_end_def)

lemma dns_not_netloc_end: "dns_char c \<Longrightarrow> \<not> netloc_end c"
  by (auto simp: netloc_end_def dns_char_def py_digit_def Let_def)

lemma port_part_shape: "url_port_part u = Some p \<Longrightarrow> (p = [] \<or> hd p = CHR '':'') \<and> (\<forall>c \<in> set p. \<not> netloc_end c)"
proof -
  assume "url_port_part u = Some p"
  then consider "p = []" | n where "p = CHR '':'' # nat_str n" by (auto simp: url_port_part_def Let_def split: if_splits)
  then show ?thesis
  proof cases
    case 2
    have "\<forall>c \<in> set (nat_str n). \<not> netloc_end c" using nat_str_dns(1) [of n] dns_not_netloc_end by (auto simp: list_all_iff)
    then show ?thesis using 2 by (auto simp: netloc_end_def [of "CHR '':''"])
  qed simp
qed

text \<open>Where a URL may lead from a twin: the stub, a service of the twin itself, a known workload without a namespace, or a
  name with a label of the cluster's infrastructure; never a name with the label of the production namespace.\<close>

definition leads_inside :: "string \<Rightarrow> string \<Rightarrow> string list \<Rightarrow> string \<Rightarrow> string \<Rightarrow> string \<Rightarrow> bool" where
  "leads_inside target_ns prod_ns known stub url v \<longleftrightarrow>
     v = stub \<or> authority v = authority stub \<or>
     (\<exists>svc port. authority v = svc @ ''.'' @ target_ns @ port \<and> CHR ''.'' \<notin> set svc \<and> (port = [] \<or> hd port = CHR '':'')) \<or>
     (v = url \<and> (case urlsplit url of None \<Rightarrow> False | Some u \<Rightarrow>
        (let labels = split_char (CHR ''.'') (url_host u) in prod_ns \<notin> set labels \<and>
          (url_host u \<in> set known \<or> ''ust-system'' \<in> set labels \<or> ''kube-system'' \<in> set labels))))"

lemma rewrite_to_twin:
  assumes "is_http url" "urlsplit url = Some u" "url_netloc u \<noteq> []" "dns1123_label target_ns" "url_port_part u = Some port"
  shows "authority (urlunsplit (u\<lparr>url_netloc := fstr [hd (split_char (CHR ''.'') (url_host u)), ''.'', target_ns, port]\<rparr>)) =
    hd (split_char (CHR ''.'') (url_host u)) @ ''.'' @ target_ns @ port"
proof -
  let ?svc = "hd (split_char (CHR ''.'') (url_host u))"
  have "\<forall>c \<in> set ?svc. \<not> netloc_end c"
    using split_char_hd [of "CHR ''.''" "url_host u"] urlsplit_parts(2) [OF assms(2)] url_host_netloc netloc_end_code by blast
  moreover have "\<forall>c \<in> set target_ns. \<not> netloc_end c"
    using assms(4) dns_not_netloc_end by (auto simp: dns1123_label_def list_all_iff)
  moreover have "\<not> netloc_end (CHR ''.'')" by (simp add: netloc_end_def)
  ultimately have "\<forall>c \<in> set (fstr [?svc, ''.'', target_ns, port]). \<not> netloc_end c"
    using port_part_shape [OF assms(5)] by (auto simp: fstr_def)
  from authority_urlunsplit [OF _ _ _ _ _, of "u\<lparr>url_netloc := fstr [?svc, ''.'', target_ns, port]\<rparr>"] this show ?thesis
    using urlsplit_parts(1,3) [OF assms(2)] urlsplit_http [OF assms(1,2)] assms(3) by (simp add: fstr_def)
qed

lemma host_netloc_Nil: "url_host u \<noteq> [] \<Longrightarrow> url_netloc u \<noteq> []"
  by (auto simp: url_host_def host_port_def Let_def py_lower_def after_last_def before_first_def behind_first_def)

lemma rewrite_to_stub:
  assumes "is_http stub" "urlsplit stub = Some st" "url_netloc st \<noteq> []" "urlsplit url = Some u" "url_netloc u \<noteq> []"
  shows "authority (urlunsplit (u\<lparr>url_scheme := url_scheme st, url_netloc := url_netloc st\<rparr>)) = url_netloc st"
  using authority_urlunsplit [of "u\<lparr>url_scheme := url_scheme st, url_netloc := url_netloc st\<rparr>"] assms(3)
    urlsplit_parts(1,2) [OF assms(2)] urlsplit_parts(3) [OF assms(4,5)] urlsplit_http [OF assms(1,2)] by simp

lemma url_leads_inside:
  assumes "is_http url" "is_http stub" "urlsplit stub = Some st" "url_netloc st \<noteq> []" "authority stub = url_netloc st"
    and "dns1123_label target_ns"
  shows "leads_inside target_ns prod_ns known stub url (rewrite_url url target_ns prod_ns known stub)"
proof (cases "\<exists>u. urlsplit url = Some u \<and> url_host u \<noteq> []")
  case False
  then have "rewrite_url url target_ns prod_ns known stub = stub"
    using assms(1) by (auto simp: rewrite_url_def Let_def split: option.splits)
  then show ?thesis by (simp add: leads_inside_def)
next
  case True
  then obtain u where u: "urlsplit url = Some u" "url_host u \<noteq> []" by blast
  let ?labels = "split_char (CHR ''.'') (url_host u)"
  let ?v = "rewrite_url url target_ns prod_ns known stub"
  have nl: "url_netloc u \<noteq> []" by (rule host_netloc_Nil [OF u(2)])
  have v: "?v = (if is_ip_literal (url_host u) then urlsplit_stub
       else if prod_ns \<in> set ?labels then (case url_port_part u of None \<Rightarrow> stub
         | Some p \<Rightarrow> urlunsplit (u\<lparr>url_netloc := fstr [hd ?labels, ''.'', target_ns, p]\<rparr>))
       else if url_host u \<in> set known \<or> ''ust-system'' \<in> set ?labels \<or> ''kube-system'' \<in> set ?labels then url
       else urlsplit_stub)"
    if "urlsplit_stub = urlunsplit (u\<lparr>url_scheme := url_scheme st, url_netloc := url_netloc st\<rparr>)" for urlsplit_stub
    using assms(1,3) u that by (simp add: rewrite_url_def Let_def)
  consider (stub) "?v = stub"
    | (to_stub) "?v = urlunsplit (u\<lparr>url_scheme := url_scheme st, url_netloc := url_netloc st\<rparr>)"
    | (twin) p where "url_port_part u = Some p" "?v = urlunsplit (u\<lparr>url_netloc := fstr [hd ?labels, ''.'', target_ns, p]\<rparr>)"
    | (kept) "?v = url" "prod_ns \<notin> set ?labels" "url_host u \<in> set known \<or> ''ust-system'' \<in> set ?labels \<or> ''kube-system'' \<in> set ?labels"
  proof (cases "is_ip_literal (url_host u) \<or> prod_ns \<notin> set ?labels")
    case True
    then show ?thesis using to_stub kept v [OF refl] by (cases "is_ip_literal (url_host u)") (simp_all split: if_splits)
  next
    case False
    then show ?thesis using stub twin v [OF refl] by (cases "url_port_part u") simp_all
  qed
  then show ?thesis
  proof cases
    case to_stub
    then show ?thesis using rewrite_to_stub [OF assms(2-4) u(1) nl] assms(5) by (simp add: leads_inside_def)
  next
    case twin
    have "authority ?v = hd ?labels @ ''.'' @ target_ns @ p"
      unfolding twin(2) by (rule rewrite_to_twin [OF assms(1) u(1) nl assms(6) twin(1)])
    then show ?thesis using split_char_hd port_part_shape [OF twin(1)] unfolding leads_inside_def by blast
  next
    case kept
    then show ?thesis using u by (simp add: leads_inside_def Let_def)
  qed (simp add: leads_inside_def)
qed

text \<open>An HTTP URL given to a twin leads nowhere outside: whatever its user, host, port or path, it becomes the stub's
  address or one with the stub's authority, an address of a service in the twin's own namespace, or it stays as it is
  because its host is a workload of the twin or bears a label of the cluster's infrastructure, and then no label of it
  names production.\<close>

theorem rewrite_url_contained:
  assumes "is_http url" "is_http stub" "urlsplit stub = Some st" "url_netloc st \<noteq> []" "authority stub = url_netloc st"
    and "dns1123_label target_ns"
  shows "leads_inside target_ns prod_ns known stub url (rewrite_url url target_ns prod_ns known stub)"
  by (rule url_leads_inside [OF assms])

definition default_egress_stub :: string where
  "default_egress_stub = ''http://egress-stub.ust-system:8000''"

lemma rewrite_url_contained_witness:
  "leads_inside ''ust-twin-a-0'' ''ust-prod'' [''auth-service''] default_egress_stub
     ''https://u:p@api.stripe.com:443/v1?x=1#f'' ''http://egress-stub.ust-system:8000/v1?x=1#f'' \<and>
   leads_inside ''ust-twin-a-0'' ''ust-prod'' [''auth-service''] default_egress_stub
     ''http://auth-service.ust-prod.svc/login'' ''http://auth-service.ust-twin-a-0/login''"
proof -
  have stub: "is_http default_egress_stub" "urlsplit default_egress_stub = Some \<lparr>url_scheme = ''http'',
      url_netloc = ''egress-stub.ust-system:8000'', url_path = [], url_query = [], url_fragment = []\<rparr>"
    "authority default_egress_stub = ''egress-stub.ust-system:8000''" "dns1123_label ''ust-twin-a-0''" by code_simp+
  have inside: "leads_inside ''ust-twin-a-0'' ''ust-prod'' [''auth-service''] default_egress_stub url
      (rewrite_url url ''ust-twin-a-0'' ''ust-prod'' [''auth-service''] default_egress_stub)" if "is_http url" for url
    by (rule rewrite_url_contained [OF that stub(1,2) _ _ stub(4)]) (simp_all add: stub(3))
  have external: "rewrite_url ''https://u:p@api.stripe.com:443/v1?x=1#f'' ''ust-twin-a-0'' ''ust-prod'' [''auth-service'']
      default_egress_stub = ''http://egress-stub.ust-system:8000/v1?x=1#f''"
    "is_http ''https://u:p@api.stripe.com:443/v1?x=1#f''" by code_simp+
  have prod: "rewrite_url ''http://auth-service.ust-prod.svc/login'' ''ust-twin-a-0'' ''ust-prod'' [''auth-service'']
      default_egress_stub = ''http://auth-service.ust-twin-a-0/login''"
    "is_http ''http://auth-service.ust-prod.svc/login''" by code_simp+
  show ?thesis
    by (rule conjI; (rule inside [OF external(2), unfolded external(1)] | rule inside [OF prod(2), unfolded prod(1)]))
qed

end
