(* ===== verification/Render.thy ===== *)
theory Render
  imports Url
begin

text \<open>
  The manifests of a twin (\<^verbatim>\<open>fleet/models.py\<close> and \<open>TwinManifestRenderer\<close> of \<^verbatim>\<open>fleet/render.py\<close>): the snapshot of
  production's workloads is rendered into the twin's namespace with its role, its database and its URLs
  rewritten.  The documents a policy template holds, read by the YAML library, are parameters.
\<close>

section \<open>Snapshots (models.py)\<close>

datatype Yaml = YNull | YBool bool | YInt int | YStr string | YSeq "Yaml list" | YMap "(string \<times> Yaml) list"

type_synonym yaml_dict = "(string \<times> Yaml) list"

record EnvVar =
  ev_name :: string
  ev_value :: "string option"
  ev_value_from :: "yaml_dict option"

text \<open>The dict of a container port; its three keys are always present.\<close>

record FleetPort =
  fp_container_port :: "int option"
  fp_name :: "string option"
  fp_protocol :: "string option"

record ResourceSpec =
  rs_requests :: "(string \<times> string) list"
  rs_limits :: "(string \<times> string) list"

record ContainerSnapshot =
  cn_name :: string
  cn_image_tag :: string
  cn_image_digest :: string
  cn_pinned_image :: string
  cn_digest_pinned :: bool
  cn_resources :: ResourceSpec
  cn_env :: "EnvVar list"
  cn_ports :: "FleetPort list"
  cn_liveness :: "yaml_dict option"
  cn_readiness :: "yaml_dict option"

record WorkloadSnapshot =
  wl_name :: string
  wl_namespace :: string
  wl_component :: "string option"
  wl_labels :: "(string \<times> string) list"
  wl_annotations :: "(string \<times> string) list"
  wl_replicas :: int
  wl_containers :: "ContainerSnapshot list"
  wl_config_map_refs :: "string list"
  wl_volumes :: "yaml_dict list"

record ClusterWorkloadSnapshot =
  cw_namespace :: string
  cw_workloads :: "(string \<times> WorkloadSnapshot) list"
  cw_config_maps :: "(string \<times> (string \<times> string) list) list"
  cw_captured_at :: instant

section \<open>Manifests\<close>

datatype Peer = SamePods | NamespaceNamed string

record EgressRule =
  er_to :: Peer
  er_ports :: "(string \<times> int) list"

record ServicePort =
  sp_name :: string
  sp_port :: int
  sp_target :: int
  sp_protocol :: "string option"

record ContainerSpec =
  cs_name :: string
  cs_image :: string
  cs_pull_policy :: string
  cs_resources :: ResourceSpec
  cs_env :: "EnvVar list"
  cs_ports :: "FleetPort list"
  cs_liveness :: "yaml_dict option"
  cs_readiness :: "yaml_dict option"

record PodTemplate =
  pt_labels :: "(string \<times> string) list"
  pt_annotations :: "(string \<times> string) list"
  pt_service_account :: string
  pt_containers :: "ContainerSpec list"
  pt_volumes :: "yaml_dict list"

text \<open>\<open>DocumentBody\<close> is what else a document of a template holds.\<close>

datatype ManifestBody =
    NoBody
  | RoleBody string "(string \<times> string \<times> string) list"
  | PolicyBody "string list" "EgressRule list"
  | ConfigBody "(string \<times> string) list"
  | ServiceBody "(string \<times> string) list" "ServicePort list"
  | DeploymentBody int "(string \<times> string) list" PodTemplate
  | DocumentBody yaml_dict

record Manifest =
  mf_kind :: "string option"
  mf_name :: "string option"
  mf_namespace :: "string option"
  mf_labels :: "(string \<times> string) list"
  mf_annotations :: "(string \<times> string) list"
  mf_body :: ManifestBody

record TwinManifestBundle =
  tb_twin_id :: string
  tb_incident_id :: string
  tb_candidate_index :: int
  tb_namespace :: string
  tb_database_name :: string
  tb_database_dsn :: string
  tb_manifests :: "Manifest list"

definition deployment_manifests :: "TwinManifestBundle \<Rightarrow> Manifest list" where
  "deployment_manifests b = filter (\<lambda>m. mf_kind m = Some ''Deployment'') (tb_manifests b)"

definition network_policy_manifest :: "TwinManifestBundle \<Rightarrow> Manifest option" where
  "network_policy_manifest b = find (\<lambda>m. mf_kind m = Some ''NetworkPolicy'') (tb_manifests b)"

section \<open>The renderer\<close>

text \<open>The two template parameters take the twin's namespace and give the documents of the file, if there is one.\<close>

record Renderer =
  rn_twin_prefix :: string
  rn_prod_namespace :: string
  rn_system_namespace :: string
  rn_pg_host :: string
  rn_pg_port :: int
  rn_pg_user :: string
  rn_egress_stub :: string
  rn_policy_template :: "string \<Rightarrow> Manifest option"
  rn_rbac_template :: "string \<Rightarrow> Manifest list option"

definition default_renderer :: "(string \<Rightarrow> Manifest option) \<Rightarrow> (string \<Rightarrow> Manifest list option) \<Rightarrow> Renderer" where
  "default_renderer policy rbac = \<lparr>rn_twin_prefix = ''ust-twin'', rn_prod_namespace = ''ust-prod'',
     rn_system_namespace = ''ust-system'', rn_pg_host = ''twin-postgres.ust-system'', rn_pg_port = 5433,
     rn_pg_user = ''postgres'', rn_egress_stub = default_egress_stub, rn_policy_template = policy, rn_rbac_template = rbac\<rparr>"

text \<open>\<open>rewrite_database_dsn\<close> without an original DSN, as the renderer calls it.\<close>

definition twin_dsn :: "Renderer \<Rightarrow> string \<Rightarrow> string" where
  "twin_dsn rn db = fstr [''postgresql://'', rn_pg_user rn, ''@'', rn_pg_host rn, '':'', int_str (rn_pg_port rn), ''/'', db]"

definition twin_labels :: "string \<Rightarrow> int \<Rightarrow> (string \<times> string) list" where
  "twin_labels incident idx = [(''app.kubernetes.io/part-of'', ''understudy''), (''environment'', ''twin''),
     (''understudy.dev/incident'', incident), (''understudy.dev/candidate'', int_str idx)]"

definition app_labels :: "string \<Rightarrow> string \<Rightarrow> int \<Rightarrow> (string \<times> string) list" where
  "app_labels name incident idx = [(''app'', name), (''app.kubernetes.io/name'', name)] @ twin_labels incident idx"

definition render_namespace :: "string \<Rightarrow> string \<Rightarrow> int \<Rightarrow> Manifest" where
  "render_namespace ns incident idx = \<lparr>mf_kind = Some ''Namespace'', mf_name = Some ns, mf_namespace = None,
     mf_labels = twin_labels incident idx @ [(''kubernetes.io/metadata.name'', ns)], mf_annotations = [], mf_body = NoBody\<rparr>"

definition with_twin_labels :: "string \<Rightarrow> int \<Rightarrow> Manifest \<Rightarrow> Manifest" where
  "with_twin_labels incident idx m = m\<lparr>mf_labels := dict_put ''understudy.dev/candidate'' (int_str idx)
     (dict_put ''understudy.dev/incident'' incident (mf_labels m))\<rparr>"

definition TWIN_POLICY_NAME :: string where "TWIN_POLICY_NAME = ''twin-egress-containment''"

definition golden_egress :: "string \<Rightarrow> EgressRule list" where
  "golden_egress system_ns = [\<lparr>er_to = SamePods, er_ports = []\<rparr>,
     \<lparr>er_to = NamespaceNamed ''kube-system'', er_ports = [(''UDP'', 53), (''TCP'', 53)]\<rparr>,
     \<lparr>er_to = NamespaceNamed system_ns, er_ports = [(''TCP'', 5432), (''TCP'', 5433), (''TCP'', 8000), (''TCP'', 8080)]\<rparr>]"

definition render_network_policy :: "Renderer \<Rightarrow> string \<Rightarrow> string \<Rightarrow> int \<Rightarrow> Manifest" where
  "render_network_policy rn ns incident idx =
     (case rn_policy_template rn ns of
        Some m \<Rightarrow> with_twin_labels incident idx m
      | None \<Rightarrow> \<lparr>mf_kind = Some ''NetworkPolicy'', mf_name = Some TWIN_POLICY_NAME, mf_namespace = Some ns,
          mf_labels = twin_labels incident idx, mf_annotations = [],
          mf_body = PolicyBody [''Egress''] (golden_egress (rn_system_namespace rn))\<rparr>)"

definition render_rbac :: "Renderer \<Rightarrow> string \<Rightarrow> string \<Rightarrow> int \<Rightarrow> Manifest list" where
  "render_rbac rn ns incident idx =
     (case rn_rbac_template rn ns of
        Some docs \<Rightarrow> map (with_twin_labels incident idx) docs
      | None \<Rightarrow>
          [\<lparr>mf_kind = Some ''ServiceAccount'', mf_name = Some ''understudy-twin'', mf_namespace = Some ns,
             mf_labels = twin_labels incident idx, mf_annotations = [], mf_body = NoBody\<rparr>,
           \<lparr>mf_kind = Some ''RoleBinding'', mf_name = Some ''understudy-twin'', mf_namespace = Some ns,
             mf_labels = twin_labels incident idx, mf_annotations = [],
             mf_body = RoleBody ''understudy-twin'' [(''ServiceAccount'', ''understudy-twin'', ns)]\<rparr>])"

definition DB_KEYS :: "string list" where
  "DB_KEYS = [''DATABASE_URL'', ''POSTGRES_URL'', ''DB_URL'']"

definition is_postgres :: "string \<Rightarrow> bool" where
  "is_postgres v \<longleftrightarrow> startswith v ''postgresql://'' \<or> startswith v ''postgres://''"

definition twin_url :: "Renderer \<Rightarrow> string \<Rightarrow> string list \<Rightarrow> string \<Rightarrow> string" where
  "twin_url rn ns known v = rewrite_url v ns (rn_prod_namespace rn) known (rn_egress_stub rn)"

definition rewrite_config_value :: "Renderer \<Rightarrow> string \<Rightarrow> string \<Rightarrow> string list \<Rightarrow> string \<Rightarrow> string \<Rightarrow> string" where
  "rewrite_config_value rn ns dsn known k v =
     (if k = ''ENVIRONMENT'' \<and> v = ''production'' then ''twin''
      else if k \<in> set DB_KEYS \<or> is_postgres v then dsn
      else if is_http v then twin_url rn ns known v
      else v)"

definition render_config_maps ::
    "Renderer \<Rightarrow> (string \<times> (string \<times> string) list) list \<Rightarrow> string \<Rightarrow> string \<Rightarrow> int \<Rightarrow> string \<Rightarrow> string list \<Rightarrow> Manifest list" where
  "render_config_maps rn cms ns incident idx dsn known =
     map (\<lambda>(name, data). \<lparr>mf_kind = Some ''ConfigMap'', mf_name = Some name, mf_namespace = Some ns,
        mf_labels = twin_labels incident idx, mf_annotations = [],
        mf_body = ConfigBody (map (\<lambda>(k, v). (k, rewrite_config_value rn ns dsn known k v)) data)\<rparr>) (sort_key fst cms)"

text \<open>An empty value counts as none in the tests, and is kept.\<close>

definition rewrite_env_var :: "Renderer \<Rightarrow> string \<Rightarrow> string \<Rightarrow> string list \<Rightarrow> EnvVar \<Rightarrow> EnvVar" where
  "rewrite_env_var rn dsn ns known ev =
     (let v = (case ev_value ev of Some s \<Rightarrow> s | None \<Rightarrow> []);
          from = (case ev_value_from ev of Some (kv # kvs) \<Rightarrow> Some (kv # kvs) | _ \<Rightarrow> None) in
      if ev_name ev = ''UNDERSTUDY_ROLE'' then \<lparr>ev_name = ''UNDERSTUDY_ROLE'', ev_value = Some ''twin'', ev_value_from = None\<rparr>
      else if ev_name ev \<in> set DB_KEYS \<or> is_postgres v then \<lparr>ev_name = ev_name ev, ev_value = Some dsn, ev_value_from = None\<rparr>
      else if is_http v then \<lparr>ev_name = ev_name ev, ev_value = Some (twin_url rn ns known v), ev_value_from = from\<rparr>
      else \<lparr>ev_name = ev_name ev, ev_value = ev_value ev, ev_value_from = from\<rparr>)"

definition rewrite_container_env :: "Renderer \<Rightarrow> EnvVar list \<Rightarrow> string \<Rightarrow> string \<Rightarrow> string list \<Rightarrow> EnvVar list" where
  "rewrite_container_env rn env dsn ns known =
     map (rewrite_env_var rn dsn ns known) env @
     (if \<exists>ev \<in> set env. ev_name ev = ''UNDERSTUDY_ROLE'' then []
      else [\<lparr>ev_name = ''UNDERSTUDY_ROLE'', ev_value = Some ''twin'', ev_value_from = None\<rparr>])"

text \<open>The ports of a service: those two services offer besides, then the containers' ports not seen yet.\<close>

definition named_ports :: "string \<Rightarrow> ServicePort list" where
  "named_ports name =
     (if name = ''edge-gateway'' then
        [\<lparr>sp_name = ''http'', sp_port = 8000, sp_target = 8000, sp_protocol = Some ''TCP''\<rparr>,
         \<lparr>sp_name = ''gateway'', sp_port = 8080, sp_target = 8000, sp_protocol = Some ''TCP''\<rparr>]
      else if name = ''data-service'' then
        [\<lparr>sp_name = ''http'', sp_port = 8000, sp_target = 8000, sp_protocol = Some ''TCP''\<rparr>,
         \<lparr>sp_name = ''admin-fault'', sp_port = 8081, sp_target = 8000, sp_protocol = Some ''TCP''\<rparr>]
      else [])"

definition add_port :: "ServicePort list \<Rightarrow> FleetPort \<Rightarrow> ServicePort list" where
  "add_port ports p =
     (case fp_container_port p of
        None \<Rightarrow> ports
      | Some cp \<Rightarrow>
          if cp \<noteq> 0 \<and> cp \<notin> set (map sp_port ports)
          then ports @ [\<lparr>sp_name = (case fp_name p of Some (c # cs) \<Rightarrow> c # cs | _ \<Rightarrow> fstr [''port-'', int_str cp]),
            sp_port = cp, sp_target = cp, sp_protocol = fp_protocol p\<rparr>]
          else ports)"

definition render_services :: "(string \<times> WorkloadSnapshot) list \<Rightarrow> string \<Rightarrow> string \<Rightarrow> int \<Rightarrow> Manifest list" where
  "render_services wls ns incident idx =
     List.map_filter (\<lambda>(name, wl).
       (let ports = foldl add_port (named_ports name) (concat (map cn_ports (wl_containers wl))) in
        if ports = [] then None
        else Some \<lparr>mf_kind = Some ''Service'', mf_name = Some name, mf_namespace = Some ns,
          mf_labels = app_labels name incident idx, mf_annotations = [], mf_body = ServiceBody [(''app'', name)] ports\<rparr>))
       (sort_key fst wls)"

definition nonempty_dict :: "yaml_dict option \<Rightarrow> yaml_dict option" where
  "nonempty_dict d = (case d of Some (kv # kvs) \<Rightarrow> Some (kv # kvs) | _ \<Rightarrow> None)"

definition render_container ::
    "Renderer \<Rightarrow> string \<Rightarrow> string \<Rightarrow> string \<Rightarrow> string list \<Rightarrow> ContainerSnapshot \<Rightarrow> PyExc + ContainerSpec" where
  "render_container rn wl dsn ns known c =
     (if cn_pinned_image c = [] then
        fleet_error [''Workload '', squote wl, '' container '', squote (cn_name c), '' has no pinned image digest'']
      else Inr \<lparr>cs_name = cn_name c, cs_image = cn_pinned_image c, cs_pull_policy = ''IfNotPresent'', cs_resources = cn_resources c,
        cs_env = rewrite_container_env rn (cn_env c) dsn ns known, cs_ports = cn_ports c,
        cs_liveness = nonempty_dict (cn_liveness c), cs_readiness = nonempty_dict (cn_readiness c)\<rparr>)"

definition render_deployment ::
    "Renderer \<Rightarrow> string \<Rightarrow> string \<Rightarrow> int \<Rightarrow> string \<Rightarrow> string list \<Rightarrow> string \<times> WorkloadSnapshot \<Rightarrow> PyExc + Manifest" where
  "render_deployment rn ns incident idx dsn known = (\<lambda>(name, wl).
     bindE (mapE (render_container rn name dsn ns known) (wl_containers wl)) (\<lambda>cs.
       Inr \<lparr>mf_kind = Some ''Deployment'', mf_name = Some name, mf_namespace = Some ns,
         mf_labels = dict_merge (wl_labels wl) (app_labels name incident idx), mf_annotations = wl_annotations wl,
         mf_body = DeploymentBody (wl_replicas wl) [(''app'', name)]
           \<lparr>pt_labels = [(''app'', name), (''app.kubernetes.io/name'', name), (''app.kubernetes.io/part-of'', ''understudy''),
              (''environment'', ''twin''), (''understudy.dev/scrape'', ''true''), (''understudy.dev/incident'', incident),
              (''understudy.dev/candidate'', int_str idx)],
            pt_annotations = dict_merge [(''prometheus.io/scrape'', ''true''), (''prometheus.io/port'', ''8000''),
              (''prometheus.io/path'', ''/metrics'')] (wl_annotations wl),
            pt_service_account = ''understudy-twin'', pt_containers = cs, pt_volumes = wl_volumes wl\<rparr>\<rparr>))"

definition render ::
    "Renderer \<Rightarrow> ClusterWorkloadSnapshot \<Rightarrow> string \<Rightarrow> int \<Rightarrow> string option \<Rightarrow> PyExc + TwinManifestBundle" where
  "render rn snap incident idx database =
     (if py_strip incident = [] then fleet_error [''incident_id cannot be empty'']
      else if idx < 0 then fleet_error [''candidate_index must be >= 0, got '', int_str idx]
      else bindE (build_twin_namespace (rn_twin_prefix rn) incident idx) (\<lambda>ns.
        bindE (case database of Some (c # cs) \<Rightarrow> Inr (c # cs) | _ \<Rightarrow> sanitize_database_name incident idx) (\<lambda>db.
          (let dsn = twin_dsn rn db; known = map fst (cw_workloads snap) in
           bindE (mapE (render_deployment rn ns incident idx dsn known) (sort_key fst (cw_workloads snap))) (\<lambda>deployments.
             Inr \<lparr>tb_twin_id = fstr [''twin_'', incident, ''_'', int_str idx], tb_incident_id = incident, tb_candidate_index = idx,
               tb_namespace = ns, tb_database_name = db, tb_database_dsn = dsn,
               tb_manifests = [render_namespace ns incident idx] @ render_rbac rn ns incident idx @
                 [render_network_policy rn ns incident idx] @
                 render_config_maps rn (cw_config_maps snap) ns incident idx dsn known @
                 render_services (cw_workloads snap) ns incident idx @ deployments\<rparr>)))))"


section \<open>What a bundle holds\<close>

text \<open>A value a twin may be given: its own database, an address that leads nowhere outside, or a text that is neither
  a database address nor an HTTP one.\<close>

definition isolated_value :: "Renderer \<Rightarrow> string \<Rightarrow> string list \<Rightarrow> string \<Rightarrow> string \<Rightarrow> bool" where
  "isolated_value rn ns known dsn v \<longleftrightarrow> v = dsn \<or>
     (\<exists>url. is_http url \<and> leads_inside ns (rn_prod_namespace rn) known (rn_egress_stub rn) url v) \<or>
     (\<not> is_http v \<and> \<not> is_postgres v)"

definition isolated_env :: "Renderer \<Rightarrow> string \<Rightarrow> string list \<Rightarrow> string \<Rightarrow> EnvVar list \<Rightarrow> bool" where
  "isolated_env rn ns known dsn env \<longleftrightarrow>
     (\<exists>ev \<in> set env. ev_name ev = ''UNDERSTUDY_ROLE'') \<and>
     (\<forall>ev \<in> set env.
        (ev_name ev = ''UNDERSTUDY_ROLE'' \<longrightarrow> ev_value ev = Some ''twin'' \<and> ev_value_from ev = None) \<and>
        (ev_name ev \<in> set DB_KEYS \<longrightarrow> ev_value ev = Some dsn \<and> ev_value_from ev = None) \<and>
        (case ev_value ev of None \<Rightarrow> True | Some v \<Rightarrow> isolated_value rn ns known dsn v))"

definition isolated_manifest :: "Renderer \<Rightarrow> string \<Rightarrow> string list \<Rightarrow> string \<Rightarrow> Manifest \<Rightarrow> bool" where
  "isolated_manifest rn ns known dsn m \<longleftrightarrow> mf_namespace m = Some ns \<and>
     (case mf_body m of
        ConfigBody kvs \<Rightarrow> (\<forall>(k, v) \<in> set kvs. isolated_value rn ns known dsn v \<and> (k \<in> set DB_KEYS \<longrightarrow> v = dsn))
      | DeploymentBody n sel t \<Rightarrow> (\<forall>c \<in> set (pt_containers t). isolated_env rn ns known dsn (cs_env c))
      | _ \<Rightarrow> True)"

definition stub_ok :: "Renderer \<Rightarrow> bool" where
  "stub_ok rn \<longleftrightarrow> is_http (rn_egress_stub rn) \<and>
     (case urlsplit (rn_egress_stub rn) of None \<Rightarrow> False
      | Some st \<Rightarrow> url_netloc st \<noteq> [] \<and> authority (rn_egress_stub rn) = url_netloc st)"

lemma twin_url_isolated:
  assumes "stub_ok rn" "dns1123_label ns" "is_http v"
  shows "isolated_value rn ns known dsn (twin_url rn ns known v)"
proof -
  obtain st where "is_http (rn_egress_stub rn)" "urlsplit (rn_egress_stub rn) = Some st" "url_netloc st \<noteq> []"
      "authority (rn_egress_stub rn) = url_netloc st"
    using assms(1) by (auto simp: stub_ok_def split: option.splits)
  then have "leads_inside ns (rn_prod_namespace rn) known (rn_egress_stub rn) v (twin_url rn ns known v)"
    unfolding twin_url_def by (intro url_leads_inside assms)
  then show ?thesis using assms(3) unfolding isolated_value_def by blast
qed

lemma plain_isolated: "\<not> is_http v \<Longrightarrow> \<not> is_postgres v \<Longrightarrow> isolated_value rn ns known dsn v"
  by (simp add: isolated_value_def)

lemma plain_texts: "\<not> is_http ''twin''" "\<not> is_postgres ''twin''" "\<not> is_http []" "\<not> is_postgres []"
  by (simp_all add: is_http_def is_postgres_def startswith_def)

lemma config_value_isolated:
  assumes "stub_ok rn" "dns1123_label ns"
  shows "isolated_value rn ns known dsn (rewrite_config_value rn ns dsn known k v)"
    "k \<in> set DB_KEYS \<Longrightarrow> rewrite_config_value rn ns dsn known k v = dsn"
proof -
  show "isolated_value rn ns known dsn (rewrite_config_value rn ns dsn known k v)"
    using twin_url_isolated [OF assms] plain_isolated plain_texts
    by (simp add: rewrite_config_value_def) (simp add: isolated_value_def)
  show "k \<in> set DB_KEYS \<Longrightarrow> rewrite_config_value rn ns dsn known k v = dsn"
    by (auto simp: rewrite_config_value_def DB_KEYS_def)
qed

lemma env_var_isolated:
  fixes rn dsn ns known ev
  assumes "stub_ok rn" "dns1123_label ns"
  defines "ev' \<equiv> rewrite_env_var rn dsn ns known ev"
  shows "ev_name ev' = ev_name ev"
    "ev_name ev' = ''UNDERSTUDY_ROLE'' \<Longrightarrow> ev_value ev' = Some ''twin'' \<and> ev_value_from ev' = None"
    "ev_name ev' \<in> set DB_KEYS \<Longrightarrow> ev_value ev' = Some dsn \<and> ev_value_from ev' = None"
    "case ev_value ev' of None \<Rightarrow> True | Some v \<Rightarrow> isolated_value rn ns known dsn v"
proof -
  show "ev_name ev' = ev_name ev"
    "ev_name ev' = ''UNDERSTUDY_ROLE'' \<Longrightarrow> ev_value ev' = Some ''twin'' \<and> ev_value_from ev' = None"
    "ev_name ev' \<in> set DB_KEYS \<Longrightarrow> ev_value ev' = Some dsn \<and> ev_value_from ev' = None"
    unfolding ev'_def by (auto simp: rewrite_env_var_def Let_def DB_KEYS_def split: if_splits)
  have dsn: "isolated_value rn ns known dsn dsn" by (simp add: isolated_value_def)
  let ?v = "case ev_value ev of Some s \<Rightarrow> s | None \<Rightarrow> []"
  have v: "ev_value ev' = (if ev_name ev = ''UNDERSTUDY_ROLE'' then Some ''twin''
      else if ev_name ev \<in> set DB_KEYS \<or> is_postgres ?v then Some dsn
      else if is_http ?v then Some (twin_url rn ns known ?v) else ev_value ev)"
    by (simp add: ev'_def rewrite_env_var_def Let_def)
  consider "ev_value ev' = Some ''twin''" | "ev_value ev' = Some dsn" | "is_http ?v" "ev_value ev' = Some (twin_url rn ns known ?v)"
    | "ev_value ev' = ev_value ev" "\<not> is_http ?v" "\<not> is_postgres ?v"
    using v by (cases "ev_name ev = ''UNDERSTUDY_ROLE''"; cases "ev_name ev \<in> set DB_KEYS \<or> is_postgres ?v"; cases "is_http ?v") simp_all
  then show "case ev_value ev' of None \<Rightarrow> True | Some v \<Rightarrow> isolated_value rn ns known dsn v"
  proof cases
    case 1
    then show ?thesis using plain_isolated plain_texts by simp
  next
    case 4
    then show ?thesis using plain_isolated by (cases "ev_value ev") auto
  qed (use dsn twin_url_isolated [OF assms(1,2)] in auto)
qed

lemma container_env_isolated:
  assumes "stub_ok rn" "dns1123_label ns"
  shows "isolated_env rn ns known dsn (rewrite_container_env rn env dsn ns known)"
proof -
  have role: "isolated_value rn ns known dsn ''twin''" using plain_isolated plain_texts by blast
  show ?thesis
    unfolding isolated_env_def rewrite_container_env_def
    using env_var_isolated [OF assms, where dsn = dsn and known = known] role by (auto simp: DB_KEYS_def)
qed

text \<open>The deployments of a bundle: one per workload, in the order of the names, with production's replicas.\<close>

definition deployed :: "Manifest \<Rightarrow> (string \<times> int) option" where
  "deployed m = (case (mf_name m, mf_body m) of (Some n, DeploymentBody r sel t) \<Rightarrow> Some (n, r) | _ \<Rightarrow> None)"

lemma render_container_env:
  "render_container rn wl dsn ns known c = Inr cs \<Longrightarrow> cs_env cs = rewrite_container_env rn (cn_env c) dsn ns known"
  by (auto simp: render_container_def fleet_error_def split: if_splits)

lemma mapE_set: "mapE f xs = Inr ys \<Longrightarrow> y \<in> set ys \<Longrightarrow> \<exists>x \<in> set xs. f x = Inr y"
  by (induction xs arbitrary: ys) (auto simp: result_simps)

lemma render_deployment_isolated:
  assumes "stub_ok rn" "dns1123_label ns" "render_deployment rn ns incident idx dsn known (name, wl) = Inr m"
  shows "isolated_manifest rn ns known dsn m" "deployed m = Some (name, wl_replicas wl)" "mf_kind m = Some ''Deployment''"
proof -
  obtain cs where cs: "mapE (render_container rn name dsn ns known) (wl_containers wl) = Inr cs"
    and m: "mf_namespace m = Some ns" "mf_name m = Some name" "mf_kind m = Some ''Deployment''"
      "\<exists>sel t. mf_body m = DeploymentBody (wl_replicas wl) sel t \<and> pt_containers t = cs"
    using assms(3) by (auto simp: render_deployment_def result_simps)
  have "isolated_env rn ns known dsn (cs_env c)" if "c \<in> set cs" for c
    using mapE_set [OF cs that] render_container_env container_env_isolated [OF assms(1,2)] by metis
  then show "isolated_manifest rn ns known dsn m" using m by (auto simp: isolated_manifest_def)
  show "deployed m = Some (name, wl_replicas wl)" "mf_kind m = Some ''Deployment''" using m by (auto simp: deployed_def)
qed

lemma mapE_map: "mapE f xs = Inr ys \<Longrightarrow> (\<And>x y. f x = Inr y \<Longrightarrow> g y = k x) \<Longrightarrow> map g ys = map k xs"
  by (induction xs arbitrary: ys) (auto simp: result_simps)

text \<open>The parts of a bundle that does not come from a template.\<close>

definition untemplated :: "Renderer \<Rightarrow> bool" where
  "untemplated rn \<longleftrightarrow> (\<forall>ns. rn_policy_template rn ns = None \<and> rn_rbac_template rn ns = None)"

definition bundle_tail :: "Renderer \<Rightarrow> TwinManifestBundle \<Rightarrow> Manifest list" where
  "bundle_tail rn b =
     (let ns = tb_namespace b; inc = tb_incident_id b; idx = tb_candidate_index b in
      drop (length ([render_namespace ns inc idx] @ render_rbac rn ns inc idx @ [render_network_policy rn ns inc idx])) (tb_manifests b))"

lemma render_Inr:
  assumes "render rn snap incident idx database = Inr b"
  obtains ns db ds where "build_twin_namespace (rn_twin_prefix rn) incident idx = Inr ns"
    "tb_namespace b = ns" "tb_database_name b = db" "tb_database_dsn b = twin_dsn rn db" "tb_incident_id b = incident"
    "tb_candidate_index b = idx" "tb_twin_id b = fstr [''twin_'', incident, ''_'', int_str idx]"
    "mapE (render_deployment rn ns incident idx (twin_dsn rn db) (map fst (cw_workloads snap))) (sort_key fst (cw_workloads snap)) = Inr ds"
    "tb_manifests b = [render_namespace ns incident idx] @ render_rbac rn ns incident idx @ [render_network_policy rn ns incident idx] @
       render_config_maps rn (cw_config_maps snap) ns incident idx (twin_dsn rn db) (map fst (cw_workloads snap)) @
       render_services (cw_workloads snap) ns incident idx @ ds"
    "database = Some (c # cs) \<Longrightarrow> db = c # cs"
  using assms by (auto simp: render_def fleet_error_def Let_def result_simps split: if_splits option.splits list.splits)


lemma config_maps_isolated:
  assumes "stub_ok rn" "dns1123_label ns" "m \<in> set (render_config_maps rn cms ns incident idx dsn known)"
  shows "isolated_manifest rn ns known dsn m" "deployed m = None"
  using assms config_value_isolated [OF assms(1,2)]
  by (auto simp: render_config_maps_def isolated_manifest_def deployed_def)

lemma services_isolated:
  assumes "m \<in> set (render_services wls ns incident idx)"
  shows "isolated_manifest rn ns known dsn m" "deployed m = None"
  using assms by (auto simp: render_services_def map_filter_def Let_def isolated_manifest_def deployed_def split: if_splits)

lemma map_filter_None: "(\<And>x. x \<in> set xs \<Longrightarrow> f x = None) \<Longrightarrow> List.map_filter f xs = []"
  by (induction xs) (auto simp: map_filter_simps)

lemma map_filter_append: "List.map_filter f (xs @ ys) = List.map_filter f xs @ List.map_filter f ys"
  by (simp add: map_filter_def)

lemma map_filter_all: "map f xs = map (Some \<circ> g) ys \<Longrightarrow> List.map_filter f xs = map g ys"
  by (induction xs arbitrary: ys) (auto simp: map_filter_simps)

lemma sanitized_namespace: "build_twin_namespace p inc idx = Inr ns \<Longrightarrow> dns1123_label ns"
  by (erule twin_namespace_shape) (auto simp: dns1123_label_def nat_str_dns dns_char_def [of "CHR ''-''"])


definition sample_container :: ContainerSnapshot where
  "sample_container = \<lparr>cn_name = ''app'', cn_image_tag = ''auth:good'', cn_image_digest = ''sha256:1'', cn_pinned_image = ''auth@sha256:1'',
     cn_digest_pinned = True, cn_resources = \<lparr>rs_requests = [], rs_limits = []\<rparr>,
     cn_env = [\<lparr>ev_name = ''DATABASE_URL'', ev_value = Some ''postgresql://p@prod/ust'', ev_value_from = None\<rparr>,
       \<lparr>ev_name = ''PEER'', ev_value = Some ''http://data.ust-prod/x'', ev_value_from = None\<rparr>],
     cn_ports = [\<lparr>fp_container_port = Some 80, fp_name = None, fp_protocol = Some ''TCP''\<rparr>], cn_liveness = None, cn_readiness = None\<rparr>"

definition sample_snapshot :: ClusterWorkloadSnapshot where
  "sample_snapshot = \<lparr>cw_namespace = ''ust-prod'', cw_workloads = [(''auth'', \<lparr>wl_name = ''auth'', wl_namespace = ''ust-prod'',
     wl_component = None, wl_labels = [], wl_annotations = [], wl_replicas = 2, wl_containers = [sample_container],
     wl_config_map_refs = [], wl_volumes = []\<rparr>)],
     cw_config_maps = [(''cfg'', [(''ENVIRONMENT'', ''production''), (''DB_URL'', ''x'')])], cw_captured_at = 0\<rparr>"

definition plain_renderer :: Renderer where
  "plain_renderer = (default_renderer (\<lambda>_. None) (\<lambda>_. None))\<lparr>rn_pg_port := 54\<rparr>"

lemma plain_renderer_ok: "stub_ok plain_renderer"
  by code_simp

lemma sample_render: "\<exists>b. render plain_renderer sample_snapshot ''inc_7'' 1 None = Inr b \<and> tb_namespace b = ''ust-twin-inc-7-1'' \<and>
    tb_database_name b = ''twin_inc_7_1''"
proof -
  have "case render plain_renderer sample_snapshot ''inc_7'' 1 None of Inl e \<Rightarrow> False
      | Inr b \<Rightarrow> tb_namespace b = ''ust-twin-inc-7-1'' \<and> tb_database_name b = ''twin_inc_7_1''" by code_simp
  then show ?thesis by (auto split: sum.splits)
qed


end
