(* ===== verification/TwinDb.thy ===== *)
theory TwinDb
  imports Render KernelDsl
begin

text \<open>
  Twin databases (\<^verbatim>\<open>fleet/database.py\<close>): the command executor over kubectl, the refresher of the snapshot
  template, and the cloner, which creates, lists and drops the databases of twins by SQL statements.  The
  calls of the whole fleet and the environment that answers them are declared here.
\<close>

section \<open>Calls and environment\<close>

datatype FleetCall =
    RunSql string "string list"
  | RunPipeline string
  | FleetSleep rat
  | ListNamespaces string
  | DeleteNamespace string
  | CreateObject "string option" Manifest
  | ReplaceObject string string Manifest
  | ReadPolicy string string
  | ListDeployments string
  | ListPods string
  | ReadWorkloads string "string list"
  | RegisterIncident string
  | UnregisterIncident string

text \<open>What the cluster reports of a namespace, a deployment and a pod.\<close>

record NamespaceItem =
  ni_name :: "string option"
  ni_labels :: "(string \<times> string) list"
  ni_created :: "instant option"

record LiveDeployment =
  ld_name :: "string option"
  ld_status :: "(int option \<times> int option) option"

record PodMeta =
  pm_name :: "string option"
  pm_deleting :: bool
  pm_labels :: "(string \<times> string) list"

record LivePod =
  lp_meta :: "PodMeta option"
  lp_phase :: "string option"
  lp_containers :: "bool list"

record Fleet =
  fl_run_sql :: "string \<Rightarrow> string list \<Rightarrow> FleetCall trace \<Rightarrow> PyExc + (int \<times> string \<times> string)"
  fl_run_pipeline :: "string \<Rightarrow> FleetCall trace \<Rightarrow> PyExc + (int \<times> string \<times> string)"
  fl_sleep :: "rat \<Rightarrow> FleetCall trace \<Rightarrow> PyExc + unit"
  fl_now :: "FleetCall trace \<Rightarrow> instant"
  fl_monotonic :: "FleetCall trace \<Rightarrow> rat"
  fl_std :: PyStd
  fl_list_namespaces :: "string \<Rightarrow> FleetCall trace \<Rightarrow> ApiFault + NamespaceItem list"
  fl_delete_namespace :: "string \<Rightarrow> FleetCall trace \<Rightarrow> ApiFault + unit"
  fl_create :: "string option \<Rightarrow> Manifest \<Rightarrow> FleetCall trace \<Rightarrow> ApiFault + unit"
  fl_replace :: "string \<Rightarrow> string \<Rightarrow> Manifest \<Rightarrow> FleetCall trace \<Rightarrow> ApiFault + unit"
  fl_read_policy :: "string \<Rightarrow> string \<Rightarrow> FleetCall trace \<Rightarrow> ApiFault + string list option"
  fl_list_deployments :: "string \<Rightarrow> FleetCall trace \<Rightarrow> ApiFault + LiveDeployment list"
  fl_list_pods :: "string \<Rightarrow> FleetCall trace \<Rightarrow> ApiFault + LivePod list"
  fl_read_workloads :: "string \<Rightarrow> string list \<Rightarrow> FleetCall trace \<Rightarrow> PyExc + ClusterWorkloadSnapshot"

type_synonym 'a fleet_act = "(FleetCall, 'a) act"

section \<open>The executor over kubectl\<close>

record KubectlExecutor =
  kx_namespace :: string
  kx_deployment :: string
  kx_context :: string
  kx_bin :: string

definition kubectl_base :: "KubectlExecutor \<Rightarrow> string list" where
  "kubectl_base kx = [kx_bin kx, ''exec'', ''-n'', kx_namespace kx, ''deploy/'' @ kx_deployment kx,
     ''--context='' @ kx_context kx, ''--'']"

definition kubectl_sql :: "KubectlExecutor \<Rightarrow> string \<Rightarrow> string list \<Rightarrow> string list" where
  "kubectl_sql kx database commands = kubectl_base kx @ [''psql'', ''-U'', ''postgres'', ''-d'', database, ''-t'', ''-A''] @
     concat (map (\<lambda>sql. [''-c'', sql]) commands)"

definition kubectl_pipeline :: "KubectlExecutor \<Rightarrow> string \<Rightarrow> string list" where
  "kubectl_pipeline kx script = kubectl_base kx @ [''/bin/sh'', ''-c'', script]"

text \<open>How a subprocess ends: with its code (if it has one) and its two outputs, not in time, or not started.\<close>

datatype ProcEnd = Exited "int option" string string | ProcTimeout | ProcOSError string

definition run_proc :: "PyStd \<Rightarrow> string list \<Rightarrow> rat \<Rightarrow> ProcEnd \<Rightarrow> PyExc + (int \<times> string \<times> string)" where
  "run_proc std cmd timeout e =
     (case e of
        Exited code out err \<Rightarrow> Inr (case code of Some c \<Rightarrow> c | None \<Rightarrow> - 1, py_strip out, py_strip err)
      | ProcTimeout \<Rightarrow> fleet_error [''Database command timed out after '', std_repr std (PFloat timeout), ''s: '', join '' '' cmd]
      | ProcOSError t \<Rightarrow> fleet_error [''Failed to execute kubectl subprocess: '', t])"

section \<open>The snapshot template\<close>

record SnapshotSource =
  ss_host :: string
  ss_port :: int
  ss_user :: string
  ss_db :: string
  ss_template_db :: string
  ss_staging_db :: string

definition SNAPSHOT_DUMP_PATH :: string where "SNAPSHOT_DUMP_PATH = ''/tmp/ust_snapshot.sql''"

definition build_refresh_pipeline :: "SnapshotSource \<Rightarrow> string" where
  "build_refresh_pipeline ss =
     (let psql = ''psql -v ON_ERROR_STOP=1 -U postgres''; q = [CHR 0x27]; quoted = q @ [CHR 0x22] @ q @ [CHR 0x22] @ q in
      fstr [psql, '' -c '', q, ''DROP DATABASE IF EXISTS '', ss_staging_db ss, '';'', q, '' '',
        ''-c '', q, ''CREATE DATABASE '', ss_staging_db ss, '';'', q, '' && '',
        ''pg_dump -h '', ss_host ss, '' -p '', int_str (ss_port ss), '' -U '', ss_user ss, '' '',
        ''-d '', ss_db ss, '' > '', SNAPSHOT_DUMP_PATH, '' && '',
        psql, '' -d '', ss_staging_db ss, '' -q -f '', SNAPSHOT_DUMP_PATH, '' && '',
        psql, '' -d '', ss_staging_db ss, '' -c '', q, ''SELECT 1 FROM items LIMIT 1;'', q, '' && '',
        psql, '' -c '', q, ''SELECT pg_terminate_backend(pid) FROM pg_stat_activity '',
        ''WHERE datname = '', quoted, ss_template_db ss, quoted, '' '',
        ''AND pid <> pg_backend_pid();'', q, '' '',
        ''-c '', q, ''DROP DATABASE IF EXISTS '', ss_template_db ss, '';'', q, '' '',
        ''-c '', q, ''ALTER DATABASE '', ss_staging_db ss, '' RENAME TO '', ss_template_db ss, '';'', q, '' '',
        ''&& rm -f '', SNAPSHOT_DUMP_PATH])"

definition or_else :: "string \<Rightarrow> string \<Rightarrow> string" where
  "or_else x y = (if x \<noteq> [] then x else y)"

definition refresh_snapshot :: "Fleet \<Rightarrow> SnapshotSource \<Rightarrow> instant fleet_act" where
  "refresh_snapshot fl ss =
     abind (acall (RunPipeline (build_refresh_pipeline ss)) (fl_run_pipeline fl (build_refresh_pipeline ss))) (\<lambda>(code, out, err).
       if code \<noteq> 0 then alift (fleet_error [''Snapshot refresh pipeline failed with exit code '', int_str code, '': '', or_else err out])
       else aask (fl_now fl))"

section \<open>The cloner\<close>

text \<open>\<open>pc_last_snapshot\<close> is the refresher's \<open>get_last_snapshot_time\<close>.\<close>

record PostgresCloner =
  pc_template_db :: string
  pc_last_snapshot :: "(FleetCall trace \<Rightarrow> instant option) option"
  pc_max_retries :: int
  pc_base_backoff :: rat
  pc_max_backoff :: rat

definition default_cloner :: PostgresCloner where
  "default_cloner = \<lparr>pc_template_db = ''snapshot_template'', pc_last_snapshot = None, pc_max_retries = 5,
     pc_base_backoff = 1 / 10, pc_max_backoff = 2\<rparr>"

record DatabaseCloneResult =
  dr_database_name :: string
  dr_incident_id :: string
  dr_candidate_index :: int
  dr_forked_from_snapshot_at :: instant
  dr_cloned_at :: instant

record TwinDatabaseInfo =
  di_name :: string
  di_age_seconds :: "rat option"

definition CREATED_AT_COMMENT_PREFIX :: string where "CREATED_AT_COMMENT_PREFIX = ''understudy:created_at=''"

definition run_sql :: "Fleet \<Rightarrow> string list \<Rightarrow> (int \<times> string \<times> string) fleet_act" where
  "run_sql fl sqls = acall (RunSql ''postgres'' sqls) (fl_run_sql fl ''postgres'' sqls)"

definition terminate_sql :: "string \<Rightarrow> string" where
  "terminate_sql db = fstr [''SELECT pg_terminate_backend(pid) FROM pg_stat_activity '',
     ''WHERE datname = '', squote db, '' AND pid <> pg_backend_pid();'']"

definition terminate_connections :: "Fleet \<Rightarrow> string \<Rightarrow> unit fleet_act" where
  "terminate_connections fl db = abind (run_sql fl [terminate_sql db]) (\<lambda>_. aret ())"

definition is_in_use_error :: "string \<Rightarrow> bool" where
  "is_in_use_error msg = (let n = py_lower msg in
     contains_sub n ''being accessed by other users'' \<or> contains_sub n ''55006'' \<or> contains_sub n ''object_in_use'')"

definition clone_sql :: "PostgresCloner \<Rightarrow> string \<Rightarrow> string" where
  "clone_sql pc db = fstr [''CREATE DATABASE '', db, '' TEMPLATE '', pc_template_db pc, '';'']"

definition stamp_sql :: "Fleet \<Rightarrow> string \<Rightarrow> instant \<Rightarrow> string" where
  "stamp_sql fl db t = fstr [''COMMENT ON DATABASE '', db, '' IS '',
     squote (CREATED_AT_COMMENT_PREFIX @ std_isoformat (fl_std fl) t), '';'']"

definition max_retries :: "PostgresCloner \<Rightarrow> nat" where
  "max_retries pc = nat (max 1 (pc_max_retries pc))"

definition backoff :: "PostgresCloner \<Rightarrow> nat \<Rightarrow> rat" where
  "backoff pc attempt = min (pc_base_backoff pc * 2 ^ (attempt - 1)) (pc_max_backoff pc)"

text \<open>The attempts that are left; the counter starts at 1.\<close>

fun clone_attempts :: "Fleet \<Rightarrow> PostgresCloner \<Rightarrow> string \<Rightarrow> nat \<Rightarrow> nat \<Rightarrow> string \<Rightarrow> (instant \<times> instant) fleet_act" where
  "clone_attempts fl pc db 0 attempt last_error =
     alift (fleet_error [''Failed to clone database '', db, '' after '', int_str (int (max_retries pc)), '' attempts '',
       ''due to active connections on template: '', last_error])"
| "clone_attempts fl pc db (Suc left) attempt last_error =
     abind (aask (fl_now fl)) (\<lambda>created.
     abind (run_sql fl [clone_sql pc db, stamp_sql fl db created]) (\<lambda>(code, out, err).
       if code = 0 then
         aask (\<lambda>h. (case pc_last_snapshot pc of
           None \<Rightarrow> (created, created)
         | Some last_snapshot \<Rightarrow> (case last_snapshot h of None \<Rightarrow> (created, created) | Some t \<Rightarrow> (t, created))))
       else (let e = or_else err out in
         if is_in_use_error e then
           abind (terminate_connections fl (pc_template_db pc)) (\<lambda>_.
             if attempt < max_retries pc then
               abind (acall (FleetSleep (backoff pc attempt)) (fl_sleep fl (backoff pc attempt))) (\<lambda>_.
                 clone_attempts fl pc db left (attempt + 1) e)
             else clone_attempts fl pc db left (attempt + 1) e)
         else alift (fleet_error [''Failed to clone database '', db, '': '', e]))))"

definition validate_db_name :: "string \<Rightarrow> PyExc + unit" where
  "validate_db_name name = (if safe_db_name name then Inr () else fleet_error [''Invalid database name: '', squote name])"

text \<open>The words of a text, \<open>s.split()\<close>.\<close>

fun words_acc :: "string \<Rightarrow> string \<Rightarrow> string list" where
  "words_acc acc [] = (if acc = [] then [] else [rev acc])"
| "words_acc acc (c # s) = (if py_space c then (if acc = [] then words_acc [] s else rev acc # words_acc [] s)
     else words_acc (c # acc) s)"

definition clone_twin_database :: "Fleet \<Rightarrow> PostgresCloner \<Rightarrow> string \<Rightarrow> int \<Rightarrow> DatabaseCloneResult fleet_act" where
  "clone_twin_database fl pc incident idx =
     abind (alift (sanitize_database_name incident idx)) (\<lambda>db.
     abind (alift (validate_db_name db)) (\<lambda>_.
     abind (run_sql fl [fstr [''SELECT 1 FROM pg_database WHERE datname = '', squote (pc_template_db pc), '';'']]) (\<lambda>(code, out, err).
       if code \<noteq> 0 \<or> ''1'' \<notin> set (words_acc [] out) then
         alift (fleet_error [''Snapshot template database '', squote (pc_template_db pc), '' does not exist. '',
           ''Snapshot refresher must run before cloning.''])
       else abind (clone_attempts fl pc db (max_retries pc) 1 []) (\<lambda>(forked, created).
         aret \<lparr>dr_database_name = db, dr_incident_id = incident, dr_candidate_index = idx,
           dr_forked_from_snapshot_at = forked, dr_cloned_at = created\<rparr>))))"

definition drop_sql :: "string \<Rightarrow> string" where
  "drop_sql db = fstr [''DROP DATABASE IF EXISTS '', db, '' WITH (FORCE);'']"

definition drop_twin_database :: "Fleet \<Rightarrow> string \<Rightarrow> unit fleet_act" where
  "drop_twin_database fl db =
     (if \<not> safe_db_name db then alift (fleet_error [''Invalid database name: '', squote db])
      else if \<not> startswith db ''twin_'' then
        alift (fleet_error [''Refusing to drop non-twin database '', squote db, '': '',
          ''database name must start with '', squote ''twin_''])
      else abind (terminate_connections fl db) (\<lambda>_.
        abind (run_sql fl [drop_sql db]) (\<lambda>(code, out, err).
          if code \<noteq> 0 then alift (fleet_error [''Failed to drop database '', db, '': '', or_else err out])
          else aret ())))"

text \<open>\<open>str.splitlines\<close>\<close>

definition line_end :: "char \<Rightarrow> bool" where
  "line_end c = (let n = (of_char c :: nat) in (10 \<le> n \<and> n \<le> 13) \<or> (28 \<le> n \<and> n \<le> 30) \<or> n = 133)"

fun lines_acc :: "string \<Rightarrow> string \<Rightarrow> string list" where
  "lines_acc acc [] = (if acc = [] then [] else [rev acc])"
| "lines_acc acc (c # s) =
     (if c = CHR 0x0D \<and> s \<noteq> [] \<and> hd s = CHR 0x0A then rev acc # lines_acc [] (tl s)
      else if line_end c then rev acc # lines_acc [] s
      else lines_acc (c # acc) s)"

definition nonblank_lines :: "string \<Rightarrow> string list" where
  "nonblank_lines s = filter (\<lambda>l. l \<noteq> []) (map py_strip (lines_acc [] s))"

definition incident_prefix :: "string \<Rightarrow> string" where
  "incident_prefix incident = fstr [''twin_'', clean_incident incident, ''_'']"

definition list_sql :: string where
  "list_sql = fstr [''SELECT datname FROM pg_database WHERE datname LIKE '', squote ''twin_%'', '' ORDER BY datname;'']"

definition list_age_sql :: string where
  "list_age_sql = fstr [''SELECT d.datname, coalesce(shobj_description(d.oid, '', squote ''pg_database'', ''), '', squote [], '') '',
     ''FROM pg_database d WHERE d.datname LIKE '', squote ''twin_%'', '' ORDER BY d.datname;'']"

definition list_twin_databases :: "Fleet \<Rightarrow> string option \<Rightarrow> string list fleet_act" where
  "list_twin_databases fl incident =
     abind (run_sql fl [list_sql]) (\<lambda>(code, out, err).
       if code \<noteq> 0 then alift (fleet_error [''Failed to list twin databases: '', or_else err out])
       else aret (case incident of
         Some (c # cs) \<Rightarrow> filter (\<lambda>n. startswith n (incident_prefix (c # cs))) (nonblank_lines out)
       | _ \<Rightarrow> nonblank_lines out))"

definition comment_age_seconds :: "Fleet \<Rightarrow> string \<Rightarrow> instant \<Rightarrow> rat option" where
  "comment_age_seconds fl comment now =
     (let stamp = py_strip comment in
      if \<not> startswith stamp CREATED_AT_COMMENT_PREFIX then None
      else map_option (\<lambda>created. max 0 (now - created))
        (std_fromisoformat (fl_std fl) (drop (length CREATED_AT_COMMENT_PREFIX) stamp)))"

definition list_twin_databases_with_age :: "Fleet \<Rightarrow> TwinDatabaseInfo list fleet_act" where
  "list_twin_databases_with_age fl =
     abind (run_sql fl [list_age_sql]) (\<lambda>(code, out, err).
       if code \<noteq> 0 then alift (fleet_error [''Failed to list twin databases with age: '', or_else err out])
       else aask (\<lambda>h. map (\<lambda>raw. \<lparr>di_name = py_strip (before_first (CHR ''|'') raw),
         di_age_seconds = comment_age_seconds fl (behind_first (CHR ''|'') raw) (fl_now fl h)\<rparr>) (nonblank_lines out)))"

definition drop_step :: "(string \<Rightarrow> unit fleet_act) \<Rightarrow> string \<Rightarrow> string list \<Rightarrow> string \<Rightarrow> string list fleet_act" where
  "drop_step drop_db prefix dropped db =
     (if startswith db prefix then abind (drop_db db) (\<lambda>_. aret (dropped @ [db])) else aret dropped)"

definition drop_all_incident_databases :: "Fleet \<Rightarrow> string \<Rightarrow> string list fleet_act" where
  "drop_all_incident_databases fl incident =
     abind (list_twin_databases fl None) (\<lambda>twins.
       afold (drop_step (drop_twin_database fl) (incident_prefix incident)) [] twins)"


section \<open>Cloning is bounded\<close>

definition is_clone :: "PostgresCloner \<Rightarrow> string \<Rightarrow> FleetCall \<times> bool \<Rightarrow> bool" where
  "is_clone pc db e = (case fst e of RunSql d (s # sqls) \<Rightarrow> s = clone_sql pc db | _ \<Rightarrow> False)"

definition clones :: "PostgresCloner \<Rightarrow> string \<Rightarrow> FleetCall trace \<Rightarrow> nat" where
  "clones pc db h = length (filter (is_clone pc db) h)"

lemma clones_simps [simp]:
  "clones pc db [] = 0" "clones pc db (e # h) = (if is_clone pc db e then 1 else 0) + clones pc db h"
  "clones pc db (h @ k) = clones pc db h + clones pc db k"
  by (simp_all add: clones_def)

definition slept_long :: "PostgresCloner \<Rightarrow> FleetCall \<times> bool \<Rightarrow> bool" where
  "slept_long pc e = (case fst e of FleetSleep d \<Rightarrow> pc_max_backoff pc < d | _ \<Rightarrow> False)"

lemma terminate_not_clone [simp]: "\<not> is_clone pc db (RunSql x [terminate_sql t], b)"
  by (simp add: is_clone_def terminate_sql_def clone_sql_def fstr_def)

lemma clone_simps [simp]:
  "is_clone pc db (RunSql x [clone_sql pc db, s], b)" "\<not> is_clone pc db (FleetSleep d, b)"
  "\<not> slept_long pc (RunSql x sqls, b)" "\<not> slept_long pc (FleetSleep (backoff pc n), b)"
  by (simp_all add: is_clone_def slept_long_def backoff_def)

lemma clone_attempts_wp:
  assumes "\<forall>e \<in> set h. \<not> slept_long pc e"
  shows "wp (clone_attempts fl pc db n attempt e)
    (\<lambda>_ h'. clones pc db h < clones pc db h' \<and> clones pc db h' \<le> clones pc db h + n \<and> (\<forall>e \<in> set h'. \<not> slept_long pc e))
    (\<lambda>_ h'. clones pc db h' \<le> clones pc db h + n \<and> (\<forall>e \<in> set h'. \<not> slept_long pc e)) h"
  using assms
proof (induction n arbitrary: attempt e h)
  case 0
  then show ?case by (simp add: fleet_error_def)
next
  case (Suc n)
  have again: "wp (clone_attempts fl pc db n a e)
    (\<lambda>_ h'. clones pc db h < clones pc db h' \<and> clones pc db h' \<le> Suc (clones pc db h + n) \<and> (\<forall>e \<in> set h'. \<not> slept_long pc e))
    (\<lambda>_ h'. clones pc db h' \<le> Suc (clones pc db h + n) \<and> (\<forall>e \<in> set h'. \<not> slept_long pc e)) h1"
    if "clones pc db h1 = Suc (clones pc db h)" "\<forall>e \<in> set h1. \<not> slept_long pc e" for a e h1
    using Suc.IH [OF that(2), of a e] by (rule wp_mono) (use that(1) in auto)
  show ?case
    by (simp add: run_sql_def terminate_connections_def fleet_error_def Let_def split: sum.split prod.split)
       (use Suc.prems in \<open>auto intro!: again split: option.splits\<close>)
qed

text \<open>Cloning a database is bounded: it is tried at least once when it succeeds and never more often than configured,
  whatever the database answers, no pause between attempts is longer than the longest backoff, and a clone that
  succeeds is of the name made for the candidate.\<close>

theorem clone_bounded:
  assumes "sanitize_database_name inc idx = Inr db" "clone_twin_database fl pc inc idx h = (r, h')"
    and "\<forall>e \<in> set h. \<not> slept_long pc e"
  shows "clones pc db h' \<le> clones pc db h + max_retries pc \<and> (\<forall>e \<in> set h'. \<not> slept_long pc e) \<and>
    (\<forall>res. r = Inr res \<longrightarrow> dr_database_name res = db \<and> clones pc db h < clones pc db h')"
proof -
  let ?sql = "fstr [''SELECT 1 FROM pg_database WHERE datname = '', squote (pc_template_db pc), '';'']"
  let ?E = "\<lambda>_ h'. clones pc db h' \<le> clones pc db h + max_retries pc \<and> (\<forall>e \<in> set h'. \<not> slept_long pc e)"
  have check: "\<not> is_clone pc db (RunSql d [?sql], b)" for d b
    by (simp add: is_clone_def clone_sql_def fstr_def)
  have "wp (clone_attempts fl pc db (max_retries pc) (Suc 0) []) (\<lambda>x h'. clones pc db h < clones pc db h' \<and> ?E x h') ?E
    (h @ [(RunSql ''postgres'' [?sql], True)])"
    using clone_attempts_wp [of "h @ [(RunSql ''postgres'' [?sql], True)]" pc fl db "max_retries pc" "Suc 0" "[]"] check assms(3)
    by simp
  then have "wp (clone_twin_database fl pc inc idx) (\<lambda>res h'. dr_database_name res = db \<and> clones pc db h < clones pc db h' \<and> ?E res h') ?E h"
    using assms(3)
    by (simp add: clone_twin_database_def assms(1) validate_db_name_def fleet_error_def run_sql_def check split: sum.split prod.split)
  from wpD [OF this assms(2)] show ?thesis by (cases r) simp_all
qed

end
