(* ===== verification/Teardown.thy ===== *)
theory Teardown
  imports TwinDb Contracts
begin

text \<open>
  Tear-down and garbage collection of twins (\<^verbatim>\<open>fleet/teardown.py\<close>).  The manager works with any database
  cloner; \<open>twin_databases\<close> states what it relies on, and the Postgres cloner provides it.  The registry of
  the incidents the process works on is read off the trace.
\<close>

section \<open>The registry of active incidents\<close>

fun registry_step :: "string list \<Rightarrow> FleetCall \<times> bool \<Rightarrow> string list" where
  "registry_step active (RegisterIncident i, b) = List.insert i active"
| "registry_step active (UnregisterIncident i, b) = removeAll i active"
| "registry_step active _ = active"

definition get_active_incidents :: "FleetCall trace \<Rightarrow> string list" where
  "get_active_incidents h = foldl registry_step [] h"

definition register_active_incident :: "string \<Rightarrow> unit fleet_act" where
  "register_active_incident incident =
     (if py_strip incident \<noteq> [] then acall (RegisterIncident (py_strip incident)) (\<lambda>_. Inr ()) else aret ())"

definition unregister_active_incident :: "string \<Rightarrow> unit fleet_act" where
  "unregister_active_incident incident =
     (if py_strip incident \<noteq> [] then acall (UnregisterIncident (py_strip incident)) (\<lambda>_. Inr ()) else aret ())"

section \<open>The manager\<close>

record DatabaseCloner =
  dc_clone :: "string \<Rightarrow> int \<Rightarrow> DatabaseCloneResult fleet_act"
  dc_drop :: "string \<Rightarrow> unit fleet_act"
  dc_drop_all :: "string \<Rightarrow> string list fleet_act"
  dc_list_age :: "TwinDatabaseInfo list fleet_act"

definition postgres_cloner :: "Fleet \<Rightarrow> PostgresCloner \<Rightarrow> DatabaseCloner" where
  "postgres_cloner fl pc = \<lparr>dc_clone = clone_twin_database fl pc, dc_drop = drop_twin_database fl,
     dc_drop_all = drop_all_incident_databases fl, dc_list_age = list_twin_databases_with_age fl\<rparr>"

definition INCIDENT_LABEL :: string where "INCIDENT_LABEL = ''understudy.dev/incident''"

record TeardownResult =
  td_incident_id :: string
  td_deleted_namespaces :: "string list"
  td_dropped_databases :: "string list"

record GcResult =
  gc_reaped_namespaces :: "string list"
  gc_dropped_databases :: "string list"
  gc_scanned_namespaces :: nat
  gc_scanned_databases :: nat

text \<open>A namespace that is gone already, or on its way, counts as deleted.\<close>

definition gone :: "int \<Rightarrow> bool" where
  "gone status \<longleftrightarrow> status = 404 \<or> status = 409"

definition delete_namespace :: "Fleet \<Rightarrow> string \<Rightarrow> ((int \<times> string) + unit) fleet_act" where
  "delete_namespace fl ns = acall_api (DeleteNamespace ns) (fl_delete_namespace fl ns)"

definition delete_or_fail :: "Fleet \<Rightarrow> string list \<Rightarrow> string \<Rightarrow> unit fleet_act" where
  "delete_or_fail fl what ns = abind (delete_namespace fl ns) (\<lambda>r.
     case r of
       Inl (status, reason) \<Rightarrow> if gone status then aret () else alift (fleet_error (what @ ['': '', reason]))
     | Inr _ \<Rightarrow> aret ())"

definition teardown_twin :: "Fleet \<Rightarrow> DatabaseCloner \<Rightarrow> TwinHandle \<Rightarrow> unit fleet_act" where
  "teardown_twin fl dc t =
     abind (delete_or_fail fl [''Failed to delete namespace '', squote (twin_namespace t)] (twin_namespace t)) (\<lambda>_.
       dc_drop dc (twin_database t))"

definition item_name :: "NamespaceItem \<Rightarrow> string option" where
  "item_name item = (case ni_name item of Some (c # cs) \<Rightarrow> Some (c # cs) | _ \<Rightarrow> None)"

definition item_incident :: "NamespaceItem \<Rightarrow> string option" where
  "item_incident item = (case map_of (ni_labels item) INCIDENT_LABEL of Some (c # cs) \<Rightarrow> Some (c # cs) | _ \<Rightarrow> None)"

definition delete_step :: "Fleet \<Rightarrow> string list \<Rightarrow> string list \<Rightarrow> NamespaceItem \<Rightarrow> string list fleet_act" where
  "delete_step fl what deleted item =
     (case item_name item of
        None \<Rightarrow> aret deleted
      | Some ns \<Rightarrow> abind (delete_or_fail fl what ns) (\<lambda>_. aret (deleted @ [ns])))"

definition teardown_incident :: "Fleet \<Rightarrow> DatabaseCloner \<Rightarrow> string \<Rightarrow> TeardownResult fleet_act" where
  "teardown_incident fl dc incident =
     (if py_strip incident = [] then alift (fleet_error [''Incident ID cannot be empty, got: '', squote incident])
      else
        (let selector = fstr [INCIDENT_LABEL, ''='', incident];
             what = [''Failed to query or delete namespaces for incident '', squote incident] in
         abind (acall_api (ListNamespaces selector) (fl_list_namespaces fl selector)) (\<lambda>listed.
         abind (case listed of
             Inl (status, reason) \<Rightarrow> if status = 404 then aret [] else alift (fleet_error (what @ ['': '', reason]))
           | Inr items \<Rightarrow> afold (delete_step fl what) [] items) (\<lambda>deleted.
         abind (dc_drop_all dc incident) (\<lambda>dropped.
         abind (unregister_active_incident incident) (\<lambda>_.
           aret \<lparr>td_incident_id = incident, td_deleted_namespaces = deleted, td_dropped_databases = dropped\<rparr>))))))"

section \<open>Garbage collection\<close>

record GcState =
  gs_reaped :: "string list"
  gs_incidents :: "string list"

definition item_age :: "instant \<Rightarrow> NamespaceItem \<Rightarrow> rat" where
  "item_age now item = (case ni_created item of Some t \<Rightarrow> now - t | None \<Rightarrow> 0)"

definition item_active :: "string list \<Rightarrow> NamespaceItem \<Rightarrow> bool" where
  "item_active active item \<longleftrightarrow> (case item_incident item of Some i \<Rightarrow> i \<in> set active | None \<Rightarrow> False)"

definition add_reaped :: "GcState \<Rightarrow> string \<Rightarrow> string option \<Rightarrow> GcState" where
  "add_reaped s ns incident = \<lparr>gs_reaped = gs_reaped s @ [ns],
     gs_incidents = (case incident of Some i \<Rightarrow> List.insert i (gs_incidents s) | None \<Rightarrow> gs_incidents s)\<rparr>"

definition gc_namespace :: "Fleet \<Rightarrow> rat \<Rightarrow> instant \<Rightarrow> string list \<Rightarrow> GcState \<Rightarrow> NamespaceItem \<Rightarrow> GcState fleet_act" where
  "gc_namespace fl older now active s item =
     (case item_name item of
        None \<Rightarrow> aret s
      | Some ns \<Rightarrow>
          if item_active active item then aret s
          else if older \<le> item_age now item then
            abind (delete_or_fail fl [''Failed to delete expired namespace '', squote ns] ns) (\<lambda>_.
              aret (add_reaped s ns (item_incident item)))
          else aret s)"

text \<open>A listed namespace of the incident that was not reaped keeps its databases.\<close>

definition has_surviving_namespace :: "NamespaceItem list \<Rightarrow> string list \<Rightarrow> string \<Rightarrow> bool" where
  "has_surviving_namespace items reaped incident \<longleftrightarrow>
     list_ex (\<lambda>item. case (item_name item, item_incident item) of
        (Some ns, Some i) \<Rightarrow> clean_incident i = incident \<and> ns \<notin> set reaped
      | _ \<Rightarrow> False) items"

definition gc_incident :: "DatabaseCloner \<Rightarrow> string list \<Rightarrow> string \<Rightarrow> string list fleet_act" where
  "gc_incident dc dropped incident =
     abind (dc_drop_all dc incident) (\<lambda>dbs. abind (unregister_active_incident incident) (\<lambda>_. aret (dropped @ dbs)))"

definition gc_database ::
    "DatabaseCloner \<Rightarrow> rat \<Rightarrow> string list \<Rightarrow> NamespaceItem list \<Rightarrow> string list \<Rightarrow> string list \<Rightarrow> TwinDatabaseInfo \<Rightarrow> string list fleet_act" where
  "gc_database dc older active items reaped dropped info =
     (if di_name info \<in> set dropped then aret dropped
      else (case twin_db_incident (di_name info) of
        None \<Rightarrow> aret dropped
      | Some incident \<Rightarrow>
          if has_surviving_namespace items reaped incident then aret dropped
          else if incident \<in> set (map clean_incident active) then aret dropped
          else (case di_age_seconds info of
            None \<Rightarrow> aret dropped
          | Some age \<Rightarrow>
              if age < older then aret dropped
              else abind (dc_drop dc (di_name info)) (\<lambda>_. aret (dropped @ [di_name info])))))"

definition fleet_gc :: "Fleet \<Rightarrow> DatabaseCloner \<Rightarrow> rat \<Rightarrow> GcResult fleet_act" where
  "fleet_gc fl dc older =
     abind (acall_api (ListNamespaces INCIDENT_LABEL) (fl_list_namespaces fl INCIDENT_LABEL)) (\<lambda>listed.
       case listed of
         Inl (status, reason) \<Rightarrow> alift (fleet_error [''Failed to list namespaces for GC: '', reason])
       | Inr items \<Rightarrow>
           abind (aask (fl_now fl)) (\<lambda>now.
           abind (aask get_active_incidents) (\<lambda>active.
           abind (afold (gc_namespace fl older now active) \<lparr>gs_reaped = [], gs_incidents = []\<rparr> items) (\<lambda>s.
           abind (afold (gc_incident dc) [] (sorted_set (gs_incidents s))) (\<lambda>dropped.
           abind (dc_list_age dc) (\<lambda>infos.
           abind (afold (gc_database dc older active items (gs_reaped s)) dropped infos) (\<lambda>dropped'.
             aret \<lparr>gc_reaped_namespaces = gs_reaped s, gc_dropped_databases = dropped',
               gc_scanned_namespaces = length items, gc_scanned_databases = length infos\<rparr>)))))))"

text \<open>The handler of the end of the process: every active incident, each failure logged and passed over.\<close>

definition atexit_handler :: "Fleet \<Rightarrow> DatabaseCloner \<Rightarrow> unit fleet_act" where
  "atexit_handler fl dc = abind (aask get_active_incidents) (\<lambda>active.
     aeach (\<lambda>i. acatch (abind (teardown_incident fl dc i) (\<lambda>_. aret ())) (\<lambda>c t. aret ())) active)"

section \<open>What the manager relies on\<close>

text \<open>\<open>drops c d\<close>: the call \<open>c\<close> drops the database \<open>d\<close>.  A cloner drops the database it is told to, or those
  with the incident's prefix, never one outside the twins, and leaves namespaces alone.\<close>

definition spares_namespaces :: "FleetCall \<Rightarrow> bool" where
  "spares_namespaces c \<longleftrightarrow> (\<nexists>ns. c = DeleteNamespace ns)"

definition expired :: "NamespaceItem list \<Rightarrow> string list \<Rightarrow> instant \<Rightarrow> rat \<Rightarrow> NamespaceItem \<Rightarrow> bool" where
  "expired items active now older item \<longleftrightarrow> item \<in> set items \<and> \<not> item_active active item \<and> older \<le> item_age now item"

text \<open>What garbage collection may do: delete an expired namespace, drop a database with the prefix of an incident that
  lost an expired namespace, or one old enough whose incident is not active.\<close>

definition gc_may ::
    "DatabaseCloner \<Rightarrow> (FleetCall \<Rightarrow> string \<Rightarrow> bool) \<Rightarrow> NamespaceItem list \<Rightarrow> string list \<Rightarrow> instant \<Rightarrow> rat \<Rightarrow> FleetCall \<Rightarrow> bool" where
  "gc_may dc drops items active now older c \<longleftrightarrow>
     (\<forall>ns. c = DeleteNamespace ns \<longrightarrow> (\<exists>item. expired items active now older item \<and> item_name item = Some ns)) \<and>
     (\<forall>d. drops c d \<longrightarrow>
        (\<exists>item i. expired items active now older item \<and> item_incident item = Some i \<and> startswith d (incident_prefix i)) \<or>
        (\<exists>i h1 infos h2 info age. twin_db_incident d = Some i \<and> i \<notin> set (map clean_incident active) \<and>
           dc_list_age dc h1 = (Inr infos, h2) \<and> info \<in> set infos \<and> di_name info = d \<and>
           di_age_seconds info = Some age \<and> older \<le> age))"

locale twin_databases =
  fixes dc :: DatabaseCloner and drops :: "FleetCall \<Rightarrow> string \<Rightarrow> bool" and twin_db :: "string \<Rightarrow> bool"
  assumes drop_one: "emits (\<lambda>c. spares_namespaces c \<and> (\<forall>d. drops c d \<longrightarrow> d = db \<and> twin_db d)) (dc_drop dc db)"
    and drop_all: "emits (\<lambda>c. spares_namespaces c \<and> (\<forall>d. drops c d \<longrightarrow> startswith d (incident_prefix i) \<and> twin_db d))
      (dc_drop_all dc i)"
    and list_age: "emits (\<lambda>c. spares_namespaces c \<and> (\<forall>d. \<not> drops c d)) (dc_list_age dc)"
    and drops_sql: "drops c d \<Longrightarrow> \<exists>db sqls. c = RunSql db sqls"
begin

lemma delete_emits:
  "emits (\<lambda>c. c = DeleteNamespace ns) (delete_or_fail fl what ns)"
  unfolding delete_or_fail_def delete_namespace_def by (intro emits_intros) simp_all

lemma unregister_emits: "emits (\<lambda>c. \<exists>i. c = UnregisterIncident i) (unregister_active_incident i)"
  unfolding unregister_active_incident_def by (intro emits_intros) simp_all

lemma no_drop: "c = DeleteNamespace ns \<or> c = UnregisterIncident i \<or> c = ListNamespaces l \<Longrightarrow> \<not> drops c d"
  using drops_sql [of c d] by auto

text \<open>Whatever is torn down, only databases of twins are dropped.\<close>

lemma teardown_drops_twins: "emits (\<lambda>c. \<forall>d. drops c d \<longrightarrow> twin_db d) (teardown_incident fl dc i)"
  "emits (\<lambda>c. \<forall>d. drops c d \<longrightarrow> twin_db d) (teardown_twin fl dc t)"
proof -
  note weaken = emits_mono [OF delete_emits, where Q = "\<lambda>c. \<forall>d. drops c d \<longrightarrow> twin_db d"]
    emits_mono [OF unregister_emits, where Q = "\<lambda>c. \<forall>d. drops c d \<longrightarrow> twin_db d"]
    emits_mono [OF drop_all, where Q = "\<lambda>c. \<forall>d. drops c d \<longrightarrow> twin_db d"]
    emits_mono [OF drop_one, where Q = "\<lambda>c. \<forall>d. drops c d \<longrightarrow> twin_db d"]
  show "emits (\<lambda>c. \<forall>d. drops c d \<longrightarrow> twin_db d) (teardown_incident fl dc i)"
    unfolding teardown_incident_def delete_step_def Let_def
    by (intro emits_intros weaken) (use no_drop in blast)+
  show "emits (\<lambda>c. \<forall>d. drops c d \<longrightarrow> twin_db d) (teardown_twin fl dc t)"
    unfolding teardown_twin_def by (intro emits_intros weaken) (use no_drop in blast)+
qed

lemma gc_drops_twins: "emits (\<lambda>c. \<forall>d. drops c d \<longrightarrow> twin_db d) (fleet_gc fl dc older)"
proof -
  let ?P = "\<lambda>c. \<forall>d. drops c d \<longrightarrow> twin_db d"
  note weaken = emits_mono [OF delete_emits, where Q = ?P] emits_mono [OF unregister_emits, where Q = ?P]
    emits_mono [OF drop_all, where Q = ?P] emits_mono [OF drop_one, where Q = ?P] emits_mono [OF list_age, where Q = ?P]
  have ns: "emits ?P (gc_namespace fl older now active s item)" for now active s item
    unfolding gc_namespace_def by (intro emits_intros weaken) (use no_drop in blast)+
  have inc: "emits ?P (gc_incident dc s i)" for s i
    unfolding gc_incident_def by (intro emits_intros weaken) (use no_drop in blast)+
  have db: "emits ?P (gc_database dc older active items reaped s info)" for active items reaped s info
    unfolding gc_database_def by (intro emits_intros weaken) (use no_drop in blast)+
  show ?thesis
    unfolding fleet_gc_def by (intro emits_intros ns inc db weaken) (use no_drop in blast)+
qed

text \<open>The three loops of garbage collection.\<close>

lemma gc_namespaces_may:
  assumes "grown (gc_may dc drops items active now older) h0 h"
  defines "ok \<equiv> \<lambda>s. \<forall>i \<in> set (gs_incidents s). \<exists>item. expired items active now older item \<and> item_incident item = Some i"
  shows "wp (afold (gc_namespace fl older now active) \<lparr>gs_reaped = [], gs_incidents = []\<rparr> items)
    (\<lambda>s h'. grown (gc_may dc drops items active now older) h0 h' \<and> ok s)
    (\<lambda>_. grown (gc_may dc drops items active now older) h0) h"
proof (rule wp_afold)
  fix s item h
  assume item: "item \<in> set items"
    and inv: "grown (gc_may dc drops items active now older) h0 h \<and> ok s"
  show "wp (gc_namespace fl older now active s item) (\<lambda>s h'. grown (gc_may dc drops items active now older) h0 h' \<and> ok s)
    (\<lambda>_. grown (gc_may dc drops items active now older) h0) h"
  proof (cases "\<exists>ns. item_name item = Some ns \<and> \<not> item_active active item \<and> older \<le> item_age now item")
    case True
    then obtain ns where ns: "item_name item = Some ns" "expired items active now older item" "\<not> item_active active item"
        "older \<le> item_age now item" using item by (auto simp: expired_def)
    have "gc_may dc drops items active now older c" if "c = DeleteNamespace ns" for c
      using that ns no_drop unfolding gc_may_def by blast
    from wp_grown [OF delete_emits this conjunct1 [OF inv]]
    have "wp (delete_or_fail fl [''Failed to delete expired namespace '', squote ns] ns)
      (\<lambda>_. grown (gc_may dc drops items active now older) h0) (\<lambda>_. grown (gc_may dc drops items active now older) h0) h" .
    moreover have "ok (add_reaped s ns (item_incident item))"
      using inv ns(2) by (auto simp: ok_def add_reaped_def split: option.splits)
    ultimately show ?thesis using ns by (simp add: gc_namespace_def)
  qed (use inv in \<open>auto simp: gc_namespace_def split: option.splits\<close>)
qed (use assms(1) in \<open>simp add: ok_def\<close>)

lemma gc_incidents_may:
  assumes "\<forall>i \<in> set incs. \<exists>item. expired items active now older item \<and> item_incident item = Some i"
    and "grown (gc_may dc drops items active now older) h0 h"
  shows "wp (afold (gc_incident dc) [] incs) (\<lambda>_. grown (gc_may dc drops items active now older) h0)
    (\<lambda>_. grown (gc_may dc drops items active now older) h0) h"
proof (rule wp_afold [where I = "\<lambda>_. grown (gc_may dc drops items active now older) h0", OF _ assms(2)])
  fix s i h
  assume i: "i \<in> set incs" and inv: "grown (gc_may dc drops items active now older) h0 h"
  have all: "gc_may dc drops items active now older c"
    if "spares_namespaces c \<and> (\<forall>d. drops c d \<longrightarrow> startswith d (incident_prefix i) \<and> twin_db d)" for c
    using that assms(1) i unfolding gc_may_def spares_namespaces_def by blast
  have un: "gc_may dc drops items active now older c" if "\<exists>i. c = UnregisterIncident i" for c
    using that no_drop unfolding gc_may_def by blast
  have unreg: "wp (unregister_active_incident i) (\<lambda>_. grown (gc_may dc drops items active now older) h0)
    (\<lambda>_. grown (gc_may dc drops items active now older) h0) h'" if "grown (gc_may dc drops items active now older) h0 h'" for h'
    by (rule wp_grown [OF unregister_emits un that])
  show "wp (gc_incident dc s i) (\<lambda>_. grown (gc_may dc drops items active now older) h0)
    (\<lambda>_. grown (gc_may dc drops items active now older) h0) h"
    unfolding gc_incident_def wp_abind wp_aret
    by (rule wp_mono [OF wp_grown [OF drop_all [where i = i] all inv]]) (assumption | rule unreg)+
qed

lemma gc_databases_may:
  assumes "dc_list_age dc h1 = (Inr infos, h2)" "grown (gc_may dc drops items active now older) h0 h"
  shows "wp (afold (gc_database dc older active items reaped) dropped infos)
    (\<lambda>_. grown (gc_may dc drops items active now older) h0) (\<lambda>_. grown (gc_may dc drops items active now older) h0) h"
proof (rule wp_afold [where I = "\<lambda>_. grown (gc_may dc drops items active now older) h0", OF _ assms(2)])
  fix s info h
  assume info: "info \<in> set infos" and inv: "grown (gc_may dc drops items active now older) h0 h"
  show "wp (gc_database dc older active items reaped s info) (\<lambda>_. grown (gc_may dc drops items active now older) h0)
    (\<lambda>_. grown (gc_may dc drops items active now older) h0) h"
  proof (cases "\<exists>i age. twin_db_incident (di_name info) = Some i \<and> i \<notin> set (map clean_incident active) \<and>
      di_age_seconds info = Some age \<and> older \<le> age")
    case True
    then obtain i age where i: "twin_db_incident (di_name info) = Some i" "i \<notin> set (map clean_incident active)"
      "di_age_seconds info = Some age" "older \<le> age" by blast
    have "gc_may dc drops items active now older c"
      if "spares_namespaces c \<and> (\<forall>d. drops c d \<longrightarrow> d = di_name info \<and> twin_db d)" for c
      using that assms(1) info i unfolding gc_may_def spares_namespaces_def by blast
    from wp_grown [OF drop_one [where db = "di_name info"] this inv] show ?thesis using inv i by (simp add: gc_database_def)
  next
    case False
    then show ?thesis using inv by (auto simp: gc_database_def not_le split: option.splits)
  qed
qed

lemma gc_only_may:
  assumes "fl_list_namespaces fl INCIDENT_LABEL h = Inr items" "fleet_gc fl dc older h = (r, h')"
  defines "h0 \<equiv> h @ [(ListNamespaces INCIDENT_LABEL, True)]"
  shows "grown (gc_may dc drops items (get_active_incidents h0) (fl_now fl h0) older) h h'"
proof -
  let ?may = "gc_may dc drops items (get_active_incidents h0) (fl_now fl h0) older"
  have list: "?may c" if "spares_namespaces c \<and> (\<forall>d. \<not> drops c d)" for c
    using that unfolding gc_may_def spares_namespaces_def by blast
  have start: "grown ?may h h0" unfolding h0_def
    by (rule grown_snoc) (use no_drop in \<open>auto simp: gc_may_def\<close>)
  have "wp (fleet_gc fl dc older) (\<lambda>_. grown ?may h) (\<lambda>_. grown ?may h) h"
    unfolding fleet_gc_def
  proof (simp add: assms(1) h0_def [symmetric], rule wp_mono [OF gc_namespaces_may [OF start]], goal_cases)
    case (1 s h1)
    then have "wp (afold (gc_incident dc) [] (sorted_set (gs_incidents s))) (\<lambda>_. grown ?may h) (\<lambda>_. grown ?may h) h1"
      by (intro gc_incidents_may) auto
    then show ?case unfolding wp_abind wp_aret
    proof (rule wp_mono, goal_cases)
      case (1 dropped h2)
      show ?case
      proof (rule wpI, goal_cases)
        case (1 e h3)
        show ?case using wpD [OF wp_grown [OF list_age list \<open>grown ?may h h2\<close>] 1] by simp
      next
        case (2 infos h3)
        have "grown ?may h h3" using wpD [OF wp_grown [OF list_age list \<open>grown ?may h h2\<close>] 2] by simp
        from gc_databases_may [OF 2 this] show ?case .
      qed
    qed simp
  qed simp
  from wpD [OF this assms(2)] show ?thesis by (cases r) simp_all
qed

end


section \<open>The Postgres cloner keeps the contract\<close>

definition pg_drops :: "FleetCall \<Rightarrow> string \<Rightarrow> bool" where
  "pg_drops c d \<longleftrightarrow> c = RunSql ''postgres'' [drop_sql d]"

definition twin_db_name :: "string \<Rightarrow> bool" where
  "twin_db_name d \<longleftrightarrow> safe_db_name d \<and> startswith d ''twin_''"

lemma drop_sql_inj [simp]: "drop_sql d = drop_sql d' \<longleftrightarrow> d = d'"
  by (simp add: drop_sql_def fstr_def)

lemma other_sql [simp]: "terminate_sql x \<noteq> drop_sql d" "list_sql \<noteq> drop_sql d" "list_age_sql \<noteq> drop_sql d"
  by (simp_all add: terminate_sql_def list_sql_def list_age_sql_def drop_sql_def fstr_def)

lemma emits_run_sql: "P (RunSql ''postgres'' sqls) \<Longrightarrow> emits P (run_sql fl sqls)"
  unfolding run_sql_def by (rule emits_acall)

lemma drop_twin_emits:
  "emits (\<lambda>c. spares_namespaces c \<and> (\<forall>d. pg_drops c d \<longrightarrow> d = db \<and> twin_db_name d)) (drop_twin_database fl db)"
  unfolding drop_twin_database_def terminate_connections_def
  by (intro emits_intros emits_run_sql) (auto simp: spares_namespaces_def pg_drops_def twin_db_name_def)

lemma list_twins_emits:
  "emits (\<lambda>c. spares_namespaces c \<and> (\<forall>d. \<not> pg_drops c d)) (list_twin_databases fl i)"
  "emits (\<lambda>c. spares_namespaces c \<and> (\<forall>d. \<not> pg_drops c d)) (list_twin_databases_with_age fl)"
  unfolding list_twin_databases_def list_twin_databases_with_age_def
  by (intro emits_intros emits_run_sql; simp add: spares_namespaces_def pg_drops_def)+

lemma drop_all_emits:
  "emits (\<lambda>c. spares_namespaces c \<and> (\<forall>d. pg_drops c d \<longrightarrow> startswith d (incident_prefix i) \<and> twin_db_name d))
     (drop_all_incident_databases fl i)"
proof -
  let ?P = "\<lambda>c. spares_namespaces c \<and> (\<forall>d. pg_drops c d \<longrightarrow> startswith d (incident_prefix i) \<and> twin_db_name d)"
  have "emits ?P (drop_step (drop_twin_database fl) (incident_prefix i) s db)" for s db
    unfolding drop_step_def by (intro emits_intros emits_mono [OF drop_twin_emits]) auto
  moreover have "emits ?P (list_twin_databases fl None)" by (rule emits_mono [OF list_twins_emits(1)]) auto
  ultimately show ?thesis unfolding drop_all_incident_databases_def by (intro emits_intros)
qed

interpretation pg: twin_databases "postgres_cloner fl pc" pg_drops twin_db_name for fl pc
proof
  show "emits (\<lambda>c. spares_namespaces c \<and> (\<forall>d. pg_drops c d \<longrightarrow> d = db \<and> twin_db_name d)) (dc_drop (postgres_cloner fl pc) db)" for db
    by (simp add: postgres_cloner_def drop_twin_emits)
  show "emits (\<lambda>c. spares_namespaces c \<and> (\<forall>d. pg_drops c d \<longrightarrow> startswith d (incident_prefix i) \<and> twin_db_name d))
      (dc_drop_all (postgres_cloner fl pc) i)" for i
    by (simp add: postgres_cloner_def drop_all_emits)
  show "emits (\<lambda>c. spares_namespaces c \<and> (\<forall>d. \<not> pg_drops c d)) (dc_list_age (postgres_cloner fl pc))"
    by (simp add: postgres_cloner_def list_twins_emits)
  show "\<exists>db sqls. c = RunSql db sqls" if "pg_drops c d" for c d using that by (auto simp: pg_drops_def)
qed

section \<open>Properties\<close>

text \<open>A call made between two traces.\<close>

definition made :: "FleetCall trace \<Rightarrow> FleetCall trace \<Rightarrow> FleetCall \<Rightarrow> bool" where
  "made h h' c \<longleftrightarrow> (\<exists>k b. h' = h @ k \<and> (c, b) \<in> set k)"

lemma grown_made: "grown P h h' \<Longrightarrow> made h h' c \<Longrightarrow> P c"
  by (auto simp: grown_def made_def)

text \<open>C22: garbage collection spares the living: it deletes a namespace only when its incident is not active and it is
  older than the limit, and drops no database of an active incident unless its name extends the name of an incident
  whose expired namespace it deleted.\<close>

theorem gc_spares_active:
  assumes "fl_list_namespaces fl INCIDENT_LABEL h = Inr items" "fleet_gc fl (postgres_cloner fl pc) older h = (r, h')"
  defines "h0 \<equiv> h @ [(ListNamespaces INCIDENT_LABEL, True)]"
  shows "(\<forall>ns. made h h' (DeleteNamespace ns) \<longrightarrow>
      (\<exists>item \<in> set items. item_name item = Some ns \<and> \<not> item_active (get_active_incidents h0) item \<and>
        older \<le> item_age (fl_now fl h0) item)) \<and>
    (\<forall>inc \<in> set (get_active_incidents h0). \<forall>idx db. sanitize_database_name inc idx = Inr db \<and> line_break \<notin> set inc \<and>
      (\<forall>item \<in> set items. \<forall>i. item_incident item = Some i \<and> startswith db (incident_prefix i) \<longrightarrow>
         item_active (get_active_incidents h0) item \<or> item_age (fl_now fl h0) item < older) \<longrightarrow>
      \<not> made h h' (RunSql ''postgres'' [drop_sql db]))"
proof -
  let ?active = "get_active_incidents h0" and ?now = "fl_now fl h0"
  note may = grown_made [OF pg.gc_only_may [OF assms(1,2), folded h0_def], unfolded gc_may_def expired_def]
  have "\<not> made h h' (RunSql ''postgres'' [drop_sql db])"
    if "inc \<in> set ?active" "sanitize_database_name inc idx = Inr db" "line_break \<notin> set inc"
      "\<forall>item \<in> set items. \<forall>i. item_incident item = Some i \<and> startswith db (incident_prefix i) \<longrightarrow>
         item_active ?active item \<or> item_age ?now item < older" for inc idx db
  proof
    assume made: "made h h' (RunSql ''postgres'' [drop_sql db])"
    have drops: "pg_drops (RunSql ''postgres'' [drop_sql db]) db" by (simp add: pg_drops_def)
    have "twin_db_incident db = Some (clean_incident inc)" by (rule database_incident [OF that(2,3)])
    then have "\<nexists>i. twin_db_incident db = Some i \<and> i \<notin> set (map clean_incident ?active)" using that(1) by auto
    then obtain item i where "item \<in> set items" "\<not> item_active ?active item" "older \<le> item_age ?now item"
      "item_incident item = Some i" "startswith db (incident_prefix i)"
      using may [OF made] drops by blast
    then show False using that(4) by fastforce
  qed
  moreover have "\<exists>item \<in> set items. item_name item = Some ns \<and> \<not> item_active ?active item \<and> older \<le> item_age ?now item"
    if "made h h' (DeleteNamespace ns)" for ns
    using may [OF that] by blast
  ultimately show ?thesis by blast
qed

text \<open>What the tear-down of an incident leaves behind.\<close>

lemma drop_step_simps:
  "startswith db prefix \<Longrightarrow> drop_step drop_db prefix dropped db = abind (drop_db db) (\<lambda>_. aret (dropped @ [db]))"
  "\<not> startswith db prefix \<Longrightarrow> drop_step drop_db prefix dropped db = aret dropped"
  by (simp_all add: drop_step_def)

lemma drop_step_wp:
  "wp (afold (drop_step (drop_twin_database fl) prefix) [] twins)
    (\<lambda>dropped h'. dropped = filter (\<lambda>d. startswith d prefix) twins \<and> (\<forall>d \<in> set dropped. (RunSql ''postgres'' [drop_sql d], True) \<in> set h'))
    (\<lambda>_ _. True) h"
proof -
  have drop: "wp (drop_twin_database fl db) (\<lambda>_ h'. (RunSql ''postgres'' [drop_sql db], True) \<in> set h' \<and> set h \<subseteq> set h') (\<lambda>_ _. True) h" for db h
    by (auto simp: drop_twin_database_def terminate_connections_def run_sql_def fleet_error_def split: sum.splits prod.splits)
  have "wp (afold (drop_step (drop_twin_database fl) prefix) acc twins)
    (\<lambda>dropped h'. dropped = acc @ filter (\<lambda>d. startswith d prefix) twins \<and>
       (\<forall>d \<in> set dropped. (RunSql ''postgres'' [drop_sql d], True) \<in> set h')) (\<lambda>_ _. True) h"
    if "\<forall>d \<in> set acc. (RunSql ''postgres'' [drop_sql d], True) \<in> set h" for acc h
    using that
  proof (induction twins arbitrary: acc h)
    case (Cons db twins)
    show ?case
    proof (cases "startswith db prefix")
      case True
      have "wp (afold (drop_step (drop_twin_database fl) prefix) (acc @ [db]) twins)
        (\<lambda>dropped h'. dropped = (acc @ [db]) @ filter (\<lambda>d. startswith d prefix) twins \<and>
           (\<forall>d \<in> set dropped. (RunSql ''postgres'' [drop_sql d], True) \<in> set h')) (\<lambda>_ _. True) h1"
        if "(RunSql ''postgres'' [drop_sql db], True) \<in> set h1 \<and> set h \<subseteq> set h1" for h1
        by (rule Cons.IH) (use Cons.prems that in auto)
      then show ?thesis using True by (simp add: drop_step_simps, intro wp_mono [OF drop [of db h]]) simp_all
    qed (use Cons in \<open>simp add: drop_step_simps\<close>)
  qed simp
  from this [of "[]" h] show ?thesis by simp
qed


text \<open>The names of the namespaces listed, as they are deleted.\<close>

lemma delete_step_wp:
  "wp (afold (delete_step fl what) [] items)
    (\<lambda>deleted h'. deleted = List.map_filter item_name items \<and> (\<forall>ns \<in> set deleted. \<exists>b. (DeleteNamespace ns, b) \<in> set h'))
    (\<lambda>_ _. True) h"
proof -
  have del: "wp (delete_or_fail fl what ns) (\<lambda>_ h'. (\<exists>b. (DeleteNamespace ns, b) \<in> set h') \<and> set h \<subseteq> set h') (\<lambda>_ _. True) h" for ns h
    by (auto simp: delete_or_fail_def delete_namespace_def fleet_error_def split: sum.splits ApiFault.splits)
  have "wp (afold (delete_step fl what) acc items)
    (\<lambda>deleted h'. deleted = acc @ List.map_filter item_name items \<and>
       (\<forall>ns \<in> set deleted. \<exists>b. (DeleteNamespace ns, b) \<in> set h')) (\<lambda>_ _. True) h"
    if "\<forall>ns \<in> set acc. \<exists>b. (DeleteNamespace ns, b) \<in> set h" for acc h
    using that
  proof (induction items arbitrary: acc h)
    case Nil
    then show ?case by (simp add: map_filter_simps)
  next
    case (Cons item items)
    show ?case
    proof (cases "item_name item")
      case (Some ns)
      have "wp (afold (delete_step fl what) (acc @ [ns]) items)
        (\<lambda>deleted h'. deleted = (acc @ [ns]) @ List.map_filter item_name items \<and>
           (\<forall>ns \<in> set deleted. \<exists>b. (DeleteNamespace ns, b) \<in> set h')) (\<lambda>_ _. True) h1"
        if "(\<exists>b. (DeleteNamespace ns, b) \<in> set h1) \<and> set h \<subseteq> set h1" for h1
        by (rule Cons.IH) (use Cons.prems that in auto)
      then show ?thesis using Some
        by (simp add: delete_step_def [of _ _ _ item] map_filter_simps, intro wp_mono [OF del [of ns h]]) simp_all
    qed (use Cons in \<open>simp add: delete_step_def [of _ _ _ item] map_filter_simps\<close>)
  qed
  from this [of "[]" h] show ?thesis by simp
qed

lemma unregister_wp:
  "set h1 \<subseteq> set h \<Longrightarrow> py_strip i \<noteq> [] \<Longrightarrow>
   wp (unregister_active_incident i) (\<lambda>_ h'. py_strip i \<notin> set (get_active_incidents h') \<and> set h1 \<subseteq> set h') E h"
  by (auto simp: unregister_active_incident_def get_active_incidents_def)



text \<open>Nothing but twins is ever dropped: whatever the cluster and the database answer, a tear-down of a twin or of an
  incident and garbage collection drop only databases whose name begins like a twin's and consists of letters, digits
  and underscores, so that no statement they send can mean another database.\<close>

theorem only_twins_dropped:
  assumes "m \<in> {\<lambda>h. snd (teardown_twin fl (postgres_cloner fl pc) t h),
      \<lambda>h. snd (teardown_incident fl (postgres_cloner fl pc) inc h), \<lambda>h. snd (fleet_gc fl (postgres_cloner fl pc) older h)}"
    and "made h (m h) (RunSql ''postgres'' [drop_sql db])"
  shows "startswith db ''twin_'' \<and> before_end db \<noteq> [] \<and> list_all safe_char (before_end db)"
proof -
  let ?P = "\<lambda>c. \<forall>d. pg_drops c d \<longrightarrow> twin_db_name d"
  have "grown ?P h (m h)"
    using assms(1) emitsD [OF pg.teardown_drops_twins(1) prod.collapse [symmetric]]
      emitsD [OF pg.teardown_drops_twins(2) prod.collapse [symmetric]] emitsD [OF pg.gc_drops_twins prod.collapse [symmetric]]
    unfolding grown_def by blast
  from grown_made [OF this assms(2)] show ?thesis by (simp add: pg_drops_def twin_db_name_def safe_db_name_def)
qed

section \<open>A small cluster\<close>

text \<open>One namespace, made at time 0, of the incident \<open>a\<close>, and one database of it, stamped at time 0; it is now time 7200.\<close>

definition small_std :: PyStd where
  "small_std = \<lparr>std_fromisoformat = (\<lambda>s. if s = ''0'' then Some 0 else None), std_isoformat = (\<lambda>_. ''0''),
     std_repr = (\<lambda>_. []), std_fixed = (\<lambda>_ _. [])\<rparr>"

definition small_item :: NamespaceItem where
  "small_item = \<lparr>ni_name = Some ''ust-twin-a-0'', ni_labels = [(INCIDENT_LABEL, ''a'')], ni_created = Some 0\<rparr>"

definition small_fleet :: Fleet where
  "small_fleet = \<lparr>fl_run_sql = (\<lambda>db sqls h. Inr (0, if sqls = [list_sql] then ''twin_a_0'' else
        if sqls = [list_age_sql] then ''twin_a_0|understudy:created_at=0'' else ''1'', [])),
     fl_run_pipeline = (\<lambda>s h. Inr (0, [], [])), fl_sleep = (\<lambda>d h. Inr ()), fl_now = (\<lambda>h. 72), fl_monotonic = (\<lambda>h. 0),
     fl_std = small_std, fl_list_namespaces = (\<lambda>s h. Inr [small_item]), fl_delete_namespace = (\<lambda>ns h. Inr ()),
     fl_create = (\<lambda>ns m h. Inr ()), fl_replace = (\<lambda>n ns m h. Inr ()), fl_read_policy = (\<lambda>n ns h. Inr (Some [''Egress''])),
     fl_list_deployments = (\<lambda>ns h. Inr [\<lparr>ld_name = Some ''auth'', ld_status = Some (Some 2, Some 2)\<rparr>]),
     fl_list_pods = (\<lambda>ns h. Inr []), fl_read_workloads = (\<lambda>ns ex h. Inr sample_snapshot)\<rparr>"

abbreviation small_cloner :: DatabaseCloner where
  "small_cloner \<equiv> postgres_cloner small_fleet default_cloner"

lemma gc_spares_active_witness:
  "\<not> made [(RegisterIncident ''a'', True)] (snd (fleet_gc small_fleet small_cloner 36 [(RegisterIncident ''a'', True)]))
     (DeleteNamespace ''ust-twin-a-0'') \<and>
   \<not> made [(RegisterIncident ''a'', True)] (snd (fleet_gc small_fleet small_cloner 36 [(RegisterIncident ''a'', True)]))
     (RunSql ''postgres'' [drop_sql ''twin_a_0''])"
proof -
  let ?h = "[(RegisterIncident ''a'', True)]"
  let ?listed = "?h @ [(ListNamespaces INCIDENT_LABEL, True)]"
  have list: "fl_list_namespaces small_fleet INCIDENT_LABEL ?h = Inr [small_item]" by (simp add: small_fleet_def)
  have facts: "get_active_incidents ?listed = [''a'']" "item_active [''a''] small_item"
    "sanitize_database_name ''a'' 0 = Inr ''twin_a_0''" "line_break \<notin> set ''a''" by code_simp+
  let ?run = "fleet_gc small_fleet small_cloner 36 ?h"
  note spares = gc_spares_active [OF list, of default_cloner 36 "fst ?run" "snd ?run", OF prod.collapse [symmetric]]
  have "\<not> made ?h (snd ?run) (DeleteNamespace ''ust-twin-a-0'')"
  proof
    assume "made ?h (snd ?run) (DeleteNamespace ''ust-twin-a-0'')"
    then have "\<exists>item \<in> set [small_item]. \<not> item_active (get_active_incidents ?listed) item" using conjunct1 [OF spares] by blast
    then show False using facts(1,2) by simp
  qed
  moreover have "''a'' \<in> set (get_active_incidents ?listed)" "\<forall>item \<in> set [small_item]. item_active (get_active_incidents ?listed) item"
    using facts(1,2) by simp_all
  then have "\<not> made ?h (snd ?run) (RunSql ''postgres'' [drop_sql ''twin_a_0''])"
    using conjunct2 [OF spares] facts(3,4) by blast
  ultimately show ?thesis by blast
qed


lemma only_twins_dropped_witness:
  "made [] (snd (teardown_incident small_fleet small_cloner ''a'' [])) (RunSql ''postgres'' [drop_sql ''twin_a_0'']) \<and>
   startswith ''twin_a_0'' ''twin_'' \<and> list_all safe_char (before_end ''twin_a_0'')"
proof -
  have "list_ex (\<lambda>e. fst e = RunSql ''postgres'' [drop_sql ''twin_a_0'']) (snd (teardown_incident small_fleet small_cloner ''a'' []))"
    by code_simp
  then have "made [] (snd (teardown_incident small_fleet small_cloner ''a'' [])) (RunSql ''postgres'' [drop_sql ''twin_a_0''])"
    by (auto simp: made_def list_ex_iff)
  then show ?thesis
    using only_twins_dropped [of "\<lambda>h. snd (teardown_incident small_fleet small_cloner ''a'' h)" small_fleet default_cloner] by blast
qed


lemma clone_bounded_witness:
  "\<exists>res h'. clone_twin_database small_fleet default_cloner ''a'' 0 [] = (Inr res, h') \<and> dr_database_name res = ''twin_a_0'' \<and>
     1 \<le> clones default_cloner ''twin_a_0'' h' \<and> clones default_cloner ''twin_a_0'' h' \<le> max_retries default_cloner"
proof -
  have ok: "case fst (clone_twin_database small_fleet default_cloner ''a'' 0 []) of Inl e \<Rightarrow> False | Inr r \<Rightarrow> True" by code_simp
  then obtain res h' where run: "clone_twin_database small_fleet default_cloner ''a'' 0 [] = (Inr res, h')"
    by (metis old.sum.exhaust prod.collapse sum.case(1))
  have "sanitize_database_name ''a'' 0 = Inr ''twin_a_0''" by code_simp
  from clone_bounded [OF this run] show ?thesis using run by auto
qed

end
