(* ===== verification/Fork.thy ===== *)
theory Fork
  imports Teardown
begin

text \<open>
  Forking the twins of an incident (\<^verbatim>\<open>fleet/controller.py\<close>): per candidate the database, the manifests in
  their order, the confirmation of the egress policy and the wait for readiness; a failure of one candidate
  tears down all.  The candidates of \<open>asyncio.gather\<close> run one after the other.  The wait polls with fuel; its
  exhaustion is an exception of its own, which \<open>readiness_settles\<close> excludes.
\<close>

section \<open>Loops that raise when their fuel is spent\<close>

definition out_of_fuel :: PyExc where "out_of_fuel = Raised ''OutOfFuel'' []"

fun aloop :: "nat \<Rightarrow> ('s \<Rightarrow> ('c, 'r + 's) act) \<Rightarrow> 's \<Rightarrow> ('c, 'r) act" where
  "aloop 0 body s = araise out_of_fuel"
| "aloop (Suc n) body s = abind (body s) (\<lambda>x. case x of Inl r \<Rightarrow> aret r | Inr s' \<Rightarrow> aloop n body s')"

text \<open>A task of \<open>asyncio.gather(..., return_exceptions=True)\<close>: an exception is its result, a cancellation is not.\<close>

definition aattempt :: "('c, 'a) act \<Rightarrow> ('c, PyExc + 'a) act" where
  "aattempt m h = (case m h of
     (Inl (Raised c t), h') \<Rightarrow> (Inr (Inl (Raised c t)), h')
   | (Inl (Cancelled b), h') \<Rightarrow> (Inl (Cancelled b), h')
   | (Inr x, h') \<Rightarrow> (Inr (Inr x), h'))"

lemma wp_aattempt [simp]:
  "wp (aattempt m) Q E = wp m (\<lambda>x. Q (Inr x)) (\<lambda>e. case e of Raised c t \<Rightarrow> Q (Inl e) | Cancelled b \<Rightarrow> E e)"
  by (auto simp: fun_eq_iff wp_def aattempt_def split: prod.splits sum.splits PyExc.splits)

lemma emits_aattempt [emits_intros]: "emits P m \<Longrightarrow> emits P (aattempt m)"
  by (auto simp: emits_def aattempt_def split: prod.splits sum.splits PyExc.splits)

lemma emits_aloop [emits_intros]: "(\<And>s. emits P (body s)) \<Longrightarrow> emits P (aloop n body s)"
  by (induction n arbitrary: s) (auto intro!: emits_intros)

section \<open>Applying manifests\<close>

record Controller =
  fc_renderer :: Renderer
  fc_prod_namespace :: string
  fc_readiness_timeout :: rat
  fc_poll_interval :: rat

definition opt_str :: "string option \<Rightarrow> string" where
  "opt_str x = (case x of Some s \<Rightarrow> s | None \<Rightarrow> ''None'')"

text \<open>Creation; a conflict is passed over, or answered by a replacement under the name given.\<close>

definition apply_object :: "Fleet \<Rightarrow> string option \<Rightarrow> string option \<Rightarrow> string \<Rightarrow> Manifest \<Rightarrow> ((int \<times> string) + unit) fleet_act" where
  "apply_object fl scope replace_as ns m =
     abind (acall_api (CreateObject scope m) (fl_create fl scope m)) (\<lambda>r.
       case r of
         Inl (status, reason) \<Rightarrow>
           if status = 409 then
             (case replace_as of
                None \<Rightarrow> aret (Inr ())
              | Some name \<Rightarrow> acall_api (ReplaceObject name ns m) (fl_replace fl name ns m))
           else aret r
       | Inr _ \<Rightarrow> aret r)"

definition name_or :: "string \<Rightarrow> Manifest \<Rightarrow> string" where
  "name_or d m = (case mf_name m of Some n \<Rightarrow> n | None \<Rightarrow> d)"

definition apply_kind :: "Fleet \<Rightarrow> string \<Rightarrow> Manifest \<Rightarrow> ((int \<times> string) + unit) fleet_act" where
  "apply_kind fl ns m =
     (let kind = mf_kind m in
      if kind = Some ''Namespace'' then apply_object fl None None ns m
      else if kind = Some ''ServiceAccount'' \<or> kind = Some ''RoleBinding'' \<or> kind = Some ''Service'' then apply_object fl (Some ns) None ns m
      else if kind = Some ''NetworkPolicy'' then apply_object fl (Some ns) (Some (name_or TWIN_POLICY_NAME m)) ns m
      else if kind = Some ''ConfigMap'' \<or> kind = Some ''Deployment'' then apply_object fl (Some ns) (Some (name_or ''unknown'' m)) ns m
      else alift (fleet_error [''Unsupported Kubernetes manifest kind '', (case kind of Some k \<Rightarrow> squote k | None \<Rightarrow> ''None''),
        '' for resource '', squote (name_or ''unknown'' m)]))"

definition apply_manifest :: "Fleet \<Rightarrow> string \<Rightarrow> Manifest \<Rightarrow> unit fleet_act" where
  "apply_manifest fl ns m =
     (let what = [opt_str (mf_kind m), '' '', squote (name_or ''unknown'' m), '' in namespace '', squote ns, '': ''] in
      acatch (abind (apply_kind fl ns m) (\<lambda>r.
          case r of
            Inl (status, reason) \<Rightarrow> alift (fleet_error ([''Failed to apply ''] @ what @ [reason]))
          | Inr _ \<Rightarrow> aret ()))
        (\<lambda>c t. if isinstance c ''FleetError'' then araise (Raised c t)
               else alift (fleet_error ([''Unexpected error applying ''] @ what @ [t]))))"

section \<open>The egress policy\<close>

text \<open>The answer holds the policy types of the policy's spec, if it has one.\<close>

definition confirm_k6_network_policy :: "Fleet \<Rightarrow> string \<Rightarrow> unit fleet_act" where
  "confirm_k6_network_policy fl ns =
     abind (acatch (acall_api (ReadPolicy TWIN_POLICY_NAME ns) (fl_read_policy fl TWIN_POLICY_NAME ns))
       (\<lambda>c t. alift (fleet_error [''Unexpected error verifying NetworkPolicy in '', squote ns, '': '', t]))) (\<lambda>r.
       case r of
         Inl (status, reason) \<Rightarrow>
           if status = 404 then
             alift (fleet_error [''Twin NetworkPolicy '', squote TWIN_POLICY_NAME, '' not found in namespace '', squote ns, ''. '',
               ''K6 egress containment invariant precondition failed.''])
           else alift (fleet_error [''Failed to verify NetworkPolicy '', squote TWIN_POLICY_NAME, '' in '', squote ns, '': '', reason])
       | Inr spec \<Rightarrow>
           (let types = (case spec of Some ts \<Rightarrow> ts | None \<Rightarrow> []) in
            if ''Egress'' \<notin> set types then
              alift (fleet_error [''Twin NetworkPolicy '', squote TWIN_POLICY_NAME, '' in '', squote ns, '' does not enforce Egress. '',
                ''Policy types found: ['', join '', '' (map squote types), '']. K6 invariant violated.''])
            else aret ()))"

section \<open>Readiness\<close>

definition TERMINAL_POD_PHASES :: "string list" where
  "TERMINAL_POD_PHASES = [''Succeeded'', ''Failed'']"

definition is_expected_live_pod :: "(string \<times> string) list list \<Rightarrow> LivePod \<Rightarrow> bool" where
  "is_expected_live_pod selectors pod =
     (case lp_meta pod of
        None \<Rightarrow> False
      | Some meta \<Rightarrow> \<not> pm_deleting meta \<and> (case lp_phase pod of Some p \<Rightarrow> p \<notin> set TERMINAL_POD_PHASES | None \<Rightarrow> True) \<and>
          list_ex (\<lambda>sel. list_all (\<lambda>(k, v). map_of (pm_labels meta) k = Some v) sel) selectors)"

definition expected_deployments :: "Manifest list \<Rightarrow> (string \<times> int) list" where
  "expected_deployments deps = dict_of (List.map_filter (\<lambda>m.
     case mf_name m of
       Some (c # cs) \<Rightarrow> Some (c # cs, case mf_body m of DeploymentBody n sel t \<Rightarrow> n | _ \<Rightarrow> 1)
     | _ \<Rightarrow> None) deps)"

definition expected_selectors :: "Manifest list \<Rightarrow> (string \<times> string) list list" where
  "expected_selectors deps = List.map_filter (\<lambda>m.
     case mf_body m of DeploymentBody n (kv # kvs) t \<Rightarrow> Some (kv # kvs) | _ \<Rightarrow> None) deps"

definition replicas_or_zero :: "int option \<Rightarrow> int" where
  "replicas_or_zero x = (case x of Some n \<Rightarrow> n | None \<Rightarrow> 0)"

definition unready_deployment :: "(string \<times> LiveDeployment) list \<Rightarrow> string \<times> int \<Rightarrow> string option" where
  "unready_deployment live = (\<lambda>(name, want).
     case map_of live name of
       None \<Rightarrow> Some (fstr [name, '' (missing)''])
     | Some d \<Rightarrow> (case ld_status d of
         None \<Rightarrow> Some (fstr [name, '' (missing)''])
       | Some (ready, avail) \<Rightarrow>
           if replicas_or_zero ready < want \<or> replicas_or_zero avail < want
           then Some (fstr [name, '' (ready '', int_str (replicas_or_zero ready), ''/'', int_str want, '', avail '', int_str (replicas_or_zero avail), '')''])
           else None))"

definition unready_pod :: "LivePod \<Rightarrow> string option" where
  "unready_pod pod =
     (let name = (case lp_meta pod of Some m \<Rightarrow> opt_str (pm_name m) | None \<Rightarrow> ''None'') in
      if lp_phase pod \<noteq> Some ''Running'' then Some (fstr [''pod/'', name, '' ('', opt_str (lp_phase pod), '')''])
      else if lp_containers pod = [] \<or> \<not> list_all id (lp_containers pod)
      then Some (fstr [''pod/'', name, '' (containers unready)''])
      else None)"

text \<open>What is not ready: the deployments, or else the first pod; nothing when all are.\<close>

definition readiness_problems ::
    "(string \<times> int) list \<Rightarrow> (string \<times> string) list list \<Rightarrow> LiveDeployment list \<Rightarrow> LivePod list \<Rightarrow> string list" where
  "readiness_problems expected selectors deps pods =
     (let live = dict_of (List.map_filter (\<lambda>d. map_option (\<lambda>n. (n, d)) (ld_name d)) deps);
          unready = List.map_filter (unready_deployment live) expected in
      if unready \<noteq> [] then unready
      else take 1 (List.map_filter unready_pod (filter (is_expected_live_pod selectors) pods)))"

definition poll_error :: "string \<Rightarrow> string \<Rightarrow> PyExc + 'a" where
  "poll_error ns reason = fleet_error [''Error polling readiness in namespace '', squote ns, '': '', reason]"

definition poll_readiness ::
    "Fleet \<Rightarrow> string \<Rightarrow> (string \<times> int) list \<Rightarrow> (string \<times> string) list list \<Rightarrow> rat \<Rightarrow> rat \<Rightarrow> rat \<Rightarrow> unit \<Rightarrow> (unit + unit) fleet_act" where
  "poll_readiness fl ns expected selectors timeout interval start = (\<lambda>_.
     abind (acall_api (ListDeployments ns) (fl_list_deployments fl ns)) (\<lambda>ds.
     abind (acall_api (ListPods ns) (fl_list_pods fl ns)) (\<lambda>ps.
       case ds of
         Inl (status, reason) \<Rightarrow> alift (poll_error ns reason)
       | Inr deps \<Rightarrow> (case ps of
           Inl (status, reason) \<Rightarrow> alift (poll_error ns reason)
         | Inr pods \<Rightarrow>
             (let unready = readiness_problems expected selectors deps pods in
              if unready = [] then aret (Inl ())
              else abind (aask (fl_monotonic fl)) (\<lambda>now.
                if timeout \<le> now - start then
                  alift (fleet_error [''Twin environment '', squote ns, '' timed out waiting for readiness after '',
                    std_fixed (fl_std fl) 1 timeout, ''s. Unready workloads: ['', join '', '' unready, '']''])
                else abind (acall (FleetSleep interval) (fl_sleep fl interval)) (\<lambda>_. aret (Inr ()))))))))"

definition wait_for_readiness :: "nat \<Rightarrow> Fleet \<Rightarrow> Controller \<Rightarrow> string \<Rightarrow> Manifest list \<Rightarrow> unit fleet_act" where
  "wait_for_readiness fuel fl fc ns deps =
     (let expected = expected_deployments deps in
      if expected = [] then aret ()
      else abind (aask (fl_monotonic fl)) (\<lambda>start.
        aloop fuel (poll_readiness fl ns expected (expected_selectors deps) (fc_readiness_timeout fc)
          (max (1 / 1000) (fc_poll_interval fc)) start) ()))"

section \<open>Forking\<close>

definition fork_one_twin ::
    "nat \<Rightarrow> Fleet \<Rightarrow> Controller \<Rightarrow> DatabaseCloner \<Rightarrow> ClusterWorkloadSnapshot \<Rightarrow> string \<Rightarrow> int \<Rightarrow> TwinHandle fleet_act" where
  "fork_one_twin fuel fl fc dc snap incident idx =
     abind (dc_clone dc incident idx) (\<lambda>clone.
     abind (alift (render (fc_renderer fc) snap incident idx (Some (dr_database_name clone)))) (\<lambda>bundle.
     abind (aeach (apply_manifest fl (tb_namespace bundle)) (tb_manifests bundle)) (\<lambda>_.
     abind (confirm_k6_network_policy fl (tb_namespace bundle)) (\<lambda>_.
     abind (wait_for_readiness fuel fl fc (tb_namespace bundle) (deployment_manifests bundle)) (\<lambda>_.
     aask (\<lambda>h. \<lparr>twin_id = tb_twin_id bundle, twin_incident_id = incident, twin_candidate_index = idx,
       twin_namespace = tb_namespace bundle, twin_database = tb_database_name bundle,
       forked_from_snapshot_at = dr_forked_from_snapshot_at clone, ready_at = Some (fl_now fl h), twin_state = Ready\<rparr>))))))"

definition rollback_error :: "string \<Rightarrow> PyExc \<Rightarrow> PyExc" where
  "rollback_error incident first = (case first of
     Raised c t \<Rightarrow>
       if isinstance c ''FleetError'' then first
       else Raised ''FleetError'' (fstr [''Failed to fork twins for incident '', squote incident, '': '', t])
   | Cancelled b \<Rightarrow> first)"

definition rollback_partial_fork :: "Fleet \<Rightarrow> DatabaseCloner \<Rightarrow> string \<Rightarrow> PyExc \<Rightarrow> 'a fleet_act" where
  "rollback_partial_fork fl dc incident first =
     abind (acatch (abind (teardown_incident fl dc incident) (\<lambda>_. aret ())) (\<lambda>c t. aret ())) (\<lambda>_.
       araise (rollback_error incident first))"

definition failures :: "(PyExc + 'a) list \<Rightarrow> PyExc list" where
  "failures rs = List.map_filter (\<lambda>r. case r of Inl e \<Rightarrow> Some e | Inr _ \<Rightarrow> None) rs"

definition successes :: "(PyExc + 'a) list \<Rightarrow> 'a list" where
  "successes rs = List.map_filter (\<lambda>r. case r of Inl e \<Rightarrow> None | Inr x \<Rightarrow> Some x) rs"

definition fork_candidates ::
    "nat \<Rightarrow> Fleet \<Rightarrow> Controller \<Rightarrow> DatabaseCloner \<Rightarrow> string \<Rightarrow> int \<Rightarrow> ClusterWorkloadSnapshot \<Rightarrow> TwinHandle list fleet_act" where
  "fork_candidates fuel fl fc dc incident n snap =
     abind (amap (\<lambda>i. aattempt (fork_one_twin fuel fl fc dc snap incident i)) [0..n - 1]) (\<lambda>results.
       case failures results of
         first # rest \<Rightarrow> rollback_partial_fork fl dc incident first
       | [] \<Rightarrow> aret (sort_key twin_candidate_index (successes results)))"

definition fleet_fork :: "nat \<Rightarrow> Fleet \<Rightarrow> Controller \<Rightarrow> DatabaseCloner \<Rightarrow> string \<Rightarrow> int \<Rightarrow> TwinHandle list fleet_act" where
  "fleet_fork fuel fl fc dc incident n =
     (if py_strip incident = [] then alift (fleet_error [''Incident ID cannot be empty, got: '', squote incident])
      else if n < 1 then alift (fleet_error [''Twin count must be >= 1, got: '', int_str n])
      else abind (register_active_incident incident) (\<lambda>_.
        abind (acall (ReadWorkloads (fc_prod_namespace fc) [''database'']) (fl_read_workloads fl (fc_prod_namespace fc) [''database'']))
          (fork_candidates fuel fl fc dc incident n)))"

section \<open>What a fork has seen\<close>

text \<open>The call \<open>c\<close> was made, and \<open>P\<close> holds of the trace it was made in.\<close>

definition at_call :: "FleetCall trace \<Rightarrow> FleetCall \<Rightarrow> (FleetCall trace \<Rightarrow> bool) \<Rightarrow> bool" where
  "at_call h c P \<longleftrightarrow> (\<exists>k b l. h = k @ (c, b) # l \<and> P k)"

lemma at_call_mono: "at_call h c P \<Longrightarrow> grown Q h h' \<Longrightarrow> at_call h' c P"
  by (force simp: at_call_def grown_def)

lemma at_call_snoc: "P h \<Longrightarrow> at_call (h @ [(c, b)]) c P" "P h \<Longrightarrow> at_call (h @ [(c, b), e]) c P"
  by (auto simp: at_call_def)

lemma wp_grows: "wp m Q E h \<Longrightarrow> emits P m \<Longrightarrow> wp m (\<lambda>x h'. Q x h' \<and> grown P h h') E h"
  by (rule wpI; drule (1) wpD; simp add: grown_def) (blast dest: emitsD)

lemma wp_aloop:
  assumes "\<And>s h. wp (body s) (\<lambda>x. case x of Inl r \<Rightarrow> Q r | Inr s' \<Rightarrow> (\<lambda>_. True)) E h" "\<And>h. E out_of_fuel h"
  shows "wp (aloop n body s) Q E h"
proof (induction n arbitrary: s h)
  case (Suc n)
  show ?case by (simp, rule wp_mono, rule assms(1)) (use Suc in \<open>auto split: sum.splits\<close>)
qed (simp add: assms(2))

text \<open>The twin's egress policy was read and enforces egress.\<close>

definition contained :: "Fleet \<Rightarrow> string \<Rightarrow> FleetCall trace \<Rightarrow> bool" where
  "contained fl ns h \<longleftrightarrow> at_call h (ReadPolicy TWIN_POLICY_NAME ns) (\<lambda>k.
     \<exists>types. fl_read_policy fl TWIN_POLICY_NAME ns k = Inr (Some types) \<and> ''Egress'' \<in> set types)"

text \<open>A deployment of that name was seen with at least that many ready and available replicas.\<close>

definition seen_ready :: "Fleet \<Rightarrow> string \<Rightarrow> string \<Rightarrow> int \<Rightarrow> FleetCall trace \<Rightarrow> bool" where
  "seen_ready fl ns name want h \<longleftrightarrow> at_call h (ListDeployments ns) (\<lambda>k.
     \<exists>deps d ready avail. fl_list_deployments fl ns k = Inr deps \<and> d \<in> set deps \<and> ld_name d = Some name \<and>
       ld_status d = Some (ready, avail) \<and> want \<le> replicas_or_zero ready \<and> want \<le> replicas_or_zero avail)"

lemma confirm_wp: "wp (confirm_k6_network_policy fl ns) (\<lambda>_ h'. contained fl ns h') (\<lambda>_ _. True) h"
  by (auto simp: confirm_k6_network_policy_def contained_def fleet_error_def at_call_snoc Let_def
      split: sum.split ApiFault.split PyExc.split option.splits)

lemma map_filter_Nil_iff: "List.map_filter f xs = [] \<longleftrightarrow> (\<forall>x \<in> set xs. f x = None)"
  by (induction xs) (auto simp: map_filter_simps split: option.splits)

lemma set_map_filter: "set (List.map_filter f xs) = {y. \<exists>x \<in> set xs. f x = Some y}"
  by (induction xs) (auto simp: map_filter_simps split: option.splits)

lemma no_problems:
  assumes "readiness_problems expected sels deps pods = []" "(n, w) \<in> set expected"
  shows "\<exists>d \<in> set deps. \<exists>r a. ld_name d = Some n \<and> ld_status d = Some (r, a) \<and> w \<le> replicas_or_zero r \<and> w \<le> replicas_or_zero a"
proof -
  let ?kvs = "List.map_filter (\<lambda>d. map_option (\<lambda>n. (n, d)) (ld_name d)) deps"
  have "List.map_filter (unready_deployment (dict_of ?kvs)) expected = []"
    using assms(1) by (auto simp: readiness_problems_def Let_def split: if_splits)
  then have "unready_deployment (dict_of ?kvs) (n, w) = None" using assms(2) by (auto simp: map_filter_Nil_iff)
  then obtain d r a where d: "map_of (dict_of ?kvs) n = Some d" "ld_status d = Some (r, a)" "w \<le> replicas_or_zero r" "w \<le> replicas_or_zero a"
    by (auto simp: unready_deployment_def not_less split: option.splits if_splits)
  then have "(n, d) \<in> set ?kvs" by (auto simp: map_of_dict_of dest: map_of_SomeD)
  then have "d \<in> set deps" "ld_name d = Some n" by (auto simp: set_map_filter)
  then show ?thesis using d by blast
qed

lemma poll_wp:
  "wp (poll_readiness fl ns expected sels timeout interval start s)
     (\<lambda>x. case x of Inl _ \<Rightarrow> (\<lambda>h'. \<forall>(n, w) \<in> set expected. seen_ready fl ns n w h') | Inr _ \<Rightarrow> (\<lambda>_. True)) (\<lambda>_ _. True) h"
proof -
  have seen: "seen_ready fl ns n w (h @ [(ListDeployments ns, True), e])"
    if "fl_list_deployments fl ns h = Inr deps" "readiness_problems expected sels deps pods = []" "(n, w) \<in> set expected"
    for deps pods e n w
    using no_problems [OF that(2,3)] unfolding seen_ready_def by (intro at_call_snoc) (use that(1) in blast)
  show ?thesis
    unfolding poll_readiness_def Let_def
    by (simp add: poll_error_def fleet_error_def split: sum.split ApiFault.split prod.split) (auto intro: seen)
qed

lemma wait_wp:
  "wp (wait_for_readiness fuel fl fc ns deps)
     (\<lambda>_ h'. \<forall>(n, w) \<in> set (expected_deployments deps). seen_ready fl ns n w h') (\<lambda>_ _. True) h"
  unfolding wait_for_readiness_def Let_def
  by (simp, intro impI wp_aloop) (rule poll_wp, simp)

section \<open>The deployments expected are production's workloads\<close>

text \<open>The templates hold what their names say: a network policy, service accounts and role bindings.\<close>

definition sound_templates :: "Renderer \<Rightarrow> bool" where
  "sound_templates rn \<longleftrightarrow>
     (\<forall>ns m. rn_policy_template rn ns = Some m \<longrightarrow> mf_kind m = Some ''NetworkPolicy'') \<and>
     (\<forall>ns ds. rn_rbac_template rn ns = Some ds \<longrightarrow> (\<forall>m \<in> set ds. mf_kind m = Some ''ServiceAccount'' \<or> mf_kind m = Some ''RoleBinding''))"

lemma template_kinds:
  assumes "sound_templates rn"
  shows "mf_kind (render_network_policy rn ns inc idx) = Some ''NetworkPolicy''"
    "m \<in> set (render_rbac rn ns inc idx) \<Longrightarrow> mf_kind m = Some ''ServiceAccount'' \<or> mf_kind m = Some ''RoleBinding''"
proof -
  show "mf_kind (render_network_policy rn ns inc idx) = Some ''NetworkPolicy''"
    using assms by (auto simp: sound_templates_def render_network_policy_def with_twin_labels_def split: option.splits)
  assume m: "m \<in> set (render_rbac rn ns inc idx)"
  show "mf_kind m = Some ''ServiceAccount'' \<or> mf_kind m = Some ''RoleBinding''"
  proof (cases "rn_rbac_template rn ns")
    case (Some ds)
    then obtain d where "d \<in> set ds" "mf_kind m = mf_kind d" using m by (auto simp: render_rbac_def with_twin_labels_def)
    then show ?thesis using assms Some unfolding sound_templates_def by metis
  qed (use m in \<open>auto simp: render_rbac_def\<close>)
qed

lemma other_kinds:
  "mf_kind (render_namespace ns inc idx) = Some ''Namespace''"
  "m \<in> set (render_config_maps rn cms ns inc idx dsn known) \<Longrightarrow> mf_kind m = Some ''ConfigMap''"
  "m \<in> set (render_services wls ns inc idx) \<Longrightarrow> mf_kind m = Some ''Service''"
  by (auto simp: render_namespace_def render_config_maps_def render_services_def set_map_filter Let_def split: if_splits)

lemma render_deployment_shape:
  "render_deployment rn ns incident idx dsn known nwl = Inr m \<Longrightarrow>
   mf_kind m = Some ''Deployment'' \<and> deployed m = Some (fst nwl, wl_replicas (snd nwl))"
  by (auto simp: render_deployment_def result_simps deployed_def split: prod.splits)

lemma deployments_deployed:
  assumes "sound_templates rn" "render rn snap inc idx db = Inr b"
  shows "map deployed (deployment_manifests b) = map (Some \<circ> (\<lambda>(n, wl). (n, wl_replicas wl))) (sort_key fst (cw_workloads snap))"
  using assms(2)
proof (rule render_Inr)
  fix ns d ds
  assume ds: "mapE (render_deployment rn ns inc idx (twin_dsn rn d) (map fst (cw_workloads snap))) (sort_key fst (cw_workloads snap)) = Inr ds"
    and ms: "tb_manifests b = [render_namespace ns inc idx] @ render_rbac rn ns inc idx @ [render_network_policy rn ns inc idx] @
       render_config_maps rn (cw_config_maps snap) ns inc idx (twin_dsn rn d) (map fst (cw_workloads snap)) @
       render_services (cw_workloads snap) ns inc idx @ ds"
  have "\<forall>m \<in> set ds. mf_kind m = Some ''Deployment''" using mapE_set [OF ds] render_deployment_shape by blast
  moreover have "filter (\<lambda>m. mf_kind m = Some ''Deployment'') (render_rbac rn ns inc idx) = []"
    using template_kinds(2) [OF assms(1)] by (fastforce simp: filter_empty_conv)
  ultimately have "deployment_manifests b = ds"
    using template_kinds(1) [OF assms(1)] other_kinds
    by (auto simp: deployment_manifests_def ms filter_empty_conv intro: filter_True)
  moreover have "map deployed ds = map (Some \<circ> (\<lambda>(n, wl). (n, wl_replicas wl))) (sort_key fst (cw_workloads snap))"
    by (rule mapE_map [OF ds]) (auto dest: render_deployment_shape)
  ultimately show ?thesis by simp
qed

lemma map_of_rev_distinct: "distinct (map fst xs) \<Longrightarrow> (k, v) \<in> set xs \<Longrightarrow> map_of (rev xs) k = Some v"
  by (rule map_of_is_SomeI) (simp_all add: rev_map [symmetric])

lemma expected_in:
  assumes "sound_templates rn" "render rn snap inc idx db = Inr b" "distinct (map fst (cw_workloads snap))"
    and "(n, wl) \<in> set (cw_workloads snap)" "n \<noteq> []"
  shows "(n, wl_replicas wl) \<in> set (expected_deployments (deployment_manifests b))"
proof -
  let ?ds = "deployment_manifests b"
  let ?g = "\<lambda>m. case mf_name m of Some (c # cs) \<Rightarrow> Some (c # cs, case mf_body m of DeploymentBody n sel t \<Rightarrow> n | _ \<Rightarrow> 1) | _ \<Rightarrow> None"
  let ?ws = "map (\<lambda>(n, wl). (n, wl_replicas wl)) (sort_key fst (cw_workloads snap))"
  have ds: "map deployed ?ds = map (Some \<circ> (\<lambda>(n, wl). (n, wl_replicas wl))) (sort_key fst (cw_workloads snap))"
    by (rule deployments_deployed [OF assms(1,2)])
  have g: "?g m = (case deployed m of Some (n, r) \<Rightarrow> if n = [] then None else Some (n, r) | None \<Rightarrow> None)" if "deployed m \<noteq> None" for m
    using that by (auto simp: deployed_def split: option.splits ManifestBody.splits list.splits)
  have "List.map_filter ?g ms = filter (\<lambda>nr. fst nr \<noteq> []) ws" if "map deployed ms = map Some ws" for ms ws
    using that
  proof (induction ms arbitrary: ws)
    case (Cons m ms)
    then obtain w ws' where "ws = w # ws'" "deployed m = Some w" "map deployed ms = map Some ws'" by (cases ws) auto
    then show ?case using Cons.IH [of ws'] g [of m] by (cases w) (simp add: map_filter_simps)
  qed (simp add: map_filter_simps)
  then have "List.map_filter ?g ?ds = filter (\<lambda>nr. fst nr \<noteq> []) ?ws" using ds by simp
  then have exp: "expected_deployments ?ds = dict_of (filter (\<lambda>nr. fst nr \<noteq> []) ?ws)" by (simp add: expected_deployments_def)
  have "map fst ?ws = map fst (sort_key fst (cw_workloads snap))" by auto
  moreover have "distinct (map fst (sort_key fst (cw_workloads snap)))" using assms(3) by (simp add: distinct_map)
  ultimately have "distinct (map fst ?ws)" by (simp only:)
  then have d: "distinct (map fst (filter (\<lambda>nr. fst nr \<noteq> []) ?ws))" by (rule distinct_map_filter)
  have "(n, wl_replicas wl) \<in> set (filter (\<lambda>nr. fst nr \<noteq> []) ?ws)" using assms(4,5) by force
  from map_of_rev_distinct [OF d this]
  have "map_of (dict_of (filter (\<lambda>nr. fst nr \<noteq> []) ?ws)) n = Some (wl_replicas wl)" by (simp add: map_of_dict_of)
  then show ?thesis unfolding exp by (rule map_of_SomeD)
qed


section \<open>Ready twins\<close>

definition ready_twin :: "Fleet \<Rightarrow> Controller \<Rightarrow> ClusterWorkloadSnapshot \<Rightarrow> string \<Rightarrow> FleetCall trace \<Rightarrow> int \<Rightarrow> TwinHandle \<Rightarrow> bool" where
  "ready_twin fl fc snap incident h idx t \<longleftrightarrow>
     twin_candidate_index t = idx \<and> twin_incident_id t = incident \<and> twin_state t = Ready \<and>
     build_twin_namespace (rn_twin_prefix (fc_renderer fc)) incident idx = Inr (twin_namespace t) \<and>
     sanitize_database_name incident idx = Inr (twin_database t) \<and>
     contained fl (twin_namespace t) h \<and>
     (\<forall>(n, wl) \<in> set (cw_workloads snap). n \<noteq> [] \<longrightarrow> seen_ready fl (twin_namespace t) n (wl_replicas wl) h)"

lemma clone_name_wp:
  "wp (clone_twin_database fl pc inc idx) (\<lambda>res _. sanitize_database_name inc idx = Inr (dr_database_name res)) (\<lambda>_ _. True) h"
proof (cases "sanitize_database_name inc idx")
  case (Inl e)
  then show ?thesis by (simp add: clone_twin_database_def)
next
  case (Inr db)
  have "wp m (\<lambda>_ _. True) (\<lambda>_ _. True) h" for m :: "'a fleet_act" and h by (auto simp: wp_def split: prod.split sum.split)
  then show ?thesis using Inr
    by (simp add: clone_twin_database_def validate_db_name_def run_sql_def fleet_error_def split: sum.split prod.split)
       (auto simp: wp_def split: prod.split sum.split)
qed

text \<open>Which calls the steps of a fork and of a tear-down make.\<close>

definition placed_in :: "FleetCall \<Rightarrow> (string \<times> Manifest) option" where
  "placed_in c = (case c of CreateObject (Some ns) m \<Rightarrow> Some (ns, m) | ReplaceObject name ns m \<Rightarrow> Some (ns, m) | _ \<Rightarrow> None)"

lemma placed_in_other [simp]:
  "placed_in (RunSql db sqls) = None" "placed_in (RunPipeline s) = None" "placed_in (FleetSleep d) = None"
  "placed_in (DeleteNamespace ns) = None" "placed_in (UnregisterIncident i) = None" "placed_in (ListNamespaces l) = None"
  "placed_in (ReadPolicy n ns) = None" "placed_in (ListDeployments ns) = None" "placed_in (ListPods ns) = None"
  "placed_in (RegisterIncident i) = None" "placed_in (ReadWorkloads ns xs) = None"
  by (simp_all add: placed_in_def)

lemma emits_apply: "emits (\<lambda>_. True) (apply_manifest fl ns m)"
  unfolding apply_manifest_def apply_kind_def apply_object_def Let_def by (intro emits_intros) simp_all

lemma emits_confirm: "emits (\<lambda>c. placed_in c = None) (confirm_k6_network_policy fl ns)"
  unfolding confirm_k6_network_policy_def Let_def by (intro emits_intros) simp_all

lemma emits_wait: "emits (\<lambda>c. placed_in c = None) (wait_for_readiness fuel fl fc ns deps)"
  unfolding wait_for_readiness_def poll_readiness_def Let_def by (intro emits_intros) simp_all

lemma emits_sql: "emits (\<lambda>c. placed_in c = None) (run_sql fl sqls)"
  unfolding run_sql_def by (intro emits_intros) simp

lemma emits_clone: "emits (\<lambda>c. placed_in c = None) (clone_twin_database fl pc inc idx)"
proof -
  have "emits (\<lambda>c. placed_in c = None) (clone_attempts fl pc db n attempt e)" for db n attempt e
    by (induction n arbitrary: attempt e)
       (auto intro!: emits_intros emits_sql simp: terminate_connections_def Let_def)
  then show ?thesis
    unfolding clone_twin_database_def by (intro emits_intros emits_sql)
qed

lemma emits_drop_all: "emits (\<lambda>c. placed_in c = None) (drop_all_incident_databases fl inc)"
  unfolding drop_all_incident_databases_def drop_step_def drop_twin_database_def terminate_connections_def list_twin_databases_def
  by (intro emits_intros emits_sql)

lemma emits_teardown: "emits (\<lambda>c. placed_in c = None) (teardown_incident fl (postgres_cloner fl pc) inc)"
proof -
  have dc: "dc_drop_all (postgres_cloner fl pc) = drop_all_incident_databases fl" by (simp add: postgres_cloner_def)
  show ?thesis
    unfolding teardown_incident_def delete_step_def delete_or_fail_def delete_namespace_def unregister_active_incident_def Let_def dc
    by (intro emits_intros emits_drop_all) simp_all
qed

lemma emits_fork_one: "emits (\<lambda>_. True) (fork_one_twin fuel fl fc (postgres_cloner fl pc) snap inc idx)"
proof -
  note top = emits_mono [where Q = "\<lambda>_. True"]
  show ?thesis
    unfolding fork_one_twin_def
    by (simp add: postgres_cloner_def) (intro emits_intros top [OF emits_clone] emits_apply top [OF emits_confirm] top [OF emits_wait] TrueI)
qed

lemma contained_grown: "contained fl ns h \<Longrightarrow> grown Q h h' \<Longrightarrow> contained fl ns h'"
  unfolding contained_def by (rule at_call_mono)

lemma seen_ready_grown: "seen_ready fl ns n w h \<Longrightarrow> grown Q h h' \<Longrightarrow> seen_ready fl ns n w h'"
  unfolding seen_ready_def by (rule at_call_mono)

lemma ready_twin_grown: "ready_twin fl fc snap inc h idx t \<Longrightarrow> grown Q h h' \<Longrightarrow> ready_twin fl fc snap inc h' idx t"
  unfolding ready_twin_def by (auto intro: contained_grown seen_ready_grown)

lemma render_names:
  "render rn snap inc idx (Some db) = Inr b \<Longrightarrow> build_twin_namespace (rn_twin_prefix rn) inc idx = Inr (tb_namespace b) \<and>
     (db \<noteq> [] \<longrightarrow> tb_database_name b = db)"
  by (auto simp: render_def fleet_error_def Let_def result_simps split: if_splits list.splits)

lemma fork_one_wp:
  assumes "sound_templates (fc_renderer fc)" "distinct (map fst (cw_workloads snap))"
  shows "wp (fork_one_twin fuel fl fc (postgres_cloner fl pc) snap inc idx)
    (\<lambda>t h'. ready_twin fl fc snap inc h' idx t) (\<lambda>_ _. True) h"
proof (rule wpI)
  fix t h'
  assume "fork_one_twin fuel fl fc (postgres_cloner fl pc) snap inc idx h = (Inr t, h')"
  then obtain res h1 b h2 h3 where clone: "clone_twin_database fl pc inc idx h = (Inr res, h1)"
    and b: "render (fc_renderer fc) snap inc idx (Some (dr_database_name res)) = Inr b"
    and k6: "confirm_k6_network_policy fl (tb_namespace b) h2 = (Inr (), h3)"
    and wait: "wait_for_readiness fuel fl fc (tb_namespace b) (deployment_manifests b) h3 = (Inr (), h')"
    and t: "twin_candidate_index t = idx" "twin_incident_id t = inc" "twin_state t = Ready" "twin_namespace t = tb_namespace b"
      "twin_database t = tb_database_name b"
    by (auto simp: fork_one_twin_def postgres_cloner_def act_simps eq_commute [of "Inr _" "render _ _ _ _ _"])
  have db: "sanitize_database_name inc idx = Inr (dr_database_name res)" using wpD [OF clone_name_wp clone] by simp
  then have "dr_database_name res \<noteq> []" using sanitized_database(1) by fastforce
  then have names: "build_twin_namespace (rn_twin_prefix (fc_renderer fc)) inc idx = Inr (tb_namespace b)"
    "tb_database_name b = dr_database_name res" using render_names [OF b] by auto
  have "contained fl (tb_namespace b) h3" using wpD [OF confirm_wp k6] by simp
  moreover have "grown (\<lambda>c. placed_in c = None) h3 h'" using wpD [OF wp_emits [OF emits_wait] wait] by (simp add: grown_def)
  ultimately have "contained fl (tb_namespace b) h'" by (rule contained_grown)
  moreover have "seen_ready fl (tb_namespace b) n (wl_replicas wl) h'" if "(n, wl) \<in> set (cw_workloads snap)" "n \<noteq> []" for n wl
    using wpD [OF wait_wp wait] expected_in [OF assms(1) b assms(2) that] by auto
  ultimately show "ready_twin fl fc snap inc h' idx t" using t names db by (auto simp: ready_twin_def)
qed simp

text \<open>The results of all candidates.\<close>

lemma fork_all_wp:
  assumes "sound_templates (fc_renderer fc)" "distinct (map fst (cw_workloads snap))"
  shows "wp (amap (\<lambda>i. aattempt (fork_one_twin fuel fl fc (postgres_cloner fl pc) snap inc i)) idxs)
    (\<lambda>rs h'. list_all2 (\<lambda>i r. \<forall>t. r = Inr t \<longrightarrow> ready_twin fl fc snap inc h' i t) idxs rs) (\<lambda>_ _. True) h"
proof (induction idxs arbitrary: h)
  case (Cons i idxs)
  let ?one = "fork_one_twin fuel fl fc (postgres_cloner fl pc) snap inc i"
  let ?all = "amap (\<lambda>i. aattempt (fork_one_twin fuel fl fc (postgres_cloner fl pc) snap inc i)) idxs"
  have all: "emits (\<lambda>_. True) ?all" by (intro emits_intros emits_fork_one)
  have later: "wp ?all (\<lambda>rs h'. ready_twin fl fc snap inc h' i t \<and>
      list_all2 (\<lambda>i r. \<forall>t. r = Inr t \<longrightarrow> ready_twin fl fc snap inc h' i t) idxs rs) (\<lambda>_ _. True) h1"
    if "ready_twin fl fc snap inc h1 i t" for t h1
    using wp_grows [OF Cons.IH all] by (rule wp_mono) (use that ready_twin_grown in auto)
  show ?case
    by (simp, rule wp_mono [OF fork_one_wp [OF assms]])
       (auto split: PyExc.split intro!: later Cons.IH)
qed simp

lemma successes_all: "failures rs = [] \<Longrightarrow> rs = map Inr (successes rs)"
  by (induction rs) (auto simp: failures_def successes_def map_filter_simps split: sum.splits)


section \<open>A successful fork\<close>

text \<open>Workloads are keyed by their names.\<close>

definition keyed_workloads :: "Fleet \<Rightarrow> bool" where
  "keyed_workloads fl \<longleftrightarrow> (\<forall>ns l h snap. fl_read_workloads fl ns l h = Inr snap \<longrightarrow> distinct (map fst (cw_workloads snap)))"

lemma ready_twins_sorted:
  assumes "list_all2 (\<lambda>i r. \<forall>t. r = Inr t \<longrightarrow> ready_twin fl fc snap inc h i t) [0..n - 1] rs" "failures rs = []"
  shows "list_all2 (ready_twin fl fc snap inc h) [0..n - 1] (sort_key twin_candidate_index (successes rs))"
proof -
  have rs: "rs = map Inr (successes rs)" by (rule successes_all [OF assms(2)])
  have all: "list_all2 (ready_twin fl fc snap inc h) [0..n - 1] (successes rs)"
    using assms(1) by (subst (asm) rs) (simp add: list_all2_map2)
  then have "list_all2 (\<lambda>i t. i = twin_candidate_index t) [0..n - 1] (successes rs)"
    by (rule list_all2_mono) (simp add: ready_twin_def)
  then have "map twin_candidate_index (successes rs) = [0..n - 1]"
    by (metis (mono_tags, lifting) list.rel_eq list.rel_map(2) list.rel_mono_strong)
  then have "sort_key twin_candidate_index (successes rs) = successes rs" by (intro sort_key_id_if_sorted) simp
  then show ?thesis using all by simp
qed

section \<open>Deployments come after the policy\<close>

definition guarded :: "FleetCall trace \<Rightarrow> string \<Rightarrow> bool" where
  "guarded h ns \<longleftrightarrow> (\<exists>c m. (c, True) \<in> set h \<and> placed_in c = Some (ns, m) \<and> mf_kind m = Some ''NetworkPolicy'')"

definition deploys :: "FleetCall \<Rightarrow> string \<Rightarrow> bool" where
  "deploys c ns = (case placed_in c of Some (ns', m) \<Rightarrow> ns' = ns \<and> mf_kind m = Some ''Deployment'' | None \<Rightarrow> False)"

lemma deploys_iff: "deploys c ns \<longleftrightarrow> (\<exists>m. placed_in c = Some (ns, m) \<and> mf_kind m = Some ''Deployment'')"
  by (auto simp: deploys_def split: option.splits)

definition policed :: "FleetCall trace \<Rightarrow> bool" where
  "policed h \<longleftrightarrow> (\<forall>k c b l ns. h = k @ (c, b) # l \<longrightarrow> deploys c ns \<longrightarrow> guarded k ns)"

lemma policed_Nil [simp]: "policed []"
  by (simp add: policed_def)

lemma policed_snoc [simp]: "policed (h @ [(c, b)]) \<longleftrightarrow> policed h \<and> (\<forall>ns. deploys c ns \<longrightarrow> guarded h ns)"
proof
  assume *: "policed (h @ [(c, b)])"
  show "policed h \<and> (\<forall>ns. deploys c ns \<longrightarrow> guarded h ns)"
    unfolding policed_def by (intro conjI allI impI; use * in \<open>force simp: policed_def\<close>)
next
  assume *: "policed h \<and> (\<forall>ns. deploys c ns \<longrightarrow> guarded h ns)"
  show "policed (h @ [(c, b)])"
    unfolding policed_def
  proof (intro allI impI)
    fix k c' b' l ns
    assume "h @ [(c, b)] = k @ (c', b') # l" "deploys c' ns"
    then show "guarded k ns" using * by (cases l rule: rev_cases) (auto simp: policed_def)
  qed
qed

lemma guarded_snoc [simp]:
  "guarded (h @ [(c, b)]) ns \<longleftrightarrow> guarded h ns \<or> b \<and> (\<exists>m. placed_in c = Some (ns, m) \<and> mf_kind m = Some ''NetworkPolicy'')"
  by (auto simp: guarded_def)

lemma policed_snoc2: "policed (h @ [e, (c, b)]) \<longleftrightarrow> policed (h @ [e]) \<and> (\<forall>ns. deploys c ns \<longrightarrow> guarded (h @ [e]) ns)"
  using policed_snoc [of "h @ [e]"] by simp

lemma guarded_snoc2:
  "guarded (h @ [e, (c, b)]) ns \<longleftrightarrow>
     guarded (h @ [e]) ns \<or> b \<and> (\<exists>m. placed_in c = Some (ns, m) \<and> mf_kind m = Some ''NetworkPolicy'')"
  using guarded_snoc [of "h @ [e]"] by simp

lemma policed_append: "policed h \<Longrightarrow> (\<And>e. e \<in> set k \<Longrightarrow> placed_in (fst e) = None) \<Longrightarrow> policed (h @ k)"
proof (induction k rule: rev_induct)
  case (snoc e k)
  have "placed_in (fst e) = None" using snoc.prems by simp
  then show ?case using snoc by (cases e) (simp add: deploys_iff flip: append_assoc)
qed simp

lemma guarded_append: "guarded h ns \<Longrightarrow> guarded (h @ k) ns"
  by (auto simp: guarded_def)

text \<open>Code that places nothing.\<close>

abbreviation policed_at :: "string \<Rightarrow> bool \<Rightarrow> FleetCall trace \<Rightarrow> bool" where
  "policed_at ns g h \<equiv> policed h \<and> (g \<longrightarrow> guarded h ns)"

lemma wp_places_nothing:
  assumes "emits (\<lambda>c. placed_in c = None) m" "policed_at ns g h"
  shows "wp m (\<lambda>_. policed_at ns g) (\<lambda>_. policed) h"
  by (rule wp_mono [OF wp_emits [OF assms(1)]]) (use assms(2) in \<open>auto intro: policed_append guarded_append\<close>)

lemma apply_object_policed:
  assumes "policed h" "mf_kind m = Some ''Deployment'' \<longrightarrow> guarded h ns"
    "scope = None \<and> rep = None \<or> scope = Some ns" "mf_kind m = Some ''NetworkPolicy'' \<longrightarrow> rep \<noteq> None"
  shows "wp (apply_object fl scope rep ns m) (\<lambda>r. case r of Inl _ \<Rightarrow> policed
      | Inr _ \<Rightarrow> policed_at ns (guarded h ns \<or> mf_kind m = Some ''NetworkPolicy'')) (\<lambda>_. policed) h"
proof -
  have p: "placed_in (CreateObject sc m) = map_option (\<lambda>s. (s, m)) sc" "placed_in (ReplaceObject name ns m) = Some (ns, m)" for name sc
    by (simp_all add: placed_in_def split: option.split)
  have d: "deploys (CreateObject (Some ns) m) s \<Longrightarrow> guarded h s" "\<not> deploys (CreateObject None m) s"
    "deploys (ReplaceObject name ns m) s \<Longrightarrow> guarded h s" for s name
    using assms(2) by (auto simp: deploys_iff p)
  show ?thesis
    unfolding apply_object_def using assms
    by (cases scope; cases rep) (auto simp: p d policed_snoc2 guarded_snoc2 split: sum.split ApiFault.split)
qed

lemma wp_if: "(b \<Longrightarrow> wp m Q E h) \<Longrightarrow> (\<not> b \<Longrightarrow> wp n Q E h) \<Longrightarrow> wp (if b then m else n) Q E h"
  by simp

lemma apply_kind_policed:
  assumes "policed h" "mf_kind m = Some ''Deployment'' \<longrightarrow> guarded h ns"
  shows "wp (apply_kind fl ns m) (\<lambda>r. case r of Inl _ \<Rightarrow> policed
      | Inr _ \<Rightarrow> policed_at ns (guarded h ns \<or> mf_kind m = Some ''NetworkPolicy'')) (\<lambda>_. policed) h"
  unfolding apply_kind_def Let_def fleet_error_def
  by (intro wp_if) ((rule apply_object_policed; use assms in auto)+, simp add: assms(1))

lemma apply_policed:
  assumes "policed h" "mf_kind m = Some ''Deployment'' \<longrightarrow> guarded h ns"
  shows "wp (apply_manifest fl ns m)
    (\<lambda>_. policed_at ns (guarded h ns \<or> mf_kind m = Some ''NetworkPolicy'')) (\<lambda>_. policed) h"
  unfolding apply_manifest_def Let_def fleet_error_def
  by (simp, rule wp_mono [OF apply_kind_policed [OF assms]]) (auto split: sum.split PyExc.split)


text \<open>Manifests that hold a policy before their first deployment.\<close>

fun policy_first :: "bool \<Rightarrow> Manifest list \<Rightarrow> bool" where
  "policy_first g [] = True"
| "policy_first g (m # ms) \<longleftrightarrow>
     (mf_kind m = Some ''Deployment'' \<longrightarrow> g) \<and> policy_first (g \<or> mf_kind m = Some ''NetworkPolicy'') ms"

lemma policy_first_no_deployment:
  "\<forall>m \<in> set ms. mf_kind m \<noteq> Some ''Deployment'' \<Longrightarrow> policy_first g (ms @ ms') \<longleftrightarrow>
     policy_first (g \<or> (\<exists>m \<in> set ms. mf_kind m = Some ''NetworkPolicy'')) ms'"
  by (induction ms arbitrary: g) auto

lemma policy_first_True [simp]: "policy_first True ms"
  by (induction ms) auto

lemma render_policy_first:
  assumes "sound_templates rn" "render rn snap inc idx db = Inr b"
  shows "policy_first False (tb_manifests b)"
proof (rule render_Inr [OF assms(2)])
  fix ns d ds
  assume ms: "tb_manifests b = [render_namespace ns inc idx] @ render_rbac rn ns inc idx @ [render_network_policy rn ns inc idx] @
       render_config_maps rn (cw_config_maps snap) ns inc idx (twin_dsn rn d) (map fst (cw_workloads snap)) @
       render_services (cw_workloads snap) ns inc idx @ ds"
  have "\<forall>m \<in> set (render_rbac rn ns inc idx). mf_kind m \<noteq> Some ''Deployment''" using template_kinds(2) [OF assms(1)] by fastforce
  then show ?thesis
    unfolding ms using template_kinds(1) [OF assms(1)] other_kinds(1) by (simp add: policy_first_no_deployment)
qed

lemma manifests_policed:
  "policed_at ns g h \<Longrightarrow> policy_first g ms \<Longrightarrow>
   wp (aeach (apply_manifest fl ns) ms) (\<lambda>_. policed) (\<lambda>_. policed) h"
proof (induction ms arbitrary: g h)
  case (Cons m ms)
  have "wp (apply_manifest fl ns m) (\<lambda>_. policed_at ns (guarded h ns \<or> mf_kind m = Some ''NetworkPolicy'')) (\<lambda>_. policed) h"
    using Cons.prems by (intro apply_policed) auto
  then show ?case
  proof (simp, elim wp_mono, goal_cases)
    case (1 x h1)
    then show ?case using Cons.prems by (intro Cons.IH [where g = "g \<or> mf_kind m = Some ''NetworkPolicy''"]) auto
  qed simp
qed simp

lemma fork_one_policed:
  assumes "sound_templates (fc_renderer fc)" "policed h"
  shows "wp (fork_one_twin fuel fl fc (postgres_cloner fl pc) snap inc idx) (\<lambda>_. policed) (\<lambda>_. policed) h"
proof -
  note quiet = wp_places_nothing [where g = False, simplified]
  have rest: "wp (abind (confirm_k6_network_policy fl ns) (\<lambda>_. abind (wait_for_readiness fuel fl fc ns deps) (\<lambda>_. aask f)))
      (\<lambda>_. policed) (\<lambda>_. policed) h1" if "policed h1" for ns deps f h1
    by (simp, rule wp_mono [OF quiet [OF emits_confirm that]], rule wp_mono [OF quiet [OF emits_wait]]) simp_all
  have each: "wp (aeach (apply_manifest fl (tb_namespace b)) (tb_manifests b)) (\<lambda>_. policed) (\<lambda>_. policed) h1"
    if "policed h1" "render (fc_renderer fc) snap inc idx db = Inr b" for h1 db b
    by (rule manifests_policed [where g = False]) (simp_all add: that render_policy_first [OF assms(1) that(2)])
  show ?thesis
    unfolding fork_one_twin_def postgres_cloner_def
    apply simp
    apply (rule wp_mono [OF quiet [OF emits_clone assms(2)]])
    apply (auto split: sum.split intro!: wp_mono [OF each] rest [unfolded wp_abind wp_aask])
    done
qed


lemma fork_quiet:
  "emits (\<lambda>c. placed_in c = None) (rollback_partial_fork fl (postgres_cloner fl pc) inc e)"
  unfolding rollback_partial_fork_def by (intro emits_intros emits_teardown)

lemma fork_policed:
  assumes "sound_templates (fc_renderer fc)" "policed h"
  shows "wp (fleet_fork fuel fl fc (postgres_cloner fl pc) inc n) (\<lambda>_. policed) (\<lambda>_. policed) h"
proof -
  note quiet = wp_places_nothing [where g = False, simplified]
  have one: "wp (aattempt (fork_one_twin fuel fl fc (postgres_cloner fl pc) snap inc i)) (\<lambda>_. policed) (\<lambda>_. policed) h1"
    if "policed h1" for snap i h1
    by (simp, rule wp_mono [OF fork_one_policed [OF assms(1) that]]) (auto split: PyExc.split)
  have all: "wp (amap (\<lambda>i. aattempt (fork_one_twin fuel fl fc (postgres_cloner fl pc) snap inc i)) is)
      (\<lambda>_. policed) (\<lambda>_. policed) h1" if "policed h1" for snap "is" h1
    by (rule wp_mono [OF wp_amap [where R = "\<lambda>_ _. True" and I = policed]]) (use one that in auto)
  have rest: "wp (case failures rs of first # rest \<Rightarrow> rollback_partial_fork fl (postgres_cloner fl pc) inc first
        | [] \<Rightarrow> aret (sort_key twin_candidate_index (successes rs))) (\<lambda>_. policed) (\<lambda>_. policed) h1"
    if "policed h1" for rs h1
    using quiet [OF fork_quiet that] that by (cases "failures rs") auto
  have "wp (fork_candidates fuel fl fc (postgres_cloner fl pc) inc n snap) (\<lambda>_. policed) (\<lambda>_. policed) h1" if "policed h1" for snap h1
    unfolding fork_candidates_def wp_abind by (rule wp_mono [OF all [OF that]]) (use rest in auto)
  then show ?thesis
    using assms(2)
    by (auto simp: fleet_fork_def fleet_error_def register_active_incident_def deploys_iff policed_snoc2 split: sum.split)
qed

lemma list_case_act:
  "(case xs of [] \<Rightarrow> m | x # r \<Rightarrow> f x r) h = out \<longleftrightarrow> (xs = [] \<and> m h = out) \<or> (\<exists>x r. xs = x # r \<and> f x r h = out)"
  by (cases xs) auto

lemma rollback_fails [simp]: "rollback_partial_fork fl dc inc e h \<noteq> (Inr x, h')"
  by (auto simp: rollback_partial_fork_def act_simps)

lemma rollback_raises:
  assumes "rollback_partial_fork fl dc inc first h = (Inl e, h')" "\<not> cancelled (Inl e :: PyExc + unit)"
  shows "(\<exists>x. teardown_incident fl dc inc h = (x, h')) \<and> (\<exists>c t. e = Raised c t \<and> isinstance c ''FleetError'')"
proof -
  let ?down = "acatch (abind (teardown_incident fl dc inc) (\<lambda>_. aret ())) (\<lambda>c t. aret ())"
  obtain c t where e: "e = Raised c t" using assms(2) by (cases e) auto
  have "?down h \<noteq> (Inl (Raised c t), h')"
    by (auto simp: acatch_def aret_def split: prod.splits sum.splits PyExc.splits)
  then obtain h1 where down: "?down h = (Inr (), h1)" and last: "e = rollback_error inc first" "h1 = h'"
    using assms(1) unfolding rollback_partial_fork_def e abind_Inl_iff araise_iff by auto
  have "\<exists>x. teardown_incident fl dc inc h = (x, h')" using down last(2) by (auto simp: act_simps)
  moreover have "isinstance ''FleetError'' ''FleetError''" by code_simp
  then have "isinstance c ''FleetError''"
    using last(1) unfolding e by (cases first) (auto simp: rollback_error_def split: if_splits)
  ultimately show ?thesis using e by blast
qed

lemma attempts_only_cancelled:
  "amap (\<lambda>i. aattempt (f i)) xs h = (Inl e, h') \<Longrightarrow> \<exists>b. e = Cancelled b"
  by (induction xs arbitrary: h) (auto simp: act_simps aattempt_def split: prod.splits sum.splits PyExc.splits)

lemma candidates_fail:
  assumes "fork_candidates fuel fl fc dc inc n snap h = (Inl e, h')" "\<not> cancelled (Inl e :: PyExc + unit)"
  shows "(\<exists>h1 x. teardown_incident fl dc inc h1 = (x, h')) \<and> (\<exists>c t. e = Raised c t \<and> isinstance c ''FleetError'')"
proof -
  have "amap (\<lambda>i. aattempt (fork_one_twin fuel fl fc dc snap inc i)) [0..n - 1] h \<noteq> (Inl e, h')"
    using attempts_only_cancelled assms(2) by fastforce
  then obtain rs :: "(PyExc + TwinHandle) list" and h1 where "(case failures rs of first # rest \<Rightarrow> rollback_partial_fork fl dc inc first
        | [] \<Rightarrow> aret (sort_key twin_candidate_index (successes rs))) h1 = (Inl e, h')"
    using assms(1) unfolding fork_candidates_def abind_Inl_iff by blast
  then obtain first where "rollback_partial_fork fl dc inc first h1 = (Inl e :: PyExc + TwinHandle list, h')"
    unfolding list_case_act aret_iff by auto
  from rollback_raises [OF this assms(2)] show ?thesis by blast
qed

lemma candidates_wp:
  assumes "sound_templates (fc_renderer fc)" "distinct (map fst (cw_workloads snap))"
  shows "wp (fork_candidates fuel fl fc (postgres_cloner fl pc) inc n snap)
    (\<lambda>twins h'. list_all2 (ready_twin fl fc snap inc h') [0..n - 1] twins) (\<lambda>_ _. True) h"
proof -
  have "wp (case failures rs of first # rest \<Rightarrow> rollback_partial_fork fl (postgres_cloner fl pc) inc first
        | [] \<Rightarrow> aret (sort_key twin_candidate_index (successes rs)))
      (\<lambda>twins h'. list_all2 (ready_twin fl fc snap inc h') [0..n - 1] twins) (\<lambda>_ _. True) h1"
    if "list_all2 (\<lambda>i r. \<forall>t. r = Inr t \<longrightarrow> ready_twin fl fc snap inc h1 i t) [0..n - 1] rs" for rs h1
  proof (cases "failures rs")
    case (Cons first rest)
    then show ?thesis by (intro wpI) simp_all
  qed (simp add: ready_twins_sorted [OF that])
  then show ?thesis
    unfolding fork_candidates_def wp_abind by (intro wp_mono [OF fork_all_wp [OF assms]]) simp_all
qed

lemma candidates_emit: "emits (\<lambda>_. True) (fork_candidates fuel fl fc (postgres_cloner fl pc) inc n snap)"
proof -
  have "emits (\<lambda>_. True) (rollback_partial_fork fl (postgres_cloner fl pc) inc e)" for e
    by (rule emits_mono [OF fork_quiet]) simp
  then show ?thesis
    unfolding fork_candidates_def
    by (intro emits_intros emits_fork_one) (auto split: list.split intro: emits_intros)
qed

lemma fork_ready_wp:
  assumes "sound_templates (fc_renderer fc)" "keyed_workloads fl"
  shows "wp (fleet_fork fuel fl fc (postgres_cloner fl pc) inc n)
    (\<lambda>twins h'. at_call h' (ReadWorkloads (fc_prod_namespace fc) [''database'']) (\<lambda>k.
       \<exists>snap. fl_read_workloads fl (fc_prod_namespace fc) [''database''] k = Inr snap \<and>
         list_all2 (ready_twin fl fc snap inc h') [0..n - 1] twins)) (\<lambda>_ _. True) h"
proof -
  let ?read = "fl_read_workloads fl (fc_prod_namespace fc) [''database'']"
  let ?call = "ReadWorkloads (fc_prod_namespace fc) [''database'']"
  have "wp (fork_candidates fuel fl fc (postgres_cloner fl pc) inc n snap)
      (\<lambda>twins h'. at_call h' ?call (\<lambda>k. \<exists>snap. ?read k = Inr snap \<and> list_all2 (ready_twin fl fc snap inc h') [0..n - 1] twins))
      (\<lambda>_ _. True) (h1 @ [(?call, True)])" if read: "?read h1 = Inr snap" for h1 snap
  proof (rule wp_mono [OF wp_grows [OF candidates_wp [OF assms(1)] candidates_emit]])
    show "distinct (map fst (cw_workloads snap))" using assms(2) read by (auto simp: keyed_workloads_def)
    fix twins h'
    let ?P = "\<lambda>k. \<exists>snap. ?read k = Inr snap \<and> list_all2 (ready_twin fl fc snap inc h') [0..n - 1] twins"
    assume *: "list_all2 (ready_twin fl fc snap inc h') [0..n - 1] twins \<and> grown (\<lambda>_. True) (h1 @ [(?call, True)]) h'"
    then have "?P h1" using read by blast
    then have "at_call (h1 @ [(?call, True)]) ?call ?P" by (rule at_call_snoc)
    then show "at_call h' ?call ?P" using conjunct2 [OF *] by (rule at_call_mono)
  qed simp
  note candidates = this [of "h @ [(RegisterIncident (py_strip inc), True)]"]
  show ?thesis
  proof (cases "py_strip inc = [] \<or> n < 1")
    case False
    then have "fleet_fork fuel fl fc (postgres_cloner fl pc) inc n h =
        abind (acall ?call ?read) (fork_candidates fuel fl fc (postgres_cloner fl pc) inc n) (h @ [(RegisterIncident (py_strip inc), True)])"
      by (simp add: fleet_fork_def register_active_incident_def abind_def acall_def)
    then have eq: "wp (fleet_fork fuel fl fc (postgres_cloner fl pc) inc n) Q E h =
        wp (abind (acall ?call ?read) (fork_candidates fuel fl fc (postgres_cloner fl pc) inc n)) Q E
          (h @ [(RegisterIncident (py_strip inc), True)])" for Q E
      by (simp only: wp_def)
    then show ?thesis
    proof (cases "?read (h @ [(RegisterIncident (py_strip inc), True)])")
      case (Inr snap)
      from candidates [OF this] show ?thesis by (simp only: eq wp_abind wp_acall Inr sum.case)
    qed (simp add: eq)
  qed (auto simp: fleet_fork_def fleet_error_def)
qed

section \<open>Waiting for readiness comes to an end\<close>

text \<open>The monotonic clock never goes back, and a sleep takes at least its time.\<close>

definition clock_advances :: "Fleet \<Rightarrow> bool" where
  "clock_advances fl \<longleftrightarrow>
     (\<forall>h c b. fl_monotonic fl h \<le> fl_monotonic fl (h @ [(c, b)])) \<and>
     (\<forall>h d b. fl_monotonic fl h + d \<le> fl_monotonic fl (h @ [(FleetSleep d, b)]))"

lemma clock_mono: "clock_advances fl \<Longrightarrow> fl_monotonic fl h \<le> fl_monotonic fl (h @ k)"
proof (induction k rule: rev_induct)
  case (snoc e k)
  have "fl_monotonic fl (h @ k) \<le> fl_monotonic fl ((h @ k) @ [(fst e, snd e)])"
    using snoc.prems unfolding clock_advances_def by blast
  then show ?case using snoc by simp
qed simp

lemma aloop_run: "run_loop n body s h = Some out \<Longrightarrow> n \<le> n' \<Longrightarrow> aloop n' body s h = out"
proof (induction n arbitrary: n' s h)
  case (Suc n)
  then obtain m where "n' = Suc m" "n \<le> m" by (cases n') auto
  then show ?case using Suc by (auto simp: abind_def aret_def split: prod.splits sum.splits)
qed simp

text \<open>The sleeps that still fit before the deadline.\<close>

definition polls_left :: "Fleet \<Rightarrow> rat \<Rightarrow> rat \<Rightarrow> rat \<Rightarrow> FleetCall trace \<Rightarrow> nat" where
  "polls_left fl timeout interval start h = nat \<lceil>(start + timeout - fl_monotonic fl h) / interval\<rceil>"

lemma polls_left_less:
  assumes "0 < interval" "fl_monotonic fl h \<le> now" "now - start < timeout" "now + interval \<le> fl_monotonic fl h'"
  shows "polls_left fl timeout interval start h' < polls_left fl timeout interval start h"
proof -
  define a where "a = (start + timeout - fl_monotonic fl h) / interval"
  define a' where "a' = (start + timeout - fl_monotonic fl h') / interval"
  have "0 < a" using assms by (simp add: a_def)
  have "a' * interval + interval \<le> a * interval" using assms by (simp add: a_def a'_def)
  then have "(a' + 1) * interval \<le> a * interval" by (simp add: distrib_right)
  then have "a' + 1 \<le> a" using assms(1) by simp
  then have "\<lceil>a'\<rceil> + 1 \<le> \<lceil>a\<rceil>" by linarith
  moreover have "0 < \<lceil>a\<rceil>" using \<open>0 < a\<close> by simp
  ultimately show ?thesis unfolding polls_left_def a_def [symmetric] a'_def [symmetric] by linarith
qed

lemma poll_lowers:
  assumes "clock_advances fl" "0 < interval"
  shows "wp (poll_readiness fl ns expected sels timeout interval start s)
    (\<lambda>r h'. case r of Inl v \<Rightarrow> True | Inr s' \<Rightarrow> polls_left fl timeout interval start h' < polls_left fl timeout interval start h)
    (\<lambda>_ _. True) h"
proof -
  have less: "polls_left fl timeout interval start (h @ [(c, b), (c', b'), (FleetSleep interval, True)]) <
      polls_left fl timeout interval start h"
    if "\<not> timeout \<le> fl_monotonic fl (h @ [(c, b), (c', b')]) - start" for c b c' b'
  proof (rule polls_left_less [OF assms(2)])
    show "fl_monotonic fl h \<le> fl_monotonic fl (h @ [(c, b), (c', b')])" by (rule clock_mono [OF assms(1)])
    have "fl_monotonic fl (h @ [(c, b), (c', b')]) + interval \<le> fl_monotonic fl ((h @ [(c, b), (c', b')]) @ [(FleetSleep interval, True)])"
      using assms(1) unfolding clock_advances_def by blast
    then show "fl_monotonic fl (h @ [(c, b), (c', b')]) + interval \<le>
        fl_monotonic fl (h @ [(c, b), (c', b'), (FleetSleep interval, True)])" by simp
  qed (use that in simp)
  show ?thesis
    unfolding poll_readiness_def Let_def
    by (auto simp: poll_error_def fleet_error_def less split: sum.split ApiFault.split)
qed

lemma readiness_runs:
  assumes "clock_advances fl" "0 < interval" "polls_left fl timeout interval start h < fuel"
  shows "\<exists>out. run_loop fuel (poll_readiness fl ns expected sels timeout interval start) () h = Some out"
proof -
  have step: "wp (poll_readiness fl ns expected sels timeout interval start ())
      (\<lambda>r h'. case r of Inl v \<Rightarrow> True | Inr s' \<Rightarrow> True \<and> polls_left fl timeout interval start h' < polls_left fl timeout interval start h)
      (\<lambda>_ _. True) h" for h
    by (rule wp_mono [OF poll_lowers [OF assms(1,2)]]) (auto split: sum.splits)
  have "\<exists>x h'. run_loop fuel (poll_readiness fl ns expected sels timeout interval start) () h = Some (x, h') \<and>
      (case x of Inl e \<Rightarrow> True | Inr v \<Rightarrow> True)"
    by (rule run_loop_ends [where I = "\<lambda>_ _. True" and \<mu> = "\<lambda>_. polls_left fl timeout interval start", OF _ _ assms(3)])
       (use step in auto)
  then show ?thesis by blast
qed

section \<open>Forking twins\<close>

text \<open>C19: a fork that returns has made every twin asked for, in the order of the candidates: each has the namespace and the
  database of its candidate's names, its egress policy was read back and enforces egress, and every workload of the
  production snapshot the fork has read was seen there as a deployment with at least production's number of replicas
  ready and available.\<close>

theorem fork_ready:
  assumes "sound_templates (fc_renderer fc)" "keyed_workloads fl"
    "fleet_fork fuel fl fc (postgres_cloner fl pc) inc n h = (Inr twins, h')"
  shows "at_call h' (ReadWorkloads (fc_prod_namespace fc) [''database'']) (\<lambda>k.
    \<exists>snap. fl_read_workloads fl (fc_prod_namespace fc) [''database''] k = Inr snap \<and>
      list_all2 (ready_twin fl fc snap inc h') [0..n - 1] twins)"
  using wpD [OF fork_ready_wp [OF assms(1,2)] assms(3)] by simp

text \<open>C21: whatever a fork does, and however it ends, no deployment is created or replaced in a twin's namespace before a
  network policy was created or replaced there with success.\<close>

theorem fork_contains_first:
  assumes "sound_templates (fc_renderer fc)" "fleet_fork fuel fl fc (postgres_cloner fl pc) inc n h = (r, h')" "policed h"
  shows "policed h'"
  using wpD [OF fork_policed [OF assms(1,3)] assms(2)] by (simp split: sum.splits)


text \<open>Waiting for readiness comes to an end, at the latest when the timeout has passed: with fuel for one poll more than
  poll intervals fit into the timeout, the outcome does not depend on the fuel.\<close>

theorem readiness_settles:
  assumes "clock_advances fl" "nat \<lceil>fc_readiness_timeout fc / max (1 / 1000) (fc_poll_interval fc)\<rceil> < fuel" "fuel \<le> fuel'"
  shows "wait_for_readiness fuel' fl fc ns deps h = wait_for_readiness fuel fl fc ns deps h"
proof (cases "expected_deployments deps = []")
  case False
  define i where "i = max (1 / 1000) (fc_poll_interval fc)"
  define T where "T = fc_readiness_timeout fc"
  define start where "start = fl_monotonic fl h"
  have "0 < i" by (simp add: i_def max_def)
  have "polls_left fl T i start h < fuel" using assms(2) by (simp add: polls_left_def start_def i_def T_def)
  from readiness_runs [OF assms(1) \<open>0 < i\<close> this]
  obtain out where out: "run_loop fuel (poll_readiness fl ns (expected_deployments deps) (expected_selectors deps) T i start) () h = Some out"
    by blast
  show ?thesis
    using aloop_run [OF out assms(3)] aloop_run [OF out order_refl] False
    by (simp add: wait_for_readiness_def Let_def abind_aask i_def T_def start_def)
qed (simp add: wait_for_readiness_def)


section \<open>A fork of one candidate\<close>

definition sample_controller :: Controller where
  "sample_controller = \<lparr>fc_renderer = plain_renderer, fc_prod_namespace = ''ust-prod'', fc_readiness_timeout = 1, fc_poll_interval = 1\<rparr>"

definition small_run :: "(PyExc + TwinHandle list) \<times> FleetCall trace" where
  "small_run = fleet_fork 2 small_fleet sample_controller small_cloner ''a'' 1 []"

lemma small_run_ok:
  "case small_run of (Inl e, h) \<Rightarrow> False | (Inr ts, h) \<Rightarrow> map twin_namespace ts = [''ust-twin-a-0''] \<and>
     list_ex (\<lambda>e. deploys (fst e) ''ust-twin-a-0'') h"

  by code_simp


lemma sample_sound: "sound_templates (fc_renderer sample_controller)" "keyed_workloads small_fleet"
proof -
  have "distinct (map fst (cw_workloads sample_snapshot))" by code_simp
  then show "keyed_workloads small_fleet" by (simp add: keyed_workloads_def small_fleet_def)
  show "sound_templates (fc_renderer sample_controller)"
    by (simp add: sound_templates_def sample_controller_def plain_renderer_def default_renderer_def)
qed

lemma fork_ready_witness:
  "\<exists>t h'. small_run = (Inr [t], h') \<and> twin_state t = Ready \<and> twin_namespace t = ''ust-twin-a-0'' \<and>
     contained small_fleet ''ust-twin-a-0'' h' \<and> seen_ready small_fleet ''ust-twin-a-0'' ''auth'' 2 h'"
proof -
  obtain twins h' where run: "small_run = (Inr twins, h')" and ns: "map twin_namespace twins = [''ust-twin-a-0'']"
    using small_run_ok by (auto split: prod.splits sum.splits)
  from fork_ready [OF sample_sound run [unfolded small_run_def]]
  obtain k snap where snap: "fl_read_workloads small_fleet (fc_prod_namespace sample_controller) [''database''] k = Inr snap"
    and ready: "list_all2 (ready_twin small_fleet sample_controller snap ''a'' h') [0..1 - 1] twins"
    unfolding at_call_def by blast
  obtain t where t: "twins = [t]" "twin_namespace t = ''ust-twin-a-0''" using ns by auto
  have "ready_twin small_fleet sample_controller snap ''a'' h' 0 t" using ready t(1) by simp
  then have t_ready: "twin_state t = Ready" "contained small_fleet ''ust-twin-a-0'' h'"
    "\<forall>(n, wl) \<in> set (cw_workloads snap). n \<noteq> [] \<longrightarrow> seen_ready small_fleet ''ust-twin-a-0'' n (wl_replicas wl) h'"
    unfolding ready_twin_def t(2) by blast+
  have "map (\<lambda>(n, wl). (n, wl_replicas wl)) (cw_workloads sample_snapshot) = [(''auth'', 2)]" by code_simp
  then obtain wl where "(''auth'', wl) \<in> set (cw_workloads snap)" "wl_replicas wl = 2"
    using snap by (auto simp: small_fleet_def split: prod.splits)
  then have "seen_ready small_fleet ''ust-twin-a-0'' ''auth'' 2 h'" using t_ready(3) by fastforce
  moreover have "small_run = (Inr [t], h')" using run t(1) by simp
  ultimately show ?thesis using t(2) t_ready(1,2) by blast
qed

lemma fork_contains_first_witness: "policed (snd small_run) \<and> list_ex (\<lambda>e. deploys (fst e) ''ust-twin-a-0'') (snd small_run)"
proof -
  have "policed (snd small_run)"
    using fork_contains_first [OF sample_sound(1) prod.collapse [symmetric] policed_Nil] unfolding small_run_def by blast
  moreover obtain twins h' where "small_run = (Inr twins, h')" "list_ex (\<lambda>e. deploys (fst e) ''ust-twin-a-0'') h'"
    using small_run_ok by (auto split: prod.splits sum.splits)
  ultimately show ?thesis by (metis snd_conv)
qed

text \<open>A cluster that refuses new objects.\<close>

definition refusing_fleet :: Fleet where
  "refusing_fleet = small_fleet\<lparr>fl_create := \<lambda>ns m h. Inl (ApiException 403 ''Forbidden'')\<rparr>"


text \<open>A clock that sleeping moves, in a cluster where nothing ever becomes ready.\<close>

definition ticking_fleet :: Fleet where
  "ticking_fleet = small_fleet\<lparr>fl_list_deployments := \<lambda>ns h. Inr [],
     fl_monotonic := \<lambda>h. sum_list (map (\<lambda>e. case fst e of FleetSleep d \<Rightarrow> max 0 d | _ \<Rightarrow> 0) h)\<rparr>"

lemma ticking_clock: "clock_advances ticking_fleet"
proof -
  have "0 \<le> (case c of FleetSleep d \<Rightarrow> max 0 d | _ \<Rightarrow> (0::rat))" for c by (cases c) simp_all
  then show ?thesis by (simp add: clock_advances_def ticking_fleet_def)
qed

definition sample_deployment :: Manifest where
  "sample_deployment = \<lparr>mf_kind = Some ''Deployment'', mf_name = Some ''auth'', mf_namespace = Some ''t'', mf_labels = [],
     mf_annotations = [], mf_body = DocumentBody []\<rparr>"

lemma readiness_settles_witness:
  "wait_for_readiness 3 ticking_fleet sample_controller ''t'' [sample_deployment] [] =
     wait_for_readiness 2 ticking_fleet sample_controller ''t'' [sample_deployment] [] \<and>
   (case wait_for_readiness 2 ticking_fleet sample_controller ''t'' [sample_deployment] [] of
      (Inl (Raised c t), h) \<Rightarrow> c = ''FleetError'' \<and> length h = 5 | _ \<Rightarrow> False)"
proof -
  have "nat \<lceil>fc_readiness_timeout sample_controller / max (1 / 1000) (fc_poll_interval sample_controller)\<rceil> < 2"
    by (simp add: sample_controller_def)
  moreover have "(2::nat) \<le> 3" by simp
  ultimately have "wait_for_readiness 3 ticking_fleet sample_controller ''t'' [sample_deployment] [] =
     wait_for_readiness 2 ticking_fleet sample_controller ''t'' [sample_deployment] []"
    by (rule readiness_settles [OF ticking_clock])
  moreover have "case wait_for_readiness 2 ticking_fleet sample_controller ''t'' [sample_deployment] [] of
      (Inl (Raised c t), h) \<Rightarrow> c = ''FleetError'' \<and> length h = 5 | _ \<Rightarrow> False" by code_simp
  ultimately show ?thesis by blast
qed

end
