(* ===== verification/Reader.thy ===== *)
theory Reader
  imports Render Triples
begin

text \<open>
  The reader of production's workloads (\<^verbatim>\<open>fleet/k8s.py\<close>): images pinned to digests, configuration, probes and
  volumes of every deployment of a namespace.  The Kubernetes API is a parameter; of the objects it returns the records
  below hold what the code reads, probes and volume sources as the dicts that \<open>to_dict\<close> gives.  A list or dict that
  is absent is empty here, which the code does not tell apart.  Making the clients from a kubeconfig is not modelled.
\<close>

section \<open>Objects of the API\<close>

record ApiMeta =
  am_name :: string
  am_uid :: "string option"
  am_labels :: "(string \<times> string) list"
  am_annotations :: "(string \<times> string) list"
  am_owners :: "(string \<times> string) list"

record KeyRef =
  kr_name :: "string option"
  kr_key :: string
  kr_optional :: "bool option"

record EnvSource =
  es_config_map :: "KeyRef option"
  es_secret :: "KeyRef option"
  es_field :: "(string \<times> string option) option"

record ApiEnv =
  ae_name :: string
  ae_value :: "string option"
  ae_from :: "EnvSource option"

text \<open>\<open>ac_env_from\<close>: for each source of \<open>envFrom\<close> its ConfigMap reference, whose name may be absent.\<close>

record ApiContainer =
  ac_name :: string
  ac_image :: string
  ac_resources :: "ResourceSpec option"
  ac_env :: "ApiEnv list"
  ac_env_from :: "string option option list"
  ac_ports :: "FleetPort list"
  ac_liveness :: "yaml_dict option"
  ac_readiness :: "yaml_dict option"

text \<open>The sources of a volume that are set, in the order of the object's fields.\<close>

record ApiVolume =
  av_name :: string
  av_sources :: "(string \<times> yaml_dict) list"

record ApiPodSpec =
  ap_containers :: "ApiContainer list"
  ap_init_containers :: "ApiContainer list"
  ap_volumes :: "ApiVolume list"

record ApiDeploymentSpec =
  ads_replicas :: "int option"
  ads_match_labels :: "(string \<times> string) list"
  ads_pod_spec :: "ApiPodSpec option"

record ApiDeployment =
  ad_meta :: "ApiMeta option"
  ad_spec :: "ApiDeploymentSpec option"

record ContainerStatus =
  ct_name :: string
  ct_image :: "string option"
  ct_image_id :: "string option"

record PodStatus =
  ps_phase :: "string option"
  ps_statuses :: "ContainerStatus list"
  ps_start_time :: "instant option"

record ApiPod =
  pd_meta :: "ApiMeta option"
  pd_status :: "PodStatus option"

section \<open>Manifest spelling\<close>

text \<open>\<open>str.capitalize\<close> on attribute names, which are ASCII.\<close>

definition upper_char :: "char \<Rightarrow> char" where
  "upper_char c = (let n = (of_char c :: nat) in if 97 \<le> n \<and> n \<le> 122 then char_of (n - 32) else c)"

definition capitalize :: "string \<Rightarrow> string" where
  "capitalize s = (case s of [] \<Rightarrow> [] | c # cs \<Rightarrow> upper_char c # py_lower cs)"

definition camelize_key :: "string \<Rightarrow> string" where
  "camelize_key key =
     (case split_char (CHR ''_'') (lstrip_char (CHR ''_'') key) of
        [] \<Rightarrow> []
      | p # ps \<Rightarrow> p @ concat (map capitalize ps))"

fun camelize :: "Yaml \<Rightarrow> Yaml" where
  "camelize (YMap kvs) = YMap (dict_of (map (\<lambda>(k, v). (camelize_key k, camelize v)) (filter (\<lambda>(k, v). v \<noteq> YNull) kvs)))"
| "camelize (YSeq ys) = YSeq (map camelize ys)"
| "camelize y = y"

definition serialize_k8s_obj :: "yaml_dict \<Rightarrow> yaml_dict" where
  "serialize_k8s_obj d = (case camelize (YMap d) of YMap d' \<Rightarrow> d' | _ \<Rightarrow> [])"

section \<open>Images\<close>

definition parse_image_repo_and_tag :: "string \<Rightarrow> string \<times> string option" where
  "parse_image_repo_and_tag img =
     (if CHR ''@'' \<in> set img then (before_first (CHR ''@'') img, Some (behind_first (CHR ''@'') img))
      else if CHR '':'' \<in> set img \<and> CHR ''/'' \<notin> set (after_last (CHR '':'') img)
      then (before_last (CHR '':'') img, Some (after_last (CHR '':'') img))
      else (img, None))"

definition ID_PREFIXES :: "string list" where
  "ID_PREFIXES = [''docker-pullable://'', ''containerd://'', ''docker://'']"

definition clean_image_id :: "string \<Rightarrow> string" where
  "clean_image_id iid =
     (let s = py_strip iid in case find (startswith s) ID_PREFIXES of Some p \<Rightarrow> drop (length p) s | None \<Rightarrow> s)"

text \<open>The digest in the id a container status reports.\<close>

definition status_digest :: "string \<Rightarrow> string \<Rightarrow> string \<Rightarrow> PyExc + string \<times> string" where
  "status_digest img repo iid =
     (let s = clean_image_id iid in
      if CHR ''@'' \<in> set s then
        (let id_repo = before_first (CHR ''@'') s; digest = behind_first (CHR ''@'') s in
         if \<not> startswith digest ''sha256:'' then fleet_error [''Invalid image digest algorithm for '', img, '' in '', iid]
         else Inr (fstr [if repo \<noteq> [] then repo else id_repo, ''@'', digest], digest))
      else if startswith s ''sha256:'' then Inr (fstr [repo, ''@'', s], s)
      else if length s = 64 \<and> list_all hex_char s then
        (let digest = ''sha256:'' @ py_lower s in Inr (fstr [repo, ''@'', digest], digest))
      else fleet_error [''Unable to extract sha256 digest from container status imageID: '', iid])"

definition resolve_pinned_image :: "string \<Rightarrow> string option \<Rightarrow> PyExc + string \<times> string" where
  "resolve_pinned_image img iid =
     (let (repo, tag) = parse_image_repo_and_tag img;
          spec_digest = (case tag of Some t \<Rightarrow> if startswith t ''sha256:'' then Some t else None | None \<Rightarrow> None) in
      case spec_digest of
        Some t \<Rightarrow> Inr (fstr [repo, ''@'', t], t)
      | None \<Rightarrow>
          (case iid of
             Some (c # cs) \<Rightarrow> status_digest img repo (c # cs)
           | _ \<Rightarrow> fleet_error [''Cannot resolve image digest for '', img, '': container status imageID is missing'']))"

definition resolve_image_digest :: "string \<Rightarrow> string option \<Rightarrow> bool \<Rightarrow> PyExc + string \<times> string" where
  "resolve_image_digest img iid allow_unpinned =
     (case resolve_pinned_image img iid of
        Inl e \<Rightarrow> if allow_unpinned then Inr (img, []) else Inl e
      | Inr r \<Rightarrow> Inr r)"

definition image_name :: "string \<Rightarrow> string" where
  "image_name img =
     (let repo = fst (parse_image_repo_and_tag img) in
      if CHR ''/'' \<in> set repo then after_last (CHR ''/'') repo else repo)"

section \<open>Resources, environment and configuration\<close>

definition extract_resource_spec :: "ResourceSpec option \<Rightarrow> ResourceSpec" where
  "extract_resource_spec r = (case r of Some r \<Rightarrow> r | None \<Rightarrow> \<lparr>rs_requests = [], rs_limits = []\<rparr>)"

definition yaml_text :: "string option \<Rightarrow> Yaml" where
  "yaml_text x = (case x of Some s \<Rightarrow> YStr s | None \<Rightarrow> YNull)"

definition key_ref_dict :: "KeyRef \<Rightarrow> Yaml" where
  "key_ref_dict k = YMap [(''name'', yaml_text (kr_name k)), (''key'', YStr (kr_key k)),
     (''optional'', (case kr_optional k of Some b \<Rightarrow> YBool b | None \<Rightarrow> YNull))]"

definition value_from_dict :: "EnvSource \<Rightarrow> yaml_dict" where
  "value_from_dict s =
     (case es_config_map s of Some k \<Rightarrow> [(''configMapKeyRef'', key_ref_dict k)] | None \<Rightarrow> []) @
     (case es_secret s of Some k \<Rightarrow> [(''secretKeyRef'', key_ref_dict k)] | None \<Rightarrow> []) @
     (case es_field s of
        Some (path, version) \<Rightarrow> [(''fieldRef'', YMap [(''fieldPath'', YStr path), (''apiVersion'', yaml_text version)])]
      | None \<Rightarrow> [])"

definition extract_env_vars :: "ApiEnv list \<Rightarrow> EnvVar list" where
  "extract_env_vars env =
     map (\<lambda>e. \<lparr>ev_name = ae_name e, ev_value = ae_value e,
       ev_value_from = (case ae_from e of None \<Rightarrow> None
         | Some s \<Rightarrow> (let d = value_from_dict s in if d = [] then None else Some d))\<rparr>) env"

text \<open>A name that is absent or empty refers to nothing.\<close>

definition named :: "string option \<Rightarrow> string list" where
  "named x = (case x of Some (c # cs) \<Rightarrow> [c # cs] | _ \<Rightarrow> [])"

definition text_field :: "string \<Rightarrow> yaml_dict \<Rightarrow> string option" where
  "text_field k d = (case map_of d k of Some (YStr s) \<Rightarrow> Some s | _ \<Rightarrow> None)"

definition container_config_refs :: "ApiContainer \<Rightarrow> string list" where
  "container_config_refs c =
     concat (map (\<lambda>e. case ae_from e of
         Some s \<Rightarrow> (case es_config_map s of Some k \<Rightarrow> named (kr_name k) | None \<Rightarrow> [])
       | None \<Rightarrow> []) (ac_env c)) @
     concat (map (\<lambda>r. case r of Some n \<Rightarrow> named n | None \<Rightarrow> []) (ac_env_from c))"

definition projected_source_refs :: "Yaml \<Rightarrow> string list" where
  "projected_source_refs y =
     (case y of YMap d \<Rightarrow> (case map_of d ''config_map'' of Some (YMap c) \<Rightarrow> named (text_field ''name'' c) | _ \<Rightarrow> []) | _ \<Rightarrow> [])"

definition volume_config_refs :: "ApiVolume \<Rightarrow> string list" where
  "volume_config_refs v =
     (case map_of (av_sources v) ''config_map'' of Some d \<Rightarrow> named (text_field ''name'' d) | None \<Rightarrow> []) @
     (case map_of (av_sources v) ''projected'' of
        Some d \<Rightarrow> (case map_of d ''sources'' of Some (YSeq ys) \<Rightarrow> concat (map projected_source_refs ys) | _ \<Rightarrow> [])
      | None \<Rightarrow> [])"

definition extract_config_map_refs :: "ApiPodSpec \<Rightarrow> string list" where
  "extract_config_map_refs p =
     sorted_set (concat (map container_config_refs (ap_containers p @ ap_init_containers p)) @
       concat (map volume_config_refs (ap_volumes p)))"

section \<open>The pod to read digests from\<close>

definition REVISION_ANNOTATION :: string where "REVISION_ANNOTATION = ''deployment.kubernetes.io/revision''"
definition POD_TEMPLATE_HASH_LABEL :: string where "POD_TEMPLATE_HASH_LABEL = ''pod-template-hash''"

text \<open>An optional text that is empty counts as none in a test.\<close>

definition nonempty_text :: "string option \<Rightarrow> string option" where
  "nonempty_text x = (case x of Some (c # cs) \<Rightarrow> Some (c # cs) | _ \<Rightarrow> None)"

fun revision_hash :: "string \<Rightarrow> string \<Rightarrow> ApiMeta option list \<Rightarrow> string option" where
  "revision_hash uid revision [] = None"
| "revision_hash uid revision (rs # rss) =
     (case rs of
        None \<Rightarrow> revision_hash uid revision rss
      | Some m \<Rightarrow>
          if \<not> list_ex (\<lambda>(kind, u). kind = ''Deployment'' \<and> u = uid) (am_owners m) then revision_hash uid revision rss
          else if map_of (am_annotations m) REVISION_ANNOTATION \<noteq> Some revision then revision_hash uid revision rss
          else map_of (am_labels m) POD_TEMPLATE_HASH_LABEL)"

definition current_pod_template_hash :: "ApiDeployment \<Rightarrow> ApiMeta option list \<Rightarrow> string option" where
  "current_pod_template_hash dep replica_sets =
     (case ad_meta dep of
        None \<Rightarrow> None
      | Some m \<Rightarrow>
          (case (nonempty_text (am_uid m), nonempty_text (map_of (am_annotations m) REVISION_ANNOTATION)) of
             (Some uid, Some revision) \<Rightarrow> revision_hash uid revision replica_sets
           | _ \<Rightarrow> None))"

text \<open>The dict of the statuses by name: the last of a name counts.\<close>

definition statuses_of :: "ApiPod \<Rightarrow> ContainerStatus list" where
  "statuses_of pod = (case pd_status pod of Some s \<Rightarrow> ps_statuses s | None \<Rightarrow> [])"

definition status_named :: "ContainerStatus list \<Rightarrow> string \<Rightarrow> ContainerStatus option" where
  "status_named ss n = map_of (rev (map (\<lambda>s. (ct_name s, s)) ss)) n"

fun images_match :: "ContainerStatus list \<Rightarrow> ApiContainer list \<Rightarrow> bool" where
  "images_match ss [] = True"
| "images_match ss (c # cs) =
     (case status_named ss (ac_name c) of
        None \<Rightarrow> False
      | Some s \<Rightarrow>
          (case nonempty_text (ct_image s) of
             None \<Rightarrow> False
           | Some img \<Rightarrow> if image_name img \<noteq> image_name (ac_image c) then False else images_match ss cs))"

definition pod_images_match_spec :: "ApiPod \<Rightarrow> ApiContainer list \<Rightarrow> bool" where
  "pod_images_match_spec pod cs = images_match (statuses_of pod) cs"

definition pod_labels :: "ApiPod \<Rightarrow> (string \<times> string) list" where
  "pod_labels pod = (case pd_meta pod of Some m \<Rightarrow> am_labels m | None \<Rightarrow> [])"

definition running_pod :: "(string \<times> string) list \<Rightarrow> ApiPod \<Rightarrow> bool" where
  "running_pod match_labels pod \<longleftrightarrow> pod_labels pod \<noteq> [] \<and>
     list_all (\<lambda>(k, v). map_of (pod_labels pod) k = Some v) match_labels \<and>
     (case pd_status pod of None \<Rightarrow> False | Some s \<Rightarrow> ps_phase s = Some ''Running'' \<and> ps_statuses s \<noteq> [])"

text \<open>\<open>max\<close> with the pair of whether there is a start time and that time: the first of the greatest.\<close>

definition start_time :: "ApiPod \<Rightarrow> instant option" where
  "start_time pod = (case pd_status pod of Some s \<Rightarrow> ps_start_time s | None \<Rightarrow> None)"

definition started_before :: "instant option \<Rightarrow> instant option \<Rightarrow> bool" where
  "started_before a b = (case (a, b) of
     (None, Some t) \<Rightarrow> True
   | (Some s, Some t) \<Rightarrow> s < t
   | _ \<Rightarrow> False)"

fun newest_pod :: "ApiPod \<Rightarrow> ApiPod list \<Rightarrow> ApiPod" where
  "newest_pod p [] = p"
| "newest_pod p (q # qs) = newest_pod (if started_before (start_time p) (start_time q) then q else p) qs"

definition of_revision :: "string option \<Rightarrow> ApiPod list \<Rightarrow> ApiPod list" where
  "of_revision template_hash pods =
     (case nonempty_text template_hash of
        None \<Rightarrow> pods
      | Some h \<Rightarrow>
          (let current = filter (\<lambda>p. map_of (pod_labels p) POD_TEMPLATE_HASH_LABEL = Some h) pods in
           if current \<noteq> [] then current else pods))"

definition select_digest_source_pod ::
    "ApiDeployment \<Rightarrow> ApiPod list \<Rightarrow> ApiMeta option list \<Rightarrow> (string \<times> string) list \<Rightarrow> ApiContainer list \<Rightarrow> ApiPod option" where
  "select_digest_source_pod dep pods replica_sets match_labels cs =
     (case filter (\<lambda>p. pod_images_match_spec p cs)
        (of_revision (current_pod_template_hash dep replica_sets) (filter (running_pod match_labels) pods)) of
        [] \<Rightarrow> None
      | p # ps \<Rightarrow> Some (newest_pod p ps))"

section \<open>Volumes\<close>

definition SUPPORTED_VOLUME_SOURCES :: "(string \<times> string) list" where
  "SUPPORTED_VOLUME_SOURCES = [(''config_map'', ''configMap''), (''secret'', ''secret''), (''empty_dir'', ''emptyDir''),
     (''downward_api'', ''downwardAPI''), (''projected'', ''projected'')]"

definition list_repr :: "string list \<Rightarrow> string" where
  "list_repr xs = fstr [''['', join '', '' (map squote xs), '']'']"

definition extract_volume :: "ApiVolume \<Rightarrow> PyExc + yaml_dict" where
  "extract_volume v =
     (let sources = List.map_filter (\<lambda>(attr, key). map_option (\<lambda>d. (key, YMap (serialize_k8s_obj d))) (map_of (av_sources v) attr))
            SUPPORTED_VOLUME_SOURCES in
      if sources = [] then
        fleet_error [''Volume '', squote (av_name v), '' uses an unsupported volume source '',
          list_repr (sort (map (\<lambda>(attr, d). camelize_key attr) (av_sources v))), '': a twin cannot honestly reproduce this source, '',
          ''so the fork is refused rather than substituting an empty volume'']
      else Inr ((''name'', YStr (av_name v)) # sources))"

definition extract_volumes :: "ApiPodSpec \<Rightarrow> PyExc + yaml_dict list" where
  "extract_volumes p = mapE extract_volume (ap_volumes p)"

section \<open>Reading a namespace\<close>

datatype ReaderCall =
    ListDeployments string
  | ListPods string
  | ListReplicaSets string
  | ListConfigMaps string
  | GetConfigMap string string

type_synonym 'a reader_act = "(ReaderCall, 'a) act"

record WorkloadReader =
  rd_deployments :: "string \<Rightarrow> ReaderCall trace \<Rightarrow> ApiFault + ApiDeployment list"
  rd_pods :: "string \<Rightarrow> ReaderCall trace \<Rightarrow> ApiFault + ApiPod list"
  rd_replica_sets :: "string \<Rightarrow> ReaderCall trace \<Rightarrow> ApiFault + ApiMeta option list"
  rd_config_maps :: "string \<Rightarrow> ReaderCall trace \<Rightarrow> ApiFault + string option list"
  rd_config_map :: "string \<Rightarrow> string \<Rightarrow> ReaderCall trace \<Rightarrow> ApiFault + (string \<times> string) list"
  rd_now :: "ReaderCall trace \<Rightarrow> instant"

definition read_container :: "ContainerStatus list \<Rightarrow> ApiContainer \<Rightarrow> PyExc + ContainerSnapshot" where
  "read_container ss c =
     bindE (resolve_image_digest (ac_image c) (case status_named ss (ac_name c) of Some s \<Rightarrow> ct_image_id s | None \<Rightarrow> None) True)
       (\<lambda>(pinned, digest).
         Inr \<lparr>cn_name = ac_name c, cn_image_tag = ac_image c, cn_image_digest = digest, cn_pinned_image = pinned,
           cn_digest_pinned = (digest \<noteq> []), cn_resources = extract_resource_spec (ac_resources c), cn_env = extract_env_vars (ac_env c),
           cn_ports = ac_ports c, cn_liveness = map_option serialize_k8s_obj (ac_liveness c),
           cn_readiness = map_option serialize_k8s_obj (ac_readiness c)\<rparr>)"

definition dep_name :: "ApiDeployment \<Rightarrow> string" where
  "dep_name dep = (case ad_meta dep of Some m \<Rightarrow> am_name m | None \<Rightarrow> ''unknown'')"

definition dep_labels :: "ApiDeployment \<Rightarrow> (string \<times> string) list" where
  "dep_labels dep = (case ad_meta dep of Some m \<Rightarrow> am_labels m | None \<Rightarrow> [])"

definition dep_component :: "ApiDeployment \<Rightarrow> string option" where
  "dep_component dep = map_of (dep_labels dep) ''app.kubernetes.io/component''"

definition excluded :: "string list \<Rightarrow> ApiDeployment \<Rightarrow> bool" where
  "excluded exclude dep = (case dep_component dep of Some c \<Rightarrow> c \<in> set exclude | None \<Rightarrow> False)"

definition match_labels_of :: "ApiDeployment \<Rightarrow> (string \<times> string) list" where
  "match_labels_of dep = (case ad_spec dep of Some s \<Rightarrow> ads_match_labels s | None \<Rightarrow> [])"

definition pod_spec_of :: "ApiDeployment \<Rightarrow> ApiPodSpec option" where
  "pod_spec_of dep = Option.bind (ad_spec dep) ads_pod_spec"

definition deployment_snapshot :: "string \<Rightarrow> ApiPod list \<Rightarrow> ApiMeta option list \<Rightarrow> ApiDeployment \<Rightarrow> PyExc + WorkloadSnapshot" where
  "deployment_snapshot ns pods replica_sets dep =
     (let no_containers = fleet_error [''Deployment '', squote (dep_name dep), '' has no containers in pod template''] in
      case pod_spec_of dep of
        None \<Rightarrow> no_containers
      | Some p \<Rightarrow>
          if ap_containers p = [] then no_containers
          else
            (let statuses = (case select_digest_source_pod dep pods replica_sets (match_labels_of dep) (ap_containers p) of
                   Some pod \<Rightarrow> statuses_of pod | None \<Rightarrow> []) in
             bindE (mapE (read_container statuses) (ap_containers p)) (\<lambda>containers.
             bindE (extract_volumes p) (\<lambda>volumes.
               Inr \<lparr>wl_name = dep_name dep, wl_namespace = ns, wl_component = dep_component dep, wl_labels = dep_labels dep,
                 wl_annotations = (case ad_meta dep of Some m \<Rightarrow> am_annotations m | None \<Rightarrow> []),
                 wl_replicas = (case Option.bind (ad_spec dep) ads_replicas of Some n \<Rightarrow> n | None \<Rightarrow> 1),
                 wl_containers = containers, wl_config_map_refs = extract_config_map_refs p, wl_volumes = volumes\<rparr>))))"

text \<open>ConfigMaps of the system are ignored; when they cannot be listed there are none.\<close>

definition list_custom_config_maps :: "WorkloadReader \<Rightarrow> string \<Rightarrow> string list reader_act" where
  "list_custom_config_maps rd ns =
     abind (acall_api (ListConfigMaps ns) (rd_config_maps rd ns)) (\<lambda>r.
       case r of
         Inl (status, reason) \<Rightarrow> aret []
       | Inr names \<Rightarrow> aret (filter (\<lambda>n. n \<noteq> ''kube-root-ca.crt'' \<and> \<not> startswith n ''kube-'') (concat (map named names))))"

definition read_config_map :: "WorkloadReader \<Rightarrow> string \<Rightarrow> string \<Rightarrow> (string \<times> (string \<times> string) list) reader_act" where
  "read_config_map rd ns name =
     abind (acatch (acall_api (GetConfigMap name ns) (rd_config_map rd name ns))
       (\<lambda>c t. alift (fleet_error [''Unexpected error reading ConfigMap '', squote name, '' in namespace '', squote ns, '': '', t]))) (\<lambda>r.
       case r of
         Inl (status, reason) \<Rightarrow>
           if status = 404 then
             alift (fleet_error [''Referenced ConfigMap '', squote name, '' not found in namespace '', squote ns])
           else alift (fleet_error [''Failed reading ConfigMap '', squote name, '' in namespace '', squote ns, '': '', reason])
       | Inr data \<Rightarrow> aret (name, data))"

definition read_config_maps :: "WorkloadReader \<Rightarrow> string \<Rightarrow> string list \<Rightarrow> (string \<times> (string \<times> string) list) list reader_act" where
  "read_config_maps rd ns names = amap (read_config_map rd ns) (sorted_set names)"

text \<open>The three listings run side by side; here one after the other.\<close>

definition list_call :: "string \<Rightarrow> ReaderCall \<Rightarrow> (ReaderCall trace \<Rightarrow> ApiFault + 'a) \<Rightarrow> 'a reader_act" where
  "list_call ns c f =
     abind (acatch (acall_api c f)
       (\<lambda>_ t. alift (fleet_error [''Unexpected error querying Kubernetes API for namespace '', squote ns, '': '', t]))) (\<lambda>r.
       case r of
         Inl (status, reason) \<Rightarrow> alift (fleet_error [''Failed to query Kubernetes API for namespace '', squote ns, '': '', reason])
       | Inr items \<Rightarrow> aret items)"

definition list_objects :: "WorkloadReader \<Rightarrow> string \<Rightarrow> (ApiDeployment list \<times> ApiPod list \<times> ApiMeta option list) reader_act" where
  "list_objects rd ns =
     abind (list_call ns (ListDeployments ns) (rd_deployments rd ns)) (\<lambda>deployments.
     abind (list_call ns (ListPods ns) (rd_pods rd ns)) (\<lambda>pods.
     abind (list_call ns (ListReplicaSets ns) (rd_replica_sets rd ns)) (\<lambda>replica_sets.
       aret (deployments, pods, replica_sets))))"

definition read_workloads :: "WorkloadReader \<Rightarrow> string \<Rightarrow> string list \<Rightarrow> ClusterWorkloadSnapshot reader_act" where
  "read_workloads rd ns exclude =
     abind (list_objects rd ns) (\<lambda>(deployments, pods, replica_sets).
     abind (alift (mapE (deployment_snapshot ns pods replica_sets) (filter (\<lambda>d. \<not> excluded exclude d) deployments))) (\<lambda>wls.
     abind (list_custom_config_maps rd ns) (\<lambda>custom.
     abind (read_config_maps rd ns (concat (map wl_config_map_refs wls) @ custom)) (\<lambda>cms.
     abind (aask (rd_now rd)) (\<lambda>now.
       aret \<lparr>cw_namespace = ns, cw_workloads = dict_of (map (\<lambda>w. (wl_name w, w)) wls), cw_config_maps = cms,
         cw_captured_at = now\<rparr>)))))"

section \<open>Images and their digests\<close>

lemma at_split: "c \<in> set s \<Longrightarrow> s = before_first c s @ c # behind_first c s"
proof -
  assume c: "c \<in> set s"
  have ne: "dropWhile (\<lambda>x. x \<noteq> c) s \<noteq> []" using c by (simp add: dropWhile_eq_Nil_conv)
  have "hd (dropWhile (\<lambda>x. x \<noteq> c) s) = c" using hd_dropWhile [OF ne] by simp
  then have "dropWhile (\<lambda>x. x \<noteq> c) s = c # behind_first c s" using ne by (cases "dropWhile (\<lambda>x. x \<noteq> c) s") (auto simp: behind_first_def)
  then show ?thesis using takeWhile_dropWhile_id [of "\<lambda>x. x \<noteq> c" s] by (simp add: before_first_def)
qed

lemma before_first_free: "c \<notin> set (before_first c s)"
  by (auto simp: before_first_def dest: set_takeWhileD)

lemma at_parts [simp]: "c \<notin> set r \<Longrightarrow> before_first c (r @ c # s) = r" "c \<notin> set r \<Longrightarrow> behind_first c (r @ c # s) = s"
  by (induction r) (auto simp: before_first_def behind_first_def)

lemma before_last_subset: "set (before_last c s) \<subseteq> set s"
proof -
  have "set (drop 1 (dropWhile (\<lambda>x. x \<noteq> c) (rev s))) \<subseteq> set (dropWhile (\<lambda>x. x \<noteq> c) (rev s))" by (rule set_drop_subset)
  then show ?thesis using set_dropWhileD by (fastforce simp: before_last_def)
qed

lemma parse_repo_free: "CHR ''@'' \<notin> set (fst (parse_image_repo_and_tag img))"
  using before_last_subset before_first_free by (auto simp: parse_image_repo_and_tag_def)

text \<open>The id that a container status reports, with its runtime's prefix and repository, ends in the digest.\<close>

definition reports :: "string \<Rightarrow> string \<Rightarrow> bool" where
  "reports iid digest \<longleftrightarrow> endswith (py_lower (py_strip iid)) (py_lower (drop (length ''sha256:'') digest))"

lemma endswith_append: "endswith (s @ t) t"
  by (simp add: endswith_def)

lemma endswith_iff: "endswith s p \<longleftrightarrow> (\<exists>t. s = t @ p)"
proof
  assume "endswith s p"
  then obtain t where "rev s = rev p @ t" by (auto simp: endswith_def startswith_iff)
  then have "s = rev t @ p" by (metis rev_append rev_rev_ident)
  then show "\<exists>t. s = t @ p" by blast
qed (auto simp: endswith_append)

lemma clean_suffix: "\<exists>t. py_strip iid = t @ clean_image_id iid"
proof (cases "find (startswith (py_strip iid)) ID_PREFIXES")
  case (Some p)
  then have "py_strip iid = take (length p) (py_strip iid) @ clean_image_id iid" by (simp add: clean_image_id_def Let_def)
  then show ?thesis by blast
qed (simp add: clean_image_id_def Let_def)

lemma py_lower_append: "py_lower (s @ t) = py_lower s @ py_lower t"
  by (simp add: py_lower_def)

lemma lower_lower: "list_all hex_char s \<Longrightarrow> py_lower (py_lower s) = py_lower s"
  by (induction s) (auto simp: py_lower_def lower_char_def hex_char_def py_digit_def Let_def)

lemma reports_suffix: "clean_image_id iid = t @ p \<Longrightarrow> py_lower q = py_lower p \<Longrightarrow> drop (length ''sha256:'') digest = q \<Longrightarrow> reports iid digest"
  using clean_suffix [of iid] unfolding reports_def endswith_iff by (metis append.assoc py_lower_append)

lemma sha_drop: "startswith d ''sha256:'' \<Longrightarrow> \<exists>t. d = t @ drop (length ''sha256:'') d"
  by (metis append_take_drop_id)

lemma status_image:
  assumes "status_digest img repo iid = Inr (pinned, digest)" "CHR ''@'' \<notin> set repo"
  shows "startswith digest ''sha256:'' \<and> reports iid digest \<and>
    (\<exists>r. pinned = r @ ''@'' @ digest \<and> CHR ''@'' \<notin> set r \<and> (repo \<noteq> [] \<longrightarrow> r = repo))"
proof -
  let ?s = "clean_image_id iid"
  note run = assms(1) [unfolded status_digest_def Let_def fstr_def]
  consider (repo) "CHR ''@'' \<in> set ?s" | (digest) "CHR ''@'' \<notin> set ?s" "startswith ?s ''sha256:''"
    | (hex) "CHR ''@'' \<notin> set ?s" "\<not> startswith ?s ''sha256:''" by blast
  then show ?thesis
  proof cases
    case repo
    then have d: "digest = behind_first (CHR ''@'') ?s" "startswith digest ''sha256:''"
      "pinned = (if repo \<noteq> [] then repo else before_first (CHR ''@'') ?s) @ ''@'' @ digest"
      using run by (auto simp: fleet_error_def split: if_splits)
    obtain u where "digest = u @ drop (length ''sha256:'') digest" using sha_drop [OF d(2)] by blast
    then have "?s = (before_first (CHR ''@'') ?s @ CHR ''@'' # u) @ drop (length ''sha256:'') digest"
      using at_split [OF repo] d(1) by (metis append.assoc append_Cons)
    then have "reports iid digest" by (rule reports_suffix) simp_all
    then show ?thesis using d(2,3) assms(2) before_first_free by auto
  next
    case digest
    then have d: "digest = ?s" "pinned = repo @ ''@'' @ digest" using run by auto
    obtain u where "?s = u @ drop (length ''sha256:'') digest" using sha_drop [OF digest(2)] d(1) by blast
    then have "reports iid digest" by (rule reports_suffix) simp_all
    then show ?thesis using d digest assms(2) by auto
  next
    case hex
    then have d: "digest = ''sha256:'' @ py_lower ?s" "pinned = repo @ ''@'' @ digest" "list_all hex_char ?s"
      using run by (auto simp: fleet_error_def split: if_splits)
    have "reports iid digest"
      by (rule reports_suffix [of _ "[]" ?s "py_lower ?s"]) (simp_all add: d(1) lower_lower [OF d(3)])
    moreover have "startswith digest ''sha256:''" by (simp add: d(1) startswith_def)
    ultimately show ?thesis using d(2) assms(2) by blast
  qed
qed

lemma resolved_image:
  assumes "resolve_pinned_image img iid = Inr (pinned, digest)"
  shows "startswith digest ''sha256:'' \<and>
    (\<exists>repo. pinned = repo @ ''@'' @ digest \<and> CHR ''@'' \<notin> set repo \<and>
       (fst (parse_image_repo_and_tag img) \<noteq> [] \<longrightarrow> repo = fst (parse_image_repo_and_tag img))) \<and>
    (snd (parse_image_repo_and_tag img) = Some digest \<or> (\<exists>i. iid = Some i \<and> reports i digest))"
proof -
  obtain repo tag where p: "parse_image_repo_and_tag img = (repo, tag)" by fastforce
  have free: "CHR ''@'' \<notin> set repo" using parse_repo_free [of img] p by simp
  show ?thesis
  proof (cases "\<exists>t. tag = Some t \<and> startswith t ''sha256:''")
    case True
    then show ?thesis using assms p free by (auto simp: resolve_pinned_image_def fstr_def)
  next
    case False
    then have none: "(case tag of Some t \<Rightarrow> if startswith t ''sha256:'' then Some t else None | None \<Rightarrow> None) = None"
      by (cases tag) auto
    then obtain i where i: "iid = Some i" "status_digest img repo i = Inr (pinned, digest)"
      using assms p by (auto simp: resolve_pinned_image_def fleet_error_def split: option.splits list.splits)
    then show ?thesis using status_image [OF i(2) free] p by auto
  qed
qed

text \<open>A pinned reference resolves to itself, whatever the pods report.\<close>

lemma pinned_image_stable:
  assumes "resolve_pinned_image img iid = Inr (pinned, digest)"
  shows "resolve_pinned_image pinned iid' = Inr (pinned, digest)"
proof -
  obtain repo where r: "pinned = repo @ CHR ''@'' # digest" "CHR ''@'' \<notin> set repo" using resolved_image [OF assms] by auto
  have "parse_image_repo_and_tag pinned = (repo, Some digest)" using r by (simp add: parse_image_repo_and_tag_def)
  then show ?thesis using resolved_image [OF assms] r(1) by (simp add: resolve_pinned_image_def fstr_def)
qed

section \<open>The pod that is trusted\<close>

lemma newest_pod_in: "newest_pod p qs \<in> insert p (set qs)"
  by (induction p qs rule: newest_pod.induct) auto

lemma of_revision_subset: "set (of_revision h pods) \<subseteq> set pods"
  by (auto simp: of_revision_def Let_def split: option.split)

lemma selected_pod:
  assumes "select_digest_source_pod dep pods replica_sets match_labels cs = Some pod"
  shows "pod \<in> set pods \<and> running_pod match_labels pod \<and> pod_images_match_spec pod cs"
proof -
  let ?pods = "filter (\<lambda>p. pod_images_match_spec p cs)
    (of_revision (current_pod_template_hash dep replica_sets) (filter (running_pod match_labels) pods))"
  obtain p ps where p: "?pods = p # ps" "pod = newest_pod p ps"
    using assms by (auto simp: select_digest_source_pod_def split: list.splits)
  then have "pod \<in> set ?pods" using newest_pod_in [of p ps] by simp
  then show ?thesis using of_revision_subset by fastforce
qed

text \<open>Where the image of a container in a snapshot comes from.\<close>

definition trusted_report :: "ApiPod list \<Rightarrow> ApiDeployment \<Rightarrow> ApiContainer list \<Rightarrow> string \<Rightarrow> string \<Rightarrow> bool" where
  "trusted_report pods dep cs name digest \<longleftrightarrow>
     (\<exists>pod \<in> set pods. running_pod (match_labels_of dep) pod \<and> pod_images_match_spec pod cs \<and>
        (\<exists>s i. status_named (statuses_of pod) name = Some s \<and> ct_image_id s = Some i \<and> reports i digest))"

definition image_trusted :: "ApiPod list \<Rightarrow> ApiDeployment \<Rightarrow> ApiContainer list \<Rightarrow> ApiContainer \<Rightarrow> ContainerSnapshot \<Rightarrow> bool" where
  "image_trusted pods dep cs k c \<longleftrightarrow>
     (if cn_digest_pinned c then
        startswith (cn_image_digest c) ''sha256:'' \<and>
        (\<exists>repo. cn_pinned_image c = repo @ ''@'' @ cn_image_digest c \<and>
           (fst (parse_image_repo_and_tag (ac_image k)) \<noteq> [] \<longrightarrow> repo = fst (parse_image_repo_and_tag (ac_image k)))) \<and>
        (snd (parse_image_repo_and_tag (ac_image k)) = Some (cn_image_digest c) \<or> trusted_report pods dep cs (ac_name k) (cn_image_digest c))
      else cn_pinned_image c = ac_image k \<and> cn_image_digest c = [])"

lemma read_container_image:
  assumes "read_container ss k = Inr c" "ss = [] \<or> (\<exists>pod \<in> set pods. running_pod (match_labels_of dep) pod \<and>
      pod_images_match_spec pod cs \<and> ss = statuses_of pod)"
  shows "cn_name c = ac_name k \<and> cn_image_tag c = ac_image k \<and> image_trusted pods dep cs k c"
proof -
  let ?iid = "case status_named ss (ac_name k) of Some s \<Rightarrow> ct_image_id s | None \<Rightarrow> None"
  have c: "cn_name c = ac_name k" "cn_image_tag c = ac_image k" "cn_digest_pinned c = (cn_image_digest c \<noteq> [])"
    "resolve_image_digest (ac_image k) ?iid True = Inr (cn_pinned_image c, cn_image_digest c)"
    using assms(1) by (auto simp: read_container_def result_simps)
  show ?thesis
  proof (cases "resolve_pinned_image (ac_image k) ?iid")
    case (Inl e)
    then show ?thesis using c by (simp add: resolve_image_digest_def image_trusted_def)
  next
    case (Inr r)
    then have r: "resolve_pinned_image (ac_image k) ?iid = Inr (cn_pinned_image c, cn_image_digest c)"
      using c(4) by (simp add: resolve_image_digest_def)
    have "trusted_report pods dep cs (ac_name k) (cn_image_digest c)" if "?iid = Some i" "reports i (cn_image_digest c)" for i
      using that assms(2) by (auto simp: trusted_report_def status_named_def split: option.splits)
    moreover have "cn_image_digest c \<noteq> []" using resolved_image [OF r] by (auto simp: startswith_def)
    ultimately show ?thesis using resolved_image [OF r] c unfolding image_trusted_def by auto
  qed
qed

lemma deployment_snapshot_parts:
  assumes "deployment_snapshot ns pods replica_sets dep = Inr w"
  shows "\<exists>p. pod_spec_of dep = Some p \<and> wl_name w = dep_name dep \<and> wl_namespace w = ns \<and>
    wl_config_map_refs w = extract_config_map_refs p \<and> extract_volumes p = Inr (wl_volumes w) \<and>
    mapE (read_container (case select_digest_source_pod dep pods replica_sets (match_labels_of dep) (ap_containers p) of
      Some pod \<Rightarrow> statuses_of pod | None \<Rightarrow> [])) (ap_containers p) = Inr (wl_containers w)"
  using assms by (auto simp: deployment_snapshot_def fleet_error_def result_simps Let_def split: option.splits if_splits)

lemma deployment_snapshot_images:
  assumes "deployment_snapshot ns pods replica_sets dep = Inr w" "c \<in> set (wl_containers w)"
  shows "\<exists>p k. pod_spec_of dep = Some p \<and> k \<in> set (ap_containers p) \<and> cn_name c = ac_name k \<and> cn_image_tag c = ac_image k \<and>
    image_trusted pods dep (ap_containers p) k c"
proof -
  obtain p where p: "pod_spec_of dep = Some p"
    "mapE (read_container (case select_digest_source_pod dep pods replica_sets (match_labels_of dep) (ap_containers p) of
      Some pod \<Rightarrow> statuses_of pod | None \<Rightarrow> [])) (ap_containers p) = Inr (wl_containers w)"
    using deployment_snapshot_parts [OF assms(1)] by blast
  let ?sel = "select_digest_source_pod dep pods replica_sets (match_labels_of dep) (ap_containers p)"
  let ?ss = "case ?sel of Some pod \<Rightarrow> statuses_of pod | None \<Rightarrow> []"
  obtain k where k: "k \<in> set (ap_containers p)" "read_container ?ss k = Inr c" using mapE_set [OF p(2) assms(2)] by blast
  have "?ss = [] \<or> (\<exists>pod \<in> set pods. running_pod (match_labels_of dep) pod \<and> pod_images_match_spec pod (ap_containers p) \<and> ?ss = statuses_of pod)"
  proof (cases ?sel)
    case (Some pod)
    then show ?thesis using selected_pod [OF Some] by auto
  qed simp
  from read_container_image [OF k(2) this] show ?thesis using p(1) k(1) by blast
qed

section \<open>The snapshot\<close>

text \<open>What the API answered when the listings succeeded.\<close>

definition listed :: "WorkloadReader \<Rightarrow> string \<Rightarrow> ReaderCall trace \<Rightarrow> ApiDeployment list \<Rightarrow> ApiPod list \<Rightarrow> ApiMeta option list \<Rightarrow> bool" where
  "listed rd ns h deployments pods replica_sets \<longleftrightarrow>
     rd_deployments rd ns h = Inr deployments \<and>
     rd_pods rd ns (h @ [(ListDeployments ns, True)]) = Inr pods \<and>
     rd_replica_sets rd ns (h @ [(ListDeployments ns, True), (ListPods ns, True)]) = Inr replica_sets"

definition fleet_failure :: "PyExc \<Rightarrow> bool" where
  "fleet_failure e \<longleftrightarrow> (\<exists>t. e = Raised ''FleetError'' t) \<or> (\<exists>b. e = Cancelled b)"

lemma fleet_failure_simps [simp]: "fleet_failure (Raised ''FleetError'' t)" "fleet_failure (Cancelled b)"
  by (auto simp: fleet_failure_def)

lemma wp_list_call [simp]:
  "wp (list_call ns c f) Q E =
     (\<lambda>h. case f h of
        Inl (ApiException status reason) \<Rightarrow>
          E (Raised ''FleetError'' (fstr [''Failed to query Kubernetes API for namespace '', squote ns, '': '', reason])) (h @ [(c, False)])
      | Inl (OtherFault (Raised k t)) \<Rightarrow>
          E (Raised ''FleetError'' (fstr [''Unexpected error querying Kubernetes API for namespace '', squote ns, '': '', t])) (h @ [(c, False)])
      | Inl (OtherFault e) \<Rightarrow> E e (h @ [(c, False)])
      | Inr x \<Rightarrow> Q x (h @ [(c, True)]))"
  by (auto simp: fun_eq_iff list_call_def fleet_error_def split: sum.splits ApiFault.splits PyExc.splits)

lemma wp_list_objects:
  "wp (list_objects rd ns) (\<lambda>(deployments, pods, replica_sets) h'. listed rd ns h deployments pods replica_sets)
     (\<lambda>e h'. fleet_failure e) h"
  by (auto simp: list_objects_def listed_def split: sum.splits ApiFault.splits PyExc.splits)

text \<open>The ConfigMaps a pod refers to, as its objects say.\<close>

definition refers_to :: "ApiPodSpec \<Rightarrow> string \<Rightarrow> bool" where
  "refers_to p n \<longleftrightarrow> n \<noteq> [] \<and>
     ((\<exists>k \<in> set (ap_containers p) \<union> set (ap_init_containers p).
         (\<exists>e \<in> set (ac_env k). \<exists>s r. ae_from e = Some s \<and> es_config_map s = Some r \<and> kr_name r = Some n) \<or>
         Some (Some n) \<in> set (ac_env_from k)) \<or>
      (\<exists>v \<in> set (ap_volumes p). \<exists>d. map_of (av_sources v) ''config_map'' = Some d \<and> map_of d ''name'' = Some (YStr n)) \<or>
      (\<exists>v \<in> set (ap_volumes p). \<exists>d ys e c. map_of (av_sources v) ''projected'' = Some d \<and> map_of d ''sources'' = Some (YSeq ys) \<and>
         YMap e \<in> set ys \<and> map_of e ''config_map'' = Some (YMap c) \<and> map_of c ''name'' = Some (YStr n)))"

lemma in_named [simp]: "n \<in> set (named x) \<longleftrightarrow> x = Some n \<and> n \<noteq> []"
  by (cases x; cases "the x") (auto simp: named_def)

lemma text_field_iff [simp]: "text_field k d = Some s \<longleftrightarrow> map_of d k = Some (YStr s)"
  by (auto simp: text_field_def split: option.split Yaml.split)

lemma container_refs: "n \<in> set (container_config_refs k) \<longleftrightarrow> n \<noteq> [] \<and>
    ((\<exists>e \<in> set (ac_env k). \<exists>s r. ae_from e = Some s \<and> es_config_map s = Some r \<and> kr_name r = Some n) \<or> Some (Some n) \<in> set (ac_env_from k))"
  by (force simp: container_config_refs_def split: option.splits)

lemma projected_refs: "n \<in> set (projected_source_refs y) \<longleftrightarrow> n \<noteq> [] \<and>
    (\<exists>e c. y = YMap e \<and> map_of e ''config_map'' = Some (YMap c) \<and> map_of c ''name'' = Some (YStr n))"
  by (cases y) (auto simp: projected_source_refs_def split: option.split Yaml.split, metis+)

lemma volume_refs: "n \<in> set (volume_config_refs v) \<longleftrightarrow> n \<noteq> [] \<and>
    ((\<exists>d. map_of (av_sources v) ''config_map'' = Some d \<and> map_of d ''name'' = Some (YStr n)) \<or>
     (\<exists>d ys e c. map_of (av_sources v) ''projected'' = Some d \<and> map_of d ''sources'' = Some (YSeq ys) \<and>
        YMap e \<in> set ys \<and> map_of e ''config_map'' = Some (YMap c) \<and> map_of c ''name'' = Some (YStr n)))"
proof -
  have "n \<in> set (case map_of (av_sources v) ''config_map'' of Some d \<Rightarrow> named (text_field ''name'' d) | None \<Rightarrow> []) \<longleftrightarrow>
      n \<noteq> [] \<and> (\<exists>d. map_of (av_sources v) ''config_map'' = Some d \<and> map_of d ''name'' = Some (YStr n))"
    by (cases "map_of (av_sources v) ''config_map''") auto
  moreover have "n \<in> set (case map_of d ''sources'' of Some (YSeq ys) \<Rightarrow> concat (map projected_source_refs ys) | _ \<Rightarrow> []) \<longleftrightarrow>
      n \<noteq> [] \<and> (\<exists>ys e c. map_of d ''sources'' = Some (YSeq ys) \<and> YMap e \<in> set ys \<and> map_of e ''config_map'' = Some (YMap c) \<and>
        map_of c ''name'' = Some (YStr n))" for d
    by (cases "map_of d ''sources''"; cases "the (map_of d ''sources'')") (auto simp: projected_refs Bex_def)
  ultimately show ?thesis
    by (cases "map_of (av_sources v) ''projected''") (simp_all add: volume_config_refs_def conj_disj_distribL)
qed

lemma refs_iff: "n \<in> set (extract_config_map_refs p) \<longleftrightarrow> refers_to p n"
proof -
  have "n \<in> set (extract_config_map_refs p) \<longleftrightarrow> (\<exists>k \<in> set (ap_containers p) \<union> set (ap_init_containers p). n \<in> set (container_config_refs k)) \<or>
      (\<exists>v \<in> set (ap_volumes p). n \<in> set (volume_config_refs v))"
    by (auto simp: extract_config_map_refs_def)
  then show ?thesis unfolding refers_to_def container_refs volume_refs by blast
qed

lemma wp_read_config_map:
  "wp (read_config_map rd ns name) (\<lambda>y h'. fst y = name \<and> (\<exists>h1. rd_config_map rd name ns h1 = Inr (snd y))) (\<lambda>e h'. fleet_failure e) h"
  by (auto simp: read_config_map_def fleet_error_def split: sum.splits ApiFault.splits PyExc.splits)

lemma wp_read_config_maps:
  "wp (read_config_maps rd ns names)
     (\<lambda>cms h'. list_all2 (\<lambda>n y. fst y = n \<and> (\<exists>h1. rd_config_map rd n ns h1 = Inr (snd y))) (sorted_set names) cms)
     (\<lambda>e h'. fleet_failure e) h"
  unfolding read_config_maps_def
  by (rule wp_mono [OF wp_amap [where I = "\<lambda>_. True"]]) (use wp_read_config_map in auto)

lemma deployment_snapshot_fails: "deployment_snapshot ns pods replica_sets dep = Inl e \<Longrightarrow> fleet_failure e"
proof -
  have container: "read_container ss k \<noteq> Inl e" for ss k e
    by (auto simp: read_container_def resolve_image_digest_def split: sum.splits)
  have containers: "mapE (read_container ss) ks \<noteq> Inl e" for ss ks e
    using container by (induction ks) (auto simp: result_simps)
  have volume: "extract_volume v = Inl e \<Longrightarrow> fleet_failure e" for v e
    by (auto simp: extract_volume_def fleet_error_def Let_def split: if_splits)
  have "mapE extract_volume vs = Inl e \<Longrightarrow> fleet_failure e" for vs e
    using volume by (induction vs) (auto simp: result_simps)
  then show "deployment_snapshot ns pods replica_sets dep = Inl e \<Longrightarrow> fleet_failure e"
    by (auto simp: deployment_snapshot_def fleet_error_def result_simps containers extract_volumes_def Let_def split: option.splits if_splits)
qed

lemma deployment_snapshots_fail: "mapE (deployment_snapshot ns pods replica_sets) deps = Inl e \<Longrightarrow> fleet_failure e"
  using deployment_snapshot_fails by (induction deps) (auto simp: result_simps)

text \<open>What a snapshot consists of.\<close>

definition snapshot_of :: "WorkloadReader \<Rightarrow> string \<Rightarrow> string list \<Rightarrow> ReaderCall trace \<Rightarrow> ClusterWorkloadSnapshot \<Rightarrow>
    ApiDeployment list \<Rightarrow> ApiPod list \<Rightarrow> bool" where
  "snapshot_of rd ns exclude h snap deployments pods \<longleftrightarrow>
     (\<exists>replica_sets wls custom. listed rd ns h deployments pods replica_sets \<and>
        mapE (deployment_snapshot ns pods replica_sets) (filter (\<lambda>d. \<not> excluded exclude d) deployments) = Inr wls \<and>
        cw_namespace snap = ns \<and> cw_workloads snap = dict_of (map (\<lambda>w. (wl_name w, w)) wls) \<and>
        list_all2 (\<lambda>n y. fst y = n \<and> (\<exists>h1. rd_config_map rd n ns h1 = Inr (snd y)))
          (sorted_set (concat (map wl_config_map_refs wls) @ custom)) (cw_config_maps snap))"

lemma wp_list_custom [simp]:
  "wp (list_custom_config_maps rd ns) Q E h \<longleftrightarrow>
     (case rd_config_maps rd ns h of
        Inl (ApiException status reason) \<Rightarrow> Q [] (h @ [(ListConfigMaps ns, False)])
      | Inl (OtherFault e) \<Rightarrow> E e (h @ [(ListConfigMaps ns, False)])
      | Inr names \<Rightarrow> Q (filter (\<lambda>n. n \<noteq> ''kube-root-ca.crt'' \<and> \<not> startswith n ''kube-'') (concat (map named names)))
          (h @ [(ListConfigMaps ns, True)]))"
  by (auto simp: list_custom_config_maps_def split: sum.splits ApiFault.splits)

lemma wp_read_workloads:
  "wp (read_workloads rd ns exclude) (\<lambda>snap h'. \<exists>deployments pods. snapshot_of rd ns exclude h snap deployments pods)
     (\<lambda>e h'. fleet_failure e \<or> (\<exists>h1. rd_config_maps rd ns h1 = Inl (OtherFault e))) h"
proof -
  have maps: "wp (read_config_maps rd ns (concat (map wl_config_map_refs wls) @ custom))
      (\<lambda>cms h2. \<exists>deployments pods. snapshot_of rd ns exclude h \<lparr>cw_namespace = ns,
         cw_workloads = dict_of (map (\<lambda>w. (wl_name w, w)) wls), cw_config_maps = cms, cw_captured_at = rd_now rd h2\<rparr> deployments pods)
      (\<lambda>e h'. fleet_failure e \<or> (\<exists>h1. rd_config_maps rd ns h1 = Inl (OtherFault e))) h1"
    if "listed rd ns h deployments pods replica_sets"
      "mapE (deployment_snapshot ns pods replica_sets) (filter (\<lambda>d. \<not> excluded exclude d) deployments) = Inr wls"
    for deployments pods replica_sets wls custom h1
  proof (rule wp_mono [OF wp_read_config_maps])
    fix cms h2
    assume "list_all2 (\<lambda>n y. fst y = n \<and> (\<exists>h1. rd_config_map rd n ns h1 = Inr (snd y)))
      (sorted_set (concat (map wl_config_map_refs wls) @ custom)) cms"
    then have "snapshot_of rd ns exclude h \<lparr>cw_namespace = ns, cw_workloads = dict_of (map (\<lambda>w. (wl_name w, w)) wls),
        cw_config_maps = cms, cw_captured_at = rd_now rd h2\<rparr> deployments pods"
      using that unfolding snapshot_of_def by auto
    then show "\<exists>deployments pods. snapshot_of rd ns exclude h \<lparr>cw_namespace = ns,
         cw_workloads = dict_of (map (\<lambda>w. (wl_name w, w)) wls), cw_config_maps = cms, cw_captured_at = rd_now rd h2\<rparr> deployments pods"
      by blast
  qed simp
  show ?thesis
    unfolding read_workloads_def wp_abind
  proof (rule wp_mono [OF wp_list_objects], goal_cases)
    case (1 x h1)
    obtain deployments pods replica_sets where x: "x = (deployments, pods, replica_sets)" by (cases x) auto
    show ?case
    proof (cases "mapE (deployment_snapshot ns pods replica_sets) (filter (\<lambda>d. \<not> excluded exclude d) deployments)")
      case (Inl e)
      then show ?thesis using deployment_snapshots_fail [OF Inl] x by simp
    next
      case (Inr wls)
      have "listed rd ns h deployments pods replica_sets" using 1 x by simp
      note m = maps [OF this Inr]
      show ?thesis
        using m [of "[]"] m by (auto simp: x Inr split: sum.split ApiFault.split)
    qed
  qed simp
qed

lemma read_workloads_snapshot:
  assumes "read_workloads rd ns exclude h = (Inr snap, h')"
  shows "\<exists>deployments pods. snapshot_of rd ns exclude h snap deployments pods"
  using wpD [OF wp_read_workloads assms] by simp

lemma snapshot_config_maps:
  assumes "list_all2 (\<lambda>n y. fst y = n \<and> P n y) (sorted_set names) cms"
  shows "fst ` set cms = set names"
proof -
  have "ns = map fst cms" if "list_all2 (\<lambda>n y. fst y = n \<and> P n y) ns cms" for ns
    using that by (induction rule: list_all2_induct) auto
  from this [OF assms] show ?thesis by (metis list.set_map set_sorted_set)
qed

lemma snapshot_workload:
  assumes "snapshot_of rd ns exclude h snap deployments pods" "(name, w) \<in> set (cw_workloads snap)"
  shows "\<exists>dep replica_sets. dep \<in> set deployments \<and> \<not> excluded exclude dep \<and> deployment_snapshot ns pods replica_sets dep = Inr w \<and>
    name = wl_name w \<and> set (wl_config_map_refs w) \<subseteq> fst ` set (cw_config_maps snap)"
proof -
  obtain replica_sets wls custom where s:
    "mapE (deployment_snapshot ns pods replica_sets) (filter (\<lambda>d. \<not> excluded exclude d) deployments) = Inr wls"
    "cw_workloads snap = dict_of (map (\<lambda>w. (wl_name w, w)) wls)"
    "list_all2 (\<lambda>n y. fst y = n \<and> (\<exists>h1. rd_config_map rd n ns h1 = Inr (snd y)))
          (sorted_set (concat (map wl_config_map_refs wls) @ custom)) (cw_config_maps snap)"
    using assms(1) unfolding snapshot_of_def by blast
  have "map_of (cw_workloads snap) name = Some w" using assms(2) unfolding s(2) by (intro map_of_is_SomeI) simp_all
  then have w: "w \<in> set wls" "name = wl_name w" unfolding s(2) map_of_dict_of by (auto dest!: map_of_SomeD)
  have "set (wl_config_map_refs w) \<subseteq> fst ` set (cw_config_maps snap)"
    unfolding snapshot_config_maps [OF s(3)] using w(1) by auto
  moreover obtain dep where "dep \<in> set deployments" "\<not> excluded exclude dep" "deployment_snapshot ns pods replica_sets dep = Inr w"
    using mapE_set [OF s(1) w(1)] by auto
  ultimately show ?thesis using w(2) by blast
qed

section \<open>Reading production\<close>


lemma rendered_config_map:
  assumes "render rn snap incident idx database = Inr b" "n \<in> fst ` set (cw_config_maps snap)"
  shows "\<exists>m \<in> set (tb_manifests b). mf_kind m = Some ''ConfigMap'' \<and> mf_name m = Some n \<and> mf_namespace m = Some (tb_namespace b)"
proof -
  have maps: "\<exists>m \<in> set (render_config_maps rn (cw_config_maps snap) ns incident idx dsn known).
      mf_kind m = Some ''ConfigMap'' \<and> mf_name m = Some n \<and> mf_namespace m = Some ns" for ns dsn known
    using assms(2) by (force simp: render_config_maps_def)
  show ?thesis
    using assms(1)
  proof (rule render_Inr [where c = "CHR ''a''" and cs = "[]"], goal_cases)
    case (1 ns db ds)
    then show ?case using maps [of ns "twin_dsn rn db" "map fst (cw_workloads snap)"] by (auto 0 3)
  qed
qed

text \<open>Whatever ConfigMap a deployment of the snapshot refers to, in the environment of a container or of an initialising
  container, as a source of an environment or in a volume, the snapshot holds the data the API answered for it, and every
  twin rendered from the snapshot is given a ConfigMap of that name in its namespace.\<close>

theorem twin_config_complete:
  assumes "read_workloads rd ns exclude h = (Inr snap, h')" "(name, w) \<in> set (cw_workloads snap)"
    "render rn snap incident idx database = Inr b"
  shows "\<exists>deployments dep p. rd_deployments rd ns h = Inr deployments \<and> dep \<in> set deployments \<and> dep_name dep = name \<and>
    pod_spec_of dep = Some p \<and>
    (\<forall>n. refers_to p n \<longrightarrow> (\<exists>data h1. (n, data) \<in> set (cw_config_maps snap) \<and> rd_config_map rd n ns h1 = Inr data) \<and>
      (\<exists>m \<in> set (tb_manifests b). mf_kind m = Some ''ConfigMap'' \<and> mf_name m = Some n \<and> mf_namespace m = Some (tb_namespace b)))"
proof -
  obtain deployments pods where s: "snapshot_of rd ns exclude h snap deployments pods" using read_workloads_snapshot [OF assms(1)] by blast
  obtain dep replica_sets where dep: "dep \<in> set deployments" "deployment_snapshot ns pods replica_sets dep = Inr w" "name = wl_name w"
    "set (wl_config_map_refs w) \<subseteq> fst ` set (cw_config_maps snap)"
    using snapshot_workload [OF s assms(2)] by blast
  obtain p where p: "pod_spec_of dep = Some p" "wl_config_map_refs w = extract_config_map_refs p" "dep_name dep = name"
    using deployment_snapshot_parts [OF dep(2)] dep(3) by auto
  have answered: "\<exists>h1. rd_config_map rd n ns h1 = Inr data" if "(n, data) \<in> set (cw_config_maps snap)" for n data
    using s that unfolding snapshot_of_def list_all2_conv_all_nth by (metis (no_types, lifting) fst_conv in_set_conv_nth snd_conv)
  have "(\<exists>data h1. (n, data) \<in> set (cw_config_maps snap) \<and> rd_config_map rd n ns h1 = Inr data) \<and>
      (\<exists>m \<in> set (tb_manifests b). mf_kind m = Some ''ConfigMap'' \<and> mf_name m = Some n \<and> mf_namespace m = Some (tb_namespace b))"
    if "refers_to p n" for n
  proof -
    have n: "n \<in> fst ` set (cw_config_maps snap)" using that dep(4) unfolding p(2) refs_iff [symmetric] by blast
    then obtain data where "(n, data) \<in> set (cw_config_maps snap)" by auto
    then show ?thesis using answered rendered_config_map [OF assms(3) n] by blast
  qed
  moreover have "rd_deployments rd ns h = Inr deployments" using s unfolding snapshot_of_def listed_def by blast
  ultimately show ?thesis using dep(1) p by blast
qed

lemma mapE_all: "mapE f xs = Inr ys \<Longrightarrow> x \<in> set xs \<Longrightarrow> \<exists>y. f x = Inr y"
  by (induction xs arbitrary: ys) (auto simp: result_simps)

lemma extracted_volume: "extract_volume v = Inr d \<Longrightarrow> \<exists>kv \<in> set SUPPORTED_VOLUME_SOURCES. map_of (av_sources v) (fst kv) \<noteq> None"
proof (rule ccontr)
  assume "extract_volume v = Inr d" "\<not> (\<exists>kv \<in> set SUPPORTED_VOLUME_SOURCES. map_of (av_sources v) (fst kv) \<noteq> None)"
  moreover from this have "List.map_filter (\<lambda>(attr, key). map_option (\<lambda>d. (key, YMap (serialize_k8s_obj d))) (map_of (av_sources v) attr))
      SUPPORTED_VOLUME_SOURCES = []"
    by (auto simp: map_filter_def filter_empty_conv)
  ultimately show False by (simp add: extract_volume_def fleet_error_def)
qed

definition reproducible :: "ApiDeployment \<Rightarrow> bool" where
  "reproducible dep \<longleftrightarrow> (\<exists>p. pod_spec_of dep = Some p \<and> ap_containers p \<noteq> [] \<and>
     (\<forall>v \<in> set (ap_volumes p). \<exists>kv \<in> set SUPPORTED_VOLUME_SOURCES. map_of (av_sources v) (fst kv) \<noteq> None))"

lemma read_reproducible: "deployment_snapshot ns pods replica_sets dep = Inr w \<Longrightarrow> reproducible dep"
  using mapE_all extracted_volume
  by (fastforce simp: reproducible_def deployment_snapshot_def fleet_error_def result_simps extract_volumes_def Let_def
      split: option.splits if_splits)

text \<open>C26: a read succeeds only when every deployment that is not excluded has containers and volumes that a twin can
  reproduce; otherwise it fails with a FleetError, and with no other exception, unless it is cancelled or the listing of
  the namespace's ConfigMaps fails with an exception that is not one of the API.\<close>

theorem reader_refuses:
  assumes "read_workloads rd ns exclude h = (r, h')"
  shows "case r of
      Inr snap \<Rightarrow> \<exists>deployments. rd_deployments rd ns h = Inr deployments \<and>
        (\<forall>dep \<in> set deployments. excluded exclude dep \<or> reproducible dep)
    | Inl e \<Rightarrow> (\<exists>t. e = Raised ''FleetError'' t) \<or> (\<exists>b. e = Cancelled b) \<or> (\<exists>h1. rd_config_maps rd ns h1 = Inl (OtherFault e))"
proof (cases r)
  case (Inl e)
  then show ?thesis using wpD [OF wp_read_workloads assms] by (auto simp: fleet_failure_def)
next
  case (Inr snap)
  then obtain deployments pods where "snapshot_of rd ns exclude h snap deployments pods"
    using read_workloads_snapshot assms by blast
  then obtain replica_sets wls where s: "rd_deployments rd ns h = Inr deployments"
    "mapE (deployment_snapshot ns pods replica_sets) (filter (\<lambda>d. \<not> excluded exclude d) deployments) = Inr wls"
    unfolding snapshot_of_def listed_def by blast
  have "reproducible dep" if "dep \<in> set deployments" "\<not> excluded exclude dep" for dep
    using mapE_all [OF s(2), of dep] that read_reproducible by fastforce
  then show ?thesis using Inr s(1) by auto
qed

section \<open>A namespace with one deployment\<close>

definition one_meta :: "string \<Rightarrow> ApiMeta" where
  "one_meta n = \<lparr>am_name = n, am_uid = None, am_labels = [(''app'', ''app'')], am_annotations = [], am_owners = []\<rparr>"

definition one_container :: ApiContainer where
  "one_container = \<lparr>ac_name = ''web'', ac_image = ''r/app:1'', ac_resources = None,
     ac_env = [\<lparr>ae_name = ''A'', ae_value = None, ae_from = Some \<lparr>es_config_map =
       Some \<lparr>kr_name = Some ''cfg'', kr_key = ''a'', kr_optional = None\<rparr>, es_secret = None, es_field = None\<rparr>\<rparr>],
     ac_env_from = [], ac_ports = [], ac_liveness = None, ac_readiness = None\<rparr>"

definition one_deployment :: ApiDeployment where
  "one_deployment = \<lparr>ad_meta = Some (one_meta ''app''), ad_spec = Some \<lparr>ads_replicas = Some 2, ads_match_labels = [(''app'', ''app'')],
     ads_pod_spec = Some \<lparr>ap_containers = [one_container], ap_init_containers = [],
       ap_volumes = [\<lparr>av_name = ''tmp'', av_sources = [(''empty_dir'', [(''size_limit'', YNull)])]\<rparr>]\<rparr>\<rparr>\<rparr>"

definition one_pod :: ApiPod where
  "one_pod = \<lparr>pd_meta = Some (one_meta ''app-1''), pd_status = Some \<lparr>ps_phase = Some ''Running'',
     ps_statuses = [\<lparr>ct_name = ''web'', ct_image = Some ''r/app:1'', ct_image_id = Some ''docker-pullable://r/app@sha256:ab''\<rparr>],
     ps_start_time = None\<rparr>\<rparr>"

definition one_reader :: WorkloadReader where
  "one_reader = \<lparr>rd_deployments = \<lambda>_ _. Inr [one_deployment], rd_pods = \<lambda>_ _. Inr [one_pod], rd_replica_sets = \<lambda>_ _. Inr [],
     rd_config_maps = \<lambda>_ _. Inr [Some ''kube-root-ca.crt''], rd_config_map = \<lambda>_ _ _. Inr [(''a'', ''1'')], rd_now = \<lambda>_. 0\<rparr>"

definition one_workload :: WorkloadSnapshot where
  "one_workload = \<lparr>wl_name = ''app'', wl_namespace = ''ust-prod'', wl_component = None, wl_labels = [(''app'', ''app'')], wl_annotations = [],
     wl_replicas = 2,
     wl_containers = [\<lparr>cn_name = ''web'', cn_image_tag = ''r/app:1'', cn_image_digest = ''sha256:ab'', cn_pinned_image = ''r/app@sha256:ab'',
       cn_digest_pinned = True, cn_resources = \<lparr>rs_requests = [], rs_limits = []\<rparr>,
       cn_env = [\<lparr>ev_name = ''A'', ev_value = None, ev_value_from = Some [(''configMapKeyRef'',
         YMap [(''name'', YStr ''cfg''), (''key'', YStr ''a''), (''optional'', YNull)])]\<rparr>],
       cn_ports = [], cn_liveness = None, cn_readiness = None\<rparr>],
     wl_config_map_refs = [''cfg''], wl_volumes = [[(''name'', YStr ''tmp''), (''emptyDir'', YMap [])]]\<rparr>"

definition one_snapshot :: ClusterWorkloadSnapshot where
  "one_snapshot = \<lparr>cw_namespace = ''ust-prod'', cw_workloads = [(''app'', one_workload)], cw_config_maps = [(''cfg'', [(''a'', ''1'')])],
     cw_captured_at = 0\<rparr>"

lemma one_deployment_snapshot: "deployment_snapshot ''ust-prod'' [one_pod] [] one_deployment = Inr one_workload"
  by code_simp

lemma one_included: "\<not> excluded [] one_deployment"
  by (simp add: excluded_def split: option.split)

lemma one_read: "\<exists>h'. read_workloads one_reader ''ust-prod'' [] [] = (Inr one_snapshot, h')"
proof -
  have "sorted_set [''cfg''] = [''cfg'']" by code_simp
  then show ?thesis
    by (simp add: read_workloads_def list_objects_def list_call_def list_custom_config_maps_def read_config_maps_def read_config_map_def
        one_reader_def one_included one_deployment_snapshot abind_def acall_api_def acatch_def aret_def aask_def alift_def
        one_snapshot_def one_workload_def named_def dict_of_def)
qed

lemma one_rendered: "\<exists>b. render plain_renderer one_snapshot ''i'' 0 None = Inr b"
proof -
  have "\<not> isl (render plain_renderer one_snapshot ''i'' 0 None)" by code_simp
  then show ?thesis by (cases "render plain_renderer one_snapshot ''i'' 0 None") auto
qed

lemma one_answers: "rd_deployments one_reader ns h = Inr [one_deployment]" "rd_pods one_reader ns h = Inr [one_pod]"
  by (simp_all add: one_reader_def)

lemma one_pods: "pod_spec_of one_deployment = Some p \<Longrightarrow> ap_containers p = [one_container] \<and> refers_to p ''cfg''"
  by (auto simp: pod_spec_of_def one_deployment_def one_container_def refers_to_def)


lemma twin_config_complete_witness:
  "\<exists>b. render plain_renderer one_snapshot ''i'' 0 None = Inr b \<and> (''cfg'', [(''a'', ''1'')]) \<in> set (cw_config_maps one_snapshot) \<and>
     (\<exists>m \<in> set (tb_manifests b). mf_kind m = Some ''ConfigMap'' \<and> mf_name m = Some ''cfg'')"
proof -
  obtain h' where s: "read_workloads one_reader ''ust-prod'' [] [] = (Inr one_snapshot, h')" using one_read by blast
  obtain b where b: "render plain_renderer one_snapshot ''i'' 0 None = Inr b" using one_rendered by blast
  have w: "(''app'', one_workload) \<in> set (cw_workloads one_snapshot)" by (simp add: one_snapshot_def)
  have "rd_config_map one_reader n ns h1 = Inr [(''a'', ''1'')]" for n ns h1 by (simp add: one_reader_def)
  then show ?thesis using twin_config_complete [OF s w b] b one_pods unfolding one_answers by fastforce
qed

lemma reader_refuses_witness:
  "(\<exists>h'. read_workloads one_reader ''ust-prod'' [] [] = (Inr one_snapshot, h')) \<and> reproducible one_deployment"
proof -
  obtain h' where s: "read_workloads one_reader ''ust-prod'' [] [] = (Inr one_snapshot, h')" using one_read by blast
  show ?thesis using reader_refuses [OF s] s one_included unfolding one_answers by auto
qed

text \<open>Only the names of the images are compared: a running pod with the image of an older tag, of another revision when the
  current one has no running pod, pins the new reference to the old digest.\<close>

definition older_pod :: ApiPod where
  "older_pod = \<lparr>pd_meta = Some (one_meta ''app-0''), pd_status = Some \<lparr>ps_phase = Some ''Running'',
     ps_statuses = [\<lparr>ct_name = ''web'', ct_image = Some ''r/app:0'', ct_image_id = Some ''r/app@sha256:cd''\<rparr>], ps_start_time = None\<rparr>\<rparr>"

lemma stale_digest_pinned:
  "\<exists>w c. deployment_snapshot ''ust-prod'' [older_pod] [] one_deployment = Inr w \<and> wl_containers w = [c] \<and> cn_image_tag c = ''r/app:1'' \<and>
     cn_pinned_image c = ''r/app@sha256:cd'' \<and> cn_digest_pinned c"
proof -
  have "case deployment_snapshot ''ust-prod'' [older_pod] [] one_deployment of Inl e \<Rightarrow> False
      | Inr w \<Rightarrow> (case wl_containers w of [c] \<Rightarrow> cn_image_tag c = ''r/app:1'' \<and> cn_pinned_image c = ''r/app@sha256:cd'' \<and> cn_digest_pinned c
        | _ \<Rightarrow> False)" by code_simp
  then show ?thesis by (auto split: sum.splits list.splits)
qed

text \<open>The spelling of a nested source of a volume is not the API's, which is \<open>downwardAPI\<close>.\<close>

lemma nested_downward_api: "camelize_key ''downward_api'' = ''downwardApi''"
  by code_simp

end
