(* ===== verification/Gateway.thy ===== *)
theory Gateway
  imports Url
begin

text \<open>
  The mirror gateway (\<^verbatim>\<open>services/mirror_gateway/core.py\<close>, \<^verbatim>\<open>app.py\<close>): registrations of twins, the fan-out of
  production requests into bounded queues, and the workers that drain them, as a step relation whose steps are
  the requests of the API and the moves of the workers.  A worker moves when it takes a request from its queue and
  when the delivery ends: with an answer, with an error that it counts, or with one it does not catch, which
  ends it.
\<close>

section \<open>Requests and registrations\<close>

record MirroredRequest =
  mq_method :: string
  mq_path :: string
  mq_query :: string
  mq_headers :: "(string \<times> string) list"
  mq_body :: string

text \<open>\<open>tr_sending\<close> is the request the worker is delivering, \<open>tr_crashed\<close> whether it has ended.\<close>

record TwinRegistration =
  tr_twin_id :: string
  tr_base_url :: string
  tr_incident_id :: string
  tr_queue :: "MirroredRequest list"
  tr_sending :: "MirroredRequest option"
  tr_crashed :: bool
  tr_delivered :: int
  tr_dropped :: int
  tr_paths :: "(string \<times> int) list"

record Gateway =
  gw_queue_maxsize :: int
  gw_twins :: "(string \<times> TwinRegistration) list"
  gw_prod_delivered :: int
  gw_prod_paths :: "(string \<times> int) list"
  gw_delivered_total :: "(string \<times> int) list"
  gw_dropped_total :: "(string \<times> int) list"

record GatewayStats =
  gs_twin_id :: string
  gs_delivered :: int
  gs_dropped :: int
  gs_drop_ratio :: rat
  gs_paths :: "(string \<times> int) list"

text \<open>\<open>d[k] = d.get(k, 0) + 1\<close>\<close>

definition count_up :: "string \<Rightarrow> (string \<times> int) list \<Rightarrow> (string \<times> int) list" where
  "count_up k d = dict_put k ((case map_of d k of Some n \<Rightarrow> n | None \<Rightarrow> 0) + 1) d"

definition touch :: "string \<Rightarrow> (string \<times> int) list \<Rightarrow> (string \<times> int) list" where
  "touch k d = (if map_of d k = None then dict_put k 0 d else d)"

section \<open>The manager\<close>

definition new_gateway :: "int \<Rightarrow> Gateway" where
  "new_gateway maxsize = \<lparr>gw_queue_maxsize = maxsize, gw_twins = [], gw_prod_delivered = 0, gw_prod_paths = [],
     gw_delivered_total = [], gw_dropped_total = []\<rparr>"

definition record_prod_request :: "string \<Rightarrow> Gateway \<Rightarrow> Gateway" where
  "record_prod_request path g = g\<lparr>gw_prod_delivered := gw_prod_delivered g + 1, gw_prod_paths := count_up path (gw_prod_paths g)\<rparr>"

definition unregister_twin :: "string \<Rightarrow> Gateway \<Rightarrow> bool \<times> Gateway" where
  "unregister_twin twin g =
     (case map_of (gw_twins g) twin of
        None \<Rightarrow> (False, g)
      | Some t \<Rightarrow> (True, g\<lparr>gw_twins := dict_pop twin (gw_twins g)\<rparr>))"

definition new_registration :: "string \<Rightarrow> string \<Rightarrow> string \<Rightarrow> TwinRegistration" where
  "new_registration twin base incident = \<lparr>tr_twin_id = twin, tr_base_url = base, tr_incident_id = py_strip incident, tr_queue = [],
     tr_sending = None, tr_crashed = False, tr_delivered = 0, tr_dropped = 0, tr_paths = []\<rparr>"

definition register_twin :: "string \<Rightarrow> string \<Rightarrow> string \<Rightarrow> Gateway \<Rightarrow> PyExc + Gateway" where
  "register_twin twin_id base_url incident g =
     (let twin = py_strip twin_id; base = rstrip_char (CHR ''/'') (py_strip base_url) in
      if twin = [] then Inl (Raised ''ValueError'' ''twin_id cannot be empty'')
      else if base = [] then Inl (Raised ''ValueError'' ''base_url cannot be empty'')
      else (let g1 = snd (unregister_twin twin g) in
        Inr (g1\<lparr>gw_twins := dict_put twin (new_registration twin base incident) (gw_twins g1),
          gw_delivered_total := touch twin (gw_delivered_total g1), gw_dropped_total := touch twin (gw_dropped_total g1)\<rparr>)))"

text \<open>\<open>asyncio.Queue.full\<close>: a maximum size that is not positive bounds nothing.\<close>

definition queue_full :: "int \<Rightarrow> MirroredRequest list \<Rightarrow> bool" where
  "queue_full maxsize q \<longleftrightarrow> 0 < maxsize \<and> maxsize \<le> int (length q)"

definition offer :: "int \<Rightarrow> MirroredRequest \<Rightarrow> TwinRegistration \<Rightarrow> TwinRegistration" where
  "offer maxsize r t =
     (if queue_full maxsize (tr_queue t) then t\<lparr>tr_dropped := tr_dropped t + 1\<rparr> else t\<lparr>tr_queue := tr_queue t @ [r]\<rparr>)"

definition dispatch_to_twins :: "MirroredRequest \<Rightarrow> Gateway \<Rightarrow> Gateway" where
  "dispatch_to_twins r g =
     g\<lparr>gw_twins := map (\<lambda>(k, t). (k, offer (gw_queue_maxsize g) r t)) (gw_twins g),
       gw_dropped_total := foldl (\<lambda>d (k, t). if queue_full (gw_queue_maxsize g) (tr_queue t) then count_up (tr_twin_id t) d else d)
         (gw_dropped_total g) (gw_twins g)\<rparr>"

definition build_stats :: "TwinRegistration \<Rightarrow> GatewayStats" where
  "build_stats t =
     (let total = tr_delivered t + tr_dropped t in
      \<lparr>gs_twin_id = tr_twin_id t, gs_delivered = tr_delivered t, gs_dropped = tr_dropped t,
       gs_drop_ratio = (if 0 < total then of_int (tr_dropped t) / of_int total else 0), gs_paths = tr_paths t\<rparr>)"

definition get_prod_stats :: "Gateway \<Rightarrow> GatewayStats" where
  "get_prod_stats g = \<lparr>gs_twin_id = ''prod'', gs_delivered = gw_prod_delivered g, gs_dropped = 0, gs_drop_ratio = 0,
     gs_paths = gw_prod_paths g\<rparr>"

definition get_gateway_stats :: "string \<Rightarrow> Gateway \<Rightarrow> GatewayStats option" where
  "get_gateway_stats twin g =
     (if twin = ''prod'' then Some (get_prod_stats g) else map_option build_stats (map_of (gw_twins g) twin))"

definition get_all_gateway_stats :: "Gateway \<Rightarrow> (string \<times> GatewayStats) list" where
  "get_all_gateway_stats g = map (\<lambda>(k, t). (k, build_stats t)) (gw_twins g)"

section \<open>The workers\<close>

definition HOP_BY_HOP_HEADERS :: "string list" where
  "HOP_BY_HOP_HEADERS = [''host'', ''content-length'', ''connection'', ''transfer-encoding'', ''keep-alive'', ''proxy-authenticate'',
     ''proxy-authorization'', ''te'', ''trailers'', ''upgrade'']"

definition strip_hop_by_hop_headers :: "(string \<times> string) list \<Rightarrow> (string \<times> string) list" where
  "strip_hop_by_hop_headers hs = filter (\<lambda>(k, v). py_lower k \<notin> set HOP_BY_HOP_HEADERS) hs"

record Outgoing =
  og_method :: string
  og_url :: string
  og_headers :: "(string \<times> string) list"
  og_body :: string

text \<open>The incident of the registration, or else the one the request names.\<close>

definition incident_value :: "TwinRegistration \<Rightarrow> MirroredRequest \<Rightarrow> string" where
  "incident_value t r =
     (if tr_incident_id t \<noteq> [] then tr_incident_id t
      else (case find (\<lambda>(k, v). py_lower k = ''x-understudy-incident'') (mq_headers r) of Some (k, v) \<Rightarrow> v | None \<Rightarrow> []))"

definition worker_request :: "TwinRegistration \<Rightarrow> MirroredRequest \<Rightarrow> Outgoing" where
  "worker_request t r =
     (let headers = dict_put ''X-Understudy-Incident'' (incident_value t r)
            (dict_put ''X-Understudy-Twin'' (tr_twin_id t)
              (dict_put ''X-Understudy-Shadow'' ''1'' (strip_hop_by_hop_headers (mq_headers r))));
          url = rstrip_char (CHR ''/'') (tr_base_url t) @ ''/'' @ lstrip_char (CHR ''/'') (mq_path r) in
      \<lparr>og_method = mq_method r, og_url = (if mq_query r \<noteq> [] then url @ ''?'' @ mq_query r else url), og_headers = headers,
       og_body = mq_body r\<rparr>)"

definition set_twin :: "string \<Rightarrow> TwinRegistration \<Rightarrow> Gateway \<Rightarrow> Gateway" where
  "set_twin k t g = g\<lparr>gw_twins := dict_put k t (gw_twins g)\<rparr>"

text \<open>\<open>queue.get()\<close>, and the three ways in which a delivery ends.\<close>

definition worker_take :: "TwinRegistration \<Rightarrow> TwinRegistration option" where
  "worker_take t =
     (if tr_crashed t \<or> tr_sending t \<noteq> None then None
      else (case tr_queue t of [] \<Rightarrow> None | r # q \<Rightarrow> Some (t\<lparr>tr_queue := q, tr_sending := Some r\<rparr>)))"

definition worker_sent :: "MirroredRequest \<Rightarrow> TwinRegistration \<Rightarrow> TwinRegistration" where
  "worker_sent r t = t\<lparr>tr_sending := None, tr_delivered := tr_delivered t + 1, tr_paths := count_up (mq_path r) (tr_paths t)\<rparr>"

definition worker_failed :: "TwinRegistration \<Rightarrow> TwinRegistration" where
  "worker_failed t = t\<lparr>tr_sending := None, tr_dropped := tr_dropped t + 1\<rparr>"

definition worker_crashed :: "TwinRegistration \<Rightarrow> TwinRegistration" where
  "worker_crashed t = t\<lparr>tr_sending := None, tr_crashed := True\<rparr>"

section \<open>The API\<close>

record RegistrationRequest =
  rr_twin_id :: string
  rr_base_url :: string
  rr_incident_id :: string

text \<open>\<open>^[a-zA-Z0-9_\-\.]+$\<close>\<close>

definition twin_id_char :: "char \<Rightarrow> bool" where
  "twin_id_char c \<longleftrightarrow> safe_char c \<or> c \<in> set ''-.''"

definition validate_twin_id :: "string \<Rightarrow> string option" where
  "validate_twin_id v =
     (let t = py_strip v in if t \<noteq> [] \<and> length t \<le> 128 \<and> list_all twin_id_char t then Some t else None)"

definition validate_base_url :: "string \<Rightarrow> string option" where
  "validate_base_url v =
     (let t = rstrip_char (CHR ''/'') (py_strip v) in
      if t = [] then None
      else (case urlsplit t of
        None \<Rightarrow> None
      | Some u \<Rightarrow> if (url_scheme u = ''http'' \<or> url_scheme u = ''https'') \<and> url_netloc u \<noteq> [] then Some t else None))"

definition validate_incident_id :: "string \<Rightarrow> string option" where
  "validate_incident_id v = (let t = py_strip v in if length t \<le> 128 then Some t else None)"

definition validate_registration :: "RegistrationRequest \<Rightarrow> RegistrationRequest option" where
  "validate_registration p =
     (case (validate_twin_id (rr_twin_id p), validate_base_url (rr_base_url p), validate_incident_id (rr_incident_id p)) of
        (Some t, Some b, Some i) \<Rightarrow> Some \<lparr>rr_twin_id = t, rr_base_url = b, rr_incident_id = i\<rparr>
      | _ \<Rightarrow> None)"

text \<open>\<open>POST /twins\<close>, \<open>DELETE /twins/{id}\<close> and \<open>GET /twins/{id}/stats\<close>: the status and the new state or the statistics.\<close>

definition api_register :: "RegistrationRequest \<Rightarrow> Gateway \<Rightarrow> int \<times> Gateway" where
  "api_register p g =
     (case validate_registration p of
        None \<Rightarrow> (422, g)
      | Some q \<Rightarrow> (case register_twin (rr_twin_id q) (rr_base_url q) (rr_incident_id q) g of
          Inl e \<Rightarrow> (500, g) | Inr g' \<Rightarrow> (201, g')))"

definition api_unregister :: "string \<Rightarrow> Gateway \<Rightarrow> int \<times> Gateway" where
  "api_unregister twin g = (let (known, g') = unregister_twin (py_strip twin) g in (if known then 200 else 404, g'))"

definition api_stats :: "string \<Rightarrow> Gateway \<Rightarrow> int \<times> GatewayStats option" where
  "api_stats twin g = (case get_gateway_stats (py_strip twin) g of None \<Rightarrow> (404, None) | Some s \<Rightarrow> (200, Some s))"

text \<open>What production answers: a response with its headers and body, a timeout, or another request error.\<close>

datatype ProdReply = ProdResponse int "(string \<times> string) list" string | ProdTimeout string | ProdUnreachable string

definition mirrored :: "MirroredRequest \<Rightarrow> MirroredRequest" where
  "mirrored req = req\<lparr>mq_headers := strip_hop_by_hop_headers (mq_headers req)\<rparr>"

text \<open>The path of the route is not that of the URL: it is decoded and lacks the leading slash.\<close>

definition prod_request :: "string \<Rightarrow> string \<Rightarrow> MirroredRequest \<Rightarrow> Outgoing" where
  "prod_request prod_base path req =
     (let url = prod_base @ ''/'' @ lstrip_char (CHR ''/'') path in
      \<lparr>og_method = mq_method req, og_url = (if mq_query req \<noteq> [] then url @ ''?'' @ mq_query req else url),
       og_headers = strip_hop_by_hop_headers (mq_headers req), og_body = mq_body req\<rparr>)"

definition response_headers :: "(string \<times> string) list \<Rightarrow> (string \<times> string) list" where
  "response_headers hs =
     filter (\<lambda>(k, v). py_lower k \<notin> {''connection'', ''transfer-encoding'', ''content-encoding'', ''content-length''}) hs"

definition proxy_reply :: "ProdReply \<Rightarrow> int \<times> (string \<times> string) list \<times> string" where
  "proxy_reply r = (case r of
     ProdResponse code hs body \<Rightarrow> (code, response_headers hs, body)
   | ProdTimeout t \<Rightarrow> (504, [], fstr [''Production target timed out: '', t])
   | ProdUnreachable t \<Rightarrow> (502, [], fstr [''Production target unreachable: '', t]))"

definition proxy_request ::
    "string \<Rightarrow> (Outgoing \<Rightarrow> ProdReply) \<Rightarrow> string \<Rightarrow> MirroredRequest \<Rightarrow> Gateway \<Rightarrow>
     (int \<times> (string \<times> string) list \<times> string) \<times> Gateway" where
  "proxy_request prod_base answer path req g =
     (let g' = record_prod_request (mq_path req) (dispatch_to_twins (mirrored req) g) in
      (proxy_reply (answer (prod_request prod_base path req)), g'))"

section \<open>Steps\<close>

datatype GwEvent =
    GwRegister RegistrationRequest
  | GwUnregister string
  | GwRequest MirroredRequest
  | GwTake string
  | GwSent string
  | GwFailed string
  | GwCrashed string
  | GwClose

inductive gw_step :: "Gateway \<Rightarrow> GwEvent \<Rightarrow> Gateway \<Rightarrow> bool" where
  StepRegister: "gw_step g (GwRegister p) (snd (api_register p g))"
| StepUnregister: "gw_step g (GwUnregister twin) (snd (api_unregister twin g))"
| StepRequest: "gw_step g (GwRequest req) (record_prod_request (mq_path req) (dispatch_to_twins (mirrored req) g))"
| StepTake: "map_of (gw_twins g) k = Some t \<Longrightarrow> worker_take t = Some t' \<Longrightarrow> gw_step g (GwTake k) (set_twin k t' g)"
| StepSent: "map_of (gw_twins g) k = Some t \<Longrightarrow> tr_sending t = Some r \<Longrightarrow>
    gw_step g (GwSent k) ((set_twin k (worker_sent r t) g)\<lparr>gw_delivered_total := count_up k (gw_delivered_total g)\<rparr>)"
| StepFailed: "map_of (gw_twins g) k = Some t \<Longrightarrow> tr_sending t = Some r \<Longrightarrow>
    gw_step g (GwFailed k) ((set_twin k (worker_failed t) g)\<lparr>gw_dropped_total := count_up k (gw_dropped_total g)\<rparr>)"
| StepCrashed: "map_of (gw_twins g) k = Some t \<Longrightarrow> tr_sending t = Some r \<Longrightarrow>
    gw_step g (GwCrashed k) (set_twin k (worker_crashed t) g)"
| StepClose: "gw_step g GwClose (g\<lparr>gw_twins := []\<rparr>)"

lemma proxy_request_step: "gw_step g (GwRequest req) (snd (proxy_request prod_base answer path req g))"
  using StepRequest by (simp add: proxy_request_def Let_def)

text \<open>Runs of a gateway from its start, with the events in their order.\<close>

inductive gw_run :: "int \<Rightarrow> GwEvent list \<Rightarrow> Gateway \<Rightarrow> bool" for maxsize where
  RunStart: "gw_run maxsize [] (new_gateway maxsize)"
| RunStep: "gw_run maxsize es g \<Longrightarrow> gw_step g e g' \<Longrightarrow> gw_run maxsize (es @ [e]) g'"


inductive_cases gw_stepE: "gw_step g e g'"
inductive_cases gw_run_snocE: "gw_run maxsize (es @ [e]) g"

code_pred (modes: i \<Rightarrow> i \<Rightarrow> i \<Rightarrow> bool) gw_step .

section \<open>What the registrations account for\<close>

text \<open>The requests offered to a twin since it was last registered.\<close>

fun offered_step :: "string \<Rightarrow> int \<Rightarrow> GwEvent \<Rightarrow> int" where
  "offered_step twin n (GwRegister p) =
     (case validate_registration p of Some q \<Rightarrow> if rr_twin_id q = twin then 0 else n | None \<Rightarrow> n)"
| "offered_step twin n (GwRequest req) = n + 1"
| "offered_step twin n e = n"

definition offered :: "string \<Rightarrow> GwEvent list \<Rightarrow> int" where
  "offered twin es = foldl (offered_step twin) 0 es"

lemma offered_snoc [simp]: "offered twin (es @ [e]) = offered_step twin (offered twin es) e"
  by (simp add: offered_def)

fun count_requests :: "GwEvent list \<Rightarrow> int" where
  "count_requests [] = 0"
| "count_requests (GwRequest req # es) = 1 + count_requests es"
| "count_requests (e # es) = count_requests es"

lemma count_requests_append [simp]: "count_requests (es @ fs) = count_requests es + count_requests fs"
  by (induction es rule: count_requests.induct) auto

text \<open>The requests a twin has in its queue, on their way, or lost with the worker that died of them.\<close>

definition pending :: "TwinRegistration \<Rightarrow> int" where
  "pending t = int (length (tr_queue t)) + (if tr_sending t = None then 0 else 1) + (if tr_crashed t then 1 else 0)"

definition total :: "(string \<times> int) list \<Rightarrow> int" where
  "total d = sum_list (map snd d)"

lemma total_count_up: "distinct (map fst d) \<Longrightarrow> total (count_up k d) = total d + 1"
proof (induction d)
  case (Cons kv d)
  have "map_of d k = None" if "k = fst kv" using Cons.prems that by (auto simp: map_of_eq_None_iff)
  then show ?case using Cons by (cases kv) (auto simp: total_def count_up_def)
qed (simp add: total_def count_up_def)

lemma distinct_count_up [simp]: "distinct (map fst d) \<Longrightarrow> distinct (map fst (count_up k d))"
  by (simp add: count_up_def)

definition accounted :: "int \<Rightarrow> int \<Rightarrow> TwinRegistration \<Rightarrow> bool" where
  "accounted maxsize n t \<longleftrightarrow>
     tr_delivered t + tr_dropped t + pending t = n \<and> 0 \<le> tr_delivered t \<and> 0 \<le> tr_dropped t \<and>
     (0 < maxsize \<longrightarrow> int (length (tr_queue t)) \<le> maxsize) \<and>
     distinct (map fst (tr_paths t)) \<and> total (tr_paths t) = tr_delivered t \<and>
     (tr_crashed t \<longrightarrow> tr_sending t = None)"

lemma accounted_new: "accounted maxsize 0 (new_registration twin base incident)"
  by (simp add: accounted_def new_registration_def pending_def total_def)

lemma accounted_offer: "accounted maxsize n t \<Longrightarrow> accounted maxsize (n + 1) (offer maxsize r t)"
  by (auto simp: accounted_def offer_def queue_full_def pending_def)

lemma accounted_take: "accounted maxsize n t \<Longrightarrow> worker_take t = Some t' \<Longrightarrow> accounted maxsize n t'"
  by (auto simp: accounted_def worker_take_def pending_def split: if_splits list.splits)

lemma accounted_end:
  assumes "accounted maxsize n t" "tr_sending t = Some r"
  shows "accounted maxsize n (worker_sent r t)" "accounted maxsize n (worker_failed t)" "accounted maxsize n (worker_crashed t)"
  using assms by (auto simp: accounted_def worker_sent_def worker_failed_def worker_crashed_def pending_def total_count_up)

lemma dict_put_entries: "distinct (map fst d) \<Longrightarrow> set (dict_put k v d) = insert (k, v) {kv \<in> set d. fst kv \<noteq> k}"
  by (induction d) (auto simp: rev_image_eqI split: if_splits)

lemma map_fst_values [simp]: "map fst (map (\<lambda>(k, t). (k, f t)) kts) = map fst kts"
  by (simp add: case_prod_unfold comp_def)

lemma letter_left:
  assumes "c \<in> set s" "ascii_letter c"
  shows "rstrip_char (CHR ''/'') (py_strip s) \<noteq> []"
proof -
  have c: "\<not> py_space c" "c \<noteq> CHR ''/''" using assms(2) by (auto simp: ascii_letter_def safe_char_def py_space_def py_digit_def Let_def)
  have keep: "x \<in> set (dropWhile P xs)" if "x \<in> set xs" "\<not> P x" for x P and xs :: string
    using that by (induction xs) auto
  have "c \<in> set (py_strip s)" using assms(1) c(1) by (auto simp: py_strip_def intro!: keep)
  then have "c \<in> set (rstrip_char (CHR ''/'') (py_strip s))" using c(2) by (auto simp: rstrip_char_def intro!: keep)
  then show ?thesis by auto
qed

lemma scheme_letter:
  assumes "urlsplit s = Some u" "url_scheme u \<noteq> []"
  shows "\<exists>c \<in> set s. ascii_letter c"
proof -
  have clean: "set (clean_url s) \<subseteq> set s" using set_dropWhileD by (fastforce simp: clean_url_def)
  define sch where "sch = before_first (CHR '':'') (clean_url s)"
  have "url_scheme u = fst (split_scheme (clean_url s))"
    using assms(1) by (auto simp: urlsplit_def Let_def split: prod.splits if_splits)
  then have "sch \<noteq> []" "ascii_letter (hd sch)"
    using assms(2) by (auto simp: split_scheme_def sch_def Let_def split: if_splits)
  moreover have "set sch \<subseteq> set (clean_url s)" using set_takeWhileD by (fastforce simp: sch_def before_first_def)
  ultimately show ?thesis using clean by (meson hd_in_set subsetD)
qed

definition stored_base :: "RegistrationRequest \<Rightarrow> string" where
  "stored_base q = rstrip_char (CHR ''/'') (py_strip (rr_base_url q))"

lemma stored_base_nonempty:
  assumes "validate_registration p = Some q"
  shows "stored_base q \<noteq> []"
proof -
  obtain u where "urlsplit (rr_base_url q) = Some u" "url_scheme u \<noteq> []"
    using assms by (auto simp: validate_registration_def validate_base_url_def Let_def split: option.splits if_splits)
  then show ?thesis using scheme_letter letter_left unfolding stored_base_def by blast
qed

lemma registered:
  assumes "api_register p g = (status, g')"
  shows "(validate_registration p = None \<and> status = 422 \<and> g' = g) \<or>
    (\<exists>q. validate_registration p = Some q \<and> status = 201 \<and>
      g' = (snd (unregister_twin (rr_twin_id q) g))
        \<lparr>gw_twins := dict_put (rr_twin_id q) (new_registration (rr_twin_id q) (stored_base q) (rr_incident_id q))
            (gw_twins (snd (unregister_twin (rr_twin_id q) g))),
         gw_delivered_total := touch (rr_twin_id q) (gw_delivered_total g), gw_dropped_total := touch (rr_twin_id q) (gw_dropped_total g)\<rparr>)"
proof (cases "validate_registration p")
  case (Some q)
  have t: "py_strip (rr_twin_id q) = rr_twin_id q" "rr_twin_id q \<noteq> []"
    using Some by (auto simp: validate_registration_def validate_twin_id_def Let_def py_strip_idem split: option.splits if_splits)
  have b: "stored_base q \<noteq> []" by (rule stored_base_nonempty [OF Some])
  have "gw_delivered_total (snd (unregister_twin x g)) = gw_delivered_total g" "gw_dropped_total (snd (unregister_twin x g)) = gw_dropped_total g" for x
    by (simp_all add: unregister_twin_def split: option.split)
  then show ?thesis using assms t b by (simp add: api_register_def Some register_twin_def stored_base_def Let_def)
qed (use assms in \<open>simp add: api_register_def\<close>)

section \<open>Invariants of the registrations\<close>

text \<open>A property of a registration and the events so far that a new registration has and every step keeps.\<close>

definition kept :: "int \<Rightarrow> (string \<Rightarrow> GwEvent list \<Rightarrow> TwinRegistration \<Rightarrow> bool) \<Rightarrow> bool" where
  "kept maxsize I \<longleftrightarrow>
     (\<forall>es p q. validate_registration p = Some q \<longrightarrow>
        I (rr_twin_id q) (es @ [GwRegister p]) (new_registration (rr_twin_id q) (stored_base q) (rr_incident_id q))) \<and>
     (\<forall>k es t req. I k es t \<longrightarrow> I k (es @ [GwRequest req]) (offer maxsize (mirrored req) t)) \<and>
     (\<forall>k es t e. I k es t \<longrightarrow> (\<forall>n. offered_step k n e = n) \<longrightarrow> I k (es @ [e]) t) \<and>
     (\<forall>k es t t'. I k es t \<longrightarrow> worker_take t = Some t' \<longrightarrow> I k es t') \<and>
     (\<forall>k es t r. I k es t \<longrightarrow> tr_sending t = Some r \<longrightarrow> I k es (worker_sent r t) \<and> I k es (worker_failed t) \<and> I k es (worker_crashed t))"

definition all_twins :: "(string \<Rightarrow> TwinRegistration \<Rightarrow> bool) \<Rightarrow> Gateway \<Rightarrow> bool" where
  "all_twins P g \<longleftrightarrow> distinct (map fst (gw_twins g)) \<and> (\<forall>(k, t) \<in> set (gw_twins g). P k t)"

lemma all_twins_metrics [simp]:
  "all_twins P (g\<lparr>gw_delivered_total := d\<rparr>) = all_twins P g" "all_twins P (g\<lparr>gw_dropped_total := d\<rparr>) = all_twins P g"
  by (simp_all add: all_twins_def)

lemma all_twins_set:
  assumes "all_twins P g" "map_of (gw_twins g) k = Some t" "P k t'"
  shows "all_twins P (set_twin k t' g)"
  using assms by (auto simp: all_twins_def set_twin_def dict_put_entries)

lemma all_twins_lookup: "all_twins P g \<Longrightarrow> map_of (gw_twins g) k = Some t \<Longrightarrow> P k t"
  by (auto simp: all_twins_def dest: map_of_SomeD)

lemma all_twins_unregister: "all_twins P g \<Longrightarrow> all_twins P (snd (unregister_twin twin g))"
  by (auto simp: all_twins_def unregister_twin_def set_dict_pop split: option.split)

lemma unregistered: "(k, t) \<in> set (gw_twins (snd (unregister_twin twin g))) \<Longrightarrow> k \<noteq> twin \<and> (k, t) \<in> set (gw_twins g)"
  by (auto simp: unregister_twin_def set_dict_pop map_of_eq_None_iff rev_image_eqI split: option.splits)

lemma all_twins_mono: "all_twins P g \<Longrightarrow> (\<And>k t. P k t \<Longrightarrow> Q k t) \<Longrightarrow> all_twins Q g"
  by (auto simp: all_twins_def)

lemma kept_step:
  assumes "kept maxsize I" "gw_step g e g'" "all_twins (\<lambda>k. I k es) g" "gw_queue_maxsize g = maxsize"
  shows "all_twins (\<lambda>k. I k (es @ [e])) g'"
proof -
  have quiet: "all_twins (\<lambda>k. I k (es @ [e])) g" if "\<And>k n. offered_step k n e = n"
    using assms(1,3) that by (auto intro: all_twins_mono simp: kept_def)
  have worker: "I k (es @ [e]) t" if "\<And>k n. offered_step k n e = n" "map_of (gw_twins g) k = Some t" for k t
    using all_twins_lookup [OF quiet [OF that(1)] that(2)] .
  have worker': "all_twins (\<lambda>k. I k (es @ [e])) (set_twin k t' g)"
    if "\<And>k n. offered_step k n e = n" "map_of (gw_twins g) k = Some t" "I k (es @ [e]) t'" for k t t'
    by (rule all_twins_set [OF quiet [OF that(1)] that(2,3)])
  show ?thesis
    using assms(2)
  proof cases
    case (StepRegister p)
    obtain status g1 where r: "api_register p g = (status, g1)" by (cases "api_register p g")
    from registered [OF r] show ?thesis
    proof (elim disjE exE conjE)
      assume "validate_registration p = None" "g1 = g"
      then show ?thesis using quiet StepRegister r by simp
    next
      fix q :: RegistrationRequest
      let ?u = "snd (unregister_twin (rr_twin_id q) g)"
      assume q: "validate_registration p = Some q"
        and g1: "g1 = ?u\<lparr>gw_twins := dict_put (rr_twin_id q) (new_registration (rr_twin_id q) (stored_base q) (rr_incident_id q)) (gw_twins ?u),
          gw_delivered_total := touch (rr_twin_id q) (gw_delivered_total g), gw_dropped_total := touch (rr_twin_id q) (gw_dropped_total g)\<rparr>"
      have u: "all_twins (\<lambda>k. I k es) ?u" by (rule all_twins_unregister [OF assms(3)])
      have "I k (es @ [GwRegister p]) t" if "(k, t) \<in> set (gw_twins ?u)" for k t
      proof -
        have "k \<noteq> rr_twin_id q" "I k es t" using unregistered [OF that] u that by (auto simp: all_twins_def)
        then show ?thesis using assms(1) q unfolding kept_def by simp
      qed
      moreover have "I (rr_twin_id q) (es @ [GwRegister p]) (new_registration (rr_twin_id q) (stored_base q) (rr_incident_id q))"
        using assms(1) q unfolding kept_def by blast
      ultimately show ?thesis using u StepRegister r by (auto simp: g1 all_twins_def dict_put_entries)
    qed
  next
    case (StepUnregister twin)
    have "snd (api_unregister twin g) = snd (unregister_twin (py_strip twin) g)" by (simp add: api_unregister_def split: prod.split)
    then show ?thesis using quiet StepUnregister all_twins_unregister by simp
  next
    case (StepRequest req)
    have "\<forall>k t. I k es t \<longrightarrow> I k (es @ [e]) (offer maxsize (mirrored req) t)" using assms(1) StepRequest(1) unfolding kept_def by blast
    then show ?thesis
      using assms(3) unfolding StepRequest(2)
      by (auto simp: all_twins_def record_prod_request_def dispatch_to_twins_def assms(4) simp del: map_map)
  next
    case (StepTake k t t')
    have "I k (es @ [e]) t" using worker StepTake(1,3) by simp
    then have "I k (es @ [e]) t'" using assms(1) StepTake(4) unfolding kept_def by blast
    then show ?thesis using worker' StepTake(1,3) unfolding StepTake(2) by simp
  next
    case (StepSent k t r)
    have "I k (es @ [e]) t" using worker StepSent(1,3) by simp
    then have "I k (es @ [e]) (worker_sent r t)" using assms(1) StepSent(4) unfolding kept_def by blast
    then show ?thesis using worker' StepSent(1,3) unfolding StepSent(2) by simp
  next
    case (StepFailed k t r)
    have "I k (es @ [e]) t" using worker StepFailed(1,3) by simp
    then have "I k (es @ [e]) (worker_failed t)" using assms(1) StepFailed(4) unfolding kept_def by blast
    then show ?thesis using worker' StepFailed(1,3) unfolding StepFailed(2) by simp
  next
    case (StepCrashed k t r)
    have "I k (es @ [e]) t" using worker StepCrashed(1,3) by simp
    then have "I k (es @ [e]) (worker_crashed t)" using assms(1) StepCrashed(4) unfolding kept_def by blast
    then show ?thesis using worker' StepCrashed(1,3) unfolding StepCrashed(2) by simp
  next
    case StepClose
    then show ?thesis by (simp add: all_twins_def)
  qed
qed

lemma queue_maxsize_kept: "gw_step g e g' \<Longrightarrow> gw_queue_maxsize g' = gw_queue_maxsize g"
  by (cases rule: gw_step.cases)
     (auto simp: api_register_def register_twin_def api_unregister_def unregister_twin_def record_prod_request_def dispatch_to_twins_def
        set_twin_def Let_def split: option.splits prod.splits sum.splits if_splits)

lemma run_kept:
  assumes "kept maxsize I" "gw_run maxsize es g"
  shows "all_twins (\<lambda>k. I k es) g \<and> gw_queue_maxsize g = maxsize"
  using assms(2)
proof (induction rule: gw_run.induct)
  case RunStart
  show ?case by (simp add: all_twins_def new_gateway_def)
next
  case (RunStep es g e g')
  then show ?case using kept_step [OF assms(1)] queue_maxsize_kept by simp
qed

section \<open>Accounts, types and origins\<close>

lemma kept_accounted: "kept maxsize (\<lambda>k es. accounted maxsize (offered k es))"
  using accounted_new accounted_offer accounted_take accounted_end by (auto simp: kept_def)

definition well_typed :: "string \<Rightarrow> TwinRegistration \<Rightarrow> bool" where
  "well_typed k t \<longleftrightarrow> tr_twin_id t = k \<and> k \<noteq> [] \<and> length k \<le> 128 \<and> list_all twin_id_char k \<and> length (tr_incident_id t) \<le> 128 \<and>
     tr_base_url t \<noteq> [] \<and> last (tr_base_url t) \<noteq> CHR ''/''"

lemma well_typed_fields:
  "tr_twin_id t' = tr_twin_id t \<Longrightarrow> tr_incident_id t' = tr_incident_id t \<Longrightarrow> tr_base_url t' = tr_base_url t \<Longrightarrow>
   well_typed k t' \<longleftrightarrow> well_typed k t"
  by (simp add: well_typed_def)

definition from_production :: "GwEvent list \<Rightarrow> TwinRegistration \<Rightarrow> bool" where
  "from_production es t \<longleftrightarrow> (\<forall>r \<in> set (tr_queue t) \<union> set_option (tr_sending t). \<exists>req. GwRequest req \<in> set es \<and> r = mirrored req)"

lemma kept_from_production: "kept maxsize (\<lambda>k. from_production)"
  by (auto simp: kept_def from_production_def new_registration_def offer_def worker_take_def worker_sent_def worker_failed_def
      worker_crashed_def split: if_splits list.splits)

lemma kept_typed: "kept maxsize (\<lambda>k es. well_typed k)"
proof -
  have new: "well_typed (rr_twin_id q) (new_registration (rr_twin_id q) (stored_base q) (rr_incident_id q))"
    if "validate_registration p = Some q" for p q
  proof -
    have "stored_base q \<noteq> []" by (rule stored_base_nonempty [OF that])
    moreover have "last (stored_base q) \<noteq> CHR ''/''" using calculation rstrip_last unfolding stored_base_def by blast
    moreover have "length (py_strip (rr_incident_id q)) \<le> 128"
      using that by (auto simp: validate_registration_def validate_incident_id_def Let_def py_strip_idem split: option.splits if_splits)
    ultimately show ?thesis
      using that by (auto simp: well_typed_def new_registration_def validate_registration_def validate_twin_id_def Let_def
          split: option.splits if_splits)
  qed
  have "well_typed k (offer n r t) = well_typed k t" for k n r t by (rule well_typed_fields) (simp_all add: offer_def)
  moreover have "well_typed k t' = well_typed k t" if "worker_take t = Some t'" for k t t'
    by (rule well_typed_fields) (use that in \<open>auto simp: worker_take_def split: if_splits list.splits\<close>)
  moreover have "well_typed k (worker_sent r t) = well_typed k t" "well_typed k (worker_failed t) = well_typed k t"
    "well_typed k (worker_crashed t) = well_typed k t" for k r t
    by (rule well_typed_fields; simp add: worker_sent_def worker_failed_def worker_crashed_def)+
  ultimately show ?thesis using new by (simp add: kept_def)
qed

lemma prod_counted: "gw_run maxsize es g \<Longrightarrow>
  gw_prod_delivered g = count_requests es \<and> distinct (map fst (gw_prod_paths g)) \<and> total (gw_prod_paths g) = count_requests es"
proof (induction rule: gw_run.induct)
  case RunStart
  show ?case by (simp add: new_gateway_def total_def)
next
  case (RunStep es g e g')
  have other: "gw_prod_delivered (snd (api_register p g)) = gw_prod_delivered g" "gw_prod_paths (snd (api_register p g)) = gw_prod_paths g"
    "gw_prod_delivered (snd (api_unregister x g)) = gw_prod_delivered g" "gw_prod_paths (snd (api_unregister x g)) = gw_prod_paths g" for p x
    by (simp_all add: api_register_def register_twin_def api_unregister_def unregister_twin_def Let_def split: option.split prod.split sum.split)
  show ?case using RunStep(2,3)
    by cases (auto simp: other record_prod_request_def dispatch_to_twins_def set_twin_def total_count_up)
qed


text \<open>The relation as a function, to run a gateway on concrete events.\<close>

definition worker_step :: "string \<Rightarrow> (TwinRegistration \<Rightarrow> TwinRegistration option) \<Rightarrow> (Gateway \<Rightarrow> Gateway) \<Rightarrow> Gateway \<Rightarrow> Gateway option" where
  "worker_step k f count g = (case map_of (gw_twins g) k of
     None \<Rightarrow> None
   | Some t \<Rightarrow> map_option (\<lambda>t'. count (set_twin k t' g)) (f t))"

definition ending :: "(MirroredRequest \<Rightarrow> TwinRegistration \<Rightarrow> TwinRegistration) \<Rightarrow> TwinRegistration \<Rightarrow> TwinRegistration option" where
  "ending f t = map_option (\<lambda>r. f r t) (tr_sending t)"

fun gw_do :: "GwEvent \<Rightarrow> Gateway \<Rightarrow> Gateway option" where
  "gw_do (GwRegister p) g = Some (snd (api_register p g))"
| "gw_do (GwUnregister twin) g = Some (snd (api_unregister twin g))"
| "gw_do (GwRequest req) g = Some (record_prod_request (mq_path req) (dispatch_to_twins (mirrored req) g))"
| "gw_do (GwTake k) g = worker_step k worker_take id g"
| "gw_do (GwSent k) g = worker_step k (ending worker_sent) (\<lambda>g. g\<lparr>gw_delivered_total := count_up k (gw_delivered_total g)\<rparr>) g"
| "gw_do (GwFailed k) g =
     worker_step k (ending (\<lambda>r. worker_failed)) (\<lambda>g. g\<lparr>gw_dropped_total := count_up k (gw_dropped_total g)\<rparr>) g"
| "gw_do (GwCrashed k) g = worker_step k (ending (\<lambda>r. worker_crashed)) id g"
| "gw_do GwClose g = Some (g\<lparr>gw_twins := []\<rparr>)"

lemma gw_do_step: "gw_do e g = Some g' \<Longrightarrow> gw_step g e g'"
  by (cases e) (auto simp: worker_step_def ending_def set_twin_def intro: gw_step.intros
      dest: gw_step.intros(4-7) split: option.splits) 


lemma gw_step_do: "gw_step g e g' \<Longrightarrow> gw_do e g = Some g'"
  by (cases rule: gw_step.cases) (auto simp: worker_step_def ending_def set_twin_def)

text \<open>So a gateway is deterministic once the events are given.\<close>

lemma gw_step_iff: "gw_step g e g' \<longleftrightarrow> gw_do e g = Some g'"
  using gw_do_step gw_step_do by blast

definition gw_exec :: "int \<Rightarrow> GwEvent list \<Rightarrow> Gateway option" where
  "gw_exec maxsize es = foldl (\<lambda>g e. Option.bind g (gw_do e)) (Some (new_gateway maxsize)) es"

lemma gw_exec_run: "gw_exec maxsize es = Some g \<Longrightarrow> gw_run maxsize es g"
proof (induction es arbitrary: g rule: rev_induct)
  case Nil
  then have "g = new_gateway maxsize" by (simp add: gw_exec_def)
  then show ?case by (simp add: RunStart)
next
  case (snoc e es)
  then show ?case by (auto simp: gw_exec_def Option.bind_eq_Some_conv gw_step_iff intro: RunStep)
qed

section \<open>Deliveries\<close>

lemma stripped: "h \<in> set (strip_hop_by_hop_headers hs) \<Longrightarrow> py_lower (fst h) \<notin> set HOP_BY_HOP_HEADERS"
  by (auto simp: strip_hop_by_hop_headers_def)

lemma set_dict_put_subset: "h \<in> set (dict_put k v d) \<Longrightarrow> h = (k, v) \<or> h \<in> set d"
  by (induction d) (auto split: if_splits)

lemma injected_kept:
  "py_lower ''X-Understudy-Shadow'' \<notin> set HOP_BY_HOP_HEADERS" "py_lower ''X-Understudy-Twin'' \<notin> set HOP_BY_HOP_HEADERS"
  "py_lower ''X-Understudy-Incident'' \<notin> set HOP_BY_HOP_HEADERS"
  by code_simp+

lemma worker_headers:
  "map_of (og_headers (worker_request t r)) ''X-Understudy-Shadow'' = Some ''1''"
  "map_of (og_headers (worker_request t r)) ''X-Understudy-Twin'' = Some (tr_twin_id t)"
  "map_of (og_headers (worker_request t r)) ''X-Understudy-Incident'' = Some (incident_value t r)"
  "list_all (\<lambda>h. py_lower (fst h) \<notin> set HOP_BY_HOP_HEADERS) (og_headers (worker_request t r))"
proof -
  let ?hs = "strip_hop_by_hop_headers (mq_headers r)"
  have *: "fst h \<in> {''X-Understudy-Incident'', ''X-Understudy-Twin'', ''X-Understudy-Shadow''} \<or> h \<in> set ?hs"
    if "h \<in> set (og_headers (worker_request t r))" for h
    using that by (auto simp: worker_request_def Let_def dest!: set_dict_put_subset)
  show "list_all (\<lambda>h. py_lower (fst h) \<notin> set HOP_BY_HOP_HEADERS) (og_headers (worker_request t r))"
    unfolding list_all_iff
  proof
    fix h
    assume "h \<in> set (og_headers (worker_request t r))"
    then consider "fst h = ''X-Understudy-Incident''" | "fst h = ''X-Understudy-Twin''" | "fst h = ''X-Understudy-Shadow''" | "h \<in> set ?hs"
      using * by blast
    then show "py_lower (fst h) \<notin> set HOP_BY_HOP_HEADERS"
      by cases (use injected_kept stripped in \<open>simp_all only: simp_thms\<close>)
  qed
qed (simp_all add: worker_request_def Let_def)

lemma rstrip_id: "s \<noteq> [] \<Longrightarrow> last s \<noteq> c \<Longrightarrow> rstrip_char c s = s"
  by (cases s rule: rev_cases) (simp_all add: rstrip_char_def)

lemma worker_url:
  assumes "well_typed k t"
  shows "startswith (og_url (worker_request t r)) (tr_base_url t @ ''/'')"
  using assms by (auto simp: worker_request_def Let_def rstrip_id well_typed_def startswith_def)

section \<open>The mirror\<close>

text \<open>C27: every request that production has received while a twin was registered is accounted for exactly once: it was
  delivered, it was dropped and counted, it waits in the twin's bounded queue, it is on its way, or it is the one that
  ended the worker.  The path statistics of the twin add up to its deliveries, those of production to its requests.\<close>

theorem mirror_accounts:
  assumes "gw_run maxsize es g" "map_of (gw_twins g) k = Some t"
  shows "tr_delivered t + tr_dropped t + pending t = offered k es \<and>
    (0 < maxsize \<longrightarrow> int (length (tr_queue t)) \<le> maxsize) \<and>
    total (tr_paths t) = tr_delivered t \<and>
    gw_prod_delivered g = count_requests es \<and> total (gw_prod_paths g) = count_requests es"
  using all_twins_lookup [OF conjunct1 [OF run_kept [OF kept_accounted assms(1)]] assms(2)] prod_counted [OF assms(1)]
  by (simp add: accounted_def)

text \<open>C30: whatever is sent to the API, a registered twin has the type that the API promises: an id of 1 to 128 letters,
  digits, dots, hyphens and underscores, which is also its key, an incident of at most 128 characters, and a base URL
  that is not empty and does not end in a slash.\<close>

theorem registrations_typed:
  assumes "gw_run maxsize es g" "map_of (gw_twins g) k = Some t"
  shows "well_typed k t"
  using all_twins_lookup [OF conjunct1 [OF run_kept [OF kept_typed assms(1)]] assms(2)] .


text \<open>Two requests for a twin whose queue holds one: the second is dropped.\<close>

definition sample_mirrored :: MirroredRequest where
  "sample_mirrored = \<lparr>mq_method = ''GET'', mq_path = ''/a'', mq_query = [], mq_headers = [(''Host'', ''prod''), (''Accept'', ''x'')], mq_body = []\<rparr>"

definition sample_events :: "GwEvent list" where
  "sample_events = [GwRegister \<lparr>rr_twin_id = '' t1 '', rr_base_url = ''http://h/'', rr_incident_id = ''i''\<rparr>, GwRequest sample_mirrored,
     GwTake ''t1'', GwSent ''t1'', GwRequest sample_mirrored, GwRequest sample_mirrored, GwTake ''t1'']"

lemma sample_gateway:
  "\<exists>g t r. gw_run 1 sample_events g \<and> map_of (gw_twins g) ''t1'' = Some t \<and> tr_sending t = Some r \<and> tr_delivered t = 1 \<and> tr_dropped t = 1"
proof -
  have "case gw_exec 1 sample_events of None \<Rightarrow> False | Some g \<Rightarrow> (case map_of (gw_twins g) ''t1'' of None \<Rightarrow> False
      | Some t \<Rightarrow> tr_sending t \<noteq> None \<and> tr_delivered t = 1 \<and> tr_dropped t = 1)" by code_simp
  then show ?thesis using gw_exec_run by (fastforce split: option.splits)
qed

lemma mirror_accounts_witness:
  "\<exists>g t. gw_run 1 sample_events g \<and> map_of (gw_twins g) ''t1'' = Some t \<and> tr_delivered t + tr_dropped t + pending t = 3 \<and>
     pending t = 1 \<and> gw_prod_delivered g = 3"
proof -
  obtain g t where g: "gw_run 1 sample_events g" "map_of (gw_twins g) ''t1'' = Some t" "tr_delivered t = 1" "tr_dropped t = 1"
    using sample_gateway by blast
  have "offered ''t1'' sample_events = 3" "count_requests sample_events = 3" by code_simp+
  then show ?thesis using mirror_accounts [OF g(1,2)] g by auto
qed

lemma registrations_typed_witness: "\<exists>g t. gw_run 1 sample_events g \<and> map_of (gw_twins g) ''t1'' = Some t \<and> well_typed ''t1'' t"
proof -
  obtain g t where g: "gw_run 1 sample_events g" "map_of (gw_twins g) ''t1'' = Some t" using sample_gateway by blast
  then show ?thesis using registrations_typed [OF g] by blast
qed


end
