(* ===== verification/Json.thy ===== *)
theory Json
  imports KernelDsl Text Effects
begin

text \<open>
  The values of \<open>json.loads\<close> as the code looks into them: keys of dicts with their defaults, \<open>or\<close>, \<open>in\<close>, \<open>int(...)\<close>,
  with the exceptions of values of another type.
\<close>

text \<open>\<open>int(s)\<close> of a text: blanks around it, a sign, digits with single underscores between them.\<close>

fun digit_groups :: "bool \<Rightarrow> string \<Rightarrow> string option" where
  "digit_groups after [] = (if after then Some [] else None)"
| "digit_groups after (c # s) =
     (if py_digit c then map_option (\<lambda>r. c # r) (digit_groups True s)
      else if c = CHR ''_'' \<and> after then digit_groups False s else None)"

definition int_of_text :: "string \<Rightarrow> int option" where
  "int_of_text s =
     (let t = py_strip s; signed = t \<noteq> [] \<and> (hd t = CHR ''-'' \<or> hd t = CHR ''+'');
          body = (if signed then drop 1 t else t) in
      map_option (\<lambda>ds. (if signed \<and> hd t = CHR ''-'' then - 1 else 1) * int (digits_value ds 0)) (digit_groups False body))"

text \<open>\<open>int(v)\<close>: a value that is no number gives a \<open>TypeError\<close>, a text that is none a \<open>ValueError\<close>.\<close>

fun int_of_val :: "PyVal \<Rightarrow> PyExc + int" where
  "int_of_val (PInt i) = Inr i"
| "int_of_val (PBool b) = Inr (if b then 1 else 0)"
| "int_of_val (PFloat r) = Inr (py_int r)"
| "int_of_val (PStr s) = (case int_of_text s of Some i \<Rightarrow> Inr i
     | None \<Rightarrow> Inl (Raised ''ValueError'' (fstr [''invalid literal for int() with base 10: '', squote s])))"
| "int_of_val _ = Inl (Raised ''TypeError'' ''int() argument must be a string, a bytes-like object or a real number'')"

definition get_or :: "string \<Rightarrow> PyVal \<Rightarrow> (string \<times> PyVal) list \<Rightarrow> PyVal" where
  "get_or k d xs = (case map_of xs k of Some v \<Rightarrow> v | None \<Rightarrow> d)"

text \<open>\<open>data.get\<close> on what is no dict is an \<open>AttributeError\<close>.\<close>

definition as_dict :: "PyVal \<Rightarrow> PyExc + (string \<times> PyVal) list" where
  "as_dict v = (case v of PDict d \<Rightarrow> Inr d | _ \<Rightarrow> Inl (Raised ''AttributeError'' ''object has no attribute 'get' ''))"

text \<open>What a client of an HTTP service gets: a reply, with its body as a text and as JSON if it is that; an error of the
  transport; or another exception.\<close>

record HttpReply =
  hr_status :: int
  hr_text :: string
  hr_json :: "PyExc + PyVal"

datatype HttpFault = RequestError string | OtherError PyExc

text \<open>\<open>a or b\<close>; whether a value is a dict\<close>

definition py_or :: "PyVal \<Rightarrow> PyVal \<Rightarrow> PyVal" where
  "py_or a b = (if py_truthy a then a else b)"

definition is_dict :: "PyVal \<Rightarrow> bool" where
  "is_dict v = (case v of PDict d \<Rightarrow> True | _ \<Rightarrow> False)"

text \<open>\<open>k in v\<close>: a key of a dict, an element of a list, a part of a text.\<close>

definition py_in :: "string \<Rightarrow> PyVal \<Rightarrow> PyExc + bool" where
  "py_in k v = (case v of
     PDict d \<Rightarrow> Inr (map_of d k \<noteq> None)
   | PColl xs \<Rightarrow> Inr (PStr k \<in> set xs)
   | PStr s \<Rightarrow> Inr (contains_sub s k)
   | _ \<Rightarrow> Inl (Raised ''TypeError'' ''argument is not iterable''))"

text \<open>\<open>v[k]\<close> with a text as the key.\<close>

definition py_item :: "string \<Rightarrow> PyVal \<Rightarrow> PyExc + PyVal" where
  "py_item k v = (case v of
     PDict d \<Rightarrow> (case map_of d k of Some x \<Rightarrow> Inr x | None \<Rightarrow> Inl (Raised ''KeyError'' (squote k)))
   | _ \<Rightarrow> Inl (Raised ''TypeError'' ''indices must be integers or slices, not str''))"

text \<open>A standard library for examples.\<close>

definition plain_std :: PyStd where
  "plain_std = \<lparr>std_fromisoformat = (\<lambda>_. None), std_isoformat = (\<lambda>_. []), std_repr = (\<lambda>_. []), std_fixed = (\<lambda>_ _. [])\<rparr>"

lemma int_values [simp]: "get_or k d ((k, v) # kvs) = v" "k' \<noteq> k \<Longrightarrow> get_or k d ((k', v) # kvs) = get_or k d kvs"
  by (simp_all add: get_or_def)

end
