(* ===== verification/Mirror.thy ===== *)
theory Mirror
  imports Gateway Triples Json
begin

text \<open>
  The client of the mirror gateway (\<^verbatim>\<open>mirror/registry.py\<close>), the fake registry (\<^verbatim>\<open>mirror/fakes.py\<close>) and the comparison
  of a twin's traffic with production's (\<^verbatim>\<open>mirror/fidelity.py\<close>).  The client is state passing over the trace of its
  HTTP requests; what answers them is a parameter.  Both registries satisfy one contract, the HTTP client when the
  gateway of theory Gateway answers it.
\<close>

section \<open>Percent-encoding\<close>

definition hex_upper :: "nat \<Rightarrow> char" where
  "hex_upper n = (if n < 10 then char_of (48 + n) else char_of (55 + n))"

definition hex_value :: "char \<Rightarrow> nat" where
  "hex_value c = (let n = (of_char c :: nat) in if n \<le> 57 then n - 48 else if n \<le> 70 then n - 55 else n - 87)"

definition unreserved :: "char \<Rightarrow> bool" where
  "unreserved c \<longleftrightarrow> safe_char c \<or> c \<in> set ''-.~''"

text \<open>The UTF-8 encoding of a character below 256; a byte is a character here as well.\<close>

definition utf8 :: "char \<Rightarrow> nat list" where
  "utf8 c = (let n = of_char c in if n < 128 then [n] else [192 + n div 64, 128 + n mod 64])"

definition quote_byte :: "nat \<Rightarrow> string" where
  "quote_byte n = (if unreserved (char_of n) then [char_of n] else [CHR ''%'', hex_upper (n div 16), hex_upper (n mod 16)])"

text \<open>\<open>urllib.parse.quote(s, safe="")\<close>\<close>

definition py_quote :: "string \<Rightarrow> string" where
  "py_quote s = concat (map quote_byte (concat (map utf8 s)))"

fun unquote_bytes :: "string \<Rightarrow> nat list" where
  "unquote_bytes (p # a # b # s) =
     (if p = CHR ''%'' \<and> hex_char a \<and> hex_char b then (16 * hex_value a + hex_value b) # unquote_bytes s
      else of_char p # unquote_bytes (a # b # s))"
| "unquote_bytes (p # s) = of_char p # unquote_bytes s"
| "unquote_bytes [] = []"

fun utf8_decode :: "nat list \<Rightarrow> string" where
  "utf8_decode (a # b # s) =
     (if 194 \<le> a \<and> a < 196 \<and> 128 \<le> b \<and> b < 192 then char_of ((a - 192) * 64 + (b - 128)) # utf8_decode s
      else char_of a # utf8_decode (b # s))"
| "utf8_decode (a # s) = char_of a # utf8_decode s"
| "utf8_decode [] = []"

text \<open>What the server makes of a path, for characters below 256.\<close>

definition py_unquote :: "string \<Rightarrow> string" where
  "py_unquote s = utf8_decode (unquote_bytes s)"

section \<open>Requests and replies\<close>

datatype MirrorCall = PostTwin string RegistrationRequest | DeleteUrl string | GetUrl string

record MirrorRegistry =
  mr_base_url :: string
  mr_template :: string
  mr_std :: PyStd
  mr_http :: "MirrorCall \<Rightarrow> MirrorCall trace \<Rightarrow> HttpFault + HttpReply"

type_synonym 'a mirror_act = "(MirrorCall, 'a) act"

definition mirror_error :: "string list \<Rightarrow> PyExc + 'a" where
  "mirror_error parts = Inl (Raised ''MirrorError'' (fstr parts))"

definition not_found :: "string list \<Rightarrow> PyExc + 'a" where
  "not_found parts = Inl (Raised ''TwinNotFoundError'' (fstr parts))"

text \<open>A request; an \<open>httpx.RequestError\<close> becomes a \<open>MirrorError\<close>.\<close>

definition request :: "MirrorRegistry \<Rightarrow> MirrorCall \<Rightarrow> string \<Rightarrow> HttpReply mirror_act" where
  "request mr c url h =
     (case mr_http mr c h of
        Inl (RequestError t) \<Rightarrow> (mirror_error [''Failed to connect to mirror gateway at '', url, '': '', t], h @ [(c, False)])
      | Inl (OtherError e) \<Rightarrow> (Inl e, h @ [(c, False)])
      | Inr r \<Rightarrow> (Inr r, h @ [(c, True)]))"

section \<open>Registration\<close>

lemma behind_first_length: "length (behind_first c s) \<le> length s"
  using length_dropWhile_le [of "\<lambda>x. x \<noteq> c" s] by (simp add: behind_first_def)

lemma behind_first_Cons: "length (behind_first c (x # s)) \<le> Suc (length s)"
  using behind_first_length [of c "x # s"] by simp

text \<open>\<open>str.format\<close> with named fields only; doubled braces stand for braces.\<close>

function py_format :: "(string \<times> string) list \<Rightarrow> string \<Rightarrow> PyExc + string" where
  "py_format env [] = Inr []"
| "py_format env (c # s) =
     (if c = CHR ''{'' then
        (case s of
           [] \<Rightarrow> Inl (Raised ''ValueError'' ''Single '{' encountered in format string'')
         | d # s' \<Rightarrow>
             if d = CHR ''{'' then map_sum id (\<lambda>r. CHR ''{'' # r) (py_format env s')
             else if CHR ''}'' \<notin> set s then Inl (Raised ''ValueError'' ''expected '}' before end of string'')
             else (case map_of env (before_first (CHR ''}'') s) of
               None \<Rightarrow> Inl (Raised ''KeyError'' (before_first (CHR ''}'') s))
             | Some v \<Rightarrow> map_sum id (\<lambda>r. v @ r) (py_format env (behind_first (CHR ''}'') s))))
      else if c = CHR ''}'' then
        (case s of
           d # s' \<Rightarrow> if d = CHR ''}'' then map_sum id (\<lambda>r. CHR ''}'' # r) (py_format env s')
             else Inl (Raised ''ValueError'' ''Single '}' encountered in format string'')
         | [] \<Rightarrow> Inl (Raised ''ValueError'' ''Single '}' encountered in format string''))
      else map_sum id (\<lambda>r. c # r) (py_format env s))"
  by pat_completeness auto

termination
  by (relation "measure (\<lambda>(env, s). length s)") (auto simp: less_Suc_eq_le behind_first_length behind_first_Cons)

definition DEFAULT_TWIN_BASE_URL_TEMPLATE :: string where
  "DEFAULT_TWIN_BASE_URL_TEMPLATE = ''http://edge-gateway.{namespace}:8080''"

definition build_twin_base_url :: "MirrorRegistry \<Rightarrow> TwinHandle \<Rightarrow> PyExc + string" where
  "build_twin_base_url mr t = py_format [(''namespace'', twin_namespace t), (''twin_id'', twin_id t),
     (''candidate_index'', int_str (twin_candidate_index t)), (''incident_id'', twin_incident_id t)] (mr_template mr)"

definition mirror_register :: "MirrorRegistry \<Rightarrow> string \<Rightarrow> string \<Rightarrow> string \<Rightarrow> unit mirror_act" where
  "mirror_register mr tid base_url incident =
     (let twin = py_strip tid; base = rstrip_char (CHR ''/'') (py_strip base_url); url = mr_base_url mr @ ''/twins'' in
      if twin = [] then alift (mirror_error [''twin_id cannot be empty or whitespace''])
      else if base = [] then alift (mirror_error [''base_url cannot be empty or whitespace''])
      else abind (request mr (PostTwin url \<lparr>rr_twin_id = twin, rr_base_url = base, rr_incident_id = py_strip incident\<rparr>) url) (\<lambda>resp.
        if hr_status resp \<noteq> 201 then
          alift (mirror_error [''Mirror gateway rejected registration for twin '', squote twin, '' with status '',
            int_str (hr_status resp), '': '', hr_text resp])
        else aret ()))"

definition mirror_register_twin :: "MirrorRegistry \<Rightarrow> TwinHandle \<Rightarrow> string option \<Rightarrow> unit mirror_act" where
  "mirror_register_twin mr t base_url =
     abind (case base_url of Some (c # cs) \<Rightarrow> aret (c # cs) | _ \<Rightarrow> alift (build_twin_base_url mr t)) (\<lambda>url.
       mirror_register mr (twin_id t) url (twin_incident_id t))"

definition twin_endpoint :: "MirrorRegistry \<Rightarrow> string \<Rightarrow> string" where
  "twin_endpoint mr twin = mr_base_url mr @ ''/twins/'' @ py_quote twin"

definition mirror_unregister_twin :: "MirrorRegistry \<Rightarrow> string \<Rightarrow> bool \<Rightarrow> unit mirror_act" where
  "mirror_unregister_twin mr tid strict =
     (let twin = py_strip tid in
      if twin = [] then alift (mirror_error [''twin_id cannot be empty or whitespace''])
      else abind (request mr (DeleteUrl (twin_endpoint mr twin)) (twin_endpoint mr twin)) (\<lambda>resp.
        if hr_status resp = 404 then
          (if strict then alift (not_found [''Twin '', squote twin, '' is not registered with mirror gateway'']) else aret ())
        else if hr_status resp \<noteq> 200 then
          alift (mirror_error [''Mirror gateway unregistration failed for twin '', squote twin, '' with status '',
            int_str (hr_status resp), '': '', hr_text resp])
        else aret ()))"

section \<open>Statistics\<close>

definition stats_of :: "PyStd \<Rightarrow> string \<Rightarrow> (string \<times> PyVal) list \<Rightarrow> PyExc + MirrorStats" where
  "stats_of std twin d =
     bindE (int_of_val (get_or ''delivered'' (PInt 0) d)) (\<lambda>delivered.
     bindE (int_of_val (get_or ''dropped'' (PInt 0) d)) (\<lambda>dropped.
       Inr \<lparr>ms_twin_id = py_str std (get_or ''twin_id'' (PStr twin) d), ms_delivered = delivered, ms_dropped = dropped\<rparr>))"

text \<open>\<open>except (ValueError, TypeError) as exc: raise MirrorError(...)\<close>\<close>

definition malformed :: "string list \<Rightarrow> PyExc + 'a \<Rightarrow> PyExc + 'a" where
  "malformed parts r = (case r of
     Inl (Raised c t) \<Rightarrow> if c = ''ValueError'' \<or> c = ''TypeError'' then mirror_error parts else r
   | _ \<Rightarrow> r)"

definition mirror_get_stats :: "MirrorRegistry \<Rightarrow> string \<Rightarrow> MirrorStats mirror_act" where
  "mirror_get_stats mr tid =
     (let twin = py_strip tid; url = twin_endpoint mr twin @ ''/stats'' in
      if twin = [] then alift (mirror_error [''twin_id cannot be empty or whitespace''])
      else abind (request mr (GetUrl url) url) (\<lambda>resp.
        if hr_status resp = 404 then alift (not_found [''Twin '', squote twin, '' is not registered with mirror gateway''])
        else if hr_status resp \<noteq> 200 then
          alift (mirror_error [''Failed to fetch stats for twin '', squote twin, '' with status '', int_str (hr_status resp), '': '', hr_text resp])
        else alift (malformed [''Malformed statistics payload returned from mirror gateway: '', hr_text resp]
          (bindE (hr_json resp) (\<lambda>data. bindE (as_dict data) (stats_of (mr_std mr) twin))))))"

definition mirror_get_all_stats :: "MirrorRegistry \<Rightarrow> (string \<times> MirrorStats) list mirror_act" where
  "mirror_get_all_stats mr =
     (let url = mr_base_url mr @ ''/twins'' in
      abind (request mr (GetUrl url) url) (\<lambda>resp.
        if hr_status resp \<noteq> 200 then
          alift (mirror_error [''Failed to fetch all twin statistics with status '', int_str (hr_status resp), '': '', hr_text resp])
        else alift (malformed [''Malformed statistics response returned from mirror gateway: '', hr_text resp]
          (bindE (hr_json resp) (\<lambda>data.
            case data of
              PDict d \<Rightarrow> mapE (\<lambda>(tid, item). map_sum id (Pair tid) (stats_of (mr_std mr) tid item))
                (List.map_filter (\<lambda>(tid, item). case item of PDict i \<Rightarrow> Some (tid, i) | _ \<Rightarrow> None) d)
            | _ \<Rightarrow> Inl (Raised ''ValueError'' ''Expected JSON object mapping twin_id to stats''))))))"

text \<open>\<open>{str(k): int(v) for k, v in data.get("paths", {}).items()}\<close>\<close>

definition paths_of :: "(string \<times> PyVal) list \<Rightarrow> PyExc + (string \<times> int) list" where
  "paths_of d = bindE (case get_or ''paths'' (PDict []) d of PDict ps \<Rightarrow> Inr ps
       | _ \<Rightarrow> Inl (Raised ''AttributeError'' ''object has no attribute 'items' ''))
     (mapE (\<lambda>(k, v). map_sum id (Pair k) (int_of_val v)))"

definition mirror_get_prod_stats :: "MirrorRegistry \<Rightarrow> (int \<times> (string \<times> int) list) mirror_act" where
  "mirror_get_prod_stats mr =
     (let url = mr_base_url mr @ ''/prod/stats'' in
      abind (request mr (GetUrl url) url) (\<lambda>resp.
        if hr_status resp \<noteq> 200 then
          alift (mirror_error [''Failed to fetch production statistics with status '', int_str (hr_status resp), '': '', hr_text resp])
        else alift (malformed [''Malformed production statistics returned from mirror gateway: '', hr_text resp]
          (bindE (hr_json resp) (\<lambda>data.
            case data of
              PDict d \<Rightarrow> bindE (int_of_val (get_or ''delivered'' (PInt 0) d)) (\<lambda>n. bindE (paths_of d) (\<lambda>ps. Inr (n, ps)))
            | _ \<Rightarrow> Inl (Raised ''ValueError'' ''Expected JSON object for production stats''))))))"

definition mirror_get_twin_paths :: "MirrorRegistry \<Rightarrow> string \<Rightarrow> (string \<times> int) list mirror_act" where
  "mirror_get_twin_paths mr tid =
     (let twin = py_strip tid; url = twin_endpoint mr twin @ ''/stats'' in
      abind (request mr (GetUrl url) url) (\<lambda>resp.
        if hr_status resp = 404 then alift (not_found [''Twin '', squote twin, '' not found on mirror gateway''])
        else if hr_status resp \<noteq> 200 then
          alift (mirror_error [''Failed to fetch twin stats with status '', int_str (hr_status resp), '': '', hr_text resp])
        else alift (malformed [''Malformed stats payload: '', hr_text resp]
          (bindE (hr_json resp) (\<lambda>data. bindE (as_dict data) paths_of)))))"

text \<open>\<open>health\<close> and \<open>ready\<close>: whether a probe answers with 200; a failed connection is no error here.\<close>

definition answers_ok :: "MirrorRegistry \<Rightarrow> string \<Rightarrow> bool mirror_act" where
  "answers_ok mr path h =
     (let c = GetUrl (mr_base_url mr @ path) in
      case mr_http mr c h of
        Inl (RequestError t) \<Rightarrow> (Inr False, h @ [(c, False)])
      | Inl (OtherError e) \<Rightarrow> (Inl e, h @ [(c, False)])
      | Inr r \<Rightarrow> (Inr (hr_status r = 200), h @ [(c, True)]))"

definition mirror_health :: "MirrorRegistry \<Rightarrow> bool mirror_act" where
  "mirror_health mr = answers_ok mr ''/healthz''"

definition mirror_ready :: "MirrorRegistry \<Rightarrow> bool mirror_act" where
  "mirror_ready mr = answers_ok mr ''/readyz''"

section \<open>Fidelity\<close>

record TwinFidelityReport =
  fr_twin_id :: string
  fr_prod_delivered :: int
  fr_twin_delivered :: int
  fr_delivered_delta_ratio :: rat
  fr_drop_ratio :: rat
  fr_path_distribution_match :: bool
  fr_ok :: bool
  fr_prod_paths :: "(string \<times> int) list"
  fr_twin_paths :: "(string \<times> int) list"

text \<open>The loops over the paths stop at the first that does not match.\<close>

fun prod_paths_match :: "int \<Rightarrow> int \<Rightarrow> (string \<times> int) list \<Rightarrow> (string \<times> int) list \<Rightarrow> bool" where
  "prod_paths_match pd td twin_paths [] = True"
| "prod_paths_match pd td twin_paths ((path, n) # ps) =
     (let expected = of_int n / of_int pd :: rat;
          actual = (if 0 < td then of_int (case map_of twin_paths path of Some m \<Rightarrow> m | None \<Rightarrow> 0) / of_int td else 0) in
      if 2 / 100 < \<bar>expected - actual\<bar> then False else prod_paths_match pd td twin_paths ps)"

fun twin_paths_known :: "(string \<times> int) list \<Rightarrow> (string \<times> int) list \<Rightarrow> bool" where
  "twin_paths_known prod_paths [] = True"
| "twin_paths_known prod_paths ((path, n) # ps) =
     (if map_of prod_paths path = None \<and> 0 < n then False else twin_paths_known prod_paths ps)"

definition evaluate_twin_fidelity ::
    "string \<Rightarrow> int \<Rightarrow> int \<Rightarrow> rat \<Rightarrow> (string \<times> int) list \<Rightarrow> (string \<times> int) list \<Rightarrow> rat \<Rightarrow> rat \<Rightarrow> TwinFidelityReport" where
  "evaluate_twin_fidelity tid pd td ratio prod_paths twin_paths delta_threshold max_drop =
     (let delta = (if pd = 0 then (if td = 0 then 0 else 1) else \<bar>1 - of_int td / of_int pd\<bar>);
          match = (if 0 < pd then prod_paths_match pd td twin_paths prod_paths \<and> twin_paths_known prod_paths twin_paths
            else \<not> 0 < td) in
      \<lparr>fr_twin_id = tid, fr_prod_delivered = pd, fr_twin_delivered = td, fr_delivered_delta_ratio = delta, fr_drop_ratio = ratio,
       fr_path_distribution_match = match, fr_ok = (delta \<le> delta_threshold \<and> ratio \<le> max_drop \<and> match),
       fr_prod_paths = prod_paths, fr_twin_paths = twin_paths\<rparr>)"

text \<open>\<open>except (MirrorError, httpx.HTTPError, ValueError)\<close>; an error of httpx that is no \<open>RequestError\<close> is told by the parameter.\<close>

definition or_on_mirror_error :: "(string \<Rightarrow> bool) \<Rightarrow> 'a mirror_act \<Rightarrow> 'a \<Rightarrow> 'a mirror_act" where
  "or_on_mirror_error http_error m d = acatch m (\<lambda>c t.
     if isinstance c ''MirrorError'' \<or> http_error c \<or> c = ''ValueError'' then aret d else araise (Raised c t))"

definition max_delivered :: "(string \<times> MirrorStats) list \<Rightarrow> int" where
  "max_delivered matching = (case matching of [] \<Rightarrow> 0 | x # xs \<Rightarrow> foldl (\<lambda>m s. max m (ms_delivered (snd s))) (ms_delivered (snd x)) xs)"

definition get_fidelity_reports :: "(string \<Rightarrow> bool) \<Rightarrow> MirrorRegistry \<Rightarrow> string \<Rightarrow> TwinFidelityReport list mirror_act" where
  "get_fidelity_reports http_error mr incident =
     abind (mirror_get_all_stats mr) (\<lambda>all_stats.
       (let matching = filter (\<lambda>(tid, s). contains_sub tid incident) all_stats in
        if matching = [] then aret []
        else abind (or_on_mirror_error http_error (mirror_get_prod_stats mr) (max_delivered matching, [])) (\<lambda>(pd, prod_paths).
          amap (\<lambda>(tid, s).
            abind (or_on_mirror_error http_error (mirror_get_twin_paths mr tid) []) (\<lambda>twin_paths.
              aret (evaluate_twin_fidelity tid pd (ms_delivered s) (drop_ratio s) prod_paths twin_paths (2 / 100) (5 / 100))))
            (sort_key fst matching))))"

section \<open>The fake registry\<close>

record FakeRegistry =
  fk_drop_rate :: rat
  fk_registered :: "(string \<times> MirrorStats) list"

definition fake_register_twin :: "TwinHandle \<Rightarrow> FakeRegistry \<Rightarrow> (PyExc + unit) \<times> FakeRegistry" where
  "fake_register_twin t s = (Inr (), s\<lparr>fk_registered := dict_put (twin_id t)
     \<lparr>ms_twin_id = twin_id t, ms_delivered = 100, ms_dropped = py_int (100 * fk_drop_rate s)\<rparr> (fk_registered s)\<rparr>)"

definition fake_unregister_twin :: "string \<Rightarrow> FakeRegistry \<Rightarrow> (PyExc + unit) \<times> FakeRegistry" where
  "fake_unregister_twin tid s = (Inr (), s\<lparr>fk_registered := dict_pop tid (fk_registered s)\<rparr>)"

definition fake_get_stats :: "string \<Rightarrow> FakeRegistry \<Rightarrow> (PyExc + MirrorStats) \<times> FakeRegistry" where
  "fake_get_stats tid s = (Inr (case map_of (fk_registered s) tid of Some st \<Rightarrow> st
     | None \<Rightarrow> \<lparr>ms_twin_id = tid, ms_delivered = 0, ms_dropped = 0\<rparr>), s)"


section \<open>Encoding and decoding\<close>

lemma char_byte: "(of_char (c :: char) :: nat) < 256"
  by simp

lemma byte_of [simp]: "n < 256 \<Longrightarrow> of_char (char_of n :: char) = (n :: nat)"
  by (simp add: of_char_of)

lemma hex_upper_value: "n < 16 \<Longrightarrow> hex_value (hex_upper n) = n \<and> hex_char (hex_upper n)"
  by (auto simp: hex_value_def hex_upper_def hex_char_def py_digit_def Let_def)

lemma unquote_plain: "p \<noteq> CHR ''%'' \<Longrightarrow> unquote_bytes (p # s) = of_char p # unquote_bytes s"
  by (cases s rule: unquote_bytes.cases) auto

lemma unreserved_plain: "unreserved c \<Longrightarrow> c \<noteq> CHR ''%''"
  by (auto simp: unreserved_def safe_char_def py_digit_def Let_def)

lemma unquote_quote_byte: "n < 256 \<Longrightarrow> unquote_bytes (quote_byte n @ s) = n # unquote_bytes s"
proof (cases "unreserved (char_of n :: char)")
  case False
  assume "n < 256"
  then have "n div 16 < 16" "n mod 16 < 16" by auto
  then show ?thesis using False hex_upper_value by (simp add: quote_byte_def)
qed (simp add: quote_byte_def unquote_plain unreserved_plain)

lemma unquote_quote_bytes: "\<forall>n \<in> set ns. n < 256 \<Longrightarrow> unquote_bytes (concat (map quote_byte ns) @ r) = ns @ unquote_bytes r"
  by (induction ns) (auto simp: unquote_quote_byte)

lemma decode_plain: "a < 194 \<Longrightarrow> utf8_decode (a # s) = char_of a # utf8_decode s"
  by (cases s) auto

lemma utf8_bytes: "n \<in> set (utf8 c) \<Longrightarrow> n < 256"
proof -
  have "(of_char c :: nat) div 64 < 4" by (rule less_mult_imp_div_less) simp
  moreover have "(of_char c :: nat) mod 64 < 64" by simp
  ultimately show "n \<in> set (utf8 c) \<Longrightarrow> n < 256" by (auto simp: utf8_def Let_def split: if_splits)
qed

lemma decode_utf8: "utf8_decode (utf8 c @ s) = c # utf8_decode s"
proof (cases "(of_char c :: nat) < 128")
  case True
  then show ?thesis by (simp add: utf8_def Let_def decode_plain)
next
  case False
  define n where "n = (of_char c :: nat)"
  have n: "128 \<le> n" "n < 256" using False char_byte [of c] by (simp_all add: n_def)
  then have d: "n div 64 = 2 \<or> n div 64 = 3" by auto
  have "n div 64 * 64 + n mod 64 = n" by simp
  then have "(192 + n div 64 - 192) * 64 + (128 + n mod 64 - 128) = n" by simp
  moreover have "char_of n = c" by (simp add: n_def)
  ultimately show ?thesis using n d by (auto simp: utf8_def n_def [symmetric] Let_def)
qed

text \<open>What the client quotes, the server reads.\<close>

lemma unquote_quote_append: "py_unquote (py_quote s @ r) = s @ py_unquote r"
proof -
  have "utf8_decode (concat (map utf8 s) @ bs) = s @ utf8_decode bs" for bs by (induction s) (auto simp: decode_utf8)
  moreover have "\<forall>n \<in> set (concat (map utf8 s)). n < 256" using utf8_bytes by auto
  ultimately show ?thesis by (simp add: py_unquote_def py_quote_def unquote_quote_bytes)
qed

lemma unquote_prefix: "\<forall>c \<in> set p. c \<noteq> CHR ''%'' \<and> (of_char c :: nat) < 128 \<Longrightarrow> py_unquote (p @ s) = p @ py_unquote s"
  by (induction p) (auto simp: py_unquote_def unquote_plain decode_plain)

section \<open>The gateway as the server\<close>

definition stats_json :: "GatewayStats \<Rightarrow> PyVal" where
  "stats_json s = PDict [(''twin_id'', PStr (gs_twin_id s)), (''delivered'', PInt (gs_delivered s)), (''dropped'', PInt (gs_dropped s)),
     (''drop_ratio'', PFloat (gs_drop_ratio s)), (''paths'', PDict (map (\<lambda>(k, n). (k, PInt n)) (gs_paths s)))]"

definition reply :: "int \<Rightarrow> PyVal \<Rightarrow> HttpReply" where
  "reply status v = \<lparr>hr_status = status, hr_text = [], hr_json = Inr v\<rparr>"

text \<open>A segment of the path, and what follows it; routes are matched on the decoded path.\<close>

definition segment :: "string \<Rightarrow> string \<Rightarrow> (string \<times> string) option" where
  "segment prefix path =
     (if startswith path prefix \<and> before_first (CHR ''/'') (drop (length prefix) path) \<noteq> []
      then Some (before_first (CHR ''/'') (drop (length prefix) path),
        dropWhile (\<lambda>c. c \<noteq> CHR ''/'') (drop (length prefix) path)) else None)"

text \<open>A request that no route of the API matches is passed to production, whose answer is a parameter.\<close>

definition serve :: "(MirrorCall \<Rightarrow> HttpReply) \<Rightarrow> string \<Rightarrow> MirrorCall \<Rightarrow> Gateway \<Rightarrow> HttpReply \<times> Gateway" where
  "serve proxied base c g = (case c of
     PostTwin url p \<Rightarrow>
       if url = base @ ''/twins'' then (let (status, g') = api_register p g in (reply status PNone, g')) else (proxied c, g)
   | DeleteUrl url \<Rightarrow>
       (case segment ''/twins/'' (py_unquote (drop (length base) url)) of
          Some (twin, []) \<Rightarrow> (let (status, g') = api_unregister twin g in (reply status PNone, g'))
        | _ \<Rightarrow> (proxied c, g))
   | GetUrl url \<Rightarrow>
       (let path = py_unquote (drop (length base) url) in
        if path = ''/twins'' then (reply 200 (PDict (map (\<lambda>(k, s). (k, stats_json s)) (get_all_gateway_stats g))), g)
        else if path = ''/prod/stats'' then (reply 200 (stats_json (get_prod_stats g)), g)
        else (case segment ''/twins/'' path of
          Some (twin, rest) \<Rightarrow>
            if rest = ''/stats'' then (case api_stats twin g of (status, None) \<Rightarrow> (reply status PNone, g)
              | (status, Some s) \<Rightarrow> (reply status (stats_json s), g))
            else (proxied c, g)
        | None \<Rightarrow> (proxied c, g))))"

definition served :: "(MirrorCall \<Rightarrow> HttpReply) \<Rightarrow> string \<Rightarrow> Gateway \<Rightarrow> MirrorCall trace \<Rightarrow> Gateway" where
  "served proxied base g0 h = foldl (\<lambda>g e. snd (serve proxied base (fst e) g)) g0 h"

text \<open>The client of a gateway that started in \<open>g0\<close>.\<close>

definition client :: "(MirrorCall \<Rightarrow> HttpReply) \<Rightarrow> string \<Rightarrow> Gateway \<Rightarrow> PyStd \<Rightarrow> MirrorRegistry" where
  "client proxied base g0 std = \<lparr>mr_base_url = base, mr_template = DEFAULT_TWIN_BASE_URL_TEMPLATE, mr_std = std,
     mr_http = (\<lambda>c h. Inr (fst (serve proxied base c (served proxied base g0 h))))\<rparr>"

lemma served_snoc [simp]: "served proxied base g0 (h @ [(c, b)]) = snd (serve proxied base c (served proxied base g0 h))"
  by (simp add: served_def)

lemma client_request [simp]:
  "request (client proxied base g0 std) c url h = (Inr (fst (serve proxied base c (served proxied base g0 h))), h @ [(c, True)])"
  by (simp add: request_def client_def)


section \<open>What a registry promises\<close>

text \<open>A loop that an exception ends, over a state of any kind; over a trace it is \<open>aeach\<close>.\<close>

fun run_each :: "('b \<Rightarrow> 's \<Rightarrow> (PyExc + unit) \<times> 's) \<Rightarrow> 'b list \<Rightarrow> 's \<Rightarrow> (PyExc + unit) \<times> 's" where
  "run_each f [] s = (Inr (), s)"
| "run_each f (x # xs) s = (case f x s of (Inl e, s') \<Rightarrow> (Inl e, s') | (Inr _, s') \<Rightarrow> run_each f xs s')"

lemma run_each_trace: "run_each f xs h = aeach f xs h"
  by (induction xs arbitrary: h) (simp_all add: aret_def abind_def split: prod.split sum.split)

text \<open>The orchestrator registers twins, unregisters them and reads their statistics.\<close>

locale mirror_registry =
  fixes reg :: "TwinHandle \<Rightarrow> 's \<Rightarrow> (PyExc + unit) \<times> 's"
    and unreg :: "string \<Rightarrow> 's \<Rightarrow> (PyExc + unit) \<times> 's"
    and stats :: "string \<Rightarrow> 's \<Rightarrow> (PyExc + MirrorStats) \<times> 's"
    and members :: "'s \<Rightarrow> string set"
    and acceptable :: "TwinHandle \<Rightarrow> bool"
    and proper :: "string \<Rightarrow> bool"
  assumes reg_joins: "acceptable t \<Longrightarrow> fst (reg t s) = Inr () \<and> members (snd (reg t s)) = insert (twin_id t) (members s)"
    and unreg_leaves: "proper i \<Longrightarrow> fst (unreg i s) = Inr () \<and> members (snd (unreg i s)) = members s - {i}"
    and stats_known: "proper i \<Longrightarrow> i \<in> members s \<Longrightarrow> \<exists>st. fst (stats i s) = Inr st \<and> ms_twin_id st = i"
    and stats_keep: "proper i \<Longrightarrow> members (snd (stats i s)) = members s"
    and acceptable_proper: "acceptable t \<Longrightarrow> proper (twin_id t)"
begin

lemma reg_all_joins:
  "\<forall>t \<in> set ts. acceptable t \<Longrightarrow> fst (run_each reg ts s) = Inr () \<and> members (snd (run_each reg ts s)) = members s \<union> twin_id ` set ts"
proof (induction ts arbitrary: s)
  case (Cons t ts)
  have "fst (reg t s) = Inr () \<and> members (snd (reg t s)) = insert (twin_id t) (members s)" using Cons.prems by (intro reg_joins) simp
  then show ?case using Cons.IH [of "snd (reg t s)"] Cons.prems by (cases "reg t s") auto
qed simp

lemma unreg_all_leaves:
  "\<forall>t \<in> set ts. acceptable t \<Longrightarrow> fst (run_each (\<lambda>t. unreg (twin_id t)) ts s) = Inr () \<and> members (snd (run_each (\<lambda>t. unreg (twin_id t)) ts s)) = members s - twin_id ` set ts"
proof (induction ts arbitrary: s)
  case (Cons t ts)
  have "fst (unreg (twin_id t) s) = Inr () \<and> members (snd (unreg (twin_id t) s)) = members s - {twin_id t}"
    using Cons.prems by (intro unreg_leaves acceptable_proper) simp
  then show ?case using Cons.IH [of "snd (unreg (twin_id t) s)"] Cons.prems by (cases "unreg (twin_id t) s") auto
qed simp

lemma lifecycle:
  assumes "\<forall>t \<in> set ts. acceptable t" "twin_id ` set ts \<inter> members s = {}"
  shows "fst (run_each reg ts s) = Inr () \<and>
    (\<forall>t \<in> set ts. \<exists>st. fst (stats (twin_id t) (snd (run_each reg ts s))) = Inr st \<and> ms_twin_id st = twin_id t) \<and>
    fst (run_each (\<lambda>t. unreg (twin_id t)) ts (snd (run_each reg ts s))) = Inr () \<and>
    members (snd (run_each (\<lambda>t. unreg (twin_id t)) ts (snd (run_each reg ts s)))) = members s"
  using reg_all_joins [OF assms(1), of s] unreg_all_leaves [OF assms(1), of "snd (run_each reg ts s)"] assms stats_known acceptable_proper
  by auto

end

section \<open>Both registries keep the promise\<close>

interpretation fake: mirror_registry fake_register_twin fake_unregister_twin fake_get_stats
  "\<lambda>s. {i. \<exists>st. map_of (fk_registered s) i = Some st \<and> ms_twin_id st = i}" "\<lambda>t. True" "\<lambda>i. True"
  by unfold_locales (auto simp: fake_register_twin_def fake_unregister_twin_def fake_get_stats_def split: if_splits)

definition proper_id :: "string \<Rightarrow> bool" where
  "proper_id i \<longleftrightarrow> i \<noteq> [] \<and> length i \<le> 128 \<and> list_all twin_id_char i"

definition acceptable_handle :: "MirrorRegistry \<Rightarrow> TwinHandle \<Rightarrow> bool" where
  "acceptable_handle mr t \<longleftrightarrow> proper_id (twin_id t) \<and> length (py_strip (twin_incident_id t)) \<le> 128 \<and>
     (case build_twin_base_url mr t of Inl e \<Rightarrow> False
      | Inr url \<Rightarrow> rstrip_char (CHR ''/'') (py_strip url) \<noteq> [] \<and> validate_base_url (rstrip_char (CHR ''/'') (py_strip url)) \<noteq> None)"

definition known_twins :: "Gateway \<Rightarrow> string set" where
  "known_twins g = {k. \<exists>t. map_of (gw_twins g) k = Some t \<and> tr_twin_id t = k}"

lemma strip_no_space: "\<forall>c \<in> set s. \<not> py_space c \<Longrightarrow> py_strip s = s"
proof -
  have "dropWhile py_space xs = xs" if "\<forall>c \<in> set xs. \<not> py_space c" for xs using that by (cases xs) auto
  from this [of s] this [of "rev s"] show "\<forall>c \<in> set s. \<not> py_space c \<Longrightarrow> py_strip s = s" by (simp add: py_strip_def)
qed

lemma proper_chars: "proper_id i \<Longrightarrow> c \<in> set i \<Longrightarrow> \<not> py_space c \<and> c \<noteq> CHR ''/''"
  by (auto simp: proper_id_def list_all_iff twin_id_char_def safe_char_def py_space_def py_digit_def Let_def)

lemma proper_strip: "proper_id i \<Longrightarrow> py_strip i = i"
  using proper_chars by (intro strip_no_space) blast

lemma segment_proper: "proper_id i \<Longrightarrow> rest = [] \<or> hd rest = CHR ''/'' \<Longrightarrow> segment ''/twins/'' (''/twins/'' @ i @ rest) = Some (i, rest)"
proof -
  assume i: "proper_id i" and r: "rest = [] \<or> hd rest = CHR ''/''"
  have "\<forall>c \<in> set i. c \<noteq> CHR ''/''" using proper_chars [OF i] by blast
  then have "takeWhile (\<lambda>c. c \<noteq> CHR ''/'') (i @ rest) = i" "dropWhile (\<lambda>c. c \<noteq> CHR ''/'') (i @ rest) = rest"
    using r by (cases rest; simp)+
  then show ?thesis using i by (simp add: segment_def before_first_def proper_id_def startswith_def)
qed

lemma known_register:
  assumes "validate_registration p = Some q"
  shows "fst (api_register p g) = 201 \<and> known_twins (snd (api_register p g)) = insert (rr_twin_id q) (known_twins g)"
proof -
  obtain status g' where r: "api_register p g = (status, g')" by (cases "api_register p g")
  have "map_of (gw_twins g') k = (if k = rr_twin_id q then Some (new_registration (rr_twin_id q) (stored_base q) (rr_incident_id q))
      else map_of (gw_twins g) k) \<and> status = 201" for k
    using registered [OF r] assms by (auto simp: unregister_twin_def split: option.splits)
  then show ?thesis using r by (auto simp: known_twins_def new_registration_def)
qed

lemma known_unregister:
  assumes "proper_id i"
  shows "fst (api_unregister i g) \<in> {200, 404} \<and> known_twins (snd (api_unregister i g)) = known_twins g - {i}"
  using assms by (auto simp: api_unregister_def proper_strip unregister_twin_def known_twins_def split: option.splits)

lemma client_simps [simp]:
  "mr_base_url (client proxied base g0 std) = base" "mr_std (client proxied base g0 std) = std"
  by (simp_all add: client_def)

lemma unquote_slash_twins: "py_unquote (''/twins/'' @ s) = ''/twins/'' @ py_unquote s"
  by (rule unquote_prefix) simp

lemma unquote_stats: "py_unquote ''/stats'' = ''/stats''" "py_unquote [] = []" "py_unquote ''/twins'' = ''/twins''"
  by code_simp+

lemma serve_delete:
  assumes "proper_id i"
  shows "serve proxied base (DeleteUrl (twin_endpoint (client proxied base g0 std) i)) g =
    (reply (fst (api_unregister i g)) PNone, snd (api_unregister i g))"
proof -
  have "py_unquote (drop (length base) (twin_endpoint (client proxied base g0 std) i)) = ''/twins/'' @ i @ []"
    using unquote_slash_twins [of "py_quote i"] unquote_quote_append [of i "[]"] by (simp add: twin_endpoint_def unquote_stats)
  then show ?thesis using segment_proper [OF assms, of "[]"] by (simp add: serve_def split: prod.split)
qed

lemma serve_stats:
  assumes "proper_id i"
  shows "serve proxied base (GetUrl (twin_endpoint (client proxied base g0 std) i @ ''/stats'')) g =
    (case api_stats i g of (status, None) \<Rightarrow> (reply status PNone, g) | (status, Some s) \<Rightarrow> (reply status (stats_json s), g))"
proof -
  let ?path = "py_unquote (drop (length base) (twin_endpoint (client proxied base g0 std) i @ ''/stats''))"
  have "?path = ''/twins/'' @ i @ ''/stats''"
    using unquote_slash_twins [of "py_quote i @ ''/stats''"] unquote_quote_append [of i "''/stats''"]
    by (simp add: twin_endpoint_def unquote_stats)
  moreover have "segment ''/twins/'' (''/twins/'' @ i @ ''/stats'') = Some (i, ''/stats'')" by (rule segment_proper [OF assms]) simp
  ultimately show ?thesis by (simp add: serve_def)
qed

lemma stats_of_json: "bindE (as_dict (stats_json s)) (stats_of std i) =
    Inr \<lparr>ms_twin_id = gs_twin_id s, ms_delivered = gs_delivered s, ms_dropped = gs_dropped s\<rparr>"
  by (simp add: stats_json_def as_dict_def stats_of_def result_simps)

lemma client_reg:
  assumes "acceptable_handle (client proxied base g0 std) t"
  shows "fst (mirror_register_twin (client proxied base g0 std) t None h) = Inr () \<and>
    known_twins (served proxied base g0 (snd (mirror_register_twin (client proxied base g0 std) t None h))) =
      insert (twin_id t) (known_twins (served proxied base g0 h))"
proof -
  let ?mr = "client proxied base g0 std"
  obtain url where url: "build_twin_base_url ?mr t = Inr url" and b: "rstrip_char (CHR ''/'') (py_strip url) \<noteq> []"
    "validate_base_url (rstrip_char (CHR ''/'') (py_strip url)) \<noteq> None"
    using assms by (auto simp: acceptable_handle_def split: sum.splits)
  have i: "proper_id (twin_id t)" "length (py_strip (twin_incident_id t)) \<le> 128" using assms by (auto simp: acceptable_handle_def)
  let ?p = "\<lparr>rr_twin_id = twin_id t, rr_base_url = rstrip_char (CHR ''/'') (py_strip url), rr_incident_id = py_strip (twin_incident_id t)\<rparr>"
  obtain q where q: "validate_registration ?p = Some q" "rr_twin_id q = twin_id t"
    using b(2) i by (auto simp: validate_registration_def validate_twin_id_def validate_incident_id_def proper_strip py_strip_idem
        proper_id_def Let_def)
  let ?c = "PostTwin (base @ ''/twins'') ?p"
  have serve: "serve proxied base ?c g = (reply (fst (api_register ?p g)) PNone, snd (api_register ?p g))" for g
    by (simp add: serve_def split: prod.split)
  have "mirror_register_twin ?mr t None h = (Inr (), h @ [(?c, True)])"
    using i b(1) known_register [OF q(1)] serve
    by (simp add: mirror_register_twin_def mirror_register_def url abind_def alift_def aret_def proper_strip proper_id_def reply_def Let_def)
  then show ?thesis using known_register [OF q(1)] q(2) serve by simp
qed

lemma client_unreg:
  assumes "proper_id i"
  shows "fst (mirror_unregister_twin (client proxied base g0 std) i False h) = Inr () \<and>
    known_twins (served proxied base g0 (snd (mirror_unregister_twin (client proxied base g0 std) i False h))) =
      known_twins (served proxied base g0 h) - {i}"
proof -
  let ?mr = "client proxied base g0 std"
  have "mirror_unregister_twin ?mr i False h = (Inr (), h @ [(DeleteUrl (twin_endpoint ?mr i), True)])"
    using assms known_unregister [OF assms, of "served proxied base g0 h"]
    by (auto simp: mirror_unregister_twin_def serve_delete proper_strip proper_id_def abind_def aret_def reply_def Let_def)
  then show ?thesis using known_unregister [OF assms] serve_delete [OF assms] by simp
qed

lemma client_stats:
  assumes "proper_id i"
  shows "i \<in> known_twins (served proxied base g0 h) \<Longrightarrow>
      \<exists>st. fst (mirror_get_stats (client proxied base g0 std) i h) = Inr st \<and> ms_twin_id st = i"
    "known_twins (served proxied base g0 (snd (mirror_get_stats (client proxied base g0 std) i h))) = known_twins (served proxied base g0 h)"
proof -
  let ?mr = "client proxied base g0 std"
  let ?c = "GetUrl (twin_endpoint ?mr i @ ''/stats'')"
  have same: "snd (serve proxied base ?c g) = g" for g by (simp add: serve_stats [OF assms] split: prod.split option.split)
  have h': "snd (mirror_get_stats ?mr i h) = h @ [(?c, True)]"
    using assms by (simp add: mirror_get_stats_def proper_strip proper_id_def abind_def alift_def Let_def)
  show "known_twins (served proxied base g0 (snd (mirror_get_stats ?mr i h))) = known_twins (served proxied base g0 h)"
    by (simp add: h' same)
  assume "i \<in> known_twins (served proxied base g0 h)"
  then obtain s where s: "api_stats i (served proxied base g0 h) = (200, Some s)" "gs_twin_id s = i"
    using proper_strip [OF assms]
    by (cases "i = ''prod''") (auto simp: known_twins_def api_stats_def get_gateway_stats_def get_prod_stats_def build_stats_def Let_def)
  then have "fst (mirror_get_stats ?mr i h) = Inr \<lparr>ms_twin_id = gs_twin_id s, ms_delivered = gs_delivered s, ms_dropped = gs_dropped s\<rparr>"
    using assms
    by (simp add: serve_stats mirror_get_stats_def proper_strip proper_id_def abind_def alift_def reply_def malformed_def stats_of_json Let_def)
  then show "\<exists>st. fst (mirror_get_stats ?mr i h) = Inr st \<and> ms_twin_id st = i" using s(2) by simp
qed

interpretation http: mirror_registry "\<lambda>t. mirror_register_twin (client proxied base g0 std) t None"
  "\<lambda>i. mirror_unregister_twin (client proxied base g0 std) i False" "mirror_get_stats (client proxied base g0 std)"
  "\<lambda>h. known_twins (served proxied base g0 h)" "acceptable_handle (client proxied base g0 std)" proper_id
  for proxied base g0 std
  by unfold_locales (use client_reg client_unreg client_stats in \<open>auto simp: acceptable_handle_def\<close>)

section \<open>Shares of paths\<close>

text \<open>The share of a path in the requests; none without requests.\<close>

definition share :: "int \<Rightarrow> (string \<times> int) list \<Rightarrow> string \<Rightarrow> rat" where
  "share n paths p = (if 0 < n then of_int (case map_of paths p of Some m \<Rightarrow> m | None \<Rightarrow> 0) / of_int n else 0)"

lemma prod_paths_matchD:
  "prod_paths_match pd td twin_paths ps \<Longrightarrow> (p, n) \<in> set ps \<Longrightarrow> \<bar>of_int n / of_int pd - share td twin_paths p\<bar> \<le> 2 / 100"
  by (induction pd td twin_paths ps rule: prod_paths_match.induct) (auto simp: share_def Let_def not_less split: if_splits)

lemma twin_paths_knownD: "twin_paths_known prod_paths ps \<Longrightarrow> (p, n) \<in> set ps \<Longrightarrow> map_of prod_paths p = None \<Longrightarrow> n \<le> 0"
  by (induction prod_paths ps rule: twin_paths_known.induct) (auto split: if_splits)

section \<open>The registry and the reports\<close>

text \<open>C29: against a gateway that answers, the client registers any list of new acceptable twins, finds the statistics of each of
  them under its id, unregisters them all again, and leaves the gateway with the twins it had.\<close>

theorem mirror_lifecycle:
  assumes "\<forall>t \<in> set ts. acceptable_handle (client proxied base g0 std) t"
    "twin_id ` set ts \<inter> known_twins (served proxied base g0 h) = {}"
    "aeach (\<lambda>t. mirror_register_twin (client proxied base g0 std) t None) ts h = (r1, h1)"
    "aeach (\<lambda>t. mirror_unregister_twin (client proxied base g0 std) (twin_id t) False) ts h1 = (r2, h2)"
  shows "r1 = Inr () \<and> (\<forall>t \<in> set ts. \<exists>st. fst (mirror_get_stats (client proxied base g0 std) (twin_id t) h1) = Inr st \<and> ms_twin_id st = twin_id t) \<and>
    r2 = Inr () \<and> known_twins (served proxied base g0 h2) = known_twins (served proxied base g0 h)"
  using http.lifecycle [OF assms(1,2)] assms(3,4) by (simp add: run_each_trace)

text \<open>A report of a twin that says OK is right: the twin has received as many requests as production within two percent,
  at most five percent were dropped, and no path, whether production has seen it or not, has a share that differs from
  production's by more than two percent.\<close>

theorem fidelity_sound:
  assumes "fr_ok (evaluate_twin_fidelity tid pd td ratio prod_paths twin_paths (2 / 100) (5 / 100))" "0 < pd"
    "\<forall>(p, n) \<in> set twin_paths. 0 \<le> n"
  shows "\<bar>of_int pd - of_int td\<bar> \<le> (2 / 100 :: rat) * of_int pd \<and> ratio \<le> 5 / 100 \<and>
    (\<forall>p. \<bar>share pd prod_paths p - share td twin_paths p\<bar> \<le> 2 / 100)"
proof -
  have ok: "\<bar>1 - of_int td / of_int pd\<bar> \<le> (2 / 100 :: rat)" "ratio \<le> 5 / 100"
    "prod_paths_match pd td twin_paths prod_paths" "twin_paths_known prod_paths twin_paths"
    using assms(1,2) by (auto simp: evaluate_twin_fidelity_def Let_def split: if_splits)
  have "\<bar>(of_int pd - of_int td) / (of_int pd :: rat)\<bar> \<le> 2 / 100" using ok(1) assms(2) by (simp add: diff_divide_distrib)
  then have delta: "\<bar>of_int pd - of_int td\<bar> \<le> (2 / 100 :: rat) * of_int pd" using assms(2) by (simp add: abs_divide pos_divide_le_eq)
  have "\<bar>share pd prod_paths p - share td twin_paths p\<bar> \<le> 2 / 100" for p
  proof (cases "map_of prod_paths p")
    case None
    have "(case map_of twin_paths p of Some m \<Rightarrow> m | None \<Rightarrow> 0) = 0"
      using twin_paths_knownD [OF ok(4) _ None] assms(3) by (fastforce dest: map_of_SomeD split: option.split)
    then show ?thesis using None by (simp add: share_def)
  next
    case (Some n)
    then show ?thesis using prod_paths_matchD [OF ok(3) map_of_SomeD [OF Some]] assms(2) by (simp add: share_def)
  qed
  then show ?thesis using delta ok(2) by blast
qed


section \<open>A twin and a gateway\<close>

definition sample_client :: MirrorRegistry where
  "sample_client = client (\<lambda>_. reply 502 PNone) ''http://gw'' (new_gateway 1) plain_std"

definition sample_twin :: TwinHandle where
  "sample_twin = \<lparr>twin_id = ''twin_a_0'', twin_incident_id = ''a'', twin_candidate_index = 0, twin_namespace = ''ust-twin-a-0'',
     twin_database = ''twin_a_0'', forked_from_snapshot_at = 0, ready_at = None, twin_state = Ready\<rparr>"

lemma mirror_lifecycle_witness:
  "\<exists>h1 h2 st. aeach (\<lambda>t. mirror_register_twin sample_client t None) [sample_twin] [] = (Inr (), h1) \<and>
     fst (mirror_get_stats sample_client ''twin_a_0'' h1) = Inr st \<and> ms_twin_id st = ''twin_a_0'' \<and>
     aeach (\<lambda>t. mirror_unregister_twin sample_client (twin_id t) False) [sample_twin] h1 = (Inr (), h2) \<and>
     known_twins (served (\<lambda>_. reply 502 PNone) ''http://gw'' (new_gateway 1) h2) = {}"
proof -
  let ?reg = "aeach (\<lambda>t. mirror_register_twin sample_client t None) [sample_twin] []"
  let ?unreg = "aeach (\<lambda>t. mirror_unregister_twin sample_client (twin_id t) False) [sample_twin] (snd ?reg)"
  have "acceptable_handle sample_client sample_twin" by code_simp
  moreover have empty: "known_twins (served (\<lambda>_. reply 502 PNone) ''http://gw'' (new_gateway 1) []) = {}"
    by (simp add: served_def known_twins_def new_gateway_def)
  ultimately have "fst ?reg = Inr () \<and> (\<forall>t \<in> set [sample_twin]. \<exists>st. fst (mirror_get_stats sample_client (twin_id t) (snd ?reg)) = Inr st \<and> ms_twin_id st = twin_id t) \<and>
      fst ?unreg = Inr () \<and> known_twins (served (\<lambda>_. reply 502 PNone) ''http://gw'' (new_gateway 1) (snd ?unreg)) =
        known_twins (served (\<lambda>_. reply 502 PNone) ''http://gw'' (new_gateway 1) [])"
    unfolding sample_client_def
    by (intro mirror_lifecycle [OF _ _ prod.collapse [symmetric] prod.collapse [symmetric]]) simp_all
  moreover have "twin_id sample_twin = ''twin_a_0''" by (simp add: sample_twin_def)
  ultimately show ?thesis unfolding empty
    by (metis list.set_intros(1) prod.collapse)
qed

lemma fidelity_sound_witness:
  "\<bar>share 100 [(''/a'', 60), (''/b'', 40)] ''/b'' - share 99 [(''/a'', 60), (''/b'', 39)] ''/b''\<bar> \<le> 2 / 100"
proof -
  have "fr_ok (evaluate_twin_fidelity ''t'' 100 99 0 [(''/a'', 60), (''/b'', 40)] [(''/a'', 60), (''/b'', 39)] (2 / 100) (5 / 100))"
    by (simp add: evaluate_twin_fidelity_def)
  from fidelity_sound [OF this] show ?thesis by simp
qed

end
