(* ===== verification/Ids.thy ===== *)
theory Ids
  imports Effects "HOL-Library.Word" "HOL-Library.List_Lexorder" "HOL-Library.Char_ord"
begin

text \<open>
  Identifiers (\<^verbatim>\<open>common/ids.py\<close>): the ULID of a time in milliseconds and ten random bytes, which are arguments here,
  and the prefixes of the identifiers made from it.  Identifiers sort by their time.
\<close>

unbundle bit_operations_syntax

section \<open>Bytes\<close>

text \<open>\<open>int.to_bytes(n, "big")\<close> and \<open>int.from_bytes(bs, "big")\<close>\<close>

definition to_bytes :: "nat \<Rightarrow> int \<Rightarrow> PyExc + 8 word list" where
  "to_bytes n v =
     (if v < 0 then Inl (Raised ''OverflowError'' ''can't convert negative int to unsigned'')
      else if 256 ^ n \<le> v then Inl (Raised ''OverflowError'' ''int too big to convert'')
      else Inr (map (\<lambda>i. word_of_int (v div 256 ^ (n - 1 - i))) [0..<n]))"

definition from_bytes :: "8 word list \<Rightarrow> int" where
  "from_bytes bs = foldl (\<lambda>a b. a * 256 + uint b) 0 bs"

section \<open>ULIDs\<close>

definition CROCKFORD_BASE32 :: string where
  "CROCKFORD_BASE32 = ''0123456789ABCDEFGHJKMNPQRSTVWXYZ''"

text \<open>The loop of 26 rounds, least digit first.\<close>

fun crockford :: "nat \<Rightarrow> int \<Rightarrow> string" where
  "crockford 0 v = []"
| "crockford (Suc n) v = CROCKFORD_BASE32 ! nat (v AND 31) # crockford n (drop_bit 5 v)"

definition generate_ulid :: "int \<Rightarrow> 8 word list \<Rightarrow> PyExc + string" where
  "generate_ulid timestamp_ms random_bytes =
     bindE (to_bytes 6 timestamp_ms) (\<lambda>ts_bytes.
       if length random_bytes \<noteq> 10 then
         Inl (Raised ''ValueError'' (fstr [''Random bytes must be exactly 10 bytes, got '', nat_str (length random_bytes)]))
       else Inr (py_lower (rev (crockford 26 (from_bytes (ts_bytes @ random_bytes))))))"

text \<open>\<open>new_incident_id\<close> and its siblings: one prefix each.\<close>

definition new_id :: "string \<Rightarrow> int \<Rightarrow> 8 word list \<Rightarrow> PyExc + string" where
  "new_id prefix timestamp_ms random_bytes = map_sum id (\<lambda>u. prefix @ u) (generate_ulid timestamp_ms random_bytes)"

definition new_incident_id :: "int \<Rightarrow> 8 word list \<Rightarrow> PyExc + string" where "new_incident_id = new_id ''inc_''"
definition new_plan_id :: "int \<Rightarrow> 8 word list \<Rightarrow> PyExc + string" where "new_plan_id = new_id ''plan_''"
definition new_twin_id :: "int \<Rightarrow> 8 word list \<Rightarrow> PyExc + string" where "new_twin_id = new_id ''twin_''"
definition new_run_id :: "int \<Rightarrow> 8 word list \<Rightarrow> PyExc + string" where "new_run_id = new_id ''run_''"
definition new_alert_id :: "int \<Rightarrow> 8 word list \<Rightarrow> PyExc + string" where "new_alert_id = new_id ''alt_''"
definition new_playbook_id :: "int \<Rightarrow> 8 word list \<Rightarrow> PyExc + string" where
  "new_playbook_id timestamp_ms random_bytes =
     map_sum id (\<lambda>u. ''pb_'' @ py_lower u) (generate_ulid timestamp_ms random_bytes)"

section \<open>Bytes as numbers\<close>

lemma from_bytes_acc: "foldl (\<lambda>a b. a * 256 + uint b) (x :: int) bs = x * 256 ^ length bs + from_bytes bs"
proof (induction bs arbitrary: x)
  case (Cons b bs)
  have "from_bytes (b # bs) = uint b * 256 ^ length bs + from_bytes bs" using Cons [of "uint b"] by (simp add: from_bytes_def)
  then show ?case using Cons [of "x * 256 + uint b"] by (simp add: algebra_simps)
qed (simp add: from_bytes_def)

lemma from_bytes_simps [simp]:
  "from_bytes [] = 0" "from_bytes (b # bs) = uint b * 256 ^ length bs + from_bytes bs"
  "from_bytes (bs @ cs) = from_bytes bs * 256 ^ length cs + from_bytes cs"
  using from_bytes_acc [of "uint b" bs] from_bytes_acc [of "from_bytes bs" cs] by (simp_all add: from_bytes_def)

lemma from_bytes_bounds: "0 \<le> from_bytes bs \<and> from_bytes bs < 256 ^ length bs"
proof (induction bs)
  case (Cons b bs)
  have "uint b < 2 ^ LENGTH(8)" "0 \<le> uint b" by (rule uint_lt2p, simp)
  then have "uint b + 1 \<le> 256" by simp
  then have "(uint b + 1) * 256 ^ length bs \<le> 256 * 256 ^ length bs" by (rule mult_right_mono) simp
  then have "uint b * 256 ^ length bs + from_bytes bs < 256 * 256 ^ length bs" using Cons unfolding distrib_right by linarith
  then show ?case using Cons \<open>0 \<le> uint b\<close> by simp
qed simp

lemma from_bytes_inj: "length bs = length cs \<Longrightarrow> from_bytes bs = from_bytes cs \<Longrightarrow> bs = cs"
proof (induction bs cs rule: list_induct2)
  case (Cons b bs c cs)
  have div: "(uint x * 256 ^ length ys + from_bytes ys) div 256 ^ length ys = uint x" for x :: "8 word" and ys
    using from_bytes_bounds [of ys] by simp
  have "uint b * 256 ^ length bs + from_bytes bs = uint c * 256 ^ length cs + from_bytes cs" using Cons.prems by simp
  then have "uint b = uint c" using div [of b bs] div [of c cs] Cons.hyps by metis
  then show ?case using Cons by (simp add: word_uint_eq_iff)
qed simp

text \<open>The bytes of a number are its value.\<close>

lemma to_bytes_value: "to_bytes n v = Inr bs \<Longrightarrow> length bs = n \<and> from_bytes bs = v \<and> 0 \<le> v \<and> v < 256 ^ n"
proof -
  have "from_bytes (map (\<lambda>i. word_of_int (v div 256 ^ (n - 1 - i))) [0..<n]) = v" if "0 \<le> v" "v < 256 ^ n" for v
    using that
  proof (induction n arbitrary: v)
    case (Suc n)
    have "v div 256 < 256 ^ n" "0 \<le> v div 256" using Suc.prems by (auto simp: div_less_iff_less_mult)
    then have IH: "from_bytes (map (\<lambda>i. word_of_int (v div 256 div 256 ^ (n - 1 - i))) [0..<n]) = v div 256" by (rule Suc.IH [rotated])
    have "v div 256 div 256 ^ (n - 1 - i) = v div 256 ^ (n - i)" if "i < n" for i
    proof -
      have "n - i = Suc (n - 1 - i)" using that by simp
      then show ?thesis by (simp add: zdiv_zmult2_eq)
    qed
    then have "map (\<lambda>i. word_of_int (v div 256 div 256 ^ (n - 1 - i)) :: 8 word) [0..<n] = map (\<lambda>i. word_of_int (v div 256 ^ (n - i))) [0..<n]"
      by simp
      then have "from_bytes (map (\<lambda>i. word_of_int (v div 256 ^ (n - i))) [0..<n]) = v div 256" using IH by metis
    moreover have "uint (word_of_int v :: 8 word) = v mod 256" by (simp add: uint_word_of_int take_bit_eq_mod)
    ultimately show ?case by simp
  qed simp
  then show "to_bytes n v = Inr bs \<Longrightarrow> length bs = n \<and> from_bytes bs = v \<and> 0 \<le> v \<and> v < 256 ^ n"
    by (auto simp: to_bytes_def split: if_splits)
qed

section \<open>Digits and their order\<close>

definition ulid_digit :: "int \<Rightarrow> char" where
  "ulid_digit d = lower_char (CROCKFORD_BASE32 ! nat d)"

lemma ulid_digit_mono:
  assumes "0 \<le> d" "d < e" "e < 32"
  shows "ulid_digit d < ulid_digit e"
proof -
  let ?ds = "map lower_char CROCKFORD_BASE32"
  have s: "sorted_wrt (<) ?ds" and l: "length CROCKFORD_BASE32 = 32" by code_simp+
  have n: "nat d < nat e" "nat e < length ?ds" using assms l by auto
  then have "?ds ! nat d < ?ds ! nat e" by (rule sorted_wrt_nth_less [OF s])
  moreover have "nat d < length CROCKFORD_BASE32" "nat e < length CROCKFORD_BASE32" using assms l by auto
  ultimately show ?thesis by (simp add: ulid_digit_def)
qed

lemma and_31: "(v :: int) AND 31 = v mod 32"
  using take_bit_eq_mask [of 5 v] by (simp add: take_bit_eq_mod mask_eq_exp_minus_1)

fun ulid_text :: "nat \<Rightarrow> int \<Rightarrow> string" where
  "ulid_text 0 v = []"
| "ulid_text (Suc n) v = ulid_text n (v div 32) @ [ulid_digit (v mod 32)]"

lemma crockford_text: "py_lower (rev (crockford n v)) = ulid_text n v"
  by (induction n arbitrary: v) (simp_all add: py_lower_def ulid_digit_def and_31 drop_bit_eq_div)

lemma ulid_text_length [simp]: "length (ulid_text n v) = n"
  by (induction n arbitrary: v) simp_all

lemma less_append: "length xs = length ys \<Longrightarrow> xs < ys \<Longrightarrow> xs @ us < ys @ vs" for xs :: "'a :: linorder list"
  by (induction xs ys arbitrary: rule: list_induct2) auto

lemma ulid_text_mono:
  assumes "0 \<le> v" "v < w" "w < 32 ^ n"
  shows "ulid_text n v < ulid_text n w"
  using assms
proof (induction n arbitrary: v w)
  case (Suc n)
  show ?case
  proof (cases "v div 32 = w div 32")
    case True
    have "v = v div 32 * 32 + v mod 32" "w = w div 32 * 32 + w mod 32" by simp_all
    then have "v mod 32 < w mod 32" using Suc.prems(2) True by linarith
    then have "ulid_digit (v mod 32) < ulid_digit (w mod 32)" by (intro ulid_digit_mono) simp_all
    moreover have "us @ [a] < us @ [b]" if "a < b" for us and a b :: char using that by (induction us) auto
    ultimately show ?thesis using True by simp
  next
    case False
    then have "v div 32 < w div 32" using Suc.prems(2) zdiv_mono1 [of v w 32] by simp
    moreover have "w div 32 < 32 ^ n" using Suc.prems(3) by (simp add: div_less_iff_less_mult mult.commute)
    ultimately have "ulid_text n (v div 32) < ulid_text n (w div 32)" using Suc.prems(1) by (intro Suc.IH) simp_all
    then show ?thesis by (simp add: less_append)
  qed
qed simp

lemma ulid_value:
  assumes "generate_ulid ts rnd = Inr u"
  shows "u = ulid_text 26 (ts * 256 ^ 10 + from_bytes rnd)" "length rnd = 10" "0 \<le> ts" "ts < 2 ^ 48"
    "0 \<le> ts * 256 ^ 10 + from_bytes rnd" "ts * 256 ^ 10 + from_bytes rnd < 32 ^ 26"
proof -
  obtain bs where bs: "to_bytes 6 ts = Inr bs" and l: "length rnd = 10"
    and u: "u = py_lower (rev (crockford 26 (from_bytes (bs @ rnd))))"
    using assms by (auto simp: generate_ulid_def result_simps split: if_splits)
  have v: "from_bytes bs = ts" "0 \<le> ts" "ts < 256 ^ 6" using to_bytes_value [OF bs] by simp_all
  show "u = ulid_text 26 (ts * 256 ^ 10 + from_bytes rnd)" unfolding u crockford_text using v(1) l by simp
  show "length rnd = 10" "0 \<le> ts" "ts < 2 ^ 48" using l v by simp_all
  have r: "0 \<le> from_bytes rnd" "from_bytes rnd < 256 ^ 10" using from_bytes_bounds [of rnd] l by simp_all
  then show "0 \<le> ts * 256 ^ 10 + from_bytes rnd" using v(2) by simp
  have "(ts + 1) * 256 ^ 10 \<le> 256 ^ 6 * 256 ^ 10" using v(3) by (intro mult_right_mono) simp_all
  then show "ts * 256 ^ 10 + from_bytes rnd < 32 ^ 26" using r by (simp add: algebra_simps)
qed


text \<open>Identifiers made from a time below two to the 48 milliseconds and ten random bytes have 26 characters of the
  alphabet, are equal only for the same time and bytes, and sort by their time.\<close>

theorem ulid_sortable:
  assumes "generate_ulid ts rnd = Inr u" "generate_ulid ts' rnd' = Inr u'"
  shows "length u = 26 \<and> (u = u' \<longleftrightarrow> ts = ts' \<and> rnd = rnd') \<and> (ts < ts' \<longrightarrow> u < u')"
proof -
  let ?v = "ts * 256 ^ 10 + from_bytes rnd" and ?w = "ts' * 256 ^ 10 + from_bytes rnd'"
  note v = ulid_value [OF assms(1)] and w = ulid_value [OF assms(2)]
  have r: "0 \<le> from_bytes rnd" "from_bytes rnd < 256 ^ 10" "0 \<le> from_bytes rnd'" "from_bytes rnd' < 256 ^ 10"
    using from_bytes_bounds [of rnd] from_bytes_bounds [of rnd'] v(2) w(2) by simp_all
  have "ts = ?v div 256 ^ 10" "from_bytes rnd = ?v mod 256 ^ 10" "ts' = ?w div 256 ^ 10" "from_bytes rnd' = ?w mod 256 ^ 10"
    using r by simp_all
  then have inj: "?v = ?w \<Longrightarrow> ts = ts' \<and> rnd = rnd'" using from_bytes_inj [of rnd rnd'] v(2) w(2) by metis
  have mono: "?v < ?w \<Longrightarrow> u < u'" "?w < ?v \<Longrightarrow> u' < u"
    unfolding v(1) w(1) by (rule ulid_text_mono; use v w in simp)+
  have "ts < ts' \<Longrightarrow> ?v < ?w" using r by (simp add: mult.commute)
  moreover have "u = u' \<longleftrightarrow> ts = ts' \<and> rnd = rnd'" using inj mono assms by (metis less_irrefl linorder_neqE sum.inject(2))
  ultimately show ?thesis using mono(1) v(1) by simp
qed

lemma ulid_sortable_witness:
  "\<exists>u u'. generate_ulid 1 [0, 0, 0, 0, 0, 0, 0, 0, 0, 255] = Inr u \<and> generate_ulid 2 [0, 0, 0, 0, 0, 0, 0, 0, 0, 0] = Inr u' \<and> u < u'"
proof -
  obtain u u' where u: "generate_ulid 1 [0, 0, 0, 0, 0, 0, 0, 0, 0, 255] = Inr u" "generate_ulid 2 [0, 0, 0, 0, 0, 0, 0, 0, 0, 0] = Inr u'"
    by (simp add: generate_ulid_def to_bytes_def)
  then show ?thesis using ulid_sortable [OF u] by simp
qed

end
