(* ===== verification/Alerts.thy ===== *)
theory Alerts
  imports Json Ids
begin

text \<open>
  Incoming alerts (\<^verbatim>\<open>signals/pagerduty.py\<close>, \<open>create_synthetic_alert\<close> of \<^verbatim>\<open>signals/scenarios.py\<close>): the signature of a
  webhook, the reading of its payload, the receiver's routes and the queue the runs take alerts from.  The HMAC of the
  standard library, its reading of JSON and of ISO times, the scenario files and fresh identifiers are parameters.
\<close>

section \<open>Signatures\<close>

text \<open>\<open>hmac.compare_digest\<close> of texts refuses those that are not ASCII.\<close>

definition compare_digest :: "string \<Rightarrow> string \<Rightarrow> PyExc + bool" where
  "compare_digest a b =
     (if list_all (\<lambda>c. (of_char c :: nat) < 128) (a @ b) then Inr (a = b)
      else Inl (Raised ''TypeError'' ''comparing strings with non-ASCII characters is not supported''))"

fun any_signature :: "string \<Rightarrow> string list \<Rightarrow> PyExc + bool" where
  "any_signature expected [] = Inr False"
| "any_signature expected (item # items) =
     bindE (compare_digest (py_strip (remove_prefix ''v1='' item)) expected) (\<lambda>same.
       if same then Inr True else any_signature expected items)"

text \<open>\<open>hmac key body\<close> is the hexadecimal HMAC-SHA256.\<close>

definition verify_pagerduty_signature ::
    "(string \<Rightarrow> string \<Rightarrow> string) \<Rightarrow> string \<Rightarrow> string option \<Rightarrow> string \<Rightarrow> PyExc + bool" where
  "verify_pagerduty_signature hmac body header secret =
     (case header of
        Some (c # cs) \<Rightarrow>
          if secret = [] then Inr False
          else any_signature (hmac (remove_prefix ''v1='' (py_strip secret)) body)
            (filter (\<lambda>s. s \<noteq> []) (map py_strip (split_char (CHR '','') (c # cs))))
      | _ \<Rightarrow> Inr False)"

section \<open>Fields of an alert\<close>

definition KNOWN_SERVICES :: "string list" where
  "KNOWN_SERVICES = [''edge-gateway'', ''auth-service'', ''data-service'', ''worker'']"

definition normalize_service_name :: "string \<Rightarrow> string" where
  "normalize_service_name raw =
     (let cleaned = py_lower (py_strip raw) in
      case find (\<lambda>known. word_at known False cleaned) KNOWN_SERVICES of
        Some known \<Rightarrow> known
      | None \<Rightarrow>
          (let sanitized = collapse (CHR ''-'') (strip_char (CHR ''-'') (map (\<lambda>c. if py_alnum c then c else CHR ''-'') cleaned)) in
           if sanitized \<noteq> [] then sanitized else ''edge-gateway''))"

text \<open>\<open>(priority or "").upper()\<close>; only compared with ASCII texts.\<close>

definition upper_text :: "PyVal \<Rightarrow> PyExc + string" where
  "upper_text v =
     (if \<not> py_truthy v then Inr []
      else (case v of PStr s \<Rightarrow> Inr (map (\<lambda>c. let n = (of_char c :: nat) in if 97 \<le> n \<and> n \<le> 122 then char_of (n - 32) else c) s)
        | _ \<Rightarrow> Inl (Raised ''AttributeError'' ''object has no attribute 'upper' '')))"

definition map_severity :: "PyVal \<Rightarrow> PyVal \<Rightarrow> PyVal \<Rightarrow> PyExc + Severity" where
  "map_severity urgency priority explicit =
     (if explicit = PStr ''critical'' then Inr Critical
      else if explicit = PStr ''error'' then Inr ErrorSeverity
      else if explicit = PStr ''warning'' then Inr Warning
      else bindE (upper_text priority) (\<lambda>p.
        if p \<in> {''P1'', ''P2''} \<or> urgency = PStr ''high'' then Inr Critical
        else if p \<in> {''P4'', ''P5''} \<or> urgency = PStr ''low'' then Inr Warning
        else if p = ''P3'' then Inr ErrorSeverity
        else Inr Critical))"

text \<open>\<open>val.replace("Z", "+00:00")\<close> and \<open>fromisoformat\<close>; every exception gives the present time.\<close>

definition parse_timestamp :: "PyStd \<Rightarrow> instant \<Rightarrow> PyVal \<Rightarrow> instant" where
  "parse_timestamp std now v =
     (if \<not> py_truthy v then now
      else (case v of
        PStr s \<Rightarrow> (case std_fromisoformat std (concat (map (\<lambda>c. if c = CHR ''Z'' then ''+00:00'' else [c]) s)) of
            Some t \<Rightarrow> t | None \<Rightarrow> now)
      | _ \<Rightarrow> now))"

section \<open>Webhooks\<close>

text \<open>The surroundings of the receiver: the standard library, the time, the identifier \<open>new_alert_id\<close> gives.\<close>

record HookEnv =
  he_std :: PyStd
  he_now :: instant
  he_new_id :: string

definition prefixed_id :: "string \<Rightarrow> string \<Rightarrow> string" where
  "prefixed_id prefix raw_id = (if startswith raw_id ''alt_'' then raw_id else prefix @ raw_id)"

definition pagerduty_alert :: "string \<Rightarrow> string \<Rightarrow> string \<Rightarrow> Severity \<Rightarrow> instant \<Rightarrow> (string \<times> PyVal) list \<Rightarrow> Alert" where
  "pagerduty_alert aid title service severity fired_at raw = \<lparr>alert_id = aid, alert_source = PagerdutyAlert, alert_title = title,
     alert_service = service, alert_severity = severity, alert_fired_at = fired_at, alert_raw = raw\<rparr>"

text \<open>The name of a service in a field that is a dict with one of the keys, or the name itself.\<close>

definition service_field :: "PyStd \<Rightarrow> string list \<Rightarrow> PyVal \<Rightarrow> string" where
  "service_field std keys v =
     (case v of
        PDict d \<Rightarrow> py_str std (foldr (\<lambda>k. py_or (get_or k PNone d)) keys (PStr ''edge-gateway''))
      | _ \<Rightarrow> py_str std (py_or v (PStr ''edge-gateway'')))"

definition parse_v3 :: "HookEnv \<Rightarrow> (string \<times> PyVal) list \<Rightarrow> (string \<times> PyVal) list \<Rightarrow> PyExc + Alert option" where
  "parse_v3 env payload evt =
     (let std = he_std env; event_type = get_or ''event_type'' (PStr ''incident.triggered'') evt in
      if event_type \<notin> {PStr ''incident.triggered'', PStr ''incident.reopened''} then Inr None
      else bindE (as_dict (get_or ''data'' (PDict []) evt)) (\<lambda>data.
        (let raw_id = py_str std (py_or (get_or ''id'' PNone data) (py_or (get_or ''id'' PNone evt) (PStr (he_new_id env))));
             title = py_str std (py_or (get_or ''title'' PNone data) (PStr ''PagerDuty incident triggered''));
             service = normalize_service_name (service_field std [''summary'', ''name''] (get_or ''service'' PNone data));
             priority = (case get_or ''priority'' PNone data of
                 PDict p \<Rightarrow> get_or ''summary'' PNone p
               | p \<Rightarrow> PStr (py_str std (py_or p (PStr []))));
             fired_at = parse_timestamp std (he_now env)
               (py_or (get_or ''occurred_at'' PNone evt) (get_or ''created_at'' PNone data)) in
         bindE (map_severity (get_or ''urgency'' PNone data) priority (get_or ''severity'' PNone data)) (\<lambda>severity.
           Inr (Some (pagerduty_alert (prefixed_id ''alt_pd_'' raw_id) title service severity fired_at payload))))))"

fun parse_v2 :: "HookEnv \<Rightarrow> (string \<times> PyVal) list \<Rightarrow> PyVal list \<Rightarrow> PyExc + Alert option" where
  "parse_v2 env payload [] = Inr None"
| "parse_v2 env payload (m # msgs) =
     (case m of
        PDict msg \<Rightarrow>
          if get_or ''event'' PNone msg \<notin> {PStr ''incident.trigger'', PStr ''incident.reopen''} then parse_v2 env payload msgs
          else bindE (as_dict (get_or ''incident'' (PDict []) msg)) (\<lambda>inc.
            (let std = he_std env;
                 raw_id = py_str std (py_or (get_or ''id'' PNone inc) (PStr (he_new_id env)));
                 title = py_str std (py_or (get_or ''title'' PNone inc) (PStr ''PagerDuty incident triggered''));
                 service = normalize_service_name (service_field std [''name''] (get_or ''service'' PNone inc)) in
             bindE (map_severity (get_or ''urgency'' PNone inc) (PStr (py_str std (get_or ''priority'' (PStr []) inc))) PNone) (\<lambda>severity.
               Inr (Some (pagerduty_alert (prefixed_id ''alt_pd_'' raw_id) title service severity
                 (parse_timestamp std (he_now env) (get_or ''created_on'' PNone msg)) payload)))))
      | _ \<Rightarrow> parse_v2 env payload msgs)"

definition parse_direct :: "HookEnv \<Rightarrow> (string \<times> PyVal) list \<Rightarrow> PyVal \<Rightarrow> PyVal \<Rightarrow> PyExc + Alert option" where
  "parse_direct env payload title service =
     (let std = he_std env; raw_id = py_str std (py_or (get_or ''alert_id'' PNone payload) (PStr (he_new_id env))) in
      bindE (map_severity PNone PNone (get_or ''severity'' PNone payload)) (\<lambda>severity.
        Inr (Some (pagerduty_alert (prefixed_id ''alt_'' raw_id) (py_str std title) (normalize_service_name (py_str std service)) severity
          (parse_timestamp std (he_now env) (get_or ''fired_at'' PNone payload)) payload))))"

text \<open>A payload that is no dict is looked into all the same, and mostly fails there.\<close>

definition parse_pagerduty_webhook :: "HookEnv \<Rightarrow> PyVal \<Rightarrow> PyExc + Alert option" where
  "parse_pagerduty_webhook env v =
     bindE (py_in ''event'' v) (\<lambda>has_event.
     bindE (if has_event then py_item ''event'' v else Inr PNone) (\<lambda>event.
       case (v, event) of
         (PDict payload, PDict evt) \<Rightarrow> parse_v3 env payload evt
       | _ \<Rightarrow>
           bindE (py_in ''messages'' v) (\<lambda>has_messages.
           bindE (if has_messages then py_item ''messages'' v else Inr PNone) (\<lambda>messages.
             case (v, messages) of
               (PDict payload, PColl msgs) \<Rightarrow> parse_v2 env payload msgs
             | _ \<Rightarrow>
                 bindE (py_in ''title'' v) (\<lambda>has_title.
                 bindE (if has_title then py_in ''service'' v else Inr False) (\<lambda>has_service.
                   if has_title \<and> has_service then
                     bindE (as_dict v) (\<lambda>payload.
                       parse_direct env payload (get_or ''title'' PNone payload) (get_or ''service'' PNone payload))
                   else Inr None))))))"

section \<open>The receiver\<close>

record ScenarioTemplate =
  sc_id :: string
  sc_title :: string
  sc_service :: string
  sc_severity :: Severity

text \<open>\<open>hc_template\<close>: \<open>load_scenario_template\<close>, which reads files or raises a \<open>ValueError\<close>; \<open>hc_loads\<close>: the JSON of a body.\<close>

record HookConfig =
  hc_require_signature :: bool
  hc_secret :: string
  hc_hmac :: "string \<Rightarrow> string \<Rightarrow> string"
  hc_loads :: "string \<Rightarrow> PyVal option"
  hc_template :: "string \<Rightarrow> PyExc + ScenarioTemplate"

definition create_webhook_app ::
    "bool \<Rightarrow> string option \<Rightarrow> string option \<Rightarrow> (string \<Rightarrow> string \<Rightarrow> string) \<Rightarrow> (string \<Rightarrow> PyVal option) \<Rightarrow>
     (string \<Rightarrow> PyExc + ScenarioTemplate) \<Rightarrow> PyExc + HookConfig" where
  "create_webhook_app require_signature secret configured hmac loads template =
     (let webhook_secret = (case secret of Some s \<Rightarrow> s | None \<Rightarrow> (case configured of Some s \<Rightarrow> s | None \<Rightarrow> [])) in
      if require_signature \<and> webhook_secret = [] then
        Inl (Raised ''ValueError'' (fstr [''Webhook signature verification is required but no secret was configured '',
          ''(pass --secret or set PAGERDUTY_WEBHOOK_SECRET)'']))
      else Inr \<lparr>hc_require_signature = require_signature, hc_secret = webhook_secret, hc_hmac = hmac, hc_loads = loads, hc_template = template\<rparr>)"

text \<open>What a handler answers: a status, and the alert it puts into the queue.  An exception is the server's 500.\<close>

definition handle_webhook :: "HookConfig \<Rightarrow> HookEnv \<Rightarrow> string \<Rightarrow> string option \<Rightarrow> int \<times> Alert option" where
  "handle_webhook hc env body header =
     (case (if hc_require_signature hc then verify_pagerduty_signature (hc_hmac hc) body header (hc_secret hc) else Inr True) of
        Inl e \<Rightarrow> (500, None)
      | Inr False \<Rightarrow> (401, None)
      | Inr True \<Rightarrow>
          (case (if body = [] then Some (PDict []) else hc_loads hc body) of
             None \<Rightarrow> (400, None)
           | Some payload \<Rightarrow>
               (case parse_pagerduty_webhook env payload of
                  Inl e \<Rightarrow> (500, None)
                | Inr None \<Rightarrow> (200, None)
                | Inr (Some alert) \<Rightarrow> (200, Some alert))))"

definition create_synthetic_alert ::
    "HookEnv \<Rightarrow> ScenarioTemplate \<Rightarrow> string option \<Rightarrow> string option \<Rightarrow> Severity option \<Rightarrow> Alert" where
  "create_synthetic_alert env template title service severity =
     \<lparr>alert_id = he_new_id env, alert_source = SyntheticAlert,
      alert_title = (case title of Some t \<Rightarrow> t | None \<Rightarrow> sc_title template),
      alert_service = normalize_service_name (case service of Some s \<Rightarrow> s | None \<Rightarrow> sc_service template),
      alert_severity = (case severity of Some s \<Rightarrow> s | None \<Rightarrow> sc_severity template), alert_fired_at = he_now env,
      alert_raw = [(''scenario_id'', PStr (sc_id template)), (''source'', PStr ''synthetic_fallback'')]\<rparr>"

definition severity_of :: "PyVal \<Rightarrow> Severity option" where
  "severity_of v = (if v = PStr ''critical'' then Some Critical else if v = PStr ''error'' then Some ErrorSeverity
     else if v = PStr ''warning'' then Some Warning else None)"

text \<open>A title or service in the payload that is neither a text nor null fails in the model's validation.\<close>

definition text_or_none :: "PyVal \<Rightarrow> PyExc + string option" where
  "text_or_none v = (case v of PNone \<Rightarrow> Inr None | PStr s \<Rightarrow> Inr (Some s)
     | _ \<Rightarrow> Inl (Raised ''ValidationError'' ''Input should be a valid string''))"

definition inject_alert :: "HookConfig \<Rightarrow> HookEnv \<Rightarrow> string \<Rightarrow> int \<times> Alert option" where
  "inject_alert hc env body =
     (case hc_loads hc body of
        None \<Rightarrow> (400, None)
      | Some v \<Rightarrow>
          (case bindE (py_in ''scenario'' v) (\<lambda>by_scenario.
             if by_scenario then
               bindE (py_item ''scenario'' v) (\<lambda>scenario.
               bindE (as_dict v) (\<lambda>p.
               bindE (hc_template hc (py_str (he_std env) scenario)) (\<lambda>template.
               bindE (text_or_none (get_or ''service'' PNone p)) (\<lambda>service.
               bindE (text_or_none (get_or ''title'' PNone p)) (\<lambda>title.
                 Inr (create_synthetic_alert env template title service (severity_of (get_or ''severity'' PNone p))))))))
             else
               bindE (as_dict v) (\<lambda>p.
               bindE (map_severity PNone PNone (get_or ''severity'' PNone p)) (\<lambda>severity.
               bindE (case get_or ''raw'' v p of PDict r \<Rightarrow> Inr r
                 | _ \<Rightarrow> Inl (Raised ''ValidationError'' ''Input should be a valid dictionary'')) (\<lambda>raw.
                 Inr \<lparr>alert_id = py_str (he_std env) (py_or (get_or ''alert_id'' PNone p) (PStr (he_new_id env))),
                   alert_source = SyntheticAlert,
                   alert_title = py_str (he_std env) (get_or ''title'' (PStr ''Synthetic incident alert'') p),
                   alert_service = normalize_service_name (py_str (he_std env) (get_or ''service'' (PStr ''edge-gateway'') p)),
                   alert_severity = severity,
                   alert_fired_at = parse_timestamp (he_std env) (he_now env) (get_or ''fired_at'' PNone p),
                   alert_raw = raw\<rparr>)))) of
             Inl e \<Rightarrow> (500, None)
           | Inr alert \<Rightarrow> (200, Some alert)))"

section \<open>The queue\<close>

text \<open>What happens to a receiver: a post to the webhook, a post to an injection route, an alert injected by the program, and
  a run that takes the next alert, which waits while there is none.\<close>

datatype HookEvent =
    HookPost HookEnv string "string option"
  | HookInject HookEnv string
  | HookSynthetic Alert
  | HookReceive

record AlertQueue =
  aq_queue :: "Alert list"
  aq_received :: "Alert list"

definition enqueue_alert :: "Alert option \<Rightarrow> AlertQueue \<Rightarrow> AlertQueue" where
  "enqueue_alert a s = (case a of Some x \<Rightarrow> s\<lparr>aq_queue := aq_queue s @ [x]\<rparr> | None \<Rightarrow> s)"

definition receive_alert :: "AlertQueue \<Rightarrow> (Alert \<times> AlertQueue) option" where
  "receive_alert s = (case aq_queue s of [] \<Rightarrow> None | a # q \<Rightarrow> Some (a, s\<lparr>aq_queue := q, aq_received := aq_received s @ [a]\<rparr>))"

inductive hook_step :: "HookConfig \<Rightarrow> AlertQueue \<Rightarrow> HookEvent \<Rightarrow> AlertQueue \<Rightarrow> bool" for hc where
  StepPost: "hook_step hc s (HookPost env body header) (enqueue_alert (snd (handle_webhook hc env body header)) s)"
| StepInject: "hook_step hc s (HookInject env body) (enqueue_alert (snd (inject_alert hc env body)) s)"
| StepSynthetic: "hook_step hc s (HookSynthetic a) (enqueue_alert (Some a) s)"
| StepReceive: "receive_alert s = Some (a, s') \<Longrightarrow> hook_step hc s HookReceive s'"

inductive hook_run :: "HookConfig \<Rightarrow> HookEvent list \<Rightarrow> AlertQueue \<Rightarrow> bool" for hc where
  HookStart: "hook_run hc [] \<lparr>aq_queue = [], aq_received = []\<rparr>"
| HookStep: "hook_run hc es s \<Longrightarrow> hook_step hc s e s' \<Longrightarrow> hook_run hc (es @ [e]) s'"

code_pred (modes: i \<Rightarrow> i \<Rightarrow> i \<Rightarrow> o \<Rightarrow> bool) hook_step .

inductive_cases hook_stepE: "hook_step hc s e s'"

text \<open>The alerts that events bring in, in their order.\<close>

fun brought :: "HookConfig \<Rightarrow> HookEvent \<Rightarrow> Alert option" where
  "brought hc (HookPost env body header) = snd (handle_webhook hc env body header)"
| "brought hc (HookInject env body) = snd (inject_alert hc env body)"
| "brought hc (HookSynthetic a) = Some a"
| "brought hc HookReceive = None"

lemma hook_run_fifo: "hook_run hc es s \<Longrightarrow> aq_received s @ aq_queue s = List.map_filter (brought hc) es"
proof (induction rule: hook_run.induct)
  case HookStart
  show ?case by (simp add: map_filter_simps)
next
  case (HookStep es s e s')
  have "aq_received s' @ aq_queue s' = (aq_received s @ aq_queue s) @ (case brought hc e of Some a \<Rightarrow> [a] | None \<Rightarrow> [])"
    using HookStep(2)
    by (cases rule: hook_stepE) (auto simp: enqueue_alert_def receive_alert_def split: option.splits list.splits)
  then show ?case using HookStep.IH by (simp add: map_filter_def split: option.split)
qed

text \<open>A body is signed when one of the signatures of its header is the body's under the secret.\<close>

definition signed :: "HookConfig \<Rightarrow> string \<Rightarrow> string option \<Rightarrow> bool" where
  "signed hc body header \<longleftrightarrow> hc_secret hc \<noteq> [] \<and>
     (\<exists>s item. header = Some s \<and> item \<in> set (split_char (CHR '','') s) \<and>
        py_strip (remove_prefix ''v1='' (py_strip item)) = hc_hmac hc (remove_prefix ''v1='' (py_strip (hc_secret hc))) body)"

lemma any_signature_True: "any_signature expected items = Inr True \<Longrightarrow> \<exists>item \<in> set items. py_strip (remove_prefix ''v1='' item) = expected"
  by (induction items) (auto simp: result_simps compare_digest_def split: if_splits)

lemma verified_signed:
  assumes "verify_pagerduty_signature (hc_hmac hc) body header (hc_secret hc) = Inr True"
  shows "signed hc body header"
proof -
  obtain s where s: "header = Some s" "hc_secret hc \<noteq> []"
    "any_signature (hc_hmac hc (remove_prefix ''v1='' (py_strip (hc_secret hc))) body)
       (filter (\<lambda>s. s \<noteq> []) (map py_strip (split_char (CHR '','') s))) = Inr True"
    using assms by (auto simp: verify_pagerduty_signature_def split: option.splits list.splits if_splits)
  from any_signature_True [OF s(3)] show ?thesis using s(1,2) by (auto simp: signed_def)
qed

lemma webhook_accepts:
  assumes "snd (handle_webhook hc env body header) = Some a" "hc_require_signature hc"
  shows "signed hc body header \<and>
    (\<exists>v. (if body = [] then v = PDict [] else hc_loads hc body = Some v) \<and> parse_pagerduty_webhook env v = Inr (Some a))"
proof -
  have v: "verify_pagerduty_signature (hc_hmac hc) body header (hc_secret hc) = Inr True"
    using assms by (auto simp: handle_webhook_def split: sum.splits bool.splits)
  have "\<exists>v. (if body = [] then v = PDict [] else hc_loads hc body = Some v) \<and> parse_pagerduty_webhook env v = Inr (Some a)"
    using assms v by (auto simp: handle_webhook_def split: sum.splits option.splits if_splits)
  then show ?thesis using verified_signed [OF v] by blast
qed

section \<open>Alerts are taken as they came\<close>

text \<open>C31: a receiver that is to require signatures is not created without a secret; and whatever requests it has seen, the
  alerts the runs have taken and those that wait are, in this order, the alerts that were brought in, each by the program
  itself, by an injection, which needs no signature, or by a webhook whose body is signed with the secret and parses to it.\<close>

theorem alerts_authentic:
  assumes "create_webhook_app True secret configured hmac loads template = Inr hc" "hook_run hc es s"
  shows "hc_secret hc \<noteq> [] \<and> aq_received s @ aq_queue s = List.map_filter (brought hc) es \<and>
    (\<forall>a \<in> set (aq_received s @ aq_queue s).
       HookSynthetic a \<in> set es \<or>
       (\<exists>env body. HookInject env body \<in> set es \<and> inject_alert hc env body = (200, Some a)) \<or>
       (\<exists>env body header v. HookPost env body header \<in> set es \<and> signed hc body header \<and>
          (if body = [] then v = PDict [] else hc_loads hc body = Some v) \<and> parse_pagerduty_webhook env v = Inr (Some a)))"
proof -
  have hc: "hc_require_signature hc" "hc_secret hc \<noteq> []"
    using assms(1) by (auto simp: create_webhook_app_def Let_def split: if_splits)
  note fifo = hook_run_fifo [OF assms(2)]
  have origin: "HookSynthetic a \<in> set es \<or>
      (\<exists>env body. HookInject env body \<in> set es \<and> inject_alert hc env body = (200, Some a)) \<or>
      (\<exists>env body header v. HookPost env body header \<in> set es \<and> signed hc body header \<and>
         (if body = [] then v = PDict [] else hc_loads hc body = Some v) \<and> parse_pagerduty_webhook env v = Inr (Some a))"
    if "a \<in> set (aq_received s @ aq_queue s)" for a
  proof -
    have "a \<in> set (List.map_filter (brought hc) es)" using that unfolding fifo .
    then obtain e where e: "e \<in> set es" "brought hc e = Some a" by (force simp: map_filter_def)
    have inject: "inject_alert hc env body = (200, Some a)" if "snd (inject_alert hc env body) = Some a" for env body
      using that by (auto simp: inject_alert_def split: option.splits sum.splits)
    show ?thesis
    proof (cases e)
      case (HookPost env body header)
      then show ?thesis using e webhook_accepts [OF _ hc(1)] by (metis brought.simps(1))
    qed (use e inject in auto)
  qed
  then show ?thesis using hc(2) fifo by blast
qed


definition sample_hook :: HookEnv where
  "sample_hook = \<lparr>he_std = plain_std, he_now = 0, he_new_id = ''alt_0''\<rparr>"

definition sample_payload :: "(string \<times> PyVal) list" where
  "sample_payload = [(''event'', PDict [(''event_type'', PStr ''incident.triggered''), (''data'', PDict [(''id'', PStr ''P7'')])])]"

definition sample_config :: HookConfig where
  "sample_config = \<lparr>hc_require_signature = True, hc_secret = ''s'', hc_hmac = (\<lambda>key body. key @ body),
     hc_loads = (\<lambda>body. if body = ''x'' then Some (PDict sample_payload) else None),
     hc_template = (\<lambda>_. Inl (Raised ''ValueError'' []))\<rparr>"

definition sample_alert :: Alert where
  "sample_alert = pagerduty_alert ''alt_pd_P7'' ''PagerDuty incident triggered'' ''edge-gateway'' Critical 0 sample_payload"

lemma sample_parsed: "parse_pagerduty_webhook sample_hook (PDict sample_payload) = Inr (Some sample_alert)"
  by code_simp

lemma sample_handled: "handle_webhook sample_config sample_hook ''x'' (Some ''v1=sx'') = (200, Some sample_alert)"
  by code_simp

lemma alerts_authentic_witness:
  "let es = [HookPost sample_hook ''x'' (Some ''v1=sx''), HookPost sample_hook ''x'' (Some ''v1=zz'')];
       s = \<lparr>aq_queue = [sample_alert], aq_received = []\<rparr> in
   hook_run sample_config es s \<and> hc_secret sample_config \<noteq> [] \<and>
   aq_received s @ aq_queue s = List.map_filter (brought sample_config) es \<and>
   (\<exists>env body header v. HookPost env body header \<in> set es \<and> signed sample_config body header \<and>
      (if body = [] then v = PDict [] else hc_loads sample_config body = Some v) \<and>
      parse_pagerduty_webhook env v = Inr (Some sample_alert))"
proof -
  let ?es = "[HookPost sample_hook ''x'' (Some ''v1=sx''), HookPost sample_hook ''x'' (Some ''v1=zz'')]"
  let ?s = "\<lparr>aq_queue = [sample_alert], aq_received = []\<rparr>"
  have c: "create_webhook_app True (Some ''s'') None (hc_hmac sample_config) (hc_loads sample_config) (hc_template sample_config) =
      Inr sample_config"
    by (simp add: create_webhook_app_def sample_config_def)
  have forged: "snd (handle_webhook sample_config sample_hook ''x'' (Some ''v1=zz'')) = None" by code_simp
  have first: "hook_run sample_config [HookPost sample_hook ''x'' (Some ''v1=sx'')] ?s"
    using HookStep [OF HookStart StepPost, of sample_config sample_hook "''x''" "Some ''v1=sx''"]
    by (simp add: sample_handled enqueue_alert_def)
  have run: "hook_run sample_config ?es ?s"
    using HookStep [OF first StepPost, of sample_hook "''x''" "Some ''v1=zz''"] by (simp add: forged enqueue_alert_def)
  have no_inject: "HookSynthetic a \<notin> set ?es" "HookInject e b \<notin> set ?es" for a e b by simp_all
  have "sample_alert \<in> set (aq_received ?s @ aq_queue ?s)" by simp
  then show ?thesis using alerts_authentic [OF c run] run no_inject unfolding Let_def by blast
qed

end
