(* ===== verification/Pager.thy ===== *)
theory Pager
  imports Alerts Triples
begin

text \<open>
  Escalation to a human (\<^verbatim>\<open>notify/pagerduty.py\<close>): which incident of PagerDuty an
  alert belongs to, the two requests of an escalation and what becomes of their failures.  The service is a parameter, and
  so is the text of the note, which holds characters that are not modelled.
\<close>

section \<open>The incident\<close>

definition stripped_text :: "PyStd \<Rightarrow> PyVal \<Rightarrow> string" where
  "stripped_text std v = py_strip (py_str std v)"

definition incident_in_event :: "PyStd \<Rightarrow> (string \<times> PyVal) list \<Rightarrow> string option" where
  "incident_in_event std raw =
     (case get_or ''event'' PNone raw of
        PDict evt \<Rightarrow>
          (let data_id = (case get_or ''data'' PNone evt of PDict data \<Rightarrow> get_or ''id'' PNone data | _ \<Rightarrow> PNone) in
           if py_truthy data_id then Some (stripped_text std data_id)
           else if py_truthy (get_or ''id'' PNone evt) then Some (stripped_text std (get_or ''id'' PNone evt))
           else None)
      | _ \<Rightarrow> None)"

definition incident_in_messages :: "PyStd \<Rightarrow> (string \<times> PyVal) list \<Rightarrow> string option" where
  "incident_in_messages std raw =
     (case get_or ''messages'' PNone raw of
        PColl (PDict m # ms) \<Rightarrow>
          (case get_or ''incident'' PNone m of
             PDict inc \<Rightarrow> if py_truthy (get_or ''id'' PNone inc) then Some (stripped_text std (get_or ''id'' PNone inc)) else None
           | _ \<Rightarrow> None)
      | _ \<Rightarrow> None)"

definition incident_field :: "string \<Rightarrow> (string \<times> PyVal) list \<Rightarrow> string option" where
  "incident_field k raw = (case get_or k PNone raw of PStr s \<Rightarrow> if py_strip s \<noteq> [] then Some (py_strip s) else None | _ \<Rightarrow> None)"

text \<open>The first of several places that holds an incident.\<close>

fun first_some :: "'a option list \<Rightarrow> 'a option" where
  "first_some [] = None"
| "first_some (x # xs) = (case x of Some a \<Rightarrow> Some a | None \<Rightarrow> first_some xs)"

definition incident_of_alert_id :: "string \<Rightarrow> string option" where
  "incident_of_alert_id aid =
     (if startswith aid ''alt_pd_'' then Some (remove_prefix ''alt_pd_'' aid)
      else if startswith aid ''alt_'' then Some (remove_prefix ''alt_'' aid) else None)"

definition incident_of_own_id :: "string \<Rightarrow> string" where
  "incident_of_own_id incident_id =
     (let cleaned = (case find (startswith incident_id) [''inc_alt_pd_'', ''inc_alt_'', ''inc_''] of
          Some p \<Rightarrow> remove_prefix p incident_id | None \<Rightarrow> incident_id) in
      if cleaned \<noteq> [] then cleaned else incident_id)"

definition resolve_pagerduty_incident_id :: "PyStd \<Rightarrow> string \<Rightarrow> IncidentContext option \<Rightarrow> string option \<Rightarrow> string" where
  "resolve_pagerduty_incident_id std incident_id context pd_incident_id =
     (let given = (case pd_incident_id of Some s \<Rightarrow> if py_strip s \<noteq> [] then Some (py_strip s) else None | None \<Rightarrow> None);
          alerted = (case context of None \<Rightarrow> None
            | Some ctx \<Rightarrow>
                (let raw = alert_raw (ctx_alert ctx) in
                 first_some [incident_in_event std raw, incident_in_messages std raw, incident_field ''id'' raw,
                   incident_field ''incident_id'' raw, incident_of_alert_id (alert_id (ctx_alert ctx))])) in
      case first_some [given, alerted] of Some i \<Rightarrow> i | None \<Rightarrow> incident_of_own_id incident_id)"

section \<open>Requests\<close>

datatype PagerCall = AddNote string string | SetUrgency string string

type_synonym 'a pager_act = "(PagerCall, 'a) act"

text \<open>\<open>pg_http\<close> holds the service; \<open>RequestError\<close> stands for every \<open>httpx.HTTPError\<close>.\<close>

record PagerDuty =
  pg_base_url :: string
  pg_token :: "string option"
  pg_std :: PyStd
  pg_http :: "PagerCall \<Rightarrow> PagerCall trace \<Rightarrow> HttpFault + HttpReply"

definition notification_error :: "string list \<Rightarrow> PyExc + 'a" where
  "notification_error parts = Inl (Raised ''PagerDutyNotificationError'' (fstr parts))"

definition NO_TOKEN :: string where
  "NO_TOKEN = ''PagerDuty API token is not configured. Set PAGERDUTY_TOKEN in .env or Settings.''"

definition resolve_credentials :: "PagerDuty \<Rightarrow> PyExc + unit" where
  "resolve_credentials pg =
     (case pg_token pg of
        Some (c # cs) \<Rightarrow> Inr ()
      | _ \<Rightarrow> notification_error [NO_TOKEN])"

text \<open>A request, its failures under the name of what it does, and the JSON object of a reply with one of the statuses.\<close>

definition pager_request ::
    "PagerDuty \<Rightarrow> PagerCall \<Rightarrow> string \<Rightarrow> string \<Rightarrow> int list \<Rightarrow> (string \<times> PyVal) list pager_act" where
  "pager_request pg c doing verb good h =
     (case resolve_credentials pg of
        Inl e \<Rightarrow> (Inl e, h)
      | Inr _ \<Rightarrow>
          (case pg_http pg c h of
             Inl (RequestError t) \<Rightarrow> (notification_error [''Network failure '', doing, '': '', t], h @ [(c, False)])
           | Inl (OtherError e) \<Rightarrow> (Inl e, h @ [(c, False)])
           | Inr r \<Rightarrow>
               (if hr_status r \<notin> set good then
                  notification_error [''PagerDuty '', verb, '' failed with HTTP '', int_str (hr_status r), '': '', hr_text r]
                else bindE (hr_json r) (\<lambda>data.
                  case data of PDict d \<Rightarrow> Inr d
                  | _ \<Rightarrow> notification_error [''Invalid response from PagerDuty: expected JSON object'']),
                h @ [(c, True)])))"

definition note_url :: "PagerDuty \<Rightarrow> string \<Rightarrow> string" where
  "note_url pg i = fstr [pg_base_url pg, ''/incidents/'', i, ''/notes'']"

definition incident_url :: "PagerDuty \<Rightarrow> string \<Rightarrow> string" where
  "incident_url pg i = fstr [pg_base_url pg, ''/incidents/'', i]"

definition add_incident_note :: "PagerDuty \<Rightarrow> string \<Rightarrow> string \<Rightarrow> (string \<times> PyVal) list pager_act" where
  "add_incident_note pg i content =
     pager_request pg (AddNote (note_url pg i) content) ''adding PagerDuty note'' ''add note'' [200, 201]"

definition set_incident_urgency :: "PagerDuty \<Rightarrow> string \<Rightarrow> string \<Rightarrow> (string \<times> PyVal) list pager_act" where
  "set_incident_urgency pg i urgency =
     pager_request pg (SetUrgency (incident_url pg i) urgency) ''setting PagerDuty urgency'' ''set urgency'' [200]"

text \<open>\<open>except PagerDutyNotificationError as exc: if "404" in str(exc)\<close>\<close>

definition unless_not_found :: "string \<Rightarrow> (string \<times> PyVal) list pager_act \<Rightarrow> (string \<times> PyVal) list pager_act" where
  "unless_not_found i m = acatch m (\<lambda>c t.
     if isinstance c ''PagerDutyNotificationError'' \<and> contains_sub t ''404''
     then aret [(''status'', PStr ''incident_not_found''), (''pd_incident_id'', PStr i)]
     else araise (Raised c t))"

record Escalation =
  esc_pd_incident_id :: string
  esc_note :: "(string \<times> PyVal) list"
  esc_incident :: "(string \<times> PyVal) list"
  esc_note_content :: string

definition escalate :: "PagerDuty \<Rightarrow> string \<Rightarrow> IncidentContext option \<Rightarrow> string \<Rightarrow> string \<Rightarrow> string option \<Rightarrow> Escalation pager_act" where
  "escalate pg incident_id context note_content urgency pd_incident_id =
     (let target = resolve_pagerduty_incident_id (pg_std pg) incident_id context pd_incident_id in
      abind (unless_not_found target (add_incident_note pg target note_content)) (\<lambda>note_resp.
      abind (unless_not_found target (set_incident_urgency pg target urgency)) (\<lambda>urgency_resp.
        aret \<lparr>esc_pd_incident_id = target, esc_note = note_resp, esc_incident = urgency_resp, esc_note_content = note_content\<rparr>)))"

definition pd_escalate_pagerduty :: "PagerDuty \<Rightarrow> string \<Rightarrow> IncidentContext option \<Rightarrow> string \<Rightarrow> string \<Rightarrow> string option \<Rightarrow> unit pager_act" where
  "pd_escalate_pagerduty pg incident_id context note_content urgency pd_incident_id =
     abind (escalate pg incident_id context note_content urgency pd_incident_id) (\<lambda>_. aret ())"

section \<open>From the alert to the incident\<close>

lemma first_some_simps [simp]: "first_some [Some a, y] = Some a" "first_some [None, y] = y"
  by (simp_all split: option.split)

lemma parse_v3_raw: "parse_v3 env payload evt = Inr (Some a) \<Longrightarrow> alert_raw a = payload"
  by (auto simp: parse_v3_def Let_def pagerduty_alert_def result_simps split: if_splits)

lemma parse_v2_raw: "parse_v2 env payload msgs = Inr (Some a) \<Longrightarrow> alert_raw a = payload"
proof (induction env payload msgs rule: parse_v2.induct)
  case (2 env payload m msgs)
  show ?case
  proof (cases m)
    case (PDict msg)
    show ?thesis
      using 2 by (cases "get_or ''event'' PNone msg \<notin> {PStr ''incident.trigger'', PStr ''incident.reopen''}")
        (auto simp: PDict Let_def pagerduty_alert_def result_simps)
  qed (use 2 in simp_all)
qed simp

lemma parse_event: "map_of payload ''event'' = Some (PDict evt) \<Longrightarrow>
    parse_pagerduty_webhook env (PDict payload) = parse_v3 env payload evt"
  by (simp add: parse_pagerduty_webhook_def py_in_def py_item_def)

lemma parse_messages: "map_of payload ''event'' = None \<Longrightarrow> map_of payload ''messages'' = Some (PColl msgs) \<Longrightarrow>
    parse_pagerduty_webhook env (PDict payload) = parse_v2 env payload msgs"
  by (simp add: parse_pagerduty_webhook_def py_in_def py_item_def)

text \<open>C32: an escalation of a run that a webhook started goes to the incident the webhook named: for the present format of
  webhooks to the one in the event's data or, without one there, to the event's; for the earlier format to the incident
  of its first message, when that is the one that triggers.\<close>

theorem paged_incident:
  assumes "parse_pagerduty_webhook env (PDict payload) = Inr (Some a)" "ctx_alert ctx = a"
    "(\<exists>evt. map_of payload ''event'' = Some (PDict evt) \<and>
        (named = py_or (get_or ''id'' PNone (case get_or ''data'' PNone evt of PDict data \<Rightarrow> data | _ \<Rightarrow> [])) (get_or ''id'' PNone evt))) \<or>
     (\<exists>m ms inc. map_of payload ''event'' = None \<and> map_of payload ''messages'' = Some (PColl (PDict m # ms)) \<and>
        map_of m ''incident'' = Some (PDict inc) \<and> named = get_or ''id'' PNone inc)"
    "py_truthy named"
  shows "resolve_pagerduty_incident_id std incident_id (Some ctx) None = stripped_text std named"
proof -
  have raw: "alert_raw a = payload"
    using assms(1,3) by (auto simp: parse_event parse_messages simp del: parse_v2.simps intro: parse_v3_raw parse_v2_raw)
  have "first_some [incident_in_event std payload, incident_in_messages std payload, incident_field ''id'' payload,
      incident_field ''incident_id'' payload, incident_of_alert_id (alert_id a)] = Some (stripped_text std named)"
    using assms(3)
  proof (elim disjE exE conjE, goal_cases)
    case (1 evt)
    then have "incident_in_event std payload = Some (stripped_text std named)"
      using assms(4) by (auto simp: incident_in_event_def get_or_def py_or_def Let_def split: PyVal.splits option.splits if_splits)
    then show ?case by simp
  next
    case (2 m ms inc)
    then have "incident_in_event std payload = None" "incident_in_messages std payload = Some (stripped_text std named)"
      using assms(4) by (simp_all add: incident_in_event_def incident_in_messages_def get_or_def)
    then show ?case by simp
  qed
  then show ?thesis using raw assms(2) by (simp add: resolve_pagerduty_incident_id_def Let_def)
qed


section \<open>What an escalation that returns has done\<close>

text \<open>The service took the request, or the error spoke of 404.\<close>

definition answered :: "PagerDuty \<Rightarrow> PagerCall \<Rightarrow> int list \<Rightarrow> PagerCall trace \<Rightarrow> bool" where
  "answered pg c good h =
     (case pg_http pg c h of
        Inr r \<Rightarrow> hr_status r \<in> set good \<and> (case hr_json r of Inr v \<Rightarrow> is_dict v | Inl _ \<Rightarrow> False)
      | Inl _ \<Rightarrow> False)"

definition says_404 :: "PyExc + 'a \<Rightarrow> bool" where
  "says_404 r = (case r of Inl (Raised c t) \<Rightarrow> isinstance c ''PagerDutyNotificationError'' \<and> contains_sub t ''404'' | _ \<Rightarrow> False)"

lemma no_credentials_no_404:
  assumes "resolve_credentials pg = Inl e"
  shows "\<not> says_404 (Inl e :: PyExc + (string \<times> PyVal) list)"
proof -
  have "\<not> contains_sub NO_TOKEN ''404''" by code_simp
  then show ?thesis
    using assms by (auto simp: resolve_credentials_def notification_error_def says_404_def fstr_def split: option.splits list.splits)
qed

lemma pager_request_trace:
  assumes "pager_request pg c doing verb good h = (r, h')" "resolve_credentials pg = Inr ()"
  shows "\<exists>b. h' = h @ [(c, b)]"
  using assms by (auto simp: pager_request_def split: sum.splits HttpFault.splits)

lemma dict_reply:
  assumes "bindE x (\<lambda>data. case data of PDict d \<Rightarrow> Inr d | _ \<Rightarrow> notification_error t) = Inr d"
  shows "x = Inr (PDict d)"
proof -
  obtain v where "x = Inr v" "(case v of PDict d \<Rightarrow> Inr d | _ \<Rightarrow> notification_error t) = Inr d"
    using assms by (auto simp: result_simps)
  then show ?thesis by (cases v) (simp_all add: notification_error_def)
qed

lemma pager_request_answered:
  assumes "pager_request pg c doing verb good h = (Inr d, h')"
  shows "answered pg c good h"
proof -
  have "\<exists>r. pg_http pg c h = Inr r \<and> hr_status r \<in> set good \<and> hr_json r = Inr (PDict d)"
    using assms by (auto simp: pager_request_def notification_error_def dest: dict_reply [unfolded notification_error_def]
        split: sum.split_asm HttpFault.split_asm if_split_asm)
  then show ?thesis by (auto simp: answered_def is_dict_def)
qed

lemma unless_not_found_returns:
  assumes "unless_not_found i (pager_request pg c doing verb good) h = (Inr d, h')"
  shows "resolve_credentials pg = Inr () \<and> (\<exists>b. h' = h @ [(c, b)]) \<and>
    (answered pg c good h \<or> says_404 (fst (pager_request pg c doing verb good h)))"
proof -
  obtain r h1 where r: "pager_request pg c doing verb good h = (r, h1)" by fastforce
  have h1: "h1 = h'" and ok: "(\<exists>d. r = Inr d) \<or> says_404 r"
    using assms r by (auto simp: unless_not_found_def act_simps says_404_def split: if_splits)
  have cred: "resolve_credentials pg = Inr ()"
  proof (cases "resolve_credentials pg")
    case (Inl e)
    then have "r = Inl e" using r by (simp add: pager_request_def)
    then show ?thesis using ok no_credentials_no_404 [OF Inl] by simp
  qed simp
  show ?thesis using ok pager_request_answered pager_request_trace [OF r cred] cred r h1 by fastforce
qed

text \<open>C33: an escalation that returns has sent, with a token, the note and then the urgency to the incident it belongs to
  and nothing else; and each of the two was answered with a status of success and a JSON object, unless its error speaks
  of 404 somewhere: then no one was paged.\<close>

theorem escalation_sent:
  assumes "pd_escalate_pagerduty pg incident_id context content urgency pd_incident_id h = (Inr (), h')"
  shows "let i = resolve_pagerduty_incident_id (pg_std pg) incident_id context pd_incident_id;
             note = AddNote (note_url pg i) content; urgent = SetUrgency (incident_url pg i) urgency in
    \<exists>token b1 b2. pg_token pg = Some token \<and> token \<noteq> [] \<and> h' = h @ [(note, b1), (urgent, b2)] \<and>
      (answered pg note [200, 201] h \<or> says_404 (fst (add_incident_note pg i content h))) \<and>
      (answered pg urgent [200] (h @ [(note, b1)]) \<or> says_404 (fst (set_incident_urgency pg i urgency (h @ [(note, b1)]))))"
proof -
  define i where "i = resolve_pagerduty_incident_id (pg_std pg) incident_id context pd_incident_id"
  obtain x y h1 where n: "unless_not_found i (add_incident_note pg i content) h = (Inr x, h1)"
    and u: "unless_not_found i (set_incident_urgency pg i urgency) h1 = (Inr y, h')"
    using assms by (auto simp: pd_escalate_pagerduty_def escalate_def Let_def i_def act_simps)
  note n1 = unless_not_found_returns [OF n [unfolded add_incident_note_def], folded add_incident_note_def]
  note u1 = unless_not_found_returns [OF u [unfolded set_incident_urgency_def], folded set_incident_urgency_def]
  obtain token where "pg_token pg = Some token" "token \<noteq> []"
    using n1 by (auto simp: resolve_credentials_def notification_error_def split: option.splits list.splits)
  then show ?thesis using n1 u1 by (fold i_def) (auto simp: Let_def)
qed

definition sample_pager :: PagerDuty where
  "sample_pager = \<lparr>pg_base_url = ''https://pd'', pg_token = Some ''t'', pg_std = plain_std,
     pg_http = (\<lambda>c h. case c of
        AddNote u t \<Rightarrow> Inr \<lparr>hr_status = 201, hr_text = [], hr_json = Inr (PDict [])\<rparr>
      | SetUrgency u t \<Rightarrow> Inr \<lparr>hr_status = 404, hr_text = [], hr_json = Inr (PDict [])\<rparr>)\<rparr>"

lemma escalation_sent_witness:
  "(let i = resolve_pagerduty_incident_id (pg_std sample_pager) ''inc_alt_pd_P1'' None None;
        note = AddNote (note_url sample_pager i) ''n''; urgent = SetUrgency (incident_url sample_pager i) ''high'' in
    \<exists>token b1 b2. pg_token sample_pager = Some token \<and> token \<noteq> [] \<and>
      snd (pd_escalate_pagerduty sample_pager ''inc_alt_pd_P1'' None ''n'' ''high'' None []) = [] @ [(note, b1), (urgent, b2)] \<and>
      (answered sample_pager note [200, 201] [] \<or> says_404 (fst (add_incident_note sample_pager i ''n'' []))) \<and>
      (answered sample_pager urgent [200] ([] @ [(note, b1)]) \<or>
       says_404 (fst (set_incident_urgency sample_pager i ''high'' ([] @ [(note, b1)]))))) \<and>
   resolve_pagerduty_incident_id plain_std ''inc_alt_pd_P1'' None None = ''P1''"
proof -
  have "fst (pd_escalate_pagerduty sample_pager ''inc_alt_pd_P1'' None ''n'' ''high'' None []) = Inr ()"
    by code_simp
  then have "pd_escalate_pagerduty sample_pager ''inc_alt_pd_P1'' None ''n'' ''high'' None [] =
      (Inr (), snd (pd_escalate_pagerduty sample_pager ''inc_alt_pd_P1'' None ''n'' ''high'' None []))"
    by (metis prod.collapse)
  moreover have "resolve_pagerduty_incident_id plain_std ''inc_alt_pd_P1'' None None = ''P1''" by code_simp
  ultimately show ?thesis using escalation_sent by blast
qed

definition sample_context :: IncidentContext where
  "sample_context = \<lparr>ctx_incident_id = ''inc_1'', ctx_alert = sample_alert, ctx_signatures = [],
     ctx_metrics_window = \<lparr>mw_service = ''edge-gateway'', mw_start_time = 0, mw_end_time = 0, mw_series = [],
       mw_p99_latency_ms = None, mw_error_rate = None, mw_request_count = 0\<rparr>,
     recent_deploys = [], dependency_graph = \<lparr>snap_nodes = [], snap_edges = [], snap_observed_at = 0\<rparr>,
     inferred_failure_class = None, gathered_at = 0\<rparr>"

lemma paged_incident_witness:
  "resolve_pagerduty_incident_id plain_std ''inc_1'' (Some sample_context) None = stripped_text plain_std (PStr ''P7'') \<and>
   stripped_text plain_std (PStr ''P7'') = ''P7''"
proof -
  have a: "ctx_alert sample_context = sample_alert" by (simp add: sample_context_def)
  have e: "\<exists>evt. map_of sample_payload ''event'' = Some (PDict evt) \<and>
      PStr ''P7'' = py_or (get_or ''id'' PNone (case get_or ''data'' PNone evt of PDict data \<Rightarrow> data | _ \<Rightarrow> [])) (get_or ''id'' PNone evt)"
    by (simp add: sample_payload_def py_or_def)
  have t: "py_truthy (PStr ''P7'')" by simp
  have "stripped_text plain_std (PStr ''P7'') = ''P7''" by code_simp
  then show ?thesis using paged_incident [OF sample_parsed a disjI1 [OF e] t] by simp
qed

end
