(* ===== verification/Deploys.thy ===== *)
theory Deploys
  imports Json Triples Contracts
begin

text \<open>
  The history of deploys (\<^verbatim>\<open>signals/github.py\<close>, \<open>ScenarioDeployHistory\<close> of \<^verbatim>\<open>signals/scenarios.py\<close>): the commits of
  a repository with the pull request, the migration and the images of each.  The service is a parameter that answers
  by the calls made so far; SHA-256, the reading of YAML and the texts of errors of ISO times are parameters too.  The
  cache of manifests by blob is what the trace has stored.
\<close>

section \<open>Reading texts\<close>

text \<open>The digits after the first occurrence of \<open>p\<close>, whatever its case, with digits after it and, after these, \<open>ok\<close>;
  \<open>may\<close> says whether the position at the head may begin a match, by the character before it.\<close>

fun digits_after :: "(char option \<Rightarrow> bool) \<Rightarrow> string \<Rightarrow> (string \<Rightarrow> bool) \<Rightarrow> char option \<Rightarrow> string \<Rightarrow> string option" where
  "digits_after may p ok before [] = None"
| "digits_after may p ok before (c # s) =
     (let r = drop (length p) (c # s); ds = takeWhile py_digit r in
      if may before \<and> startswith (py_lower (c # s)) (py_lower p) \<and> ds \<noteq> [] \<and> ok (drop (length ds) r) then Some ds
      else digits_after may p ok (Some c) s)"

text \<open>\<open>Merge pull request #(\d+)\<close>, \<open>\(#(\d+)\)(?:\s*$|\n)\<close>, \<open>(?:^|\s)pull request #(\d+)\<close>\<close>

definition closes_line :: "string \<Rightarrow> bool" where
  "closes_line r = (case r of [] \<Rightarrow> False
     | c # s \<Rightarrow> c = CHR '')'' \<and> (py_strip s = [] \<or> (case s of d # _ \<Rightarrow> d = CHR 0x0A | [] \<Rightarrow> True)))"

definition extract_pr_number_from_message :: "string \<Rightarrow> int option" where
  "extract_pr_number_from_message message =
     map_option (\<lambda>ds. int (digits_value ds 0))
       (case digits_after (\<lambda>_. True) ''Merge pull request #'' (\<lambda>_. True) None message of
          Some ds \<Rightarrow> Some ds
        | None \<Rightarrow>
            (case digits_after (\<lambda>_. True) ''(#'' closes_line None message of
               Some ds \<Rightarrow> Some ds
             | None \<Rightarrow> digits_after (\<lambda>b. case b of None \<Rightarrow> True | Some c \<Rightarrow> py_strip [c] = [])
                 ''pull request #'' (\<lambda>_. True) None message))"

definition is_migration_file :: "string \<Rightarrow> bool" where
  "is_migration_file path =
     (let normalized = replace_char (CHR 0x5C) (CHR ''/'') (py_strip path) in
      contains_sub normalized ''migrations/'' \<or> startswith normalized ''migrations/'' \<or>
      startswith (rev normalized) (rev ''/migrations'') \<or> normalized = ''migrations'')"

text \<open>\<open>sha256\<close> gives the hexadecimal digest of a text.\<close>

definition extract_container_digest :: "(string \<Rightarrow> string) \<Rightarrow> string \<Rightarrow> string" where
  "extract_container_digest sha256 image_spec =
     (let clean_spec = py_strip image_spec in
      if contains_sub clean_spec ''@sha256:'' then drop 1 (dropWhile (\<lambda>c. c \<noteq> CHR ''@'') clean_spec)
      else if startswith clean_spec ''sha256:'' then clean_spec
      else ''sha256:'' @ sha256 clean_spec)"

text \<open>The containers of a document that is a Deployment, and their digests.\<close>

definition manifest_containers :: "PyVal \<Rightarrow> PyVal list" where
  "manifest_containers doc =
     (case doc of
        PDict d \<Rightarrow>
          if get_or ''kind'' PNone d \<noteq> PStr ''Deployment'' then []
          else (case get_or ''spec'' PNone d of
            PDict spec \<Rightarrow> (case get_or ''template'' PNone spec of
              PDict template \<Rightarrow> (case get_or ''spec'' PNone template of
                PDict pod_spec \<Rightarrow> (case get_or ''containers'' PNone pod_spec of PColl cs \<Rightarrow> cs | _ \<Rightarrow> [])
              | _ \<Rightarrow> [])
            | _ \<Rightarrow> [])
          | _ \<Rightarrow> [])
      | _ \<Rightarrow> [])"

definition container_digest :: "(string \<Rightarrow> string) \<Rightarrow> PyVal \<Rightarrow> (string \<times> string) option" where
  "container_digest sha256 container =
     (case container of
        PDict c \<Rightarrow>
          (case (get_or ''name'' PNone c, get_or ''image'' PNone c) of
             (PStr n, PStr i) \<Rightarrow> if n \<noteq> [] \<and> i \<noteq> [] then Some (n, extract_container_digest sha256 i) else None
           | _ \<Rightarrow> None)
      | _ \<Rightarrow> None)"

text \<open>\<open>yaml\<close> gives the documents that are read before the text fails to parse, if it does.\<close>

definition parse_manifest_digests :: "(string \<Rightarrow> string) \<Rightarrow> (string \<Rightarrow> PyVal list) \<Rightarrow> string \<Rightarrow> (string \<times> string) list" where
  "parse_manifest_digests sha256 yaml content =
     dict_of (List.map_filter (container_digest sha256) (concat (map manifest_containers (yaml content))))"

section \<open>The service\<close>

datatype GhCall =
    GhCommits string "(int \<times> string option) option"
  | GhPulls string
  | GhDetail string
  | GhContents string string
  | GhFile string string
  | GhStore string "(string \<times> string) list"

type_synonym 'a gh_act = "(GhCall, 'a) act"

text \<open>\<open>gr_next\<close>: the target of the reply's link to the next page.\<close>

record GhReply = HttpReply +
  gr_next :: "string option"

record GitHub =
  gh_repo :: string
  gh_branch :: "string option"
  gh_base_url :: string
  gh_manifest_path :: string
  gh_std :: PyStd
  gh_sha256 :: "string \<Rightarrow> string"
  gh_yaml :: "string \<Rightarrow> PyVal list"
  gh_iso_error :: "string \<Rightarrow> string"
  gh_now :: "GhCall trace \<Rightarrow> instant"
  gh_http :: "GhCall \<Rightarrow> GhCall trace \<Rightarrow> HttpFault + GhReply"

definition gh_error :: "string list \<Rightarrow> PyExc + 'a" where
  "gh_error parts = Inl (Raised ''GitHubError'' (fstr parts))"

definition gh_get :: "GitHub \<Rightarrow> GhCall \<Rightarrow> (HttpFault + GhReply) gh_act" where
  "gh_get gh c h = (Inr (gh_http gh c h), h @ [(c, case gh_http gh c h of Inl _ \<Rightarrow> False | Inr _ \<Rightarrow> True)])"

text \<open>A reply with a status of success; failures of the transport under the given words.\<close>

definition delivered :: "string list \<Rightarrow> HttpFault + GhReply \<Rightarrow> PyExc + GhReply" where
  "delivered words reply =
     (case reply of
        Inr r \<Rightarrow> Inr r
      | Inl (RequestError t) \<Rightarrow> gh_error (words @ ['': '', t])
      | Inl (OtherError e) \<Rightarrow> Inl e)"

definition status_error :: "string \<Rightarrow> GhReply \<Rightarrow> PyExc + 'a" where
  "status_error words r = gh_error [words, '' failed: '', int_str (hr_status r), '' '', hr_text r]"

text \<open>\<open>except Exception as exc: raise GitHubError(...) from exc\<close> around the decoding of a body\<close>

definition decoded :: "string list \<Rightarrow> PyExc + 'a \<Rightarrow> PyExc + 'a" where
  "decoded words x =
     (case x of Inl (Raised c t) \<Rightarrow> gh_error (words @ ['': '', t]) | _ \<Rightarrow> x)"

section \<open>Commits\<close>

definition commits_url :: "GitHub \<Rightarrow> string" where
  "commits_url gh = fstr [gh_base_url gh, ''/repos/'', gh_repo gh, ''/commits'']"

text \<open>What one page adds; the type of the data is not spelled out in the error.\<close>

definition commits_page :: "HttpFault + GhReply \<Rightarrow> PyExc + (PyVal list \<times> string option)" where
  "commits_page reply =
     bindE (delivered [''GitHub API commit query request failed''] reply) (\<lambda>r.
       if hr_status r \<noteq> 200 then status_error ''GitHub API commit query'' r
       else bindE (decoded [''Failed to decode GitHub commits JSON''] (hr_json r)) (\<lambda>data.
         case data of
           PColl xs \<Rightarrow> Inr (xs, gr_next r)
         | _ \<Rightarrow> gh_error [''GitHub commits endpoint returned non-list response'']))"

text \<open>\<open>while next_url and len(commits) < limit\<close>; the state is the address of the next page, with the parameters of the
  first one, and the commits so far.\<close>

type_synonym pages = "(string \<times> (int \<times> string option) option) option \<times> PyVal list"

definition commits_body :: "GitHub \<Rightarrow> int \<Rightarrow> pages \<Rightarrow> (PyVal list + pages) gh_act" where
  "commits_body gh limit s =
     (case s of
        (Some (c # url, query), commits) \<Rightarrow>
          if int (length commits) < limit then
            abind (gh_get gh (GhCommits (c # url) query)) (\<lambda>reply.
            abind (alift (commits_page reply)) (\<lambda>(xs, link).
              aret (Inr (map_option (\<lambda>u. (u, None)) link, commits @ xs))))
          else aret (Inl (take (nat limit) commits))
      | (_, commits) \<Rightarrow> aret (Inl (take (nat limit) commits)))"

definition fetch_commits :: "GitHub \<Rightarrow> nat \<Rightarrow> int \<Rightarrow> GhCall trace \<Rightarrow> ((PyExc + PyVal list) \<times> GhCall trace) option" where
  "fetch_commits gh fuel limit =
     run_loop fuel (commits_body gh limit) (Some (commits_url gh, Some (min limit 100, gh_branch gh)), [])"

section \<open>One commit\<close>

definition parse_iso_datetime :: "GitHub \<Rightarrow> string \<Rightarrow> PyExc + instant" where
  "parse_iso_datetime gh s =
     (let t = concat (map (\<lambda>c. if c = CHR ''Z'' then ''+00:00'' else [c]) s) in
      case std_fromisoformat (gh_std gh) t of
        Some i \<Rightarrow> Inr i
      | None \<Rightarrow> gh_error [''Failed to parse commit timestamp '', std_repr (gh_std gh) (PStr s), '': '', gh_iso_error gh t])"

definition truthy_text :: "PyVal \<Rightarrow> string option" where
  "truthy_text v = (case v of PStr (c # s) \<Rightarrow> Some (c # s) | _ \<Rightarrow> None)"

text \<open>\<open>info.get("date") or author.get("date")\<close>; an author is looked into only when the committer has no date.\<close>

definition commit_date :: "(string \<times> PyVal) list \<Rightarrow> PyExc + PyVal" where
  "commit_date data =
     bindE (as_dict (py_or (get_or ''committer'' PNone data) (PDict []))) (\<lambda>committer.
       if py_truthy (get_or ''date'' PNone committer) then Inr (get_or ''date'' PNone committer)
       else bindE (as_dict (py_or (get_or ''author'' PNone data) (PDict []))) (\<lambda>author. Inr (get_or ''date'' PNone author)))"

definition commit_url :: "GitHub \<Rightarrow> string \<Rightarrow> string" where
  "commit_url gh sha = fstr [commits_url gh, ''/'', sha]"

definition pulls_reply :: "string \<Rightarrow> HttpFault + GhReply \<Rightarrow> PyExc + int option" where
  "pulls_reply sha reply =
     bindE (delivered [''GitHub commit pulls request error for '', sha] reply) (\<lambda>r.
       if hr_status r = 200 then
         bindE (hr_json r) (\<lambda>pulls.
           case pulls of
             PColl (PDict pr # _) \<Rightarrow>
               (case map_of pr ''number'' of Some n \<Rightarrow> map_sum id Some (int_of_val n) | None \<Rightarrow> Inr None)
           | _ \<Rightarrow> Inr None)
       else if hr_status r \<in> {404, 422} then Inr None
       else status_error ''GitHub commit pulls query'' r)"

definition resolve_pr_number :: "GitHub \<Rightarrow> string \<Rightarrow> (string \<times> PyVal) list \<Rightarrow> int option gh_act" where
  "resolve_pr_number gh sha data =
     (case (case get_or ''message'' (PStr []) data of PStr m \<Rightarrow> extract_pr_number_from_message m | _ \<Rightarrow> None) of
        Some n \<Rightarrow> aret (Some n)
      | None \<Rightarrow> abind (gh_get gh (GhPulls (commit_url gh sha @ ''/pulls''))) (\<lambda>reply. alift (pulls_reply sha reply)))"

definition changed_migration :: "PyVal \<Rightarrow> bool" where
  "changed_migration f =
     (case f of
        PDict d \<Rightarrow> (case truthy_text (get_or ''filename'' PNone d) of Some n \<Rightarrow> is_migration_file n | None \<Rightarrow> False)
      | _ \<Rightarrow> False)"

definition detail_files :: "PyVal \<Rightarrow> PyVal list" where
  "detail_files v = (case v of PDict d \<Rightarrow> (case get_or ''files'' (PColl []) d of PColl fs \<Rightarrow> fs | _ \<Rightarrow> []) | _ \<Rightarrow> [])"

definition detail_reply :: "string \<Rightarrow> HttpFault + GhReply \<Rightarrow> PyExc + bool" where
  "detail_reply sha reply =
     bindE (delivered [''GitHub commit detail query failed for '', sha] reply) (\<lambda>r.
       if hr_status r \<noteq> 200 then status_error ''GitHub commit detail query'' r
       else bindE (decoded [''Failed to parse commit detail files JSON for '', sha] (hr_json r)) (\<lambda>v.
         Inr (list_ex changed_migration (detail_files v))))"

definition check_migration :: "GitHub \<Rightarrow> string \<Rightarrow> bool gh_act" where
  "check_migration gh sha = abind (gh_get gh (GhDetail (commit_url gh sha))) (\<lambda>reply. alift (detail_reply sha reply))"

section \<open>Images\<close>

definition contents_reply :: "GitHub \<Rightarrow> HttpFault + GhReply \<Rightarrow> PyExc + PyVal list" where
  "contents_reply gh reply =
     bindE (delivered [''GitHub contents request failed for '', gh_manifest_path gh] reply) (\<lambda>r.
       if hr_status r = 404 then Inr []
       else if hr_status r \<noteq> 200 then
         gh_error [''GitHub contents query failed with status '', int_str (hr_status r), '': '', hr_text r]
       else bindE (decoded [''Failed to decode GitHub contents JSON for '', gh_manifest_path gh] (hr_json r)) (\<lambda>v.
         Inr (case v of PColl items \<Rightarrow> items | _ \<Rightarrow> [])))"

text \<open>An item that is a file of YAML: its path, and its blob when it has one.\<close>

definition yaml_item :: "GitHub \<Rightarrow> PyVal \<Rightarrow> (string \<times> string option) option" where
  "yaml_item gh item =
     (case item of
        PDict d \<Rightarrow>
          (case truthy_text (get_or ''name'' PNone d) of
             Some name \<Rightarrow>
               if get_or ''type'' PNone d = PStr ''file'' \<and>
                  (startswith (rev name) (rev ''.yaml'') \<or> startswith (rev name) (rev ''.yml'')) then
                 Some (py_str (gh_std gh) (py_or (get_or ''path'' PNone d) (PStr (fstr [gh_manifest_path gh, ''/'', name]))),
                   truthy_text (get_or ''sha'' PNone d))
               else None
           | None \<Rightarrow> None)
      | _ \<Rightarrow> None)"

text \<open>The cache by blob: what was stored last.\<close>

definition cached_digests :: "string \<Rightarrow> GhCall trace \<Rightarrow> (string \<times> string) list option" where
  "cached_digests blob h = foldl (\<lambda>c e. case fst e of GhStore b d \<Rightarrow> if b = blob then Some d else c | _ \<Rightarrow> c) None h"

definition store_digests :: "string option \<Rightarrow> (string \<times> string) list \<Rightarrow> unit gh_act" where
  "store_digests blob d = (case blob of Some b \<Rightarrow> acall (GhStore b d) (\<lambda>_. Inr ()) | None \<Rightarrow> aret ())"

definition contents_url :: "GitHub \<Rightarrow> string \<Rightarrow> string" where
  "contents_url gh path = fstr [gh_base_url gh, ''/repos/'', gh_repo gh, ''/contents/'', path]"

text \<open>A file that cannot be read is left out; one whose request fails is an error.\<close>

definition file_reply :: "GitHub \<Rightarrow> string \<Rightarrow> string \<Rightarrow> HttpFault + GhReply \<Rightarrow> PyExc + (string \<times> string) list option" where
  "file_reply gh path sha reply =
     bindE (delivered [''Failed to fetch manifest file '', path, '' at '', sha] reply) (\<lambda>r.
       Inr (if hr_status r \<noteq> 200 then None else Some (parse_manifest_digests (gh_sha256 gh) (gh_yaml gh) (hr_text r))))"

definition fetch_manifest :: "GitHub \<Rightarrow> string \<Rightarrow> string \<Rightarrow> (string \<times> string) list option gh_act" where
  "fetch_manifest gh sha path =
     abind (gh_get gh (GhFile (contents_url gh path) sha)) (\<lambda>reply. alift (file_reply gh path sha reply))"

definition item_digests :: "GitHub \<Rightarrow> string \<Rightarrow> (string \<times> string) list \<Rightarrow> PyVal \<Rightarrow> (string \<times> string) list gh_act" where
  "item_digests gh sha digests item =
     (case yaml_item gh item of
        None \<Rightarrow> aret digests
      | Some (path, blob) \<Rightarrow>
          abind (aask (\<lambda>h. Option.bind blob (\<lambda>b. cached_digests b h))) (\<lambda>cached.
            case cached of
              Some d \<Rightarrow> aret (dict_merge digests d)
            | None \<Rightarrow>
                abind (fetch_manifest gh sha path) (\<lambda>parsed.
                  case parsed of
                    None \<Rightarrow> aret digests
                  | Some d \<Rightarrow> abind (store_digests blob d) (\<lambda>_. aret (dict_merge digests d)))))"

definition list_contents :: "GitHub \<Rightarrow> string \<Rightarrow> PyVal list gh_act" where
  "list_contents gh sha =
     abind (gh_get gh (GhContents (contents_url gh (gh_manifest_path gh)) sha)) (\<lambda>reply. alift (contents_reply gh reply))"

definition extract_image_digests :: "GitHub \<Rightarrow> string \<Rightarrow> (string \<times> string) list gh_act" where
  "extract_image_digests gh sha = abind (list_contents gh sha) (afold (item_digests gh sha) [])"

section \<open>Recent deploys\<close>

text \<open>A commit without a sha is left out.  The images are extracted by the argument.\<close>

definition deploy_of :: "GitHub \<Rightarrow> (string \<Rightarrow> (string \<times> string) list gh_act) \<Rightarrow> PyVal \<Rightarrow> DeployRef option gh_act" where
  "deploy_of gh images commit =
     abind (alift (as_dict commit)) (\<lambda>c.
       case truthy_text (get_or ''sha'' PNone c) of
         None \<Rightarrow> aret None
       | Some sha \<Rightarrow>
           abind (alift (as_dict (get_or ''commit'' (PDict []) c))) (\<lambda>data.
           abind (alift (commit_date data)) (\<lambda>date.
           abind (case truthy_text date of Some s \<Rightarrow> alift (parse_iso_datetime gh s) | None \<Rightarrow> aask (gh_now gh)) (\<lambda>at_time.
           abind (resolve_pr_number gh sha data) (\<lambda>pr.
           abind (check_migration gh sha) (\<lambda>migration.
           abind (images sha) (\<lambda>digests.
             aret (Some \<lparr>commit_sha = sha, image_digests = digests, deployed_at = at_time, pr_number = pr,
               contains_migration = migration\<rparr>))))))))"

definition deploys_of :: "GitHub \<Rightarrow> (string \<Rightarrow> (string \<times> string) list gh_act) \<Rightarrow> nat \<Rightarrow> int \<Rightarrow>
    GhCall trace \<Rightarrow> ((PyExc + DeployRef list) \<times> GhCall trace) option" where
  "deploys_of gh images fuel limit h =
     (if limit \<le> 0 then Some (Inr [], h)
      else map_option (\<lambda>r. abind (\<lambda>_. r) (\<lambda>commits.
          abind (amap (deploy_of gh images) commits) (\<lambda>ds. aret (List.map_filter id ds))) h)
        (fetch_commits gh fuel limit h))"

definition recent_deploys_github :: "GitHub \<Rightarrow> nat \<Rightarrow> int \<Rightarrow> GhCall trace \<Rightarrow> ((PyExc + DeployRef list) \<times> GhCall trace) option" where
  "recent_deploys_github gh = deploys_of gh (extract_image_digests gh)"


section \<open>Fetching the commits ends\<close>

text \<open>Every page that has a successor holds a commit.\<close>

definition pages_filled :: "GitHub \<Rightarrow> bool" where
  "pages_filled gh \<longleftrightarrow> (\<forall>url query h xs u.
     commits_page (gh_http gh (GhCommits url query) h) = Inr (xs, Some u) \<longrightarrow> u = [] \<or> xs \<noteq> [])"

definition pages_left :: "int \<Rightarrow> pages \<Rightarrow> GhCall trace \<Rightarrow> nat" where
  "pages_left limit s h = (case fst s of Some (c # url, query) \<Rightarrow> nat (limit - int (length (snd s))) | _ \<Rightarrow> 0)"

lemma commits_step:
  assumes "pages_filled gh"
  shows "wp (commits_body gh limit s)
     (\<lambda>r h'. case r of Inl v \<Rightarrow> True | Inr s' \<Rightarrow> True \<and> pages_left limit s' h' < pages_left limit s h) (\<lambda>_ _. True) h"
proof -
  have goes_on: "wp (commits_body gh limit (Some (c # url, query), commits))
      (\<lambda>r h'. case r of Inl v \<Rightarrow> True | Inr s' \<Rightarrow> True \<and> pages_left limit s' h' < nat (limit - int (length commits))) (\<lambda>_ _. True) h"
    if "int (length commits) < limit" for c url query commits
  proof -
    have filled: "xs \<noteq> []" if "commits_page (gh_http gh (GhCommits (c # url) query) h) = Inr (xs, Some (d # u))" for xs d u
      using assms that unfolding pages_filled_def by blast
    show ?thesis
      using that
      by (cases "commits_page (gh_http gh (GhCommits (c # url) query) h)")
        (auto simp: commits_body_def gh_get_def wp_def abind_def alift_def aret_def pages_left_def dest: filled
          split: option.split list.split prod.split)
  qed
  show ?thesis
  proof (cases s)
    case (Pair link commits)
    show ?thesis
    proof (cases "\<exists>c url query. link = Some (c # url, query) \<and> int (length commits) < limit")
      case True
      then obtain c url query where some: "s = (Some (c # url, query), commits)" "int (length commits) < limit"
        using Pair by auto
      have left: "pages_left limit s h = nat (limit - int (length commits))" by (simp add: some pages_left_def)
      show ?thesis unfolding left unfolding some(1) by (rule goes_on [OF some(2)])
    next
      case False
      then show ?thesis
        by (auto simp: Pair commits_body_def wp_def aret_def split: option.split list.split prod.split)
    qed
  qed
qed

text \<open>C36: as long as every page of commits that names a next page holds a commit, the query of the commits ends: the limit
  plus one rounds are enough, whatever the service answers otherwise, and so \<open>recent_deploys\<close> returns or raises.\<close>

theorem recent_deploys_ends:
  assumes "pages_filled gh" "nat limit < fuel"
  shows "\<exists>r h'. recent_deploys_github gh fuel limit h = Some (r, h')"
proof -
  obtain x h1 where "fetch_commits gh fuel limit h = Some (x, h1)"
  proof -
    have "\<exists>x h'. fetch_commits gh fuel limit h = Some (x, h') \<and> (case x of Inl e \<Rightarrow> True | Inr v \<Rightarrow> True)"
      unfolding fetch_commits_def
      by (rule run_loop_ends [where I = "\<lambda>_ _. True" and Q = "\<lambda>_ _. True" and \<mu> = "pages_left limit"])
      (use assms in \<open>auto simp: pages_left_def commits_step [OF assms(1), simplified] split: option.split list.split\<close>)
    then show ?thesis using that by blast
  qed
  then have "\<exists>p. recent_deploys_github gh fuel limit h = Some p"
    by (simp add: recent_deploys_github_def deploys_of_def)
  then show ?thesis by simp
qed

section \<open>The cache changes nothing\<close>

text \<open>The manifests read without a cache.\<close>

definition plain_item :: "GitHub \<Rightarrow> string \<Rightarrow> (string \<times> string) list \<Rightarrow> PyVal \<Rightarrow> (string \<times> string) list gh_act" where
  "plain_item gh sha digests item =
     (case yaml_item gh item of
        None \<Rightarrow> aret digests
      | Some (path, blob) \<Rightarrow>
          abind (fetch_manifest gh sha path) (\<lambda>parsed.
            aret (case parsed of None \<Rightarrow> digests | Some d \<Rightarrow> dict_merge digests d)))"

definition plain_digests :: "GitHub \<Rightarrow> string \<Rightarrow> (string \<times> string) list gh_act" where
  "plain_digests gh sha = abind (list_contents gh sha) (afold (plain_item gh sha) [])"

text \<open>A service that does not change, whose files are named by what they hold: \<open>T\<close> gives the text of a blob, and a listed
  file with a blob can be read.\<close>

definition steady :: "GitHub \<Rightarrow> bool" where
  "steady gh \<longleftrightarrow> (\<forall>c h. gh_http gh c h = gh_http gh c []) \<and> (\<forall>h. gh_now gh h = gh_now gh [])"

definition content_addressed :: "GitHub \<Rightarrow> (string \<Rightarrow> string) \<Rightarrow> bool" where
  "content_addressed gh T \<longleftrightarrow> (\<forall>sha items item path b.
     contents_reply gh (gh_http gh (GhContents (contents_url gh (gh_manifest_path gh)) sha) []) = Inr items \<longrightarrow>
     item \<in> set items \<longrightarrow> yaml_item gh item = Some (path, Some b) \<longrightarrow>
     (\<exists>f. gh_http gh (GhFile (contents_url gh path) sha) [] = Inr f \<and> hr_status f = 200 \<and> hr_text f = T b))"

definition cache_ok :: "GitHub \<Rightarrow> (string \<Rightarrow> string) \<Rightarrow> GhCall trace \<Rightarrow> bool" where
  "cache_ok gh T h \<longleftrightarrow>
     (\<forall>b d. cached_digests b h = Some d \<longrightarrow> d = parse_manifest_digests (gh_sha256 gh) (gh_yaml gh) (T b))"

text \<open>\<open>m\<close> returns what \<open>n\<close> returns, whatever the trace of \<open>n\<close>, and keeps \<open>I\<close>.\<close>

definition agrees :: "('c trace \<Rightarrow> bool) \<Rightarrow> ('c, 'a) act \<Rightarrow> ('c, 'a) act \<Rightarrow> bool" where
  "agrees I m n \<longleftrightarrow> (\<forall>h h0. I h \<longrightarrow> fst (m h) = fst (n h0) \<and> I (snd (m h)))"

named_theorems agrees_intros \<open>rules for computations that agree\<close>

lemma agreesD: "agrees I m n \<Longrightarrow> I h \<Longrightarrow> fst (m h) = fst (n h0) \<and> I (snd (m h))"
  unfolding agrees_def by blast

lemma agrees_atoms [agrees_intros]: "agrees I (aret x) (aret x)" "agrees I (alift y) (alift y)"
  by (simp_all add: agrees_def aret_def alift_def)

lemma agrees_abind_from:
  assumes "agrees I m n" "\<And>x h. fst (n h) = Inr x \<Longrightarrow> agrees I (f x) (g x)"
  shows "agrees I (abind m f) (abind n g)"
  unfolding agrees_def
proof (intro allI impI)
  fix h h0
  assume h: "I h"
  obtain r h1 r0 h01 where m: "m h = (r, h1)" and n: "n h0 = (r0, h01)" by (metis surj_pair)
  have eq: "r = r0" "I h1" using agreesD [OF assms(1) h, of h0] m n by auto
  show "fst (abind m f h) = fst (abind n g h0) \<and> I (snd (abind m f h))"
  proof (cases r)
    case (Inr x)
    then have "fst (n h0) = Inr x" using n eq(1) by simp
    from agreesD [OF assms(2) [OF this] eq(2), of h01] show ?thesis unfolding abind_def m n eq(1) [symmetric] Inr by simp
  qed (use m n eq in \<open>simp add: abind_def\<close>)
qed

lemma agrees_abind [agrees_intros]:
  "agrees I m n \<Longrightarrow> (\<And>x. agrees I (f x) (g x)) \<Longrightarrow> agrees I (abind m f) (abind n g)"
  by (rule agrees_abind_from)

lemma agrees_afold:
  assumes "\<And>s x. x \<in> set xs \<Longrightarrow> agrees I (f s x) (g s x)"
  shows "agrees I (afold f s xs) (afold g s xs)"
  using assms by (induction xs arbitrary: s) (auto intro!: agrees_intros)

lemma agrees_amap [agrees_intros]:
  "(\<And>x. agrees I (f x) (g x)) \<Longrightarrow> agrees I (amap f xs) (amap g xs)"
  by (induction xs) (auto intro!: agrees_intros)

lemma agrees_option [agrees_intros]:
  "agrees I m n \<Longrightarrow> (\<And>y. agrees I (f y) (g y)) \<Longrightarrow>
   agrees I (case x of None \<Rightarrow> m | Some y \<Rightarrow> f y) (case x of None \<Rightarrow> n | Some y \<Rightarrow> g y)"
  by (cases x) auto

text \<open>A request stores nothing.\<close>

lemma cached_snoc: "cached_digests b (h @ [(c, ok)]) =
    (case c of GhStore b' d \<Rightarrow> if b' = b then Some d else cached_digests b h | _ \<Rightarrow> cached_digests b h)"
  by (simp add: cached_digests_def split: GhCall.split)

lemma agrees_get:
  assumes "steady gh" "\<And>b d. c \<noteq> GhStore b d"
  shows "agrees (cache_ok gh T) (gh_get gh c) (gh_get gh c)"
proof -
  have "gh_http gh c h = gh_http gh c h0" for h h0 using assms(1) unfolding steady_def by metis
  moreover have "cache_ok gh T (h @ [(c, ok)]) = cache_ok gh T h" for h ok
    using assms(2) by (cases c) (auto simp: cache_ok_def cached_snoc)
  ultimately show ?thesis by (simp add: agrees_def gh_get_def)
qed


lemma agrees_fetch:
  assumes "steady gh"
  shows "agrees (cache_ok gh T) (fetch_manifest gh sha path) (fetch_manifest gh sha path)"
  unfolding fetch_manifest_def by (intro agrees_abind agrees_get agrees_atoms assms) simp

lemma agrees_item:
  assumes "steady gh"
    and named: "\<And>path b. yaml_item gh item = Some (path, Some b) \<Longrightarrow>
      \<exists>f. gh_http gh (GhFile (contents_url gh path) sha) [] = Inr f \<and> hr_status f = 200 \<and> hr_text f = T b"
  shows "agrees (cache_ok gh T) (item_digests gh sha digests item) (plain_item gh sha digests item)"
proof (cases "yaml_item gh item")
  case None
  then show ?thesis by (simp add: item_digests_def plain_item_def agrees_atoms)
next
  case (Some p)
  obtain path blob where item: "yaml_item gh item = Some (path, blob)" using Some by (cases p) simp
  show ?thesis
  proof (cases blob)
    case None
    have "item_digests gh sha digests item = abind (fetch_manifest gh sha path) (\<lambda>parsed.
        case parsed of None \<Rightarrow> aret digests | Some d \<Rightarrow> abind (store_digests None d) (\<lambda>_. aret (dict_merge digests d)))"
      by (rule ext) (simp add: item_digests_def item None abind_aask)
    moreover have "agrees (cache_ok gh T)
        (case parsed of None \<Rightarrow> aret digests | Some d \<Rightarrow> abind (store_digests None d) (\<lambda>_. aret (dict_merge digests d)))
        (aret (case parsed of None \<Rightarrow> digests | Some d \<Rightarrow> dict_merge digests d))" for parsed
      by (simp add: agrees_def store_digests_def abind_def aret_def split: option.split)
    ultimately show ?thesis by (simp add: plain_item_def item agrees_abind agrees_fetch assms(1))
  next
    case (Some b)
    let ?d = "parse_manifest_digests (gh_sha256 gh) (gh_yaml gh) (T b)"
    obtain f where f: "gh_http gh (GhFile (contents_url gh path) sha) [] = Inr f" "hr_status f = 200" "hr_text f = T b"
      using named item Some by blast
    have answer: "gh_http gh (GhFile (contents_url gh path) sha) h = Inr f" for h
      using assms(1) f(1) unfolding steady_def by metis
    have fetched: "fetch_manifest gh sha path h = (Inr (Some ?d), h @ [(GhFile (contents_url gh path) sha, True)])" for h
      by (simp add: fetch_manifest_def gh_get_def abind_def alift_def answer file_reply_def delivered_def f(2,3))
    have plain: "fst (plain_item gh sha digests item h0) = Inr (dict_merge digests ?d)" for h0
      by (simp add: plain_item_def item fetched abind_def aret_def)
    have "fst (item_digests gh sha digests item h) = Inr (dict_merge digests ?d) \<and>
        cache_ok gh T (snd (item_digests gh sha digests item h))" if ok: "cache_ok gh T h" for h
    proof (cases "cached_digests b h")
      case None
      then have "item_digests gh sha digests item h = (Inr (dict_merge digests ?d),
          (h @ [(GhFile (contents_url gh path) sha, True)]) @ [(GhStore b ?d, True)])"
        by (simp add: item_digests_def item Some abind_aask) (simp add: abind_def fetched store_digests_def acall_def aret_def)
      then show ?thesis using ok by (simp add: cache_ok_def cached_snoc del: append_assoc)
    next
      case hit: (Some d)
      then have "d = ?d" using ok by (simp add: cache_ok_def)
      then show ?thesis using ok hit by (simp add: item_digests_def item Some abind_aask aret_def)
    qed
    then show ?thesis using plain by (simp add: agrees_def)
  qed
qed

lemma agrees_digests:
  assumes "steady gh" "content_addressed gh T"
  shows "agrees (cache_ok gh T) (extract_image_digests gh sha) (plain_digests gh sha)"
  unfolding extract_image_digests_def plain_digests_def
proof (rule agrees_abind_from)
  show "agrees (cache_ok gh T) (list_contents gh sha) (list_contents gh sha)"
    unfolding list_contents_def by (intro agrees_abind agrees_get agrees_atoms assms(1)) simp
  fix items h
  assume "fst (list_contents gh sha h) = Inr items"
  then have "contents_reply gh (gh_http gh (GhContents (contents_url gh (gh_manifest_path gh)) sha) []) = Inr items"
    using assms(1) by (simp add: list_contents_def gh_get_def abind_def alift_def steady_def) metis
  then show "agrees (cache_ok gh T) (afold (item_digests gh sha) [] items) (afold (plain_item gh sha) [] items)"
    using assms(2) unfolding content_addressed_def by (intro agrees_afold agrees_item assms(1)) blast
qed

lemma agrees_deploy:
  assumes "steady gh" "content_addressed gh T"
  shows "agrees (cache_ok gh T) (deploy_of gh (extract_image_digests gh) commit) (deploy_of gh (plain_digests gh) commit)"
proof -
  have now: "agrees (cache_ok gh T) (aask (gh_now gh)) (aask (gh_now gh))"
    using assms(1) unfolding steady_def agrees_def aask_def by simp metis
  show ?thesis
    unfolding deploy_of_def resolve_pr_number_def check_migration_def
    by (intro agrees_abind agrees_option agrees_digests agrees_get agrees_atoms now assms; simp)
qed

lemma agrees_loop:
  assumes "\<And>s. agrees I (body s) (body s)" "I h"
  shows "map_option fst (run_loop n body s h) = map_option fst (run_loop n body s h0) \<and>
    (\<forall>r h'. run_loop n body s h = Some (r, h') \<longrightarrow> I h')"
  using assms(2)
proof (induction n arbitrary: s h h0)
  case (Suc n)
  obtain r h1 r0 h01 where m: "body s h = (r, h1)" and n: "body s h0 = (r0, h01)" by (metis surj_pair)
  have eq: "r0 = r" "I h1" using agreesD [OF assms(1) Suc.prems, of s h0] m n by auto
  show ?case using Suc.IH [OF eq(2)] eq by (auto simp: m n split: sum.split)
qed simp



section \<open>What is read is what the service said\<close>

text \<open>The trace has a query of the commit's details that was answered with its list of files.\<close>

definition details_read :: "GitHub \<Rightarrow> DeployRef \<Rightarrow> GhCall trace \<Rightarrow> bool" where
  "details_read gh d h \<longleftrightarrow> (\<exists>h1 h2 r v. let c = GhDetail (commit_url gh (commit_sha d)) in
     h = h1 @ (c, True) # h2 \<and> gh_http gh c h1 = Inr r \<and> hr_status r = 200 \<and> hr_json r = Inr v \<and>
     contains_migration d = list_ex changed_migration (detail_files v))"

lemma details_read_later: "details_read gh d h \<Longrightarrow> details_read gh d (h @ k)"
  unfolding details_read_def Let_def by (metis append_Cons append_assoc)

lemma detail_reply_Inr:
  assumes "detail_reply sha reply = Inr b"
  shows "\<exists>r v. reply = Inr r \<and> hr_status r = 200 \<and> hr_json r = Inr v \<and> b = list_ex changed_migration (detail_files v)"
proof (cases reply)
  case (Inl f)
  then show ?thesis using assms by (cases f) (simp_all add: detail_reply_def delivered_def gh_error_def)
next
  case (Inr r)
  have "hr_status r = 200" using assms Inr by (auto simp: detail_reply_def delivered_def status_error_def gh_error_def split: if_splits)
  moreover obtain v where "hr_json r = Inr v" "b = list_ex changed_migration (detail_files v)"
    using assms Inr calculation
    by (cases "hr_json r") (auto simp: detail_reply_def delivered_def decoded_def gh_error_def split: PyExc.splits)
  ultimately show ?thesis using Inr by blast
qed

lemma emits_gh [emits_intros]:
  "emits (\<lambda>_. True) (gh_get gh c)" "emits (\<lambda>_. True) (extract_image_digests gh sha)"
  "emits (\<lambda>_. True) (resolve_pr_number gh sha data)"
proof -
  show get: "emits (\<lambda>_. True) (gh_get gh c)" for c by (auto simp: emits_def gh_get_def)
  have "emits (\<lambda>_. True) (fetch_manifest gh sha path)" for path
    unfolding fetch_manifest_def by (intro emits_intros get)
  then have "emits (\<lambda>_. True) (item_digests gh sha ds item)" for ds item
    unfolding item_digests_def store_digests_def by (intro emits_intros TrueI)
  then show "emits (\<lambda>_. True) (extract_image_digests gh sha)"
    unfolding extract_image_digests_def list_contents_def by (intro emits_intros get)
  show "emits (\<lambda>_. True) (resolve_pr_number gh sha data)"
    unfolding resolve_pr_number_def by (intro emits_intros get)
qed

lemma check_migration_read:
  "wp (check_migration gh sha)
     (\<lambda>b h'. \<forall>d. commit_sha d = sha \<longrightarrow> contains_migration d = b \<longrightarrow> details_read gh d h') (\<lambda>_ _. True) h"
proof (rule wpI, simp)
  fix b h'
  assume "check_migration gh sha h = (Inr b, h')"
  then have "detail_reply sha (gh_http gh (GhDetail (commit_url gh sha)) h) = Inr b"
    and h': "h' = h @ [(GhDetail (commit_url gh sha), case gh_http gh (GhDetail (commit_url gh sha)) h of Inl _ \<Rightarrow> False | Inr _ \<Rightarrow> True)]"
    by (simp_all add: check_migration_def gh_get_def abind_def alift_def)
  from detail_reply_Inr [OF this(1)] show "\<forall>d. commit_sha d = sha \<longrightarrow> contains_migration d = b \<longrightarrow> details_read gh d h'"
    unfolding details_read_def Let_def by (force simp: h')
qed

lemma deploy_read:
  assumes "deploy_of gh (extract_image_digests gh) commit h = (Inr d, h')"
  shows "pred_option (\<lambda>d. commit_sha d \<noteq> [] \<and> details_read gh d h') d"
proof (cases d)
  case (Some x)
  obtain c b h1 h2 digests where "truthy_text (get_or ''sha'' PNone c) = Some (commit_sha x)"
    "check_migration gh (commit_sha x) h1 = (Inr b, h2)" "contains_migration x = b"
    "extract_image_digests gh (commit_sha x) h2 = (Inr digests, h')"
    using assms Some by (auto simp: deploy_of_def act_simps split: option.splits)
  moreover from wpD [OF check_migration_read this(2)] this(3) have "details_read gh x h2" by simp
  moreover obtain k where "h' = h2 @ k" using emitsD [OF emits_gh(2) calculation(4)] by blast
  ultimately show ?thesis
    using Some details_read_later by (auto simp: truthy_text_def split: PyVal.split_asm list.split_asm)
qed simp

lemma emits_deploy: "emits (\<lambda>_. True) (deploy_of gh (extract_image_digests gh) commit)"
  unfolding deploy_of_def check_migration_def by (intro emits_intros TrueI)

lemma deploys_all_read:
  "amap (deploy_of gh (extract_image_digests gh)) commits h = (Inr ds, h') \<Longrightarrow>
   length ds = length commits \<and> list_all (pred_option (\<lambda>d. commit_sha d \<noteq> [] \<and> details_read gh d h')) ds"
proof (induction commits arbitrary: h ds)
  case (Cons commit commits)
  obtain d h1 ds' where d: "deploy_of gh (extract_image_digests gh) commit h = (Inr d, h1)"
    and ds': "amap (deploy_of gh (extract_image_digests gh)) commits h1 = (Inr ds', h')" "ds = d # ds'"
    using Cons.prems by (auto simp: act_simps)
  obtain k where "h' = h1 @ k" using emitsD [OF emits_amap [OF emits_deploy] ds'(1)] by blast
  then have "pred_option (\<lambda>d. commit_sha d \<noteq> [] \<and> details_read gh d h') d"
    using deploy_read [OF d] details_read_later by (cases d) auto
  then show ?case using Cons.IH [OF ds'(1)] ds'(2) by simp
qed (simp add: act_simps)

lemma run_loop_last: "run_loop n body s h = Some (Inr v, h') \<Longrightarrow> \<exists>s' h1. body s' h1 = (Inr (Inl v), h')"
  by (induction n arbitrary: s h) (force split: prod.splits sum.splits)+

lemma fetched_length:
  assumes "fetch_commits gh fuel limit h = Some (Inr commits, h')"
  shows "length commits \<le> nat limit"
proof -
  obtain s h1 where "commits_body gh limit s h1 = (Inr (Inl commits), h')"
    using run_loop_last [OF assms [unfolded fetch_commits_def]] by blast
  then show ?thesis
    by (auto simp: commits_body_def act_simps split: prod.splits option.splits list.splits if_splits)
qed



section \<open>Scenarios\<close>

definition normalize_scenario_id :: "string \<Rightarrow> string" where
  "normalize_scenario_id scenario_id =
     (let s = py_strip scenario_id;
          norm = (if startswith (rev s) (rev ''.yaml'') \<or> startswith (rev s) (rev ''.yml'') then before_last (CHR ''.'') s else s) in
      if CHR ''/'' \<in> set norm then last (split_char (CHR ''/'') norm) else norm)"

definition boundary_commit :: "instant \<Rightarrow> DeployRef \<Rightarrow> DeployRef" where
  "boundary_commit t d = \<lparr>commit_sha = ''mig_boundary_commit'', image_digests = image_digests d, deployed_at = t,
     pr_number = Some 999, contains_migration = True\<rparr>"

definition data_service_deploy :: "string \<Rightarrow> string \<Rightarrow> instant \<Rightarrow> int \<Rightarrow> bool \<Rightarrow> DeployRef" where
  "data_service_deploy sha tag t pr migration = \<lparr>commit_sha = sha,
     image_digests = [(''data-service'', ''localhost:5001/data-service:'' @ tag)], deployed_at = t, pr_number = Some pr,
     contains_migration = migration\<rparr>"

text \<open>\<open>xs[:n]\<close>\<close>

definition py_take :: "int \<Rightarrow> 'a list \<Rightarrow> 'a list" where
  "py_take n xs = take (if 0 \<le> n then nat n else length xs - nat (- n)) xs"

text \<open>The overlay on what the base returned; a microsecond is the finest step of a datetime, which the half of a
  difference is rounded to by the standard library and here is not.\<close>

definition overlay_deploys :: "string \<Rightarrow> bool \<Rightarrow> instant \<Rightarrow> int \<Rightarrow> DeployRef list \<Rightarrow> DeployRef list" where
  "overlay_deploys scenario_id force_migration now limit deploys =
     (let is_migration_scenario = force_migration \<or> contains_sub scenario_id ''migration'' in
      py_take limit
        (if is_migration_scenario \<and> \<not> list_ex contains_migration deploys then
           (case deploys of
              d0 # d1 # ds \<Rightarrow>
                (let mig_time = (if deployed_at d1 < deployed_at d0
                     then deployed_at d1 + (deployed_at d0 - deployed_at d1) / 2 else deployed_at d1 + 60) in
                 d0 # boundary_commit mig_time d0 # d1 # ds)
            | [d0] \<Rightarrow> [boundary_commit (deployed_at d0 + 1) d0, d0]
            | [] \<Rightarrow> [data_service_deploy ''c0ffee1'' ''regression'' now 101 False,
                data_service_deploy ''mig_boundary_commit'' ''good'' (now - 300) 100 True,
                data_service_deploy ''c0ffee0'' ''good'' (now - 600) 99 False])
         else if \<not> is_migration_scenario \<and> \<not> list_ex contains_migration deploys \<and> 3 \<le> length deploys then
           butlast deploys @ [(last deploys)\<lparr>deployed_at := deployed_at (last deploys) - 1, contains_migration := True\<rparr>]
         else deploys))"

definition scenario_recent_deploys ::
    "string \<Rightarrow> bool \<Rightarrow> GitHub \<Rightarrow> nat \<Rightarrow> int \<Rightarrow> GhCall trace \<Rightarrow> ((PyExc + DeployRef list) \<times> GhCall trace) option" where
  "scenario_recent_deploys scenario_id force_migration gh fuel limit h =
     map_option (\<lambda>(r, h'). (map_sum id (overlay_deploys (normalize_scenario_id scenario_id) force_migration (gh_now gh h') limit) r, h'))
       (recent_deploys_github gh fuel limit h)"


lemma overlay_boundary:
  assumes "force_migration \<or> contains_sub scenario_id ''migration''" "2 \<le> limit" "length deploys \<le> nat limit"
  shows "\<exists>d \<in> set (overlay_deploys scenario_id force_migration now limit deploys). contains_migration d"
proof (cases "list_ex contains_migration deploys")
  case True
  then show ?thesis using assms by (auto simp: overlay_deploys_def py_take_def list_ex_iff Let_def)
next
  case False
  have "2 \<le> nat limit" using assms(2) by linarith
  then obtain n where n: "nat limit = Suc (Suc n)" using le_Suc_ex [of 2 "nat limit"] by auto
  show ?thesis
    using False assms n
    by (auto simp: overlay_deploys_def py_take_def Let_def boundary_commit_def data_service_deploy_def split: list.split)
qed

section \<open>A repository\<close>

definition sample_manifest :: PyVal where
  "sample_manifest = PDict [(''kind'', PStr ''Deployment''), (''spec'', PDict [(''template'', PDict [(''spec'', PDict
     [(''containers'', PColl [PDict [(''name'', PStr ''web''), (''image'', PStr ''r/web@sha256:1'')]])])])])]"

definition ok_reply :: "PyVal \<Rightarrow> string \<Rightarrow> GhReply" where
  "ok_reply v t = \<lparr>hr_status = 200, hr_text = t, hr_json = Inr v, gr_next = None\<rparr>"

definition sample_answer :: "GhCall \<Rightarrow> GhReply" where
  "sample_answer c = (case c of
     GhCommits u q \<Rightarrow> ok_reply (PColl [PDict [(''sha'', PStr ''c1''), (''commit'', PDict [(''message'', PStr ''fix (#12)''),
       (''committer'', PDict [(''date'', PStr ''d'')])])]]) []
   | GhDetail u \<Rightarrow> ok_reply (PDict [(''files'', PColl [PDict [(''filename'', PStr ''db/migrations/1.sql'')]])]) []
   | GhContents u r \<Rightarrow> ok_reply (PColl [PDict [(''name'', PStr ''a.yaml''), (''type'', PStr ''file''), (''sha'', PStr ''b1'')]]) []
   | GhFile u r \<Rightarrow> ok_reply PNone ''y''
   | _ \<Rightarrow> ok_reply PNone [])"

definition sample_github :: GitHub where
  "sample_github = \<lparr>gh_repo = ''r'', gh_branch = None, gh_base_url = ''u'', gh_manifest_path = ''p'',
     gh_std = plain_std\<lparr>std_fromisoformat := \<lambda>_. Some 7\<rparr>, gh_sha256 = (\<lambda>s. s), gh_yaml = (\<lambda>t. if t = ''y'' then [sample_manifest] else []),
     gh_iso_error = (\<lambda>s. s), gh_now = (\<lambda>_. 0), gh_http = (\<lambda>c h. Inr (sample_answer c))\<rparr>"

definition sample_deploy :: DeployRef where
  "sample_deploy = \<lparr>commit_sha = ''c1'', image_digests = [(''web'', ''sha256:1'')], deployed_at = 7, pr_number = Some 12,
     contains_migration = True\<rparr>"

lemma sample_deploys: "map_option fst (recent_deploys_github sample_github 6 5 []) = Some (Inr [sample_deploy])"
  by code_simp

lemma recent_deploys_ends_witness: "\<exists>r h'. recent_deploys_github sample_github 6 5 [] = Some (r, h')"
proof (rule recent_deploys_ends)
  show "pages_filled sample_github"
    by (simp add: pages_filled_def sample_github_def sample_answer_def commits_page_def delivered_def ok_reply_def decoded_def)
qed simp



end
