(* ===== verification/Rx.thy ===== *)
theory Rx
  imports Text
begin

text \<open>
  The regular expressions of the standard library that the code uses to rewrite texts: a matcher with backtracking that
  gives the ends of all matches at a position in the order in which they are tried, so that the first one is the match.
\<close>

text \<open>A position is the character before it and the rest of the text.\<close>

type_synonym rx_pos = "char option \<times> string"

datatype rx =
    Eps
  | One "char \<Rightarrow> bool"
  | Many nat "nat option" "char \<Rightarrow> bool"
  | Bound
  | Seq rx rx
  | Alt rx rx
  | Opt rx

fun many_ends :: "(char \<Rightarrow> bool) \<Rightarrow> nat \<Rightarrow> nat \<Rightarrow> rx_pos \<Rightarrow> rx_pos list" where
  "many_ends P lo (Suc hi) (b, c # s) =
     (if P c then many_ends P (lo - 1) hi (Some c, s) else []) @ (if lo = 0 then [(b, c # s)] else [])"
| "many_ends P lo hi p = (if lo = 0 then [p] else [])"

definition at_word :: "char option \<Rightarrow> bool" where
  "at_word c = (case c of Some x \<Rightarrow> word_char x | None \<Rightarrow> False)"

fun rx_ends :: "rx \<Rightarrow> rx_pos \<Rightarrow> rx_pos list" where
  "rx_ends Eps p = [p]"
| "rx_ends (One P) p = many_ends P 1 1 p"
| "rx_ends (Many lo hi P) p = many_ends P lo (case hi of Some n \<Rightarrow> n | None \<Rightarrow> length (snd p)) p"
| "rx_ends Bound p =
     (if at_word (fst p) \<noteq> at_word (case snd p of [] \<Rightarrow> None | c # _ \<Rightarrow> Some c) then [p] else [])"
| "rx_ends (Seq r s) p = concat (map (rx_ends s) (rx_ends r p))"
| "rx_ends (Alt r s) p = rx_ends r p @ rx_ends s p"
| "rx_ends (Opt r) p = rx_ends r p @ [p]"

definition rx_seq :: "rx list \<Rightarrow> rx" where
  "rx_seq rs = foldr Seq rs Eps"

definition rx_lit :: "string \<Rightarrow> rx" where
  "rx_lit s = rx_seq (map (\<lambda>c. One (\<lambda>x. x = c)) s)"

text \<open>A literal with \<open>re.IGNORECASE\<close>.\<close>

definition rx_word :: "string \<Rightarrow> rx" where
  "rx_word s = rx_seq (map (\<lambda>c. One (\<lambda>x. lower_char x = lower_char c)) s)"

text \<open>\<open>r.sub(rep, s)\<close> for an expression that matches no empty text, and \<open>r.search(s)\<close>.\<close>

function rx_sub :: "rx \<Rightarrow> string \<Rightarrow> char option \<Rightarrow> string \<Rightarrow> string" where
  "rx_sub r rep b [] = []"
| "rx_sub r rep b (c # s) =
     (case rx_ends r (b, c # s) of
        (b', s') # _ \<Rightarrow> if length s' < length (c # s) then rep @ rx_sub r rep b' s' else c # rx_sub r rep (Some c) s
      | [] \<Rightarrow> c # rx_sub r rep (Some c) s)"
  by pat_completeness auto
termination
  by (relation "measure (\<lambda>(r, rep, b, s). length s)") auto

fun rx_search :: "rx \<Rightarrow> char option \<Rightarrow> string \<Rightarrow> bool" where
  "rx_search r b [] = (rx_ends r (b, []) \<noteq> [])"
| "rx_search r b (c # s) = (rx_ends r (b, c # s) \<noteq> [] \<or> rx_search r (Some c) s)"

text \<open>A position a match ends at is a later one of the same text.\<close>

lemma many_ends_suffix: "q \<in> set (many_ends P lo hi p) \<Longrightarrow> \<exists>t. snd p = t @ snd q \<and> list_all P t"
proof (induction P lo hi p rule: many_ends.induct)
  case (1 P lo hi b c s)
  show ?case
  proof (cases "P c \<and> q \<in> set (many_ends P (lo - 1) hi (Some c, s))")
    case True
    then obtain t where "s = t @ snd q" "list_all P t" using 1 by auto
    then have "snd (b, c # s) = (c # t) @ snd q \<and> list_all P (c # t)" using True by simp
    then show ?thesis by blast
  next
    case False
    then show ?thesis using 1(2) by (auto split: if_splits)
  qed
qed (auto split: if_splits)

lemma rx_ends_suffix: "q \<in> set (rx_ends r p) \<Longrightarrow> \<exists>t. snd p = t @ snd q"
proof (induction r arbitrary: p q)
  case (Seq r s)
  then obtain m where m: "m \<in> set (rx_ends r p)" "q \<in> set (rx_ends s m)" by auto
  obtain t u where "snd p = t @ snd m" "snd m = u @ snd q" using Seq.IH(1) [OF m(1)] Seq.IH(2) [OF m(2)] by blast
  then show ?case by simp
next
  case (One P)
  then show ?case using many_ends_suffix [of q P 1 1 p] by auto
next
  case (Many lo hi P)
  then show ?case using many_ends_suffix by (metis rx_ends.simps(3))
qed (auto split: if_splits)

text \<open>What is left of a text is the old text or the replacement.\<close>

lemma set_rx_sub: "set (rx_sub r rep b s) \<subseteq> set rep \<union> set s"
proof (induction r rep b s rule: rx_sub.induct)
  case (2 r rep b c s)
  show ?case
  proof (cases "rx_ends r (b, c # s)")
    case Nil
    then show ?thesis using 2(1) [OF Nil] by auto
  next
    case (Cons e es)
    obtain b' s' where e: "e = (b', s')" by (cases e)
    show ?thesis
    proof (cases "length s' < length (c # s)")
      case True
      obtain t where "c # s = t @ s'" using rx_ends_suffix [of e r "(b, c # s)"] Cons e by auto
      then have "set s' \<subseteq> set (c # s)" by (metis set_append sup_ge2)
      moreover have "set (rx_sub r rep b' s') \<subseteq> set rep \<union> set s'" using 2(2) [OF Cons e [symmetric]] True by simp
      ultimately have "set (rep @ rx_sub r rep b' s') \<subseteq> set rep \<union> set (c # s)" by auto
      then show ?thesis using Cons e True by simp
    next
      case False
      have "set (rx_sub r rep (Some c) s) \<subseteq> set rep \<union> set s" using 2(3) [OF Cons e [symmetric]] False by simp
      then show ?thesis using Cons e False by auto
    qed
  qed
qed simp

end
