(* ===== verification/Monitoring.thy ===== *)
theory Monitoring
  imports Rx Json Triples Contracts
begin

text \<open>
  Telemetry (\<^verbatim>\<open>signals/prometheus.py\<close>, \<^verbatim>\<open>signals/loki.py\<close>): windows of metrics, the health of a service, and the error
  signatures of its logs.  The services are a parameter that answers by the calls made so far; the reading of JSON
  and of numbers, SHA-256 and the texts of failed statuses are parameters too.
\<close>

section \<open>The services\<close>

text \<open>\<open>float(s)\<close> may be no finite number.\<close>

datatype PyFloat = Finite rat | PosInf | NegInf | NotANumber

datatype MonitorCall =
    InstantQuery string "instant option"
  | RangeQuery string instant instant string
  | LogQuery string int int int

type_synonym 'a m_act = "(MonitorCall, 'a) act"

text \<open>\<open>mo_float\<close>: \<open>float\<close> of a text, if it is one; \<open>mo_wall\<close>: the time of the process when the entry of that number is
  read; \<open>mo_loads\<close>: the JSON of a text, if it is that; \<open>mo_status_text\<close>: what \<open>raise_for_status\<close> says.\<close>

record Monitor =
  mo_std :: PyStd
  mo_float :: "string \<Rightarrow> PyFloat option"
  mo_loads :: "string \<Rightarrow> PyVal option"
  mo_sha256 :: "string \<Rightarrow> string"
  mo_status_text :: "HttpReply \<Rightarrow> string"
  mo_now :: "MonitorCall trace \<Rightarrow> instant"
  mo_wall :: "MonitorCall trace \<Rightarrow> nat \<Rightarrow> instant"
  mo_http :: "MonitorCall \<Rightarrow> MonitorCall trace \<Rightarrow> HttpFault + HttpReply"

definition observability_error :: "string list \<Rightarrow> PyExc + 'a" where
  "observability_error parts = Inl (Raised ''ObservabilityError'' (fstr parts))"

text \<open>A request with \<open>raise_for_status\<close>: the JSON of a reply with a status of success.\<close>

definition checked_reply :: "Monitor \<Rightarrow> string \<Rightarrow> HttpFault + HttpReply \<Rightarrow> PyExc + PyVal" where
  "checked_reply mo words reply =
     (case reply of
        Inl (RequestError t) \<Rightarrow> observability_error [words, '' failed: '', t]
      | Inl (OtherError e) \<Rightarrow> Inl e
      | Inr r \<Rightarrow>
          if 200 \<le> hr_status r \<and> hr_status r < 300 then hr_json r
          else observability_error [words, '' failed: '', mo_status_text mo r])"

definition monitor_get :: "Monitor \<Rightarrow> MonitorCall \<Rightarrow> string \<Rightarrow> PyVal m_act" where
  "monitor_get mo c words = acall c (\<lambda>h. checked_reply mo words (mo_http mo c h))"

text \<open>The answer of Prometheus; the type of one that is no object is not spelled out in the error.\<close>

definition prometheus_answer :: "Monitor \<Rightarrow> string \<Rightarrow> PyVal \<Rightarrow> PyExc + (string \<times> PyVal) list" where
  "prometheus_answer mo kind v =
     (case v of
        PDict d \<Rightarrow>
          if get_or ''status'' PNone d \<noteq> PStr ''success'' then
            observability_error [''Prometheus '', kind, '' error: '',
              py_str (mo_std mo) (get_or ''error'' (PStr ''Unknown Prometheus query error'') d)]
          else Inr d
      | _ \<Rightarrow> observability_error [''Unexpected Prometheus response type''])"

definition prometheus_query :: "Monitor \<Rightarrow> string \<Rightarrow> instant option \<Rightarrow> (string \<times> PyVal) list m_act" where
  "prometheus_query mo expr time =
     abind (monitor_get mo (InstantQuery expr time) ''Prometheus query'') (\<lambda>v. alift (prometheus_answer mo ''query'' v))"

definition prometheus_query_range :: "Monitor \<Rightarrow> string \<Rightarrow> instant \<Rightarrow> instant \<Rightarrow> string \<Rightarrow> (string \<times> PyVal) list m_act" where
  "prometheus_query_range mo expr start end_time step =
     abind (monitor_get mo (RangeQuery expr start end_time step) ''Prometheus range query'') (\<lambda>v.
       alift (prometheus_answer mo ''range query'' v))"

section \<open>Numbers\<close>

text \<open>\<open>float(v)\<close>\<close>

definition float_of_val :: "Monitor \<Rightarrow> PyVal \<Rightarrow> PyExc + PyFloat" where
  "float_of_val mo v =
     (case v of
        PStr s \<Rightarrow> (case mo_float mo s of Some f \<Rightarrow> Inr f
          | None \<Rightarrow> Inl (Raised ''ValueError'' (fstr [''could not convert string to float: '', squote s])))
      | PInt i \<Rightarrow> Inr (Finite (of_int i))
      | PBool b \<Rightarrow> Inr (Finite (if b then 1 else 0))
      | PFloat r \<Rightarrow> Inr (Finite r)
      | _ \<Rightarrow> Inl (Raised ''TypeError'' ''float() argument must be a string or a real number''))"

text \<open>\<open>datetime.fromtimestamp(x, tz=UTC)\<close>: the years 1 to 9999, as seconds since 1970.\<close>

definition from_timestamp :: "PyFloat \<Rightarrow> PyExc + instant" where
  "from_timestamp x =
     (case x of
        Finite r \<Rightarrow>
          if - 62135596800 \<le> r \<and> r < 253402300800 then Inr r
          else Inl (Raised ''ValueError'' ''year is out of range'')
      | NotANumber \<Rightarrow> Inl (Raised ''ValueError'' ''cannot convert float NaN to integer'')
      | _ \<Rightarrow> Inl (Raised ''OverflowError'' ''cannot convert float infinity to integer''))"

text \<open>The number after the comma of a pair, if it is one.\<close>

definition paired_number :: "Monitor \<Rightarrow> PyVal \<Rightarrow> PyFloat option" where
  "paired_number mo v =
     (case v of
        PColl (_ # x # _) \<Rightarrow> (case float_of_val mo x of Inr f \<Rightarrow> Some f | Inl _ \<Rightarrow> None)
      | _ \<Rightarrow> None)"

definition extract_value :: "Monitor \<Rightarrow> (string \<times> PyVal) list \<Rightarrow> PyExc + PyFloat option" where
  "extract_value mo data =
     bindE (as_dict (get_or ''data'' (PDict []) data)) (\<lambda>d.
       Inr (case get_or ''result'' PNone d of
          PColl (first # others) \<Rightarrow>
            (if get_or ''resultType'' PNone d = PStr ''scalar'' \<and> others \<noteq> [] then paired_number mo (PColl (first # others))
             else if get_or ''resultType'' PNone d = PStr ''vector'' then
               (case first of PDict f \<Rightarrow> paired_number mo (get_or ''value'' PNone f) | _ \<Rightarrow> None)
             else None)
        | _ \<Rightarrow> None))"

section \<open>Windows\<close>

definition dquote :: "string \<Rightarrow> string" where
  "dquote s = CHR 0x22 # s @ [CHR 0x22]"

definition selector :: "string \<Rightarrow> string \<Rightarrow> string \<Rightarrow> string \<Rightarrow> string" where
  "selector namespace service extra label =
     fstr [''{namespace='', dquote namespace, '', '', label, ''='', dquote service, extra, ''}'']"

definition increase_query :: "string \<Rightarrow> string \<Rightarrow> string \<Rightarrow> string \<Rightarrow> string \<Rightarrow> string" where
  "increase_query namespace service window extra label =
     fstr [''sum(increase(http_requests_total'', selector namespace service extra label, ''['', window, '']))'']"

definition p99_query :: "string \<Rightarrow> string \<Rightarrow> string \<Rightarrow> string \<Rightarrow> string" where
  "p99_query namespace service window label =
     fstr [''histogram_quantile(0.99, sum(rate(http_request_duration_seconds_bucket'', selector namespace service [] label,
       ''['', window, ''])) by (le))'']"

definition series_query :: "string \<Rightarrow> string \<Rightarrow> string \<Rightarrow> string" where
  "series_query namespace service label = ''http_requests_total'' @ selector namespace service [] label"

text \<open>A value by the service label and, if there is none, by the app label, when that is to be tried.\<close>

definition labelled_value :: "Monitor \<Rightarrow> instant \<Rightarrow> (string \<Rightarrow> string) \<Rightarrow> bool \<Rightarrow> PyFloat option m_act" where
  "labelled_value mo time query again =
     abind (prometheus_query mo (query ''service'') (Some time)) (\<lambda>res.
     abind (alift (extract_value mo res)) (\<lambda>val.
       if val = None \<and> again then
         abind (prometheus_query mo (query ''app'') (Some time)) (\<lambda>res. alift (extract_value mo res))
       else aret val))"

text \<open>\<open>round(val)\<close> of a value that is a number from 0 on; an infinite one cannot be rounded.\<close>

definition count_of :: "PyFloat option \<Rightarrow> PyExc + int" where
  "count_of val =
     (case val of
        Some (Finite r) \<Rightarrow> Inr (if 0 \<le> r then round_half_even r else 0)
      | Some PosInf \<Rightarrow> Inl (Raised ''OverflowError'' ''cannot convert float infinity to integer'')
      | _ \<Rightarrow> Inr 0)"

text \<open>\<open>min(1.0, max(0.0, error_count / request_count))\<close>\<close>

definition rate_of :: "PyFloat option \<Rightarrow> int \<Rightarrow> rat" where
  "rate_of val request_count =
     (if request_count > 0 then
        (case val of
           Some (Finite r) \<Rightarrow> min 1 (max 0 ((if 0 \<le> r then r else 0) / of_int request_count))
         | Some PosInf \<Rightarrow> 1
         | _ \<Rightarrow> 0)
      else 0)"

definition latency_of :: "PyFloat option \<Rightarrow> rat option" where
  "latency_of val =
     (case val of Some (Finite r) \<Rightarrow> if 0 \<le> r then Some (py_round 2 (r * 1000)) else None | _ \<Rightarrow> None)"

text \<open>One series.  Its points are those with a time and a value; a value that is no finite number has no counterpart in the
  contracts and is left out.  Labels are an object of texts, or the model's validation fails;
  \<open>dict\<close> of a list of pairs, which Prometheus never sends, is not modelled.\<close>

definition point_of :: "Monitor \<Rightarrow> PyVal \<Rightarrow> MetricPoint option" where
  "point_of mo p =
     (case p of
        PColl (t # v # _) \<Rightarrow>
          (case (bindE (float_of_val mo t) from_timestamp, float_of_val mo v) of
             (Inr i, Inr (Finite r)) \<Rightarrow> Some \<lparr>mp_timestamp = i, mp_value = r\<rparr>
           | _ \<Rightarrow> None)
      | _ \<Rightarrow> None)"

definition text_value :: "PyVal \<Rightarrow> PyExc + string" where
  "text_value v = (case v of PStr s \<Rightarrow> Inr s | _ \<Rightarrow> Inl (Raised ''ValidationError'' ''Input should be a valid string''))"

definition label_dict :: "PyVal \<Rightarrow> PyExc + (string \<times> PyVal) list" where
  "label_dict v =
     (case v of
        PDict d \<Rightarrow> Inr d
      | _ \<Rightarrow> if v = PColl [] \<or> v = PStr [] then Inr [] else Inl (Raised ''TypeError'' ''object is not a dict''))"

definition series_of :: "Monitor \<Rightarrow> PyVal \<Rightarrow> PyExc + MetricSeries option" where
  "series_of mo item =
     (case item of
        PDict d \<Rightarrow>
          bindE (label_dict (get_or ''metric'' (PDict []) d)) (\<lambda>labels.
          bindE (text_value (get_or ''__name__'' (PStr ''http_requests_total'') labels)) (\<lambda>name.
          bindE (mapE (\<lambda>kv. map_sum id (Pair (fst kv)) (text_value (snd kv))) (dict_pop ''__name__'' labels)) (\<lambda>texts.
            Inr (Some \<lparr>metric_name = name, series_labels = texts,
              series_points = (case get_or ''values'' (PColl []) d of PColl vs \<Rightarrow> List.map_filter (point_of mo) vs | _ \<Rightarrow> [])\<rparr>))))
      | _ \<Rightarrow> Inr None)"

definition series_results :: "(string \<times> PyVal) list \<Rightarrow> PyExc + PyVal list" where
  "series_results res =
     bindE (as_dict (get_or ''data'' (PDict []) res)) (\<lambda>d.
       Inr (case get_or ''result'' PNone d of PColl xs \<Rightarrow> xs | _ \<Rightarrow> []))"

definition labelled_series :: "Monitor \<Rightarrow> instant \<Rightarrow> instant \<Rightarrow> string \<Rightarrow> (string \<Rightarrow> string) \<Rightarrow> PyVal list m_act" where
  "labelled_series mo start end_time step query =
     abind (prometheus_query_range mo (query ''service'') start end_time step) (\<lambda>res.
     abind (alift (series_results res)) (\<lambda>xs.
       if xs = [] then
         abind (prometheus_query_range mo (query ''app'') start end_time step) (\<lambda>res. alift (series_results res))
       else aret xs))"

definition window_seconds :: "instant \<Rightarrow> instant \<Rightarrow> int" where
  "window_seconds start end_time = max 1 (py_int (end_time - start))"

definition get_metric_window :: "Monitor \<Rightarrow> string \<Rightarrow> instant \<Rightarrow> string \<Rightarrow> instant option \<Rightarrow> MetricWindow m_act" where
  "get_metric_window mo service since namespace until =
     abind (case until of Some t \<Rightarrow> aret t | None \<Rightarrow> aask (mo_now mo)) (\<lambda>given.
       let start = min since given; end_time = max since given; secs = window_seconds start end_time; window = int_str secs @ ''s'' in
       abind (labelled_value mo end_time (increase_query namespace service window []) True) (\<lambda>total.
       abind (alift (count_of total)) (\<lambda>request_count.
       abind (labelled_value mo end_time
           (increase_query namespace service window (fstr ['', status_code=~'', dquote ''5..''])) (request_count > 0)) (\<lambda>errors.
       abind (labelled_value mo end_time (p99_query namespace service window) True) (\<lambda>p99.
       abind (labelled_series mo start end_time (int_str (max 2 (min 60 (secs div 30))) @ ''s'')
           (series_query namespace service)) (\<lambda>raw.
       abind (alift (mapE (series_of mo) raw)) (\<lambda>series.
         aret \<lparr>mw_service = service, mw_start_time = start, mw_end_time = end_time, mw_series = List.map_filter id series,
           mw_p99_latency_ms = latency_of p99, mw_error_rate = Some (rate_of errors request_count),
           mw_request_count = request_count\<rparr>)))))))"

section \<open>Health\<close>

definition names_service :: "Monitor \<Rightarrow> string \<Rightarrow> (string \<times> PyVal) list \<Rightarrow> bool" where
  "names_service mo service metric =
     (let field = (\<lambda>k. py_str (mo_std mo) (get_or k (PStr []) metric));
          host = hd (split_char (CHR '':'') (hd (split_char (CHR ''.'') (field ''instance'')))) in
      field ''service'' = service \<or> field ''app'' = service \<or> host = service \<or> startswith (field ''pod'') (service @ ''-''))"

text \<open>The items in their order: the first that names the service and has the value 1.\<close>

fun any_up :: "Monitor \<Rightarrow> string \<Rightarrow> PyVal list \<Rightarrow> PyExc + bool" where
  "any_up mo service [] = Inr False"
| "any_up mo service (item # items) =
     (case item of
        PDict d \<Rightarrow>
          bindE (as_dict (get_or ''metric'' (PDict []) d)) (\<lambda>metric.
            if names_service mo service metric \<and> paired_number mo (get_or ''value'' PNone d) = Some (Finite 1) then Inr True
            else any_up mo service items)
      | _ \<Rightarrow> any_up mo service items)"

definition health_of :: "Monitor \<Rightarrow> string \<Rightarrow> (string \<times> PyVal) list \<Rightarrow> PyExc + bool" where
  "health_of mo service data =
     bindE (as_dict (get_or ''data'' (PDict []) data)) (\<lambda>d.
       case get_or ''result'' (PColl []) d of PColl items \<Rightarrow> any_up mo service items | _ \<Rightarrow> Inr False)"

definition up_query :: "string \<Rightarrow> string" where
  "up_query namespace = fstr [''up{namespace='', dquote namespace, ''}'']"

text \<open>Errors of the query read as unhealthy; an \<open>httpx.HTTPError\<close> has become an \<open>ObservabilityError\<close> by then.\<close>

definition check_service_health :: "Monitor \<Rightarrow> string \<Rightarrow> string \<Rightarrow> bool m_act" where
  "check_service_health mo namespace service =
     abind (acatch (abind (prometheus_query mo (up_query namespace) None) (\<lambda>d. aret (Some d)))
       (\<lambda>c t. if isinstance c ''ObservabilityError'' then aret None else araise (Raised c t))) (\<lambda>data.
       case data of None \<Rightarrow> aret False | Some d \<Rightarrow> alift (health_of mo service d))"


section \<open>What a window holds\<close>

lemma round_nonneg: "0 \<le> x \<Longrightarrow> 0 \<le> round_half_even x"
  using round_half_even_mono [of 0 x] round_half_even_of_int [of 0] by simp

lemma count_nonneg: "count_of val = Inr n \<Longrightarrow> 0 \<le> n"
  by (auto simp: count_of_def round_nonneg split: option.splits PyFloat.splits)

lemma rate_unit: "0 \<le> rate_of val n \<and> rate_of val n \<le> 1"
  by (auto simp: rate_of_def split: option.split PyFloat.split)

lemma latency_nonneg: "latency_of val = Some p \<Longrightarrow> 0 \<le> p"
  using py_round_mono [of 0 _ 2] py_round_0 [of 2]
  by (fastforce simp: latency_of_def split: option.splits PyFloat.splits if_splits)

text \<open>What the request count of a window rests on: no answer, or a number under one of the labels.\<close>

definition reported :: "Monitor \<Rightarrow> instant \<Rightarrow> (string \<Rightarrow> string) \<Rightarrow> PyFloat \<Rightarrow> MonitorCall trace \<Rightarrow> bool" where
  "reported mo t query f h \<longleftrightarrow> (\<exists>label h1 h2 d. label \<in> {''service'', ''app''} \<and>
     (let c = InstantQuery (query label) (Some t) in
      h = h1 @ (c, True) # h2 \<and> checked_reply mo ''Prometheus query'' (mo_http mo c h1) = Inr (PDict d) \<and>
      get_or ''status'' PNone d = PStr ''success'' \<and> extract_value mo d = Inr (Some f)))"

lemma prometheus_query_Inr:
  assumes "prometheus_query mo expr time h = (Inr d, h')"
  shows "h' = h @ [(InstantQuery expr time, True)] \<and>
    checked_reply mo ''Prometheus query'' (mo_http mo (InstantQuery expr time) h) = Inr (PDict d) \<and>
    get_or ''status'' PNone d = PStr ''success''"
proof -
  obtain v where v: "checked_reply mo ''Prometheus query'' (mo_http mo (InstantQuery expr time) h) = Inr v"
    "h' = h @ [(InstantQuery expr time, True)]" "prometheus_answer mo ''query'' v = Inr d"
    using assms by (auto simp: prometheus_query_def monitor_get_def act_simps)
  then show ?thesis by (cases v) (auto simp: prometheus_answer_def observability_error_def split: if_splits)
qed

lemma labelled_value_reported:
  assumes "labelled_value mo t query again h = (Inr val, h')"
  shows "(\<forall>f. val = Some f \<longrightarrow> reported mo t query f h') \<and> (\<exists>k. h' = h @ k)"
proof -
  obtain d h1 v where d: "prometheus_query mo (query ''service'') (Some t) h = (Inr d, h1)" "extract_value mo d = Inr v"
    and rest: "(if v = None \<and> again then
         abind (prometheus_query mo (query ''app'') (Some t)) (\<lambda>res. alift (extract_value mo res))
       else aret v) h1 = (Inr val, h')"
    using assms unfolding labelled_value_def abind_Inr_iff alift_iff by metis
  note q = prometheus_query_Inr [OF d(1)]
  show ?thesis
  proof (cases "v = None \<and> again")
    case True
    obtain d' where d': "prometheus_query mo (query ''app'') (Some t) h1 = (Inr d', h')" "extract_value mo d' = Inr val"
      using rest True by (auto simp: act_simps)
    note q' = prometheus_query_Inr [OF d'(1)]
    have "reported mo t query f h'" if "val = Some f" for f
      unfolding reported_def Let_def
      by (rule exI [of _ "''app''"], rule exI [of _ h1], rule exI [of _ "[]"], rule exI [of _ d']) (use q' d'(2) that in simp)
    then show ?thesis using q q' by simp
  next
    case False
    then have "val = v" "h' = h1" using rest by (auto simp: act_simps)
    moreover have "reported mo t query f h1" if "v = Some f" for f
      unfolding reported_def Let_def
      by (rule exI [of _ "''service''"], rule exI [of _ h], rule exI [of _ "[]"], rule exI [of _ d]) (use q d(2) that in simp)
    ultimately show ?thesis using q by simp
  qed
qed

lemma reported_later: "reported mo t query f h \<Longrightarrow> reported mo t query f (h @ k)"
  unfolding reported_def Let_def by (metis append_Cons append_assoc)

lemma emits_monitor [emits_intros]:
  "emits (\<lambda>_. True) (labelled_value mo t query again)" "emits (\<lambda>_. True) (labelled_series mo s e step q)"
  unfolding labelled_value_def labelled_series_def prometheus_query_def prometheus_query_range_def monitor_get_def
  by (intro emits_intros TrueI)+

lemma window_rate:
  assumes "get_metric_window mo service since namespace until h = (Inr w, h')"
  shows "\<exists>e. mw_error_rate w = Some e \<and> 0 \<le> e \<and> e \<le> 1"
  using assms rate_unit by (auto simp: get_metric_window_def Let_def act_simps)

text \<open>C37: a window that is returned is about the service that was asked for, runs from the earlier to the later of the two
  times, has a count that is not negative, a latency that is not negative and an error rate between 0 and 1; a count other
  than 0 was reported by the service; and where nothing was counted, the rate of errors is 0.\<close>

theorem windows_in_range:
  assumes "get_metric_window mo service since namespace (Some until) h = (Inr w, h')"
  shows "mw_service w = service \<and> mw_start_time w = min since until \<and> mw_end_time w = max since until \<and>
    0 \<le> mw_request_count w \<and> pred_option (\<lambda>p. 0 \<le> p) (mw_p99_latency_ms w) \<and>
    (\<exists>e. mw_error_rate w = Some e \<and> 0 \<le> e \<and> e \<le> 1 \<and> (mw_request_count w = 0 \<longrightarrow> e = 0)) \<and>
    (mw_request_count w = 0 \<or>
     (\<exists>r. reported mo (max since until)
        (increase_query namespace service (int_str (window_seconds (min since until) (max since until)) @ ''s'') []) (Finite r) h' \<and>
        mw_request_count w = round_half_even r))"
proof -
  define start end_time window where defs: "start = min since until" "end_time = max since until"
    "window = int_str (window_seconds start end_time) @ ''s''"
  obtain total n errors p99 raw series h1 where
    total: "labelled_value mo end_time (increase_query namespace service window []) True h = (Inr total, h1)"
    and n: "count_of total = Inr n"
    and later: "\<exists>k. h' = h1 @ k"
    and w: "w = \<lparr>mw_service = service, mw_start_time = start, mw_end_time = end_time, mw_series = List.map_filter id series,
      mw_p99_latency_ms = latency_of p99, mw_error_rate = Some (rate_of errors n), mw_request_count = n\<rparr>"
  proof -
    obtain total n errors p99 raw series h1 h2 h3 where *:
      "labelled_value mo end_time (increase_query namespace service window []) True h = (Inr total, h1)"
      "count_of total = Inr n"
      "labelled_value mo end_time (increase_query namespace service window (fstr ['', status_code=~'', dquote ''5..''])) (n > 0) h1 =
        (Inr errors, h2)"
      "labelled_value mo end_time (p99_query namespace service window) True h2 = (Inr p99, h3)"
      "labelled_series mo start end_time (int_str (max 2 (min 60 (window_seconds start end_time div 30))) @ ''s'')
        (series_query namespace service) h3 = (Inr raw, h')"
      "w = \<lparr>mw_service = service, mw_start_time = start, mw_end_time = end_time, mw_series = List.map_filter id series,
        mw_p99_latency_ms = latency_of p99, mw_error_rate = Some (rate_of errors n), mw_request_count = n\<rparr>"
      using assms by (auto simp: get_metric_window_def Let_def act_simps defs)
    have "\<exists>k. h2 = h1 @ k" "\<exists>k. h3 = h2 @ k" "\<exists>k. h' = h3 @ k"
      using emitsD [OF emits_monitor(1) *(3)] emitsD [OF emits_monitor(1) *(4)] emitsD [OF emits_monitor(2) *(5)] by blast+
    then have "\<exists>k. h' = h1 @ k" by auto
    then show ?thesis using that * by blast
  qed
  have "n = 0 \<or> (\<exists>r. total = Some (Finite r) \<and> n = round_half_even r)"
    using n by (auto simp: count_of_def split: option.splits PyFloat.splits if_splits)
  moreover have "reported mo end_time (increase_query namespace service window []) (Finite r) h'" if "total = Some (Finite r)" for r
    using labelled_value_reported [OF total] reported_later later that by blast
  ultimately have "n = 0 \<or> (\<exists>r. reported mo end_time (increase_query namespace service window []) (Finite r) h' \<and> n = round_half_even r)"
    by blast
  moreover have "pred_option (\<lambda>p. 0 \<le> p) (latency_of p99)" using latency_nonneg by (cases "latency_of p99") auto
  moreover have "n = 0 \<longrightarrow> rate_of errors n = 0" by (simp add: rate_of_def)
  ultimately show ?thesis using w count_nonneg [OF n] rate_unit [of errors n] by (simp add: defs)
qed


lemma any_up_True: "any_up mo service items = Inr True \<Longrightarrow>
    \<exists>d metric. PDict d \<in> set items \<and> get_or ''metric'' (PDict []) d = PDict metric \<and> names_service mo service metric \<and>
      paired_number mo (get_or ''value'' PNone d) = Some (Finite 1)"
proof (induction items)
  case (Cons item items)
  show ?case
  proof (cases item)
    case (PDict d)
    obtain metric where m: "get_or ''metric'' (PDict []) d = PDict metric"
      using Cons.prems PDict by (cases "get_or ''metric'' (PDict []) d") (auto simp: as_dict_def)
    show ?thesis
    proof (cases "names_service mo service metric \<and> paired_number mo (get_or ''value'' PNone d) = Some (Finite 1)")
      case True
      then show ?thesis using m PDict by auto
    next
      case False
      then have "any_up mo service items = Inr True" using Cons.prems PDict m by (auto simp: as_dict_def split: if_splits)
      then show ?thesis using Cons.IH by auto
    qed
  qed (use Cons in auto)
qed simp

text \<open>A service is healthy only by an answer of success with an item that names it and has the value 1.\<close>

lemma health_witnessed:
  assumes "check_service_health mo namespace service h = (Inr True, h')"
  shows "\<exists>d data items item metric. checked_reply mo ''Prometheus query'' (mo_http mo (InstantQuery (up_query namespace) None) h) = Inr (PDict d) \<and>
    get_or ''status'' PNone d = PStr ''success'' \<and> get_or ''data'' (PDict []) d = PDict data \<and>
    get_or ''result'' (PColl []) data = PColl items \<and> PDict item \<in> set items \<and>
    get_or ''metric'' (PDict []) item = PDict metric \<and> names_service mo service metric \<and>
    paired_number mo (get_or ''value'' PNone item) = Some (Finite 1)"
proof -
  obtain d h1 where q: "prometheus_query mo (up_query namespace) None h = (Inr d, h1)" "health_of mo service d = Inr True"
    using assms by (auto simp: check_service_health_def act_simps split: option.splits if_splits)
  obtain data where data: "get_or ''data'' (PDict []) d = PDict data"
    using q(2) by (cases "get_or ''data'' (PDict []) d") (auto simp: health_of_def as_dict_def)
  obtain items where items: "get_or ''result'' (PColl []) data = PColl items" "any_up mo service items = Inr True"
    using q(2) data by (cases "get_or ''result'' (PColl []) data") (auto simp: health_of_def as_dict_def)
  show ?thesis using prometheus_query_Inr [OF q(1)] data items(1) any_up_True [OF items(2)] by blast
qed

section \<open>A service with answers\<close>

definition sample_monitor :: Monitor where
  "sample_monitor = \<lparr>mo_std = plain_std, mo_float = (\<lambda>s. if s = ''4'' then Some (Finite 4) else None), mo_loads = (\<lambda>_. None),
     mo_sha256 = (\<lambda>s. s), mo_status_text = (\<lambda>_. []), mo_now = (\<lambda>_. 0), mo_wall = (\<lambda>_ _. 0),
     mo_http = (\<lambda>c h. Inr \<lparr>hr_status = 200, hr_text = [], hr_json = Inr (PDict [(''status'', PStr ''success''), (''data'', PDict
       (case c of
          InstantQuery e t \<Rightarrow> [(''resultType'', PStr ''vector''), (''result'', PColl [PDict [(''value'', PColl [PInt 0, PStr ''4''])]])]
        | _ \<Rightarrow> []))])\<rparr>)\<rparr>"

definition sample_window :: "string \<Rightarrow> instant \<Rightarrow> instant \<Rightarrow> MetricWindow" where
  "sample_window service since until = \<lparr>mw_service = service, mw_start_time = min since until, mw_end_time = max since until, mw_series = [], mw_p99_latency_ms = Some 4000,
     mw_error_rate = Some 1, mw_request_count = 4\<rparr>"

lemma sample_measured: "fst (get_metric_window sample_monitor service since ns (Some until) h) = Inr (sample_window service since until)"
proof -
  have "extract_value sample_monitor [(''status'', PStr ''success''), (''data'', PDict [(''resultType'', PStr ''vector''),
      (''result'', PColl [PDict [(''value'', PColl [PInt 0, PStr ''4''])]])])] = Inr (Some (Finite 4))" by code_simp
  then have val: "fst (labelled_value sample_monitor t q again h) = Inr (Some (Finite 4))" for t q again h
    by (simp add: labelled_value_def prometheus_query_def monitor_get_def checked_reply_def sample_monitor_def
        prometheus_answer_def abind_def acall_def alift_def aret_def)
  have series: "fst (labelled_series sample_monitor s e step q h) = Inr []" for s e step q h
    by (simp add: labelled_series_def prometheus_query_range_def monitor_get_def checked_reply_def sample_monitor_def
        prometheus_answer_def series_results_def as_dict_def abind_def acall_def alift_def aret_def get_or_def)
  have step: "fst (abind m f h) = (case fst (m h) of Inl e \<Rightarrow> Inl e | Inr x \<Rightarrow> fst (f x (snd (m h))))" for m f h
    by (cases "m h") (simp add: abind_def split: sum.split)
  have "count_of (Some (Finite 4)) = Inr 4" "latency_of (Some (Finite 4)) = Some 4000" "rate_of (Some (Finite 4)) 4 = 1" by code_simp+
  then show ?thesis
    by (simp add: get_metric_window_def Let_def step aret_def alift_def val series sample_window_def map_filter_simps)
qed

lemma windows_in_range_witness:
  "\<exists>h'. get_metric_window sample_monitor ''web'' 0 ''ns'' (Some 30) [] = (Inr (sample_window ''web'' 0 30), h') \<and>
    (\<exists>e. mw_error_rate (sample_window ''web'' 0 30) = Some e \<and> 0 \<le> e \<and> e \<le> 1) \<and>
    (\<exists>r. reported sample_monitor (max 0 30)
        (increase_query ''ns'' ''web'' (int_str (window_seconds (min 0 30) (max 0 30)) @ ''s'') []) (Finite r) h' \<and>
        mw_request_count (sample_window ''web'' 0 30) = round_half_even r)"
proof -
  obtain h' where h': "get_metric_window sample_monitor ''web'' 0 ''ns'' (Some 30) [] = (Inr (sample_window ''web'' 0 30), h')"
    using sample_measured by (metis fst_conv surj_pair)
  have "mw_request_count (sample_window ''web'' 0 30) \<noteq> 0" by (simp add: sample_window_def)
  then show ?thesis using windows_in_range [OF h'] h' by blast
qed

end
