(* ===== verification/Logs.thy ===== *)
theory Logs
  imports Monitoring "HOL-Library.Multiset"
begin

text \<open>
  Error signatures (\<^verbatim>\<open>signals/loki.py\<close>): which lines of a log are errors, what is left of a message when the values that
  change from one occurrence to the next are taken out, and the signatures that equal messages are gathered into.
\<close>

section \<open>Normal forms of messages\<close>

definition hex_char :: "char \<Rightarrow> bool" where
  "hex_char c = (let n = (of_char c :: nat) in (48 \<le> n \<and> n \<le> 57) \<or> (65 \<le> n \<and> n \<le> 70) \<or> (97 \<le> n \<and> n \<le> 102))"

abbreviation rx_hex :: "nat \<Rightarrow> rx" where "rx_hex n \<equiv> Many n (Some n) hex_char"
abbreviation rx_digits :: "nat \<Rightarrow> rx" where "rx_digits n \<equiv> Many n (Some n) py_digit"
abbreviation rx_char :: "char \<Rightarrow> rx" where "rx_char c \<equiv> One (\<lambda>x. x = c)"

definition RE_UUID :: rx where
  "RE_UUID = rx_seq [Bound, rx_hex 8, rx_char (CHR ''-''), rx_hex 4, rx_char (CHR ''-''), rx_hex 4, rx_char (CHR ''-''),
     rx_hex 4, rx_char (CHR ''-''), rx_hex 12, Bound]"

definition RE_ADDR :: rx where
  "RE_ADDR = rx_seq [Bound, rx_lit ''0x'', Many 1 None hex_char, Bound]"

definition RE_TIMESTAMP :: rx where
  "RE_TIMESTAMP = rx_seq [Bound, rx_digits 4, rx_char (CHR ''-''), rx_digits 2, rx_char (CHR ''-''), rx_digits 2,
     One (\<lambda>c. c = CHR ''T'' \<or> c = CHR '' ''), rx_digits 2, rx_char (CHR '':''), rx_digits 2, rx_char (CHR '':''), rx_digits 2,
     Opt (rx_seq [rx_char (CHR ''.''), Many 1 None py_digit]),
     Opt (Alt (rx_char (CHR ''Z''))
       (rx_seq [One (\<lambda>c. c = CHR ''+'' \<or> c = CHR ''-''), rx_digits 2, Opt (rx_char (CHR '':'')), rx_digits 2])),
     Bound]"

definition RE_IP_PORT :: rx where
  "RE_IP_PORT = (let part = Many 1 (Some 3) py_digit; dot = rx_char (CHR ''.'') in
     rx_seq [Bound, part, dot, part, dot, part, dot, part, Opt (rx_seq [rx_char (CHR '':''), Many 1 None py_digit]), Bound])"

definition RE_LINE_NUM :: rx where
  "RE_LINE_NUM = rx_seq [rx_lit ''line '', Many 1 None py_digit]"

definition RE_NUM :: rx where
  "RE_NUM = rx_seq [Bound, Many 1 None py_digit, Opt (rx_seq [rx_char (CHR ''.''), Many 1 None py_digit]), Bound]"

definition RE_WHITESPACE :: rx where
  "RE_WHITESPACE = Many 1 None py_space"

definition RE_PLAINTEXT_ERROR :: rx where
  "RE_PLAINTEXT_ERROR = rx_seq [Bound,
     Alt (rx_word ''ERROR'') (Alt (rx_word ''CRITICAL'') (Alt (rx_word ''FATAL'') (Alt (rx_word ''Exception'')
       (Alt (rx_word ''Traceback'') (Seq (Many 1 None word_char) (rx_word ''Error'')))))), Bound]"

definition normalize_message :: "string \<Rightarrow> string" where
  "normalize_message message =
     (let sub = (\<lambda>r rep s. rx_sub r rep None s) in
      py_strip (sub RE_WHITESPACE '' '' (sub RE_NUM ''<NUM>'' (sub RE_LINE_NUM ''line <NUM>'' (sub RE_IP_PORT ''<IP>''
        (sub RE_TIMESTAMP ''<TIMESTAMP>'' (sub RE_ADDR ''<ADDR>'' (sub RE_UUID ''<UUID>'' message))))))))"

definition compute_fingerprint :: "(string \<Rightarrow> string) \<Rightarrow> string \<Rightarrow> string" where
  "compute_fingerprint sha256 message = take 16 (sha256 message)"

section \<open>Entries\<close>

definition ERROR_LEVELS :: "string list" where
  "ERROR_LEVELS = [''error'', ''err'', ''critical'', ''fatal'', ''exception'']"

text \<open>The first of the keys with a true value, or the value of the last one.\<close>

definition first_of :: "string list \<Rightarrow> (string \<times> PyVal) list \<Rightarrow> PyVal" where
  "first_of ks d = foldr (\<lambda>k v. py_or (get_or k PNone d) v) (butlast ks) (get_or (last ks) PNone d)"

text \<open>The message of a structured entry, if it is an error; \<open>str(... or "")\<close> of the level.\<close>

definition json_error :: "PyStd \<Rightarrow> string \<Rightarrow> (string \<times> PyVal) list \<Rightarrow> string option" where
  "json_error std cleaned payload =
     (let raw_level = py_lower (py_str std (py_or (first_of [''level'', ''severity'', ''log_level''] payload) (PStr [])));
          has_exc = py_truthy (get_or ''exc_info'' PNone payload) \<or> py_truthy (get_or ''exception'' PNone payload);
          is_5xx = (case get_or ''status_code'' PNone payload of PInt n \<Rightarrow> 500 \<le> n | _ \<Rightarrow> False) in
      if raw_level \<in> set ERROR_LEVELS \<or> has_exc \<or> is_5xx then
        (case first_of [''event'', ''message'', ''msg'', ''error'', ''detail''] payload of
           PNone \<Rightarrow> Some cleaned | msg \<Rightarrow> Some (py_str std msg))
      else None)"

text \<open>\<open>(is_error, message)\<close> as an option; a payload that is no object fails at \<open>get\<close> and is read as plain text.\<close>

definition line_error :: "Monitor \<Rightarrow> string \<Rightarrow> string option" where
  "line_error mo line =
     (let cleaned = py_strip line in
      if cleaned = [] then None
      else
        (let plain = (if rx_search RE_PLAINTEXT_ERROR None cleaned then Some cleaned else None) in
         if hd cleaned = CHR 0x7B \<and> last cleaned = CHR 0x7D then
           (case mo_loads mo cleaned of Some (PDict payload) \<Rightarrow> json_error (mo_std mo) cleaned payload | _ \<Rightarrow> plain)
         else plain))"

text \<open>The time of an entry in nanoseconds; one that cannot be read is the time of reading.\<close>

definition entry_time :: "Monitor \<Rightarrow> instant \<Rightarrow> PyVal \<Rightarrow> instant" where
  "entry_time mo now ts =
     (case bindE (float_of_val mo ts) (\<lambda>f. from_timestamp (case f of Finite r \<Rightarrow> Finite (r / 1000000000) | x \<Rightarrow> x)) of
        Inr t \<Rightarrow> t | Inl _ \<Rightarrow> now)"

definition parse_log_entry :: "Monitor \<Rightarrow> instant \<Rightarrow> string \<Rightarrow> PyVal \<Rightarrow> string option \<times> instant" where
  "parse_log_entry mo now line ts = (line_error mo line, entry_time mo now ts)"

section \<open>The query\<close>

definition loki_query_range :: "Monitor \<Rightarrow> string \<Rightarrow> instant \<Rightarrow> instant \<Rightarrow> int \<Rightarrow> (string \<times> PyVal) list m_act" where
  "loki_query_range mo query start end_time limit =
     abind (monitor_get mo (LogQuery query (py_int (start * 1000000000)) (py_int (end_time * 1000000000)) limit) ''Loki query'')
       (\<lambda>v. alift (case v of PDict d \<Rightarrow> Inr d | _ \<Rightarrow> observability_error [''Unexpected Loki response type'']))"

text \<open>The entries of all streams: time and line.\<close>

definition stream_entries :: "PyVal \<Rightarrow> (PyVal \<times> PyVal) list" where
  "stream_entries stream =
     (case stream of
        PDict d \<Rightarrow>
          (case get_or ''values'' (PColl []) d of
             PColl items \<Rightarrow> List.map_filter (\<lambda>i. case i of PColl (t # l # _) \<Rightarrow> Some (t, l) | _ \<Rightarrow> None) items
           | _ \<Rightarrow> [])
      | _ \<Rightarrow> [])"

definition log_entries :: "(string \<times> PyVal) list \<Rightarrow> PyExc + (PyVal \<times> PyVal) list" where
  "log_entries data =
     bindE (as_dict (get_or ''data'' (PDict []) data)) (\<lambda>d.
       Inr (case get_or ''result'' (PColl []) d of PColl streams \<Rightarrow> concat (map stream_entries streams) | _ \<Rightarrow> []))"

text \<open>The errors among them: the normal form of the message and the time.\<close>

definition error_of :: "Monitor \<Rightarrow> (nat \<Rightarrow> instant) \<Rightarrow> nat \<times> PyVal \<times> PyVal \<Rightarrow> (string \<times> instant) option" where
  "error_of mo clock entry =
     (case entry of (i, ts, line) \<Rightarrow>
        (case parse_log_entry mo (clock i) (py_str (mo_std mo) line) ts of
           (Some (c # cs), t) \<Rightarrow> Some (normalize_message (c # cs), t)
         | _ \<Rightarrow> None))"

definition log_errors :: "Monitor \<Rightarrow> (nat \<Rightarrow> instant) \<Rightarrow> (PyVal \<times> PyVal) list \<Rightarrow> (string \<times> instant) list" where
  "log_errors mo clock entries = List.map_filter (error_of mo clock) (enumerate 0 entries)"

section \<open>Signatures\<close>

type_synonym groups = "(string \<times> ErrorSignature) list"

definition add_error :: "(string \<Rightarrow> string) \<Rightarrow> string \<Rightarrow> groups \<Rightarrow> string \<times> instant \<Rightarrow> groups" where
  "add_error sha256 service groups e =
     (let fp = compute_fingerprint sha256 (fst e); t = snd e in
      case map_of groups fp of
        None \<Rightarrow> dict_put fp \<lparr>sig_fingerprint = fp, sig_message = fst e, sig_service = service, sig_count = 1,
          sig_first_seen = t, sig_last_seen = t\<rparr> groups
      | Some g \<Rightarrow> dict_put fp (g\<lparr>sig_count := sig_count g + 1,
          sig_first_seen := (if t < sig_first_seen g then t else sig_first_seen g),
          sig_last_seen := (if sig_last_seen g < t then t else sig_last_seen g)\<rparr>) groups)"

text \<open>\<open>sort(key=lambda s: (s.count, s.last_seen), reverse=True)\<close>, which keeps the order of equal ones.\<close>

definition sort_signatures :: "ErrorSignature list \<Rightarrow> ErrorSignature list" where
  "sort_signatures sigs = sort_key (\<lambda>s. - sig_count s) (sort_key (\<lambda>s. - sig_last_seen s) sigs)"

definition signatures_of :: "(string \<Rightarrow> string) \<Rightarrow> string \<Rightarrow> (string \<times> instant) list \<Rightarrow> ErrorSignature list" where
  "signatures_of sha256 service errors = sort_signatures (map snd (foldl (add_error sha256 service) [] errors))"

definition log_query :: "string \<Rightarrow> string \<Rightarrow> string" where
  "log_query namespace service = fstr [''{namespace='', dquote namespace, '', app='', dquote service, ''}'']"

definition error_signatures :: "Monitor \<Rightarrow> string \<Rightarrow> instant \<Rightarrow> string \<Rightarrow> instant option \<Rightarrow> ErrorSignature list m_act" where
  "error_signatures mo service since namespace until =
     abind (case until of Some t \<Rightarrow> aret t | None \<Rightarrow> aask (mo_now mo)) (\<lambda>given.
     abind (loki_query_range mo (log_query namespace service) (min since given) (max since given) 1000) (\<lambda>data.
     abind (alift (log_entries data)) (\<lambda>entries.
     abind (aask (mo_wall mo)) (\<lambda>clock.
       aret (signatures_of (mo_sha256 mo) service (log_errors mo clock entries))))))"

section \<open>The signatures are the errors, gathered\<close>

definition occurrences :: "(string \<Rightarrow> string) \<Rightarrow> (string \<times> instant) list \<Rightarrow> string \<Rightarrow> (string \<times> instant) list" where
  "occurrences sha256 errors fp = filter (\<lambda>e. compute_fingerprint sha256 (fst e) = fp) errors"

definition gathered :: "(string \<Rightarrow> string) \<Rightarrow> string \<Rightarrow> (string \<times> instant) list \<Rightarrow> string \<Rightarrow> ErrorSignature" where
  "gathered sha256 service errors fp =
     (let occ = occurrences sha256 errors fp in
      \<lparr>sig_fingerprint = fp, sig_message = fst (hd occ), sig_service = service, sig_count = int (length occ),
       sig_first_seen = Min (snd ` set occ), sig_last_seen = Max (snd ` set occ)\<rparr>)"

lemma occurrences_snoc: "occurrences sha256 (es @ [e]) fp =
    occurrences sha256 es fp @ (if compute_fingerprint sha256 (fst e) = fp then [e] else [])"
  by (simp add: occurrences_def)

lemma extremes_insert:
  fixes t :: "'a::linorder"
  assumes "finite A" "A \<noteq> {}"
  shows "Min (insert t A) = (if t < Min A then t else Min A)" "Max (insert t A) = (if Max A < t then t else Max A)"
  unfolding Min_insert [OF assms] Max_insert [OF assms] min_def max_def
  by (metis linorder_not_less order_antisym order_less_imp_le)+

lemma gathered_snoc:
  assumes "compute_fingerprint sha256 (fst e) = fp" "occurrences sha256 es fp \<noteq> []"
  shows "gathered sha256 service (es @ [e]) fp = (let g = gathered sha256 service es fp; t = snd e in
    g\<lparr>sig_count := sig_count g + 1, sig_first_seen := (if t < sig_first_seen g then t else sig_first_seen g),
      sig_last_seen := (if sig_last_seen g < t then t else sig_last_seen g)\<rparr>)"
proof -
  have f: "finite (snd ` set (occurrences sha256 es fp))" "snd ` set (occurrences sha256 es fp) \<noteq> {}" using assms(2) by auto
  show ?thesis
    using assms by (simp add: gathered_def occurrences_snoc Let_def extremes_insert [OF f] del: Min_less_iff Max_less_iff Min_gr_iff Max_gr_iff)
qed

lemma groups_gathered:
  "distinct (map fst (foldl (add_error sha256 service) [] errors)) \<and>
   (\<forall>fp. map_of (foldl (add_error sha256 service) [] errors) fp =
     (if occurrences sha256 errors fp = [] then None else Some (gathered sha256 service errors fp)))"
proof (induction errors rule: rev_induct)
  case Nil
  show ?case by (simp add: occurrences_def)
next
  case (snoc e es)
  define gs fp where "gs = foldl (add_error sha256 service) [] es" and "fp = compute_fingerprint sha256 (fst e)"
  have other: "gathered sha256 service (es @ [e]) k = gathered sha256 service es k" if "k \<noteq> fp" for k
    using that by (auto simp: gathered_def occurrences_snoc fp_def)
  have own: "map_of (add_error sha256 service gs e) fp = Some (gathered sha256 service (es @ [e]) fp)"
  proof (cases "occurrences sha256 es fp = []")
    case True
    then have "map_of gs fp = None" using snoc.IH by (simp add: gs_def)
    then show ?thesis using True by (simp add: add_error_def Let_def fp_def gathered_def occurrences_snoc)
  next
    case False
    then have "map_of gs fp = Some (gathered sha256 service es fp)" using snoc.IH by (simp add: gs_def)
    then show ?thesis using gathered_snoc [of sha256 e fp es service] False by (simp add: add_error_def Let_def fp_def)
  qed
  have rest: "map_of (add_error sha256 service gs e) k = map_of gs k" if "k \<noteq> fp" for k
    using that by (simp add: add_error_def Let_def fp_def split: option.split)
  have dist: "distinct (map fst (add_error sha256 service gs e))"
  proof -
    have "distinct (map fst gs)" using snoc.IH by (simp add: gs_def)
    then show ?thesis unfolding add_error_def Let_def by (simp split: option.split)
  qed
  have "map_of (add_error sha256 service gs e) k =
      (if occurrences sha256 (es @ [e]) k = [] then None else Some (gathered sha256 service (es @ [e]) k))" for k
  proof (cases "k = fp")
    case False
    then show ?thesis using rest other snoc.IH by (simp add: gs_def occurrences_snoc fp_def)
  qed (use own in \<open>simp add: occurrences_snoc fp_def\<close>)
  then show ?case using dist by (simp add: gs_def)
qed

lemma lexicographic_order:
  fixes f :: "'a \<Rightarrow> 'b::linorder" and g :: "'a \<Rightarrow> 'c::linorder"
  assumes "sorted (map f zs)" "\<And>k. sorted (map g (filter (\<lambda>x. f x = k) zs))"
  shows "sorted_wrt (\<lambda>a b. f a \<le> f b \<and> (f a = f b \<longrightarrow> g a \<le> g b)) zs"
  using assms
proof (induction zs)
  case (Cons a zs)
  have "sorted (map g (filter (\<lambda>x. f x = k) zs))" for k
    using Cons.prems(2) [of k] by (cases "f a = k") simp_all
  then show ?case using Cons.IH Cons.prems(1) Cons.prems(2) [of "f a"] by auto
qed simp

lemma sorted_signatures:
  "sorted_wrt (\<lambda>a b. sig_count b \<le> sig_count a \<and> (sig_count a = sig_count b \<longrightarrow> sig_last_seen b \<le> sig_last_seen a)) (sort_signatures sigs)"
proof -
  define ys where "ys = sort_key (\<lambda>s. - sig_last_seen s) sigs"
  have "sorted (map (\<lambda>s. - sig_last_seen s) (filter (\<lambda>s. - sig_count s = k) (sort_key (\<lambda>s. - sig_count s) ys)))" for k
    unfolding sort_key_stable unfolding ys_def by (rule sorted_filter) simp
  from lexicographic_order [OF _ this] show ?thesis
    by (auto simp: sort_signatures_def ys_def [symmetric] elim: sorted_wrt_mono_rel [rotated])
qed

lemma sum_occurrences:
  assumes "finite K" "(\<lambda>e. compute_fingerprint sha256 (fst e)) ` set errors \<subseteq> K"
  shows "(\<Sum>k \<in> K. int (length (occurrences sha256 errors k))) = int (length errors)"
  using assms(2)
proof (induction errors)
  case (Cons e errors)
  have "(\<Sum>k \<in> K. int (length (occurrences sha256 (e # errors) k))) =
      (\<Sum>k \<in> K. (if compute_fingerprint sha256 (fst e) = k then 1 else 0) + int (length (occurrences sha256 errors k)))"
    by (rule sum.cong) (auto simp: occurrences_def)
  also have "\<dots> = 1 + int (length errors)" using Cons assms(1) by (simp add: sum.distrib)
  finally show ?case by simp
qed (simp add: occurrences_def)

lemma signatures_gathered:
  assumes "sigs = signatures_of sha256 service errors"
  shows "distinct (map sig_fingerprint sigs) \<and>
    set sigs = gathered sha256 service errors ` (\<lambda>e. compute_fingerprint sha256 (fst e)) ` set errors \<and>
    sum_list (map sig_count sigs) = int (length errors)"
proof -
  define gs where "gs = foldl (add_error sha256 service) [] errors"
  have dist: "distinct (map fst gs)" and look: "\<And>fp. map_of gs fp =
      (if occurrences sha256 errors fp = [] then None else Some (gathered sha256 service errors fp))"
    using groups_gathered unfolding gs_def by blast+
  have entry: "s = gathered sha256 service errors fp \<and> occurrences sha256 errors fp \<noteq> []" if "(fp, s) \<in> set gs" for fp s
    using look [of fp] map_of_is_SomeI [OF dist that] by (simp split: if_splits)
  have keys: "set (map fst gs) = (\<lambda>e. compute_fingerprint sha256 (fst e)) ` set errors"
  proof (rule set_eqI)
    fix fp
    have "fp \<in> set (map fst gs) \<longleftrightarrow> map_of gs fp \<noteq> None" by (simp add: map_of_eq_None_iff)
    moreover have "map_of gs fp \<noteq> None \<longleftrightarrow> occurrences sha256 errors fp \<noteq> []" using look [of fp] by simp
    moreover have "occurrences sha256 errors fp \<noteq> [] \<longleftrightarrow> fp \<in> (\<lambda>e. compute_fingerprint sha256 (fst e)) ` set errors"
      by (auto simp: occurrences_def filter_empty_conv)
    ultimately show "fp \<in> set (map fst gs) \<longleftrightarrow> fp \<in> (\<lambda>e. compute_fingerprint sha256 (fst e)) ` set errors" by blast
  qed
  have perm: "mset sigs = mset (map snd gs)" by (simp add: assms signatures_of_def sort_signatures_def gs_def)
  have snds: "map snd gs = map (gathered sha256 service errors) (map fst gs)" using entry by (auto simp: map_eq_conv)
  have fps: "map sig_fingerprint (map snd gs) = map fst gs" unfolding snds by (simp add: gathered_def Let_def comp_def)
  have "distinct (map sig_fingerprint sigs)"
    using dist perm fps by (metis mset_eq_imp_distinct_iff mset_map)
  moreover have "set sigs = gathered sha256 service errors ` set (map fst gs)"
    using perm snds by (metis image_set mset_eq_setD)
  moreover have "sum_list (map sig_count sigs) = sum_list (map sig_count (map snd gs))"
    using perm by (metis mset_map sum_mset_sum_list)
  moreover have "sum_list (map sig_count (map snd gs)) = (\<Sum>k \<in> set (map fst gs). int (length (occurrences sha256 errors k)))"
    unfolding snds using sum_list_distinct_conv_sum_set [OF dist, of "\<lambda>k. int (length (occurrences sha256 errors k))"]
    by (simp add: gathered_def Let_def comp_def)
  ultimately show ?thesis using sum_occurrences [of "set (map fst gs)" sha256 errors] keys by simp
qed

text \<open>C38: the signatures that are returned are the errors among the entries of the service's answer, gathered by the
  fingerprint of their normal form: one signature for each fingerprint, whose count is the number of errors that have it
  and whose times are the earliest and the latest of these; no error is lost or counted twice, and the more frequent
  signatures come first, the more recent ones first among equally frequent ones.\<close>

theorem signatures_gather_errors:
  assumes "error_signatures mo service since namespace (Some until) h = (Inr sigs, h')"
  shows "\<exists>data entries. let c = LogQuery (log_query namespace service) (py_int (min since until * 1000000000))
        (py_int (max since until * 1000000000)) 1000; errors = log_errors mo (mo_wall mo h') entries in
    h' = h @ [(c, True)] \<and> checked_reply mo ''Loki query'' (mo_http mo c h) = Inr (PDict data) \<and> log_entries data = Inr entries \<and>
    distinct (map sig_fingerprint sigs) \<and>
    set sigs = gathered (mo_sha256 mo) service errors ` (\<lambda>e. compute_fingerprint (mo_sha256 mo) (fst e)) ` set errors \<and>
    sum_list (map sig_count sigs) = int (length errors) \<and>
    sorted_wrt (\<lambda>a b. sig_count b \<le> sig_count a \<and> (sig_count a = sig_count b \<longrightarrow> sig_last_seen b \<le> sig_last_seen a)) sigs"
proof -
  define c where "c = LogQuery (log_query namespace service) (py_int (min since until * 1000000000))
      (py_int (max since until * 1000000000)) 1000"
  obtain v data entries where v: "checked_reply mo ''Loki query'' (mo_http mo c h) = Inr v" "h' = h @ [(c, True)]"
    and data: "Inr data = (case v of PDict d \<Rightarrow> Inr d | _ \<Rightarrow> observability_error [''Unexpected Loki response type''])"
    and entries: "Inr entries = log_entries data"
    and sigs: "sigs = signatures_of (mo_sha256 mo) service (log_errors mo (mo_wall mo h') entries)"
    using assms by (auto simp: error_signatures_def loki_query_range_def monitor_get_def c_def [symmetric] act_simps)
  have "v = PDict data" using data by (cases v) (simp_all add: observability_error_def)
  then show ?thesis
    using v entries [symmetric] signatures_gathered [OF sigs] sorted_signatures
    unfolding Let_def c_def [symmetric] sigs signatures_of_def by blast
qed

section \<open>Durations are kept\<close>

lemma durations_kept:
  "normalize_message ''id 7 after 30s at 0xff, line 12'' = ''id <NUM> after 30s at <ADDR>, line <NUM>''"
  by code_simp


section \<open>A log\<close>

definition sample_log :: Monitor where
  "sample_log = sample_monitor\<lparr>mo_http := \<lambda>c h. Inr \<lparr>hr_status = 200, hr_text = [], hr_json = Inr (PDict [(''data'', PDict
     [(''result'', PColl [PDict [(''values'', PColl [PColl [PInt 2000000000, PStr ''Error 1''],
        PColl [PInt 1000000000, PStr ''Error 2''], PColl [PInt 3000000000, PStr ''fine'']])]])])])\<rparr>\<rparr>"

definition sample_signature :: ErrorSignature where
  "sample_signature = \<lparr>sig_fingerprint = ''Error <NUM>'', sig_message = ''Error <NUM>'', sig_service = ''web'', sig_count = 2,
     sig_first_seen = 1, sig_last_seen = 2\<rparr>"

lemma sample_lines: "line_error sample_log ''Error 1'' = Some ''Error 1''" "line_error sample_log ''Error 2'' = Some ''Error 2''"
  "line_error sample_log ''fine'' = None" "normalize_message ''Error 1'' = ''Error <NUM>''" "normalize_message ''Error 2'' = ''Error <NUM>''"
  by code_simp+

lemma sample_signatures: "fst (error_signatures sample_log ''web'' 0 ''ns'' (Some 9) []) = Inr [sample_signature]"
proof -
  have times: "entry_time sample_log 0 (PInt 2000000000) = 2" "entry_time sample_log 0 (PInt 1000000000) = 1"
    by (simp_all add: entry_time_def float_of_val_def from_timestamp_def)
  have errors: "log_errors sample_log (\<lambda>_. 0) [(PInt 2000000000, PStr ''Error 1''), (PInt 1000000000, PStr ''Error 2''),
      (PInt 3000000000, PStr ''fine'')] = [(''Error <NUM>'', 2), (''Error <NUM>'', 1)]"
    by (simp add: log_errors_def error_of_def parse_log_entry_def sample_lines times map_filter_simps)
  have "signatures_of (\<lambda>s. s) ''web'' [(''Error <NUM>'', 2), (''Error <NUM>'', 1)] = [sample_signature]" by code_simp
  then show ?thesis using errors
    by (simp add: error_signatures_def loki_query_range_def monitor_get_def checked_reply_def log_entries_def stream_entries_def
        as_dict_def get_or_def abind_def acall_def alift_def aask_def aret_def map_filter_simps sample_log_def sample_monitor_def)
qed

lemma signatures_gather_errors_witness:
  "\<exists>h'. error_signatures sample_log ''web'' 0 ''ns'' (Some 9) [] = (Inr [sample_signature], h') \<and>
    (\<exists>data entries. let c = LogQuery (log_query ''ns'' ''web'') (py_int (min 0 9 * 1000000000)) (py_int (max 0 9 * 1000000000)) 1000 in
      h' = [] @ [(c, True)] \<and> log_entries data = Inr entries \<and>
      sum_list (map sig_count [sample_signature]) = int (length (log_errors sample_log (mo_wall sample_log h') entries)))"
proof -
  obtain h' where h': "error_signatures sample_log ''web'' 0 ''ns'' (Some 9) [] = (Inr [sample_signature], h')"
    using sample_signatures by (metis fst_conv surj_pair)
  from signatures_gather_errors [OF this] h' show ?thesis unfolding Let_def by blast
qed

end
