(* ===== verification/Measured.thy ===== *)
theory Measured
  imports Rehearsal Monitoring
begin

text \<open>
  The blast tracker (theory Rehearsal) on the telemetry of Prometheus (theory Monitoring).  What the tracker relies on of
  a source of windows is the locale \<open>window_source\<close>; the adapter of Prometheus provides it.
\<close>

section \<open>A source of windows\<close>

definition unit_rate :: "MetricWindow \<Rightarrow> bool" where
  "unit_rate w \<longleftrightarrow> 0 \<le> or_zero (mw_error_rate w) \<and> or_zero (mw_error_rate w) \<le> 1"

lemma error_rates_ok_iff: "error_rates_ok ws \<longleftrightarrow> (\<forall>(s, w) \<in> set ws. unit_rate w)"
  by (simp add: error_rates_ok_def unit_rate_def list_all_iff)

lemma set_dict_of: "set (dict_of kvs) \<subseteq> set kvs"
proof -
  have "set (foldl (\<lambda>d kv. dict_put (fst kv) (snd kv) d) d kvs) \<subseteq> set d \<union> set kvs" for d :: "('a \<times> 'b) list"
  proof (induction kvs arbitrary: d)
    case (Cons kv kvs)
    have put: "set (dict_put k v d) \<subseteq> insert (k, v) (set d)" for k v and d :: "('a \<times> 'b) list"
      by (induction d) (auto split: if_splits)
    show ?case using Cons.IH [of "dict_put (fst kv) (snd kv) d"] put [of "fst kv" "snd kv" d] by auto
  qed simp
  from this [of "[]"] show ?thesis by (simp add: dict_of_def)
qed

lemma fallback_unit: "unit_rate (fallback_window svc since until)"
  by (simp add: unit_rate_def fallback_window_def or_zero_def)

locale window_source =
  fixes source :: "string \<Rightarrow> instant \<Rightarrow> string \<Rightarrow> instant \<Rightarrow> OCall trace \<Rightarrow> PyExc + MetricWindow"
  assumes rate_in_unit: "source svc since namespace until h = Inr w \<Longrightarrow> unit_rate w"
begin

lemma fetched_unit:
  assumes "to_metric_window tel = source" "fetch_windows tel ns since until services h = (Inr ws, h')"
  shows "error_rates_ok ws"
proof -
  let ?fetch = "\<lambda>svc. recovering tel (abind (acall (OMetric svc since ns until) (to_metric_window tel svc since ns until))
      (\<lambda>w. aret (svc, w))) (svc, fallback_window svc since until)"
  have one: "wp (?fetch svc) (\<lambda>y _. unit_rate (snd y) \<and> True) (\<lambda>_ _. True) h" for svc h
    unfolding recovering_def assms(1)
    by (rule wpI) (auto simp: act_simps fallback_unit dest: rate_in_unit split: if_splits)
  obtain xs where xs: "amap ?fetch services h = (Inr xs, h')" "ws = dict_of xs"
    using assms(2) by (auto simp: fetch_windows_def act_simps)
  have "list_all2 (\<lambda>_ y. unit_rate (snd y)) services xs"
    using wpD [OF wp_amap [where R = "\<lambda>_ y. unit_rate (snd y)" and I = "\<lambda>_. True", OF one] xs(1)] by simp
  then have "\<forall>y \<in> set xs. unit_rate (snd y)" by (metis in_set_conv_nth list_all2_conv_all_nth)
  then show ?thesis unfolding error_rates_ok_iff xs(2) using set_dict_of by fastforce
qed

lemma baseline_unit:
  assumes "to_metric_window tel = source" "capture_baseline tel cfg g ns services when lookback h = (Inr b, h')"
  shows "error_rates_ok (eb_baselines b)"
  using assms(2) by (auto simp: capture_baseline_def Let_def act_simps intro: fetched_unit [OF assms(1)])

lemma post_apply_unit:
  assumes "to_metric_window tel = source" "capture_post_apply tel g ns applied until services h = (Inr ws, h')"
  shows "error_rates_ok ws"
  using assms(2) by (auto simp: capture_post_apply_def act_simps intro: fetched_unit [OF assms(1)])

lemma measured_sound:
  assumes "to_metric_window tel = source" "shares_ok g"
    and "capture_baseline tel cfg g ns services when lookback h0 = (Inr b, h1)"
    and "evaluate_environment tel cfg g p ns b applied until services' h = (Inr e, h')"
    and "action p \<noteq> NO_ACTION" "target_resources p \<noteq> []" "\<not> no_target (workload (params p))"
  shows "\<exists>rs post. reachable_set g (workload (params p)) = Inr rs \<and> set (be_reachable_set e) = set rs \<and>
    be_observed_blast_set e = sorted_set (filter (\<lambda>s. s \<in> set (blast_affected_services cfg (eb_baselines b) post)) rs) \<and>
    0 \<le> be_blast_radius e \<and> be_blast_radius e \<le> 1 \<and>
    - 1 \<le> be_downstream_error_delta e \<and> be_downstream_error_delta e \<le> 1 \<and>
    (\<exists>h2. capture_post_apply tel g ns applied until services' h = (Inr post, h2))"
proof -
  obtain post h2 where post: "capture_post_apply tel g ns applied until services' h = (Inr post, h2)"
    and lift: "graph_lift (evaluate_blast cfg g p (eb_baselines b) post) = Inr e"
    using assms(4) by (auto simp: evaluate_environment_def abind_Inr_iff alift_iff)
  have "evaluate_blast cfg g p (eb_baselines b) post = Inr e"
    using lift by (auto simp: graph_lift_def split: sum.splits)
  from evaluate_blast_sound [OF this assms(2) baseline_unit [OF assms(1,3)] post_apply_unit [OF assms(1) post] assms(5,6,7)]
  show ?thesis using post by blast
qed

end

section \<open>Prometheus as a source\<close>

text \<open>\<open>past\<close> gives the calls that Prometheus has seen when the tracker has made those of its own trace.\<close>

definition prometheus_source ::
    "Monitor \<Rightarrow> (OCall trace \<Rightarrow> MonitorCall trace) \<Rightarrow> string \<Rightarrow> instant \<Rightarrow> string \<Rightarrow> instant \<Rightarrow> OCall trace \<Rightarrow> PyExc + MetricWindow" where
  "prometheus_source mo past svc since namespace until h = fst (get_metric_window mo svc since namespace (Some until) (past h))"

interpretation prometheus: window_source "prometheus_source mo past" for mo past
proof
  fix svc since namespace until h w
  assume "prometheus_source mo past svc since namespace until h = Inr w"
  then obtain h' where "get_metric_window mo svc since namespace (Some until) (past h) = (Inr w, h')"
    unfolding prometheus_source_def by (metis prod.collapse)
  from window_rate [OF this] show "unit_rate w" by (auto simp: unit_rate_def or_zero_def)
qed



definition sample_telemetry :: Telemetry where
  "sample_telemetry = silent_telemetry\<lparr>to_metric_window := prometheus_source sample_monitor (\<lambda>_. [])\<rparr>"

definition sample_graph :: ServiceGraph where
  "sample_graph = mk_graph [''db'', ''gw''] [(''gw'', ''db'')] []"

definition sample_restart :: RemediationPlan where
  "sample_restart = RemediationPlan ''p'' 0 RESTART_WORKLOAD \<lparr>workload = ''db'', target_commit = None, replica_delta = None,
     flag_name = None, config_key = None, config_value = None\<rparr>
     [\<lparr>ref_namespace = ''ust-prod'', ref_kind = Deployment, ref_name = ''db''\<rparr>] [] None ''why'' Planner None"


end
