(* ===== verification/Runner.thy ===== *)
theory Runner
  imports Orchestrator Arbiter Deploys Logs
begin

text \<open>
  What a run of a scenario prints (\<^verbatim>\<open>runner.py\<close>): the reading of a scenario, the scoreboard of the candidates and the summary
  of the run record.  The formats of numbers are those of \<open>PyStd\<close>.
\<close>

section \<open>Scenarios\<close>

record ScenarioDefinition =
  sd_id :: string
  sd_origin :: string
  sd_failure_class :: string
  sd_description :: string
  sd_injection :: "(string \<times> PyVal) list option"
  sd_alert_template :: "(string \<times> PyVal) list"
  sd_expected_remediation_class :: string
  sd_expected_escalation :: bool
  sd_ground_truth_note :: string
  sd_migration_boundary :: bool

definition parse_scenario_data :: "PyStd \<Rightarrow> (string \<times> PyVal) list \<Rightarrow> string \<Rightarrow> ScenarioDefinition" where
  "parse_scenario_data std data fallback_id =
     (let sid = py_strip (py_str std (py_or (get_or ''id'' PNone data) (PStr fallback_id)));
          text = (\<lambda>k d. py_str std (get_or k (PStr d) data));
          escalation = py_truthy (get_or ''expected_escalation'' (PBool False) data) in
      \<lparr>sd_id = sid, sd_origin = text ''origin'' ''seed'', sd_failure_class = text ''failure_class'' ''bad_deploy'',
       sd_description = text ''description'' (''Incident scenario '' @ sid),
       sd_injection = (case get_or ''injection'' PNone data of PDict d \<Rightarrow> Some d | _ \<Rightarrow> None),
       sd_alert_template = (case get_or ''alert_template'' PNone data of PDict d \<Rightarrow> d
         | _ \<Rightarrow> [(''title'', PStr (''SLO breach for '' @ sid)), (''service'', PStr ''edge-gateway''), (''severity'', PStr ''critical'')]),
       sd_expected_remediation_class = text ''expected_remediation_class'' ''rollback_deploy'',
       sd_expected_escalation = escalation, sd_ground_truth_note = text ''ground_truth_note'' [],
       sd_migration_boundary = py_truthy (get_or ''migration_boundary''
         (PBool (contains_sub sid ''migration'' \<or> escalation)) data)\<rparr>)"

text \<open>The definition of a scenario that only the templates know; its token is normalised like a scenario's name.\<close>

definition template_scenario :: "string \<Rightarrow> string \<Rightarrow> string \<Rightarrow> string \<Rightarrow> string \<Rightarrow> ScenarioDefinition" where
  "template_scenario token sid title service severity =
     (let is_mig = contains_sub token ''migration'' in
      \<lparr>sd_id = sid, sd_origin = ''seed'', sd_failure_class = ''bad_deploy'', sd_description = ''Synthetic scenario '' @ sid,
       sd_injection = Some [(''kind'', PStr ''deploy_image''), (''target'', PStr ''data-service''),
         (''params'', PDict [(''image_tag'', PStr ''regression'')]), (''settle_seconds'', PInt 15)],
       sd_alert_template = [(''title'', PStr title), (''service'', PStr service), (''severity'', PStr severity)],
       sd_expected_remediation_class = ''rollback_deploy'', sd_expected_escalation = is_mig,
       sd_ground_truth_note = ''Rollback to previous stable release'', sd_migration_boundary = is_mig\<rparr>)"

section \<open>The scoreboard\<close>

text \<open>\<open>sorted(scores, key=lambda s: (s.disqualified, s.composite))\<close>; \<open>False\<close> comes before \<open>True\<close>.\<close>

definition sorted_scores :: "CandidateScore list \<Rightarrow> CandidateScore list" where
  "sorted_scores scores = sort_key (\<lambda>s. if disqualified s then (1 :: nat) else 0) (sort_key composite scores)"

definition rank_by_plan :: "CandidateScore list \<Rightarrow> (string \<times> nat) list" where
  "rank_by_plan scores = dict_of (map (\<lambda>(i, s). (cs_plan_id s, i)) (enumerate 1 (sorted_scores scores)))"

definition score_by_plan :: "CandidateScore list \<Rightarrow> (string \<times> CandidateScore) list" where
  "score_by_plan scores = dict_of (map (\<lambda>s. (cs_plan_id s, s)) scores)"

definition rank_str :: "CandidateScore list \<Rightarrow> string \<Rightarrow> string" where
  "rank_str scores pid = (case map_of (rank_by_plan scores) pid of Some n \<Rightarrow> ''#'' @ nat_str n | None \<Rightarrow> ''-'')"

definition status_str :: "CandidateScore list \<Rightarrow> string \<Rightarrow> string" where
  "status_str scores pid =
     (let rank = rank_str scores pid; ranked = (if rank = ''#1'' then fstr [''winner ('', rank, '')''] else fstr [''viable ('', rank, '')'']) in
      case map_of (score_by_plan scores) pid of
        Some sc \<Rightarrow>
          if disqualified sc then
            fstr [''disqualified ('', case disqualification_reason sc of Some (c # cs) \<Rightarrow> c # cs | _ \<Rightarrow> ''rule'', '')'']
          else ranked
      | None \<Rightarrow> ranked)"

definition scoreboard_row :: "PyStd \<Rightarrow> CandidateScore list \<Rightarrow> CandidateEvidence \<Rightarrow> string list" where
  "scoreboard_row std scores ev =
     [ev_plan_id ev, ev_twin_id ev, if ev_recovered ev then ''YES'' else ''NO'',
      case ev_recovery_seconds ev of Some r \<Rightarrow> std_fixed std 1 r @ ''s'' | None \<Rightarrow> ''N/A'',
      if ev_observed_blast_set ev = [] then ''none'' else join '','' (ev_observed_blast_set ev),
      (if 0 \<le> ev_downstream_error_delta ev then ''+'' else []) @ std_fixed std 3 (ev_downstream_error_delta ev),
      std_fixed std 1 (drop_ratio (ev_mirror_stats ev) * 100) @ ''%'',
      case map_of (score_by_plan scores) (ev_plan_id ev) of Some sc \<Rightarrow> std_fixed std 4 (composite sc) | None \<Rightarrow> ''N/A'',
      status_str scores (ev_plan_id ev)]"

definition HEADERS :: "string list" where
  "HEADERS = [''Plan ID'', ''Twin ID'', ''Recovered'', ''Rec. Time'', ''Blast Set'', ''Error Delta'', ''Drop Ratio'', ''Score'', ''Status'']"

text \<open>\<open>s.ljust(n)\<close>\<close>

definition ljust :: "nat \<Rightarrow> string \<Rightarrow> string" where
  "ljust n s = s @ replicate (n - length s) CHR '' ''"

definition col_widths :: "string list list \<Rightarrow> nat list" where
  "col_widths rows = foldl (\<lambda>ws row. map2 max ws (map length row)) (map length HEADERS) rows"

definition table_line :: "nat list \<Rightarrow> string list \<Rightarrow> string" where
  "table_line ws cells = fstr [''| '', join '' | '' (map2 ljust ws cells), '' |'']"

definition separator_line :: "nat list \<Rightarrow> string" where
  "separator_line ws = fstr [''+'', join ''+'' (map (\<lambda>w. replicate (w + 2) CHR ''-'') ws), ''+'']"

definition disqualified_lines :: "CandidateScore list \<Rightarrow> string list" where
  "disqualified_lines scores = List.map_filter (\<lambda>s.
     case disqualification_reason s of
       Some (c # cs) \<Rightarrow> if disqualified s then
         Some (fstr [''Candidate '', cs_plan_id s, '' disqualified with reason '', CHR 0x22 # (c # cs) @ [CHR 0x22]]) else None
     | _ \<Rightarrow> None) scores"

definition scoreboard_lines :: "PyStd \<Rightarrow> CandidateEvidence list \<Rightarrow> CandidateScore list \<Rightarrow> string list" where
  "scoreboard_lines std evidence scores =
     (let rows = map (scoreboard_row std scores) evidence; ws = col_widths rows in
      [separator_line ws, table_line ws HEADERS, separator_line ws] @ map (table_line ws) rows @ [separator_line ws])"

definition format_scoreboard_table :: "PyStd \<Rightarrow> CandidateEvidence list \<Rightarrow> CandidateScore list \<Rightarrow> string" where
  "format_scoreboard_table std evidence scores =
     join [CHR 0x0A] (([CHR 0x0A] @ ''Scoreboard:'') # scoreboard_lines std evidence scores @ disqualified_lines scores)"

section \<open>The summary\<close>

definition margin_str :: "PyStd \<Rightarrow> TournamentResult \<Rightarrow> string" where
  "margin_str std t = (case margin t of Some m \<Rightarrow> std_fixed std 4 m | None \<Rightarrow> ''0.0000'')"

definition tournament_lines :: "PyStd \<Rightarrow> TournamentResult \<Rightarrow> string list" where
  "tournament_lines std t =
     (case (tr_outcome t, winner_plan_id t) of
        (DECIDED, Some (c # w)) \<Rightarrow>
          [fstr [''outcome=decided winner='', c # w, '' margin='', margin_str std t],
           fstr [''scoreboard printed, winner: '', c # w, ''; margin: '', margin_str std t]]
      | (AMBIGUOUS, _) \<Rightarrow> [fstr [''outcome=ambiguous, no winner (margin: '', margin_str std t, '')'']]
      | _ \<Rightarrow> [''outcome=no_viable_candidate, no winner''])"

definition verdict_lines :: "KernelVerdict \<Rightarrow> string list" where
  "verdict_lines v =
     (if verdict v = VETO then
        (let vetoed = map ir_invariant_id (filter (\<lambda>r. ir_satisfied r = Some False) (kv_results v)) in
         [fstr [''kernel verdict = veto ('', if vetoed = [] then ''invariants'' else join '', '' vetoed, '')'']])
      else [''kernel verdict = '' @ py_lower (verdict_value (verdict v))])"

definition outcome_lines :: "RunRecord \<Rightarrow> string list" where
  "outcome_lines r =
     (case run_outcome r of
        EXECUTED \<Rightarrow>
          [''production rolled back; prod probe healthy within 180s; prod_outcome='' @
             (case run_prod_outcome r of Some p \<Rightarrow> prod_outcome_value p | None \<Rightarrow> ''resolved''),
           ''outcome=executed plan='' @ (case prod_applied_plan_id r of Some p \<Rightarrow> p | None \<Rightarrow> ''None'')]
      | ESCALATED \<Rightarrow>
          [''no production change; escalated to PagerDuty'',
           fstr [''outcome=escalated reason='', CHR 0x22 #
             (case run_escalation_reason r of Some (c # cs) \<Rightarrow> c # cs | _ \<Rightarrow> ''Escalated to human operator'') @ [CHR 0x22]]]
      | FAILED \<Rightarrow> [''outcome=failed''])"

definition summary_lines :: "PyStd \<Rightarrow> RunRecord \<Rightarrow> string list" where
  "summary_lines std r =
     (case run_tournament r of Some t \<Rightarrow> tournament_lines std t | None \<Rightarrow> []) @
     (case run_verdict r of Some v \<Rightarrow> verdict_lines v | None \<Rightarrow> []) @ outcome_lines r @
     [fstr [''run record written and immutable: run_id='', run_id r, '' incident_id='', run_incident_id r]]"

definition format_run_summary :: "PyStd \<Rightarrow> RunRecord \<Rightarrow> string" where
  "format_run_summary std r = join [CHR 0x0A] (summary_lines std r)"


section \<open>The table is straight\<close>

lemma length_join: "length (join sep xs) = sum_list (map length xs) + (length xs - 1) * length sep"
  by (induction sep xs rule: join.induct) auto

definition covers_row :: "nat list \<Rightarrow> string list \<Rightarrow> bool" where
  "covers_row ws row \<longleftrightarrow> list_all2 (\<lambda>w cell. length cell \<le> w) ws row"

lemma covers_max:
  assumes "covers_row ws row" "length ls = length ws"
  shows "covers_row (map2 max ws ls) row"
  using assms by (auto simp: covers_row_def list_all2_conv_all_nth le_max_iff_disj)

lemma widths_cover:
  assumes "\<forall>row \<in> set rows. length row = length ws"
  shows "length (foldl (\<lambda>ws row. map2 max ws (map length row)) ws rows) = length ws \<and>
    (\<forall>row. covers_row ws row \<or> row \<in> set rows \<longrightarrow> covers_row (foldl (\<lambda>ws row. map2 max ws (map length row)) ws rows) row)"
  using assms
proof (induction rows arbitrary: ws)
  case (Cons r rows)
  let ?ws = "map2 max ws (map length r)"
  have len: "length ?ws = length ws" using Cons.prems by simp
  have "covers_row ?ws r" using Cons.prems by (auto simp: covers_row_def list_all2_conv_all_nth)
  moreover have "covers_row ?ws row" if "covers_row ws row" for row using covers_max [OF that] Cons.prems by simp
  ultimately show ?case using Cons.IH [of ?ws] Cons.prems len by auto
qed simp

lemma table_line_length:
  assumes "covers_row ws cells"
  shows "length (table_line ws cells) = sum_list ws + (length ws - 1) * 3 + 4"
proof -
  have "map length (map2 ljust ws cells) = ws"
    using assms by (auto simp: covers_row_def ljust_def list_all2_conv_all_nth intro!: nth_equalityI)
  moreover have "length (map2 ljust ws cells) = length ws" using assms by (simp add: covers_row_def list_all2_lengthD)
  ultimately show ?thesis by (simp add: table_line_def fstr_def length_join)
qed

lemma separator_line_length: "ws \<noteq> [] \<Longrightarrow> length (separator_line ws) = sum_list ws + (length ws - 1) * 3 + 4"
proof (induction ws)
  case (Cons w ws)
  have "sum_list (map (\<lambda>w. w + 2) xs) = sum_list xs + 2 * length xs" for xs :: "nat list" by (induction xs) auto
  then show ?case by (simp add: separator_line_def fstr_def length_join comp_def algebra_simps)
qed simp

text \<open>The scoreboard is a straight table: whatever the candidates, their numbers and the formats of these, all lines of the
  table are equally long, those that separate, the headers and the rows.\<close>

theorem scoreboard_straight:
  "\<exists>n. list_all (\<lambda>l. length l = n) (scoreboard_lines std evidence scores)"
proof -
  define rows where "rows = map (scoreboard_row std scores) evidence"
  have "\<forall>row \<in> set rows. length row = length (map length HEADERS)"
    by (auto simp: rows_def scoreboard_row_def HEADERS_def)
  note w = widths_cover [OF this, folded col_widths_def]
  have ws: "col_widths rows \<noteq> []" using w by (auto simp: HEADERS_def)
  have "covers_row (col_widths rows) HEADERS" using w by (simp add: covers_row_def list_all2_conv_all_nth)
  then have "list_all (\<lambda>l. length l = sum_list (col_widths rows) + (length (col_widths rows) - 1) * 3 + 4)
      (scoreboard_lines std evidence scores)"
    using w separator_line_length [OF ws]
    by (auto simp: scoreboard_lines_def Let_def rows_def [symmetric] list_all_iff table_line_length)
  then show ?thesis by blast
qed

section \<open>The winner of the scoreboard\<close>

lemma map_of_dict_of_distinct: "distinct (map fst kvs) \<Longrightarrow> map_of (dict_of kvs) = map_of kvs"
  unfolding map_of_dict_of by (subst map_of_inject_set) (simp_all add: rev_map [symmetric])

lemma nat_str_1: "nat_str 1 = ''1''"
  by code_simp

lemma sorted_scores_head:
  assumes "best \<in> set scores" "\<not> disqualified best"
    and "\<And>s. s \<in> set scores \<Longrightarrow> \<not> disqualified s \<Longrightarrow> s \<noteq> best \<Longrightarrow> composite best < composite s"
  shows "\<exists>rest. sorted_scores scores = best # rest"
proof -
  let ?d = "\<lambda>s. if disqualified s then (1 :: nat) else 0"
  define ys where "ys = sort_key composite scores"
  have "sorted (map composite (filter (\<lambda>s. ?d s = k) (sort_key ?d ys)))" for k
    unfolding sort_key_stable unfolding ys_def by (rule sorted_filter) simp
  from lexicographic_order [OF _ this]
  have ordered: "sorted_wrt (\<lambda>a b. ?d a \<le> ?d b \<and> (?d a = ?d b \<longrightarrow> composite a \<le> composite b)) (sorted_scores scores)"
    by (simp add: sorted_scores_def ys_def)
  have set: "set (sorted_scores scores) = set scores" by (simp add: sorted_scores_def)
  then obtain x rest where x: "sorted_scores scores = x # rest" using assms(1) by (cases "sorted_scores scores") auto
  have "x = best"
  proof (rule ccontr)
    assume "x \<noteq> best"
    then have "best \<in> set rest" "x \<in> set scores" using set x assms(1) by auto
    then show False using ordered x assms(2) assms(3) [of x] \<open>x \<noteq> best\<close> by (auto split: if_splits)
  qed
  then show ?thesis using x by simp
qed

lemma rank_first:
  assumes "sorted_scores scores = best # rest" "distinct (map cs_plan_id scores)"
  shows "rank_str scores pid = ''#1'' \<longleftrightarrow> pid = cs_plan_id best"
proof -
  have "mset (sorted_scores scores) = mset scores" by (simp add: sorted_scores_def)
  then have ids: "distinct (map cs_plan_id (best # rest))"
    using assms by (metis mset_eq_imp_distinct_iff mset_map)
  have keys: "map fst (map (\<lambda>(i, s). (cs_plan_id s, i)) (enumerate n xs)) = map cs_plan_id xs" for n xs
    by (induction xs arbitrary: n) simp_all
  have ranks: "map_of (rank_by_plan scores) = map_of (map (\<lambda>(i, s). (cs_plan_id s, i)) (enumerate 1 (best # rest)))"
    unfolding rank_by_plan_def assms(1) by (rule map_of_dict_of_distinct) (unfold keys, rule ids)
  have later: "n \<noteq> 1" if "map_of (map (\<lambda>(i, s). (cs_plan_id s, i)) (enumerate (Suc 1) rest)) pid = Some n" for n
    using map_of_SomeD [OF that] by (auto simp: enumerate_eq_zip dest!: set_zip_leftD)
  show ?thesis
  proof (cases "pid = cs_plan_id best")
    case True
    then have "map_of (rank_by_plan scores) pid = Some 1" by (simp add: ranks)
    then show ?thesis using True nat_str_1 by (simp add: rank_str_def)
  next
    case False
    then have "map_of (rank_by_plan scores) pid = map_of (map (\<lambda>(i, s). (cs_plan_id s, i)) (enumerate (Suc 1) rest)) pid"
      by (simp add: ranks)
    then have "map_of (rank_by_plan scores) pid \<noteq> Some 1" using later by metis
    moreover have "nat_str n = ''1'' \<longleftrightarrow> n = 1" for n by (metis nat_str_inj nat_str_1)
    ultimately show ?thesis using False by (cases "map_of (rank_by_plan scores) pid") (simp_all add: rank_str_def)
  qed
qed




text \<open>A tie has no winner, and yet one of the candidates is called the winner.\<close>

definition tied_scores :: "CandidateScore list" where
  "tied_scores = map (\<lambda>p. \<lparr>cs_plan_id = p, composite = 1 / 2, components = [], disqualified = False,
     disqualification_reason = None\<rparr>) [''a'', ''b'']"

lemma ambiguous_winner_shown:
  "\<exists>r. arbitrate tied_scores None None ''inc'' (3 / 20) 0 = Inr r \<and> tr_outcome r = AMBIGUOUS \<and> winner_plan_id r = None \<and>
    status_str tied_scores ''a'' = ''winner (#1)''"
proof -
  have "case arbitrate tied_scores None None ''inc'' (3 / 20) 0 of
      Inr r \<Rightarrow> tr_outcome r = AMBIGUOUS \<and> winner_plan_id r = None | Inl e \<Rightarrow> False" by code_simp
  moreover have "status_str tied_scores ''a'' = ''winner (#1)''" by code_simp
  ultimately show ?thesis by (auto split: sum.splits)
qed

end
