(* ===== verification/Spec2Isabelle.thy ===== *)
theory Spec2Isabelle
  imports Facts Arbiter Incident Reducers Production Store Llm Playbook Inverse Prompt Planner Apply Rehearsal Fork Reader Mirror Ids Pager Deploys Logs Measured Runner
begin

text \<open>
  Understudy remediates production incidents of a small Kubernetes demo system.  An alert starts a run of a
  graph of fifteen nodes (\<^verbatim>\<open>orchestrator/\<close>): gather the context, plan candidate remediations with a language
  model (\<^verbatim>\<open>planner/\<close>, \<^verbatim>\<open>playbook/\<close>), fork one twin of production per candidate (\<^verbatim>\<open>fleet/\<close>, \<^verbatim>\<open>mirror/\<close>),
  apply every candidate to its twin (\<^verbatim>\<open>actuator/apply.py\<close>), observe it (\<^verbatim>\<open>tournament/probe.py\<close>,
  \<^verbatim>\<open>tournament/blast.py\<close>), score the candidates and choose a winner (\<^verbatim>\<open>tournament/scorer.py\<close>,
  \<^verbatim>\<open>arbiter.py\<close>, \<^verbatim>\<open>judge.py\<close>), prove the winner against the invariants K1-K10 (\<^verbatim>\<open>kernel/\<close>), apply it to
  production behind a gate (\<^verbatim>\<open>actuator/production.py\<close>), and record the run (\<^verbatim>\<open>store/\<close>) or page a human.
  All paths are under \<^verbatim>\<open>src/understudy/\<close>, except those of \<^verbatim>\<open>services/\<close>.

  Conventions.  A Python float and a datetime are exact rationals (\<open>rat\<close>; a datetime is seconds since an
  epoch), an int is \<open>int\<close>, a str a list of 8-bit characters, a dict an association list in insertion order.
  A model's optional field is an \<open>option\<close>; the field constraints of the validation library are hypotheses of
  the theorems that need them.  An exception is a value: \<open>PyExc\<close> (a class name of \<^verbatim>\<open>common/errors.py\<close> with its
  text, or a cancellation) in a sum type, every raise and early return being a branch.  Code that calls other
  components or services is state passing over the trace of calls made so far (theory Effects): what a call
  returns is an arbitrary function of the trace, so the theorems hold for every behaviour of the environment.
  Code that is not in the repository (the SMT solver, the Kubernetes client, HTTP services, the language model,
  json.loads) is an argument of the definitions that use it; a theorem that relies on its documented behaviour
  says so in a hypothesis.

  The theories, in the order in which they build on each other:

  \<^item> Prelude: results, strings, dicts, minima, rounding, closure of a successor relation.  Effects: exceptions,
    traces of calls, the combinators of effectful code and the rules that say which calls it makes.
  \<^item> Contracts: the frozen models of \<^verbatim>\<open>contracts/\<close>.
  \<^item> Smt, KernelDsl, Invariants, Explain, Verify: the safety kernel.  Smt is the fragment of terms the kernel
    builds and their meaning; KernelDsl is \<^verbatim>\<open>kernel/dsl.py\<close> (the fact context); Invariants holds the build method
    of each K-invariant; Explain the texts of vetoes; Verify the loop of \<^verbatim>\<open>kernel/verify.py\<close> against a solver
    and a clock that are parameters.  The lemmas show that a PASS means every invariant holds in the model the
    facts describe, that a VETO means one is violated with all its facts known, that a missing fact or a spent
    time budget gives UNCERTAIN, and that nothing else is possible.
  \<^item> Graph: the service graph (\<^verbatim>\<open>graph/\<close>): Kahn's algorithm accepts exactly the acyclic manifests; dependents,
    request shares and blast radius.
  \<^item> Facts: \<^verbatim>\<open>kernel/facts.py\<close>, and what a PASS says of the plan once the facts come from the extractors.
  \<^item> Scorer, Arbiter, Llm: the tournament (\<^verbatim>\<open>tournament/scorer.py\<close>, \<^verbatim>\<open>arbiter.py\<close>, \<^verbatim>\<open>judge.py\<close>) and the reading of
    replies of language models.
  \<^item> Rehearsal: \<^verbatim>\<open>tournament/probe.py\<close> and \<^verbatim>\<open>blast.py\<close>.  The probe loop is run with fuel; a number of rounds that
    covers the time limit by poll intervals is enough (\<open>probe_ends\<close>).
  \<^item> Orchestrator, IncidentLoop, LoopSafety, LoopOutcome, Reducers, Incident: the graph of nodes as a step
    relation and as a function with a node budget.  The graph has no cycle and no path longer than
    \<open>MAX_NODES\<close> = 14 nodes, so that budget is enough for every run (\<open>graph_terminates\<close>).  IncidentLoop is the
    library (which calls a node can make, which fields it writes), LoopSafety and LoopOutcome prove the
    invariants of the configurations, Incident the properties of a whole run.
  \<^item> Production: the gate in front of production (K10 and the caller guard).  Store: the run stores of
    \<^verbatim>\<open>store/fakes.py\<close> and \<^verbatim>\<open>store/postgres.py\<close> behind one contract, a locale interpreted on both.
    Playbook: \<^verbatim>\<open>playbook/\<close> and its two stores, likewise.
  \<^item> Inverse, Prompt, Planner: the planner with its retries, and what a plan that leaves it satisfies.
  \<^item> Apply: the handlers that patch the cluster.
  \<^item> TwinNames, Url, Render: \<^verbatim>\<open>fleet/render.py\<close>.  The names of a twin's database and namespace, the parsing and
    rewriting of URLs, the manifests of a twin; nothing in a rendered environment leads back to production.
  \<^item> Reader: \<^verbatim>\<open>fleet/k8s.py\<close>, the snapshot of production the twins are rendered from: which image a container is pinned
    to and why, which ConfigMaps are read, when the read is refused.
  \<^item> TwinDb, Teardown, Fork: \<^verbatim>\<open>fleet/database.py\<close>, \<^verbatim>\<open>teardown.py\<close> and \<^verbatim>\<open>controller.py\<close>.  Cloning and dropping
    databases by SQL, tear-down and garbage collection, forking with its roll-back.  What the manager may rely on
    of a database cloner is the locale \<open>twin_databases\<close>, interpreted on the one for Postgres.  The wait for readiness
    is run with fuel; one poll more than poll intervals fit into the timeout is enough.
  \<^item> Gateway: the mirror gateway (\<^verbatim>\<open>services/mirror_gateway/\<close> at the top of the repository): registrations, the
    fan-out of production's requests into bounded queues, and the workers, as a step relation with the function that
    runs it; what becomes of every request.  Mirror: its client \<^verbatim>\<open>mirror/registry.py\<close>, the fake one, and
    \<^verbatim>\<open>mirror/fidelity.py\<close>; the contract of a registry is the locale \<open>mirror_registry\<close>, interpreted on the fake and on
    the client when the gateway of theory Gateway answers it.
  \<^item> Ids: \<^verbatim>\<open>common/ids.py\<close>, identifiers over machine bytes.  Alerts: \<^verbatim>\<open>signals/pagerduty.py\<close>, the signed
    webhooks, the routes and the queue the runs take their alerts from, as a step relation.  Pager:
    \<^verbatim>\<open>notify/pagerduty.py\<close>, the incident an escalation goes to and what has been sent when it returns.
  \<^item> Deploys: \<^verbatim>\<open>signals/github.py\<close> and the overlay of \<^verbatim>\<open>signals/scenarios.py\<close>.  The query of the commits is run
    with fuel; the limit plus one rounds are enough when no page is empty.  The cache is transparent, and no failed
    request is read as a deploy.
  \<^item> Rx, Monitoring, Logs, Measured: \<^verbatim>\<open>signals/prometheus.py\<close> and \<^verbatim>\<open>signals/loki.py\<close>.  Rx is a matcher for the
    regular expressions Logs rewrites messages with.  Measured puts the tracker of Rehearsal on the windows of
    Monitoring through the locale \<open>window_source\<close>.
  \<^item> Runner: \<^verbatim>\<open>runner.py\<close>, the reading of a scenario's data, the scoreboard and the summary of a run.  The lines of the
    scoreboard are equally long, and where the arbiter decides, the scoreboard names its winner.
  \<^item> Text, Json (the values of json.loads) and Triples are libraries of these: texts, and weakest preconditions of effectful code with one rule per
    combinator and an invariant rule per loop.

  Not modelled: the HTTP and Kubernetes clients, making Kubernetes clients from a kubeconfig, the metrics and the life cycle of the gateway's process, the command line, searching scenario files, the driver of the graph behind the runner, drawing the graph, the database schema, the
  checkpoint adapter, the demo services, the servers of the
  receiver, the other adapters of \<^verbatim>\<open>signals/\<close> and \<^verbatim>\<open>notify/\<close>, logging, and the interleaving of concurrent requests, which are made
  in the order of their list.
\<close>

end
